(* ===== verification/Rust_Prelude.thy ===== *)
theory Rust_Prelude
  imports Main "HOL-Library.Word" "HOL-Library.Sublist"
begin

text \<open>
  What the Rust source takes from the language and its standard library, shared by every
  component.

  \<^item> A Rust \<open>String\<close> or \<open>&str\<close> is the list of its UTF-8 bytes, so \<open>len\<close> is \<open>length\<close>,
    \<open>push_str\<close> is \<open>@\<close>, and \<open>starts_with\<close>, \<open>contains\<close>, \<open>find\<close> and \<open>split\<close> are exact on
    bytes. \<open>chars\<close> groups the bytes into code points. \<open>to_lowercase\<close> folds the ASCII
    letters and leaves the bytes of every other code point alone: it is exact on ASCII text.
  \<^item> \<open>Result<T, E>\<close> is \<open>'e + 'a\<close> with \<open>Inl\<close> the error; \<open>?\<close> is \<open>bind_res\<close>.
  \<^item> \<open>u32\<close>, \<open>u64\<close> and \<open>usize\<close> (64 bits) are words; the release profile of the crate leaves
    overflow checks off, so their arithmetic wraps.
  \<^item> \<open>str::parse\<close> on integers and \<open>Display\<close> on them are \<open>parse_uint\<close> and \<open>show_nat\<close>.
\<close>

named_theorems rust_str \<open>rewriting of the Rust string operations\<close>
named_theorems res_simps \<open>rewriting of results and of the question mark operator\<close>

type_synonym u8 = "8 word"
type_synonym u16 = "16 word"
type_synonym u32 = "32 word"
type_synonym u64 = "64 word"
type_synonym usize = "64 word"

subsection \<open>Results\<close>

type_synonym ('e, 'a) res = "'e + 'a"

fun bind_res :: "('e, 'a) res \<Rightarrow> ('a \<Rightarrow> ('e, 'b) res) \<Rightarrow> ('e, 'b) res" where
  "bind_res (Inl e) f = Inl e"
| "bind_res (Inr a) f = f a"

fun is_ok :: "('e, 'a) res \<Rightarrow> bool" where
  "is_ok (Inl e) = False"
| "is_ok (Inr a) = True"

fun ok_opt :: "('e, 'a) res \<Rightarrow> 'a option" where
  "ok_opt (Inl e) = None"
| "ok_opt (Inr a) = Some a"

fun unwrap_or :: "'a option \<Rightarrow> 'a \<Rightarrow> 'a" where
  "unwrap_or None d = d"
| "unwrap_or (Some x) d = x"

fun or_else :: "'a option \<Rightarrow> 'a option \<Rightarrow> 'a option" where
  "or_else None y = y"
| "or_else (Some x) y = Some x"

lemma bind_res_Inr_iff [res_simps]:
  "bind_res r f = Inr b \<longleftrightarrow> (\<exists>a. r = Inr a \<and> f a = Inr b)"
  by (cases r) auto

lemma bind_res_Inl_iff [res_simps]:
  "bind_res r f = Inl e \<longleftrightarrow> r = Inl e \<or> (\<exists>a. r = Inr a \<and> f a = Inl e)"
  by (cases r) auto

lemma is_ok_iff [res_simps]: "is_ok r \<longleftrightarrow> (\<exists>a. r = Inr a)"
  by (cases r) auto

subsection \<open>Strings as UTF-8 bytes\<close>

definition starts_with :: "string \<Rightarrow> string \<Rightarrow> bool" where
  "starts_with s p = prefix p s"

definition strip_prefix :: "string \<Rightarrow> string \<Rightarrow> string option" where
  "strip_prefix s p = (if prefix p s then Some (drop (length p) s) else None)"

definition strip_suffix :: "string \<Rightarrow> string \<Rightarrow> string option" where
  "strip_suffix s p =
     (if suffix p s then Some (take (length s - length p) s) else None)"

definition contains :: "string \<Rightarrow> string \<Rightarrow> bool" where
  "contains s p = sublist p s"

text \<open>\<open>s.find(c)\<close> for a one-byte pattern: the byte index of its first occurrence.\<close>

fun find_char :: "char \<Rightarrow> string \<Rightarrow> nat option" where
  "find_char c [] = None"
| "find_char c (x # xs) = (if x = c then Some 0 else map_option Suc (find_char c xs))"

text \<open>\<open>s.find(p)\<close> for a string pattern.\<close>

fun find_str :: "string \<Rightarrow> string \<Rightarrow> nat option" where
  "find_str p [] = (if p = [] then Some 0 else None)"
| "find_str p (x # xs) =
     (if prefix p (x # xs) then Some 0 else map_option Suc (find_str p xs))"

definition split_once :: "char \<Rightarrow> string \<Rightarrow> (string \<times> string) option" where
  "split_once c s =
     (case find_char c s of None \<Rightarrow> None | Some i \<Rightarrow> Some (take i s, drop (Suc i) s))"

text \<open>\<open>s.split(c)\<close>: one piece more than there are separators.\<close>

fun split_on :: "char \<Rightarrow> string \<Rightarrow> string list" where
  "split_on c [] = [[]]"
| "split_on c (x # xs) =
     (if x = c then [] # split_on c xs
      else case split_on c xs of [] \<Rightarrow> [[x]] | p # ps \<Rightarrow> (x # p) # ps)"

text \<open>\<open>slice.join(sep)\<close>.\<close>

fun join :: "string \<Rightarrow> string list \<Rightarrow> string" where
  "join sep [] = []"
| "join sep [x] = x"
| "join sep (x # y # zs) = x @ sep @ join sep (y # zs)"

abbreviation byte :: "char \<Rightarrow> nat" where
  "byte c \<equiv> of_char c"

definition to_lowercase_char :: "char \<Rightarrow> char" where
  "to_lowercase_char c = (if 65 \<le> byte c \<and> byte c \<le> 90 then char_of (byte c + 32) else c)"

definition to_lowercase :: "string \<Rightarrow> string" where
  "to_lowercase s = map to_lowercase_char s"

definition is_ascii_digit :: "char \<Rightarrow> bool" where
  "is_ascii_digit c \<longleftrightarrow> 48 \<le> byte c \<and> byte c \<le> 57"

text \<open>
  \<open>s.chars()\<close>: a code point is a byte that is not a continuation byte (\<open>10xxxxxx\<close>) with the
  continuation bytes after it.
\<close>

definition is_cont_byte :: "char \<Rightarrow> bool" where
  "is_cont_byte c \<longleftrightarrow> byte c div 64 = 2"

function chars :: "string \<Rightarrow> string list" where
  "chars [] = []"
| "chars (c # cs) = (c # takeWhile is_cont_byte cs) # chars (dropWhile is_cont_byte cs)"
  by pat_completeness auto
termination
  by (relation "measure length") (auto simp: le_imp_less_Suc length_dropWhile_le)

text \<open>\<open>s.chars().take(n).collect()\<close> and \<open>s.chars().count()\<close>.\<close>

definition take_chars :: "nat \<Rightarrow> string \<Rightarrow> string" where
  "take_chars n s = concat (take n (chars s))"

definition char_count :: "string \<Rightarrow> nat" where
  "char_count s = length (chars s)"

text \<open>\<open>&s[..n]\<close> panics, which is \<open>None\<close>, unless \<open>n\<close> is a boundary of a code point.\<close>

definition is_char_boundary :: "nat \<Rightarrow> string \<Rightarrow> bool" where
  "is_char_boundary n s \<longleftrightarrow> n = 0 \<or> n = length s \<or> (n < length s \<and> \<not> is_cont_byte (s ! n))"

definition slice_to :: "nat \<Rightarrow> string \<Rightarrow> string option" where
  "slice_to n s = (if is_char_boundary n s then Some (take n s) else None)"

definition slice_from :: "nat \<Rightarrow> string \<Rightarrow> string option" where
  "slice_from n s = (if is_char_boundary n s then Some (drop n s) else None)"

text \<open>\<open>char::is_alphanumeric\<close> on a code point; beyond ASCII it is the property \<open>uni\<close>.\<close>

definition is_alphanumeric :: "(string \<Rightarrow> bool) \<Rightarrow> string \<Rightarrow> bool" where
  "is_alphanumeric uni c =
     (case c of [b] \<Rightarrow> 48 \<le> byte b \<and> byte b \<le> 57 \<or> 65 \<le> byte b \<and> byte b \<le> 90 \<or> 97 \<le> byte b \<and> byte b \<le> 122
      | _ \<Rightarrow> uni c)"

text \<open>
  \<open>char::is_whitespace\<close>, the Unicode property \<open>White_Space\<close>, on the bytes of one code point:
  U+0009 to U+000D, U+0020, U+0085, U+00A0, U+1680, U+2000 to U+200A, U+2028, U+2029, U+202F,
  U+205F and U+3000.
\<close>

definition is_whitespace :: "string \<Rightarrow> bool" where
  "is_whitespace cp = (case map byte cp of
       [a] \<Rightarrow> 9 \<le> a \<and> a \<le> 13 \<or> a = 32
     | [a, b] \<Rightarrow> a = 194 \<and> (b = 133 \<or> b = 160)
     | [a, b, c] \<Rightarrow>
         a = 225 \<and> b = 154 \<and> c = 128
         \<or> a = 226 \<and> b = 128 \<and> (128 \<le> c \<and> c \<le> 138 \<or> c = 168 \<or> c = 169 \<or> c = 175)
         \<or> a = 226 \<and> b = 129 \<and> c = 159
         \<or> a = 227 \<and> b = 128 \<and> c = 128
     | _ \<Rightarrow> False)"

definition trim_start :: "string \<Rightarrow> string" where
  "trim_start s = concat (dropWhile is_whitespace (chars s))"

definition trim :: "string \<Rightarrow> string" where
  "trim s = concat (rev (dropWhile is_whitespace (rev (dropWhile is_whitespace (chars s)))))"

fun words_of :: "string list \<Rightarrow> string list \<Rightarrow> string list" where
  "words_of acc [] = (if acc = [] then [] else [concat acc])"
| "words_of acc (c # cs) =
     (if is_whitespace c
      then (if acc = [] then words_of [] cs else concat acc # words_of [] cs)
      else words_of (acc @ [c]) cs)"

definition split_whitespace :: "string \<Rightarrow> string list" where
  "split_whitespace s = words_of [] (chars s)"

text \<open>\<open>str::lines\<close> and \<open>BufRead::lines\<close>: split at each newline, a final newline opens no line, and one
  carriage return before a newline goes too; a last line without a newline stays as it is.\<close>

definition strip_cr :: "string \<Rightarrow> string" where
  "strip_cr l = (if l \<noteq> [] \<and> byte (last l) = 13 then butlast l else l)"

definition newline :: char where
  "newline = CHR 0x0A"

abbreviation nl :: string where
  "nl \<equiv> [newline]"

definition nl2 :: string where
  "nl2 = [newline, newline]"

definition lines :: "string \<Rightarrow> string list" where
  "lines s = (let ps = split_on newline s in
     map strip_cr (butlast ps) @ (if last ps = [] then [] else [last ps]))"

subsection \<open>Integers and text\<close>

definition saturating_sub :: "u64 \<Rightarrow> u64 \<Rightarrow> u64" where
  "saturating_sub a b = (if b \<le> a then a - b else 0)"

definition digit_char :: "nat \<Rightarrow> char" where
  "digit_char d = char_of (48 + d)"

fun show_nat :: "nat \<Rightarrow> string" where
  "show_nat n = (if n < 10 then [digit_char n] else show_nat (n div 10) @ [digit_char (n mod 10)])"

declare show_nat.simps [simp del]

definition show_int :: "int \<Rightarrow> string" where
  "show_int i = (if i < 0 then ''-'' @ show_nat (nat (- i)) else show_nat (nat i))"

fun digits_value :: "nat \<Rightarrow> string \<Rightarrow> nat" where
  "digits_value n [] = n"
| "digits_value n (c # cs) = digits_value (10 * n + (byte c - 48)) cs"

text \<open>
  \<open>str::parse\<close> for an unsigned integer with largest value \<open>m\<close>: an optional plus sign, then at
  least one ASCII digit and nothing else; a value above \<open>m\<close> is an error.
\<close>

definition parse_uint :: "nat \<Rightarrow> string \<Rightarrow> nat option" where
  "parse_uint m s =
     (let ds = (case s of c # cs \<Rightarrow> if byte c = 43 then cs else s | [] \<Rightarrow> s) in
      if ds \<noteq> [] \<and> list_all is_ascii_digit ds \<and> digits_value 0 ds \<le> m
      then Some (digits_value 0 ds) else None)"

text \<open>\<open>str::parse::<i64>\<close>.\<close>

definition parse_i64 :: "string \<Rightarrow> int option" where
  "parse_i64 s =
     (case s of
        c # cs \<Rightarrow>
          if byte c = 45
          then (if cs \<noteq> [] \<and> list_all is_ascii_digit cs \<and> digits_value 0 cs \<le> 2 ^ 63
                then Some (- int (digits_value 0 cs)) else None)
          else map_option int (parse_uint (2 ^ 63 - 1) s)
      | [] \<Rightarrow> None)"

subsection \<open>Lemmas on strings\<close>

lemma concat_chars [simp]: "concat (chars s) = s"
  by (induction s rule: chars.induct) auto

lemma chars_eq_Nil_iff [simp]: "chars s = [] \<longleftrightarrow> s = []"
  by (cases s) auto

lemma take_chars_prefix: "prefix (take_chars n s) s"
proof -
  have "s = take_chars n s @ concat (drop n (chars s))"
    unfolding take_chars_def by (metis append_take_drop_id concat_append concat_chars)
  then show ?thesis by (rule prefixI)
qed

lemma length_take_chars_le: "length (take_chars n s) \<le> length s"
  using take_chars_prefix [of n s] by (rule prefix_length_le)

lemma char_count_take_chars: "char_count s \<le> n \<Longrightarrow> take_chars n s = s"
  by (simp add: take_chars_def char_count_def)

lemma chars_ascii: "\<forall>c \<in> set s. \<not> is_cont_byte c \<Longrightarrow> chars s = map (\<lambda>c. [c]) s"
proof (induction s)
  case (Cons c cs)
  then have "takeWhile is_cont_byte cs = []" and "dropWhile is_cont_byte cs = cs"
    by (cases cs; simp)+
  with Cons show ?case by simp
qed simp

lemma starts_with_append [simp, rust_str]: "starts_with (p @ s) p"
  by (simp add: starts_with_def)

lemma strip_prefix_append [simp, rust_str]: "strip_prefix (p @ s) p = Some s"
  by (simp add: strip_prefix_def)

lemma strip_prefix_Some_iff [rust_str]: "strip_prefix s p = Some r \<longleftrightarrow> s = p @ r"
  by (auto simp: strip_prefix_def prefix_def)

lemma strip_suffix_append [simp, rust_str]: "strip_suffix (s @ p) p = Some s"
  by (simp add: strip_suffix_def suffix_def)

lemma find_char_append [rust_str]:
  "c \<notin> set p \<Longrightarrow> find_char c (p @ c # q) = Some (length p)"
  by (induction p) auto

lemma find_char_None_iff: "find_char c s = None \<longleftrightarrow> c \<notin> set s"
  by (induction s) auto

lemma find_char_SomeD:
  "find_char c s = Some i \<Longrightarrow> i < length s \<and> s ! i = c \<and> c \<notin> set (take i s)"
proof (induction s arbitrary: i)
  case (Cons x xs)
  show ?case
  proof (cases "x = c")
    case True
    with Cons.prems show ?thesis by simp
  next
    case False
    with Cons.prems obtain j where "find_char c xs = Some j" and i: "i = Suc j"
      by auto
    from Cons.IH [OF this(1)] have "j < length xs \<and> xs ! j = c \<and> c \<notin> set (take j xs)" .
    with False i show ?thesis by auto
  qed
qed simp

lemma split_on_not_Nil [simp]: "split_on c s \<noteq> []"
  by (induction s) (auto split: list.splits)

lemma split_on_no_sep: "c \<notin> set s \<Longrightarrow> split_on c s = [s]"
  by (induction s) auto

lemma split_on_append:
  "c \<notin> set p \<Longrightarrow> split_on c (p @ c # q) = p # split_on c q"
  by (induction p) auto

lemma split_on_no_sep_in: "p \<in> set (split_on c s) \<Longrightarrow> c \<notin> set p"
  by (induction s arbitrary: p) (fastforce split: list.splits if_splits)+

lemma join_split_on: "join [c] (split_on c s) = s"
proof (induction s)
  case (Cons x xs)
  obtain p ps where "split_on c xs = p # ps"
    by (cases "split_on c xs") auto
  with Cons show ?case by (cases ps) auto
qed simp

text \<open>A text written line by line is read back line by line.\<close>

definition line_ok :: "string \<Rightarrow> bool" where
  "line_ok l \<longleftrightarrow> newline \<notin> set l \<and> strip_cr l = l"

lemma split_on_lines:
  "\<forall>l \<in> set ls. newline \<notin> set l \<Longrightarrow>
   split_on newline (concat (map (\<lambda>l. l @ [newline]) ls)) = ls @ [[]]"
  by (induction ls) (auto simp: split_on_append)

lemma lines_unlines:
  assumes "\<forall>l \<in> set ls. line_ok l"
  shows "lines (concat (map (\<lambda>l. l @ [newline]) ls)) = ls"
proof -
  have sp: "split_on newline (concat (map (\<lambda>l. l @ [newline]) ls)) = ls @ [[]]"
    by (rule split_on_lines) (use assms in \<open>auto simp: line_ok_def\<close>)
  have "map strip_cr ls = ls"
    by (rule map_idI) (use assms in \<open>auto simp: line_ok_def\<close>)
  then show ?thesis unfolding lines_def sp by simp
qed

subsection \<open>Printing and parsing of integers\<close>

lemma byte_digit_char [simp]: "d < 10 \<Longrightarrow> byte (digit_char d) = 48 + d"
  by (simp add: digit_char_def)

lemma is_ascii_digit_digit_char [simp]: "d < 10 \<Longrightarrow> is_ascii_digit (digit_char d)"
  by (simp add: is_ascii_digit_def)

lemma digits_value_append: "digits_value n (xs @ ys) = digits_value (digits_value n xs) ys"
  by (induction xs arbitrary: n) auto

lemma show_nat_not_Nil [simp]: "show_nat n \<noteq> []"
  by (subst show_nat.simps) simp

lemma show_nat_digits: "list_all is_ascii_digit (show_nat n)"
proof (induction n rule: show_nat.induct)
  case (1 n)
  then show ?case
    by (subst show_nat.simps) simp
qed

lemma digits_value_show_nat: "digits_value 0 (show_nat n) = n"
proof (induction n rule: show_nat.induct)
  case (1 n)
  then show ?case
    by (subst show_nat.simps) (auto simp: digits_value_append)
qed

lemma parse_uint_show_nat:
  assumes "n \<le> m"
  shows "parse_uint m (show_nat n) = Some n"
proof -
  obtain c cs where s: "show_nat n = c # cs"
    by (cases "show_nat n") auto
  with show_nat_digits [of n] have "byte c \<noteq> 43"
    by (auto simp: is_ascii_digit_def)
  then have "(case show_nat n of c # cs \<Rightarrow> if byte c = 43 then cs else show_nat n
     | [] \<Rightarrow> show_nat n) = show_nat n"
    by (simp add: s)
  then show ?thesis
    using assms by (simp add: parse_uint_def digits_value_show_nat show_nat_digits)
qed

lemma show_nat_inj: "show_nat m = show_nat n \<Longrightarrow> m = n"
  by (metis digits_value_show_nat)

lemma show_nat_not_minus: "show_nat n \<noteq> CHR ''-'' # s"
proof
  assume "show_nat n = CHR ''-'' # s"
  then have "is_ascii_digit (CHR ''-'')" using show_nat_digits [of n] by simp
  then show False by (simp add: is_ascii_digit_def)
qed

lemma show_int_inj: "show_int i = show_int j \<Longrightarrow> i = j"
  using show_nat_not_minus show_nat_not_minus [symmetric]
  by (auto simp: show_int_def split: if_splits dest!: show_nat_inj)

lemma parse_uint_le: "parse_uint m s = Some n \<Longrightarrow> n \<le> m"
  by (auto simp: parse_uint_def Let_def split: if_splits)

text \<open>Text is a sequence of code points: what \<open>chars\<close> cuts is put together again and cut the same way.\<close>

definition code_point :: "string \<Rightarrow> bool" where
  "code_point c \<longleftrightarrow> c \<noteq> [] \<and> \<not> is_cont_byte (hd c) \<and> list_all is_cont_byte (tl c)"

definition starts_clean :: "string \<Rightarrow> bool" where
  "starts_clean s \<longleftrightarrow> s = [] \<or> \<not> is_cont_byte (hd s)"

lemma code_points_start: "list_all code_point cs \<Longrightarrow> starts_clean (concat cs)"
  by (cases cs) (auto simp: starts_clean_def code_point_def hd_append)

lemma chars_cons_point: "code_point c \<Longrightarrow> starts_clean s \<Longrightarrow> chars (c @ s) = c # chars s"
proof (cases c)
  case (Cons b bs)
  assume "code_point c" "starts_clean s"
  then have "takeWhile is_cont_byte (bs @ s) = bs" "dropWhile is_cont_byte (bs @ s) = s"
    by (cases s; simp add: Cons code_point_def starts_clean_def takeWhile_append dropWhile_append list_all_iff)+
  then show ?thesis by (simp add: Cons)
qed (simp add: code_point_def)

lemma chars_concat_append: "list_all code_point cs \<Longrightarrow> starts_clean s \<Longrightarrow> chars (concat cs @ s) = cs @ chars s"
proof (induction cs)
  case (Cons c cs)
  have "starts_clean (concat cs @ s)"
    using Cons.prems code_points_start [of cs] by (cases "concat cs = []") (auto simp: starts_clean_def hd_append simp del: concat_eq_Nil_conv)
  then show ?case using Cons by (simp add: chars_cons_point)
qed simp

lemmas chars_concat = chars_concat_append [of _ "[]", simplified starts_clean_def, simplified]

lemma code_point_chars: "starts_clean s \<Longrightarrow> list_all code_point (chars s)"
proof (induction s rule: chars.induct)
  case (2 c cs)
  have rest: "starts_clean (dropWhile is_cont_byte cs)"
    using hd_dropWhile [of is_cont_byte cs] by (auto simp: starts_clean_def)
  have "code_point (c # takeWhile is_cont_byte cs)"
    using "2.prems" by (auto simp: code_point_def starts_clean_def list_all_iff dest: set_takeWhileD)
  then show ?case using "2.IH" rest by simp
qed simp

lemma chars_shape: "d \<in> set (chars s) \<Longrightarrow> d \<noteq> [] \<and> list_all is_cont_byte (tl d)"
  by (induction s rule: chars.induct) (auto simp: list_all_iff dest: set_takeWhileD)

subsection \<open>Hash maps\<close>

text \<open>A \<open>HashMap\<close> that is iterated over is an association list with distinct keys, in the order of first
  insertion where the code's order is unspecified. \<open>upsert k d f\<close> is the entry of \<open>k\<close>, \<open>d\<close> if there is
  none, updated by \<open>f\<close>.\<close>

fun upsert :: "'k \<Rightarrow> 'v \<Rightarrow> ('v \<Rightarrow> 'v) \<Rightarrow> ('k \<times> 'v) list \<Rightarrow> ('k \<times> 'v) list" where
  "upsert k d f [] = [(k, f d)]"
| "upsert k d f ((k', v) # kvs) = (if k' = k then (k', f v) # kvs else (k', v) # upsert k d f kvs)"

lemma keys_upsert: "fst ` set (upsert k d f kvs) = insert k (fst ` set kvs)"
  by (induction k d f kvs rule: upsert.induct) auto

lemma distinct_upsert: "distinct (map fst kvs) \<Longrightarrow> distinct (map fst (upsert k d f kvs))"
proof (induction k d f kvs rule: upsert.induct)
  case (2 k d f k' v kvs)
  with keys_upsert [of k d f kvs] show ?case by auto
qed simp

lemma map_of_upsert:
  "map_of (upsert k d f kvs) k' =
     (if k' = k then Some (f (case map_of kvs k of Some v \<Rightarrow> v | None \<Rightarrow> d)) else map_of kvs k')"
  by (induction k d f kvs rule: upsert.induct) auto

lemma set_upsert:
  "(k', v) \<in> set (upsert k d f kvs) \<Longrightarrow> (k', v) \<in> set kvs \<or> (k' = k \<and> (v = f d \<or> (\<exists>u. (k, u) \<in> set kvs \<and> v = f u)))"
  by (induction k d f kvs rule: upsert.induct) (auto split: if_splits)

lemma map_of_filter_value:
  assumes "distinct (map fst kvs)"
  shows "map_of (filter (\<lambda>(k, v). P v) kvs) k =
    (case map_of kvs k of Some v \<Rightarrow> if P v then Some v else None | None \<Rightarrow> None)"
  using assms by (induction kvs) (auto split: option.splits dest: map_of_SomeD image_eqI [rotated] weak_map_of_SomeI
      simp: map_of_eq_None_iff)

text \<open>\<open>insert\<close>: a new entry, or a new value for the entry there is.\<close>

definition put :: "'k \<Rightarrow> 'v \<Rightarrow> ('k \<times> 'v) list \<Rightarrow> ('k \<times> 'v) list" where
  "put k v m = upsert k v (\<lambda>_. v) m"

lemma map_of_put [simp]: "map_of (put k v m) = (map_of m)(k \<mapsto> v)"
  by (rule ext) (simp add: put_def map_of_upsert)

lemma distinct_put: "distinct (map fst m) \<Longrightarrow> distinct (map fst (put k v m))"
  by (simp add: put_def distinct_upsert)

lemma set_put: "set (put k v m) \<subseteq> insert (k, v) (set m)"
  by (induction m) (auto simp: put_def split: if_splits)

end
