(* ===== verification/Llm_Types.thy ===== *)
theory Llm_Types
  imports Rust_Prelude
begin

text \<open>
  The data the agent exchanges with its language models
  (\<^verbatim>\<open>src/src/agent/providers.rs\<close>) and its errors (\<^verbatim>\<open>src/src/agent/llm_error.rs\<close>).

  \<open>serde_json::Value\<close> is the datatype \<open>json\<close>: an object is the map of its keys, so two objects
  with the same keys and values are equal as in the crate, an integer is \<open>JInt\<close> and a float its
  64 bits. Reading a missing key with \<open>v["k"]\<close> gives \<open>null\<close> (\<open>jindex\<close>), with \<open>get\<close> nothing
  (\<open>jget\<close>). Converting values to and from text is the crate's own and a parameter where it is
  used.
\<close>

subsection \<open>JSON values\<close>

datatype json =
    JNull
  | JBool bool
  | JInt int
  | JFloat u64
  | JStr string
  | JArr "json list"
  | JObj "string \<Rightarrow> json option"

fun jget :: "json \<Rightarrow> string \<Rightarrow> json option" where
  "jget (JObj m) k = m k"
| "jget v k = None"

definition jindex :: "json \<Rightarrow> string \<Rightarrow> json" where
  "jindex v k = (case jget v k of Some x \<Rightarrow> x | None \<Rightarrow> JNull)"

fun as_str :: "json \<Rightarrow> string option" where
  "as_str (JStr s) = Some s"
| "as_str v = None"

fun as_array :: "json \<Rightarrow> json list option" where
  "as_array (JArr vs) = Some vs"
| "as_array v = None"

fun as_u64 :: "json \<Rightarrow> u64 option" where
  "as_u64 (JInt n) = (if 0 \<le> n \<and> n < 2 ^ 64 then Some (of_int n) else None)"
| "as_u64 v = None"

fun as_bool :: "json \<Rightarrow> bool option" where
  "as_bool (JBool b) = Some b"
| "as_bool v = None"

definition j_u64 :: "u64 \<Rightarrow> json" where
  "j_u64 n = JInt (uint n)"

definition j_u32 :: "u32 \<Rightarrow> json" where
  "j_u32 n = JInt (uint n)"

text \<open>\<open>v["k"] = x\<close> on an object.\<close>

fun jset :: "json \<Rightarrow> string \<Rightarrow> json \<Rightarrow> json" where
  "jset (JObj m) k x = JObj (m(k \<mapsto> x))"
| "jset v k x = v"

definition jset_opt :: "json \<Rightarrow> string \<Rightarrow> json option \<Rightarrow> json" where
  "jset_opt v k x = (case x of Some y \<Rightarrow> jset v k y | None \<Rightarrow> v)"

lemma as_u64_j_u64 [simp]: "as_u64 (j_u64 n) = Some n"
  using uint_lt2p [of n] by (simp add: j_u64_def)

lemma as_u64_j_u32 [simp]: "as_u64 (j_u32 n) = Some (ucast n)"
proof -
  have "uint n < 2 ^ 32" using uint_lt2p [of n] by simp
  then have "uint n < 2 ^ 64" by simp
  then show ?thesis by (simp add: j_u32_def)
qed

lemma ucast_u32_u64 [simp]: "(ucast (ucast (n :: u32) :: u64) :: u32) = n"
  by (simp add: unsigned_ucast_eq take_bit_word_eq_self)

lemma jget_jset [simp]:
  "jget (jset (JObj m) k x) k' = (if k' = k then Some x else m k')"
  by simp

lemma jindex_JObj [simp]: "jindex (JObj m) k = (case m k of Some x \<Rightarrow> x | None \<Rightarrow> JNull)"
  by (simp add: jindex_def)

lemma jset_opt_JObj:
  "jset_opt (JObj m) k x = JObj (case x of Some y \<Rightarrow> m(k \<mapsto> y) | None \<Rightarrow> m)"
  by (cases x) (simp_all add: jset_opt_def)

subsection \<open>Messages\<close>

datatype role = System | User | Assistant | Tool

record tool_call =
  tc_id :: string
  tc_name :: string
  tc_arguments :: string

record image_attachment =
  img_data :: string
  img_media_type :: string

record message =
  role :: role
  content :: string
  tool_calls :: "tool_call list option"
  tool_call_id :: "string option"
  images :: "image_attachment list"

record tool_schema =
  ts_name :: string
  ts_description :: string
  ts_parameters :: json

record usage =
  input_tokens :: u64
  output_tokens :: u64

definition usage_total :: "usage \<Rightarrow> u64" where
  "usage_total u = input_tokens u + output_tokens u"

datatype llm_response_content = Text string | ToolCalls "tool_call list"

record llm_response =
  lr_content :: llm_response_content
  lr_usage :: "usage option"

definition resp_text :: "string \<Rightarrow> llm_response" where
  "resp_text t = \<lparr>lr_content = Text t, lr_usage = None\<rparr>"

definition resp_text_with_usage :: "string \<Rightarrow> usage \<Rightarrow> llm_response" where
  "resp_text_with_usage t u = \<lparr>lr_content = Text t, lr_usage = Some u\<rparr>"

definition resp_tool_calls :: "tool_call list \<Rightarrow> llm_response" where
  "resp_tool_calls cs = \<lparr>lr_content = ToolCalls cs, lr_usage = None\<rparr>"

definition resp_tool_calls_with_usage :: "tool_call list \<Rightarrow> usage \<Rightarrow> llm_response" where
  "resp_tool_calls_with_usage cs u = \<lparr>lr_content = ToolCalls cs, lr_usage = Some u\<rparr>"

record stream_chunk =
  delta :: string
  chunk_done :: bool
  chunk_tool_calls :: "tool_call list option"

datatype stream_event =
    Content string
  | ToolCallStart string string string
  | ApprovalRequiredEv string string string
  | ToolCallEnd string string string
  | Done

text \<open>A message with text only: the struct literal the source repeats for every role.\<close>

definition text_message :: "role \<Rightarrow> string \<Rightarrow> message" where
  "text_message r c =
     \<lparr>role = r, content = c, tool_calls = None, tool_call_id = None, images = []\<rparr>"

definition tool_message :: "string \<Rightarrow> string \<Rightarrow> message" where
  "tool_message cid out =
     \<lparr>role = Tool, content = out, tool_calls = None, tool_call_id = Some cid, images = []\<rparr>"

definition calls_message :: "string \<Rightarrow> tool_call list option \<Rightarrow> message" where
  "calls_message c calls =
     \<lparr>role = Assistant, content = c, tool_calls = calls, tool_call_id = None, images = []\<rparr>"

lemmas message_defs = text_message_def tool_message_def calls_message_def

subsection \<open>Errors\<close>

text \<open>
  \<open>LlmError\<close>, with a \<open>reqwest::Error\<close> reduced to the status it carries and its text, and the other
  wrapped errors to their text. \<open>anyhow::Error\<close> is the sum of what the agent downcasts it to: an
  \<open>LlmError\<close>, the \<open>ApprovalRequiredError\<close> of the tool executor, the circular model configuration with
  the keys its text prints, or any other error by its text.
\<close>

datatype llm_error =
    ApprovalRequired string tool_call
  | ApiRequestFailed "u16 option" string
  | ProviderError u16 string
  | RateLimit string
  | ContextWindowExceeded string
  | ConfigError string
  | IoError string
  | SerializationError string
  | Unknown string

datatype anyhow_error =
    Llm llm_error
  | ApprovalRequiredError string tool_call
  | CircularModel "string list"
  | Msg string

fun is_rate_limit :: "llm_error \<Rightarrow> bool" where
  "is_rate_limit (RateLimit _) = True"
| "is_rate_limit (ProviderError status _) = (status = 429)"
| "is_rate_limit (ApiRequestFailed st _) = (case st of Some c \<Rightarrow> c = 429 | None \<Rightarrow> False)"
| "is_rate_limit _ = False"

fun status_code :: "llm_error \<Rightarrow> u16 option" where
  "status_code (ProviderError status _) = Some status"
| "status_code (ApiRequestFailed st _) = st"
| "status_code (RateLimit _) = Some 429"
| "status_code _ = None"

lemma is_rate_limit_iff_status: "is_rate_limit e \<longleftrightarrow> status_code e = Some 429"
  by (cases e) (auto split: option.splits)

end
