(* ===== verification/Session_Model.thy ===== *)
theory Session_Model
  imports Llm_Types
begin

text \<open>
  The conversation a session keeps (\<^verbatim>\<open>src/src/agent/session.rs\<close>): its operations, the
  Pi-compatible JSONL format it is saved in and loaded from, and the search over saved sessions.

  The clock (\<open>Utc::now\<close>), the identifiers (\<open>Uuid::new_v4\<close>) and the working directory are
  arguments. The tokenizer is the argument \<open>bpe\<close>: \<open>None\<close> when \<open>cl100k_base()\<close> fails. What the
  crates \<open>serde_json\<close> and \<open>chrono\<close> do with text is the record \<open>serde\<close>. The file system is a map
  from paths to contents, and \<open>io\<close> says which of its operations fail.
\<close>

subsection \<open>State\<close>

record message_cost =
  cost_input :: u64
  cost_output :: u64
  cost_total :: u64

record message_usage =
  mu_input :: u64
  mu_output :: u64
  cache_read :: "u64 option"
  cache_write :: "u64 option"
  mu_total_tokens :: u64
  mu_cost :: "message_cost option"

record session_message =
  sm_message :: message
  provider :: "string option"
  model :: "string option"
  api :: "string option"
  sm_usage :: "message_usage option"
  stop_reason :: "string option"
  timestamp :: u64
  model_config_name :: "string option"
  latency_ms :: "u64 option"

record session =
  s_id :: string
  created_at :: int
  cwd :: string
  messages :: "session_message list"
  system_context :: "string option"
  token_count :: usize
  compaction_count :: u32
  memory_flush_compaction_count :: u32
  dirty :: bool

type_synonym tokenizer = "(string \<Rightarrow> nat) option"

definition message_usage_from :: "usage \<Rightarrow> message_usage" where
  "message_usage_from u =
     \<lparr>mu_input = input_tokens u, mu_output = output_tokens u, cache_read = None,
      cache_write = None, mu_total_tokens = usage_total u, mu_cost = None\<rparr>"

definition sm_new :: "u64 \<Rightarrow> message \<Rightarrow> session_message" where
  "sm_new now m =
     \<lparr>sm_message = m, provider = None, model = None, api = None, sm_usage = None,
      stop_reason = None, timestamp = now, model_config_name = None, latency_ms = None\<rparr>"

definition sm_with_metadata ::
  "u64 \<Rightarrow> message \<Rightarrow> string option \<Rightarrow> string option \<Rightarrow> usage option \<Rightarrow> string option
   \<Rightarrow> session_message" where
  "sm_with_metadata now m prov mdl us stop =
     \<lparr>sm_message = m, provider = prov, model = mdl,
      api = map_option (\<lambda>p. p @ ''-messages'') prov,
      sm_usage = map_option message_usage_from us, stop_reason = stop, timestamp = now,
      model_config_name = None, latency_ms = None\<rparr>"

definition new_with_cwd :: "string \<Rightarrow> int \<Rightarrow> string \<Rightarrow> session" where
  "new_with_cwd uuid now cwd_dir =
     \<lparr>s_id = uuid, created_at = now, cwd = cwd_dir, messages = [], system_context = None,
      token_count = 0, compaction_count = 0, memory_flush_compaction_count = 0, dirty = True\<rparr>"

text \<open>\<open>current\<close> is the outcome of \<open>std::env::current_dir\<close>.\<close>

definition session_new :: "string \<Rightarrow> int \<Rightarrow> string option \<Rightarrow> session" where
  "session_new uuid now current = new_with_cwd uuid now (unwrap_or current ''.'')"

definition new_with_id :: "string \<Rightarrow> int \<Rightarrow> string option \<Rightarrow> session" where
  "new_with_id sid now current =
     \<lparr>s_id = sid, created_at = now, cwd = unwrap_or current ''.'', messages = [],
      system_context = None, token_count = 0, compaction_count = 0,
      memory_flush_compaction_count = 0, dirty = True\<rparr>"

subsection \<open>Token counting\<close>

definition count_tokens_default :: "tokenizer \<Rightarrow> string \<Rightarrow> usize" where
  "count_tokens_default bpe text =
     (case bpe of Some enc \<Rightarrow> of_nat (enc text) | None \<Rightarrow> of_nat (length text div 4))"

definition message_tokens :: "tokenizer \<Rightarrow> session_message \<Rightarrow> usize" where
  "message_tokens bpe sm =
     (case sm_usage sm of
        Some u \<Rightarrow> if role (sm_message sm) = Assistant then mu_output u
                  else count_tokens_default bpe (content (sm_message sm))
      | None \<Rightarrow> count_tokens_default bpe (content (sm_message sm)))"

fun add_message_tokens :: "tokenizer \<Rightarrow> usize \<Rightarrow> session_message list \<Rightarrow> usize" where
  "add_message_tokens bpe n [] = n"
| "add_message_tokens bpe n (sm # sms) = add_message_tokens bpe (n + message_tokens bpe sm) sms"

definition recalculate_tokens :: "tokenizer \<Rightarrow> session \<Rightarrow> session" where
  "recalculate_tokens bpe s =
     s\<lparr>token_count := add_message_tokens bpe
         (case system_context s of Some c \<Rightarrow> count_tokens_default bpe c | None \<Rightarrow> 0)
         (messages s)\<rparr>"

subsection \<open>Operations\<close>

definition truncate_history :: "nat \<Rightarrow> session \<Rightarrow> session" where
  "truncate_history keep_last s =
     (let system_messages = filter (\<lambda>m. role (sm_message m) = System) (messages s);
          other = filter (\<lambda>m. role (sm_message m) \<noteq> System) (messages s);
          other' = (if keep_last < length other then drop (length other - keep_last) other
                    else other)
      in s\<lparr>messages := system_messages @ other'\<rparr>)"

definition should_memory_flush :: "session \<Rightarrow> bool" where
  "should_memory_flush s \<longleftrightarrow> memory_flush_compaction_count s \<le> compaction_count s"

definition mark_memory_flushed :: "session \<Rightarrow> session" where
  "mark_memory_flushed s =
     s\<lparr>memory_flush_compaction_count := compaction_count s + 1, dirty := True\<rparr>"

definition add_metadata_to_last_message ::
  "string option \<Rightarrow> u64 option \<Rightarrow> session \<Rightarrow> session" where
  "add_metadata_to_last_message name latency s =
     (if messages s = [] then s
      else let m = last (messages s);
               m1 = (if name \<noteq> None then m\<lparr>model_config_name := name\<rparr> else m);
               m2 = (if latency \<noteq> None then m1\<lparr>latency_ms := latency\<rparr> else m1)
           in s\<lparr>messages := butlast (messages s) @ [m2], dirty := True\<rparr>)"

definition set_system_context :: "tokenizer \<Rightarrow> string \<Rightarrow> session \<Rightarrow> session" where
  "set_system_context bpe ctx s =
     (recalculate_tokens bpe (s\<lparr>system_context := Some ctx\<rparr>))\<lparr>dirty := True\<rparr>"

definition add_message :: "tokenizer \<Rightarrow> u64 \<Rightarrow> message \<Rightarrow> session \<Rightarrow> session" where
  "add_message bpe now m s =
     s\<lparr>token_count := token_count s + count_tokens_default bpe (content m),
       messages := messages s @ [sm_new now m],
       dirty := True\<rparr>"

definition add_message_with_metadata ::
  "tokenizer \<Rightarrow> u64 \<Rightarrow> message \<Rightarrow> string option \<Rightarrow> string option \<Rightarrow> usage option \<Rightarrow> string option
   \<Rightarrow> session \<Rightarrow> session" where
  "add_message_with_metadata bpe now m prov mdl us stop s =
     (let tokens = (case us of
            Some u \<Rightarrow> if role m = Assistant then output_tokens u
                      else count_tokens_default bpe (content m)
          | None \<Rightarrow> count_tokens_default bpe (content m))
      in s\<lparr>token_count := token_count s + tokens,
           messages := messages s @ [sm_with_metadata now m prov mdl us stop],
           dirty := True\<rparr>)"

definition messages_for_llm :: "session \<Rightarrow> message list" where
  "messages_for_llm s =
     (case system_context s of Some c \<Rightarrow> [text_message System c] | None \<Rightarrow> [])
     @ map sm_message (messages s)"

definition user_assistant_messages :: "session \<Rightarrow> message list" where
  "user_assistant_messages s =
     map sm_message
       (filter (\<lambda>sm. role (sm_message sm) = User \<or> role (sm_message sm) = Assistant)
          (messages s))"

fun debug_role :: "role \<Rightarrow> string" where
  "debug_role System = ''System''"
| "debug_role User = ''User''"
| "debug_role Assistant = ''Assistant''"
| "debug_role Tool = ''Tool''"

definition summary_input :: "session_message list \<Rightarrow> string" where
  "summary_input sms =
     join nl2 (map (\<lambda>sm. debug_role (role (sm_message sm)) @ '': '' @ content (sm_message sm)) sms)"

text \<open>
  \<open>summarize\<close> is the provider's, over the world \<open>'w\<close> outside the program.
\<close>

definition compact_native ::
  "tokenizer \<Rightarrow> u64 \<Rightarrow> (string \<Rightarrow> 'w \<Rightarrow> (anyhow_error, string) res \<times> 'w)
   \<Rightarrow> session \<Rightarrow> 'w \<Rightarrow> (anyhow_error, unit) res \<times> session \<times> 'w" where
  "compact_native bpe now summarize s w =
     (if length (messages s) < 4 then (Inr (), s, w)
      else let keep_count = 4;
               n = length (messages s) - keep_count;
               (r, w') = summarize (summary_input (take n (messages s))) w
           in case r of
                Inl e \<Rightarrow> (Inl e, s, w')
              | Inr summary \<Rightarrow>
                  let head = sm_new now
                        (text_message System (''Previous conversation summary:'' @ nl2 @ summary));
                      s1 = s\<lparr>messages := head # drop n (messages s),
                             compaction_count := compaction_count s + 1\<rparr>
                  in (Inr (), (recalculate_tokens bpe s1)\<lparr>dirty := True\<rparr>, w'))"

record session_status =
  st_id :: string
  st_message_count :: nat
  st_token_count :: usize
  st_compaction_count :: u32
  api_input_tokens :: u64
  api_output_tokens :: u64

definition status_with_usage :: "u64 \<Rightarrow> u64 \<Rightarrow> session \<Rightarrow> session_status" where
  "status_with_usage inp out s =
     \<lparr>st_id = s_id s, st_message_count = length (messages s), st_token_count = token_count s,
      st_compaction_count = compaction_count s, api_input_tokens = inp,
      api_output_tokens = out\<rparr>"

definition session_status :: "session \<Rightarrow> session_status" where
  "session_status s = status_with_usage 0 0 s"

end
