(* ===== verification/Session_Tokens.thy ===== *)
theory Session_Tokens
  imports Session_Model
begin

text \<open>
  What the operations of a session keep: the token count agrees with the messages, the memory
  flush runs once per compaction cycle, compaction and truncation keep the tail of the
  conversation.
\<close>

subsection \<open>The token count\<close>

named_theorems session_ops \<open>definitions of the operations of a session\<close>

declare recalculate_tokens_def [session_ops] mark_memory_flushed_def [session_ops]
  add_metadata_to_last_message_def [session_ops] set_system_context_def [session_ops]
  add_message_def [session_ops] add_message_with_metadata_def [session_ops]

definition context_tokens :: "tokenizer \<Rightarrow> session \<Rightarrow> usize" where
  "context_tokens bpe s =
     (case system_context s of Some c \<Rightarrow> count_tokens_default bpe c | None \<Rightarrow> 0)"

definition tokens_consistent :: "tokenizer \<Rightarrow> session \<Rightarrow> bool" where
  "tokens_consistent bpe s \<longleftrightarrow>
     token_count s = context_tokens bpe s + sum_list (map (message_tokens bpe) (messages s))"

lemma add_message_tokens_eq:
  "add_message_tokens bpe n sms = n + sum_list (map (message_tokens bpe) sms)"
  by (induction sms arbitrary: n) (simp_all add: add.assoc)

lemma recalculate_tokens_consistent [simp]: "tokens_consistent bpe (recalculate_tokens bpe s)"
  by (simp add: tokens_consistent_def recalculate_tokens_def add_message_tokens_eq
      context_tokens_def)

lemma tokens_consistent_dirty [simp]:
  "tokens_consistent bpe (s\<lparr>dirty := d\<rparr>) = tokens_consistent bpe s"
  by (simp add: tokens_consistent_def context_tokens_def)

lemma message_tokens_new [simp]:
  "message_tokens bpe (sm_new now m) = count_tokens_default bpe (content m)"
  by (simp add: message_tokens_def sm_new_def)

lemma message_tokens_with_metadata:
  "message_tokens bpe (sm_with_metadata now m p md us st) =
     (case us of Some u \<Rightarrow> if role m = Assistant then output_tokens u
                else count_tokens_default bpe (content m)
      | None \<Rightarrow> count_tokens_default bpe (content m))"
  by (simp add: message_tokens_def sm_with_metadata_def message_usage_from_def split: option.split)

lemma message_tokens_name_latency [simp]:
  "message_tokens bpe (sm\<lparr>model_config_name := x\<rparr>) = message_tokens bpe sm"
  "message_tokens bpe (sm\<lparr>latency_ms := y\<rparr>) = message_tokens bpe sm"
  by (simp_all add: message_tokens_def split: option.split)

lemma sum_list_last:
  "xs \<noteq> [] \<Longrightarrow> sum_list (map f (butlast xs)) + f (last xs) = (sum_list (map f xs) :: usize)"
  by (induction xs) (auto simp: add.assoc)

lemma add_metadata_tokens:
  assumes "tokens_consistent bpe s"
  shows "tokens_consistent bpe (add_metadata_to_last_message n l s)"
proof (cases "messages s = []")
  case True
  with assms show ?thesis by (simp add: add_metadata_to_last_message_def)
next
  case False
  with assms sum_list_last [OF False, of "message_tokens bpe"] show ?thesis
    by (simp add: add_metadata_to_last_message_def tokens_consistent_def context_tokens_def Let_def)
qed

text \<open>
  The interface of the operations that keep the count: what a client may conclude of any of them,
  and of any number of them in a row.
\<close>

locale token_keeping =
  fixes bpe :: tokenizer and op :: "session \<Rightarrow> session"
  assumes keeps_tokens: "tokens_consistent bpe s \<Longrightarrow> tokens_consistent bpe (op s)"
    and keeps_identity: "s_id (op s) = s_id s \<and> created_at (op s) = created_at s \<and> cwd (op s) = cwd s"
    and marks_dirty: "dirty s \<Longrightarrow> dirty (op s)"
begin

lemma iterated_tokens: "tokens_consistent bpe s \<Longrightarrow> tokens_consistent bpe ((op ^^ n) s)"
  by (induction n) (auto intro: keeps_tokens)

lemma iterated_dirty: "dirty s \<Longrightarrow> dirty ((op ^^ n) s)"
  by (induction n) (auto intro: marks_dirty)

end

interpretation add_message: token_keeping bpe "add_message bpe now m" for bpe now m
  by unfold_locales
    (simp_all add: add_message_def tokens_consistent_def context_tokens_def)

interpretation add_meta: token_keeping bpe "add_message_with_metadata bpe now m p md us st"
  for bpe now m p md us st
  by unfold_locales
    (simp_all add: add_message_with_metadata_def tokens_consistent_def context_tokens_def
      message_tokens_with_metadata add.assoc split: option.split)

interpretation last_meta: token_keeping bpe "add_metadata_to_last_message n l" for bpe n l
  by unfold_locales
    (simp_all add: add_metadata_tokens, simp_all add: add_metadata_to_last_message_def Let_def)

interpretation set_context: token_keeping bpe "set_system_context bpe c" for bpe c
  by unfold_locales (simp_all add: set_system_context_def, simp_all add: recalculate_tokens_def)

interpretation mark_flushed: token_keeping bpe mark_memory_flushed for bpe
  by unfold_locales
    (simp_all add: mark_memory_flushed_def tokens_consistent_def context_tokens_def)

subsection \<open>Compaction\<close>

lemma compact_native_short:
  "length (messages s) < 4 \<Longrightarrow> compact_native bpe now summ s w = (Inr (), s, w)"
  by (simp add: compact_native_def)

lemma compact_native_error:
  "compact_native bpe now summ s w = (Inl e, s', w') \<Longrightarrow> s' = s"
  by (auto simp: compact_native_def Let_def split: if_splits prod.splits sum.splits)

lemma compact_native_ok:
  assumes "compact_native bpe now summ s w = (Inr (), s', w')" and "4 \<le> length (messages s)"
  obtains summary where
    "summ (summary_input (take (length (messages s) - 4) (messages s))) w = (Inr summary, w')"
    "messages s' = sm_new now (text_message System (''Previous conversation summary:'' @ nl2 @ summary))
        # drop (length (messages s) - 4) (messages s)"
    "compaction_count s' = compaction_count s + 1"
    "memory_flush_compaction_count s' = memory_flush_compaction_count s"
    "system_context s' = system_context s"
    "s_id s' = s_id s" "dirty s'" "tokens_consistent bpe s'"
proof -
  from assms obtain summary where
    sm: "summ (summary_input (take (length (messages s) - 4) (messages s))) w = (Inr summary, w')"
    and s': "s' = (recalculate_tokens bpe (s\<lparr>messages := sm_new now (text_message System
               (''Previous conversation summary:'' @ nl2 @ summary))
               # drop (length (messages s) - 4) (messages s),
               compaction_count := compaction_count s + 1\<rparr>))\<lparr>dirty := True\<rparr>"
    by (auto simp: compact_native_def Let_def split: if_splits prod.splits sum.splits)
  show thesis
    by (rule that [OF sm]) (simp_all add: s', simp_all add: recalculate_tokens_def)
qed

lemma compact_native_tokens:
  assumes "compact_native bpe now summ s w = (r, s', w')" and "tokens_consistent bpe s"
  shows "tokens_consistent bpe s'"
proof (cases r)
  case (Inl e)
  with assms compact_native_error show ?thesis by (metis (no_types))
next
  case (Inr u)
  with assms(1) have ok: "compact_native bpe now summ s w = (Inr (), s', w')" by simp
  show ?thesis
  proof (cases "length (messages s) < 4")
    case True
    with ok assms(2) show ?thesis by (simp add: compact_native_short)
  next
    case False
    then have "4 \<le> length (messages s)" by simp
    with ok show ?thesis by (rule compact_native_ok)
  qed
qed

subsection \<open>The life of a session\<close>

text \<open>
  Every way the agent changes a session in memory, except cutting its history
  (\<open>truncate_history\<close>), with the outcome of the calls to the outside left open.
\<close>

inductive session_step :: "tokenizer \<Rightarrow> session \<Rightarrow> session \<Rightarrow> bool" for bpe where
  step_add: "session_step bpe s (add_message bpe now m s)"
| step_add_meta: "session_step bpe s (add_message_with_metadata bpe now m p md us st s)"
| step_last_meta: "session_step bpe s (add_metadata_to_last_message n l s)"
| step_context: "session_step bpe s (set_system_context bpe c s)"
| step_flushed: "session_step bpe s (mark_memory_flushed s)"
| step_compact: "compact_native bpe now (\<lambda>t (w::unit). (summ t, w)) s () = (r, s', w') \<Longrightarrow>
    session_step bpe s s'"

inductive session_reachable :: "tokenizer \<Rightarrow> session \<Rightarrow> bool" for bpe where
  reach_new: "session_reachable bpe (session_new uuid now current)"
| reach_new_with_id: "session_reachable bpe (new_with_id sid now current)"
| reach_step: "session_reachable bpe s \<Longrightarrow> session_step bpe s t \<Longrightarrow> session_reachable bpe t"

lemma session_step_tokens:
  "session_step bpe s t \<Longrightarrow> tokens_consistent bpe s \<Longrightarrow> tokens_consistent bpe t"
  by (induction rule: session_step.induct)
    (auto intro: add_message.keeps_tokens add_meta.keeps_tokens last_meta.keeps_tokens
      set_context.keeps_tokens mark_flushed.keeps_tokens compact_native_tokens)

lemma session_step_dirty: "session_step bpe s t \<Longrightarrow> dirty s \<Longrightarrow> dirty t"
proof (induction rule: session_step.induct)
  case (step_compact now summ s r t w)
  show ?case
  proof (cases "length (messages s) < 4")
    case True
    with step_compact show ?thesis by (simp add: compact_native_short)
  next
    case False
    then have len: "4 \<le> length (messages s)" by simp
    show ?thesis
    proof (cases r)
      case (Inl e)
      with step_compact compact_native_error show ?thesis by (metis (no_types))
    next
      case (Inr u)
      with step_compact(1) have "compact_native bpe now (\<lambda>t (w::unit). (summ t, w)) s () = (Inr (), t, w)"
        by simp
      from this len show ?thesis by (rule compact_native_ok)
    qed
  qed
qed (auto intro: add_message.marks_dirty add_meta.marks_dirty last_meta.marks_dirty
      set_context.marks_dirty mark_flushed.marks_dirty)

text \<open>in every session built in memory by the agent without cutting its history, the token
  count is the sum, modulo \<open>2 ^ 64\<close>, of the tokens of the system context and of each message
  (the reported output tokens for an assistant message that carries usage), and the session is
  marked for saving.\<close>

theorem session_reachable_invariant:
  assumes "session_reachable bpe s"
  shows "tokens_consistent bpe s \<and> dirty s"
  using assms
proof (induction rule: session_reachable.induct)
  case (reach_step s t)
  then show ?case by (auto intro: session_step_tokens session_step_dirty)
qed (simp_all add: session_new_def new_with_cwd_def new_with_id_def tokens_consistent_def
      context_tokens_def)

theorem session_reachable_invariant_witness:
  "let s = add_message None 5 (text_message User ''hello there'') (session_new ''u'' 0 None) in
   session_reachable None s \<and> tokens_consistent None s \<and> dirty s \<and> token_count s = 2"
proof -
  let ?s = "add_message None 5 (text_message User ''hello there'') (session_new ''u'' 0 None)"
  have r: "session_reachable None ?s"
    by (rule reach_step [OF reach_new step_add])
  from session_reachable_invariant [OF r] r show ?thesis
    by (simp add: Let_def add_message_def session_new_def new_with_cwd_def count_tokens_default_def
        text_message_def)
qed

subsection \<open>Memory flush\<close>

lemma word_lt_Suc:
  assumes "n \<noteq> - 1"
  shows "(n :: u32) < n + 1"
proof -
  have "unat n \<noteq> unat (- 1 :: u32)" using assms word_unat_eq_iff by blast
  moreover have "unat n < 4294967296" using unsigned_less [of n, where ?'a = nat] by simp
  moreover have "unat (- 1 :: u32) = 4294967295" by (simp add: unsigned_minus_1_eq_mask mask_eq_exp_minus_1)
  ultimately have "unat n + 1 < 4294967296" by linarith
  then show ?thesis by (simp add: word_less_nat_alt unat_word_ariths)
qed

text \<open>marking the memory flush suppresses further flushes until the next compaction, and the
  next compaction enables exactly one again; the guard fails only at the largest \<open>u32\<close> compaction
  count, where the mark wraps to zero and the flush would run on every turn.\<close>

theorem memory_flush_once_per_cycle:
  "(\<not> should_memory_flush (mark_memory_flushed s) \<longleftrightarrow> compaction_count s \<noteq> - 1)
   \<and> (compaction_count s \<noteq> - 1 \<longrightarrow>
        should_memory_flush ((mark_memory_flushed s)\<lparr>compaction_count := compaction_count s + 1\<rparr>))"
proof -
  have "should_memory_flush (mark_memory_flushed s) \<longleftrightarrow> compaction_count s + 1 \<le> compaction_count s"
    by (simp add: should_memory_flush_def mark_memory_flushed_def)
  also have "\<dots> \<longleftrightarrow> compaction_count s = - 1"
  proof (cases "compaction_count s = - 1")
    case False
    then have "compaction_count s < compaction_count s + 1" by (rule word_lt_Suc)
    with False show ?thesis by simp
  qed simp
  finally show ?thesis by (simp add: should_memory_flush_def mark_memory_flushed_def)
qed

theorem memory_flush_once_per_cycle_witness:
  "let s = session_new ''u'' 0 None in
   \<not> should_memory_flush (mark_memory_flushed s)
   \<and> should_memory_flush ((mark_memory_flushed s)\<lparr>compaction_count := compaction_count s + 1\<rparr>)
   \<and> should_memory_flush s"
proof -
  let ?s = "session_new ''u'' 0 None"
  have c: "compaction_count ?s \<noteq> - 1"
    by (simp add: session_new_def new_with_cwd_def)
  have f: "should_memory_flush ?s"
    by (simp add: session_new_def new_with_cwd_def should_memory_flush_def)
  from memory_flush_once_per_cycle [of ?s] c f show ?thesis by (simp add: Let_def)
qed

subsection \<open>What compaction and truncation keep\<close>

text \<open>when native compaction succeeds on a conversation of at least four messages, the session
  becomes one system message with the summary followed by the last four messages unchanged; the
  summarised text is the rest of the conversation, the compaction count grows by one and the token
  count is recomputed. So the result always has five messages, one more than before when there
  were exactly four.\<close>

theorem compact_native_spec:
  assumes "compact_native bpe now summ s w = (Inr (), s', w')" and "4 \<le> length (messages s)"
  shows "\<exists>summary old recent.
    messages s = old @ recent \<and> length recent = 4
    \<and> summ (summary_input old) w = (Inr summary, w')
    \<and> messages s' = sm_new now (text_message System
          (''Previous conversation summary:'' @ nl2 @ summary)) # recent
    \<and> compaction_count s' = compaction_count s + 1
    \<and> system_context s' = system_context s
    \<and> tokens_consistent bpe s' \<and> dirty s'"
  using assms
proof (rule compact_native_ok)
  fix summary
  let ?n = "length (messages s) - 4"
  assume "summ (summary_input (take ?n (messages s))) w = (Inr summary, w')"
    and "messages s' = sm_new now (text_message System
          (''Previous conversation summary:'' @ nl2 @ summary)) # drop ?n (messages s)"
    and "compaction_count s' = compaction_count s + 1" and "system_context s' = system_context s"
    and "tokens_consistent bpe s'" and "dirty s'"
  moreover have "messages s = take ?n (messages s) @ drop ?n (messages s)" by simp
  moreover have "length (drop ?n (messages s)) = 4" using assms(2) by simp
  ultimately show ?thesis by blast
qed

definition four_messages :: session where
  "four_messages = (session_new ''u'' 0 None)\<lparr>messages :=
     map (\<lambda>t. sm_new 1 (text_message User t)) [''a'', ''b'', ''c'', ''d'']\<rparr>"

theorem compact_native_spec_witness:
  "\<exists>s'. compact_native None 9 (\<lambda>t (w::nat). (Inr ''sum'', Suc w)) four_messages 0 = (Inr (), s', 1)
     \<and> length (messages four_messages) = 4 \<and> length (messages s') = 5"
proof -
  let ?r = "compact_native None 9 (\<lambda>t (w::nat). (Inr ''sum'', Suc w)) four_messages 0"
  have eq: "?r = (Inr (), fst (snd ?r), 1)"
    by (simp add: compact_native_def four_messages_def Let_def)
  have four: "length (messages four_messages) = 4" by (simp add: four_messages_def)
  then have "4 \<le> length (messages four_messages)" by simp
  from compact_native_spec [OF eq this] have "length (messages (fst (snd ?r))) = 5" by auto
  with eq four show ?thesis by blast
qed

definition system_of :: "session_message list \<Rightarrow> session_message list" where
  "system_of = filter (\<lambda>m. role (sm_message m) = System)"

definition others_of :: "session_message list \<Rightarrow> session_message list" where
  "others_of = filter (\<lambda>m. role (sm_message m) \<noteq> System)"

text \<open>Cutting the history keeps every system message and the last \<open>keep_last\<close> other messages,
  both in order, and touches nothing else: in particular the token count and the mark for saving
  stay as they were, so the count is stale unless nothing was cut.\<close>

theorem truncate_history_spec:
  "messages (truncate_history k s)
     = system_of (messages s)
       @ drop (length (others_of (messages s)) - k) (others_of (messages s))
   \<and> length (others_of (messages (truncate_history k s)))
       = min k (length (others_of (messages s)))
   \<and> token_count (truncate_history k s) = token_count s
   \<and> dirty (truncate_history k s) = dirty s
   \<and> truncate_history k (truncate_history k s) = truncate_history k s"
proof -
  let ?o = "others_of (messages s)" and ?y = "system_of (messages s)"
  have msgs: "messages (truncate_history k s) = ?y @ drop (length ?o - k) ?o"
    by (simp add: truncate_history_def system_of_def others_of_def Let_def)
  have "others_of (drop n ?o) = drop n ?o" and "system_of (drop n ?o) = []" for n
    using set_drop_subset [of n ?o] by (auto simp: others_of_def system_of_def filter_id_conv filter_empty_conv)
  moreover have "others_of ?y = []" and "system_of ?y = ?y"
    by (simp_all add: others_of_def system_of_def filter_empty_conv)
  ultimately have o: "others_of (?y @ drop n ?o) = drop n ?o" and y: "system_of (?y @ drop n ?o) = ?y" for n
    by (simp_all add: others_of_def system_of_def)
  have eq: "truncate_history k t = t\<lparr>messages := system_of (messages t)
       @ drop (length (others_of (messages t)) - k) (others_of (messages t))\<rparr>" for t
    by (simp add: truncate_history_def system_of_def others_of_def Let_def)
  have "truncate_history k (truncate_history k s) = truncate_history k s"
    by (simp add: eq o y)
  then show ?thesis by (simp add: eq o)
qed

end
