(* ===== verification/Session_Jsonl.thy ===== *)
theory Session_Jsonl
  imports Session_Tokens
begin

text \<open>
  How a session is written to and read from its JSONL file (\<open>save_to_path\<close>,
  \<open>format_message_entry\<close>, \<open>load_from_path\<close>, \<open>parse_pi_message\<close> and their callers in
  \<^verbatim>\<open>src/src/agent/session.rs\<close>), with the round trip between the two.

  \<open>serde\<close> is what the crates do with text: printing and parsing of JSON values
  (\<open>json_error\<close> is the text of a parse error), the derived
  conversion of \<open>MessageUsage\<close>, and RFC 3339 dates. The theorems assume of it only what they need
  for the values at hand.
\<close>

record serde =
  to_json_text :: "json \<Rightarrow> string"
  of_json_text :: "string \<Rightarrow> json option"
  json_error :: "string \<Rightarrow> string"
  usage_to_json :: "message_usage \<Rightarrow> json"
  usage_of_json :: "json \<Rightarrow> message_usage option"
  to_rfc3339 :: "int \<Rightarrow> string"
  of_rfc3339 :: "string \<Rightarrow> int option"

definition CURRENT_SESSION_VERSION :: u32 where
  "CURRENT_SESSION_VERSION = 1"

subsection \<open>Writing\<close>

fun role_name :: "role \<Rightarrow> string" where
  "role_name User = ''user''"
| "role_name Assistant = ''assistant''"
| "role_name System = ''system''"
| "role_name Tool = ''toolResult''"

definition image_url :: "image_attachment \<Rightarrow> string" where
  "image_url img = ''data:'' @ img_media_type img @ '';base64,'' @ img_data img"

definition image_item :: "image_attachment \<Rightarrow> json" where
  "image_item img = JObj [''type'' \<mapsto> JStr ''image_url'',
     ''image_url'' \<mapsto> JObj [''url'' \<mapsto> JStr (image_url img)]]"

definition text_item :: "string \<Rightarrow> json" where
  "text_item t = JObj [''type'' \<mapsto> JStr ''text'', ''text'' \<mapsto> JStr t]"

definition tool_call_json :: "tool_call \<Rightarrow> json" where
  "tool_call_json tc = JObj [''id'' \<mapsto> JStr (tc_id tc), ''name'' \<mapsto> JStr (tc_name tc),
     ''arguments'' \<mapsto> JStr (tc_arguments tc)]"

definition format_message :: "serde \<Rightarrow> session_message \<Rightarrow> json" where
  "format_message sd sm =
     (let m = sm_message sm;
          items = (if content m \<noteq> [] then [text_item (content m)] else [])
                  @ map image_item (images m);
          v0 = JObj [''role'' \<mapsto> JStr (role_name (role m)), ''content'' \<mapsto> JArr items];
          v1 = jset_opt v0 ''toolCalls'' (map_option (\<lambda>tcs. JArr (map tool_call_json tcs)) (tool_calls m));
          v2 = jset_opt v1 ''toolCallId'' (map_option JStr (tool_call_id m));
          v3 = jset_opt v2 ''provider'' (map_option JStr (provider sm));
          v4 = jset_opt v3 ''model'' (map_option JStr (model sm));
          v5 = jset_opt v4 ''api'' (map_option JStr (api sm));
          v6 = jset_opt v5 ''usage'' (map_option (usage_to_json sd) (sm_usage sm));
          v7 = jset_opt v6 ''stopReason'' (map_option JStr (stop_reason sm));
          v8 = jset_opt v7 ''modelConfigName'' (map_option JStr (model_config_name sm));
          v9 = jset_opt v8 ''latencyMs'' (map_option j_u64 (latency_ms sm))
      in jset v9 ''timestamp'' (j_u64 (timestamp sm)))"

definition format_message_entry :: "serde \<Rightarrow> session_message \<Rightarrow> json" where
  "format_message_entry sd sm =
     JObj [''type'' \<mapsto> JStr ''message'', ''message'' \<mapsto> format_message sd sm]"

definition header_entry :: "serde \<Rightarrow> session \<Rightarrow> json" where
  "header_entry sd s = JObj [
     ''type'' \<mapsto> JStr ''session'',
     ''version'' \<mapsto> j_u32 CURRENT_SESSION_VERSION,
     ''id'' \<mapsto> JStr (s_id s),
     ''timestamp'' \<mapsto> JStr (to_rfc3339 sd (created_at s)),
     ''cwd'' \<mapsto> JStr (cwd s),
     ''compactionCount'' \<mapsto> j_u32 (compaction_count s),
     ''memoryFlushCompactionCount'' \<mapsto> j_u32 (memory_flush_compaction_count s)]"

definition save_entries :: "serde \<Rightarrow> u64 \<Rightarrow> session \<Rightarrow> json list" where
  "save_entries sd now s =
     header_entry sd s
     # (case system_context s of
          Some c \<Rightarrow> [format_message_entry sd (sm_new now (text_message System c))]
        | None \<Rightarrow> [])
     @ map (format_message_entry sd) (messages s)"

definition save_text :: "serde \<Rightarrow> u64 \<Rightarrow> session \<Rightarrow> string" where
  "save_text sd now s =
     concat (map (\<lambda>l. l @ [newline]) (map (to_json_text sd) (save_entries sd now s)))"

subsection \<open>Reading\<close>

definition role_of_name :: "string \<Rightarrow> role option" where
  "role_of_name n =
     (if n = ''user'' then Some User
      else if n = ''assistant'' then Some Assistant
      else if n = ''system'' then Some System
      else if n = ''toolResult'' \<or> n = ''tool'' then Some Tool
      else None)"

definition parse_image :: "json \<Rightarrow> image_attachment option" where
  "parse_image item =
     (if as_str (jindex item ''type'') = Some ''image_url'' then
        (case jget item ''image_url'' of None \<Rightarrow> None
         | Some u \<Rightarrow>
           (case as_str (jindex u ''url'') of None \<Rightarrow> None
            | Some url \<Rightarrow>
              (case find_char CHR '','' url of None \<Rightarrow> None
               | Some p \<Rightarrow>
                  let header = take p url; data = drop (Suc p) url;
                      mt = unwrap_or (Option.bind (strip_prefix header ''data:'')
                             (\<lambda>h. strip_suffix h '';base64'')) ''application/octet-stream''
                  in Some \<lparr>img_data = data, img_media_type = mt\<rparr>)))
      else None)"

definition parse_text :: "json \<Rightarrow> string option" where
  "parse_text item =
     (if as_str (jindex item ''type'') = Some ''text'' then as_str (jindex item ''text'') else None)"

definition parse_tool_call :: "json \<Rightarrow> tool_call option" where
  "parse_tool_call tc =
     (case (as_str (jindex tc ''id''), as_str (jindex tc ''name'')) of
        (Some i, Some n) \<Rightarrow>
          Some \<lparr>tc_id = i, tc_name = n,
                tc_arguments = unwrap_or (as_str (jindex tc ''arguments'')) ''{}''\<rparr>
      | _ \<Rightarrow> None)"

definition parse_content :: "json \<Rightarrow> string \<times> image_attachment list" where
  "parse_content c =
     (case as_array c of
        Some arr \<Rightarrow> (concat (List.map_filter parse_text arr), List.map_filter parse_image arr)
      | None \<Rightarrow> (unwrap_or (as_str c) [], []))"

definition parse_pi_message :: "serde \<Rightarrow> json \<Rightarrow> session_message option" where
  "parse_pi_message sd msg =
     (case Option.bind (as_str (jindex msg ''role'')) role_of_name of
        None \<Rightarrow> None
      | Some r \<Rightarrow>
          let (text, imgs) = parse_content (jindex msg ''content'') in
          Some \<lparr>sm_message = \<lparr>role = r, content = text,
                   tool_calls = map_option (List.map_filter parse_tool_call)
                                  (as_array (jindex msg ''toolCalls'')),
                   tool_call_id = as_str (jindex msg ''toolCallId''),
                   images = imgs\<rparr>,
                provider = as_str (jindex msg ''provider''),
                model = as_str (jindex msg ''model''),
                api = as_str (jindex msg ''api''),
                sm_usage = usage_of_json sd (jindex msg ''usage''),
                stop_reason = as_str (jindex msg ''stopReason''),
                timestamp = unwrap_or (as_u64 (jindex msg ''timestamp'')) 0,
                model_config_name = Option.bind (jget msg ''modelConfigName'') as_str,
                latency_ms = Option.bind (jget msg ''latencyMs'') as_u64\<rparr>)"

definition load_header :: "serde \<Rightarrow> json \<Rightarrow> session \<Rightarrow> session" where
  "load_header sd entry s =
     (let s1 = (case Option.bind (as_str (jindex entry ''timestamp'')) (of_rfc3339 sd) of
                  Some t \<Rightarrow> s\<lparr>created_at := t\<rparr> | None \<Rightarrow> s);
          s2 = (case as_str (jindex entry ''cwd'') of
                  Some c \<Rightarrow> s1\<lparr>cwd := c\<rparr> | None \<Rightarrow> s1);
          s3 = (case as_u64 (jindex entry ''compactionCount'') of
                  Some n \<Rightarrow> s2\<lparr>compaction_count := ucast n\<rparr> | None \<Rightarrow> s2)
      in (case as_u64 (jindex entry ''memoryFlushCompactionCount'') of
            Some n \<Rightarrow> s3\<lparr>memory_flush_compaction_count := ucast n\<rparr> | None \<Rightarrow> s3))"

definition load_message :: "serde \<Rightarrow> json \<Rightarrow> session \<Rightarrow> session" where
  "load_message sd entry s =
     (case Option.bind (jget entry ''message'') (parse_pi_message sd) of
        None \<Rightarrow> s
      | Some sm \<Rightarrow>
          if role (sm_message sm) = System \<and> system_context s = None
          then s\<lparr>system_context := Some (content (sm_message sm))\<rparr>
          else s\<lparr>messages := messages s @ [sm]\<rparr>)"

definition load_entry :: "serde \<Rightarrow> json \<Rightarrow> session \<Rightarrow> session" where
  "load_entry sd entry s =
     (case as_str (jindex entry ''type'') of
        Some t \<Rightarrow> if t = ''session'' then load_header sd entry s
                  else if t = ''message'' then load_message sd entry s else s
      | None \<Rightarrow> s)"

definition load_line :: "serde \<Rightarrow> string \<Rightarrow> session \<Rightarrow> session" where
  "load_line sd line s =
     (if trim line = [] then s
      else case of_json_text sd line of Some v \<Rightarrow> load_entry sd v s | None \<Rightarrow> s)"

definition load_initial :: "int \<Rightarrow> string \<Rightarrow> session" where
  "load_initial now sid =
     \<lparr>s_id = sid, created_at = now, cwd = ''.'', messages = [], system_context = None,
      token_count = 0, compaction_count = 0, memory_flush_compaction_count = 0, dirty = False\<rparr>"

definition load_text :: "serde \<Rightarrow> tokenizer \<Rightarrow> int \<Rightarrow> string \<Rightarrow> string \<Rightarrow> session" where
  "load_text sd bpe now sid text =
     recalculate_tokens bpe (fold (load_line sd) (lines text) (load_initial now sid))"

text \<open>\<open>replace_messages_from_json\<close>, used by the script compactor.\<close>

definition replace_messages_from_json ::
  "serde \<Rightarrow> tokenizer \<Rightarrow> string \<Rightarrow> session \<Rightarrow> (anyhow_error, session) res" where
  "replace_messages_from_json sd bpe txt s =
     (case of_json_text sd txt of
        None \<Rightarrow> Inl (Msg (json_error sd txt))
      | Some val \<Rightarrow>
          let s1 = (case Option.bind (jget val ''system_context'') as_str of
                      Some c \<Rightarrow> s\<lparr>system_context := Some c\<rparr> | None \<Rightarrow> s);
              s2 = (case Option.bind (jget val ''messages'') as_array of
                      Some arr \<Rightarrow> s1\<lparr>messages := List.map_filter (parse_pi_message sd) arr\<rparr>
                    | None \<Rightarrow> s1)
          in Inr ((recalculate_tokens bpe (s2\<lparr>compaction_count := compaction_count s2 + 1\<rparr>))
                   \<lparr>dirty := True\<rparr>))"

subsection \<open>Reading back what was written\<close>

definition media_type_ok :: "image_attachment \<Rightarrow> bool" where
  "media_type_ok img \<longleftrightarrow> CHR '','' \<notin> set (img_media_type img)"

lemma parse_image_item:
  assumes "media_type_ok img"
  shows "parse_image (image_item img) = Some img"
proof -
  let ?h = "''data:'' @ img_media_type img @ '';base64''"
  have url: "image_url img = ?h @ CHR '','' # img_data img"
    by (simp add: image_url_def)
  have "CHR '','' \<notin> set ?h" using assms by (simp add: media_type_ok_def)
  then have f: "find_char CHR '','' (image_url img) = Some (length ?h)"
    unfolding url by (rule find_char_append)
  have "Option.bind (strip_prefix ?h ''data:'') (\<lambda>h. strip_suffix h '';base64'')
      = Some (img_media_type img)"
    by (simp only: strip_prefix_append bind.bind_lunit strip_suffix_append)
  then show ?thesis
    using f by (simp add: parse_image_def image_item_def) (simp add: url)
qed

lemma parse_text_image_item [simp]: "parse_text (image_item img) = None"
  by (simp add: parse_text_def image_item_def)

lemma parse_text_item [simp]: "parse_text (text_item t) = Some t"
  by (simp add: parse_text_def text_item_def)

lemma parse_image_text_item [simp]: "parse_image (text_item t) = None"
  by (simp add: parse_image_def text_item_def)

lemma parse_tool_call_json [simp]: "parse_tool_call (tool_call_json tc) = Some tc"
  by (simp add: parse_tool_call_def tool_call_json_def)

lemma map_filter_all_Some: "(\<And>x. x \<in> set xs \<Longrightarrow> f (g x) = Some x) \<Longrightarrow> List.map_filter f (map g xs) = xs"
  by (induction xs) (simp_all add: List.map_filter_simps)

lemma map_filter_all_None: "(\<And>x. x \<in> set xs \<Longrightarrow> f (g x) = None) \<Longrightarrow> List.map_filter f (map g xs) = []"
  by (induction xs) (simp_all add: List.map_filter_simps)

lemma map_filter_append: "List.map_filter f (xs @ ys) = List.map_filter f xs @ List.map_filter f ys"
  by (induction xs) (simp_all add: List.map_filter_simps split: option.split)

lemma parse_content_items:
  assumes "\<forall>img \<in> set imgs. media_type_ok img"
  shows "parse_content (JArr ((if c \<noteq> [] then [text_item c] else []) @ map image_item imgs)) = (c, imgs)"
proof -
  have "List.map_filter parse_image (map image_item imgs) = imgs"
    by (rule map_filter_all_Some) (use assms parse_image_item in blast)
  moreover have "List.map_filter parse_text (map image_item imgs) = []"
    by (rule map_filter_all_None) simp
  ultimately show ?thesis
    by (simp add: parse_content_def map_filter_append List.map_filter_simps)
qed

lemma role_of_role_name [simp]: "role_of_name (role_name r) = Some r"
  by (cases r) (simp_all add: role_of_name_def)

definition message_saveable :: "serde \<Rightarrow> session_message \<Rightarrow> bool" where
  "message_saveable sd sm \<longleftrightarrow>
     (\<forall>img \<in> set (images (sm_message sm)). media_type_ok img)
     \<and> (case sm_usage sm of
          Some u \<Rightarrow> usage_of_json sd (usage_to_json sd u) = Some u
        | None \<Rightarrow> usage_of_json sd JNull = None)"

fun opt_upd :: "(string \<Rightarrow> json option) \<Rightarrow> string \<Rightarrow> json option \<Rightarrow> string \<Rightarrow> json option" where
  "opt_upd m k None = m"
| "opt_upd m k (Some x) = m(k \<mapsto> x)"

lemma opt_upd_apply: "opt_upd m k x k' = (if k' = k \<and> x \<noteq> None then x else m k')"
  by (cases x) auto

lemma jset_opt_upd: "jset_opt (JObj m) k x = JObj (opt_upd m k x)"
  by (cases x) (simp_all add: jset_opt_def)

lemma as_str_field: "f k = map_option JStr x \<Longrightarrow> as_str (jindex (JObj f) k) = x"
  by (cases x) simp_all

lemma as_str_get: "f k = map_option JStr x \<Longrightarrow> Option.bind (jget (JObj f) k) as_str = x"
  by (cases x) simp_all

lemma as_u64_get: "f k = map_option j_u64 x \<Longrightarrow> Option.bind (jget (JObj f) k) as_u64 = x"
  by (cases x) simp_all

lemma parse_format_message:
  assumes "message_saveable sd sm"
  shows "parse_pi_message sd (format_message sd sm) = Some sm"
proof -
  let ?m = "sm_message sm"
  let ?items = "(if content ?m \<noteq> [] then [text_item (content ?m)] else []) @ map image_item (images ?m)"
  obtain f where f: "format_message sd sm = JObj f"
    by (simp add: format_message_def jset_opt_upd Let_def)
  have get: "f k = jget (format_message sd sm) k" for k by (simp add: f)
  have role: "f ''role'' = Some (JStr (role_name (role ?m)))"
    and items: "f ''content'' = Some (JArr ?items)"
    and ts: "f ''timestamp'' = Some (j_u64 (timestamp sm))"
    and calls: "f ''toolCalls'' = map_option (\<lambda>tcs. JArr (map tool_call_json tcs)) (tool_calls ?m)"
    and cid: "f ''toolCallId'' = map_option JStr (tool_call_id ?m)"
    and prov: "f ''provider'' = map_option JStr (provider sm)"
    and mdl: "f ''model'' = map_option JStr (model sm)"
    and ap: "f ''api'' = map_option JStr (api sm)"
    and us: "f ''usage'' = map_option (usage_to_json sd) (sm_usage sm)"
    and stop: "f ''stopReason'' = map_option JStr (stop_reason sm)"
    and name: "f ''modelConfigName'' = map_option JStr (model_config_name sm)"
    and lat: "f ''latencyMs'' = map_option j_u64 (latency_ms sm)"
    unfolding get by (simp_all add: format_message_def jset_opt_upd opt_upd_apply Let_def)
  have c: "parse_content (JArr ?items) = (content ?m, images ?m)"
    by (rule parse_content_items) (use assms in \<open>simp add: message_saveable_def\<close>)
  have tc: "List.map_filter parse_tool_call (map tool_call_json tcs) = tcs" for tcs
    by (rule map_filter_all_Some) simp
  have calls': "map_option (List.map_filter parse_tool_call) (as_array (jindex (JObj f) ''toolCalls''))
      = tool_calls ?m"
    by (cases "tool_calls ?m") (simp_all add: calls tc)
  have us': "usage_of_json sd (jindex (JObj f) ''usage'') = sm_usage sm"
    using assms by (cases "sm_usage sm") (auto simp: us message_saveable_def)
  note strs = as_str_field [where f = f, OF cid] as_str_field [where f = f, OF prov]
    as_str_field [where f = f, OF mdl] as_str_field [where f = f, OF ap]
    as_str_field [where f = f, OF stop] as_str_get [where f = f, OF name]
    as_u64_get [where f = f, OF lat]
  have "parse_content (jindex (JObj f) ''content'') = (content ?m, images ?m)"
    and "Option.bind (as_str (jindex (JObj f) ''role'')) role_of_name = Some (role ?m)"
    and "as_u64 (jindex (JObj f) ''timestamp'') = Some (timestamp sm)"
    by (simp_all add: items c role ts)
  then show ?thesis
    unfolding f by (simp add: parse_pi_message_def calls' us' strs del: jindex_JObj jget.simps)
qed

lemma load_entry_message:
  assumes "message_saveable sd sm"
  shows "load_entry sd (format_message_entry sd sm) s =
     (if role (sm_message sm) = System \<and> system_context s = None
      then s\<lparr>system_context := Some (content (sm_message sm))\<rparr>
      else s\<lparr>messages := messages s @ [sm]\<rparr>)"
  using parse_format_message [OF assms]
  by (simp add: load_entry_def load_message_def format_message_entry_def)

lemma load_entries_messages:
  assumes "\<forall>sm \<in> set sms. message_saveable sd sm"
    and "system_context s \<noteq> None \<or> (\<forall>sm \<in> set sms. role (sm_message sm) \<noteq> System)"
  shows "fold (load_entry sd) (map (format_message_entry sd) sms) s = s\<lparr>messages := messages s @ sms\<rparr>"
  using assms
proof (induction sms arbitrary: s)
  case (Cons sm sms)
  have "load_entry sd (format_message_entry sd sm) s = s\<lparr>messages := messages s @ [sm]\<rparr>"
    using Cons.prems by (auto simp: load_entry_message)
  with Cons.prems Cons.IH [of "s\<lparr>messages := messages s @ [sm]\<rparr>"] show ?case by auto
qed simp

lemma load_entry_header:
  assumes "of_rfc3339 sd (to_rfc3339 sd (created_at s)) = Some (created_at s)"
  shows "load_entry sd (header_entry sd s) (load_initial now (s_id s))
    = s\<lparr>messages := [], system_context := None, token_count := 0, dirty := False\<rparr>"
  using assms
  by (simp add: load_entry_def header_entry_def load_header_def load_initial_def)

text \<open>What the round trip needs of \<open>serde_json\<close> for the entries of one session: the printed entry is
  one line, is not blank and parses back to the entry.\<close>

definition json_lines_ok :: "serde \<Rightarrow> json list \<Rightarrow> bool" where
  "json_lines_ok sd vs \<longleftrightarrow> (\<forall>v \<in> set vs. line_ok (to_json_text sd v)
      \<and> trim (to_json_text sd v) \<noteq> [] \<and> of_json_text sd (to_json_text sd v) = Some v)"

lemma fold_load_lines:
  "json_lines_ok sd vs \<Longrightarrow>
   fold (load_line sd) (map (to_json_text sd) vs) s = fold (load_entry sd) vs s"
  by (induction vs arbitrary: s) (auto simp: json_lines_ok_def load_line_def)

lemma lines_save_text:
  "json_lines_ok sd (save_entries sd now s) \<Longrightarrow> lines (save_text sd now s) = map (to_json_text sd) (save_entries sd now s)"
  unfolding save_text_def by (rule lines_unlines) (auto simp: json_lines_ok_def)

lemma load_text_save_text:
  assumes "json_lines_ok sd (save_entries sd now s)"
  shows "load_text sd bpe now' sid (save_text sd now s)
    = recalculate_tokens bpe (fold (load_entry sd) (save_entries sd now s) (load_initial now' sid))"
  by (simp add: load_text_def lines_save_text [OF assms] fold_load_lines [OF assms])

text \<open>
  What loading makes of a session that was saved without a system context: the first of its system messages, if there
  is one, is taken out of the conversation and becomes the system context.
\<close>

definition adopt_context :: "session \<Rightarrow> session" where
  "adopt_context s =
     (if system_context s \<noteq> None then s
      else case dropWhile (\<lambda>sm. role (sm_message sm) \<noteq> System) (messages s) of
        [] \<Rightarrow> s
      | sm # later \<Rightarrow>
          s\<lparr>messages := takeWhile (\<lambda>sm. role (sm_message sm) \<noteq> System) (messages s) @ later,
            system_context := Some (content (sm_message sm))\<rparr>)"

lemma adopt_context_same:
  "system_context s \<noteq> None \<or> (\<forall>sm \<in> set (messages s). role (sm_message sm) \<noteq> System) \<Longrightarrow> adopt_context s = s"
  by (auto simp: adopt_context_def dropWhile_eq_Nil_conv [THEN iffD2])

lemma load_entries_adopt:
  assumes "\<forall>sm \<in> set (messages s). message_saveable sd sm" and "system_context s = None"
  shows "fold (load_entry sd) (map (format_message_entry sd) (messages s)) (s\<lparr>messages := []\<rparr>) = adopt_context s"
proof -
  let ?P = "\<lambda>sm. role (sm_message sm) \<noteq> System"
  let ?a = "takeWhile ?P (messages s)"
  have a: "fold (load_entry sd) (map (format_message_entry sd) ?a) (s\<lparr>messages := []\<rparr>) = s\<lparr>messages := ?a\<rparr>"
    using assms(1) by (subst load_entries_messages) (auto dest: set_takeWhileD)
  show ?thesis
  proof (cases "dropWhile ?P (messages s)")
    case Nil
    then have "?a = messages s" by (metis append_Nil2 takeWhile_dropWhile_id)
    with a Nil assms(2) show ?thesis by (simp add: adopt_context_def del: dropWhile_eq_Nil_conv)
  next
    case (Cons sm later)
    then have ms: "messages s = ?a @ sm # later" by (metis takeWhile_dropWhile_id)
    have sm: "role (sm_message sm) = System" using hd_dropWhile [of ?P "messages s"] Cons by simp
    have ok: "message_saveable sd sm" "\<forall>x \<in> set later. message_saveable sd x" using assms(1) ms by (metis Un_iff list.set_intros set_append)+
    let ?c = "s\<lparr>messages := ?a, system_context := Some (content (sm_message sm))\<rparr>"
    have "load_entry sd (format_message_entry sd sm) (s\<lparr>messages := ?a\<rparr>) = ?c"
      using sm assms(2) by (simp add: load_entry_message [OF ok(1)])
    moreover have "fold (load_entry sd) (map (format_message_entry sd) later) ?c = ?c\<lparr>messages := messages ?c @ later\<rparr>"
      using ok(2) by (intro load_entries_messages) simp_all
    ultimately have "fold (load_entry sd) (map (format_message_entry sd) (?a @ sm # later)) (s\<lparr>messages := []\<rparr>)
        = ?c\<lparr>messages := ?a @ later\<rparr>"
      by (simp add: a)
    with Cons assms(2) ms show ?thesis by (simp add: adopt_context_def)
  qed
qed

text \<open>Everything in the file of a session, by what is in it.\<close>

lemma load_saved:
  assumes "json_lines_ok sd (save_entries sd now s)" and "of_rfc3339 sd (to_rfc3339 sd (created_at s)) = Some (created_at s)"
    and msgs: "\<forall>sm \<in> set (messages s). message_saveable sd sm" and "usage_of_json sd JNull = None"
  shows "load_text sd bpe now' (s_id s) (save_text sd now s)
     = (recalculate_tokens bpe (adopt_context s))\<lparr>dirty := False\<rparr>"
proof -
  let ?s0 = "s\<lparr>token_count := 0, dirty := False\<rparr>"
  let ?h = "load_entry sd (header_entry sd s) (load_initial now' (s_id s))"
  have h: "?h = ?s0\<lparr>messages := [], system_context := None\<rparr>"
    using load_entry_header [OF assms(2)] by simp
  have "fold (load_entry sd) (save_entries sd now s) (load_initial now' (s_id s)) = adopt_context ?s0"
  proof (cases "system_context s")
    case None
    then have "?h = ?s0\<lparr>messages := []\<rparr>" using h by simp
    with load_entries_adopt [of ?s0 sd] None msgs show ?thesis by (simp add: save_entries_def)
  next
    case (Some c)
    have "message_saveable sd (sm_new now (text_message System c))"
      using assms(4) by (simp add: message_saveable_def sm_new_def text_message_def)
    from load_entry_message [OF this, of ?h] h
    have c: "load_entry sd (format_message_entry sd (sm_new now (text_message System c))) ?h
        = ?s0\<lparr>messages := []\<rparr>"
      using Some by (simp add: sm_new_def text_message_def)
    have "fold (load_entry sd) (map (format_message_entry sd) (messages s)) (?s0\<lparr>messages := []\<rparr>) = ?s0"
      using Some by (subst load_entries_messages [OF msgs]) simp_all
    with Some c show ?thesis by (simp add: save_entries_def adopt_context_def)
  qed
  moreover have "recalculate_tokens bpe (adopt_context ?s0) = (recalculate_tokens bpe (adopt_context s))\<lparr>dirty := False\<rparr>"
    by (cases "dropWhile (\<lambda>sm. role (sm_message sm) \<noteq> System) (messages s)")
      (simp_all add: adopt_context_def recalculate_tokens_def del: dropWhile_eq_Nil_conv)
  ultimately show ?thesis using load_text_save_text [OF assms(1)] by simp
qed

text \<open>C3: What becomes of a session that is saved and read again. It is the same session with the token count
  recomputed and the mark for saving cleared, when it has a system context or no system message; otherwise its first system
  message, such as the summary compaction writes, is moved out of the conversation into the system context, and
  everything else is the same. Of the crates it needs that the entries print to one line each that parses back, and
  that the date and the usages are read back; of the images that no media type has a comma.\<close>

theorem session_save_load_roundtrip:
  assumes lines: "json_lines_ok sd (save_entries sd now s)"
    and date: "of_rfc3339 sd (to_rfc3339 sd (created_at s)) = Some (created_at s)"
    and msgs: "\<forall>sm \<in> set (messages s). message_saveable sd sm"
    and nousage: "usage_of_json sd JNull = None"
  shows "(system_context s \<noteq> None \<or> (\<forall>sm \<in> set (messages s). role (sm_message sm) \<noteq> System) \<longrightarrow>
      load_text sd bpe now' (s_id s) (save_text sd now s) = (recalculate_tokens bpe s)\<lparr>dirty := False\<rparr>)
    \<and> (system_context s = None \<and> messages s = before @ sm # after \<and> role (sm_message sm) = System
        \<and> (\<forall>x \<in> set before. role (sm_message x) \<noteq> System) \<longrightarrow>
      load_text sd bpe now' (s_id s) (save_text sd now s) =
        (recalculate_tokens bpe (s\<lparr>messages := before @ after, system_context := Some (content (sm_message sm))\<rparr>))
          \<lparr>dirty := False\<rparr>)"
proof (intro conjI impI)
  assume "system_context s \<noteq> None \<or> (\<forall>sm \<in> set (messages s). role (sm_message sm) \<noteq> System)"
  then show "load_text sd bpe now' (s_id s) (save_text sd now s) = (recalculate_tokens bpe s)\<lparr>dirty := False\<rparr>"
    using load_saved [OF assms] adopt_context_same by simp
next
  assume a: "system_context s = None \<and> messages s = before @ sm # after \<and> role (sm_message sm) = System
      \<and> (\<forall>x \<in> set before. role (sm_message x) \<noteq> System)"
  then have "adopt_context s = s\<lparr>messages := before @ after, system_context := Some (content (sm_message sm))\<rparr>"
    by (simp add: adopt_context_def dropWhile_append2 takeWhile_append2)
  then show "load_text sd bpe now' (s_id s) (save_text sd now s) =
      (recalculate_tokens bpe (s\<lparr>messages := before @ after, system_context := Some (content (sm_message sm))\<rparr>))\<lparr>dirty := False\<rparr>"
    using load_saved [OF assms] by simp
qed

definition sample_session :: session where
  "sample_session = add_message None 7 (text_message User ''hi'')
     (set_system_context None ''ctx'' (session_new ''u'' 3 None))"

definition sample_serde0 :: serde where
  "sample_serde0 = \<lparr>to_json_text = (\<lambda>v. []), of_json_text = (\<lambda>t. None), json_error = (\<lambda>t. []),
     usage_to_json = (\<lambda>u. JBool True), usage_of_json = (\<lambda>v. None),
     to_rfc3339 = (\<lambda>d. ''date''), of_rfc3339 = (\<lambda>t. Some 3)\<rparr>"

definition sample_print :: "json \<Rightarrow> string" where
  "sample_print v =
     (if as_str (jindex v ''type'') = Some ''session'' then ''{H}''
      else if as_str (jindex (jindex v ''message'') ''role'') = Some ''system'' then ''{S}''
      else ''{M}'')"

definition sample_parse :: "string \<Rightarrow> json option" where
  "sample_parse t =
     (if t = ''{H}'' then Some (save_entries sample_serde0 9 sample_session ! 0)
      else if t = ''{S}'' then Some (save_entries sample_serde0 9 sample_session ! 1)
      else if t = ''{M}'' then Some (save_entries sample_serde0 9 sample_session ! 2)
      else None)"

definition sample_serde :: serde where
  "sample_serde = sample_serde0\<lparr>to_json_text := sample_print, of_json_text := sample_parse\<rparr>"

lemma sample_entries: "save_entries sample_serde 9 sample_session = save_entries sample_serde0 9 sample_session"
  by (simp add: save_entries_def header_entry_def format_message_entry_def format_message_def
      sample_serde_def split: option.split)

lemma sample_lines:
  "line_ok ''{H}'' \<and> trim ''{H}'' \<noteq> [] \<and> line_ok ''{S}'' \<and> trim ''{S}'' \<noteq> []
   \<and> line_ok ''{M}'' \<and> trim ''{M}'' \<noteq> []"
  by (simp add: line_ok_def newline_def strip_cr_def trim_def is_cont_byte_def is_whitespace_def)

lemmas sample_defs = sample_session_def set_system_context_def recalculate_tokens_def
  session_new_def new_with_cwd_def add_message_def text_message_def sm_new_def

lemma sample_json_lines: "json_lines_ok sample_serde (save_entries sample_serde 9 sample_session)"
proof -
  let ?es = "save_entries sample_serde0 9 sample_session"
  have es: "\<exists>h c m. ?es = [h, c, m] \<and> sample_print h = ''{H}'' \<and> sample_print c = ''{S}''
      \<and> sample_print m = ''{M}''"
    by (simp add: save_entries_def header_entry_def format_message_entry_def format_message_def
        sample_print_def sample_defs jset_opt_def)
  have tj: "to_json_text sample_serde = sample_print" "of_json_text sample_serde = sample_parse"
    by (simp_all add: sample_serde_def)
  from es show ?thesis
    by (auto simp: sample_entries json_lines_ok_def tj sample_parse_def sample_lines)
qed

definition summary_session :: session where
  "summary_session = (session_new ''u'' 3 None)\<lparr>messages := [sm_new 1 (text_message System ''sum'')]\<rparr>"

definition summary_serde :: serde where
  "summary_serde = sample_serde0\<lparr>to_json_text := sample_print, of_json_text := (\<lambda>t.
     if t = ''{H}'' then Some (save_entries sample_serde0 9 summary_session ! 0)
     else Some (save_entries sample_serde0 9 summary_session ! 1))\<rparr>"

lemma summary_json_lines: "json_lines_ok summary_serde (save_entries summary_serde 9 summary_session)"
proof -
  have eq: "save_entries summary_serde 9 summary_session = save_entries sample_serde0 9 summary_session"
    by (simp add: save_entries_def header_entry_def format_message_entry_def format_message_def
      summary_serde_def split: option.split)
  let ?es = "save_entries sample_serde0 9 summary_session"
  have es: "\<exists>h c. ?es = [h, c] \<and> sample_print h = ''{H}'' \<and> sample_print c = ''{S}''"
    by (simp add: save_entries_def header_entry_def format_message_entry_def format_message_def
        sample_print_def summary_session_def session_new_def new_with_cwd_def sm_new_def
        text_message_def jset_opt_def)
  have tj: "to_json_text summary_serde = sample_print"
    and oj: "of_json_text summary_serde = (\<lambda>t. if t = ''{H}'' then Some (?es ! 0) else Some (?es ! 1))"
    by (simp_all add: summary_serde_def)
  from es show ?thesis
    by (auto simp: eq json_lines_ok_def tj oj sample_lines)
qed

theorem session_save_load_roundtrip_witness:
  "load_text sample_serde None 0 ''u'' (save_text sample_serde 9 sample_session)
     = (recalculate_tokens None sample_session)\<lparr>dirty := False\<rparr>
   \<and> messages summary_session \<noteq> []
   \<and> messages (load_text summary_serde None 0 ''u'' (save_text summary_serde 9 summary_session)) = []
   \<and> system_context (load_text summary_serde None 0 ''u'' (save_text summary_serde 9 summary_session)) = Some ''sum''"
proof -
  have i: "s_id sample_session = ''u''" "s_id summary_session = ''u''"
    by (simp_all add: sample_defs summary_session_def)
  have same: "load_text sample_serde None 0 ''u'' (save_text sample_serde 9 sample_session)
     = (recalculate_tokens None sample_session)\<lparr>dirty := False\<rparr>"
    using session_save_load_roundtrip [OF sample_json_lines, of None 0] i
    by (simp add: sample_serde_def sample_serde0_def message_saveable_def sample_defs)
  have "load_text summary_serde None 0 ''u'' (save_text summary_serde 9 summary_session) =
      (recalculate_tokens None (summary_session\<lparr>messages := [], system_context := Some ''sum''\<rparr>))\<lparr>dirty := False\<rparr>"
    using session_save_load_roundtrip [OF summary_json_lines, where before = "[]" and after = "[]"
        and sm = "sm_new 1 (text_message System ''sum'')" and bpe = None and now' = 0] i
    by (simp add: summary_serde_def sample_serde0_def message_saveable_def summary_session_def
        session_new_def new_with_cwd_def sm_new_def text_message_def)
  with same show ?thesis by (simp add: recalculate_tokens_def summary_session_def)
qed

end
