(* ===== verification/Model_Config.thy ===== *)
theory Model_Config
  imports Llm_Types
begin

text \<open>
  Model configurations and their inheritance (\<^verbatim>\<open>src/src/config/models.rs\<close>), and the parts of the
  application configuration (\<^verbatim>\<open>src/src/config/mod.rs\<close>) the agent reads. A \<open>HashMap\<close> whose keys are
  walked or searched is the list of its entries; lookups go through \<open>map_of\<close>.
\<close>

subsection \<open>Configuration data\<close>

record fallback_settings =
  fb_default :: string
  fb_allow :: "string list"
  fb_deny :: "string list"

record model_config =
  mc_provider :: "string option"
  api_base :: "string option"
  api_key_env :: "string option"
  mc_model :: string
  mc_extend :: "string option"
  timeout :: "u64 option"
  extra_body :: "json option"
  fallback_models :: "string list option"
  mc_fallback_settings :: "fallback_settings option"
  aliases :: "string list option"
  supports_vision :: "bool option"
  tokenizer_name :: "string option"

record key_url =
  api_key :: string
  base_url :: string

record ollama_config =
  endpoint :: string
  ollama_model :: string

record claude_cli_config =
  cli_command :: string
  cli_model :: string

record extra_provider =
  ex_api_key :: "string option"
  ex_base_url :: string

record providers_config =
  openai :: "key_url option"
  anthropic :: "key_url option"
  ollama :: "ollama_config option"
  claude_cli :: "claude_cli_config option"
  extra :: "(string \<times> extra_provider) list"

record compaction_config =
  strategy :: string
  cc_fallback_models :: "string list"
  keep_last :: nat

record tools_config =
  require_approval :: "string list"
  tool_output_max_chars :: nat
  log_injection_warnings :: bool
  use_content_delimiters :: bool

record app_config =
  models :: "(string \<times> model_config) list"
  providers :: providers_config
  max_tokens :: nat
  workspace_path :: string
  compaction :: compaction_config
  tools_cfg :: tools_config
  vision_fallback_model :: string
  vision_fallback_prompt :: string

subsection \<open>Inheritance\<close>

text \<open>
  The first loop of \<open>resolve_model_config\<close>: follow \<open>extend\<close> from the key, child first. Every step
  either uses up a configured key that was not visited or leaves the configured keys, so it ends.
\<close>

function build_chain ::
  "(string \<times> model_config) list \<Rightarrow> string \<Rightarrow> string list \<Rightarrow> model_config list
   \<Rightarrow> (anyhow_error, model_config list) res" where
  "build_chain ms current_key visited chain =
     (case map_of ms current_key of
        None \<Rightarrow> Inl (Msg (''Model config not found: '' @ current_key))
      | Some config \<Rightarrow>
          (case mc_extend config of
             None \<Rightarrow> Inr (chain @ [config])
           | Some parent \<Rightarrow>
               if parent \<in> set visited then Inl (CircularModel visited)
               else build_chain ms parent (visited @ [parent]) (chain @ [config])))"
  by pat_completeness auto
termination
proof (relation "measure (\<lambda>(ms, k, visited, chain).
    card (fst ` set ms - set visited) + (if k \<in> fst ` set ms then 1 else 0))", simp)
  fix ms :: "(string \<times> model_config) list" and k parent :: string and visited :: "string list"
    and chain config
  assume k: "map_of ms k = Some config" and new: "parent \<notin> set visited"
  let ?keys = "fst ` set ms"
  have "k \<in> ?keys" using k by (metis map_of_SomeD fst_conv image_eqI)
  moreover have "card (?keys - set (visited @ [parent])) + (if parent \<in> ?keys then 1 else 0)
      \<le> card (?keys - set visited)"
  proof (cases "parent \<in> ?keys")
    case True
    then have ins: "?keys - set visited = insert parent (?keys - set (visited @ [parent]))"
      using new by auto
    have "card (insert parent (?keys - set (visited @ [parent])))
        = Suc (card (?keys - set (visited @ [parent])))"
      by (rule card_insert_disjoint) auto
    then have "card (?keys - set visited) = Suc (card (?keys - set (visited @ [parent])))"
      by (simp only: ins)
    with True show ?thesis by simp
  next
    case False
    then have "?keys - set (visited @ [parent]) = ?keys - set visited" by auto
    with False show ?thesis by simp
  qed
  ultimately show "((ms, parent, visited @ [parent], chain @ [config]), ms, k, visited, chain)
      \<in> measure (\<lambda>(ms, k, visited, chain).
          card (fst ` set ms - set visited) + (if k \<in> fst ` set ms then 1 else 0))"
    by simp
qed

declare build_chain.simps [simp del]

fun override :: "'a option \<Rightarrow> 'a option \<Rightarrow> 'a option" where
  "override (Some v) old = Some v"
| "override None old = old"

definition merge_child :: "model_config \<Rightarrow> model_config \<Rightarrow> model_config" where
  "merge_child child final =
     final\<lparr>mc_provider := override (mc_provider child) (mc_provider final),
           api_base := override (api_base child) (api_base final),
           api_key_env := override (api_key_env child) (api_key_env final),
           mc_model := mc_model child,
           timeout := override (timeout child) (timeout final),
           extra_body := override (extra_body child) (extra_body final),
           fallback_models := override (fallback_models child) (fallback_models final),
           mc_fallback_settings := override (mc_fallback_settings child) (mc_fallback_settings final),
           aliases := override (aliases child) (aliases final),
           supports_vision := override (supports_vision child) (supports_vision final),
           tokenizer_name := override (tokenizer_name child) (tokenizer_name final)\<rparr>"

definition merge_chain :: "model_config list \<Rightarrow> model_config" where
  "merge_chain chain = fold merge_child (tl (rev chain)) (hd (rev chain))"

definition resolve_model_config ::
  "string \<Rightarrow> (string \<times> model_config) list \<Rightarrow> (anyhow_error, model_config) res" where
  "resolve_model_config key ms =
     bind_res (build_chain ms key [key] []) (\<lambda>chain. Inr (merge_chain chain))"

subsection \<open>What resolution computes\<close>

text \<open>
  The specification: \<open>inherits ms seen k ks\<close> holds when following \<open>extend\<close> from \<open>k\<close> visits the
  configurations \<open>ks\<close>, child first, meets no key twice and ends at one that extends nothing.
\<close>

inductive inherits :: "(string \<times> model_config) list \<Rightarrow> string list \<Rightarrow> string \<Rightarrow> model_config list \<Rightarrow> bool"
  for ms where
  root: "map_of ms k = Some c \<Longrightarrow> mc_extend c = None \<Longrightarrow> inherits ms seen k [c]"
| child: "map_of ms k = Some c \<Longrightarrow> mc_extend c = Some p \<Longrightarrow> p \<notin> set seen \<Longrightarrow>
    inherits ms (seen @ [p]) p cs \<Longrightarrow> inherits ms seen k (c # cs)"

inductive_simps inherits_Nil [simp]: "inherits ms seen k []"

lemma inherits_not_Nil: "inherits ms seen k cs \<Longrightarrow> cs \<noteq> []"
  by (erule inherits.cases) simp_all

lemma build_chain_inherits:
  "inherits ms seen k cs \<Longrightarrow> build_chain ms k seen acc = Inr (acc @ cs)"
proof (induction arbitrary: acc rule: inherits.induct)
  case (root k c seen)
  then show ?case by (subst build_chain.simps) simp
next
  case (child k c p seen cs)
  then show ?case by (subst build_chain.simps) simp
qed

lemma inherits_build_chain:
  "build_chain ms k seen acc = Inr r \<Longrightarrow> \<exists>cs. r = acc @ cs \<and> inherits ms seen k cs"
proof (induction ms k seen acc rule: build_chain.induct)
  case (1 ms k seen acc)
  from "1.prems" obtain c where c: "map_of ms k = Some c"
    by (subst (asm) build_chain.simps) (auto split: option.splits)
  show ?case
  proof (cases "mc_extend c")
    case None
    with "1.prems" c have "r = acc @ [c]" by (subst (asm) build_chain.simps) simp
    with c None show ?thesis by (auto intro: inherits.root)
  next
    case (Some p)
    with "1.prems" c have new: "p \<notin> set seen"
      and rec: "build_chain ms p (seen @ [p]) (acc @ [c]) = Inr r"
      by (subst (asm) build_chain.simps; simp split: if_splits)+
    from "1.IH" [OF c Some new rec] obtain cs where
      "r = (acc @ [c]) @ cs" and "inherits ms (seen @ [p]) p cs" by blast
    with c Some new show ?thesis by (auto intro: inherits.child)
  qed
qed

text \<open>The nearest configuration in the chain that sets a field decides it.\<close>

fun first_some :: "'a option list \<Rightarrow> 'a option" where
  "first_some [] = None"
| "first_some (Some x # xs) = Some x"
| "first_some (None # xs) = first_some xs"

lemma override_first_some: "override x (first_some xs) = first_some (x # xs)"
  by (cases x) simp_all

lemma first_some_single [simp]: "first_some [x] = x"
  by (cases x) simp_all

lemma merge_chain_Cons: "cs \<noteq> [] \<Longrightarrow> merge_chain (c # cs) = merge_child c (merge_chain cs)"
proof -
  assume "cs \<noteq> []"
  then obtain r rs where "rev cs = r # rs" by (cases "rev cs") auto
  then show ?thesis by (simp add: merge_chain_def)
qed

lemma merge_chain_single [simp]: "merge_chain [c] = c"
  by (simp add: merge_chain_def)

lemma merge_chain_fields:
  assumes "cs \<noteq> []"
  shows "mc_model (merge_chain cs) = mc_model (hd cs)
    \<and> mc_provider (merge_chain cs) = first_some (map mc_provider cs)
    \<and> api_base (merge_chain cs) = first_some (map api_base cs)
    \<and> api_key_env (merge_chain cs) = first_some (map api_key_env cs)
    \<and> timeout (merge_chain cs) = first_some (map timeout cs)
    \<and> extra_body (merge_chain cs) = first_some (map extra_body cs)
    \<and> fallback_models (merge_chain cs) = first_some (map fallback_models cs)
    \<and> mc_fallback_settings (merge_chain cs) = first_some (map mc_fallback_settings cs)
    \<and> aliases (merge_chain cs) = first_some (map aliases cs)
    \<and> supports_vision (merge_chain cs) = first_some (map supports_vision cs)
    \<and> tokenizer_name (merge_chain cs) = first_some (map tokenizer_name cs)
    \<and> mc_extend (merge_chain cs) = mc_extend (last cs)"
  using assms
proof (induction cs)
  case (Cons c cs)
  show ?case
  proof (cases "cs = []")
    case True
    then show ?thesis by simp
  next
    case False
    with Cons.IH show ?thesis
      by (simp add: merge_chain_Cons merge_child_def override_first_some)
  qed
qed simp

lemma inherits_root: "inherits ms seen k cs \<Longrightarrow> mc_extend (last cs) = None"
  by (induction rule: inherits.induct) (auto dest: inherits_not_Nil)

lemma inherits_hd: "inherits ms seen k cs \<Longrightarrow> map_of ms k = Some (hd cs)"
  by (erule inherits.cases) simp_all

lemma build_chain_error:
  "build_chain ms k seen acc = Inl e \<Longrightarrow>
     (\<exists>key. e = Msg (''Model config not found: '' @ key) \<and> map_of ms key = None)
     \<or> (\<exists>v. e = CircularModel v)"
proof (induction ms k seen acc rule: build_chain.induct)
  case (1 ms k seen acc)
  from "1.prems" show ?case
    by (subst (asm) build_chain.simps) (auto split: option.splits if_splits dest: "1.IH")
qed

text \<open>C40: resolving a model key returns on every configuration, cyclic ones included. It succeeds
  exactly when the chain of parents ends at a model that extends nothing without meeting a key
  twice; then each of the ten optional settings is the one of the nearest model in the chain that sets it, the
  wire name is the child's own, and the result extends nothing. Otherwise it is an error: a missing
  key or a circular dependency.\<close>

theorem resolve_model_config_spec:
  "case resolve_model_config key ms of
     Inr c \<Rightarrow> \<exists>cs. inherits ms [key] key cs
        \<and> mc_model c = mc_model (hd cs) \<and> map_of ms key = Some (hd cs)
        \<and> mc_provider c = first_some (map mc_provider cs)
        \<and> api_base c = first_some (map api_base cs)
        \<and> api_key_env c = first_some (map api_key_env cs)
        \<and> timeout c = first_some (map timeout cs)
        \<and> extra_body c = first_some (map extra_body cs)
        \<and> fallback_models c = first_some (map fallback_models cs)
        \<and> mc_fallback_settings c = first_some (map mc_fallback_settings cs)
        \<and> aliases c = first_some (map aliases cs)
        \<and> supports_vision c = first_some (map supports_vision cs)
        \<and> tokenizer_name c = first_some (map tokenizer_name cs)
        \<and> mc_extend c = None
   | Inl e \<Rightarrow> (\<nexists>cs. inherits ms [key] key cs)
        \<and> ((\<exists>k. e = Msg (''Model config not found: '' @ k) \<and> map_of ms k = None)
           \<or> (\<exists>v. e = CircularModel v))"
proof (cases "build_chain ms key [key] []")
  case (Inl e)
  then have "\<nexists>cs. inherits ms [key] key cs"
    by (auto dest: build_chain_inherits [where acc = "[]"])
  with Inl build_chain_error [OF Inl] show ?thesis by (simp add: resolve_model_config_def)
next
  case (Inr r)
  then obtain cs where r: "r = cs" and i: "inherits ms [key] key cs"
    by (auto dest: inherits_build_chain)
  from merge_chain_fields [OF inherits_not_Nil [OF i]] i inherits_hd [OF i] inherits_root [OF i] Inr r
  show ?thesis by (auto simp: resolve_model_config_def)
qed

end
