(* ===== verification/Smart_Client.thy ===== *)
theory Smart_Client
  imports Model_Config
begin

text \<open>
  Choosing a provider and falling back between models (\<^verbatim>\<open>src/src/agent/client.rs\<close>, and
  \<open>create_provider\<close> with its helpers in \<^verbatim>\<open>src/src/agent/providers.rs\<close>).

  A provider is the value its constructor builds. What a provider does when called goes over the
  network or runs a program, so it is a function of the record \<open>host\<close> on the state \<open>'w\<close> of the
  world outside; so are the process environment, the clock, the \<open>glob\<close> crate
  (\<open>None\<close> for a pattern it rejects), the text of an error, and the Unicode class of numeric
  characters.
\<close>

datatype llm_provider =
    OpenAIProvider string string string
  | AnthropicProvider string string string nat
  | OllamaProvider string string
  | ClaudeCliProvider string string string
  | MockProvider string

record 'w host =
  h_env :: "string \<Rightarrow> string option"
  h_glob :: "string \<Rightarrow> string \<Rightarrow> bool option"
  h_numeric :: "string \<Rightarrow> bool"
  h_display :: "anyhow_error \<Rightarrow> string"
  h_elapsed :: "'w \<Rightarrow> u64"
  h_chat :: "llm_provider \<Rightarrow> message list \<Rightarrow> tool_schema list option \<Rightarrow> 'w
     \<Rightarrow> (anyhow_error, llm_response) res \<times> 'w"
  h_stream :: "llm_provider \<Rightarrow> message list \<Rightarrow> tool_schema list option \<Rightarrow> 'w
     \<Rightarrow> (anyhow_error, (anyhow_error, stream_chunk) res list) res \<times> 'w"
  h_summarize :: "llm_provider \<Rightarrow> string \<Rightarrow> 'w \<Rightarrow> (anyhow_error, string) res \<times> 'w"

subsection \<open>Names of models and providers\<close>

definition resolve_model_alias :: "string \<Rightarrow> string" where
  "resolve_model_alias m =
     (let l = to_lowercase m in
      if l = ''opus'' then ''anthropic/claude-opus-4-5''
      else if l = ''sonnet'' then ''anthropic/claude-sonnet-4-5''
      else if l = ''gpt'' then ''openai/gpt-4o''
      else if l = ''gpt-mini'' then ''openai/gpt-4o-mini''
      else m)"

definition normalize_model_id :: "string \<Rightarrow> string \<Rightarrow> string" where
  "normalize_model_id prov model_id =
     (if prov = ''anthropic'' then
        (let l = to_lowercase model_id in
         if l = ''claude-opus-4-5'' \<or> l = ''opus'' then ''claude-opus-4-5-20251101''
         else if l = ''claude-sonnet-4-5'' \<or> l = ''sonnet'' then ''claude-sonnet-4-5-20250929''
         else ''claude-opus-4-5-20251101'')
      else model_id)"

definition normalize_claude_model :: "string \<Rightarrow> string" where
  "normalize_claude_model m =
     (let l = to_lowercase m in
      if l \<in> {''opus'', ''opus-4.5'', ''opus-4'', ''claude-opus-4-5''} then ''opus''
      else if l \<in> {''sonnet'', ''sonnet-4.5'', ''sonnet-4.1'', ''claude-sonnet-4-5''} then ''sonnet''
      else if l \<in> {''haiku'', ''haiku-3.5'', ''claude-haiku-3-5''} then ''haiku''
      else l)"

definition new_claude_cli :: "string \<Rightarrow> string \<Rightarrow> string \<Rightarrow> llm_provider" where
  "new_claude_cli cmd m workspace = ClaudeCliProvider cmd (normalize_claude_model m) workspace"

definition parse_provider_model :: "string \<Rightarrow> string \<times> string" where
  "parse_provider_model s =
     (case split_once CHR ''/'' s of
        Some (p, m) \<Rightarrow> (to_lowercase p, m)
      | None \<Rightarrow>
          if starts_with s ''gpt-'' \<or> starts_with s ''o1'' then (''openai'', s)
          else if starts_with s ''claude-'' then (''anthropic'', s)
          else (''unknown'', s))"

definition detect_tokenizer :: "string \<Rightarrow> string" where
  "detect_tokenizer m =
     (if contains m ''gpt-4o'' \<or> contains m ''o1'' then ''o200k_base'' else ''cl100k_base'')"

subsection \<open>Building a provider\<close>

definition provider_and_model :: "app_config \<Rightarrow> string \<Rightarrow> string \<times> string" where
  "provider_and_model cfg m =
     (case find_char CHR ''/'' m of
        Some pos \<Rightarrow> (to_lowercase (take pos m), drop (Suc pos) m)
      | None \<Rightarrow>
          if starts_with m ''gpt-'' \<or> starts_with m ''o1'' then (''openai'', m)
          else if starts_with m ''claude-'' then (''anthropic'', m)
          else if ollama (providers cfg) \<noteq> None then (''ollama'', m)
          else if anthropic (providers cfg) \<noteq> None then (''anthropic'', m)
          else (''unknown'', m))"

text \<open>The texts of the errors; \<open>dq\<close> and \<open>sq\<close> are the double and the single quote.\<close>

abbreviation dq :: string where "dq \<equiv> [CHR 0x22]"
abbreviation sq :: string where "sq \<equiv> [CHR 0x27]"

definition anthropic_missing :: anyhow_error where
  "anthropic_missing = Msg (''Anthropic provider not configured.'' @ nl
     @ ''Set ANTHROPIC_API_KEY env var or add to ~/.zier-alpha/config.toml:'' @ nl2
     @ ''[providers.anthropic]'' @ nl @ ''api_key = '' @ dq @ ''sk-ant-...'' @ dq)"

definition openai_missing :: anyhow_error where
  "openai_missing = Msg (''OpenAI provider not configured.'' @ nl
     @ ''Set OPENAI_API_KEY env var or add to ~/.zier-alpha/config.toml:'' @ nl2
     @ ''[providers.openai]'' @ nl @ ''api_key = '' @ dq @ ''sk-...'' @ dq)"

definition ollama_missing :: anyhow_error where
  "ollama_missing = Msg (''Ollama provider not configured.'' @ nl
     @ ''Add to ~/.zier-alpha/config.toml:'' @ nl2
     @ ''[providers.ollama]'' @ nl @ ''endpoint = '' @ dq @ ''http://localhost:11434'' @ dq)"

definition unknown_provider :: "string \<Rightarrow> string \<Rightarrow> anyhow_error" where
  "unknown_provider prov m = Msg (''Unknown provider '' @ sq @ prov @ sq @ '' for model '' @ sq @ m @ sq
     @ ''.'' @ nl2 @ ''Supported formats (OpenClaw-compatible):'' @ nl
     @ ''  - anthropic/claude-opus-4-5, anthropic/claude-sonnet-4-5'' @ nl
     @ ''  - openai/gpt-4o, openai/gpt-4o-mini'' @ nl
     @ ''  - claude-cli/opus, claude-cli/sonnet'' @ nl
     @ ''  - ollama/llama3, ollama/mistral'' @ nl2
     @ ''Or use aliases: opus, sonnet, haiku, gpt, gpt-mini'')"

definition create_provider :: "app_config \<Rightarrow> string \<Rightarrow> (anyhow_error, llm_provider) res" where
  "create_provider cfg name =
     (let m = resolve_model_alias name;
          ps = providers cfg;
          (prov, model_id) = provider_and_model cfg m in
      if prov = ''anthropic'' then
        (case anthropic ps of
           None \<Rightarrow> Inl anthropic_missing
         | Some c \<Rightarrow> Inr (AnthropicProvider (api_key c) (base_url c)
                           (normalize_model_id ''anthropic'' model_id) (max_tokens cfg)))
      else if prov = ''openai'' then
        (case openai ps of
           None \<Rightarrow> Inl openai_missing
         | Some c \<Rightarrow> Inr (OpenAIProvider (api_key c) (base_url c) model_id))
      else if prov = ''claude-cli'' then
        Inr (new_claude_cli (case claude_cli ps of Some c \<Rightarrow> cli_command c | None \<Rightarrow> ''claude'')
               model_id (workspace_path cfg))
      else if prov = ''ollama'' then
        (case ollama ps of
           None \<Rightarrow> Inl ollama_missing
         | Some c \<Rightarrow> Inr (OllamaProvider (endpoint c) model_id))
      else if prov = ''mock'' then Inr (MockProvider model_id)
      else (case claude_cli ps of
              Some c \<Rightarrow> Inr (new_claude_cli (cli_command c) (cli_model c) (workspace_path cfg))
            | None \<Rightarrow> Inl (unknown_provider prov m)))"

definition get_key ::
  "'w host \<Rightarrow> string \<Rightarrow> string option \<Rightarrow> string option \<Rightarrow> (anyhow_error, string) res" where
  "get_key h prov env_var dflt =
     (case env_var of
        Some v \<Rightarrow> (case h_env h v of Some k \<Rightarrow> Inr k | None \<Rightarrow> Inl (Msg (''Missing env var: '' @ v)))
      | None \<Rightarrow> (case dflt of Some d \<Rightarrow> Inr d
                | None \<Rightarrow> Inl (Msg (''No API key found for '' @ prov))))"

definition find_extra :: "providers_config \<Rightarrow> string \<Rightarrow> extra_provider option" where
  "find_extra ps prov =
     or_else (map_of (extra ps) prov)
       (map_option snd (find (\<lambda>(k, v). to_lowercase k = to_lowercase prov) (extra ps)))"

definition create_provider_from_config ::
  "'w host \<Rightarrow> app_config \<Rightarrow> model_config \<Rightarrow> (anyhow_error, llm_provider) res" where
  "create_provider_from_config h cfg mc =
     (let ps = providers cfg;
          (prov, model_id) = (case mc_provider mc of
             Some p \<Rightarrow> (to_lowercase p, mc_model mc)
           | None \<Rightarrow> parse_provider_model (mc_model mc)) in
      if prov = ''openai'' then
        bind_res (get_key h prov (api_key_env mc) (map_option api_key (openai ps))) (\<lambda>k.
          Inr (OpenAIProvider k (unwrap_or (api_base mc)
                 (case openai ps of Some c \<Rightarrow> base_url c | None \<Rightarrow> ''https://api.openai.com/v1''))
               model_id))
      else if prov = ''anthropic'' then
        bind_res (get_key h prov (api_key_env mc) (map_option api_key (anthropic ps))) (\<lambda>k.
          Inr (AnthropicProvider k (unwrap_or (api_base mc)
                 (case anthropic ps of Some c \<Rightarrow> base_url c | None \<Rightarrow> ''https://api.anthropic.com''))
               model_id (max_tokens cfg)))
      else if prov = ''ollama'' then
        Inr (OllamaProvider (unwrap_or (api_base mc)
               (case ollama ps of Some c \<Rightarrow> endpoint c | None \<Rightarrow> ''http://localhost:11434''))
             model_id)
      else if prov = ''claude-cli'' then
        Inr (new_claude_cli (case claude_cli ps of Some c \<Rightarrow> cli_command c | None \<Rightarrow> ''claude'')
               model_id (workspace_path cfg))
      else (case find_extra ps prov of
              Some ex \<Rightarrow>
                bind_res (get_key h prov (api_key_env mc) (ex_api_key ex)) (\<lambda>k.
                  Inr (OpenAIProvider k (unwrap_or (api_base mc) (ex_base_url ex)) model_id))
            | None \<Rightarrow> create_provider cfg (mc_model mc)))"

subsection \<open>The client\<close>

definition direct_model :: "string \<Rightarrow> model_config" where
  "direct_model alias =
     \<lparr>mc_provider = None, api_base = None, api_key_env = None, mc_model = alias, mc_extend = None,
      timeout = None, extra_body = None, fallback_models = None, mc_fallback_settings = None,
      aliases = None, supports_vision = None, tokenizer_name = None\<rparr>"

definition resolve_config :: "app_config \<Rightarrow> string \<Rightarrow> (anyhow_error, model_config) res" where
  "resolve_config cfg alias =
     bind_res (if map_of (models cfg) alias \<noteq> None
               then resolve_model_config alias (models cfg) else Inr (direct_model alias))
       (\<lambda>c. Inr (if tokenizer_name c = None
                 then c\<lparr>tokenizer_name := Some (detect_tokenizer (mc_model c))\<rparr> else c))"

definition glob_match :: "'w host \<Rightarrow> string \<Rightarrow> string \<Rightarrow> bool" where
  "glob_match h pat text = unwrap_or (h_glob h pat text) False"

definition error_status :: "'w host \<Rightarrow> anyhow_error \<Rightarrow> string" where
  "error_status h e =
     (case e of
        Llm le \<Rightarrow> (case status_code le of Some c \<Rightarrow> show_nat (unat c) | None \<Rightarrow> ''500'')
      | _ \<Rightarrow> unwrap_or
               (find (\<lambda>w. list_all (h_numeric h) (chars w) \<and> length w = 3)
                  (split_whitespace (h_display h e))) ''500'')"

definition check_fallback_allowed :: "'w host \<Rightarrow> anyhow_error \<Rightarrow> model_config \<Rightarrow> bool" where
  "check_fallback_allowed h e mc =
     (case mc_fallback_settings mc of
        None \<Rightarrow> True
      | Some st \<Rightarrow>
          let code = error_status h e in
          if list_ex (\<lambda>p. glob_match h p code) (fb_allow st) then True
          else if list_ex (\<lambda>p. glob_match h p code) (fb_deny st) then False
          else fb_default st = ''allow'')"

definition candidates :: "app_config \<Rightarrow> string \<Rightarrow> string list" where
  "candidates cfg alias =
     alias # (case resolve_config cfg alias of
                Inr c \<Rightarrow> unwrap_or (fallback_models c) [] | Inl _ \<Rightarrow> [])"

text \<open>The loop of \<open>chat\<close> and of \<open>chat_stream\<close> over the candidates; \<open>call\<close> is the provider call.\<close>

fun try_models ::
  "'w host \<Rightarrow> app_config \<Rightarrow> (llm_provider \<Rightarrow> 'w \<Rightarrow> (anyhow_error, 'r) res \<times> 'w)
   \<Rightarrow> string list \<Rightarrow> anyhow_error \<Rightarrow> 'w \<Rightarrow> (anyhow_error, model_config \<times> 'r) res \<times> 'w" where
  "try_models h cfg call [] last_error w = (Inl last_error, w)"
| "try_models h cfg call (alias # rest) last_error w =
     (case resolve_config cfg alias of
        Inl _ \<Rightarrow> try_models h cfg call rest last_error w
      | Inr mc \<Rightarrow>
          (case create_provider_from_config h cfg mc of
             Inl _ \<Rightarrow> try_models h cfg call rest last_error w
           | Inr p \<Rightarrow>
               (case call p w of
                  (Inr r, w') \<Rightarrow> (Inr (mc, r), w')
                | (Inl e, w') \<Rightarrow>
                    if \<not> check_fallback_allowed h e mc then (Inl e, w')
                    else try_models h cfg call rest e w')))"

definition no_models :: anyhow_error where
  "no_models = Msg ''No models available''"

record smart_response =
  sr_response :: llm_response
  used_model :: string
  provider_name :: string
  sr_latency_ms :: u64

definition client_chat ::
  "'w host \<Rightarrow> app_config \<Rightarrow> string \<Rightarrow> message list \<Rightarrow> tool_schema list option \<Rightarrow> 'w
   \<Rightarrow> (anyhow_error, smart_response) res \<times> 'w" where
  "client_chat h cfg alias msgs tools w =
     (case try_models h cfg (\<lambda>p. h_chat h p msgs tools) (candidates cfg alias) no_models w of
        (Inl e, w') \<Rightarrow> (Inl e, w')
      | (Inr (mc, r), w') \<Rightarrow>
          (Inr \<lparr>sr_response = r, used_model = mc_model mc,
                provider_name = (case mc_provider mc of Some p \<Rightarrow> to_lowercase p
                   | None \<Rightarrow> fst (parse_provider_model (mc_model mc))),
                sr_latency_ms = h_elapsed h w' - h_elapsed h w\<rparr>, w'))"

definition client_chat_stream ::
  "'w host \<Rightarrow> app_config \<Rightarrow> string \<Rightarrow> message list \<Rightarrow> tool_schema list option \<Rightarrow> 'w
   \<Rightarrow> (anyhow_error, (anyhow_error, stream_chunk) res list) res \<times> 'w" where
  "client_chat_stream h cfg alias msgs tools w =
     (case try_models h cfg (\<lambda>p. h_stream h p msgs tools) (candidates cfg alias) no_models w of
        (Inl e, w') \<Rightarrow> (Inl e, w')
      | (Inr (mc, st), w') \<Rightarrow> (Inr st, w'))"

definition client_summarize ::
  "'w host \<Rightarrow> app_config \<Rightarrow> string \<Rightarrow> string \<Rightarrow> 'w \<Rightarrow> (anyhow_error, string) res \<times> 'w" where
  "client_summarize h cfg alias text w =
     (case bind_res (resolve_config cfg alias) (create_provider_from_config h cfg) of
        Inl e \<Rightarrow> (Inl e, w)
      | Inr p \<Rightarrow> h_summarize h p text w)"

text \<open>The trait's default \<open>chat_stream\<close>: one chunk with the whole answer.\<close>

definition default_chat_stream ::
  "(anyhow_error, llm_response) res \<Rightarrow> (anyhow_error, (anyhow_error, stream_chunk) res list) res" where
  "default_chat_stream r =
     bind_res r (\<lambda>resp. case lr_content resp of
        Text t \<Rightarrow> Inr [Inr \<lparr>delta = t, chunk_done = True, chunk_tool_calls = None\<rparr>]
      | ToolCalls calls \<Rightarrow> Inr [Inr \<lparr>delta = [], chunk_done = True, chunk_tool_calls = Some calls\<rparr>])"

subsection \<open>Falling back\<close>

definition usable :: "'w host \<Rightarrow> app_config \<Rightarrow> string \<Rightarrow> (model_config \<times> llm_provider) option" where
  "usable h cfg alias =
     (case resolve_config cfg alias of
        Inr mc \<Rightarrow> (case create_provider_from_config h cfg mc of Inr p \<Rightarrow> Some (mc, p) | Inl _ \<Rightarrow> None)
      | Inl _ \<Rightarrow> None)"

lemma try_models_Cons:
  "try_models h cfg call (a # rest) e w =
     (case usable h cfg a of
        None \<Rightarrow> try_models h cfg call rest e w
      | Some (mc, p) \<Rightarrow>
          (case call p w of
             (Inr r, w') \<Rightarrow> (Inr (mc, r), w')
           | (Inl e', w') \<Rightarrow> if check_fallback_allowed h e' mc then try_models h cfg call rest e' w'
                              else (Inl e', w')))"
  by (simp add: usable_def split: sum.split prod.split)

text \<open>
  \<open>falls_through h cfg call as e w e' w'\<close>: each usable candidate of \<open>as\<close> was called and failed with
  an error its settings allow to fall back from; the last such error is \<open>e'\<close> (\<open>e\<close> if none was
  usable) and the calls took the world from \<open>w\<close> to \<open>w'\<close>.
\<close>

inductive falls_through ::
  "'w host \<Rightarrow> app_config \<Rightarrow> (llm_provider \<Rightarrow> 'w \<Rightarrow> (anyhow_error, 'r) res \<times> 'w)
   \<Rightarrow> string list \<Rightarrow> anyhow_error \<Rightarrow> 'w \<Rightarrow> anyhow_error \<Rightarrow> 'w \<Rightarrow> bool"
  for h cfg call where
  none: "falls_through h cfg call [] e w e w"
| unusable: "usable h cfg a = None \<Longrightarrow> falls_through h cfg call as e w e' w' \<Longrightarrow>
    falls_through h cfg call (a # as) e w e' w'"
| failed: "usable h cfg a = Some (mc, p) \<Longrightarrow> call p w = (Inl e1, w1) \<Longrightarrow>
    check_fallback_allowed h e1 mc \<Longrightarrow> falls_through h cfg call as e1 w1 e' w' \<Longrightarrow>
    falls_through h cfg call (a # as) e w e' w'"

lemma falls_through_step:
  assumes "try_models h cfg call (a # as) e w = (x, w')"
  shows "(\<exists>e1 w1. falls_through h cfg call [a] e w e1 w1 \<and> try_models h cfg call as e1 w1 = (x, w')
            \<and> (\<forall>as' e2 w2. falls_through h cfg call as' e1 w1 e2 w2 \<longrightarrow>
                 falls_through h cfg call (a # as') e w e2 w2))
       \<or> (\<exists>mc p r. usable h cfg a = Some (mc, p) \<and> call p w = (Inr r, w') \<and> x = Inr (mc, r))
       \<or> (\<exists>mc p e1. usable h cfg a = Some (mc, p) \<and> call p w = (Inl e1, w') \<and> x = Inl e1
            \<and> \<not> check_fallback_allowed h e1 mc)"
proof (cases "usable h cfg a")
  case None
  with assms have "try_models h cfg call as e w = (x, w')"
    unfolding try_models_Cons by simp
  with None show ?thesis
    by (intro disjI1) (blast intro: falls_through.unusable falls_through.none)
next
  case (Some mp)
  obtain mc p where mp: "mp = (mc, p)" by (cases mp)
  obtain y w1 where c: "call p w = (y, w1)" by (cases "call p w")
  show ?thesis
  proof (cases y)
    case (Inr r)
    with assms Some mp c show ?thesis unfolding try_models_Cons by simp
  next
    case (Inl e1)
    show ?thesis
    proof (cases "check_fallback_allowed h e1 mc")
      case False
      with Inl assms Some mp c show ?thesis unfolding try_models_Cons by simp
    next
      case True
      with Inl assms Some mp c have "try_models h cfg call as e1 w1 = (x, w')"
        unfolding try_models_Cons by simp
      with True Inl Some mp c show ?thesis
        by (intro disjI1) (blast intro: falls_through.failed falls_through.none)
    qed
  qed
qed

lemma try_models_success:
  assumes "try_models h cfg call as e w = (Inr (mc, r), w')"
  shows "\<exists>pre a post p e1 w1. as = pre @ a # post \<and> falls_through h cfg call pre e w e1 w1
     \<and> usable h cfg a = Some (mc, p) \<and> call p w1 = (Inr r, w')"
  using assms
proof (induction as arbitrary: e w)
  case (Cons a as)
  from falls_through_step [OF Cons.prems] show ?case
  proof (elim disjE exE conjE)
    fix e1 w1
    assume "try_models h cfg call as e1 w1 = (Inr (mc, r), w')"
      and ext: "\<forall>as' e2 w2. falls_through h cfg call as' e1 w1 e2 w2 \<longrightarrow>
                 falls_through h cfg call (a # as') e w e2 w2"
    from Cons.IH [OF this(1)] obtain pre b post p e2 w2 where
      "as = pre @ b # post" "falls_through h cfg call pre e1 w1 e2 w2"
      "usable h cfg b = Some (mc, p)" "call p w2 = (Inr r, w')" by blast
    with ext show ?thesis by (metis append_Cons)
  next
    fix mc' p r'
    assume "usable h cfg a = Some (mc', p)" "call p w = (Inr r', w')" "Inr (mc, r) = Inr (mc', r')"
    then show ?thesis using falls_through.none [of h cfg call e w] by (metis append_Nil sum.inject(2) prod.inject)
  qed simp
qed simp

lemma try_models_failure:
  assumes "try_models h cfg call as e w = (Inl e', w')"
  shows "falls_through h cfg call as e w e' w'
     \<or> (\<exists>pre a post mc p e1 w1. as = pre @ a # post \<and> falls_through h cfg call pre e w e1 w1
          \<and> usable h cfg a = Some (mc, p) \<and> call p w1 = (Inl e', w') \<and> \<not> check_fallback_allowed h e' mc)"
  using assms
proof (induction as arbitrary: e w)
  case Nil
  then show ?case by (auto intro: falls_through.none)
next
  case (Cons a as)
  from falls_through_step [OF Cons.prems] show ?case
  proof (elim disjE exE conjE)
    fix e1 w1
    assume "try_models h cfg call as e1 w1 = (Inl e', w')"
      and ext: "\<forall>as' e2 w2. falls_through h cfg call as' e1 w1 e2 w2 \<longrightarrow>
                 falls_through h cfg call (a # as') e w e2 w2"
    from Cons.IH [OF this(1)] show ?thesis
    proof (elim disjE exE conjE)
      assume "falls_through h cfg call as e1 w1 e' w'"
      with ext show ?thesis by blast
    next
      fix pre b post mc p e2 w2
      assume "as = pre @ b # post" "falls_through h cfg call pre e1 w1 e2 w2"
        "usable h cfg b = Some (mc, p)" "call p w2 = (Inl e', w')" "\<not> check_fallback_allowed h e' mc"
      with ext show ?thesis by (metis append_Cons)
    qed
  next
    fix mc p e1
    assume "usable h cfg a = Some (mc, p)" "call p w = (Inl e1, w')" "Inl e' = Inl e1"
      "\<not> check_fallback_allowed h e1 mc"
    then show ?thesis using falls_through.none [of h cfg call e w] by (metis append_Nil sum.inject(1))
  qed simp
qed

text \<open>C14: a chat goes to the model asked for, then to its fallback models in order. An answer comes
  from the first candidate that is usable and succeeds, every usable one before it having failed
  with an error whose fallback its own settings allow, and names that candidate's model. A failure
  is either that of a candidate whose settings deny the fallback, no later candidate being called,
  or the last error after all were tried.\<close>

theorem client_chat_spec:
  "case client_chat h cfg alias msgs tools w of
     (Inr sr, w') \<Rightarrow> \<exists>pre a post mc p e1 w1. candidates cfg alias = pre @ a # post
        \<and> falls_through h cfg (\<lambda>p. h_chat h p msgs tools) pre no_models w e1 w1
        \<and> usable h cfg a = Some (mc, p) \<and> h_chat h p msgs tools w1 = (Inr (sr_response sr), w')
        \<and> used_model sr = mc_model mc
   | (Inl e, w') \<Rightarrow>
        falls_through h cfg (\<lambda>p. h_chat h p msgs tools) (candidates cfg alias) no_models w e w'
        \<or> (\<exists>pre a post mc p e1 w1. candidates cfg alias = pre @ a # post
            \<and> falls_through h cfg (\<lambda>p. h_chat h p msgs tools) pre no_models w e1 w1
            \<and> usable h cfg a = Some (mc, p)
            \<and> h_chat h p msgs tools w1 = (Inl e, w') \<and> \<not> check_fallback_allowed h e mc)"
proof -
  let ?call = "\<lambda>p. h_chat h p msgs tools"
  obtain x w' where t: "try_models h cfg ?call (candidates cfg alias) no_models w = (x, w')"
    by (cases "try_models h cfg ?call (candidates cfg alias) no_models w")
  show ?thesis
  proof (cases x)
    case (Inl e)
    with t try_models_failure [OF t [unfolded Inl]] show ?thesis by (simp add: client_chat_def)
  next
    case (Inr q)
    obtain mc r where "q = (mc, r)" by (cases q)
    with Inr t have eq: "try_models h cfg ?call (candidates cfg alias) no_models w = (Inr (mc, r), w')"
      by simp
    from try_models_success [OF eq] show ?thesis
      by (simp add: client_chat_def eq) blast
  qed
qed

text \<open>Whether an error may fall back: always without settings; otherwise an allow pattern that
  matches the status decides yes even against a deny pattern, then a deny pattern decides no, then
  the default. The status of a rate limit is 429, of an error without one 500.\<close>

theorem check_fallback_allowed_spec:
  "check_fallback_allowed h (Llm le) mc \<longleftrightarrow>
     (case mc_fallback_settings mc of
        None \<Rightarrow> True
      | Some st \<Rightarrow>
          let code = (if is_rate_limit le then ''429''
                      else case status_code le of Some c \<Rightarrow> show_nat (unat c) | None \<Rightarrow> ''500'') in
          (\<exists>p \<in> set (fb_allow st). glob_match h p code)
          \<or> (\<not> (\<exists>p \<in> set (fb_deny st). glob_match h p code)
             \<and> fb_default st = ''allow''))"
proof -
  have "show_nat 429 = ''429''"
    by (simp add: show_nat.simps digit_char_def) code_simp
  then have "error_status h (Llm le) = (if is_rate_limit le then ''429''
      else case status_code le of Some c \<Rightarrow> show_nat (unat c) | None \<Rightarrow> ''500'')"
    by (auto simp: error_status_def is_rate_limit_iff_status)
  then show ?thesis
    by (auto simp: check_fallback_allowed_def list_ex_iff Let_def split: option.split)
qed

end
