(* ===== verification/Session_Manager.thy ===== *)
theory Session_Manager
  imports Session_Tokens Session_Jsonl Smart_Client
begin

text \<open>
  The manager of the current session (\<^verbatim>\<open>src/src/agent/session_manager.rs\<close>) and its compaction
  strategies (\<^verbatim>\<open>src/src/agent/compaction.rs\<close>): when to compact and when to flush the memory first,
  compaction with its fallbacks, and the export of a session to a memory file.

  The manager holds the session behind a lock; every operation here takes the session and returns it.
  A strategy is a function of the model alias the client is built for. The script service and the
  directory the memory files live in are outside: their operations are arguments over the world \<open>'w\<close>.
\<close>

subsection \<open>Strategies\<close>

type_synonym 'w strategy =
  "string \<Rightarrow> session \<Rightarrow> 'w \<Rightarrow> (anyhow_error, unit) res \<times> session \<times> 'w"

definition native_compact :: "tokenizer \<Rightarrow> u64 \<Rightarrow> 'w host \<Rightarrow> app_config \<Rightarrow> 'w strategy" where
  "native_compact bpe now h cfg primary s w = compact_native bpe now (client_summarize h cfg primary) s w"

definition strategy_should_compact :: "tokenizer \<Rightarrow> session \<Rightarrow> usize \<Rightarrow> bool" where
  "strategy_should_compact bpe s limit =
     (case bpe of
        None \<Rightarrow> limit < token_count s
      | Some enc \<Rightarrow>
          limit < (case system_context s of Some c \<Rightarrow> of_nat (enc c) | None \<Rightarrow> 0)
            + sum_list (map (\<lambda>sm. of_nat (enc (content (sm_message sm)))) (messages s)))"

record 'w script_service =
  load_script :: "string \<Rightarrow> 'w \<Rightarrow> (anyhow_error, unit) res \<times> 'w"
  script_tool :: "string \<Rightarrow> string \<Rightarrow> 'w \<Rightarrow> (anyhow_error, string) res \<times> 'w"

text \<open>\<open>args\<close> is the text of the JSON object with the messages and the system context, and \<open>display\<close>
  the text of an error.\<close>

definition script_compact ::
  "'w script_service \<Rightarrow> string \<Rightarrow> serde \<Rightarrow> tokenizer \<Rightarrow> (session \<Rightarrow> string) \<Rightarrow> (anyhow_error \<Rightarrow> string)
   \<Rightarrow> 'w strategy" where
  "script_compact svc script_path sd bpe args display primary s w =
     (case load_script svc script_path w of
        (Inl e, w1) \<Rightarrow> (Inl e, s, w1)
      | (Inr _, w1) \<Rightarrow>
          (case script_tool svc ''compact'' (args s) w1 of
             (Inl e, w2) \<Rightarrow> (Inl e, s, w2)
           | (Inr result_json, w2) \<Rightarrow>
               (case replace_messages_from_json sd bpe result_json s of
                  Inl e \<Rightarrow> (Inl (Msg (''Script compaction failed parsing: '' @ display e)), s, w2)
                | Inr s' \<Rightarrow> (Inr (), s', w2))))"

subsection \<open>The manager\<close>

definition MEMORY_FLUSH_SOFT_THRESHOLD :: usize where
  "MEMORY_FLUSH_SOFT_THRESHOLD = 4000"

definition new_session :: "tokenizer \<Rightarrow> session \<Rightarrow> string \<Rightarrow> session" where
  "new_session bpe fresh system_prompt = set_system_context bpe system_prompt fresh"

definition should_compact :: "tokenizer \<Rightarrow> usize \<Rightarrow> usize \<Rightarrow> session \<Rightarrow> bool" where
  "should_compact bpe context_window reserve_tokens s =
     (let limit = context_window - reserve_tokens in strategy_should_compact bpe s limit)"

definition manager_should_memory_flush :: "usize \<Rightarrow> usize \<Rightarrow> session \<Rightarrow> bool" where
  "manager_should_memory_flush context_window reserve_tokens s =
     (let hard_limit = context_window - reserve_tokens;
          soft_limit = saturating_sub hard_limit MEMORY_FLUSH_SOFT_THRESHOLD
      in soft_limit < token_count s \<and> should_memory_flush s)"

fun compact_fallbacks ::
  "'w strategy \<Rightarrow> string list \<Rightarrow> session \<Rightarrow> 'w \<Rightarrow> bool \<times> session \<times> 'w" where
  "compact_fallbacks compact [] s w = (False, s, w)"
| "compact_fallbacks compact (m # ms) s w =
     (case compact m s w of
        (Inr _, s', w') \<Rightarrow> (True, s', w')
      | (Inl _, s', w') \<Rightarrow> compact_fallbacks compact ms s' w')"

definition compact_session ::
  "app_config \<Rightarrow> 'w strategy \<Rightarrow> string \<Rightarrow> session \<Rightarrow> 'w
   \<Rightarrow> (anyhow_error, usize \<times> usize) res \<times> session \<times> 'w" where
  "compact_session cfg compact primary s w =
     (let before = token_count s in
      case compact primary s w of
        (Inr _, s1, w1) \<Rightarrow> (Inr (before, token_count s1), s1, w1)
      | (Inl e, s1, w1) \<Rightarrow>
          let strat = strategy (compaction cfg);
              (fallback_success, s2, w2) =
                (if strat \<noteq> ''truncate''
                 then compact_fallbacks compact (cc_fallback_models (compaction cfg)) s1 w1
                 else (False, s1, w1))
          in if fallback_success then (Inr (before, token_count s2), s2, w2)
             else if strat = ''truncate'' \<or> strat = ''models_then_truncate''
             then let s3 = truncate_history (keep_last (compaction cfg)) s2
                  in (Inr (before, token_count s3), s3, w2)
             else (Inl e, s2, w2))"

subsection \<open>Export to a memory file\<close>

record memory_limits =
  session_max_messages :: nat
  session_max_chars :: nat

text \<open>\<open>alnum\<close> is \<open>char::is_alphanumeric\<close> on the bytes of one code point.\<close>

definition generate_slug :: "(string \<Rightarrow> bool) \<Rightarrow> string \<Rightarrow> string" where
  "generate_slug alnum t =
     take_chars 30 (join ''-'' (filter (\<lambda>w. w \<noteq> [])
       (map (\<lambda>w. to_lowercase (concat (filter alnum (chars w)))) (take 4 (split_whitespace t)))))"

definition recent_messages :: "memory_limits \<Rightarrow> message list \<Rightarrow> message list" where
  "recent_messages lim ms =
     (if 0 < session_max_messages lim \<and> session_max_messages lim < length ms
      then drop (length ms - session_max_messages lim) ms else ms)"

fun memory_entry :: "memory_limits \<Rightarrow> message \<Rightarrow> string" where
  "memory_entry lim m =
     (let entry = (\<lambda>who.
            let (txt, truncated) =
              (if 0 < session_max_chars lim \<and> session_max_chars lim < char_count (content m)
               then (take_chars (session_max_chars lim) (content m), ''...'')
               else (content m, []))
            in who @ '': '' @ txt @ truncated @ nl2)
      in case role m of User \<Rightarrow> entry ''**User**'' | Assistant \<Rightarrow> entry ''**Assistant**'' | _ \<Rightarrow> [])"

definition memory_file_text :: "memory_limits \<Rightarrow> string \<Rightarrow> string \<Rightarrow> string \<Rightarrow> message list \<Rightarrow> string" where
  "memory_file_text lim date_str time_str sid ms =
     ''# Session: '' @ date_str @ '' '' @ time_str @ nl2 @ ''- **Session ID**: '' @ sid @ nl2
     @ ''## Conversation'' @ nl2 @ concat (map (memory_entry lim) ms)"

text \<open>\<open>mkdir\<close> and \<open>write_file\<close> are \<open>tokio::fs::create_dir_all\<close> and \<open>tokio::fs::write\<close>.\<close>

definition save_session_to_memory ::
  "(string \<Rightarrow> bool) \<Rightarrow> memory_limits \<Rightarrow> string \<Rightarrow> string \<Rightarrow> string
   \<Rightarrow> (string \<Rightarrow> 'w \<Rightarrow> (anyhow_error, unit) res \<times> 'w)
   \<Rightarrow> (string \<Rightarrow> string \<Rightarrow> 'w \<Rightarrow> (anyhow_error, unit) res \<times> 'w)
   \<Rightarrow> session \<Rightarrow> 'w \<Rightarrow> (anyhow_error, string option) res \<times> 'w" where
  "save_session_to_memory alnum lim workspace date_str time_str mkdir write_file s w =
     (if user_assistant_messages s = [] then (Inr None, w)
      else let ms = recent_messages lim (user_assistant_messages s);
               slug = (case find (\<lambda>m. role m = User) ms of
                         Some m \<Rightarrow> generate_slug alnum (content m) | None \<Rightarrow> ''session'');
               txt = memory_file_text lim date_str time_str (s_id s) ms;
               memory_dir = workspace @ ''/memory'';
               path = memory_dir @ ''/'' @ date_str @ ''-'' @ slug @ ''.md''
           in case mkdir memory_dir w of
                (Inl e, w1) \<Rightarrow> (Inl e, w1)
              | (Inr _, w1) \<Rightarrow>
                  (case write_file path txt w1 of
                     (Inl e, w2) \<Rightarrow> (Inl e, w2)
                   | (Inr _, w2) \<Rightarrow> (Inr (Some path), w2)))"

subsection \<open>The contract of a strategy\<close>

text \<open>The models of a list tried in order, each on the session as it was and in the world the one before it
  left, when all of them fail.\<close>

inductive all_fail :: "'w strategy \<Rightarrow> session \<Rightarrow> string list \<Rightarrow> 'w \<Rightarrow> 'w \<Rightarrow> bool" for compact s where
  Nil: "all_fail compact s [] w w"
| Cons: "compact m s w = (Inl e, s, w1) \<Longrightarrow> all_fail compact s ms w1 w2 \<Longrightarrow> all_fail compact s (m # ms) w w2"

inductive_simps all_fail_simps [simp]: "all_fail compact s [] w w'" "all_fail compact s (m # ms) w w'"

text \<open>The models that may be tried, and the outcome that is due: the first one that works, all before it
  having failed; or the truncated history; or the error of the primary one.\<close>

definition tried_models :: "app_config \<Rightarrow> string \<Rightarrow> string list" where
  "tried_models cfg primary =
     primary # (if strategy (compaction cfg) = ''truncate'' then [] else cc_fallback_models (compaction cfg))"

definition first_working :: "'w strategy \<Rightarrow> session \<Rightarrow> string list \<Rightarrow> 'w \<Rightarrow> session \<Rightarrow> 'w \<Rightarrow> bool" where
  "first_working compact s ms w s' w' \<longleftrightarrow>
     (\<exists>failed m others w1. ms = failed @ m # others \<and> all_fail compact s failed w w1
       \<and> compact m s w1 = (Inr (), s', w'))"

lemma first_working_now: "compact m s w = (Inr (), s', w') \<Longrightarrow> first_working compact s (m # ms) w s' w'"
  unfolding first_working_def using all_fail.Nil by (metis append_Nil)

lemma first_working_later:
  assumes "compact m s w = (Inl e, s, w1)" and "first_working compact s ms w1 s' w'"
  shows "first_working compact s (m # ms) w s' w'"
proof -
  from assms(2) obtain failed m' others w2 where "ms = failed @ m' # others" "all_fail compact s failed w1 w2"
    "compact m' s w2 = (Inr (), s', w')" unfolding first_working_def by blast
  then have "m # ms = (m # failed) @ m' # others" "all_fail compact s (m # failed) w w2"
    using assms(1) by auto
  with \<open>compact m' s w2 = (Inr (), s', w')\<close> show ?thesis unfolding first_working_def by blast
qed

text \<open>
  What the manager relies on: a strategy that fails leaves the session as it was, one that succeeds
  keeps the identity of the session.
\<close>

locale compaction_strategy =
  fixes compact :: "'w strategy"
  assumes failure_keeps: "compact a s w = (Inl e, s', w') \<Longrightarrow> s' = s"
    and success_identity: "compact a s w = (Inr u, s', w') \<Longrightarrow> s_id s' = s_id s"
begin

lemma fallbacks_failed:
  "compact_fallbacks compact ms s w = (False, s', w') \<Longrightarrow> s' = s \<and> all_fail compact s ms w w'"
proof (induction ms arbitrary: w)
  case (Cons m ms)
  then show ?case
    by (auto split: prod.splits sum.splits dest!: failure_keeps)
qed simp

lemma fallbacks_succeeded:
  "compact_fallbacks compact ms s w = (True, s', w') \<Longrightarrow> first_working compact s ms w s' w'"
proof (induction ms arbitrary: w)
  case (Cons m ms)
  obtain r s1 w1 where c: "compact m s w = (r, s1, w1)" by (metis prod_cases3)
  show ?case
  proof (cases r)
    case (Inl e)
    with c failure_keeps have "compact m s w = (Inl e, s, w1)" by blast
    with Cons show ?thesis by (auto intro: first_working_later)
  next
    case (Inr u)
    with c Cons.prems show ?thesis by (auto intro: first_working_now)
  qed
qed simp

lemma working_identity: "first_working compact s ms w s' w' \<Longrightarrow> s_id s' = s_id s"
  by (auto simp: first_working_def dest: success_identity)

lemma manager_outcome:
  "case compact_session cfg compact primary s w of
     (Inl e, s', w') \<Rightarrow>
        s' = s \<and> (\<exists>w1. compact primary s w = (Inl e, s, w1))
        \<and> all_fail compact s (tried_models cfg primary) w w'
        \<and> strategy (compaction cfg) \<notin> {''truncate'', ''models_then_truncate''}
   | (Inr (before, after), s', w') \<Rightarrow>
        before = token_count s \<and> after = token_count s' \<and> s_id s' = s_id s
        \<and> (first_working compact s (tried_models cfg primary) w s' w'
           \<or> all_fail compact s (tried_models cfg primary) w w'
             \<and> s' = truncate_history (keep_last (compaction cfg)) s
             \<and> strategy (compaction cfg) \<in> {''truncate'', ''models_then_truncate''})"
proof -
  obtain r s1 w1 where c: "compact primary s w = (r, s1, w1)" by (metis prod_cases3)
  show ?thesis
  proof (cases r)
    case (Inr u)
    with c success_identity show ?thesis
      by (auto simp: compact_session_def tried_models_def intro: first_working_now)
  next
    case (Inl e)
    with c failure_keeps have s1: "s1 = s" by blast
    let ?ms = "if strategy (compaction cfg) = ''truncate'' then [] else cc_fallback_models (compaction cfg)"
    obtain ok s2 w2 where f: "compact_fallbacks compact ?ms s w1 = (ok, s2, w2)" by (metis prod_cases3)
    then have f': "(if strategy (compaction cfg) \<noteq> ''truncate''
        then compact_fallbacks compact (cc_fallback_models (compaction cfg)) s w1
        else (False, s, w1)) = (ok, s2, w2)" by (auto split: if_splits)
    show ?thesis
    proof (cases ok)
      case True
      with f have w: "first_working compact s ?ms w1 s2 w2" by (simp add: fallbacks_succeeded)
      have "compact_session cfg compact primary s w = (Inr (token_count s, token_count s2), s2, w2)"
        using c Inl s1 f' True by (simp add: compact_session_def Let_def)
      moreover have "first_working compact s (tried_models cfg primary) w s2 w2"
        using first_working_later [OF _ w] c Inl s1 unfolding tried_models_def by blast
      ultimately show ?thesis using working_identity by simp
    next
      case False
      with f have "compact_fallbacks compact ?ms s w1 = (False, s2, w2)" by simp
      from fallbacks_failed [OF this] have s2: "s2 = s" and "all_fail compact s ?ms w1 w2" by simp_all
      with c Inl s1 have "all_fail compact s (tried_models cfg primary) w w2"
        unfolding tried_models_def all_fail_simps by blast
      with c Inl s1 s2 f' False show ?thesis
        by (auto simp: compact_session_def Let_def truncate_history_def)
    qed
  qed
qed

end

interpretation native: compaction_strategy "native_compact bpe now h cfg" for bpe now h cfg
proof unfold_locales
  show "native_compact bpe now h cfg a s w = (Inl e, s', w') \<Longrightarrow> s' = s" for a s w e s' w'
    by (auto simp: native_compact_def dest: compact_native_error)
  show "native_compact bpe now h cfg a s w = (Inr u, s', w') \<Longrightarrow> s_id s' = s_id s" for a s w u s' w'
    by (auto simp: native_compact_def compact_native_def Let_def recalculate_tokens_def
        split: if_splits prod.splits sum.splits)
qed

interpretation script: compaction_strategy "script_compact svc p sd bpe args display"
  for svc p sd bpe args display
proof unfold_locales
  show "script_compact svc p sd bpe args display a s w = (Inl e, s', w') \<Longrightarrow> s' = s" for a s w e s' w'
    by (auto simp: script_compact_def split: prod.splits sum.splits)
  show "script_compact svc p sd bpe args display a s w = (Inr u, s', w') \<Longrightarrow> s_id s' = s_id s"
    for a s w u s' w'
    by (auto simp: script_compact_def replace_messages_from_json_def Let_def recalculate_tokens_def
        split: prod.splits sum.splits option.splits)
qed

subsection \<open>Slugs\<close>

lemma set_join: "set (join sep xs) \<subseteq> set sep \<union> \<Union> (set ` set xs)"
  by (induction sep xs rule: join.induct) auto

lemma slash_lowercase: "CHR ''/'' \<in> set (to_lowercase s) \<Longrightarrow> CHR ''/'' \<in> set s"
proof -
  have "to_lowercase_char c = CHR ''/'' \<Longrightarrow> c = CHR ''/''" for c
  proof (cases "65 \<le> byte c \<and> byte c \<le> 90")
    case True
    then have "byte (to_lowercase_char c) \<noteq> (47::nat)" by (simp add: to_lowercase_char_def)
    then show "to_lowercase_char c = CHR ''/'' \<Longrightarrow> c = CHR ''/''" by auto
  qed (auto simp: to_lowercase_char_def)
  then show "CHR ''/'' \<in> set (to_lowercase s) \<Longrightarrow> CHR ''/'' \<in> set s"
    unfolding to_lowercase_def by (metis imageE list.set_map)
qed

lemma set_take_chars: "set (take_chars n s) \<subseteq> set s"
  using take_chars_prefix [of n s] by (rule set_mono_prefix)

lemma generate_slug_no_slash:
  assumes "\<forall>cp. alnum cp \<longrightarrow> CHR ''/'' \<notin> set cp"
  shows "CHR ''/'' \<notin> set (generate_slug alnum t)"
proof
  let ?ws = "filter (\<lambda>w. w \<noteq> [])
    (map (\<lambda>w. to_lowercase (concat (filter alnum (chars w)))) (take 4 (split_whitespace t)))"
  assume "CHR ''/'' \<in> set (generate_slug alnum t)"
  with set_take_chars have "CHR ''/'' \<in> set (join ''-'' ?ws)"
    unfolding generate_slug_def by blast
  with set_join [of "''-''" ?ws] obtain w where "CHR ''/'' \<in> set w" and "w \<in> set ?ws" by auto
  then obtain v where "CHR ''/'' \<in> set (to_lowercase (concat (filter alnum (chars v))))"
    by auto
  from slash_lowercase [OF this] have "CHR ''/'' \<in> set (concat (filter alnum (chars v)))" .
  with assms show False by auto
qed

subsection \<open>Properties\<close>

text \<open>C39: Compaction of the session with the built-in strategy, on every path. The primary model is tried
  on the session first, and after it, unless the configuration says only to truncate, the fallback models in
  their order, each on the session as it was. The first one that works decides, all before it having
  failed: the session is what it made of it. Only when all of them have failed the history is truncated, if
  the configuration allows truncation, and otherwise the error of the primary model is reported and the
  session is untouched. A success reports the counts before and after, and the session keeps its identity.\<close>

theorem compact_session_spec:
  "case compact_session cfg (native_compact bpe now h cfg) primary s w of
     (Inl e, s', w') \<Rightarrow>
        s' = s \<and> (\<exists>w1. compact_native bpe now (client_summarize h cfg primary) s w = (Inl e, s, w1))
        \<and> all_fail (native_compact bpe now h cfg) s (tried_models cfg primary) w w'
        \<and> strategy (compaction cfg) \<notin> {''truncate'', ''models_then_truncate''}
   | (Inr (before, after), s', w') \<Rightarrow>
        before = token_count s \<and> after = token_count s' \<and> s_id s' = s_id s
        \<and> (first_working (native_compact bpe now h cfg) s (tried_models cfg primary) w s' w'
           \<or> all_fail (native_compact bpe now h cfg) s (tried_models cfg primary) w w'
             \<and> s' = truncate_history (keep_last (compaction cfg)) s
             \<and> strategy (compaction cfg) \<in> {''truncate'', ''models_then_truncate''})"
  using native.manager_outcome [where primary = primary and s = s and w = w and cfg = cfg and cfga = cfg
      and bpe = bpe and now = now and h = h]
  unfolding native_compact_def [of bpe now h cfg primary s w] .

text \<open>When every model fails and the history is truncated instead, the count of tokens is not
  brought up to date: the reported count after compaction is the one before it, and without a
  tokenizer the session is due for compaction exactly when it was.\<close>

theorem truncation_keeps_stale_count:
  assumes "\<forall>m w. \<exists>e w'. compact m s w = (Inl e, s, w')"
    and "strategy (compaction cfg) \<in> {''truncate'', ''models_then_truncate''}"
  shows "case compact_session cfg compact primary s w of (r, s', w') \<Rightarrow>
     r = Inr (token_count s, token_count s) \<and> s' = truncate_history (keep_last (compaction cfg)) s
     \<and> should_compact None window reserve s' = should_compact None window reserve s"
proof -
  have fb: "\<exists>w'. compact_fallbacks compact ms s w = (False, s, w')" for ms w
  proof (induction ms arbitrary: w)
    case (Cons m ms)
    from assms(1) obtain e w1 where "compact m s w = (Inl e, s, w1)" by blast
    with Cons show ?case by simp
  qed simp
  from assms(1) obtain e w1 where "compact primary s w = (Inl e, s, w1)" by blast
  moreover obtain w2 where "compact_fallbacks compact (cc_fallback_models (compaction cfg)) s w1 = (False, s, w2)"
    using fb by blast
  ultimately show ?thesis
    using assms(2)
    by (auto simp: compact_session_def Let_def truncate_history_def should_compact_def
        strategy_should_compact_def)
qed

definition truncating_config :: app_config where
  "truncating_config =
     \<lparr>models = [], providers = undefined, max_tokens = 0, workspace_path = [],
      compaction = \<lparr>strategy = ''truncate'', cc_fallback_models = [], keep_last = 1\<rparr>,
      tools_cfg = undefined, vision_fallback_model = [], vision_fallback_prompt = []\<rparr>"

definition failing_strategy :: "nat strategy" where
  "failing_strategy primary s w = (Inl (Msg ''offline''), s, Suc w)"

theorem truncation_keeps_stale_count_witness:
  "let s = session_new ''id'' 0 None in
   (\<forall>m w. \<exists>e w'. failing_strategy m s w = (Inl e, s, w')) \<and>
   strategy (compaction truncating_config) \<in> {''truncate'', ''models_then_truncate''} \<and>
   (case compact_session truncating_config failing_strategy ''m'' s 0 of (r, s', w') \<Rightarrow>
     r = Inr (token_count s, token_count s) \<and> s' = truncate_history (keep_last (compaction truncating_config)) s
     \<and> should_compact None 100 10 s' = should_compact None 100 10 s)"
proof -
  have f: "\<forall>m w. \<exists>e w'. failing_strategy m s w = (Inl e, s, w')" for s
    by (simp add: failing_strategy_def)
  have c: "strategy (compaction truncating_config) \<in> {''truncate'', ''models_then_truncate''}"
    by (simp add: truncating_config_def)
  show ?thesis
    unfolding Let_def
    by (intro conjI f c truncation_keeps_stale_count [where compact = failing_strategy, OF f c])
qed

text \<open>The two limits. Without a tokenizer a session is due for compaction when its tokens and the
  reserve exceed the window; a reserve larger than the window wraps the limit around to a value near
  \<open>2 ^ 64\<close>, so that the session is not compacted. A session that is due for compaction and was not
  flushed in this cycle is due for a memory flush.\<close>

theorem compaction_limit:
  "(should_compact None window reserve s \<longleftrightarrow>
      (if unat reserve \<le> unat window then unat window < unat (token_count s) + unat reserve
       else 2 ^ 64 + unat window < unat (token_count s) + unat reserve))
   \<and> (should_compact None window reserve s \<and> should_memory_flush s) =
     (should_compact None window reserve s \<and> manager_should_memory_flush window reserve s)"
proof
  have t: "unat (token_count s) < 2 ^ 64" and "unat reserve < 2 ^ 64" and "unat window < 2 ^ 64"
    using unsigned_less [of "token_count s"] unsigned_less [of reserve] unsigned_less [of window] by simp_all
  then show "should_compact None window reserve s \<longleftrightarrow>
      (if unat reserve \<le> unat window then unat window < unat (token_count s) + unat reserve
       else 2 ^ 64 + unat window < unat (token_count s) + unat reserve)"
    by (auto simp: should_compact_def strategy_should_compact_def word_less_nat_alt unat_sub_if_size word_size)
  have "saturating_sub a b \<le> a" for a b
    by (auto simp: saturating_sub_def word_le_nat_alt unat_sub)
  then show "(should_compact None window reserve s \<and> should_memory_flush s) =
     (should_compact None window reserve s \<and> manager_should_memory_flush window reserve s)"
    unfolding should_compact_def strategy_should_compact_def manager_should_memory_flush_def Let_def
    by (auto intro: le_less_trans)
qed

text \<open>The export of a session to the memory directory stays in that directory: whatever the first
  user message says, the file it writes is a direct child of it. A session without conversation
  writes nothing.\<close>

theorem save_session_to_memory_path:
  assumes "\<forall>cp. alnum cp \<longrightarrow> CHR ''/'' \<notin> set cp" and "CHR ''/'' \<notin> set date_str"
  shows "case save_session_to_memory alnum lim workspace date_str time_str mkdir write_file s w of
     (Inr (Some path), w') \<Rightarrow>
        \<exists>name txt w1. path = workspace @ ''/memory/'' @ name \<and> CHR ''/'' \<notin> set name
          \<and> mkdir (workspace @ ''/memory'') w = (Inr (), w1) \<and> write_file path txt w1 = (Inr (), w')
   | (Inr None, w') \<Rightarrow> user_assistant_messages s = [] \<and> w' = w
   | (Inl e, w') \<Rightarrow> user_assistant_messages s \<noteq> []"
proof (cases "user_assistant_messages s = []")
  case False
  let ?ms = "recent_messages lim (user_assistant_messages s)"
  let ?slug = "case find (\<lambda>m. role m = User) ?ms of
      Some m \<Rightarrow> generate_slug alnum (content m) | None \<Rightarrow> ''session''"
  let ?name = "date_str @ ''-'' @ ?slug @ ''.md''"
  have name: "CHR ''/'' \<notin> set ?name"
    using assms(2) generate_slug_no_slash [OF assms(1)] by (auto split: option.split)
  show ?thesis
    using False name
    by (simp add: save_session_to_memory_def Let_def split: prod.split sum.split)
      (metis append.assoc append_Cons append_Nil)
qed (simp add: save_session_to_memory_def)

text \<open>The witness: an ASCII notion of letters, and a world that is the list of files written.\<close>

definition ascii_alnum :: "string \<Rightarrow> bool" where
  "ascii_alnum cp = (case cp of [c] \<Rightarrow> 48 \<le> byte c \<and> byte c \<le> 57
     \<or> 65 \<le> byte c \<and> byte c \<le> 90 \<or> 97 \<le> byte c \<and> byte c \<le> 122 | _ \<Rightarrow> False)"

theorem save_session_to_memory_path_witness:
  "(\<nexists>cp. ascii_alnum cp \<and> CHR ''/'' \<in> set cp) \<and> CHR ''/'' \<notin> set ''2025-01-01'' \<and>
   (case save_session_to_memory ascii_alnum \<lparr>session_max_messages = 2, session_max_chars = 0\<rparr> ''/ws''
      ''2025-01-01'' ''10:00:00'' (\<lambda>d w. (Inr (), w)) (\<lambda>p t w. (Inr (), (p, t) # w))
      (add_message None 0 (text_message User ''a/../b'') (session_new ''id'' 0 None)) [] of
     (Inr (Some path), w') \<Rightarrow>
        \<exists>name txt w1. path = ''/ws'' @ ''/memory/'' @ name \<and> CHR ''/'' \<notin> set name
          \<and> (Inr (), []) = (Inr () :: unit + unit, w1) \<and> (Inr (), (path, txt) # w1) = (Inr () :: unit + unit, w')
   | (Inr None, w') \<Rightarrow> False
   | (Inl e, w') \<Rightarrow> True)"
proof -
  have a: "\<forall>cp. ascii_alnum cp \<longrightarrow> CHR ''/'' \<notin> set cp"
    by (auto simp: ascii_alnum_def split: list.splits)
  have d: "CHR ''/'' \<notin> set ''2025-01-01''" by simp
  have ua: "user_assistant_messages
      (add_message None 0 (text_message User ''a/../b'') (session_new ''id'' 0 None)) \<noteq> []"
    by (simp add: user_assistant_messages_def add_message_def sm_new_def message_defs)
  show ?thesis
    using a d ua save_session_to_memory_path [OF a d, where lim = "\<lparr>session_max_messages = 2, session_max_chars = 0\<rparr>"
      and workspace = "''/ws''" and time_str = "''10:00:00''" and mkdir = "\<lambda>d w. (Inr (), w)"
      and write_file = "\<lambda>p t w. (Inr (), (p, t) # w)" and w = "[]"
      and s = "add_message None 0 (text_message User ''a/../b'') (session_new ''id'' 0 None)"]
    by (auto split: prod.splits sum.splits option.splits)
qed

end
