(* ===== verification/Sanitizer.thy ===== *)
theory Sanitizer
  imports Rust_Prelude
begin

text \<open>
  Content sanitization (\<^verbatim>\<open>src/src/agent/sanitize.rs\<close>): the markers stripped from tool output, the
  suspicious patterns reported, truncation and the delimiters.

  The \<open>regex\<close> crate is the record \<open>regex_engine\<close>: \<open>re_replace_ci p r t\<close> is
  \<open>Regex::new("(?i)" + escape(p)).replace_all(t, r)\<close> and \<open>re_is_match\<close> is \<open>is_match\<close> of a pattern.
  What the theorems assume of the former is \<open>replaces_ci\<close>: on the literal markers it replaces the
  leftmost non-overlapping case-insensitive occurrences, as the crate documents.
\<close>

record regex_engine =
  re_replace_ci :: "string \<Rightarrow> string \<Rightarrow> string \<Rightarrow> string"
  re_is_match :: "string \<Rightarrow> string \<Rightarrow> bool"

subsection \<open>The operations\<close>

definition TOOL_OUTPUT_START :: string where "TOOL_OUTPUT_START = ''<tool_output>''"
definition TOOL_OUTPUT_END :: string where "TOOL_OUTPUT_END = ''</tool_output>''"
definition MEMORY_CONTENT_START :: string where "MEMORY_CONTENT_START = ''<memory_context>''"
definition MEMORY_CONTENT_END :: string where "MEMORY_CONTENT_END = ''</memory_context>''"
definition EXTERNAL_CONTENT_START :: string where "EXTERNAL_CONTENT_START = ''<external_content>''"
definition EXTERNAL_CONTENT_END :: string where "EXTERNAL_CONTENT_END = ''</external_content>''"

definition FILTERED :: string where
  "FILTERED = ''[FILTERED]''"

definition STRIP_PATTERNS :: "(string \<times> string) list" where
  "STRIP_PATTERNS = map (\<lambda>p. (p, FILTERED))
     [''<system>'', ''</system>'', ''<|system|>'', ''<|im_start|>system'', ''<|im_end|>'',
      ''<<SYS>>'', ''<</SYS>>'', ''[INST]'', ''[/INST]'', ''<s>'', ''</s>'']"

text \<open>The suspicious patterns by the text of their regular expression, with \<open>bs\<close> for the backslash.\<close>

abbreviation bs :: string where "bs \<equiv> [CHR 0x5C]"
abbreviation sp1 :: string where "sp1 \<equiv> bs @ ''s+''"
abbreviation sp0 :: string where "sp0 \<equiv> bs @ ''s*''"

definition SUSPICIOUS_PATTERNS :: "(string \<times> string) list" where
  "SUSPICIOUS_PATTERNS =
     [(''(?i)ignore'' @ sp1 @ ''(all'' @ sp1 @ '')?(previous|prior|above)'' @ sp1 @ ''(instructions?|prompts?)'',
       ''ignore previous instructions''),
      (''(?i)disregard'' @ sp1 @ ''(all'' @ sp1 @ '')?(previous|prior|above)'', ''disregard previous''),
      (''(?i)forget'' @ sp1 @ ''(everything|all|your)'' @ sp1 @ ''(instructions?|rules?)'', ''forget instructions''),
      (''(?i)you'' @ sp1 @ ''are'' @ sp1 @ ''now'' @ sp1 @ ''(a|an)'' @ sp1, ''role reassignment''),
      (''(?i)new'' @ sp1 @ ''instructions?:'', ''new instructions''),
      (''(?i)system'' @ sp0 @ '':?'' @ sp0 @ ''(prompt|override|command)'', ''system override''),
      (''(?i)act'' @ sp1 @ ''as'' @ sp1 @ ''(if'' @ sp1 @ '')?(you|a|an)'' @ sp1, ''act as''),
      (''(?i)pretend'' @ sp1 @ ''(to'' @ sp1 @ ''be|you'' @ sp1 @ ''are)'', ''pretend to be''),
      (''(?i)from'' @ sp1 @ ''now'' @ sp1 @ ''on'' @ sp1 @ ''(you|ignore|forget)'', ''from now on''),
      (''(?i)bypass'' @ sp1 @ ''(your'' @ sp1 @ '')?(safety|rules?|restrictions?)'', ''bypass safety'')]"

datatype memory_source =
    Identity | UserInfo | Soul | Agents | Tools | Memory | DailyLog | Heartbeat | Other

fun label :: "memory_source \<Rightarrow> string" where
  "label Identity = ''Identity''"
| "label UserInfo = ''User Info''"
| "label Soul = ''Soul/Persona''"
| "label Agents = ''Available Agents''"
| "label Tools = ''Tool Notes''"
| "label Memory = ''Long-term Memory''"
| "label DailyLog = ''Daily Log''"
| "label Heartbeat = ''Pending Tasks''"
| "label Other = ''Context''"

record sanitize_result =
  sz_content :: string
  sz_warnings :: "string list"
  was_truncated :: bool

definition sanitize_tool_output :: "regex_engine \<Rightarrow> string \<Rightarrow> string" where
  "sanitize_tool_output rx out = fold (\<lambda>(p, r) t. re_replace_ci rx p r t) STRIP_PATTERNS out"

definition detect_suspicious_patterns :: "regex_engine \<Rightarrow> string \<Rightarrow> string list" where
  "detect_suspicious_patterns rx text =
     map snd (filter (\<lambda>(re, d). re_is_match rx re text) SUSPICIOUS_PATTERNS)"

definition truncation_notice :: "nat \<Rightarrow> string" where
  "truncation_notice n = nl2 @ ''[...truncated '' @ show_nat n
     @ '' characters. Use read_file with offset to see more.]''"

definition truncate_with_notice :: "string \<Rightarrow> nat \<Rightarrow> string \<times> bool" where
  "truncate_with_notice text max_chars =
     (if max_chars = 0 \<or> length text \<le> max_chars then (text, False)
      else let truncated = take_chars max_chars text;
               remaining = length text - length truncated
           in (truncated @ truncation_notice remaining, True))"

definition clean :: "regex_engine \<Rightarrow> string \<Rightarrow> nat option \<Rightarrow> string \<times> string list \<times> bool" where
  "clean rx out max_length =
     (let sanitized = sanitize_tool_output rx out;
          warnings = detect_suspicious_patterns rx sanitized;
          (text, cut) = (case max_length of Some m \<Rightarrow> truncate_with_notice sanitized m
                         | None \<Rightarrow> (sanitized, False))
      in (text, warnings, cut))"

definition wrap_tool_output :: "regex_engine \<Rightarrow> string \<Rightarrow> string \<Rightarrow> nat option \<Rightarrow> sanitize_result" where
  "wrap_tool_output rx tool_name out max_length =
     (let (text, warnings, cut) = clean rx out max_length in
      \<lparr>sz_content = TOOL_OUTPUT_START @ nl @ ''<!-- tool: '' @ tool_name @ '' -->'' @ nl @ text @ nl
          @ TOOL_OUTPUT_END,
       sz_warnings = warnings, was_truncated = cut\<rparr>)"

definition wrap_memory_content :: "string \<Rightarrow> string \<Rightarrow> memory_source \<Rightarrow> string" where
  "wrap_memory_content file_name text source =
     MEMORY_CONTENT_START @ nl @ ''<!-- '' @ label source @ '' ('' @ file_name @ '') -->'' @ nl
     @ text @ nl @ MEMORY_CONTENT_END"

definition wrap_external_content :: "regex_engine \<Rightarrow> string \<Rightarrow> string \<Rightarrow> nat option \<Rightarrow> sanitize_result" where
  "wrap_external_content rx url text max_length =
     (let (text, warnings, cut) = clean rx text max_length in
      \<lparr>sz_content = EXTERNAL_CONTENT_START @ nl @ ''<!-- source: '' @ url @ '' -->'' @ nl @ text @ nl
          @ EXTERNAL_CONTENT_END,
       sz_warnings = warnings, was_truncated = cut\<rparr>)"

subsection \<open>Case-insensitive occurrences of a literal\<close>

text \<open>
  \<open>ci_strip p t\<close> matches the literal \<open>p\<close> at the start of \<open>t\<close> and returns the rest of \<open>t\<close>. Letters
  match in either case, and under Unicode case folding the letter s matches the long s as well,
  U+017F, whose bytes are \<open>0xC5 0xBF\<close>.
\<close>

abbreviation long_s1 :: char where "long_s1 \<equiv> CHR 0xC5"
abbreviation long_s2 :: char where "long_s2 \<equiv> CHR 0xBF"

fun ci_strip :: "string \<Rightarrow> string \<Rightarrow> string option" where
  "ci_strip [] t = Some t"
| "ci_strip (p # ps) [] = None"
| "ci_strip (p # ps) (c # cs) =
     (if to_lowercase_char p = to_lowercase_char c then ci_strip ps cs
      else if to_lowercase_char p = CHR ''s'' \<and> c = long_s1
      then (case cs of d # ds \<Rightarrow> if d = long_s2 then ci_strip ps ds else None | [] \<Rightarrow> None)
      else None)"

lemma ci_strip_shorter: "ci_strip p t = Some r \<Longrightarrow> length r + (if p = [] then 0 else 1) \<le> length t"
proof (induction p t arbitrary: r rule: ci_strip.induct)
  case (3 p ps c cs)
  then show ?case by (fastforce split: if_splits list.splits)
qed simp_all

function ci_replace :: "string \<Rightarrow> string \<Rightarrow> string \<Rightarrow> string" where
  "ci_replace p r [] = []"
| "ci_replace p r (c # cs) =
     (if p = [] then c # cs
      else case ci_strip p (c # cs) of
             Some rest \<Rightarrow> r @ ci_replace p r rest
           | None \<Rightarrow> c # ci_replace p r cs)"
  by pat_completeness auto
termination
  by (relation "measure (\<lambda>(p, r, t). length t)") (auto dest: ci_strip_shorter)

definition ci_occurs :: "string \<Rightarrow> string \<Rightarrow> bool" where
  "ci_occurs p t \<longleftrightarrow> (\<exists>i. ci_strip p (drop i t) \<noteq> None)"

definition replaces_ci :: "regex_engine \<Rightarrow> bool" where
  "replaces_ci rx \<longleftrightarrow>
     (\<forall>(p, r) \<in> set STRIP_PATTERNS. \<forall>t. re_replace_ci rx p r t = ci_replace p r t)"

lemma ci_occurs_Cons: "ci_occurs p (c # t) \<longleftrightarrow> ci_strip p (c # t) \<noteq> None \<or> ci_occurs p t"
proof
  assume "ci_occurs p (c # t)"
  then obtain i where "ci_strip p (drop i (c # t)) \<noteq> None" unfolding ci_occurs_def by blast
  then show "ci_strip p (c # t) \<noteq> None \<or> ci_occurs p t"
    by (cases i) (auto simp: ci_occurs_def)
next
  assume "ci_strip p (c # t) \<noteq> None \<or> ci_occurs p t"
  then show "ci_occurs p (c # t)"
  proof
    assume "ci_strip p (c # t) \<noteq> None"
    then show ?thesis unfolding ci_occurs_def by (intro exI [of _ 0]) simp
  next
    assume "ci_occurs p t"
    then obtain i where "ci_strip p (drop i t) \<noteq> None" unfolding ci_occurs_def by blast
    then show ?thesis unfolding ci_occurs_def by (intro exI [of _ "Suc i"]) simp
  qed
qed

lemma ci_occurs_Nil [simp]: "ci_occurs p [] \<longleftrightarrow> p = []"
  by (cases p) (auto simp: ci_occurs_def)

subsection \<open>No marker survives\<close>

text \<open>The markers begin with a bracket and have no square bracket opening later on.\<close>

definition markers :: "string list" where
  "markers = map fst STRIP_PATTERNS"

definition marker_shape :: "string \<Rightarrow> bool" where
  "marker_shape q \<longleftrightarrow> q \<noteq> [] \<and> CHR ''['' \<notin> set (tl q)
     \<and> (hd q = CHR ''<'' \<or> (hd q = CHR ''['' \<and> tl q \<noteq> [] \<and> to_lowercase_char (hd (tl q)) \<noteq> CHR ''f''
          \<and> to_lowercase_char (hd (tl q)) \<noteq> CHR ''s''))"

lemma marker_shapes: "q \<in> set markers \<Longrightarrow> marker_shape q"
  by (auto simp: markers_def STRIP_PATTERNS_def marker_shape_def to_lowercase_char_def char_of_eq_iff)

lemma lower_bracket [simp]: "to_lowercase_char c = CHR ''['' \<longleftrightarrow> c = CHR ''[''"
  "to_lowercase_char c = CHR ''<'' \<longleftrightarrow> c = CHR ''<''"
  by (cases "65 \<le> byte c \<and> byte c \<le> 90";
      force simp: to_lowercase_char_def of_char_eq_iff [symmetric, where ?'a = nat])+

lemma ci_strip_open_bracket:
  assumes "CHR ''['' \<notin> set q" and "q \<noteq> []"
  shows "ci_strip q (CHR ''['' # t) = None"
proof -
  obtain x xs where q: "q = x # xs" using assms(2) by (cases q) auto
  have "to_lowercase_char x \<noteq> CHR ''[''" using assms(1) q by auto
  then show ?thesis by (auto simp: q to_lowercase_char_def [of "CHR ''[''"])
qed

lemma FILTERED_Cons: "\<exists>t. FILTERED = CHR ''['' # t"
  by (simp add: FILTERED_def)

text \<open>A literal without an opening square bracket that matches after a replacement matched before
  it: the replaced text starts with that bracket.\<close>

lemma ci_replace_bracket_free:
  assumes "marker_shape p" and "CHR ''['' \<notin> set q"
    and "ci_strip q (ci_replace p FILTERED t) \<noteq> None"
  shows "ci_strip q t \<noteq> None"
  using assms(2,3)
proof (induction "length t" arbitrary: t q rule: less_induct)
  case less
  have p: "p \<noteq> []" using assms(1) by (simp add: marker_shape_def)
  obtain f where F: "FILTERED = CHR ''['' # f" using FILTERED_Cons by blast
  show ?case
  proof (cases q)
    case (Cons x xs)
    have xs: "CHR ''['' \<notin> set xs" using less.prems(1) Cons by simp
    obtain c cs where t: "t = c # cs"
      using less.prems(2) Cons by (cases t) auto
    have nomatch: "ci_strip p t = None"
    proof (rule ccontr)
      assume "ci_strip p t \<noteq> None"
      then obtain rest where "ci_strip p t = Some rest" by auto
      then have "ci_replace p FILTERED t = FILTERED @ ci_replace p FILTERED rest"
        using p t by simp
      then have "ci_replace p FILTERED t = CHR ''['' # f @ ci_replace p FILTERED rest"
        by (simp add: F)
      with less.prems ci_strip_open_bracket [of q] Cons show False by auto
    qed
    then have out: "ci_replace p FILTERED t = c # ci_replace p FILTERED cs"
      using p t by simp
    show ?thesis
    proof (cases "to_lowercase_char x = to_lowercase_char c")
      case True
      with less.prems out Cons have "ci_strip xs (ci_replace p FILTERED cs) \<noteq> None" by simp
      with less.hyps [of cs xs] xs t True Cons show ?thesis by simp
    next
      case False
      with less.prems out Cons obtain ds where s: "to_lowercase_char x = CHR ''s''" "c = long_s1"
        and ds: "ci_replace p FILTERED cs = long_s2 # ds" and m: "ci_strip xs ds \<noteq> None"
        by (auto split: if_splits list.splits)
      obtain d es where cs: "cs = d # es" using ds by (cases cs) auto
      have "ci_strip p cs = None"
      proof (rule ccontr)
        assume "ci_strip p cs \<noteq> None"
        then obtain y where "ci_strip p cs = Some y" by auto
        then have "ci_replace p FILTERED cs = FILTERED @ ci_replace p FILTERED y"
          using p cs by simp
        then have "long_s2 # ds = CHR ''['' # f @ ci_replace p FILTERED y" using ds by (simp add: F)
        then show False by simp
      qed
      then have "d = long_s2" and "ds = ci_replace p FILTERED es" using ds p cs by auto
      with less.hyps [of es xs] xs m t cs False s Cons show ?thesis by simp
    qed
  qed simp
qed

lemma filtered_lower:
  "to_lowercase_char (CHR ''['') = CHR ''[''" "to_lowercase_char (CHR '']'') = CHR '']''"
  "to_lowercase_char (CHR ''<'') = CHR ''<''" "to_lowercase_char (CHR ''F'') = CHR ''f''"
  "to_lowercase_char (CHR ''I'') = CHR ''i''" "to_lowercase_char (CHR ''L'') = CHR ''l''"
  "to_lowercase_char (CHR ''T'') = CHR ''t''" "to_lowercase_char (CHR ''E'') = CHR ''e''"
  "to_lowercase_char (CHR ''R'') = CHR ''r''" "to_lowercase_char (CHR ''D'') = CHR ''d''"
  by (simp_all add: to_lowercase_char_def char_of_eq_iff)

lemma ci_strip_FILTERED:
  assumes "marker_shape q" and "i < length FILTERED"
  shows "ci_strip q (drop i FILTERED @ t) = None"
proof -
  obtain x xs where q: "q = x # xs" using assms(1) by (cases q) (auto simp: marker_shape_def)
  have "i \<in> {0, 1, 2, 3, 4, 5, 6, 7, 8, 9}"
    using assms(2) by (auto simp: FILTERED_def)
  moreover have "x = CHR ''<'' \<or> (x = CHR ''['' \<and> xs \<noteq> [] \<and> to_lowercase_char (hd xs) \<noteq> CHR ''f''
      \<and> to_lowercase_char (hd xs) \<noteq> CHR ''s'')"
    using assms(1) q by (simp add: marker_shape_def)
  ultimately show ?thesis
    by (cases xs) (auto simp: q FILTERED_def filtered_lower)
qed

lemma ci_strip_suffix: "ci_strip p t = Some rest \<Longrightarrow> \<exists>k. rest = drop k t"
proof (induction p t arbitrary: rest rule: ci_strip.induct)
  case (1 t)
  then show ?case by (auto intro: exI [of _ 0])
next
  case (3 p ps c cs)
  then show ?case
    by (auto split: if_splits list.splits) (metis drop_Suc_Cons)+
qed simp

lemma ci_strip_first_kept:
  assumes p: "marker_shape p" and q: "marker_shape q"
    and "ci_strip q (c # ci_replace p FILTERED cs) \<noteq> None"
  shows "ci_strip q (c # cs) \<noteq> None"
proof -
  obtain x xs where x: "q = x # xs" and xs: "CHR ''['' \<notin> set xs"
    and hd: "x = CHR ''<'' \<or> x = CHR ''[''"
    using q by (cases q) (auto simp: marker_shape_def)
  from hd have "to_lowercase_char x \<noteq> CHR ''s''" by (auto simp: to_lowercase_char_def)
  with assms(3) x have l: "to_lowercase_char x = to_lowercase_char c"
    and "ci_strip xs (ci_replace p FILTERED cs) \<noteq> None"
    by (auto split: if_splits)
  with ci_replace_bracket_free [OF p xs] x show ?thesis by simp
qed

lemma ci_replace_no_occurrence:
  assumes p: "marker_shape p" and q: "marker_shape q" and "q = p \<or> \<not> ci_occurs q t"
  shows "\<not> ci_occurs q (ci_replace p FILTERED t)"
  using assms(3)
proof (induction "length t" arbitrary: t rule: less_induct)
  case less
  have pn: "p \<noteq> []" using p by (simp add: marker_shape_def)
  have occ_drop: "\<not> ci_occurs q t \<Longrightarrow> \<not> ci_occurs q (drop n t)" for n
    by (auto simp: ci_occurs_def)
  have "ci_strip q (drop i (ci_replace p FILTERED t)) = None" for i
  proof (cases t)
    case Nil
    then show ?thesis using q by (cases q) (auto simp: marker_shape_def)
  next
    case (Cons c cs)
    show ?thesis
    proof (cases "ci_strip p t")
      case (Some rest)
      have out: "ci_replace p FILTERED t = FILTERED @ ci_replace p FILTERED rest"
        using Some pn Cons by simp
      obtain k where rest: "rest = drop k t" using ci_strip_suffix [OF Some] by blast
      have "length rest < length t" using ci_strip_shorter [OF Some] pn by simp
      with less.hyps [of rest] less.prems occ_drop [of k] rest
      have "\<not> ci_occurs q (ci_replace p FILTERED rest)" by blast
      with out ci_strip_FILTERED [OF q, of i] show ?thesis
        by (cases "i < length FILTERED") (auto simp: ci_occurs_def)
    next
      case None
      have out: "ci_replace p FILTERED t = c # ci_replace p FILTERED cs"
        using None pn Cons by simp
      have "\<not> ci_occurs q (ci_replace p FILTERED cs)"
        using less.hyps [of cs] less.prems occ_drop [of 1] Cons by auto
      moreover have "ci_strip q (c # ci_replace p FILTERED cs) = None"
      proof (rule ccontr)
        assume "ci_strip q (c # ci_replace p FILTERED cs) \<noteq> None"
        from ci_strip_first_kept [OF p q this] have "ci_strip q (drop 0 t) \<noteq> None"
          using Cons by simp
        then have "ci_occurs q t" and "q \<noteq> p" using None unfolding ci_occurs_def by (blast, auto)
        with less.prems show False by simp
      qed
      ultimately show ?thesis
        using out by (cases i) (auto simp: ci_occurs_def)
    qed
  qed
  then show ?case by (simp add: ci_occurs_def)
qed

text \<open>The fold over the patterns: each marker is gone after its own replacement and no later one
  brings it back.\<close>

lemma fold_replace_no_occurrence:
  assumes "q \<in> set ps \<or> \<not> ci_occurs q t" and "\<forall>p \<in> set ps. marker_shape p" and "marker_shape q"
  shows "\<not> ci_occurs q (fold (\<lambda>p t. ci_replace p FILTERED t) ps t)"
  using assms
proof (induction ps arbitrary: t)
  case (Cons p ps)
  show ?case
  proof (cases "q = p \<or> \<not> ci_occurs q t")
    case True
    with ci_replace_no_occurrence [of p q t] Cons show ?thesis by simp
  next
    case False
    with Cons show ?thesis by simp
  qed
qed simp

lemma sanitize_fold:
  assumes "replaces_ci rx"
  shows "sanitize_tool_output rx t = fold (\<lambda>p t. ci_replace p FILTERED t) markers t"
proof -
  have "\<forall>t. re_replace_ci rx p FILTERED t = ci_replace p FILTERED t" if "p \<in> set markers" for p
    using assms that unfolding replaces_ci_def markers_def STRIP_PATTERNS_def by fastforce
  then have "fold (\<lambda>p t. re_replace_ci rx p FILTERED t) ps t = fold (\<lambda>p t. ci_replace p FILTERED t) ps t"
    if "set ps \<subseteq> set markers" for ps
    using that by (induction ps arbitrary: t) auto
  from this [OF subset_refl] show ?thesis
    by (simp add: sanitize_tool_output_def STRIP_PATTERNS_def markers_def)
qed

lemma sanitize_no_marker:
  assumes "replaces_ci rx" and "q \<in> set markers"
  shows "\<not> ci_occurs q (sanitize_tool_output rx t)"
  unfolding sanitize_fold [OF assms(1)]
  by (rule fold_replace_no_occurrence) (use assms(2) marker_shapes in auto)

lemma ci_replace_unchanged: "\<not> ci_occurs p t \<Longrightarrow> ci_replace p r t = t"
  by (induction t) (auto simp: ci_occurs_Cons)

lemma sanitize_unchanged:
  assumes "replaces_ci rx" and "list_all (\<lambda>q. \<not> ci_occurs q t) markers"
  shows "sanitize_tool_output rx t = t"
proof -
  have "fold (\<lambda>p t. ci_replace p FILTERED t) ps t = t"
    if "list_all (\<lambda>q. \<not> ci_occurs q t) ps" for ps
    using that by (induction ps) (auto simp: ci_replace_unchanged)
  from this [OF assms(2)] show ?thesis by (simp add: sanitize_fold [OF assms(1)])
qed

subsection \<open>Truncation\<close>

text \<open>A match of a literal without newline does not cross a newline.\<close>

lemma lower_newline [simp]: "to_lowercase_char c = newline \<longleftrightarrow> c = newline"
proof (cases "65 \<le> byte c \<and> byte c \<le> 90")
  case True
  then have "byte (to_lowercase_char c) \<noteq> (10::nat)" and "byte c \<noteq> (10::nat)"
    by (simp_all add: to_lowercase_char_def)
  then show ?thesis by (auto simp: newline_def)
qed (auto simp: to_lowercase_char_def)

lemma ci_strip_newline: "newline \<notin> set q \<Longrightarrow> q \<noteq> [] \<Longrightarrow> ci_strip q (newline # b) = None"
proof (cases q)
  case (Cons x xs)
  have "to_lowercase_char newline = newline" by simp
  moreover assume "newline \<notin> set q"
  ultimately have "to_lowercase_char x \<noteq> to_lowercase_char newline"
    using Cons lower_newline [of x] by (metis list.set_intros(1))
  moreover have "newline \<noteq> long_s1" by (simp add: newline_def)
  ultimately show ?thesis using Cons by simp
qed simp

lemma ci_strip_before_newline:
  "newline \<notin> set q \<Longrightarrow> ci_strip q (a @ newline # b) \<noteq> None \<Longrightarrow> ci_strip q a \<noteq> None"
proof (induction q a rule: ci_strip.induct)
  case (2 p ps)
  then show ?case using ci_strip_newline [of "p # ps" b] by simp
next
  case (3 p ps c cs)
  show ?case
  proof (cases "to_lowercase_char p = to_lowercase_char c")
    case True
    with 3 show ?thesis by simp
  next
    case False
    have s: "to_lowercase_char p = CHR ''s'' \<and> c = long_s1"
    proof (rule ccontr)
      assume "\<not> (to_lowercase_char p = CHR ''s'' \<and> c = long_s1)"
      with False have "ci_strip (p # ps) ((c # cs) @ newline # b) = None"
        by (simp only: ci_strip.simps append_Cons if_False simp_thms)
      with 3(4) show False by blast
    qed
    have "newline \<noteq> long_s2" by (simp add: newline_def)
    have "ci_strip (p # ps) ((c # cs) @ newline # b) =
        (case cs @ newline # b of d # ds \<Rightarrow> if d = long_s2 then ci_strip ps ds else None | [] \<Rightarrow> None)"
      using False s by (simp only: ci_strip.simps append_Cons if_False if_True simp_thms)
    with 3(4) obtain ds where cs: "cs = long_s2 # ds" and m: "ci_strip ps (ds @ newline # b) \<noteq> None"
      using \<open>newline \<noteq> long_s2\<close> by (cases cs) (simp_all split: if_split_asm)
    from 3(2) [OF False s cs refl] 3(3) m have "ci_strip ps ds \<noteq> None" by simp
    with False s cs show ?thesis by simp
  qed
qed simp

lemma ci_occurs_at_newline:
  assumes "newline \<notin> set q" and "q \<noteq> []" and "ci_occurs q (a @ newline # b)"
  shows "ci_occurs q a \<or> ci_occurs q b"
  using assms(3)
proof (induction a)
  case Nil
  then have "ci_strip q (newline # b) \<noteq> None \<or> ci_occurs q b" by (simp add: ci_occurs_Cons)
  moreover have "ci_strip q (newline # b) = None"
    using ci_strip_newline assms(1,2) by blast
  ultimately show ?case by simp
next
  case (Cons c a)
  then show ?case
    using ci_strip_before_newline [of q "c # a" b] assms(1) by (auto simp: ci_occurs_Cons)
qed

lemma markers_no_newline: "q \<in> set markers \<Longrightarrow> newline \<notin> set q \<and> q \<noteq> []"
  by (auto simp: markers_def STRIP_PATTERNS_def newline_def)

lemma ci_occurs_hd:
  assumes "marker_shape q" and "CHR ''<'' \<notin> set t" and "CHR ''['' \<notin> set t"
  shows "\<not> ci_occurs q t"
proof -
  obtain x xs where q: "q = x # xs" and x: "x = CHR ''<'' \<or> x = CHR ''[''"
    using assms(1) by (cases q) (auto simp: marker_shape_def)
  have "ci_strip q (c # cs) = None" if c: "c \<noteq> CHR ''<''" "c \<noteq> CHR ''[''" for c cs
  proof -
    have "to_lowercase_char x \<noteq> to_lowercase_char c" and "to_lowercase_char x \<noteq> CHR ''s''"
      using x c by (metis filtered_lower(1,3) lower_bracket, use x in \<open>auto simp: filtered_lower\<close>)
    then show ?thesis by (simp add: q)
  qed
  note nomatch = this
  have "q \<noteq> []" using q by simp
  with assms(2,3) show ?thesis
  proof (induction t)
    case (Cons c cs)
    then have "ci_strip q (c # cs) = None" by (intro nomatch) auto
    with Cons show ?case by (simp add: ci_occurs_Cons)
  qed simp
qed

lemma notice_lower:
  "to_lowercase_char (CHR ''.'') = CHR ''.''" "to_lowercase_char (CHR ''/'') = CHR ''/''"
  by (simp_all add: to_lowercase_char_def)

lemma notice_no_marker:
  assumes q: "q \<in> set markers"
  shows "\<not> ci_occurs q (''[...truncated '' @ show_nat n
     @ '' characters. Use read_file with offset to see more.]'')"
proof -
  have "CHR ''<'' \<notin> set (show_nat n)" and "CHR ''['' \<notin> set (show_nat n)"
    using show_nat_digits [of n] by (auto simp: list_all_iff is_ascii_digit_def)
  then have "\<not> ci_occurs q (''...truncated '' @ show_nat n
     @ '' characters. Use read_file with offset to see more.]'')"
    by (intro ci_occurs_hd marker_shapes [OF q]) auto
  moreover have "ci_strip q (CHR ''['' # CHR ''.'' # t) = None" for t
    using q unfolding markers_def STRIP_PATTERNS_def
    by (simp add: filtered_lower) (elim disjE; simp add: filtered_lower notice_lower)
  ultimately show ?thesis by (simp add: ci_occurs_Cons)
qed

lemma end_no_marker: "q \<in> set markers \<Longrightarrow> \<not> ci_occurs q TOOL_OUTPUT_END"
  unfolding markers_def STRIP_PATTERNS_def TOOL_OUTPUT_END_def
  by (simp add: ci_occurs_Cons)
    (elim disjE; simp add: to_lowercase_char_def char_of_eq_iff)

lemma ci_occurs_prefix: "ci_occurs q a \<Longrightarrow> ci_occurs q (a @ b)"
proof -
  have "ci_strip q a \<noteq> None \<Longrightarrow> ci_strip q (a @ b) \<noteq> None" for a
    by (induction q a rule: ci_strip.induct) (auto split: if_splits list.splits)
  moreover have "ci_occurs [] t" for t by (simp add: ci_occurs_def)
  ultimately show "ci_occurs q a \<Longrightarrow> ci_occurs q (a @ b)"
    by (induction a) (simp, metis append_Cons ci_occurs_Cons)
qed

lemma truncate_no_marker:
  assumes "q \<in> set markers" and "\<not> ci_occurs q t"
  shows "\<not> ci_occurs q (fst (truncate_with_notice t m))"
proof (cases "m = 0 \<or> length t \<le> m")
  case False
  obtain u where t: "t = take_chars m t @ u" using take_chars_prefix [of m t] by (auto simp: prefix_def)
  have "\<not> ci_occurs q (take_chars m t)" using assms(2) ci_occurs_prefix [of q _ u] t by metis
  moreover have "fst (truncate_with_notice t m) = take_chars m t @ newline # [] @ newline #
      (''[...truncated '' @ show_nat (length t - length (take_chars m t))
        @ '' characters. Use read_file with offset to see more.]'')"
    using False by (simp add: truncate_with_notice_def truncation_notice_def nl2_def Let_def)
  moreover have "\<not> ci_occurs q []"
    using markers_no_newline [OF assms(1)] by (cases q) (auto simp: ci_occurs_def)
  ultimately show ?thesis
    using ci_occurs_at_newline [of q] markers_no_newline [OF assms(1)] notice_no_marker [OF assms(1)]
    by metis
qed (use assms in \<open>auto simp: truncate_with_notice_def\<close>)

lemma clean_no_marker:
  assumes "replaces_ci rx" and "q \<in> set markers"
  shows "\<not> ci_occurs q (fst (clean rx out m))"
  using truncate_no_marker [OF assms(2) sanitize_no_marker [OF assms]] sanitize_no_marker [OF assms]
  by (cases m) (simp_all add: clean_def Let_def case_prod_unfold)

lemma takeWhile_boundary:
  "t = [] \<or> \<not> P (hd t) \<Longrightarrow>
   takeWhile P (takeWhile P s @ t) = takeWhile P s \<and> dropWhile P (takeWhile P s @ t) = t"
  by (induction s; cases t; auto)

lemma dropWhile_chars: "chars (concat (take n (chars s))) = take n (chars s)"
proof (induction s arbitrary: n rule: chars.induct)
  case (2 c cs)
  show ?case
  proof (cases n)
    case (Suc k)
    let ?t = "concat (take k (chars (dropWhile is_cont_byte cs)))"
    have "?t = [] \<or> \<not> is_cont_byte (hd ?t)"
    proof (cases "dropWhile is_cont_byte cs")
      case (Cons a as)
      with hd_dropWhile [of is_cont_byte cs] have "\<not> is_cont_byte a" by simp
      with Cons show ?thesis by (cases k) auto
    qed (simp del: dropWhile_eq_Nil_conv)
    then have "takeWhile is_cont_byte (takeWhile is_cont_byte cs @ ?t) = takeWhile is_cont_byte cs
      \<and> dropWhile is_cont_byte (takeWhile is_cont_byte cs @ ?t) = ?t"
      by (rule takeWhile_boundary)
    with 2 Suc show ?thesis by simp
  qed simp
qed simp

lemma char_count_take: "char_count (take_chars n s) = min n (char_count s)"
  by (simp add: char_count_def take_chars_def dropWhile_chars)

subsection \<open>Properties\<close>

text \<open>C26: Nothing that reads as one of the chat-template markers, in any case, is left between the
  delimiters of a wrapped tool output, whether or not it was truncated: the replaced text cannot form
  a marker with what stands around it, a later replacement cannot bring back an earlier marker, and
  the truncation notice cannot complete one.\<close>

theorem wrap_tool_output_no_marker:
  assumes "replaces_ci rx"
  shows "\<exists>body. sz_content (wrap_tool_output rx tool_name out max_length) =
      TOOL_OUTPUT_START @ nl @ ''<!-- tool: '' @ tool_name @ '' -->'' @ nl @ body @ nl @ TOOL_OUTPUT_END
    \<and> list_all (\<lambda>q. \<not> ci_occurs q body) markers"
proof (intro exI conjI)
  show "list_all (\<lambda>q. \<not> ci_occurs q (fst (clean rx out max_length))) markers"
    using clean_no_marker [OF assms] by (simp add: list_all_iff)
qed (simp add: wrap_tool_output_def case_prod_unfold Let_def)

definition literal_engine :: regex_engine where
  "literal_engine = \<lparr>re_replace_ci = ci_replace, re_is_match = (\<lambda>re t. False)\<rparr>"

lemma literal_engine_ok: "replaces_ci literal_engine"
  by (auto simp: replaces_ci_def literal_engine_def)

theorem wrap_tool_output_no_marker_witness:
  "replaces_ci literal_engine \<and>
   (\<exists>body. sz_content (wrap_tool_output literal_engine ''bash'' ''a<SYStem>b'' (Some 8)) =
      TOOL_OUTPUT_START @ nl @ ''<!-- tool: '' @ ''bash'' @ '' -->'' @ nl @ body @ nl @ TOOL_OUTPUT_END
    \<and> list_all (\<lambda>q. \<not> ci_occurs q body) markers)"
  using literal_engine_ok wrap_tool_output_no_marker [OF literal_engine_ok] by blast

text \<open>Text in which no marker occurs passes the filter unchanged, so that filtering twice is
  filtering once, and so that a closing delimiter inside a tool's output reaches the model as it is:
  the filter does not keep the output from ending its own block.\<close>

theorem sanitize_tool_output_stable:
  assumes "replaces_ci rx"
  shows "sanitize_tool_output rx (sanitize_tool_output rx t) = sanitize_tool_output rx t
    \<and> sanitize_tool_output rx (TOOL_OUTPUT_END @ nl @ sanitize_tool_output rx t)
        = TOOL_OUTPUT_END @ nl @ sanitize_tool_output rx t"
proof
  have free: "list_all (\<lambda>q. \<not> ci_occurs q (sanitize_tool_output rx t)) markers"
    using sanitize_no_marker [OF assms] by (simp add: list_all_iff)
  with sanitize_unchanged [OF assms] show
    "sanitize_tool_output rx (sanitize_tool_output rx t) = sanitize_tool_output rx t" by blast
  have "list_all (\<lambda>q. \<not> ci_occurs q (TOOL_OUTPUT_END @ newline # sanitize_tool_output rx t)) markers"
    unfolding list_all_iff
  proof
    fix q assume q: "q \<in> set markers"
    have "\<not> ci_occurs q TOOL_OUTPUT_END" by (rule end_no_marker [OF q])
    with q free ci_occurs_at_newline [of q] markers_no_newline [OF q]
    show "\<not> ci_occurs q (TOOL_OUTPUT_END @ newline # sanitize_tool_output rx t)"
      by (metis list_all_iff)
  qed
  from sanitize_unchanged [OF assms this] show
    "sanitize_tool_output rx (TOOL_OUTPUT_END @ nl @ sanitize_tool_output rx t)
      = TOOL_OUTPUT_END @ nl @ sanitize_tool_output rx t" by simp
qed

theorem sanitize_tool_output_stable_witness:
  "replaces_ci literal_engine \<and>
   sanitize_tool_output literal_engine (sanitize_tool_output literal_engine ''<s>x'')
     = sanitize_tool_output literal_engine ''<s>x''
   \<and> sanitize_tool_output literal_engine (TOOL_OUTPUT_END @ nl @ sanitize_tool_output literal_engine ''<s>x'')
     = TOOL_OUTPUT_END @ nl @ sanitize_tool_output literal_engine ''<s>x''"
  using literal_engine_ok sanitize_tool_output_stable [OF literal_engine_ok, of "''<s>x''"] by blast

text \<open>Truncation keeps a prefix of at most \<open>max_chars\<close> code points and reports the number of
  bytes it dropped. The guard counts bytes and the cut counts code points: text of few code points
  and many bytes keeps all of them and is reported as truncated by zero characters.\<close>

theorem truncate_with_notice_spec:
  "case truncate_with_notice t max_chars of (result, was_cut) \<Rightarrow>
     if was_cut then max_chars \<noteq> 0 \<and> max_chars < length t \<and>
       (\<exists>kept dropped. t = kept @ dropped \<and> result = kept @ truncation_notice (length dropped)
          \<and> char_count kept = min max_chars (char_count t)
          \<and> (dropped = [] \<longleftrightarrow> char_count t \<le> max_chars))
     else result = t \<and> (max_chars = 0 \<or> length t \<le> max_chars)"
proof (cases "max_chars = 0 \<or> length t \<le> max_chars")
  case False
  obtain u where t: "t = take_chars max_chars t @ u"
    using take_chars_prefix [of max_chars t] by (auto simp: prefix_def)
  have "u = [] \<longleftrightarrow> char_count t \<le> max_chars"
    by (metis append_self_conv char_count_take char_count_take_chars min.cobounded1 t)
  moreover have "length t - length (take_chars max_chars t) = length u"
    using t by (metis add_diff_cancel_left' length_append)
  ultimately have "truncate_with_notice t max_chars =
      (take_chars max_chars t @ truncation_notice (length u), True)"
    and "\<exists>kept dropped. t = kept @ dropped
      \<and> take_chars max_chars t @ truncation_notice (length u) = kept @ truncation_notice (length dropped)
      \<and> char_count kept = min max_chars (char_count t)
      \<and> (dropped = [] \<longleftrightarrow> char_count t \<le> max_chars)"
    using False t char_count_take [of max_chars t]
    by (simp add: truncate_with_notice_def Let_def, blast)
  with False show ?thesis by simp
qed (simp add: truncate_with_notice_def)

end
