(* ===== verification/Tool_Executor.thy ===== *)
theory Tool_Executor
  imports Sanitizer Model_Config
begin

text \<open>
  Running the tool calls of the model (\<^verbatim>\<open>src/src/agent/tool_executor.rs\<close>): the register of approved
  calls, the gate in front of the tools that require approval, the dispatch by name and the wrapping
  of the output.

  A tool is the record of what the trait \<open>Tool\<close> gives: its name, its schema and what executing it on
  the arguments does to the world \<open>'w\<close> outside the program.
\<close>

record 'w tool =
  t_name :: string
  t_schema :: tool_schema
  t_execute :: "string \<Rightarrow> 'w \<Rightarrow> (anyhow_error, string) res \<times> 'w"

subsection \<open>The register of approvals\<close>

type_synonym approvals = "string set"

definition approvals_new :: approvals where
  "approvals_new = {}"

definition approve :: "string \<Rightarrow> approvals \<Rightarrow> approvals" where
  "approve call_id m = insert call_id m"

definition consume :: "string \<Rightarrow> approvals \<Rightarrow> bool \<times> approvals" where
  "consume call_id m = (call_id \<in> m, m - {call_id})"

text \<open>
  What a client of the register may rely on: an approval is pending from the moment it is given until
  it is consumed, and consuming tells whether it was pending.
\<close>

locale approval_register =
  fixes new :: 'm
    and approve_op :: "string \<Rightarrow> 'm \<Rightarrow> 'm"
    and consume_op :: "string \<Rightarrow> 'm \<Rightarrow> bool \<times> 'm"
    and pending :: "string \<Rightarrow> 'm \<Rightarrow> bool"
  assumes pending_new: "\<not> pending i new"
    and pending_approve: "pending j (approve_op i m) \<longleftrightarrow> j = i \<or> pending j m"
    and consume_result: "fst (consume_op i m) \<longleftrightarrow> pending i m"
    and pending_consume: "pending j (snd (consume_op i m)) \<longleftrightarrow> j \<noteq> i \<and> pending j m"
begin

lemma one_shot: "\<not> fst (consume_op i (snd (consume_op i m)))"
  by (simp add: consume_result pending_consume)

lemma approve_then_consume: "fst (consume_op i (approve_op i m))"
  by (simp add: consume_result pending_approve)

lemma consume_other: "j \<noteq> i \<Longrightarrow> fst (consume_op j (snd (consume_op i m))) = fst (consume_op j m)"
  by (simp add: consume_result pending_consume)

text \<open>The balance a use of an approval keeps: what was used and what is still pending was given.\<close>

lemma balance_approve:
  "used + of_bool (pending i m) \<le> (given :: nat) \<Longrightarrow>
   used + of_bool (pending i (approve_op j m)) \<le> given + of_bool (j = i)"
  by (auto simp: pending_approve)

lemma balance_consume:
  "used + of_bool (pending i m) \<le> (given :: nat) \<Longrightarrow>
   used + of_bool (j = i \<and> fst (consume_op j m)) + of_bool (pending i (snd (consume_op j m))) \<le> given"
  by (auto simp: pending_consume consume_result)

end

interpretation register: approval_register approvals_new approve consume "\<lambda>i m. i \<in> m"
  by unfold_locales (auto simp: approvals_new_def approve_def consume_def)

subsection \<open>Execution\<close>

definition requires_approval :: "tools_config \<Rightarrow> string \<Rightarrow> bool" where
  "requires_approval tc tool_name = list_ex (\<lambda>t. t = tool_name) (require_approval tc)"

definition tool_schemas :: "'w tool list \<Rightarrow> tool_schema list" where
  "tool_schemas ts = map t_schema ts"

definition max_output :: "tools_config \<Rightarrow> nat option" where
  "max_output tc = (if 0 < tool_output_max_chars tc then Some (tool_output_max_chars tc) else None)"

fun dispatch ::
  "regex_engine \<Rightarrow> tools_config \<Rightarrow> 'w tool list \<Rightarrow> tool_call \<Rightarrow> 'w \<Rightarrow> (anyhow_error, string) res \<times> 'w" where
  "dispatch rx tc [] call w = (Inl (Msg (''Unknown tool: '' @ tc_name call)), w)"
| "dispatch rx tc (t # ts) call w =
     (if t_name t = tc_name call then
        (case t_execute t (tc_arguments call) w of
           (Inl e, w') \<Rightarrow> (Inl e, w')
         | (Inr raw_output, w') \<Rightarrow>
             (if use_content_delimiters tc
              then (Inr (sz_content (wrap_tool_output rx (tc_name call) raw_output (max_output tc))), w')
              else (Inr raw_output, w')))
      else dispatch rx tc ts call w)"

definition execute_tool ::
  "regex_engine \<Rightarrow> tools_config \<Rightarrow> 'w tool list \<Rightarrow> tool_call \<Rightarrow> approvals \<Rightarrow> 'w
   \<Rightarrow> (anyhow_error, string) res \<times> approvals \<times> 'w" where
  "execute_tool rx tc ts call m w =
     (let (granted, m') = (if requires_approval tc (tc_name call) then consume (tc_id call) m else (True, m))
      in if \<not> granted then (Inl (ApprovalRequiredError (tc_name call) call), m', w)
         else let (r, w') = dispatch rx tc ts call w in (r, m', w'))"

lemma execute_tool_unguarded:
  "\<not> requires_approval tc (tc_name call) \<Longrightarrow>
   execute_tool rx tc ts call m w = (let (r, w') = dispatch rx tc ts call w in (r, m, w'))"
  by (simp add: execute_tool_def)

lemma execute_tool_refused:
  "requires_approval tc (tc_name call) \<Longrightarrow> tc_id call \<notin> m \<Longrightarrow>
   execute_tool rx tc ts call m w = (Inl (ApprovalRequiredError (tc_name call) call), m, w)"
  by (simp add: execute_tool_def consume_def)

lemma execute_tool_granted:
  "requires_approval tc (tc_name call) \<Longrightarrow> tc_id call \<in> m \<Longrightarrow>
   execute_tool rx tc ts call m w = (let (r, w') = dispatch rx tc ts call w in (r, m - {tc_id call}, w'))"
  by (simp add: execute_tool_def consume_def)

lemma dispatch_find:
  "dispatch rx tc ts call w =
     (case find (\<lambda>t. t_name t = tc_name call) ts of
        None \<Rightarrow> (Inl (Msg (''Unknown tool: '' @ tc_name call)), w)
      | Some t \<Rightarrow> map_prod (map_sum id (\<lambda>raw. if use_content_delimiters tc
            then sz_content (wrap_tool_output rx (tc_name call) raw (max_output tc)) else raw)) id
            (t_execute t (tc_arguments call) w))"
  by (induction ts) (auto split: prod.split sum.split)

subsection \<open>Histories of approvals and executions\<close>

datatype exec_event = Approve string | Execute tool_call

text \<open>
  \<open>play\<close> runs a history against the register and the world and returns the answers to the calls, in order.
\<close>

fun play ::
  "regex_engine \<Rightarrow> tools_config \<Rightarrow> 'w tool list \<Rightarrow> exec_event list \<Rightarrow> approvals \<Rightarrow> 'w
   \<Rightarrow> (anyhow_error, string) res list \<times> approvals \<times> 'w" where
  "play rx tc ts [] m w = ([], m, w)"
| "play rx tc ts (Approve i # evs) m w = play rx tc ts evs (approve i m) w"
| "play rx tc ts (Execute call # evs) m w =
     (let (r, m1, w1) = execute_tool rx tc ts call m w; (rs, m2, w2) = play rx tc ts evs m1 w1
      in (r # rs, m2, w2))"

text \<open>
  The specification knows no register, only what happened: a call that requires approval may run when the last
  event with its identifier was an approval. \<open>admitted\<close> are the calls of a history that may run,
  \<open>past\<close> being what came before.
\<close>

definition uses :: "tools_config \<Rightarrow> string \<Rightarrow> exec_event \<Rightarrow> bool" where
  "uses tc i e = (case e of Execute c \<Rightarrow> requires_approval tc (tc_name c) \<and> tc_id c = i | Approve j \<Rightarrow> False)"

definition cleared :: "tools_config \<Rightarrow> string \<Rightarrow> exec_event list \<Rightarrow> bool" where
  "cleared tc i past = (find (\<lambda>e. e = Approve i \<or> uses tc i e) (rev past) = Some (Approve i))"

definition may_run :: "tools_config \<Rightarrow> exec_event list \<Rightarrow> tool_call \<Rightarrow> bool" where
  "may_run tc past call = (requires_approval tc (tc_name call) \<longrightarrow> cleared tc (tc_id call) past)"

fun admitted :: "tools_config \<Rightarrow> exec_event list \<Rightarrow> exec_event list \<Rightarrow> tool_call list" where
  "admitted tc past [] = []"
| "admitted tc past (Approve i # evs) = admitted tc (past @ [Approve i]) evs"
| "admitted tc past (Execute c # evs) =
     (if may_run tc past c then [c] else []) @ admitted tc (past @ [Execute c]) evs"

definition guarded_runs :: "tools_config \<Rightarrow> string \<Rightarrow> tool_call list \<Rightarrow> nat" where
  "guarded_runs tc i calls = length (filter (\<lambda>c. uses tc i (Execute c)) calls)"

definition approvals_given :: "string \<Rightarrow> exec_event list \<Rightarrow> nat" where
  "approvals_given i evs = length (filter (\<lambda>e. e = Approve i) evs)"

lemma cleared_Nil [simp]: "\<not> cleared tc i []"
  by (simp add: cleared_def)

lemma cleared_snoc [simp]:
  "cleared tc i (past @ [e]) = (e = Approve i \<or> \<not> uses tc i e \<and> cleared tc i past)"
  by (auto simp: cleared_def uses_def split: exec_event.splits)

lemma play_append:
  "play rx tc ts (es @ fs) m w =
     (let (rs, m1, w1) = play rx tc ts es m w; (rs', m2, w2) = play rx tc ts fs m1 w1 in (rs @ rs', m2, w2))"
proof (induction es arbitrary: m w)
  case (Cons e es)
  then show ?case by (cases e) (simp_all add: case_prod_unfold Let_def)
qed simp

lemma execute_tool_register:
  "fst (snd (execute_tool rx tc ts call m w)) = (if requires_approval tc (tc_name call) then m - {tc_id call} else m)"
  by (auto simp: execute_tool_def Let_def consume_def split: prod.split)

text \<open>The register is what the history says.\<close>

lemma register_history: "i \<in> fst (snd (play rx tc ts past approvals_new w)) \<longleftrightarrow> cleared tc i past"
proof (induction past rule: rev_induct)
  case (snoc e past)
  then show ?case
    by (cases e) (auto simp: play_append case_prod_unfold Let_def approve_def uses_def execute_tool_register)
qed (simp add: approvals_new_def)

lemma execute_history:
  assumes "\<And>i. i \<in> m \<longleftrightarrow> cleared tc i past"
  shows "execute_tool rx tc ts call m w =
    (if may_run tc past call
     then let (r, w') = dispatch rx tc ts call w
          in (r, if requires_approval tc (tc_name call) then m - {tc_id call} else m, w')
     else (Inl (ApprovalRequiredError (tc_name call) call), m, w))"
  using assms by (auto simp: may_run_def execute_tool_def consume_def)

lemma play_world:
  "(\<And>i. i \<in> m \<longleftrightarrow> cleared tc i past) \<Longrightarrow>
   snd (snd (play rx tc ts evs m w)) = fold (\<lambda>c w. snd (dispatch rx tc ts c w)) (admitted tc past evs) w"
proof (induction tc past evs arbitrary: m w rule: admitted.induct)
  case (2 tc past i evs)
  have "j \<in> approve i m \<longleftrightarrow> cleared tc j (past @ [Approve i])" for j
    using 2(2) by (auto simp: approve_def uses_def)
  from 2(1) [OF this] show ?case by simp
next
  case (3 tc past c evs)
  define x where "x = execute_tool rx tc ts c m w"
  have m: "i \<in> fst (snd x) \<longleftrightarrow> cleared tc i (past @ [Execute c])" for i
    using 3(2) by (auto simp: x_def execute_tool_register uses_def)
  have "snd (snd (play rx tc ts (Execute c # evs) m w)) = snd (snd (play rx tc ts evs (fst (snd x)) (snd (snd x))))"
    by (simp add: x_def case_prod_unfold Let_def)
  also have "\<dots> = fold (\<lambda>c w. snd (dispatch rx tc ts c w)) (admitted tc (past @ [Execute c]) evs) (snd (snd x))"
    by (rule 3(1) [OF m])
  also have "snd (snd x) = fold (\<lambda>c w. snd (dispatch rx tc ts c w)) (if may_run tc past c then [c] else []) w"
    using execute_history [OF 3(2), of rx ts c w] by (simp add: x_def case_prod_unfold Let_def)
  finally show ?case by simp
qed simp

lemma guarded_balance:
  "guarded_runs tc i (admitted tc past evs) \<le> of_bool (cleared tc i past) + approvals_given i evs"
proof (induction tc past evs rule: admitted.induct)
  case (2 tc past j evs)
  then show ?case by (auto simp: approvals_given_def uses_def split: if_splits)
next
  case (3 tc past c evs)
  then show ?case
    by (auto simp: guarded_runs_def approvals_given_def may_run_def uses_def split: if_splits)
qed (simp add: guarded_runs_def)

subsection \<open>Properties\<close>

text \<open>C2: Approvals are one-shot. After every history of approvals and executions that starts with the empty
  register, a call that requires approval runs exactly when the last event with its identifier was an approval;
  otherwise it gets the approval error, and neither the world nor the register changes. The world is that of
  running the admitted calls, and only these, in order, and with every identifier at most as many guarded calls ran as
  approvals were given.\<close>

theorem approvals_are_one_shot:
  "(case play rx tc ts past approvals_new w of
      (rs, m, w1) \<Rightarrow>
        execute_tool rx tc ts call m w1 =
          (if requires_approval tc (tc_name call) \<and> \<not> cleared tc (tc_id call) past
           then (Inl (ApprovalRequiredError (tc_name call) call), m, w1)
           else let (r, w2) = dispatch rx tc ts call w1
                in (r, if requires_approval tc (tc_name call) then m - {tc_id call} else m, w2))
        \<and> w1 = fold (\<lambda>c w. snd (dispatch rx tc ts c w)) (admitted tc [] past) w)
   \<and> guarded_runs tc i (admitted tc [] past) \<le> approvals_given i past"
proof -
  obtain rs m w1 where p: "play rx tc ts past approvals_new w = (rs, m, w1)" by (metis prod_cases3)
  have m: "j \<in> m \<longleftrightarrow> cleared tc j past" for j using register_history [of j rx tc ts past w] p by simp
  have "w1 = fold (\<lambda>c w. snd (dispatch rx tc ts c w)) (admitted tc [] past) w"
    using play_world [of approvals_new tc "[]" rx ts past w] p by (simp add: approvals_new_def)
  moreover have "guarded_runs tc i (admitted tc [] past) \<le> approvals_given i past"
    using guarded_balance [of tc i "[]" past] by simp
  moreover note execute_history [OF m, of rx ts call w1]
  ultimately show ?thesis by (simp add: p may_run_def)
qed

text \<open>What executing a call does, on every branch.\<close>

lemma execute_tool_branches:
  "execute_tool rx tc ts call m w =
     (if requires_approval tc (tc_name call) \<and> tc_id call \<notin> m
      then (Inl (ApprovalRequiredError (tc_name call) call), m, w)
      else let m' = (if requires_approval tc (tc_name call) then m - {tc_id call} else m) in
        case find (\<lambda>t. t_name t = tc_name call) ts of
          None \<Rightarrow> (Inl (Msg (''Unknown tool: '' @ tc_name call)), m', w)
        | Some t \<Rightarrow>
            let (r, w') = t_execute t (tc_arguments call) w in
            (map_sum id (\<lambda>raw. if use_content_delimiters tc
               then sz_content (wrap_tool_output rx (tc_name call) raw (max_output tc)) else raw) r, m', w'))"
  by (auto simp: execute_tool_def dispatch_find consume_def Let_def split: option.split prod.split)

end
