(* ===== verification/Chat_Engine.thy ===== *)
theory Chat_Engine
  imports Session_Manager Tool_Executor
begin

text \<open>
  The conversation loop (\<^verbatim>\<open>src/src/agent/chat_engine.rs\<close>) with the image descriptions of
  \<^verbatim>\<open>src/src/capabilities/vision.rs\<close>: a user message in, requests to the model, the tool calls it asks
  for, the interruption for approval and the continuation after it, and the streaming variant with
  its bound of ten rounds.

  The record \<open>engine\<close> holds what does not change during a turn, \<open>engine_state\<close> what does: the session,
  the register of approvals and the world outside. \<open>chat\<close> calls itself for as long as the model asks
  for tools; it is a partial function, and \<open>None\<close> is the call that never returns.
\<close>

subsection \<open>State\<close>

record 'w engine =
  e_rx :: regex_engine
  e_host :: "'w host"
  e_cfg :: app_config
  e_model :: string
  context_window :: usize
  reserve_tokens :: usize
  e_tools :: "'w tool list"
  e_bpe :: tokenizer
  e_now :: "'w \<Rightarrow> u64"
  e_today :: "'w \<Rightarrow> string"
  e_compact :: "'w strategy"

record 'w engine_state =
  es_session :: session
  es_approved :: approvals
  es_world :: 'w

definition add_msg :: "'w engine \<Rightarrow> message \<Rightarrow> 'w engine_state \<Rightarrow> 'w engine_state" where
  "add_msg e m st =
     st\<lparr>es_session := add_message (e_bpe e) (e_now e (es_world st)) m (es_session st)\<rparr>"

definition ask ::
  "'w engine \<Rightarrow> 'w engine_state \<Rightarrow> (anyhow_error, smart_response) res \<times> 'w engine_state" where
  "ask e st =
     (let (r, w) = client_chat (e_host e) (e_cfg e) (e_model e) (messages_for_llm (es_session st))
                     (Some (tool_schemas (e_tools e))) (es_world st)
      in (r, st\<lparr>es_world := w\<rparr>))"

definition ask_stream ::
  "'w engine \<Rightarrow> 'w engine_state
   \<Rightarrow> (anyhow_error, (anyhow_error, stream_chunk) res list) res \<times> 'w engine_state" where
  "ask_stream e st =
     (let (r, w) = client_chat_stream (e_host e) (e_cfg e) (e_model e) (messages_for_llm (es_session st))
                     (Some (tool_schemas (e_tools e))) (es_world st)
      in (r, st\<lparr>es_world := w\<rparr>))"

definition exec_call ::
  "'w engine \<Rightarrow> tool_call \<Rightarrow> 'w engine_state \<Rightarrow> (anyhow_error, string) res \<times> 'w engine_state" where
  "exec_call e call st =
     (let (r, m, w) = execute_tool (e_rx e) (tools_cfg (e_cfg e)) (e_tools e) call (es_approved st) (es_world st)
      in (r, st\<lparr>es_approved := m, es_world := w\<rparr>))"

definition output_text :: "'w engine \<Rightarrow> (anyhow_error, string) res \<Rightarrow> string" where
  "output_text e r = (case r of Inr out \<Rightarrow> out | Inl err \<Rightarrow> ''Error: '' @ h_display (e_host e) err)"

fun sum_usage :: "usage option \<Rightarrow> usage option \<Rightarrow> usage option" where
  "sum_usage (Some a) (Some b) =
     Some \<lparr>input_tokens = input_tokens a + input_tokens b, output_tokens = output_tokens a + output_tokens b\<rparr>"
| "sum_usage (Some a) None = Some a"
| "sum_usage None (Some b) = Some b"
| "sum_usage None None = None"

subsection \<open>The loop without streaming\<close>

fun run_calls ::
  "'w engine \<Rightarrow> tool_call list \<Rightarrow> 'w engine_state \<Rightarrow> (anyhow_error, unit) res \<times> 'w engine_state" where
  "run_calls e [] st = (Inr (), st)"
| "run_calls e (call # calls) st =
     (let (r, st1) = exec_call e call st in
      case r of
        Inl (ApprovalRequiredError name c) \<Rightarrow> (Inl (Llm (ApprovalRequired name c)), st1)
      | _ \<Rightarrow> run_calls e calls (add_msg e (tool_message (tc_id call) (output_text e r)) st1))"

partial_function (option) handle_response ::
  "'w engine \<Rightarrow> llm_response \<Rightarrow> 'w engine_state
   \<Rightarrow> ((anyhow_error, string \<times> usage option) res \<times> 'w engine_state) option" where
  "handle_response e resp st =
     (case lr_content resp of
        Text t \<Rightarrow> Some (Inr (t, None), st)
      | ToolCalls calls \<Rightarrow>
          (case run_calls e calls (add_msg e (calls_message [] (Some calls)) st) of
             (Inl err, st1) \<Rightarrow> Some (Inl err, st1)
           | (Inr _, st1) \<Rightarrow>
               (case ask e st1 of
                  (Inl err, st2) \<Rightarrow> Some (Inl err, st2)
                | (Inr sr, st2) \<Rightarrow>
                    Option.bind (handle_response e (sr_response sr) st2)
                      (\<lambda>(r, st3). Some (bind_res r
                         (\<lambda>(t, next_usage). Inr (t, sum_usage (lr_usage (sr_response sr)) next_usage)), st3)))))"

definition SILENT_REPLY_TOKEN :: string where
  "SILENT_REPLY_TOKEN = ''NO_REPLY''"

definition flush_prompt :: "string \<Rightarrow> string" where
  "flush_prompt today =
     ''Pre-compaction memory flush. Session nearing token limit.'' @ nl
     @ ''Store durable memories now (use memory/'' @ today @ ''.md; create memory/ if needed).'' @ nl
     @ ''- MEMORY.md for persistent facts (user info, preferences, key decisions)'' @ nl
     @ ''- memory/'' @ today @ ''.md for session notes'' @ nl2
     @ ''If nothing to store, reply: '' @ SILENT_REPLY_TOKEN"

definition memory_flush ::
  "'w engine \<Rightarrow> 'w engine_state \<Rightarrow> ((anyhow_error, unit) res \<times> 'w engine_state) option" where
  "memory_flush e st =
     (let st1 = st\<lparr>es_session := mark_memory_flushed (es_session st)\<rparr>;
          st2 = add_msg e (text_message User (flush_prompt (e_today e (es_world st1)))) st1
      in case ask e st2 of
           (Inl err, st3) \<Rightarrow> Some (Inl err, st3)
         | (Inr sr, st3) \<Rightarrow>
             Option.bind (handle_response e (sr_response sr) st3)
               (\<lambda>(r, st4). case r of
                  Inl err \<Rightarrow> Some (Inl err, st4)
                | Inr (t, u) \<Rightarrow> Some (Inr (), add_msg e (text_message Assistant t) st4)))"

subsection \<open>Images for a model without vision\<close>

definition describe_image ::
  "'w engine \<Rightarrow> image_attachment \<Rightarrow> 'w \<Rightarrow> (anyhow_error, string) res \<times> 'w" where
  "describe_image e img w =
     (case client_chat (e_host e) (e_cfg e) (vision_fallback_model (e_cfg e))
             [(text_message User (vision_fallback_prompt (e_cfg e)))\<lparr>images := [img]\<rparr>] None w of
        (Inl err, w') \<Rightarrow> (Inl err, w')
      | (Inr sr, w') \<Rightarrow>
          (case lr_content (sr_response sr) of
             Text t \<Rightarrow> (Inr t, w')
           | ToolCalls _ \<Rightarrow> (Inl (Msg ''Unexpected response from vision model (received tool calls)''), w')))"

fun describe_images ::
  "'w engine \<Rightarrow> nat \<Rightarrow> image_attachment list \<Rightarrow> 'w \<Rightarrow> string \<times> 'w" where
  "describe_images e i [] w = ([], w)"
| "describe_images e i (img # imgs) w =
     (let (r, w1) = describe_image e img w;
          note_text = (case r of
             Inr desc \<Rightarrow> nl2 @ ''[Image '' @ show_nat i @ '' Description: '' @ desc @ '']''
           | Inl err \<Rightarrow> nl2 @ ''[Image '' @ show_nat i @ '' processing failed: '' @ h_display (e_host e) err @ '']'');
          (rest, w2) = describe_images e (Suc i) imgs w1
      in (note_text @ rest, w2))"

definition user_message ::
  "'w engine \<Rightarrow> string \<Rightarrow> image_attachment list \<Rightarrow> 'w \<Rightarrow> (anyhow_error, message) res \<times> 'w" where
  "user_message e txt imgs w =
     (case resolve_config (e_cfg e) (e_model e) of
        Inl err \<Rightarrow> (Inl err, w)
      | Inr config \<Rightarrow>
          if supports_vision config = Some False \<and> imgs \<noteq> []
          then let (notes, w') = describe_images e 1 imgs w
               in (Inr (text_message User (txt @ notes)), w')
          else (Inr ((text_message User txt)\<lparr>images := imgs\<rparr>), w))"

subsection \<open>Turns\<close>

text \<open>The part every variant of a turn shares: flush the memory, then compact, when they are due.\<close>

definition make_room ::
  "'w engine \<Rightarrow> 'w engine_state \<Rightarrow> ((anyhow_error, unit) res \<times> 'w engine_state) option" where
  "make_room e st =
     Option.bind
       (if manager_should_memory_flush (context_window e) (reserve_tokens e) (es_session st)
        then memory_flush e st else Some (Inr (), st))
       (\<lambda>(r, st1). case r of
          Inl err \<Rightarrow> Some (Inl err, st1)
        | Inr _ \<Rightarrow>
            if should_compact (e_bpe e) (context_window e) (reserve_tokens e) (es_session st1)
            then (case compact_session (e_cfg e) (e_compact e) (e_model e) (es_session st1) (es_world st1) of
                    (Inl err, s, w) \<Rightarrow> Some (Inl err, st1\<lparr>es_session := s, es_world := w\<rparr>)
                  | (Inr _, s, w) \<Rightarrow> Some (Inr (), st1\<lparr>es_session := s, es_world := w\<rparr>))
            else Some (Inr (), st1))"

definition finish_turn ::
  "'w engine \<Rightarrow> 'w engine_state \<Rightarrow> ((anyhow_error, string \<times> usage option) res \<times> 'w engine_state) option" where
  "finish_turn e st =
     (case ask e st of
        (Inl err, st1) \<Rightarrow> Some (Inl err, st1)
      | (Inr sr, st1) \<Rightarrow>
          Option.bind (handle_response e (sr_response sr) st1)
            (\<lambda>(r, st2). case r of
               Inl err \<Rightarrow> Some (Inl err, st2)
             | Inr (final_response, follow_up_usage) \<Rightarrow>
                 let st3 = add_msg e (text_message Assistant final_response) st2;
                     st4 = st3\<lparr>es_session := add_metadata_to_last_message (Some (used_model sr))
                                 (Some (sr_latency_ms sr)) (es_session st3)\<rparr>
                 in Some (Inr (final_response, sum_usage (lr_usage (sr_response sr)) follow_up_usage), st4)))"

definition chat_with_images ::
  "'w engine \<Rightarrow> string \<Rightarrow> image_attachment list \<Rightarrow> 'w engine_state
   \<Rightarrow> ((anyhow_error, string \<times> usage option) res \<times> 'w engine_state) option" where
  "chat_with_images e txt imgs st =
     (case user_message e txt imgs (es_world st) of
        (Inl err, w) \<Rightarrow> Some (Inl err, st\<lparr>es_world := w\<rparr>)
      | (Inr m, w) \<Rightarrow>
          Option.bind (make_room e (add_msg e m (st\<lparr>es_world := w\<rparr>)))
            (\<lambda>(r, st1). case r of Inl err \<Rightarrow> Some (Inl err, st1) | Inr _ \<Rightarrow> finish_turn e st1))"

definition chat ::
  "'w engine \<Rightarrow> string \<Rightarrow> 'w engine_state
   \<Rightarrow> ((anyhow_error, string \<times> usage option) res \<times> 'w engine_state) option" where
  "chat e txt st = chat_with_images e txt [] st"

definition provide_tool_result :: "'w engine \<Rightarrow> string \<Rightarrow> string \<Rightarrow> 'w engine_state \<Rightarrow> 'w engine_state" where
  "provide_tool_result e call_id out st = add_msg e (tool_message call_id out) st"

definition finish_chat_stream :: "'w engine \<Rightarrow> string \<Rightarrow> 'w engine_state \<Rightarrow> 'w engine_state" where
  "finish_chat_stream e response st = add_msg e (text_message Assistant response) st"

subsection \<open>Continuation after an approval\<close>

text \<open>\<open>split_last P xs\<close>: what stands before the last element with \<open>P\<close> (\<open>rposition\<close>), the element, and
  what stands after it.\<close>

fun split_last :: "('a \<Rightarrow> bool) \<Rightarrow> 'a list \<Rightarrow> ('a list \<times> 'a \<times> 'a list) option" where
  "split_last P [] = None"
| "split_last P (x # xs) =
     (case split_last P xs of
        Some (pre, y, post) \<Rightarrow> Some (x # pre, y, post)
      | None \<Rightarrow> if P x then Some ([], x, xs) else None)"

definition is_calls_message :: "message \<Rightarrow> bool" where
  "is_calls_message m \<longleftrightarrow> role m = Assistant \<and> tool_calls m \<noteq> None"

definition executed_ids :: "message list \<Rightarrow> string list" where
  "executed_ids ms = List.map_filter tool_call_id (filter (\<lambda>m. role m = Tool) ms)"

definition unanswered :: "message list \<Rightarrow> tool_call list option" where
  "unanswered ms =
     (case split_last is_calls_message ms of
        None \<Rightarrow> None
      | Some (pre, m, post) \<Rightarrow>
          map_option (filter (\<lambda>c. tc_id c \<notin> set (executed_ids post))) (tool_calls m))"

definition continue_chat ::
  "'w engine \<Rightarrow> 'w engine_state \<Rightarrow> ((anyhow_error, string \<times> usage option) res \<times> 'w engine_state) option" where
  "continue_chat e st =
     (case unanswered (messages_for_llm (es_session st)) of
        None \<Rightarrow> Some (Inl (Msg ''Nothing to continue''), st)
      | Some calls \<Rightarrow>
          (case run_calls e calls st of
             (Inl err, st1) \<Rightarrow> Some (Inl err, st1)
           | (Inr _, st1) \<Rightarrow>
               (case ask e st1 of
                  (Inl err, st2) \<Rightarrow> Some (Inl err, st2)
                | (Inr sr, st2) \<Rightarrow> handle_response e (sr_response sr) st2)))"

subsection \<open>Streaming\<close>

text \<open>
  A stream is the list of items it yields when it is read to its end, with the state it leaves.
  \<open>read_chunks\<close> is the inner loop over one answer: the items yielded, the error that cut it short, the
  text and the tool calls.
\<close>

type_synonym stream_item = "(anyhow_error, stream_event) res"

fun read_chunks ::
  "(anyhow_error, stream_chunk) res list \<Rightarrow> string \<Rightarrow> tool_call list option
   \<Rightarrow> stream_item list \<times> anyhow_error option \<times> string \<times> tool_call list option" where
  "read_chunks [] full_text calls = ([], None, full_text, calls)"
| "read_chunks (Inl err # chunks) full_text calls = ([], Some err, full_text, calls)"
| "read_chunks (Inr chunk # chunks) full_text calls =
     (let (items, err, full', calls') =
        read_chunks chunks (if delta chunk \<noteq> [] then full_text @ delta chunk else full_text)
          (if chunk_done chunk then chunk_tool_calls chunk else calls)
      in ((if delta chunk \<noteq> [] then [Inr (Content (delta chunk))] else []) @ items, err, full', calls'))"

fun stream_calls ::
  "'w engine \<Rightarrow> tool_call list \<Rightarrow> 'w engine_state \<Rightarrow> stream_item list \<times> bool \<times> 'w engine_state" where
  "stream_calls e [] st = ([], True, st)"
| "stream_calls e (call # calls) st =
     (if requires_approval (tools_cfg (e_cfg e)) (tc_name call)
      then ([Inr (ApprovalRequiredEv (tc_name call) (tc_id call) (tc_arguments call))], False, st)
      else let (r, st1) = exec_call e call st;
               out = output_text e r;
               (items, go_on, st2) = stream_calls e calls (add_msg e (tool_message (tc_id call) out) st1)
           in (Inr (ToolCallStart (tc_name call) (tc_id call) (tc_arguments call))
               # Inr (ToolCallEnd (tc_name call) (tc_id call) out) # items, go_on, st2))"

fun stream_rounds :: "'w engine \<Rightarrow> nat \<Rightarrow> 'w engine_state \<Rightarrow> stream_item list \<times> 'w engine_state" where
  "stream_rounds e 0 st = ([Inl (Msg ''Max tool iterations exceeded'')], st)"
| "stream_rounds e (Suc n) st =
     (case ask_stream e st of
        (Inl err, st1) \<Rightarrow> ([Inl err], st1)
      | (Inr chunks, st1) \<Rightarrow>
          let (items, failure, full_text, calls) = read_chunks chunks [] None in
          case failure of
            Some err \<Rightarrow> (items @ [Inl err], st1)
          | None \<Rightarrow>
              let st2 = (if full_text \<noteq> [] \<or> calls \<noteq> None then add_msg e (calls_message full_text calls) st1
                         else st1)
              in case calls of
                   None \<Rightarrow> (items @ [Inr Done], st2)
                 | Some cs \<Rightarrow>
                     let (items2, go_on, st3) = stream_calls e cs st2
                     in if go_on then let (items3, st4) = stream_rounds e n st3 in (items @ items2 @ items3, st4)
                        else (items @ items2, st3))"

definition stream_with_tool_loop :: "'w engine \<Rightarrow> 'w engine_state \<Rightarrow> stream_item list \<times> 'w engine_state" where
  "stream_with_tool_loop e st = stream_rounds e 10 st"

definition chat_stream_with_tools ::
  "'w engine \<Rightarrow> string \<Rightarrow> image_attachment list \<Rightarrow> 'w engine_state
   \<Rightarrow> ((anyhow_error, stream_item list) res \<times> 'w engine_state) option" where
  "chat_stream_with_tools e txt imgs st =
     (case user_message e txt imgs (es_world st) of
        (Inl err, w) \<Rightarrow> Some (Inl err, st\<lparr>es_world := w\<rparr>)
      | (Inr m, w) \<Rightarrow>
          Option.bind (make_room e (add_msg e m (st\<lparr>es_world := w\<rparr>)))
            (\<lambda>(r, st1). case r of
               Inl err \<Rightarrow> Some (Inl err, st1)
             | Inr _ \<Rightarrow> let (items, st2) = stream_with_tool_loop e st1 in Some (Inr items, st2)))"

definition chat_stream_with_images ::
  "'w engine \<Rightarrow> string \<Rightarrow> image_attachment list \<Rightarrow> 'w engine_state
   \<Rightarrow> ((anyhow_error, (anyhow_error, stream_chunk) res list) res \<times> 'w engine_state) option" where
  "chat_stream_with_images e txt imgs st =
     Option.bind (make_room e (add_msg e ((text_message User txt)\<lparr>images := imgs\<rparr>) st))
       (\<lambda>(r, st1). case r of Inl err \<Rightarrow> Some (Inl err, st1) | Inr _ \<Rightarrow> Some (ask_stream e st1))"

end
