(* ===== verification/Chat_Protocol.thy ===== *)
theory Chat_Protocol
  imports Chat_Engine
begin

text \<open>
  What the conversation loop does to the conversation: every round of tool calls is answered in order,
  an approval interrupts it at a definite call, the continuation runs exactly the calls that were
  left, streaming ends after at most ten rounds with one closing item, and the loop without streaming
  ends when the model stops asking for tools, and only then.
\<close>

subsection \<open>Conversations\<close>

definition conversation :: "'w engine_state \<Rightarrow> message list" where
  "conversation st = map sm_message (messages (es_session st))"

lemma conversation_add_msg [simp]: "conversation (add_msg e m st) = conversation st @ [m]"
  by (simp add: conversation_def add_msg_def add_message_def sm_new_def)

lemma conversation_world [simp]:
  "conversation (st\<lparr>es_world := w\<rparr>) = conversation st"
  "conversation (st\<lparr>es_approved := m\<rparr>) = conversation st"
  by (simp_all add: conversation_def)

lemma conversation_ask: "ask e st = (r, st') \<Longrightarrow> conversation st' = conversation st"
  by (auto simp: ask_def Let_def split: prod.splits)

lemma conversation_ask_stream: "ask_stream e st = (r, st') \<Longrightarrow> conversation st' = conversation st"
  by (auto simp: ask_stream_def Let_def split: prod.splits)

lemma conversation_exec_call: "exec_call e c st = (r, st') \<Longrightarrow> conversation st' = conversation st"
  by (auto simp: exec_call_def Let_def split: prod.splits)

lemma messages_for_llm_conversation:
  "messages_for_llm (es_session st) =
     (case system_context (es_session st) of Some c \<Rightarrow> [text_message System c] | None \<Rightarrow> []) @ conversation st"
  by (simp add: messages_for_llm_def conversation_def)

text \<open>The answers to a list of calls, and a conversation made of fully answered rounds.\<close>

definition answers :: "tool_call list \<Rightarrow> string list \<Rightarrow> message list" where
  "answers calls outs = map2 (\<lambda>c out. tool_message (tc_id c) out) calls outs"

inductive rounds :: "message list \<Rightarrow> bool" where
  rounds_none: "rounds []"
| rounds_more: "length outs = length calls \<Longrightarrow> rounds ms \<Longrightarrow>
    rounds (calls_message [] (Some calls) # answers calls outs @ ms)"

inductive_cases rounds_ConsE: "rounds (m # ms)"

lemma answers_Cons [simp]:
  "answers (c # cs) (out # outs) = tool_message (tc_id c) out # answers cs outs"
  by (simp add: answers_def)

lemma answers_Nil [simp]: "answers [] outs = []"
  by (simp add: answers_def)

lemma run_calls_conversation:
  assumes "run_calls e calls st = (r, st')"
  shows "case r of
      Inr _ \<Rightarrow> \<exists>outs. length outs = length calls \<and> conversation st' = conversation st @ answers calls outs
    | Inl err \<Rightarrow> \<exists>pre c post outs st0 name c'. calls = pre @ c # post \<and> length outs = length pre
        \<and> conversation st' = conversation st @ answers pre outs
        \<and> exec_call e c st0 = (Inl (ApprovalRequiredError name c'), st')
        \<and> err = Llm (ApprovalRequired name c')"
  using assms
proof (induction e calls st arbitrary: r st' rule: run_calls.induct)
  case (1 e st)
  then show ?case by auto
next
  case (2 e call calls st)
  obtain x st1 where ex: "exec_call e call st = (x, st1)" by (cases "exec_call e call st")
  show ?case
  proof (cases "\<exists>name c'. x = Inl (ApprovalRequiredError name c')")
    case True
    then obtain name c' where x: "x = Inl (ApprovalRequiredError name c')" by blast
    with 2(5) ex have "r = Inl (Llm (ApprovalRequired name c'))" "st' = st1" by simp_all
    with ex x conversation_exec_call [OF ex] show ?thesis
      by (simp, intro exI [of _ "[]"] exI [of _ call] exI [of _ calls]) auto
  next
    case False
    let ?st2 = "add_msg e (tool_message (tc_id call) (output_text e x)) st1"
    have rec: "run_calls e calls ?st2 = (r, st')"
      using 2(5) ex False by (cases x; cases "projl x") auto
    have IH: "case r of
        Inr _ \<Rightarrow> \<exists>outs. length outs = length calls \<and> conversation st' = conversation ?st2 @ answers calls outs
      | Inl err \<Rightarrow> \<exists>pre c post outs st0 name c'. calls = pre @ c # post \<and> length outs = length pre
        \<and> conversation st' = conversation ?st2 @ answers pre outs
        \<and> exec_call e c st0 = (Inl (ApprovalRequiredError name c'), st')
        \<and> err = Llm (ApprovalRequired name c')"
      using 2(1-4) [OF ex [symmetric]] rec False by (cases x; cases "projl x") auto
    have conv: "conversation ?st2 = conversation st @ [tool_message (tc_id call) (output_text e x)]"
      using conversation_exec_call [OF ex] by simp
    show ?thesis
    proof (cases r)
      case (Inr u)
      with IH obtain outs where "length outs = length calls"
        "conversation st' = conversation ?st2 @ answers calls outs" by auto
      with conv Inr show ?thesis
        by (auto intro!: exI [of _ "output_text e x # outs"])
    next
      case (Inl err)
      with IH obtain pre c post outs st0 name c' where "calls = pre @ c # post" "length outs = length pre"
        "conversation st' = conversation ?st2 @ answers pre outs"
        "exec_call e c st0 = (Inl (ApprovalRequiredError name c'), st')"
        "err = Llm (ApprovalRequired name c')" by auto
      with conv Inl show ?thesis
        by (simp, intro exI [of _ "call # pre"] exI [of _ c] exI [of _ post] conjI
            exI [of _ "output_text e x # outs"]) auto
    qed
  qed
qed

subsection \<open>Handling an answer\<close>

text \<open>What an answer leads to: it appends fully answered rounds, and on an error possibly one more
  round that stops before the call that needs approval.\<close>

definition interrupted :: "message list \<Rightarrow> anyhow_error \<Rightarrow> bool" where
  "interrupted ms err \<longleftrightarrow>
     (\<exists>full pre c post outs name c'. rounds full \<and> length outs = length pre
        \<and> ms = full @ calls_message [] (Some (pre @ c # post)) # answers pre outs
        \<and> err = Llm (ApprovalRequired name c'))"

lemma interrupted_more:
  assumes "length outs = length calls" and "interrupted ms err"
  shows "interrupted (calls_message [] (Some calls) # answers calls outs @ ms) err"
proof -
  from assms(2) obtain full pre c post outs' name c' where
    "rounds full" "length outs' = length pre"
    "ms = full @ calls_message [] (Some (pre @ c # post)) # answers pre outs'"
    "err = Llm (ApprovalRequired name c')" unfolding interrupted_def by blast
  moreover have "rounds (calls_message [] (Some calls) # answers calls outs @ full)"
    using assms(1) \<open>rounds full\<close> by (rule rounds_more)
  ultimately show ?thesis
    unfolding interrupted_def by (metis append.assoc append_Cons)
qed

definition answered_outcome ::
  "'w engine_state \<Rightarrow> (anyhow_error, 'a) res \<times> 'w engine_state \<Rightarrow> bool" where
  "answered_outcome st out = (case out of (r, st') \<Rightarrow>
     \<exists>ms. conversation st' = conversation st @ ms
       \<and> (case r of Inr _ \<Rightarrow> rounds ms | Inl err \<Rightarrow> rounds ms \<or> interrupted ms err))"

lemma answered_more:
  assumes "conversation st1 = conversation st @ calls_message [] (Some calls) # answers calls outs"
    and "length outs = length calls" and "answered_outcome st1 (r, st')"
  shows "answered_outcome st (r, st')"
proof -
  from assms(3) obtain ms where ms: "conversation st' = conversation st1 @ ms"
    and out: "case r of Inr _ \<Rightarrow> rounds ms | Inl err \<Rightarrow> rounds ms \<or> interrupted ms err"
    unfolding answered_outcome_def by auto
  let ?ms = "calls_message [] (Some calls) # answers calls outs @ ms"
  have "conversation st' = conversation st @ ?ms" using ms assms(1) by simp
  moreover have "case r of Inr _ \<Rightarrow> rounds ?ms | Inl err \<Rightarrow> rounds ?ms \<or> interrupted ?ms err"
    using out rounds_more [OF assms(2)] interrupted_more [OF assms(2)] by (auto split: sum.splits)
  ultimately show ?thesis unfolding answered_outcome_def by blast
qed

text \<open>The induction rule of the loop: it ends with a text, with an error of a round or of the request
  after it, or it goes on with the next answer.\<close>

lemma handle_response_induct [consumes 1, case_names final interrupt failure again]:
  assumes "handle_response e resp st = Some y"
    and final: "\<And>resp st t. lr_content resp = Text t \<Longrightarrow> P resp st (Inr (t, None), st)"
    and interrupt: "\<And>resp st calls err st1. lr_content resp = ToolCalls calls \<Longrightarrow>
      run_calls e calls (add_msg e (calls_message [] (Some calls)) st) = (Inl err, st1) \<Longrightarrow>
      P resp st (Inl err, st1)"
    and failure: "\<And>resp st calls u st1 err st2. lr_content resp = ToolCalls calls \<Longrightarrow>
      run_calls e calls (add_msg e (calls_message [] (Some calls)) st) = (Inr u, st1) \<Longrightarrow>
      ask e st1 = (Inl err, st2) \<Longrightarrow> P resp st (Inl err, st2)"
    and next_answer: "\<And>resp st calls u st1 sr st2 x st3. lr_content resp = ToolCalls calls \<Longrightarrow>
      run_calls e calls (add_msg e (calls_message [] (Some calls)) st) = (Inr u, st1) \<Longrightarrow>
      ask e st1 = (Inr sr, st2) \<Longrightarrow> P (sr_response sr) st2 (x, st3) \<Longrightarrow>
      P resp st (bind_res x (\<lambda>(t, n). Inr (t, sum_usage (lr_usage (sr_response sr)) n)), st3)"
  shows "P resp st y"
proof -
  have "e' = e \<longrightarrow> P resp st y" if "handle_response e' resp st = Some y" for e' resp st y
    using that
    apply (rule handle_response.raw_induct [where P = "\<lambda>e' resp st y. e' = e \<longrightarrow> P resp st y", rotated])
    apply (auto split: llm_response_content.splits prod.splits sum.splits Option.bind_splits
        intro: final interrupt failure next_answer)
    done
  with assms(1) show ?thesis by blast
qed

lemma handle_response_answered:
  assumes "handle_response e resp st = Some y"
  shows "answered_outcome st y"
  using assms
proof (induction rule: handle_response_induct)
  case (final resp st t)
  then show ?case by (auto simp: answered_outcome_def intro: rounds_none)
next
  case (interrupt resp st calls err st1)
  from run_calls_conversation [OF interrupt(2)] obtain pre c post outs name c' where
    "calls = pre @ c # post" "length outs = length pre" "err = Llm (ApprovalRequired name c')"
    and conv: "conversation st1 = conversation st @ calls_message [] (Some calls) # answers pre outs"
    by auto
  then have "interrupted (calls_message [] (Some calls) # answers pre outs) err"
    unfolding interrupted_def using rounds_none by (metis append_Nil)
  with conv show ?case unfolding answered_outcome_def by auto
next
  case (failure resp st calls u st1 err st2)
  from run_calls_conversation [OF failure(2)] obtain outs where "length outs = length calls"
    "conversation st2 = conversation st @ calls_message [] (Some calls) # answers calls outs"
    using conversation_ask [OF failure(3)] by auto
  moreover have "answered_outcome st2 (Inl err :: (anyhow_error, string \<times> usage option) res, st2)"
    by (auto simp: answered_outcome_def intro: rounds_none)
  ultimately show ?case using answered_more by blast
next
  case (again resp st calls u st1 sr st2 x st3)
  from run_calls_conversation [OF again(2)] obtain outs where "length outs = length calls"
    "conversation st2 = conversation st @ calls_message [] (Some calls) # answers calls outs"
    using conversation_ask [OF again(3)] by auto
  moreover have "answered_outcome st2
      (bind_res x (\<lambda>(t, n). Inr (t, sum_usage (lr_usage (sr_response sr)) n)), st3)"
    using again(4) by (cases x) (auto simp: answered_outcome_def)
  ultimately show ?case using answered_more by blast
qed

subsection \<open>When the loop ends\<close>

text \<open>
  A budget: a measure of the world that no provider call and no tool raises, and that every answer
  with tool calls lowers. A provider that asks for tools only finitely often in a row has one.
\<close>

definition budgeted :: "'w engine \<Rightarrow> ('w \<Rightarrow> nat) \<Rightarrow> bool" where
  "budgeted e f \<longleftrightarrow>
     (\<forall>p msgs sch w. case h_chat (e_host e) p msgs sch w of
        (Inr resp, w') \<Rightarrow> (case lr_content resp of Text _ \<Rightarrow> f w' \<le> f w | ToolCalls _ \<Rightarrow> f w' < f w)
      | (Inl _, w') \<Rightarrow> f w' \<le> f w)
     \<and> (\<forall>t \<in> set (e_tools e). \<forall>a w. f (snd (t_execute t a w)) \<le> f w)"

lemma budget_try_models:
  assumes "\<forall>p w. case call p w of
      (Inr resp, w') \<Rightarrow> (case lr_content resp of Text _ \<Rightarrow> f w' \<le> f w | ToolCalls _ \<Rightarrow> f w' < f w)
    | (Inl _, w') \<Rightarrow> f w' \<le> f w"
    and "try_models h cfg call as err w = (x, w')"
  shows "case x of Inr (mc, resp) \<Rightarrow>
        (case lr_content resp of Text _ \<Rightarrow> f w' \<le> f w | ToolCalls _ \<Rightarrow> f w' < (f w :: nat))
    | Inl _ \<Rightarrow> f w' \<le> f w"
  using assms(2)
proof (induction as arbitrary: err w)
  case (Cons a as)
  show ?case
  proof (cases "usable h cfg a")
    case None
    with Cons.prems have "try_models h cfg call as err w = (x, w')" unfolding try_models_Cons by simp
    then show ?thesis by (rule Cons.IH)
  next
    case (Some mp)
    obtain mc p where mp: "mp = (mc, p)" by (cases mp)
    obtain y w1 where c: "call p w = (y, w1)" by (cases "call p w")
    have b: "case y of Inr resp \<Rightarrow> (case lr_content resp of Text _ \<Rightarrow> f w1 \<le> f w | ToolCalls _ \<Rightarrow> f w1 < f w)
        | Inl _ \<Rightarrow> f w1 \<le> f w"
      using spec [OF spec [OF assms(1), of p], of w] c by simp
    show ?thesis
    proof (cases "\<exists>e1. y = Inl e1 \<and> check_fallback_allowed h e1 mc")
      case True
      then obtain e1 where y: "y = Inl e1" "check_fallback_allowed h e1 mc" by blast
      then have "try_models h cfg call as e1 w1 = (x, w')"
        using Cons.prems c Some mp unfolding try_models_Cons by simp
      from Cons.IH [OF this] b y show ?thesis
        by (fastforce split: sum.splits prod.splits llm_response_content.splits)
    next
      case False
      with Cons.prems c Some mp b show ?thesis
        unfolding try_models_Cons by (auto split: sum.splits)
    qed
  qed
qed auto

lemma budget_ask:
  assumes "budgeted e f" and "ask e st = (x, st')"
  shows "case x of Inr sr \<Rightarrow> (case lr_content (sr_response sr) of
        Text _ \<Rightarrow> f (es_world st') \<le> f (es_world st) | ToolCalls _ \<Rightarrow> f (es_world st') < f (es_world st))
    | Inl _ \<Rightarrow> f (es_world st') \<le> f (es_world st)"
proof -
  let ?call = "\<lambda>p. h_chat (e_host e) p (messages_for_llm (es_session st)) (Some (tool_schemas (e_tools e)))"
  obtain y w' where t: "try_models (e_host e) (e_cfg e) ?call (candidates (e_cfg e) (e_model e))
      no_models (es_world st) = (y, w')" by (metis surj_pair)
  have "\<forall>p w. case ?call p w of
      (Inr resp, w') \<Rightarrow> (case lr_content resp of Text _ \<Rightarrow> f w' \<le> f w | ToolCalls _ \<Rightarrow> f w' < f w)
    | (Inl _, w') \<Rightarrow> f w' \<le> f w"
    using assms(1) unfolding budgeted_def by simp
  from budget_try_models [OF this t] assms(2) t show ?thesis
    by (auto simp: ask_def client_chat_def Let_def
        split: sum.splits prod.splits llm_response_content.splits)
qed

lemma budget_dispatch:
  "\<forall>t \<in> set ts. \<forall>a w. f (snd (t_execute t a w)) \<le> f w \<Longrightarrow>
   f (snd (dispatch rx tc ts call w)) \<le> (f w :: nat)"
  by (induction ts) (auto split: prod.split sum.split dest!: spec [of _ "tc_arguments call"] dest: spec [of _ w])

lemma budget_exec_call:
  assumes "budgeted e f" and "exec_call e c st = (r, st')"
  shows "f (es_world st') \<le> f (es_world st)"
proof -
  have "f (snd (dispatch (e_rx e) (tools_cfg (e_cfg e)) (e_tools e) c (es_world st))) \<le> f (es_world st)"
    by (rule budget_dispatch) (use assms(1) in \<open>simp add: budgeted_def\<close>)
  with assms(2) show ?thesis
    by (auto simp: exec_call_def execute_tool_def Let_def split: prod.splits if_splits)
qed

lemma world_add_msg [simp]: "es_world (add_msg e m st) = es_world st"
  by (simp add: add_msg_def)

lemma budget_run_calls:
  assumes "budgeted e f" and "run_calls e calls st = (r, st')"
  shows "f (es_world st') \<le> f (es_world st)"
  using assms(2)
proof (induction calls arbitrary: st)
  case (Cons c cs)
  obtain x st1 where ex: "exec_call e c st = (x, st1)" by (cases "exec_call e c st")
  note b = budget_exec_call [OF assms(1) ex]
  let ?st2 = "add_msg e (tool_message (tc_id c) (output_text e x)) st1"
  have "st' = st1 \<or> run_calls e cs ?st2 = (r, st')"
    using Cons.prems ex by (auto split: sum.splits anyhow_error.splits)
  with b Cons.IH [of ?st2] show ?case by auto
qed simp

lemma bind_returns:
  "\<exists>y. m = Some y \<Longrightarrow> (\<And>y. \<exists>z. k y = Some z) \<Longrightarrow> \<exists>z. Option.bind m k = Some z"
  by (cases m) auto

lemma handle_response_returns:
  assumes "budgeted e f"
  shows "\<exists>y. handle_response e resp st = Some y"
proof (induction "f (es_world st) + (case lr_content resp of Text _ \<Rightarrow> 0 | ToolCalls _ \<Rightarrow> 1)"
    arbitrary: resp st rule: less_induct)
  case less
  show ?case
  proof (cases "lr_content resp")
    case (Text t)
    then show ?thesis by (simp add: handle_response.simps)
  next
    case (ToolCalls calls)
    obtain r st1 where rc: "run_calls e calls (add_msg e (calls_message [] (Some calls)) st) = (r, st1)"
      by (metis surj_pair)
    obtain q st2 where a: "ask e st1 = (q, st2)" by (metis surj_pair)
    have "f (es_world st1) \<le> f (es_world st)" using budget_run_calls [OF assms rc] by simp
    with budget_ask [OF assms a] less.hyps [of st2 "sr_response (projr q)"] ToolCalls rc a show ?thesis
      by (cases r; cases q)
        (fastforce simp: handle_response.simps [of e resp st] split: llm_response_content.splits)+
  qed
qed

lemma turn_returns:
  assumes "budgeted e f"
  shows "(\<exists>r st'. chat_with_images e txt imgs st = Some (r, st'))
    \<and> (\<exists>r st'. continue_chat e st = Some (r, st'))"
proof
  note hr = handle_response_returns [OF assms]
  have flush: "\<exists>y. memory_flush e st = Some y" for st
    unfolding memory_flush_def Let_def
    by (auto simp del: split_paired_Ex intro!: bind_returns hr split: prod.split sum.split)
  have room: "\<exists>y. make_room e st = Some y" for st
    unfolding make_room_def by (rule bind_returns) (auto simp: flush simp del: split_paired_Ex split: prod.split sum.split)
  have fin: "\<exists>y. finish_turn e st = Some y" for st
    unfolding finish_turn_def Let_def
    by (auto simp del: split_paired_Ex intro!: bind_returns hr split: prod.split sum.split)
  have "\<exists>y. chat_with_images e txt imgs st = Some y"
    unfolding chat_with_images_def
    by (auto simp del: split_paired_Ex intro!: bind_returns room fin split: prod.split sum.split)
  then show "\<exists>r st'. chat_with_images e txt imgs st = Some (r, st')" by auto
  show "\<exists>r st'. continue_chat e st = Some (r, st')"
    using hr by (auto simp: continue_chat_def split: option.split prod.split sum.split)
qed

subsection \<open>A scripted provider\<close>

text \<open>A host for the witnesses: the world is the list of answers the provider still gives.\<close>

definition scripted_host :: "llm_response list host" where
  "scripted_host =
     \<lparr>h_env = (\<lambda>v. None), h_glob = (\<lambda>p t. None), h_numeric = (\<lambda>s. False), h_display = (\<lambda>e. ''error''),
      h_elapsed = (\<lambda>w. 0),
      h_chat = (\<lambda>p msgs sch w. case w of [] \<Rightarrow> (Inr (resp_text ''ok''), []) | r # rs \<Rightarrow> (Inr r, rs)),
      h_stream = (\<lambda>p msgs sch w. (Inr [], w)),
      h_summarize = (\<lambda>p t w. (Inr ''summary'', w))\<rparr>"

definition sample_config :: "string list \<Rightarrow> app_config" where
  "sample_config guarded =
     \<lparr>models = [],
      providers = \<lparr>openai = None, anthropic = None, ollama = None, claude_cli = None, extra = []\<rparr>,
      max_tokens = 100, workspace_path = ''/ws'',
      compaction = \<lparr>strategy = ''models'', cc_fallback_models = [], keep_last = 10\<rparr>,
      tools_cfg = \<lparr>require_approval = guarded, tool_output_max_chars = 0, log_injection_warnings = False,
        use_content_delimiters = False\<rparr>,
      vision_fallback_model = ''ollama/v'', vision_fallback_prompt = ''describe''\<rparr>"

definition sample_engine :: "'w host \<Rightarrow> string list \<Rightarrow> usize \<Rightarrow> 'w engine" where
  "sample_engine h guarded window =
     \<lparr>e_rx = literal_engine, e_host = h, e_cfg = sample_config guarded, e_model = ''ollama/m'',
      context_window = window, reserve_tokens = 0, e_tools = [], e_bpe = None, e_now = (\<lambda>w. 0),
      e_today = (\<lambda>w. ''2025-01-01''),
      e_compact = native_compact None 0 h (sample_config guarded)\<rparr>"

lemma sample_engine_fields [simp]:
  "e_host (sample_engine h g n) = h" "e_cfg (sample_engine h g n) = sample_config g"
  "e_model (sample_engine h g n) = ''ollama/m''" "e_tools (sample_engine h g n) = []"
  "context_window (sample_engine h g n) = n" "reserve_tokens (sample_engine h g n) = 0"
  "e_bpe (sample_engine h g n) = None"
  by (simp_all add: sample_engine_def)

lemma sample_usable:
  "\<exists>mc p. usable h (sample_config g) ''ollama/m'' = Some (mc, p) \<and> mc_model mc = ''ollama/m''"
  by (simp add: usable_def resolve_config_def sample_config_def direct_model_def
      create_provider_from_config_def parse_provider_model_def split_once_def Let_def
      to_lowercase_def to_lowercase_char_def)

lemma sample_ask:
  assumes "\<And>p msgs sch w. h_chat h p msgs sch w = (Inr (answer w), after w)"
  shows "\<exists>sr. ask (sample_engine h g n) st = (Inr sr, st\<lparr>es_world := after (es_world st)\<rparr>)
      \<and> sr_response sr = answer (es_world st) \<and> used_model sr = ''ollama/m''"
proof -
  obtain mc p where u: "usable h (sample_config g) ''ollama/m'' = Some (mc, p)" "mc_model mc = ''ollama/m''"
    using sample_usable by blast
  have "candidates (sample_config g) ''ollama/m'' = [''ollama/m'']"
    by (simp add: candidates_def resolve_config_def sample_config_def direct_model_def)
  moreover have "try_models h (sample_config g) (\<lambda>p. h_chat h p ms ts) [''ollama/m''] no_models w
      = (Inr (mc, answer w), after w)" for ms ts w
    unfolding try_models_Cons by (simp add: u assms)
  ultimately show ?thesis
    by (simp add: ask_def client_chat_def Let_def u(2))
qed

subsection \<open>Properties of the loop\<close>

text \<open>C1: Whatever the model answers, handling it appends to the conversation only complete rounds: a
  message with the tool calls followed by exactly one result per call, in the order of the calls and
  under their identifiers. Only an approval error leaves a last round short: its results answer the
  calls before the one that needs approval, and nothing after it has run.\<close>

theorem handle_response_rounds:
  "case handle_response e resp st of
     None \<Rightarrow> True
   | Some (r, st') \<Rightarrow> \<exists>ms. conversation st' = conversation st @ ms
       \<and> (case r of Inr _ \<Rightarrow> rounds ms | Inl err \<Rightarrow> rounds ms \<or> interrupted ms err)"
  using handle_response_answered [of e resp st]
  by (auto simp: answered_outcome_def split: option.split)

text \<open>C38: A turn returns whenever the provider asks for tools only finitely often: with a budget that
  every answer with tool calls lowers, a chat and a continuation give a result, whatever the state
  they start in and whatever compaction does to the world.\<close>

theorem chat_returns:
  assumes "budgeted e f"
  shows "(\<exists>r st'. chat_with_images e txt imgs st = Some (r, st'))
    \<and> (\<exists>r st'. continue_chat e st = Some (r, st'))"
  by (rule turn_returns [OF assms])

lemma scripted_budget: "budgeted (sample_engine scripted_host g n) length"
  by (auto simp: budgeted_def scripted_host_def resp_text_def split: list.split llm_response_content.split)

theorem chat_returns_witness:
  "budgeted (sample_engine scripted_host [''bash''] 1000) length \<and>
   (\<exists>r st'. chat_with_images (sample_engine scripted_host [''bash''] 1000) ''hi'' []
      \<lparr>es_session = session_new ''id'' 0 None, es_approved = {},
       es_world = [resp_tool_calls [\<lparr>tc_id = ''1'', tc_name = ''date'', tc_arguments = ''{}''\<rparr>]]\<rparr> = Some (r, st')) \<and>
   (\<exists>r st'. continue_chat (sample_engine scripted_host [''bash''] 1000)
      \<lparr>es_session = session_new ''id'' 0 None, es_approved = {},
       es_world = [resp_tool_calls [\<lparr>tc_id = ''1'', tc_name = ''date'', tc_arguments = ''{}''\<rparr>]]\<rparr> = Some (r, st'))"
  using scripted_budget chat_returns [OF scripted_budget] by blast

text \<open>Without streaming nothing bounds the rounds. If every request is answered with tool calls
  and every round completes, the call never returns.\<close>

theorem handle_response_diverges:
  assumes "\<forall>st. \<exists>sr st'. ask e st = (Inr sr, st') \<and> (\<exists>calls. lr_content (sr_response sr) = ToolCalls calls)"
    and "\<forall>calls st. is_ok (fst (run_calls e calls st))"
    and "lr_content resp = ToolCalls calls"
  shows "handle_response e resp st = None"
proof (rule ccontr)
  assume "handle_response e resp st \<noteq> None"
  then obtain y where "handle_response e resp st = Some y" by blast
  then have "\<exists>t. lr_content resp = Text t"
  proof (induction rule: handle_response_induct)
    case (interrupt resp st calls err st1)
    with assms(2) show ?case by (metis fst_conv is_ok.simps(1))
  next
    case (failure resp st calls u st1 err st2)
    with assms(1) show ?case by (metis prod.inject sum.distinct(1))
  next
    case (again resp st calls u st1 sr st2 x st3)
    with assms(1) show ?case
      by (metis llm_response_content.distinct(1) prod.inject sum.inject(2))
  qed blast
  with assms(3) show False by simp
qed

definition eager_host :: "unit host" where
  "eager_host =
     \<lparr>h_env = (\<lambda>v. None), h_glob = (\<lambda>p t. None), h_numeric = (\<lambda>s. False), h_display = (\<lambda>e. ''error''),
      h_elapsed = (\<lambda>w. 0),
      h_chat = (\<lambda>p msgs sch w. (Inr (resp_tool_calls [\<lparr>tc_id = ''1'', tc_name = ''date'', tc_arguments = ''{}''\<rparr>]), w)),
      h_stream = (\<lambda>p msgs sch w. (Inr [], w)), h_summarize = (\<lambda>p t w. (Inr ''summary'', w))\<rparr>"

lemma run_calls_no_tools:
  "e_tools e = [] \<Longrightarrow> require_approval (tools_cfg (e_cfg e)) = [] \<Longrightarrow> is_ok (fst (run_calls e calls st))"
  by (induction calls arbitrary: st)
    (simp_all add: exec_call_def execute_tool_def requires_approval_def)

theorem handle_response_diverges_witness:
  "let e = sample_engine eager_host [] 1000;
       resp = resp_tool_calls [\<lparr>tc_id = ''1'', tc_name = ''date'', tc_arguments = ''{}''\<rparr>];
       st = \<lparr>es_session = session_new ''id'' 0 None, es_approved = {}, es_world = ()\<rparr> in
   (\<forall>st. \<exists>sr st'. ask e st = (Inr sr, st') \<and> (\<exists>calls. lr_content (sr_response sr) = ToolCalls calls))
   \<and> (\<forall>calls st. is_ok (fst (run_calls e calls st))) \<and> handle_response e resp st = None"
proof -
  let ?e = "sample_engine eager_host [] 1000"
  let ?calls = "[\<lparr>tc_id = ''1'', tc_name = ''date'', tc_arguments = ''{}''\<rparr>]"
  have h: "h_chat eager_host p ms ts w = (Inr (resp_tool_calls ?calls), w)" for p ms ts w
    by (simp add: eager_host_def)
  have a: "\<forall>st. \<exists>sr st'. ask ?e st = (Inr sr, st') \<and> (\<exists>calls. lr_content (sr_response sr) = ToolCalls calls)"
    using sample_ask [of eager_host "\<lambda>w. resp_tool_calls ?calls" "\<lambda>w. w", OF h]
    by (metis llm_response.select_convs(1) resp_tool_calls_def)
  have r: "\<forall>calls st. is_ok (fst (run_calls ?e calls st))"
    by (intro allI run_calls_no_tools) (simp_all add: sample_config_def)
  have c: "lr_content (resp_tool_calls ?calls) = ToolCalls ?calls" by (simp add: resp_tool_calls_def)
  show ?thesis
    unfolding Let_def by (intro conjI a r handle_response_diverges [OF a r c])
qed

end
