(* ===== verification/Chat_Turns.thy ===== *)
theory Chat_Turns
  imports Chat_Protocol
begin

text \<open>
  Whole turns: the continuation after an approval, what a chat and a continuation record of the reply,
  and the place of the memory flush in a turn.
\<close>

subsection \<open>The calls left to answer\<close>

lemma split_last_middle:
  "P m \<Longrightarrow> list_all (\<lambda>x. \<not> P x) ys \<Longrightarrow> split_last P (xs @ m # ys) = Some (xs, m, ys)"
proof (induction xs)
  case Nil
  then have "split_last P ys = None" by (induction ys) auto
  with Nil show ?case by simp
qed simp

lemma executed_ids_answers:
  "length outs = length calls \<Longrightarrow> executed_ids (answers calls outs) = map tc_id calls"
proof (induction outs calls rule: list_induct2)
  case Nil
  then show ?case by (simp add: executed_ids_def)
next
  case (Cons out outs c calls)
  then show ?case by (simp add: executed_ids_def tool_message_def map_filter_simps)
qed

lemma answers_no_calls: "list_all (\<lambda>m. \<not> is_calls_message m) (answers calls outs)"
  by (auto simp: list_all_iff answers_def is_calls_message_def tool_message_def)

lemma unanswered_interrupted:
  assumes "conversation st = ms @ calls_message txt (Some (pre @ rest)) # answers pre outs"
    and "length outs = length pre" and "distinct (map tc_id (pre @ rest))"
  shows "unanswered (messages_for_llm (es_session st)) = Some rest"
proof -
  have "filter (\<lambda>c. tc_id c \<notin> set (map tc_id pre)) (pre @ rest) = rest"
    using assms(3) by (auto simp: filter_empty_conv intro!: filter_True)
  moreover have "split_last is_calls_message (messages_for_llm (es_session st)) =
      Some ((case system_context (es_session st) of Some c \<Rightarrow> [text_message System c] | None \<Rightarrow> []) @ ms,
        calls_message txt (Some (pre @ rest)), answers pre outs)"
    unfolding messages_for_llm_conversation assms(1) append.assoc [symmetric]
    by (rule split_last_middle [OF _ answers_no_calls]) (simp add: is_calls_message_def calls_message_def)
  ultimately show ?thesis
    using executed_ids_answers [OF assms(2)] by (simp add: unanswered_def calls_message_def)
qed

lemma session_approved [simp]: "es_session (st\<lparr>es_approved := m\<rparr>) = es_session st"
  by simp

subsection \<open>Recording the reply\<close>

definition no_reply :: "message \<Rightarrow> bool" where
  "no_reply m \<longleftrightarrow> role m = Tool \<or> tool_calls m \<noteq> None"

lemma answers_no_reply: "list_all no_reply (answers calls outs)"
  by (auto simp: list_all_iff answers_def no_reply_def tool_message_def)

lemma rounds_no_reply: "rounds ms \<Longrightarrow> list_all no_reply ms"
  by (induction rule: rounds.induct)
    (auto simp: answers_no_reply, simp_all add: no_reply_def calls_message_def)

lemma add_metadata_last:
  "messages s \<noteq> [] \<Longrightarrow>
   messages (add_metadata_to_last_message (Some n) (Some l) s) =
     butlast (messages s) @ [(last (messages s))\<lparr>model_config_name := Some n, latency_ms := Some l\<rparr>]"
  by (simp add: add_metadata_to_last_message_def Let_def)

subsection \<open>Properties\<close>

text \<open>C8: After an interruption the continuation takes up exactly where the round stopped. The calls
  before the refused one have their results in the conversation and do not run again; whatever the
  register of approvals is then, the refused call and those after it run, in order, and only when all
  of them have results is the model asked again.\<close>

theorem continue_chat_resumes:
  assumes "run_calls e calls (add_msg e (calls_message txt (Some calls)) st) = (Inl err, st1)"
    and "distinct (map tc_id calls)"
  shows "\<exists>pre c post outs. calls = pre @ c # post \<and> length outs = length pre
    \<and> conversation st1 = conversation st @ calls_message txt (Some calls) # answers pre outs
    \<and> continue_chat e (st1\<lparr>es_approved := m\<rparr>) =
       (case run_calls e (c # post) (st1\<lparr>es_approved := m\<rparr>) of
          (Inl err', st2) \<Rightarrow> Some (Inl err', st2)
        | (Inr _, st2) \<Rightarrow>
            (case ask e st2 of
               (Inl err', st3) \<Rightarrow> Some (Inl err', st3)
             | (Inr sr, st3) \<Rightarrow> handle_response e (sr_response sr) st3))"
proof -
  from run_calls_conversation [OF assms(1)] obtain pre c post outs where
    cs: "calls = pre @ c # post" and outs: "length outs = length pre"
    and conv: "conversation st1 = conversation st @ calls_message txt (Some calls) # answers pre outs"
    by auto
  have "unanswered (messages_for_llm (es_session (st1\<lparr>es_approved := m\<rparr>))) = Some (c # post)"
    by (rule unanswered_interrupted [where pre = pre and outs = outs])
      (use conv cs outs assms(2) in simp_all)
  then have "continue_chat e (st1\<lparr>es_approved := m\<rparr>) =
       (case run_calls e (c # post) (st1\<lparr>es_approved := m\<rparr>) of
          (Inl err', st2) \<Rightarrow> Some (Inl err', st2)
        | (Inr _, st2) \<Rightarrow>
            (case ask e st2 of
               (Inl err', st3) \<Rightarrow> Some (Inl err', st3)
             | (Inr sr, st3) \<Rightarrow> handle_response e (sr_response sr) st3))"
    by (simp only: continue_chat_def option.case)
  with cs outs conv show ?thesis by blast
qed

abbreviation sample_calls :: "tool_call list" where
  "sample_calls \<equiv> [\<lparr>tc_id = ''1'', tc_name = ''date'', tc_arguments = ''{}''\<rparr>,
     \<lparr>tc_id = ''2'', tc_name = ''bash'', tc_arguments = ''{}''\<rparr>]"

abbreviation sample_state :: "llm_response list engine_state" where
  "sample_state \<equiv> \<lparr>es_session = session_new ''id'' 0 None, es_approved = {}, es_world = []\<rparr>"

theorem continue_chat_resumes_witness:
  "\<exists>err st1 pre c post outs.
     run_calls (sample_engine scripted_host [''bash''] 1000) sample_calls
       (add_msg (sample_engine scripted_host [''bash''] 1000) (calls_message [] (Some sample_calls)) sample_state)
       = (Inl err, st1)
     \<and> distinct (map tc_id sample_calls)
     \<and> sample_calls = pre @ c # post \<and> length outs = length pre
     \<and> conversation st1 = conversation sample_state @ calls_message [] (Some sample_calls) # answers pre outs"
proof -
  let ?e = "sample_engine scripted_host [''bash''] 1000"
  let ?st = "add_msg ?e (calls_message [] (Some sample_calls)) sample_state"
  have d: "distinct (map tc_id sample_calls)" by simp
  obtain r st1 where rc: "run_calls ?e sample_calls ?st = (r, st1)" by (metis surj_pair)
  have "\<exists>err. r = Inl err"
    using rc by (auto simp: exec_call_def execute_tool_def requires_approval_def consume_def
        sample_config_def add_msg_def Let_def split: prod.splits)
  then obtain err where "run_calls ?e sample_calls ?st = (Inl err, st1)" using rc by blast
  with continue_chat_resumes [OF this d, of "{}"] d show ?thesis by blast
qed

text \<open>A chat that returns a reply has recorded it: the last message of the session is the
  assistant's, with the reply as its text and the name of the model that gave the first answer of the
  turn.\<close>

theorem chat_records_reply:
  "case chat_with_images e txt imgs st of
     Some (Inr (reply, u), st') \<Rightarrow>
       \<exists>sms sm. messages (es_session st') = sms @ [sm] \<and> sm_message sm = text_message Assistant reply
         \<and> (\<exists>name. model_config_name sm = Some name) \<and> (\<exists>n. latency_ms sm = Some n)
   | _ \<Rightarrow> True"
proof -
  have fin: "\<exists>sms sm. messages (es_session st') = sms @ [sm] \<and> sm_message sm = text_message Assistant reply
         \<and> (\<exists>name. model_config_name sm = Some name) \<and> (\<exists>n. latency_ms sm = Some n)"
    if "finish_turn e st1 = Some (Inr (reply, u), st')" for st1 reply u st'
    using that
    by (auto simp: finish_turn_def Let_def add_metadata_last add_msg_def add_message_def sm_new_def
        split: prod.splits sum.splits Option.bind_splits)
  show ?thesis
    by (auto simp: chat_with_images_def split: option.split prod.splits sum.splits Option.bind_splits
        dest!: fin)
qed

text \<open>A continuation that returns a reply has not recorded it: it appends results of tools and
  requests for tools, and no message with the reply, so that the next turn does not see it.\<close>

theorem continue_chat_drops_reply:
  "case continue_chat e st of
     Some (Inr (reply, u), st') \<Rightarrow>
       \<exists>new. conversation st' = conversation st @ new \<and> list_all no_reply new
   | _ \<Rightarrow> True"
proof -
  have "\<exists>new. conversation st' = conversation st @ new \<and> list_all no_reply new"
    if "continue_chat e st = Some (Inr (reply, u), st')" for reply u st'
  proof -
    from that obtain calls st1 sr st2 where rc: "run_calls e calls st = (Inr (), st1)"
      and a: "ask e st1 = (Inr sr, st2)" and h: "handle_response e (sr_response sr) st2 = Some (Inr (reply, u), st')"
      by (auto simp: continue_chat_def split: option.splits prod.splits sum.splits)
    from run_calls_conversation [OF rc] obtain outs where "conversation st1 = conversation st @ answers calls outs"
      by auto
    moreover from handle_response_answered [OF h] obtain ms where
      "conversation st' = conversation st2 @ ms" "rounds ms" by (auto simp: answered_outcome_def)
    ultimately show ?thesis
      using conversation_ask [OF a] answers_no_reply rounds_no_reply
      by (intro exI [of _ "answers calls outs @ ms"]) simp
  qed
  then show ?thesis by (auto split: option.split prod.split sum.split)
qed

text \<open>The memory flush runs between the user's message and the request it belongs to. When it is
  due and no compaction follows, the conversation sent to the model for the user's message ends with
  the assistant's reply to the flush, not with the user's message.\<close>

theorem flush_reply_closes_request:
  assumes "manager_should_memory_flush (context_window e) (reserve_tokens e) (es_session st)"
    and "memory_flush e st = Some (Inr (), st1)"
    and "\<not> should_compact (e_bpe e) (context_window e) (reserve_tokens e) (es_session st1)"
  shows "make_room e st = Some (Inr (), st1)
    \<and> (\<exists>t. last (messages_for_llm (es_session st1)) = text_message Assistant t)"
proof
  show "make_room e st = Some (Inr (), st1)" using assms by (simp add: make_room_def)
  from assms(2) obtain t st4 where "st1 = add_msg e (text_message Assistant t) st4"
    by (auto simp: memory_flush_def Let_def split: prod.splits sum.splits Option.bind_splits)
  then show "\<exists>t. last (messages_for_llm (es_session st1)) = text_message Assistant t"
    by (auto simp: messages_for_llm_conversation)
qed

theorem flush_reply_closes_request_witness:
  "let e = sample_engine scripted_host [] 4000;
       st = add_msg e (text_message User ''hello'') sample_state in
   manager_should_memory_flush (context_window e) (reserve_tokens e) (es_session st)
   \<and> (\<exists>st1. memory_flush e st = Some (Inr (), st1)
        \<and> \<not> should_compact (e_bpe e) (context_window e) (reserve_tokens e) (es_session st1)
        \<and> make_room e st = Some (Inr (), st1)
        \<and> (\<exists>t. last (messages_for_llm (es_session st1)) = text_message Assistant t))"
proof -
  let ?e = "sample_engine scripted_host [] 4000 :: llm_response list engine"
  let ?st = "add_msg ?e (text_message User ''hello'') sample_state"
  let ?st2 = "add_msg ?e (text_message User (flush_prompt ''2025-01-01''))
      (?st\<lparr>es_session := mark_memory_flushed (es_session ?st)\<rparr>)"
  let ?st1 = "add_msg ?e (text_message Assistant ''ok'') ?st2"
  have h: "h_chat scripted_host p ms ts w = (Inr (case w of [] \<Rightarrow> resp_text ''ok'' | r # rs \<Rightarrow> r), tl w)"
    for p ms ts w by (simp add: scripted_host_def split: list.split)
  obtain sr where sr: "ask ?e ?st2 = (Inr sr, ?st2\<lparr>es_world := []\<rparr>)" "sr_response sr = resp_text ''ok''"
    using sample_ask [of scripted_host "\<lambda>w. case w of [] \<Rightarrow> resp_text ''ok'' | r # rs \<Rightarrow> r" tl, OF h, of "[]" 4000 ?st2]
    by (auto simp: add_msg_def)
  have w: "?st2\<lparr>es_world := []\<rparr> = ?st2" by (simp add: add_msg_def)
  have today: "e_today ?e x = ''2025-01-01''" for x by (simp add: sample_engine_def)
  have due: "manager_should_memory_flush (context_window ?e) (reserve_tokens ?e) (es_session ?st)"
    by (simp add: manager_should_memory_flush_def saturating_sub_def MEMORY_FLUSH_SOFT_THRESHOLD_def
        should_memory_flush_def add_msg_def add_message_def session_new_def new_with_cwd_def
        count_tokens_default_def text_message_def)
  have fl: "memory_flush ?e ?st = Some (Inr (), ?st1)"
    using sr w by (simp add: memory_flush_def Let_def today handle_response.simps resp_text_def)
  have room: "\<not> should_compact (e_bpe ?e) (context_window ?e) (reserve_tokens ?e) (es_session ?st1)"
    by (simp add: should_compact_def strategy_should_compact_def add_msg_def add_message_def session_new_def
        new_with_cwd_def count_tokens_default_def text_message_def flush_prompt_def SILENT_REPLY_TOKEN_def
        nl2_def mark_memory_flushed_def)
  show ?thesis
    unfolding Let_def using due fl room flush_reply_closes_request [OF due fl room] by blast
qed

end
