(* ===== verification/Chat_Streaming.thy ===== *)
theory Chat_Streaming
  imports Chat_Turns
begin

text \<open>
  The streaming loop: which items it yields, how they agree with what is recorded in the session, and
  that it ends.
\<close>

subsection \<open>Items and messages\<close>

fun closing :: "stream_item \<Rightarrow> bool" where
  "closing (Inl _) = True"
| "closing (Inr Done) = True"
| "closing (Inr (ApprovalRequiredEv _ _ _)) = True"
| "closing (Inr _) = False"

fun start_allowed :: "tools_config \<Rightarrow> stream_item \<Rightarrow> bool" where
  "start_allowed tc (Inr (ToolCallStart name _ _)) = (\<not> requires_approval tc name)"
| "start_allowed tc _ = True"

fun stream_item_text :: "stream_item \<Rightarrow> string" where
  "stream_item_text (Inr (Content d)) = d"
| "stream_item_text _ = []"

fun item_result :: "stream_item \<Rightarrow> (string \<times> string) list" where
  "item_result (Inr (ToolCallEnd name i out)) = [(i, out)]"
| "item_result _ = []"

definition message_text :: "message \<Rightarrow> string" where
  "message_text m = (if role m = Assistant then content m else [])"

definition message_result :: "message \<Rightarrow> (string \<times> string) list" where
  "message_result m = (case tool_call_id m of Some i \<Rightarrow> [(i, content m)] | None \<Rightarrow> [])"

definition texts :: "stream_item list \<Rightarrow> string" where
  "texts items = concat (map stream_item_text items)"

definition results :: "stream_item list \<Rightarrow> (string \<times> string) list" where
  "results items = concat (map item_result items)"

definition recorded_text :: "message list \<Rightarrow> string" where
  "recorded_text ms = concat (map message_text ms)"

definition recorded_results :: "message list \<Rightarrow> (string \<times> string) list" where
  "recorded_results ms = concat (map message_result ms)"

lemmas stream_views = texts_def results_def recorded_text_def recorded_results_def

text \<open>A stretch of the stream that does not close it: its text and its results are recorded.\<close>

definition stretch ::
  "'w engine \<Rightarrow> 'w engine_state \<Rightarrow> stream_item list \<Rightarrow> message list \<Rightarrow> 'w engine_state \<Rightarrow> bool" where
  "stretch e st items new st' \<longleftrightarrow>
     conversation st' = conversation st @ new \<and> es_approved st' = es_approved st
     \<and> list_all (start_allowed (tools_cfg (e_cfg e))) items \<and> list_all (\<lambda>i. \<not> closing i) items
     \<and> results items = recorded_results new \<and> texts items = recorded_text new"

text \<open>A whole stream: a stretch, then possibly text that an error kept from being recorded, then the
  closing item.\<close>

definition whole_stream ::
  "'w engine \<Rightarrow> nat \<Rightarrow> 'w engine_state \<Rightarrow> stream_item list \<Rightarrow> 'w engine_state \<Rightarrow> bool" where
  "whole_stream e n st items st' \<longleftrightarrow>
     (\<exists>body lost z new. items = body @ lost @ [z] \<and> closing z
        \<and> stretch e st body new st' \<and> list_all (\<lambda>i. \<exists>d. i = Inr (Content d)) lost
        \<and> (lost = [] \<or> (\<exists>err. z = Inl err))
        \<and> length (filter is_calls_message new) \<le> n)"

lemma stretch_append:
  "stretch e st items new st1 \<Longrightarrow> stretch e st1 items' new' st2 \<Longrightarrow>
   stretch e st (items @ items') (new @ new') st2"
  by (simp add: stretch_def stream_views)

lemma stretch_Nil: "stretch e st [] [] st"
  by (simp add: stretch_def stream_views)

lemma whole_stream_close:
  assumes "stretch e st body new st'" and "closing z" and "length (filter is_calls_message new) \<le> n"
  shows "whole_stream e n st (body @ [z]) st'"
  unfolding whole_stream_def
  by (intro exI [of _ body] exI [of _ "[]"] exI [of _ z] exI [of _ new]) (use assms in simp)

lemma whole_stream_extend:
  assumes "stretch e st items new st1" and "whole_stream e n st1 items' st2"
    and "length (filter is_calls_message new) \<le> 1"
  shows "whole_stream e (Suc n) st (items @ items') st2"
proof -
  from assms(2) obtain body lost z new' where "items' = body @ lost @ [z]" "closing z"
    "stretch e st1 body new' st2" "list_all (\<lambda>i. \<exists>d. i = Inr (Content d)) lost"
    "lost = [] \<or> (\<exists>err. z = Inl err)" "length (filter is_calls_message new') \<le> n"
    unfolding whole_stream_def by blast
  with stretch_append [OF assms(1)] assms(3) show ?thesis
    unfolding whole_stream_def
    by (intro exI [of _ "items @ body"] exI [of _ lost] exI [of _ z] exI [of _ "new @ new'"]) auto
qed

lemma read_chunks_items:
  "read_chunks chunks full_text calls = (items, err, full', calls') \<Longrightarrow>
   list_all (\<lambda>i. \<exists>d. i = Inr (Content d)) items \<and> (err = None \<longrightarrow> full' = full_text @ texts items)"
proof (induction chunks full_text calls arbitrary: items err full' calls' rule: read_chunks.induct)
  case (3 chunk chunks full_text calls)
  then show ?case by (fastforce simp: Let_def texts_def split: prod.splits if_splits)
qed (auto simp: texts_def)

lemma approved_add_msg [simp]: "es_approved (add_msg e m st) = es_approved st"
  by (simp add: add_msg_def)

lemma approved_ask_stream: "ask_stream e st = (r, st') \<Longrightarrow> es_approved st' = es_approved st"
  by (auto simp: ask_stream_def Let_def split: prod.splits)

lemma approved_exec_call:
  "exec_call e c st = (r, st') \<Longrightarrow> \<not> requires_approval (tools_cfg (e_cfg e)) (tc_name c) \<Longrightarrow>
   es_approved st' = es_approved st"
  by (auto simp: exec_call_def execute_tool_unguarded Let_def split: prod.splits)

lemma tool_not_calls [simp]: "\<not> is_calls_message (tool_message i out)"
  by (simp add: is_calls_message_def tool_message_def)

lemma stream_calls_stretch:
  assumes "stream_calls e calls st = (items, go_on, st')"
  shows "\<exists>body new. stretch e st body new st' \<and> filter is_calls_message new = []
     \<and> (if go_on then items = body
        else \<exists>name i a. items = body @ [Inr (ApprovalRequiredEv name i a)])"
  using assms
proof (induction e calls st arbitrary: items go_on st' rule: stream_calls.induct)
  case (1 e st)
  then show ?case using stretch_Nil [of e st] by (intro exI [of _ "[]"]) auto
next
  case (2 e call calls st)
  show ?case
  proof (cases "requires_approval (tools_cfg (e_cfg e)) (tc_name call)")
    case True
    with 2(2) show ?thesis using stretch_Nil by (intro exI [of _ "[]"]) auto
  next
    case False
    obtain r st1 where ex: "exec_call e call st = (r, st1)" by (cases "exec_call e call st")
    let ?m = "tool_message (tc_id call) (output_text e r)"
    let ?start = "[Inr (ToolCallStart (tc_name call) (tc_id call) (tc_arguments call)),
        Inr (ToolCallEnd (tc_name call) (tc_id call) (output_text e r))]"
    obtain items2 where rec: "stream_calls e calls (add_msg e ?m st1) = (items2, go_on, st')"
      and items: "items = ?start @ items2"
      using 2(2) False ex by (auto simp: Let_def split: prod.splits)
    from 2(1) [OF False ex [symmetric] refl refl rec]
    obtain body new where IH: "stretch e (add_msg e ?m st1) body new st'" "filter is_calls_message new = []"
      "if go_on then items2 = body else \<exists>name i a. items2 = body @ [Inr (ApprovalRequiredEv name i a)]"
      by blast
    have "stretch e st ?start [?m] (add_msg e ?m st1)"
      using False conversation_exec_call [OF ex] approved_exec_call [OF ex False]
      by (simp add: stretch_def stream_views message_text_def message_result_def tool_message_def)
    from stretch_append [OF this IH(1)] IH(2,3) items show ?thesis
      by (intro exI [of _ "?start @ body"] exI [of _ "?m # new"])
        (auto simp: tool_not_calls split: if_splits)
  qed
qed

lemma stretch_answer:
  assumes "ask_stream e st = (Inr chunks, st1)" and "read_chunks chunks [] None = (items, None, full_text, calls)"
  shows "stretch e st items (if full_text \<noteq> [] \<or> calls \<noteq> None then [calls_message full_text calls] else [])
     (if full_text \<noteq> [] \<or> calls \<noteq> None then add_msg e (calls_message full_text calls) st1 else st1)"
proof -
  from read_chunks_items [OF assms(2)]
  have c: "list_all (\<lambda>i. \<exists>d. i = Inr (Content d)) items" and t: "full_text = texts items" by simp_all
  from c have "list_all (start_allowed (tools_cfg (e_cfg e))) items" "list_all (\<lambda>i. \<not> closing i) items"
    "results items = []"
    by (induction items) (auto simp: results_def)
  then show ?thesis
    using conversation_ask_stream [OF assms(1)] approved_ask_stream [OF assms(1)] t
    by (simp add: stretch_def recorded_text_def recorded_results_def message_text_def message_result_def
        calls_message_def)
qed

lemma stream_tools_whole:
  assumes "stretch e st items1 [m] st2" and "stream_calls e calls st2 = (items2, go_on, st3)"
    and rounds: "\<And>items3. stream_rounds e n st3 = (items3, st') \<Longrightarrow> whole_stream e n st3 items3 st'"
    and "(if go_on then let (items3, st4) = stream_rounds e n st3 in (items1 @ items2 @ items3, st4)
          else (items1 @ items2, st3)) = (items, st')"
  shows "whole_stream e (Suc n) st items st'"
proof -
  from stream_calls_stretch [OF assms(2)] obtain body new where s2: "stretch e st2 body new st3"
    "filter is_calls_message new = []"
    "if go_on then items2 = body else \<exists>name i a. items2 = body @ [Inr (ApprovalRequiredEv name i a)]"
    by blast
  have s12: "stretch e st (items1 @ body) (m # new) st3"
    using stretch_append [OF assms(1) s2(1)] by simp
  have few: "length (filter is_calls_message (m # new)) \<le> 1" using s2(2) by simp
  show ?thesis
  proof (cases go_on)
    case True
    with assms(4) s2(3) obtain items3 where
      "stream_rounds e n st3 = (items3, st')" "items = (items1 @ body) @ items3"
      by (auto simp: Let_def split: prod.splits)
    with whole_stream_extend [OF s12 rounds few] show ?thesis by simp
  next
    case False
    with assms(4) s2(3) obtain name i a where
      "items = (items1 @ body) @ [Inr (ApprovalRequiredEv name i a)]" "st' = st3" by auto
    with whole_stream_close [OF s12, of "Inr (ApprovalRequiredEv name i a)" "Suc n"] few
    show ?thesis by simp
  qed
qed

lemma stream_rounds_whole:
  "stream_rounds e n st = (items, st') \<Longrightarrow> whole_stream e n st items st'"
proof (induction n arbitrary: st items)
  case 0
  with whole_stream_close [OF stretch_Nil, of "Inl (Msg ''Max tool iterations exceeded'')" 0 e st]
  show ?case by simp
next
  case (Suc n)
  obtain r st1 where a: "ask_stream e st = (r, st1)" by (cases "ask_stream e st")
  have quiet: "stretch e st [] [] st1"
    using conversation_ask_stream [OF a] approved_ask_stream [OF a] by (simp add: stretch_def stream_views)
  show ?case
  proof (cases r)
    case (Inl err)
    with Suc.prems a whole_stream_close [OF quiet, of "Inl err"] show ?thesis by simp
  next
    case (Inr chunks)
    obtain items1 failure full_text calls where
      rd: "read_chunks chunks [] None = (items1, failure, full_text, calls)" by (metis prod_cases4)
    show ?thesis
    proof (cases failure)
      case (Some err)
      with Suc.prems a Inr rd have "items = items1 @ [Inl err]" "st' = st1" by simp_all
      with quiet read_chunks_items [OF rd] show ?thesis
        unfolding whole_stream_def
        by (intro exI [of _ "[]"] exI [of _ items1] exI [of _ "Inl err"]) auto
    next
      case None
      note s1 = stretch_answer [OF a [unfolded Inr] rd [unfolded None]]
      show ?thesis
      proof (cases calls)
        case no_calls: None
        with Suc.prems a Inr rd None have "items = items1 @ [Inr Done]"
          "st' = (if full_text \<noteq> [] then add_msg e (calls_message full_text None) st1 else st1)"
          by simp_all
        with whole_stream_close [OF s1, of "Inr Done" "Suc n"] no_calls show ?thesis
          by (simp split: if_splits)
      next
        case (Some cs)
        let ?st2 = "add_msg e (calls_message full_text calls) st1"
        obtain items2 go_on st3 where sc: "stream_calls e cs ?st2 = (items2, go_on, st3)" by (metis prod_cases3)
        from Some s1 have "stretch e st items1 [calls_message full_text calls] ?st2" by simp
        from stream_tools_whole [OF this sc Suc.IH] Suc.prems a Inr rd None Some sc
        show ?thesis by simp
      qed
    qed
  qed
qed

subsection \<open>Properties\<close>

text \<open>C13: A stream with tools ends after at most ten rounds with exactly one closing item: the end, a
  request for approval or an error. No tool that requires approval is started and no approval is used
  up. The results it yields are those recorded in the session, and so is the text it yields, except
  for the text of an answer that an error cut short.\<close>

theorem stream_with_tool_loop_spec:
  "case stream_with_tool_loop e st of (items, st') \<Rightarrow>
     \<exists>body lost z new. items = body @ lost @ [z] \<and> closing z \<and> list_all (\<lambda>i. \<not> closing i) (body @ lost)
       \<and> list_all (start_allowed (tools_cfg (e_cfg e))) items
       \<and> es_approved st' = es_approved st
       \<and> conversation st' = conversation st @ new
       \<and> results items = recorded_results new \<and> texts body = recorded_text new
       \<and> (case z of Inl _ \<Rightarrow> True | Inr _ \<Rightarrow> lost = [])
       \<and> length (filter is_calls_message new) \<le> 10"
proof -
  obtain items st' where s: "stream_rounds e 10 st = (items, st')" by (metis surj_pair)
  from stream_rounds_whole [OF this] obtain body lost z new where
    w: "items = body @ lost @ [z]" "closing z" "stretch e st body new st'"
    "list_all (\<lambda>i. \<exists>d. i = Inr (Content d)) lost" "lost = [] \<or> (\<exists>err. z = Inl err)"
    "length (filter is_calls_message new) \<le> 10" unfolding whole_stream_def by blast
  from w(4) have "list_all (\<lambda>i. \<not> closing i) lost" "list_all (start_allowed (tools_cfg (e_cfg e))) lost"
    "results lost = []"
    by (induction lost) (auto simp: results_def)
  moreover from w(2) have "start_allowed (tools_cfg (e_cfg e)) z" "item_result z = []"
    by (cases z rule: closing.cases; simp)+
  ultimately show ?thesis
    using s w unfolding stream_with_tool_loop_def stretch_def
    by (simp, intro exI [of _ body] exI [of _ lost] exI [of _ z] exI [of _ new])
      (auto simp: results_def split: sum.split)
qed

end
