(* ===== verification/Memory_Context.thy ===== *)
theory Memory_Context
  imports Sanitizer Model_Config
begin

text \<open>
  The workspace context put behind the system prompt (\<^verbatim>\<open>src/src/agent/memory_context.rs\<close>). The files of
  the memory manager are its argument: what reading each of them gives.
\<close>

record memory_files =
  brand_new :: bool
  identity_file :: "(anyhow_error, string) res"
  user_file :: "(anyhow_error, string) res"
  soul_file :: "(anyhow_error, string) res"
  agents_file :: "(anyhow_error, string) res"
  tools_file :: "(anyhow_error, string) res"
  memory_file :: "(anyhow_error, string) res"
  recent_daily_logs :: "(anyhow_error, string) res"
  heartbeat_file :: "(anyhow_error, string) res"

abbreviation apos :: string where
  "apos \<equiv> [CHR 0x27]"

definition FIRST_RUN_WELCOME :: string where
  "FIRST_RUN_WELCOME = join nl
     [''# Welcome to Zier Alpha'',
      [],
      ''This is your first session. I'' @ apos @ ''ve set up a fresh workspace for you.'',
      [],
      ''## Quick Start'',
      [],
      ''1. **Just chat** - I'' @ apos @ ''m ready to help with coding, writing, research, or anything else'',
      ''2. **Your memory files** are in the workspace:'',
      ''   - `MEMORY.md` - I'' @ apos @ ''ll remember important things here'',
      ''   - `SOUL.md` - Customize my personality and behavior'',
      ''   - `HEARTBEAT.md` - Tasks for autonomous mode'',
      [],
      ''## Tell Me About Yourself'',
      [],
      ''What'' @ apos @ ''s your name? What kind of projects do you work on? Any preferences for how I should communicate?'',
      [],
      ''I'' @ apos @ ''ll save what I learn to MEMORY.md so I remember it next time.'']"

abbreviation rule_line :: string where
  "rule_line \<equiv> nl2 @ ''---'' @ nl2"

text \<open>One of the eight blocks of \<open>build_memory_context\<close>: a file that cannot be read or is empty gives
  nothing.\<close>

definition context_section ::
  "bool \<Rightarrow> string \<Rightarrow> memory_source \<Rightarrow> string \<Rightarrow> string \<Rightarrow> (anyhow_error, string) res \<Rightarrow> string" where
  "context_section use_delimiters file_name source header trailer r =
     (case r of
        Inl _ \<Rightarrow> []
      | Inr txt \<Rightarrow>
          if txt = [] then []
          else (if use_delimiters then wrap_memory_content file_name txt source else header @ txt) @ trailer)"

definition build_memory_context :: "tools_config \<Rightarrow> memory_files \<Rightarrow> (anyhow_error, string) res" where
  "build_memory_context tc mf =
     (let d = use_content_delimiters tc in
      Inr ((if brand_new mf then FIRST_RUN_WELCOME @ rule_line else [])
       @ context_section d ''IDENTITY.md'' Identity (''# Identity (IDENTITY.md)'' @ nl2) rule_line (identity_file mf)
       @ context_section d ''USER.md'' UserInfo (''# User Info (USER.md)'' @ nl2) rule_line (user_file mf)
       @ context_section d ''SOUL.md'' Soul [] rule_line (soul_file mf)
       @ context_section d ''AGENTS.md'' Agents (''# Available Agents (AGENTS.md)'' @ nl2) rule_line (agents_file mf)
       @ context_section d ''TOOLS.md'' Tools (''# Tool Notes (TOOLS.md)'' @ nl2) rule_line (tools_file mf)
       @ context_section d ''MEMORY.md'' Memory (''# Long-term Memory (MEMORY.md)'' @ nl2) nl2 (memory_file mf)
       @ context_section d ''memory/*.md'' DailyLog (''# Recent Daily Logs'' @ nl2) nl2 (recent_daily_logs mf)
       @ context_section d ''HEARTBEAT.md'' Heartbeat (''# Pending Tasks (HEARTBEAT.md)'' @ nl2) nl (heartbeat_file mf)))"

definition has_text :: "(anyhow_error, string) res \<Rightarrow> bool" where
  "has_text r = (case r of Inr t \<Rightarrow> t \<noteq> [] | Inl _ \<Rightarrow> False)"

lemma context_section_empty_iff:
  "tr \<noteq> [] \<Longrightarrow> context_section d f src h tr r = [] \<longleftrightarrow> \<not> has_text r"
  by (auto simp: context_section_def has_text_def split: sum.split)

lemma FIRST_RUN_WELCOME_not_empty: "FIRST_RUN_WELCOME \<noteq> []"
  by (simp add: FIRST_RUN_WELCOME_def)

text \<open>Building the workspace context never fails, and it is empty exactly when the workspace is not
  brand new and no memory file has text: only then is the system prompt left alone.\<close>

theorem build_memory_context_empty:
  "\<exists>ctx. build_memory_context tc mf = Inr ctx \<and>
     (ctx = [] \<longleftrightarrow> \<not> brand_new mf \<and>
        list_all (\<lambda>r. \<not> has_text r) [identity_file mf, user_file mf, soul_file mf, agents_file mf,
          tools_file mf, memory_file mf, recent_daily_logs mf, heartbeat_file mf])"
  unfolding build_memory_context_def Let_def
  by (intro exI, rule conjI, rule refl)
    (simp add: context_section_empty_iff nl2_def FIRST_RUN_WELCOME_not_empty)

end
