(* ===== verification/Agent_Core.thy ===== *)
theory Agent_Core
  imports Chat_Streaming Memory_Context
begin

text \<open>
  The agent (\<^verbatim>\<open>src/src/agent/mod.rs\<close>) over the chat engine, the registry its tools come from
  (\<^verbatim>\<open>src/src/agent/tools/registry.rs\<close>) and the map of sessions shared by all agents
  (\<^verbatim>\<open>src/src/state/session_manager.rs\<close>).

  The system prompt is an argument: it is built by \<^verbatim>\<open>src/src/agent/system_prompt.rs\<close> or by a script. The
  session a call of \<open>Session::new\<close> makes, with its new identifier, is an argument as well.
\<close>

subsection \<open>The agent\<close>

record 'w agent =
  ag_engine :: "'w engine"
  ag_usage :: usage
  ag_status_lines :: "string list"

definition set_tools :: "'w tool list \<Rightarrow> 'w agent \<Rightarrow> 'w agent" where
  "set_tools ts a = a\<lparr>ag_engine := (ag_engine a)\<lparr>e_tools := ts\<rparr>\<rparr>"

definition set_model :: "string \<Rightarrow> 'w agent \<Rightarrow> 'w agent" where
  "set_model m a = a\<lparr>ag_engine := (ag_engine a)\<lparr>e_model := m\<rparr>\<rparr>"

definition set_status_lines :: "string list \<Rightarrow> 'w agent \<Rightarrow> 'w agent" where
  "set_status_lines ls a = a\<lparr>ag_status_lines := ls\<rparr>"

definition add_usage :: "usage option \<Rightarrow> 'w agent \<Rightarrow> 'w agent" where
  "add_usage u a =
     (case u of None \<Rightarrow> a
      | Some v \<Rightarrow> a\<lparr>ag_usage := \<lparr>input_tokens = input_tokens (ag_usage a) + input_tokens v,
                                 output_tokens = output_tokens (ag_usage a) + output_tokens v\<rparr>\<rparr>)"

definition context_usage :: "'w agent \<Rightarrow> 'w engine_state \<Rightarrow> usize \<times> usize \<times> usize" where
  "context_usage a st =
     (token_count (es_session st),
      saturating_sub (context_window (ag_engine a)) (reserve_tokens (ag_engine a)),
      context_window (ag_engine a))"

fun export_role :: "role \<Rightarrow> string" where
  "export_role User = ''**User**''"
| "export_role Assistant = ''**Assistant**''"
| "export_role System = ''**System**''"
| "export_role Tool = ''**Tool**''"

definition export_markdown :: "'w agent \<Rightarrow> session \<Rightarrow> string" where
  "export_markdown a s =
     ''# Zier Alpha Session Export'' @ nl2 @ ''Model: '' @ e_model (ag_engine a) @ nl
     @ ''Session ID: '' @ s_id s @ nl2 @ ''---'' @ nl2
     @ concat (map (\<lambda>sm. export_role (role (sm_message sm)) @ nl2 @ content (sm_message sm) @ nl2 @ ''---'' @ nl2)
         (messages s))"

definition full_context :: "string \<Rightarrow> string \<Rightarrow> string" where
  "full_context system_prompt memory_context =
     (if memory_context = [] then system_prompt
      else system_prompt @ nl2 @ ''---'' @ nl2 @ ''# Workspace Context'' @ nl2 @ memory_context)"

definition agent_new_session ::
  "memory_files \<Rightarrow> string \<Rightarrow> session \<Rightarrow> 'w agent \<Rightarrow> 'w engine_state
   \<Rightarrow> (anyhow_error, unit) res \<times> 'w engine_state" where
  "agent_new_session mf system_prompt fresh a st =
     (case build_memory_context (tools_cfg (e_cfg (ag_engine a))) mf of
        Inl e \<Rightarrow> (Inl e, st)
      | Inr ctx \<Rightarrow>
          (Inr (), st\<lparr>es_session := new_session (e_bpe (ag_engine a)) fresh (full_context system_prompt ctx)\<rparr>))"

definition set_system_prompt :: "string \<Rightarrow> 'w agent \<Rightarrow> 'w engine_state \<Rightarrow> 'w engine_state" where
  "set_system_prompt prompt a st =
     st\<lparr>es_session := set_system_context (e_bpe (ag_engine a)) prompt (es_session st)\<rparr>"

definition clear_session :: "session \<Rightarrow> 'w engine_state \<Rightarrow> 'w engine_state" where
  "clear_session fresh st = st\<lparr>es_session := fresh\<rparr>"

definition agent_chat_with_images ::
  "string \<Rightarrow> image_attachment list \<Rightarrow> 'w agent \<Rightarrow> 'w engine_state
   \<Rightarrow> ((anyhow_error, string) res \<times> 'w agent \<times> 'w engine_state) option" where
  "agent_chat_with_images txt imgs a st =
     map_option (\<lambda>(r, st'). case r of
         Inl e \<Rightarrow> (Inl e, a, st')
       | Inr (response, u) \<Rightarrow> (Inr response, add_usage u a, st'))
       (chat_with_images (ag_engine a) txt imgs st)"

definition agent_chat ::
  "string \<Rightarrow> 'w agent \<Rightarrow> 'w engine_state
   \<Rightarrow> ((anyhow_error, string) res \<times> 'w agent \<times> 'w engine_state) option" where
  "agent_chat txt a st =
     map_option (\<lambda>(r, st'). case r of
         Inl e \<Rightarrow> (Inl e, a, st')
       | Inr (response, u) \<Rightarrow> (Inr response, add_usage u a, st'))
       (chat (ag_engine a) txt st)"

definition agent_continue_chat ::
  "'w agent \<Rightarrow> 'w engine_state \<Rightarrow> ((anyhow_error, string) res \<times> 'w agent \<times> 'w engine_state) option" where
  "agent_continue_chat a st =
     map_option (\<lambda>(r, st'). case r of
         Inl e \<Rightarrow> (Inl e, a, st')
       | Inr (response, u) \<Rightarrow> (Inr response, add_usage u a, st'))
       (continue_chat (ag_engine a) st)"

definition approve_tool_call :: "string \<Rightarrow> 'w engine_state \<Rightarrow> 'w engine_state" where
  "approve_tool_call call_id st = st\<lparr>es_approved := approve call_id (es_approved st)\<rparr>"

definition agent_compact_session ::
  "'w agent \<Rightarrow> 'w engine_state \<Rightarrow> (anyhow_error, usize \<times> usize) res \<times> 'w engine_state" where
  "agent_compact_session a st =
     (let e = ag_engine a;
          (r, s, w) = compact_session (e_cfg e) (e_compact e) (e_model e) (es_session st) (es_world st)
      in (r, st\<lparr>es_session := s, es_world := w\<rparr>))"

text \<open>\<open>save\<close> is \<open>SessionManager::auto_save_session\<close>; \<open>degraded\<close> is what the disk monitor says.\<close>

definition agent_auto_save ::
  "bool \<Rightarrow> ('w engine_state \<Rightarrow> (anyhow_error, unit) res \<times> 'w engine_state) \<Rightarrow> 'w engine_state
   \<Rightarrow> (anyhow_error, unit) res \<times> 'w engine_state" where
  "agent_auto_save degraded save st = (if degraded then (Inr (), st) else save st)"

subsection \<open>The registry of tools\<close>

definition register :: "'w tool \<Rightarrow> (string \<times> 'w tool) list \<Rightarrow> (string \<times> 'w tool) list" where
  "register t m = upsert (t_name t) t (\<lambda>_. t) m"

text \<open>\<open>externals\<close> are the external tools under their configured names.\<close>

definition registry_build ::
  "string list \<Rightarrow> (anyhow_error, 'w tool list) res \<Rightarrow> (string \<times> 'w tool) list \<Rightarrow> 'w tool list
   \<Rightarrow> (anyhow_error, 'w tool list) res" where
  "registry_build allowed builtins externals script_tools =
     bind_res builtins (\<lambda>bs.
       let allow_all = ''*'' \<in> set allowed;
           m1 = fold register (filter (\<lambda>t. allow_all \<or> t_name t \<in> set allowed) bs) [];
           m2 = fold (\<lambda>(name, t) m. upsert name t (\<lambda>_. t) m) externals m1;
           m3 = fold register script_tools m2
       in Inr (map snd m3))"

subsection \<open>The map of sessions\<close>

text \<open>\<open>load\<close> is \<open>Session::load\<close> and \<open>create\<close> is \<open>Session::new_with_id\<close>.\<close>

type_synonym session_map = "string \<Rightarrow> session option"

definition get_session :: "(string \<Rightarrow> session option) \<Rightarrow> string \<Rightarrow> session_map \<Rightarrow> session option \<times> session_map" where
  "get_session load sid m =
     (case m sid of
        Some s \<Rightarrow> (Some s, m)
      | None \<Rightarrow> (case load sid of Some s \<Rightarrow> (Some s, m(sid \<mapsto> s)) | None \<Rightarrow> (None, m)))"

definition get_or_create_session ::
  "(string \<Rightarrow> session option) \<Rightarrow> (string \<Rightarrow> session) \<Rightarrow> string \<Rightarrow> session_map \<Rightarrow> session \<times> session_map" where
  "get_or_create_session load create sid m =
     (case get_session load sid m of
        (Some s, m') \<Rightarrow> (s, m')
      | (None, m') \<Rightarrow> (create sid, m'(sid \<mapsto> create sid)))"

subsection \<open>What the registry holds\<close>

definition named :: "string \<Rightarrow> 'w tool list \<Rightarrow> 'w tool option" where
  "named n ts = find (\<lambda>t. t_name t = n) ts"

definition keyed :: "(string \<times> 'w tool) list \<Rightarrow> bool" where
  "keyed m \<longleftrightarrow> distinct (map fst m) \<and> list_all (\<lambda>(n, t). t_name t = n) m"

lemma keyed_upsert:
  assumes "keyed m" and "t_name t = n"
  shows "keyed (upsert n t (\<lambda>_. t) m)"
  using assms by (auto simp: keyed_def distinct_upsert list_all_iff dest!: set_upsert)

lemma named_keyed: "keyed m \<Longrightarrow> named n (map snd m) = map_of m n"
  by (induction m) (auto simp: keyed_def named_def)

lemma keyed_names: "keyed m \<Longrightarrow> map t_name (map snd m) = map fst m"
  by (induction m) (auto simp: keyed_def)

lemma or_else_None: "or_else x None = x"
  by (cases x) simp_all

lemma named_filter:
  "named n (filter (\<lambda>t. P \<or> t_name t \<in> A) ts) = (if P \<or> n \<in> A then named n ts else None)"
  by (induction ts) (auto simp: named_def)

lemma fold_register:
  assumes "keyed m"
  shows "keyed (fold register ts m)
    \<and> map_of (fold register ts m) n = or_else (named n (rev ts)) (map_of m n)"
  using assms
proof (induction ts rule: rev_induct)
  case (snoc t ts)
  then show ?case
    by (auto simp: register_def keyed_upsert map_of_upsert named_def)
qed (simp add: named_def)

lemma fold_externals:
  assumes "keyed m" and "list_all (\<lambda>(n, t). t_name t = n) es"
  shows "keyed (fold (\<lambda>(name, t) m. upsert name t (\<lambda>_. t) m) es m)
    \<and> map_of (fold (\<lambda>(name, t) m. upsert name t (\<lambda>_. t) m) es m) n
       = or_else (named n (rev (map snd es))) (map_of m n)"
proof -
  have "fold (\<lambda>(name, t) m. upsert name t (\<lambda>_. t) m) es m = fold register (map snd es) m"
    using assms(2) by (induction es arbitrary: m) (auto simp: register_def)
  with fold_register [OF assms(1), of "map snd es" n] show ?thesis by simp
qed

subsection \<open>Properties\<close>

text \<open>The registry gives every name to one tool: the script tool registered last under it, or else
  the external tool, or else the built-in one, which counts only if the configuration allows it.\<close>

theorem registry_build_spec:
  assumes "list_all (\<lambda>(n, t). t_name t = n) externals"
  shows "case registry_build allowed (Inr builtins) externals scripts of
     Inl _ \<Rightarrow> False
   | Inr ts \<Rightarrow> distinct (map t_name ts) \<and>
       named n ts = or_else (named n (rev scripts)) (or_else (named n (rev (map snd externals)))
         (if ''*'' \<in> set allowed \<or> n \<in> set allowed then named n (rev builtins) else None))"
proof -
  let ?bs = "filter (\<lambda>t. ''*'' \<in> set allowed \<or> t_name t \<in> set allowed) builtins"
  let ?m1 = "fold register ?bs []"
  let ?m2 = "fold (\<lambda>(name, t) m. upsert name t (\<lambda>_. t) m) externals ?m1"
  let ?m3 = "fold register scripts ?m2"
  have "keyed ([] :: (string \<times> 'a tool) list)" by (simp add: keyed_def)
  note k1 = fold_register [OF this, of ?bs n]
  note k2 = fold_externals [OF conjunct1 [OF k1] assms, of n]
  note k3 = fold_register [OF conjunct1 [OF k2], of scripts n]
  have b: "named n (rev ?bs) = (if ''*'' \<in> set allowed \<or> n \<in> set allowed then named n (rev builtins) else None)"
    unfolding rev_filter by (rule named_filter)
  have reg: "registry_build allowed (Inr builtins) externals scripts = Inr (map snd ?m3)"
    by (simp add: registry_build_def Let_def)
  have "distinct (map t_name (map snd ?m3))"
    unfolding keyed_names [OF conjunct1 [OF k3]] using conjunct1 [OF k3] by (simp add: keyed_def)
  moreover have "named n (map snd ?m3) = or_else (named n (rev scripts)) (or_else (named n (rev (map snd externals)))
         (if ''*'' \<in> set allowed \<or> n \<in> set allowed then named n (rev builtins) else None))"
    unfolding named_keyed [OF conjunct1 [OF k3]] conjunct2 [OF k3] conjunct2 [OF k2] conjunct2 [OF k1] b
    by (simp add: or_else_None)
  ultimately show ?thesis unfolding reg by simp
qed

definition sample_tool :: "string \<Rightarrow> unit tool" where
  "sample_tool n = \<lparr>t_name = n, t_schema = \<lparr>ts_name = n, ts_description = [], ts_parameters = JNull\<rparr>,
     t_execute = (\<lambda>a w. (Inr n, w))\<rparr>"

theorem registry_build_spec_witness:
  "list_all (\<lambda>(n, t). t_name t = n) [(''ext'', sample_tool ''ext'')] \<and>
   (case registry_build [''bash''] (Inr [sample_tool ''bash'', sample_tool ''web'']) [(''ext'', sample_tool ''ext'')]
      [sample_tool ''bash''] of
     Inl _ \<Rightarrow> False
   | Inr ts \<Rightarrow> distinct (map t_name ts) \<and>
       named ''web'' ts = or_else (named ''web'' (rev [sample_tool ''bash'']))
         (or_else (named ''web'' (rev (map snd [(''ext'', sample_tool ''ext'')])))
         (if ''*'' \<in> set [''bash''] \<or> ''web'' \<in> set [''bash'']
          then named ''web'' (rev [sample_tool ''bash'', sample_tool ''web'']) else None)))"
proof -
  have h: "list_all (\<lambda>(n, t). t_name t = n) [(''ext'', sample_tool ''ext'')]" by (simp add: sample_tool_def)
  show ?thesis by (intro conjI h registry_build_spec [OF h])
qed

end
