(* ===== verification/Ingress_Debounce.thy ===== *)
theory Ingress_Debounce
  imports Llm_Types
begin

text \<open>
  Ingress messages (\<^verbatim>\<open>src/src/ingress/types.rs\<close>) and their debouncing
  (\<^verbatim>\<open>src/src/ingress/debounce.rs\<close>): messages of one source that come in quick succession are combined
  into one.

  An \<open>Instant\<close> is a number of milliseconds and \<open>now\<close> the reading of the clock in the call. The hash map
  of sessions is an association list: its order is that of first insertion where the code's is
  unspecified, and no theorem depends on it. \<open>fresh\<close> gives the identifier of a combined message.
\<close>

subsection \<open>Messages\<close>

datatype trust_level = OwnerCommand | TrustedEvent | UntrustedEvent

record ingress_message =
  im_id :: string
  im_source :: string
  im_payload :: string
  im_trust :: trust_level
  im_timestamp :: u64
  im_images :: "image_attachment list"

definition ingress_new :: "string \<Rightarrow> u64 \<Rightarrow> string \<Rightarrow> string \<Rightarrow> trust_level \<Rightarrow> ingress_message" where
  "ingress_new uuid now source payload trust =
     \<lparr>im_id = uuid, im_source = source, im_payload = payload, im_trust = trust, im_timestamp = now,
      im_images = []\<rparr>"

definition with_images :: "image_attachment list \<Rightarrow> ingress_message \<Rightarrow> ingress_message" where
  "with_images imgs m = m\<lparr>im_images := imgs\<rparr>"

subsection \<open>The debounce manager\<close>

record debounce_config =
  debounce_seconds :: u64
  max_debounce_messages :: nat
  max_debounce_chars :: nat

record debounce_session =
  buffer :: "ingress_message list"
  last_update :: int

record debounce_manager =
  dm_sessions :: "(string \<times> debounce_session) list"
  dm_config :: debounce_config

definition debounce_new :: "debounce_config \<Rightarrow> debounce_manager" where
  "debounce_new cfg = \<lparr>dm_sessions = [], dm_config = cfg\<rparr>"

definition session_char_count :: "debounce_session \<Rightarrow> nat" where
  "session_char_count s = sum_list (map (\<lambda>m. length (im_payload m)) (buffer s))"

definition debounce_dur :: "debounce_config \<Rightarrow> int" where
  "debounce_dur cfg = 1000 * int (unat (debounce_seconds cfg))"

definition over_limit :: "debounce_config \<Rightarrow> debounce_session \<Rightarrow> bool" where
  "over_limit cfg s \<longleftrightarrow>
     max_debounce_messages cfg < length (buffer s) \<or> max_debounce_chars cfg < session_char_count s"

definition buffer_message :: "debounce_config \<Rightarrow> int \<Rightarrow> ingress_message \<Rightarrow> debounce_session \<Rightarrow> debounce_session" where
  "buffer_message cfg now m s =
     (let s1 = s\<lparr>buffer := buffer s @ [m], last_update := now\<rparr> in
      if over_limit cfg s1 then s1\<lparr>last_update := now - debounce_dur cfg - 1000\<rparr> else s1)"

definition ingest :: "int \<Rightarrow> ingress_message \<Rightarrow> debounce_manager \<Rightarrow> debounce_manager" where
  "ingest now m mgr =
     mgr\<lparr>dm_sessions := upsert (im_source m) \<lparr>buffer = [], last_update = now\<rparr>
           (buffer_message (dm_config mgr) now m) (dm_sessions mgr)\<rparr>"

definition combine_session :: "(string \<Rightarrow> string) \<Rightarrow> string \<times> debounce_session \<Rightarrow> ingress_message" where
  "combine_session fresh = (\<lambda>(source, s).
     \<lparr>im_id = fresh source, im_source = source,
      im_payload = join nl2 (map im_payload (buffer s)),
      im_trust = im_trust (hd (buffer s)),
      im_timestamp = Min (set (map im_timestamp (buffer s))),
      im_images = concat (map im_images (buffer s))\<rparr>)"

definition is_ready :: "debounce_config \<Rightarrow> int \<Rightarrow> debounce_session \<Rightarrow> bool" where
  "is_ready cfg now s \<longleftrightarrow> debounce_dur cfg \<le> max 0 (now - last_update s) \<and> buffer s \<noteq> []"

definition flush_ready ::
  "(string \<Rightarrow> string) \<Rightarrow> int \<Rightarrow> debounce_manager \<Rightarrow> ingress_message list \<times> debounce_manager" where
  "flush_ready fresh now mgr =
     (map (combine_session fresh) (filter (\<lambda>(k, s). is_ready (dm_config mgr) now s) (dm_sessions mgr)),
      mgr\<lparr>dm_sessions := filter (\<lambda>(k, s). \<not> is_ready (dm_config mgr) now s) (dm_sessions mgr)\<rparr>)"

definition flush_all ::
  "(string \<Rightarrow> string) \<Rightarrow> debounce_manager \<Rightarrow> ingress_message list \<times> debounce_manager" where
  "flush_all fresh mgr =
     (map (combine_session fresh) (filter (\<lambda>(k, s). buffer s \<noteq> []) (dm_sessions mgr)),
      mgr\<lparr>dm_sessions := []\<rparr>)"

text \<open>The worker of \<^verbatim>\<open>src/src/ingress/controller.rs\<close>: it ingests what it receives, flushes on every tick
  and flushes the rest when the channel is closed.\<close>

datatype worker_event = Received int ingress_message | Tick int

fun debounce_worker ::
  "(string \<Rightarrow> string) \<Rightarrow> worker_event list \<Rightarrow> debounce_manager \<Rightarrow> ingress_message list" where
  "debounce_worker fresh [] mgr = fst (flush_all fresh mgr)"
| "debounce_worker fresh (Received now m # evs) mgr = debounce_worker fresh evs (ingest now m mgr)"
| "debounce_worker fresh (Tick now # evs) mgr =
     (let (ready, mgr') = flush_ready fresh now mgr in ready @ debounce_worker fresh evs mgr')"

fun received :: "worker_event list \<Rightarrow> ingress_message list" where
  "received [] = []"
| "received (Received now m # evs) = m # received evs"
| "received (Tick now # evs) = received evs"

subsection \<open>Nothing is lost\<close>

text \<open>The manager's invariant: one session per source, none of them empty, each with messages of its
  source.\<close>

definition debounce_inv :: "debounce_manager \<Rightarrow> bool" where
  "debounce_inv mgr \<longleftrightarrow> distinct (map fst (dm_sessions mgr))
     \<and> (\<forall>(k, s) \<in> set (dm_sessions mgr). buffer s \<noteq> [] \<and> (\<forall>m \<in> set (buffer s). im_source m = k))"

definition waiting :: "string \<Rightarrow> debounce_manager \<Rightarrow> ingress_message list" where
  "waiting k mgr = (case map_of (dm_sessions mgr) k of Some s \<Rightarrow> buffer s | None \<Rightarrow> [])"

lemma buffer_buffer_message [simp]: "buffer (buffer_message cfg now m s) = buffer s @ [m]"
  by (simp add: buffer_message_def Let_def)

lemma ingest_inv: "debounce_inv mgr \<Longrightarrow> debounce_inv (ingest now m mgr)"
  by (fastforce simp: debounce_inv_def ingest_def distinct_upsert dest!: set_upsert)

lemma ingest_waiting:
  "waiting k (ingest now m mgr) = waiting k mgr @ (if k = im_source m then [m] else [])"
  by (simp add: waiting_def ingest_def map_of_upsert split: option.split)

lemma flush_ready_inv: "debounce_inv mgr \<Longrightarrow> debounce_inv (snd (flush_ready fresh now mgr))"
  by (auto simp: debounce_inv_def flush_ready_def distinct_map_filter)

lemma flush_outputs:
  assumes "distinct (map fst kvs)"
  shows "filter (\<lambda>m. im_source m = k) (map (combine_session fresh) kvs) =
    (case map_of kvs k of Some s \<Rightarrow> [combine_session fresh (k, s)] | None \<Rightarrow> [])"
  using assms
proof (induction kvs)
  case (Cons kv kvs)
  obtain k' s where kv: "kv = (k', s)" by (cases kv)
  show ?case
  proof (cases "k' = k")
    case True
    with Cons.prems kv have "map_of kvs k = None" by (simp add: map_of_eq_None_iff)
    with Cons True kv show ?thesis by (simp add: combine_session_def)
  qed (use Cons kv in \<open>simp add: combine_session_def\<close>)
qed simp

definition combined :: "(string \<Rightarrow> string) \<Rightarrow> string \<Rightarrow> ingress_message list \<Rightarrow> ingress_message" where
  "combined fresh k g = combine_session fresh (k, \<lparr>buffer = g, last_update = 0\<rparr>)"

lemma combine_session_combined: "combine_session fresh (k, s) = combined fresh k (buffer s)"
  by (simp add: combined_def combine_session_def)

text \<open>One flush empties the waiting list of a source into at most one group.\<close>

lemma flush_ready_groups:
  assumes "debounce_inv mgr"
  obtains gs where "filter (\<lambda>m. im_source m = k) (fst (flush_ready fresh now mgr)) = map (combined fresh k) gs"
    and "concat gs @ waiting k (snd (flush_ready fresh now mgr)) = waiting k mgr" and "[] \<notin> set gs"
proof -
  let ?P = "is_ready (dm_config mgr) now"
  have d: "distinct (map fst (dm_sessions mgr))" using assms by (simp add: debounce_inv_def)
  have out: "filter (\<lambda>m. im_source m = k) (fst (flush_ready fresh now mgr)) =
      (case map_of (filter (\<lambda>(k, s). ?P s) (dm_sessions mgr)) k of
         Some s \<Rightarrow> [combine_session fresh (k, s)] | None \<Rightarrow> [])"
    unfolding flush_ready_def fst_conv by (rule flush_outputs) (simp add: d distinct_map_filter)
  show thesis
  proof (cases "map_of (dm_sessions mgr) k")
    case None
    with out map_of_filter_value [OF d] show thesis
      by (intro that [of "[]"]) (simp_all add: waiting_def flush_ready_def)
  next
    case (Some s)
    with assms have "buffer s \<noteq> []" by (auto simp: debounce_inv_def dest: map_of_SomeD)
    with out Some map_of_filter_value [OF d, of ?P] map_of_filter_value [OF d, of "\<lambda>s. \<not> ?P s"] show thesis
      by (intro that [of "if ?P s then [buffer s] else []"])
        (simp_all add: waiting_def flush_ready_def combine_session_combined)
  qed
qed

lemma flush_all_groups:
  assumes "debounce_inv mgr"
  obtains gs where "filter (\<lambda>m. im_source m = k) (fst (flush_all fresh mgr)) = map (combined fresh k) gs"
    and "concat gs = waiting k mgr" and "[] \<notin> set gs"
proof -
  have d: "distinct (map fst (dm_sessions mgr))" using assms by (simp add: debounce_inv_def)
  have "filter (\<lambda>(k, s). buffer s \<noteq> []) (dm_sessions mgr) = dm_sessions mgr"
    using assms by (auto simp: debounce_inv_def intro!: filter_True)
  with flush_outputs [OF d] have out: "filter (\<lambda>m. im_source m = k) (fst (flush_all fresh mgr)) =
      (case map_of (dm_sessions mgr) k of Some s \<Rightarrow> [combine_session fresh (k, s)] | None \<Rightarrow> [])"
    by (simp add: flush_all_def)
  show thesis
  proof (cases "map_of (dm_sessions mgr) k")
    case None
    with out show thesis by (intro that [of "[]"]) (simp_all add: waiting_def)
  next
    case (Some s)
    with assms have "buffer s \<noteq> []" by (auto simp: debounce_inv_def dest: map_of_SomeD)
    with out Some show thesis
      by (intro that [of "[buffer s]"]) (simp_all add: waiting_def combine_session_combined)
  qed
qed

lemma debounce_worker_groups:
  assumes "debounce_inv mgr"
  shows "\<exists>gs. filter (\<lambda>m. im_source m = k) (debounce_worker fresh evs mgr) = map (combined fresh k) gs
    \<and> concat gs = waiting k mgr @ filter (\<lambda>m. im_source m = k) (received evs) \<and> [] \<notin> set gs"
  using assms
proof (induction fresh evs mgr rule: debounce_worker.induct)
  case (1 fresh mgr)
  then obtain gs where "filter (\<lambda>m. im_source m = k) (fst (flush_all fresh mgr)) = map (combined fresh k) gs"
    "concat gs = waiting k mgr" "[] \<notin> set gs" by (rule flush_all_groups)
  then show ?case by (intro exI [of _ gs]) simp
next
  case (2 fresh now m evs mgr)
  then show ?case
    using ingest_waiting [of k now m mgr] by (cases "k = im_source m") (simp_all add: ingest_inv)
next
  case (3 fresh now evs mgr)
  obtain gs1 where g1: "filter (\<lambda>m. im_source m = k) (fst (flush_ready fresh now mgr)) = map (combined fresh k) gs1"
    "concat gs1 @ waiting k (snd (flush_ready fresh now mgr)) = waiting k mgr" "[] \<notin> set gs1"
    using flush_ready_groups [OF 3(2)] by blast
  obtain gs2 where "filter (\<lambda>m. im_source m = k) (debounce_worker fresh evs (snd (flush_ready fresh now mgr)))
      = map (combined fresh k) gs2"
    "concat gs2 = waiting k (snd (flush_ready fresh now mgr)) @ filter (\<lambda>m. im_source m = k) (received evs)"
    "[] \<notin> set gs2"
    using 3(1) [OF refl prod.collapse] flush_ready_inv [OF 3(2)] by blast
  with g1 show ?case
    by (intro exI [of _ "gs1 @ gs2"]) (simp add: case_prod_unfold Let_def append.assoc [symmetric])
qed

subsection \<open>Properties\<close>

text \<open>C4: Debouncing loses, repeats and reorders nothing. Whatever the interleaving of messages and
  ticks, what the worker hands on for a source is the sequence of its messages, in order, cut into
  non-empty groups, each group combined into one message.\<close>

theorem debounce_worker_complete:
  "\<exists>groups. filter (\<lambda>m. im_source m = k) (debounce_worker fresh evs (debounce_new cfg)) =
       map (combined fresh k) groups
     \<and> concat groups = filter (\<lambda>m. im_source m = k) (received evs) \<and> [] \<notin> set groups"
proof -
  have "debounce_inv (debounce_new cfg)" and "waiting k (debounce_new cfg) = []"
    by (simp_all add: debounce_inv_def debounce_new_def waiting_def)
  with debounce_worker_groups [of "debounce_new cfg" k fresh evs] show ?thesis by simp
qed

text \<open>A combined message has the trust of the first message of its group: it is the trust of all of
  them when the trust of a message is a function of its source. A source that sends messages of
  different trust has the later ones raised to the trust of the first.\<close>

theorem debounce_trust:
  assumes "\<forall>m \<in> set (received evs). im_trust m = level (im_source m)"
  shows "\<forall>out \<in> set (debounce_worker fresh evs (debounce_new cfg)). im_trust out = level (im_source out)"
proof
  fix out assume o: "out \<in> set (debounce_worker fresh evs (debounce_new cfg))"
  let ?k = "im_source out"
  obtain gs where gs: "filter (\<lambda>m. im_source m = ?k) (debounce_worker fresh evs (debounce_new cfg))
      = map (combined fresh ?k) gs"
    "concat gs = filter (\<lambda>m. im_source m = ?k) (received evs)" "[] \<notin> set gs"
    using debounce_worker_groups [of "debounce_new cfg" ?k fresh evs]
    by (auto simp: debounce_inv_def debounce_new_def waiting_def)
  from o have "out \<in> set (map (combined fresh ?k) gs)" unfolding gs(1) [symmetric] by simp
  then obtain g where g: "g \<in> set gs" "out = combined fresh ?k g" by auto
  with gs(3) have "hd g \<in> set (concat gs)" by (metis UN_I hd_in_set set_concat)
  with gs(2) assms have "im_trust (hd g) = level ?k" by auto
  moreover have "im_trust (combined fresh ?k g) = im_trust (hd g)"
    by (simp add: combined_def combine_session_def)
  ultimately show "im_trust out = level ?k" using g(2) by simp
qed

definition sample_debounce :: debounce_config where
  "sample_debounce = \<lparr>debounce_seconds = 3, max_debounce_messages = 50, max_debounce_chars = 100000\<rparr>"

definition sample_events :: "worker_event list" where
  "sample_events =
     [Received 0 (ingress_new ''1'' 7 ''telegram:5'' ''hi'' OwnerCommand), Tick 500,
      Received 900 (ingress_new ''2'' 8 ''hook'' ''x'' UntrustedEvent), Tick 5000]"

theorem debounce_trust_witness:
  "list_all (\<lambda>m. im_trust m = (\<lambda>src. if src = ''hook'' then UntrustedEvent else OwnerCommand) (im_source m))
     (received sample_events)
   \<and> list_all (\<lambda>m. im_trust m = (\<lambda>src. if src = ''hook'' then UntrustedEvent else OwnerCommand) (im_source m))
     (debounce_worker (\<lambda>k. k) sample_events (debounce_new sample_debounce))"
proof -
  have h: "\<forall>m \<in> set (received sample_events).
      im_trust m = (\<lambda>src. if src = ''hook'' then UntrustedEvent else OwnerCommand) (im_source m)"
    by (simp add: sample_events_def ingress_new_def)
  show ?thesis using h debounce_trust [OF h] unfolding list_all_iff by blast
qed

text \<open>A script may push a trusted event under any source, the owner's chat included. Sent within
  the debounce period after a message of the owner, its text becomes part of an owner command.\<close>

theorem debounce_raises_trust:
  "map (\<lambda>m. (im_source m, im_payload m, im_trust m))
     (debounce_worker (\<lambda>k. k)
       [Received 0 (ingress_new ''1'' 7 ''telegram:5'' ''hi'' OwnerCommand),
        Received 100 (ingress_new ''2'' 8 ''telegram:5'' ''run it'' TrustedEvent)]
       (debounce_new sample_debounce)) =
   [(''telegram:5'', ''hi'' @ nl2 @ ''run it'', OwnerCommand)]"
  by (simp add: sample_debounce_def debounce_new_def ingest_def buffer_message_def over_limit_def
      session_char_count_def ingress_new_def flush_all_def combine_session_def Let_def)

text \<open>A source that goes over a limit waits no longer: the message that exceeds the number or the
  size of the buffer makes the source ready for the next tick, whenever it comes.\<close>

theorem over_limit_flushed:
  assumes "over_limit (dm_config mgr) \<lparr>buffer = waiting (im_source m) mgr @ [m], last_update = now\<rparr>"
    and "now \<le> later" and "debounce_inv mgr"
  shows "\<exists>out \<in> set (fst (flush_ready fresh later (ingest now m mgr))).
     out = combined fresh (im_source m) (waiting (im_source m) mgr @ [m])"
proof -
  let ?mgr = "ingest now m mgr"
  let ?old = "case map_of (dm_sessions mgr) (im_source m) of Some v \<Rightarrow> v | None \<Rightarrow> \<lparr>buffer = [], last_update = now\<rparr>"
  let ?s = "buffer_message (dm_config mgr) now m ?old"
  have buf: "buffer ?old = waiting (im_source m) mgr" by (simp add: waiting_def split: option.split)
  have "map_of (dm_sessions ?mgr) (im_source m) = Some ?s"
    by (simp add: ingest_def map_of_upsert)
  then have "(im_source m, ?s) \<in> set (dm_sessions ?mgr)" by (rule map_of_SomeD)
  moreover have "over_limit (dm_config mgr) (?old\<lparr>buffer := buffer ?old @ [m], last_update := now\<rparr>)"
    using assms(1) buf by (simp add: over_limit_def session_char_count_def)
  then have "is_ready (dm_config ?mgr) later ?s"
    using assms(2) by (simp add: is_ready_def buffer_message_def Let_def ingest_def debounce_dur_def)
  ultimately have "combine_session fresh (im_source m, ?s) \<in> set (fst (flush_ready fresh later ?mgr))"
    by (auto simp: flush_ready_def)
  with buf show ?thesis by (auto simp: combine_session_combined)
qed

theorem over_limit_flushed_witness:
  "let mgr = debounce_new (sample_debounce\<lparr>max_debounce_messages := 0\<rparr>);
       m = ingress_new ''1'' 7 ''telegram:5'' ''hi'' OwnerCommand in
   over_limit (dm_config mgr) \<lparr>buffer = waiting (im_source m) mgr @ [m], last_update = 0\<rparr>
   \<and> (0 :: int) \<le> 10 \<and> debounce_inv mgr
   \<and> (\<exists>out \<in> set (fst (flush_ready (\<lambda>k. k) 10 (ingest 0 m mgr))).
        out = combined (\<lambda>k. k) (im_source m) (waiting (im_source m) mgr @ [m]))"
proof -
  let ?mgr = "debounce_new (sample_debounce\<lparr>max_debounce_messages := 0\<rparr>)"
  let ?m = "ingress_new ''1'' 7 ''telegram:5'' ''hi'' OwnerCommand"
  have o: "over_limit (dm_config ?mgr) \<lparr>buffer = waiting (im_source ?m) ?mgr @ [?m], last_update = 0\<rparr>"
    by (simp add: over_limit_def debounce_new_def sample_debounce_def)
  have i: "debounce_inv ?mgr" by (simp add: debounce_inv_def debounce_new_def)
  show ?thesis unfolding Let_def using o i over_limit_flushed [OF o _ i, of 10] by simp
qed

end
