(* ===== verification/Approval_Coordinator.thy ===== *)
theory Approval_Coordinator
  imports Ingress_Debounce
begin

text \<open>
  The coordinator of approval requests (\<^verbatim>\<open>src/src/ingress/approval.rs\<close>): tasks of the agent wait for a
  decision, the Telegram service resolves it, a timer and a clean-up drop what has expired.

  \<open>request\<close> is an asynchronous task; its steps are operations of their own, one per branch of the
  \<open>select!\<close>, and the step relation interleaves those of any number of tasks with \<open>resolve\<close> and \<open>cleanup\<close>.
  A task is named by a number, which also names the one-shot channel its decision comes through.
  Instants are numbers of milliseconds. \<open>sy_log\<close> is not in the code: it records the decisions sent.
\<close>

datatype approval_decision = ApproveDecision | DenyDecision

datatype oneshot = Open | Sent approval_decision | Closed

record pending_approval =
  pa_chat_id :: int
  pa_message_id :: int
  pa_tx :: nat
  pa_timeout_at :: int

record request_task =
  rq_call :: string
  rq_deadline :: int
  rq_got_msg_id :: bool
  rq_result :: "approval_decision option option"

record coordinator =
  sy_pending :: "(string \<times> pending_approval) list"
  sy_tasks :: "nat \<Rightarrow> request_task option"
  sy_chan :: "nat \<Rightarrow> oneshot"
  sy_log :: "(nat \<times> string \<times> approval_decision) list"

definition coordinator_new :: coordinator where
  "coordinator_new = \<lparr>sy_pending = [], sy_tasks = (\<lambda>r. None), sy_chan = (\<lambda>r. Closed), sy_log = []\<rparr>"

subsection \<open>Operations\<close>

text \<open>Dropping the sender of an entry closes its channel.\<close>

definition drop_tx :: "pending_approval \<Rightarrow> coordinator \<Rightarrow> coordinator" where
  "drop_tx p sy = sy\<lparr>sy_chan := (sy_chan sy)(pa_tx p := Closed)\<rparr>"

definition remove_entry :: "string \<Rightarrow> coordinator \<Rightarrow> coordinator" where
  "remove_entry c sy =
     (case map_of (sy_pending sy) c of
        None \<Rightarrow> sy
      | Some p \<Rightarrow> (drop_tx p sy)\<lparr>sy_pending := filter (\<lambda>(k, v). k \<noteq> c) (sy_pending sy)\<rparr>)"

definition end_request :: "nat \<Rightarrow> approval_decision option \<Rightarrow> coordinator \<Rightarrow> coordinator" where
  "end_request r res sy =
     sy\<lparr>sy_tasks := (sy_tasks sy)(r := map_option (\<lambda>t. t\<lparr>rq_result := Some res\<rparr>) (sy_tasks sy r))\<rparr>"

definition request_begin :: "nat \<Rightarrow> string \<Rightarrow> int \<Rightarrow> int \<Rightarrow> coordinator \<Rightarrow> coordinator" where
  "request_begin r call_id chat_id deadline sy =
     (let sy1 = remove_entry call_id sy in
      sy1\<lparr>sy_pending := (call_id, \<lparr>pa_chat_id = chat_id, pa_message_id = -1, pa_tx = r,
             pa_timeout_at = deadline\<rparr>) # sy_pending sy1,
          sy_chan := (sy_chan sy1)(r := Open),
          sy_tasks := (sy_tasks sy1)(r \<mapsto> \<lparr>rq_call = call_id, rq_deadline = deadline,
             rq_got_msg_id = False, rq_result = None\<rparr>)\<rparr>)"

text \<open>The user interface is gone, or the deadline has passed.\<close>

definition request_abort :: "nat \<Rightarrow> coordinator \<Rightarrow> coordinator" where
  "request_abort r sy =
     (case sy_tasks sy r of None \<Rightarrow> sy | Some t \<Rightarrow> end_request r None (remove_entry (rq_call t) sy))"

definition request_msg_id :: "nat \<Rightarrow> int option \<Rightarrow> coordinator \<Rightarrow> coordinator" where
  "request_msg_id r msg_id sy =
     (case sy_tasks sy r of
        None \<Rightarrow> sy
      | Some t \<Rightarrow>
          sy\<lparr>sy_tasks := (sy_tasks sy)(r \<mapsto> t\<lparr>rq_got_msg_id := True\<rparr>),
             sy_pending := (case msg_id of
                None \<Rightarrow> sy_pending sy
              | Some i \<Rightarrow> map (\<lambda>(k, p). if k = rq_call t then (k, p\<lparr>pa_message_id := i\<rparr>) else (k, p))
                            (sy_pending sy))\<rparr>)"

definition request_decision :: "nat \<Rightarrow> coordinator \<Rightarrow> coordinator" where
  "request_decision r sy =
     (case sy_chan sy r of
        Sent d \<Rightarrow> end_request r (Some d) sy
      | Closed \<Rightarrow> end_request r None sy
      | Open \<Rightarrow> sy)"

definition resolve ::
  "string \<Rightarrow> approval_decision \<Rightarrow> coordinator \<Rightarrow> (int \<times> int) option \<times> coordinator" where
  "resolve call_id d sy =
     (case map_of (sy_pending sy) call_id of
        None \<Rightarrow> (None, sy)
      | Some p \<Rightarrow>
          (Some (pa_chat_id p, pa_message_id p),
           sy\<lparr>sy_pending := filter (\<lambda>(k, v). k \<noteq> call_id) (sy_pending sy),
              sy_chan := (sy_chan sy)(pa_tx p := Sent d),
              sy_log := (pa_tx p, call_id, d) # sy_log sy\<rparr>))"

definition cleanup :: "int \<Rightarrow> coordinator \<Rightarrow> (string \<times> int \<times> int) list \<times> coordinator" where
  "cleanup now sy =
     (let expired = filter (\<lambda>(k, p). pa_timeout_at p \<le> now) (sy_pending sy)
      in (map (\<lambda>(k, p). (k, pa_chat_id p, pa_message_id p)) expired,
          fold (\<lambda>(k, p). remove_entry k) expired sy))"

subsection \<open>Interleavings\<close>

definition still_waiting :: "nat \<Rightarrow> coordinator \<Rightarrow> bool" where
  "still_waiting r sy \<longleftrightarrow> (case sy_tasks sy r of Some t \<Rightarrow> rq_result t = None | None \<Rightarrow> False)"

inductive coord_step :: "coordinator \<Rightarrow> coordinator \<Rightarrow> bool" where
  start: "sy_tasks sy r = None \<Longrightarrow> coord_step sy (request_begin r c chat deadline sy)"
| abort: "still_waiting r sy \<Longrightarrow> coord_step sy (request_abort r sy)"
| got_id: "still_waiting r sy \<Longrightarrow> coord_step sy (request_msg_id r i sy)"
| decided: "still_waiting r sy \<Longrightarrow> sy_chan sy r \<noteq> Open \<Longrightarrow> coord_step sy (request_decision r sy)"
| click: "coord_step sy (snd (resolve c d sy))"
| clean: "coord_step sy (snd (cleanup now sy))"

inductive coord_reachable :: "coordinator \<Rightarrow> bool" where
  init: "coord_reachable coordinator_new"
| step: "coord_reachable sy \<Longrightarrow> coord_step sy sy' \<Longrightarrow> coord_reachable sy'"

text \<open>The invariant: every entry belongs to a task with that call whose channel is open, entries of
  different calls to different tasks; what was sent is in the log, under the call of the task it was
  sent to, and each task appears in the log once.\<close>

definition entries_ok :: "coordinator \<Rightarrow> bool" where
  "entries_ok sy \<longleftrightarrow> distinct (map fst (sy_pending sy)) \<and>
     (\<forall>(c, p) \<in> set (sy_pending sy). sy_chan sy (pa_tx p) = Open \<and>
        (\<exists>t. sy_tasks sy (pa_tx p) = Some t \<and> rq_call t = c))"

definition log_ok :: "coordinator \<Rightarrow> bool" where
  "log_ok sy \<longleftrightarrow> distinct (map fst (sy_log sy))
     \<and> (\<forall>(r, c, d) \<in> set (sy_log sy). sy_chan sy r = Sent d \<and> (\<exists>t. sy_tasks sy r = Some t \<and> rq_call t = c))
     \<and> (\<forall>r d. sy_chan sy r = Sent d \<longrightarrow> (\<exists>c. (r, c, d) \<in> set (sy_log sy)))"

definition results_ok :: "coordinator \<Rightarrow> bool" where
  "results_ok sy \<longleftrightarrow>
     (\<forall>r t d. sy_tasks sy r = Some t \<and> rq_result t = Some (Some d) \<longrightarrow> (r, rq_call t, d) \<in> set (sy_log sy))
     \<and> (\<forall>r. sy_chan sy r = Open \<longrightarrow> sy_tasks sy r \<noteq> None)"

definition coord_inv :: "coordinator \<Rightarrow> bool" where
  "coord_inv sy \<longleftrightarrow> entries_ok sy \<and> log_ok sy \<and> results_ok sy"

lemma remove_entry_simps [simp]:
  "sy_tasks (remove_entry c sy) = sy_tasks sy" "sy_log (remove_entry c sy) = sy_log sy"
  "sy_pending (remove_entry c sy) = filter (\<lambda>(k, v). k \<noteq> c) (sy_pending sy)"
proof -
  have "map_of kvs c = None \<Longrightarrow> filter (\<lambda>(k, v). k \<noteq> c) kvs = kvs" for kvs :: "(string \<times> pending_approval) list"
    by (induction kvs) (auto split: if_splits)
  then show "sy_tasks (remove_entry c sy) = sy_tasks sy" "sy_log (remove_entry c sy) = sy_log sy"
    "sy_pending (remove_entry c sy) = filter (\<lambda>(k, v). k \<noteq> c) (sy_pending sy)"
    by (auto simp: remove_entry_def drop_tx_def split: option.split)
qed

lemma remove_entry_chan:
  "sy_chan (remove_entry c sy) =
     (case map_of (sy_pending sy) c of None \<Rightarrow> sy_chan sy | Some p \<Rightarrow> (sy_chan sy)(pa_tx p := Closed))"
  by (simp add: remove_entry_def drop_tx_def split: option.split)

lemma entries_okD:
  assumes "entries_ok sy" and "(c, p) \<in> set (sy_pending sy)"
  shows "sy_chan sy (pa_tx p) = Open" and "\<exists>t. sy_tasks sy (pa_tx p) = Some t \<and> rq_call t = c"
  using assms unfolding entries_ok_def by blast+

lemma entries_okI:
  assumes "distinct (map fst (sy_pending sy))"
    and "\<And>c p. (c, p) \<in> set (sy_pending sy) \<Longrightarrow> sy_chan sy (pa_tx p) = Open"
    and "\<And>c p. (c, p) \<in> set (sy_pending sy) \<Longrightarrow> \<exists>t. sy_tasks sy (pa_tx p) = Some t \<and> rq_call t = c"
  shows "entries_ok sy"
  using assms unfolding entries_ok_def by blast

text \<open>Two entries with the same channel are the same entry: both name the call of its task.\<close>

lemma entries_inj:
  assumes "entries_ok sy" and "(c, p) \<in> set (sy_pending sy)" and "(c', p') \<in> set (sy_pending sy)"
    and "pa_tx p = pa_tx p'"
  shows "c = c'"
  using entries_okD(2) [OF assms(1,2)] entries_okD(2) [OF assms(1,3)] assms(4) by auto

lemma remove_entry_inv:
  assumes "coord_inv sy"
  shows "coord_inv (remove_entry c sy)"
proof (cases "map_of (sy_pending sy) c")
  case None
  then show ?thesis using assms by (simp add: remove_entry_def)
next
  case (Some p)
  then have p: "(c, p) \<in> set (sy_pending sy)" by (rule map_of_SomeD)
  have e: "entries_ok sy" and l: "log_ok sy" and r: "results_ok sy" using assms by (auto simp: coord_inv_def)
  have op: "sy_chan sy (pa_tx p) = Open" using e p by (auto simp: entries_ok_def)
  have "entries_ok (remove_entry c sy)"
  proof (rule entries_okI)
    fix c' p' assume q: "(c', p') \<in> set (sy_pending (remove_entry c sy))"
    then have q': "(c', p') \<in> set (sy_pending sy)" "c' \<noteq> c" by auto
    with entries_inj [OF e q'(1) p] have "pa_tx p' \<noteq> pa_tx p" by blast
    with entries_okD [OF e q'(1)] Some
    show "sy_chan (remove_entry c sy) (pa_tx p') = Open"
      and "\<exists>t. sy_tasks (remove_entry c sy) (pa_tx p') = Some t \<and> rq_call t = c'"
      by (simp_all add: remove_entry_chan)
  qed (use e in \<open>simp add: entries_ok_def distinct_map_filter\<close>)
  moreover have "log_ok (remove_entry c sy)"
    using l op Some by (fastforce simp: log_ok_def remove_entry_chan)
  moreover have "results_ok (remove_entry c sy)"
    using r Some by (auto simp: results_ok_def remove_entry_chan)
  ultimately show ?thesis by (simp add: coord_inv_def)
qed

lemma end_request_inv:
  assumes "coord_inv sy"
    and "case res of Some d \<Rightarrow> sy_chan sy r = Sent d | None \<Rightarrow> True"
  shows "coord_inv (end_request r res sy)"
proof -
  have e: "entries_ok sy" and l: "log_ok sy" and rs: "results_ok sy" using assms(1) by (auto simp: coord_inv_def)
  have "entries_ok (end_request r res sy)"
    using e by (fastforce simp: entries_ok_def end_request_def)
  moreover have "log_ok (end_request r res sy)"
    using l by (fastforce simp: log_ok_def end_request_def)
  moreover have "(r, rq_call t, d) \<in> set (sy_log sy)"
    if "res = Some d" and "sy_tasks sy r = Some t" for d t
    using that assms(2) l by (fastforce simp: log_ok_def)
  then have "results_ok (end_request r res sy)"
    using rs by (auto simp: results_ok_def end_request_def)
  ultimately show ?thesis by (simp add: coord_inv_def)
qed

lemma log_okD:
  assumes "log_ok sy" and "(r, c, d) \<in> set (sy_log sy)"
  shows "sy_chan sy r = Sent d" and "\<exists>t. sy_tasks sy r = Some t \<and> rq_call t = c"
  using assms unfolding log_ok_def by blast+

lemma log_okI:
  assumes "distinct (map fst (sy_log sy))"
    and "\<And>r c d. (r, c, d) \<in> set (sy_log sy) \<Longrightarrow> sy_chan sy r = Sent d"
    and "\<And>r c d. (r, c, d) \<in> set (sy_log sy) \<Longrightarrow> \<exists>t. sy_tasks sy r = Some t \<and> rq_call t = c"
    and "\<And>r d. sy_chan sy r = Sent d \<Longrightarrow> \<exists>c. (r, c, d) \<in> set (sy_log sy)"
  shows "log_ok sy"
  using assms unfolding log_ok_def by blast

lemma request_begin_inv:
  assumes "coord_inv sy" and "sy_tasks sy r = None"
  shows "coord_inv (request_begin r c chat deadline sy)"
proof -
  define sy1 where "sy1 = remove_entry c sy"
  have i: "coord_inv sy1" unfolding sy1_def by (rule remove_entry_inv [OF assms(1)])
  then have e: "entries_ok sy1" and l: "log_ok sy1" and rs: "results_ok sy1" by (auto simp: coord_inv_def)
  have new: "sy_tasks sy1 r = None" using assms(2) by (simp add: sy1_def)
  have noc: "c \<notin> fst ` set (sy_pending sy1)" by (auto simp: sy1_def)
  let ?sy = "request_begin r c chat deadline sy"
  have eq: "?sy = sy1\<lparr>sy_pending := (c, \<lparr>pa_chat_id = chat, pa_message_id = -1, pa_tx = r,
             pa_timeout_at = deadline\<rparr>) # sy_pending sy1, sy_chan := (sy_chan sy1)(r := Open),
          sy_tasks := (sy_tasks sy1)(r \<mapsto> \<lparr>rq_call = c, rq_deadline = deadline,
             rq_got_msg_id = False, rq_result = None\<rparr>)\<rparr>"
    by (simp add: request_begin_def sy1_def Let_def)
  have "entries_ok ?sy"
  proof (rule entries_okI)
    show "distinct (map fst (sy_pending ?sy))" using e noc by (simp add: eq entries_ok_def)
    fix c' p' assume "(c', p') \<in> set (sy_pending ?sy)"
    then consider "c' = c \<and> pa_tx p' = r" | "(c', p') \<in> set (sy_pending sy1)" by (auto simp: eq)
    then show "sy_chan ?sy (pa_tx p') = Open" "\<exists>t. sy_tasks ?sy (pa_tx p') = Some t \<and> rq_call t = c'"
      using entries_okD [OF e, of c' p'] new by (cases; auto simp: eq)+
  qed
  moreover have "log_ok ?sy"
  proof (rule log_okI)
    show "distinct (map fst (sy_log ?sy))" using l by (simp add: eq log_ok_def)
    fix r' c' d assume "(r', c', d) \<in> set (sy_log ?sy)"
    then have "(r', c', d) \<in> set (sy_log sy1)" by (simp add: eq)
    with log_okD [OF l this] new show "sy_chan ?sy r' = Sent d"
      "\<exists>t. sy_tasks ?sy r' = Some t \<and> rq_call t = c'" by (auto simp: eq)
  next
    fix r' d assume "sy_chan ?sy r' = Sent d"
    with l show "\<exists>c. (r', c, d) \<in> set (sy_log ?sy)" by (auto simp: eq log_ok_def split: if_splits)
  qed
  moreover have "results_ok ?sy"
    using rs new by (auto simp: results_ok_def eq split: if_splits)
  ultimately show ?thesis by (simp add: coord_inv_def)
qed

lemma request_msg_id_inv:
  assumes "coord_inv sy"
  shows "coord_inv (request_msg_id r i sy)"
proof (cases "sy_tasks sy r")
  case None
  then show ?thesis using assms by (simp add: request_msg_id_def)
next
  case (Some t)
  have e: "entries_ok sy" and l: "log_ok sy" and rs: "results_ok sy" using assms by (auto simp: coord_inv_def)
  let ?sy = "request_msg_id r i sy"
  have keys: "map fst (sy_pending ?sy) = map fst (sy_pending sy)"
    by (simp add: request_msg_id_def Some case_prod_unfold comp_def split: option.split)
  have sim: "\<exists>p. (c, p) \<in> set (sy_pending sy) \<and> pa_tx p = pa_tx p'" if "(c, p') \<in> set (sy_pending ?sy)" for c p'
    using that by (auto simp: request_msg_id_def Some split: option.splits if_splits)
  have tasks: "\<exists>t'. sy_tasks ?sy x = Some t' \<and> rq_call t' = c" if "\<exists>t. sy_tasks sy x = Some t \<and> rq_call t = c" for x c
    using that by (auto simp: request_msg_id_def Some)
  have "entries_ok ?sy"
  proof (rule entries_okI)
    show "distinct (map fst (sy_pending ?sy))" using e by (simp add: keys entries_ok_def)
    fix c p' assume "(c, p') \<in> set (sy_pending ?sy)"
    then obtain p where p: "(c, p) \<in> set (sy_pending sy)" "pa_tx p = pa_tx p'" using sim by blast
    from entries_okD [OF e p(1)] tasks [of "pa_tx p" c] p(2)
    show "sy_chan ?sy (pa_tx p') = Open" "\<exists>t. sy_tasks ?sy (pa_tx p') = Some t \<and> rq_call t = c"
      by (simp_all add: request_msg_id_def Some)
  qed
  moreover have "log_ok ?sy"
    using l tasks unfolding log_ok_def by (simp add: request_msg_id_def Some) blast
  moreover have "results_ok ?sy"
    using rs Some by (auto simp: results_ok_def request_msg_id_def)
  ultimately show ?thesis by (simp add: coord_inv_def)
qed

lemma resolve_inv:
  assumes "coord_inv sy"
  shows "coord_inv (snd (resolve c d sy))"
proof (cases "map_of (sy_pending sy) c")
  case None
  then show ?thesis using assms by (simp add: resolve_def)
next
  case (Some p)
  then have p: "(c, p) \<in> set (sy_pending sy)" by (rule map_of_SomeD)
  have e: "entries_ok sy" and l: "log_ok sy" and rs: "results_ok sy" using assms by (auto simp: coord_inv_def)
  note own = entries_okD [OF e p]
  let ?sy = "snd (resolve c d sy)"
  have eq: "?sy = sy\<lparr>sy_pending := filter (\<lambda>(k, v). k \<noteq> c) (sy_pending sy),
      sy_chan := (sy_chan sy)(pa_tx p := Sent d), sy_log := (pa_tx p, c, d) # sy_log sy\<rparr>"
    by (simp add: resolve_def Some)
  have "entries_ok ?sy"
  proof (rule entries_okI)
    show "distinct (map fst (sy_pending ?sy))" using e by (simp add: eq entries_ok_def distinct_map_filter)
    fix c' p' assume "(c', p') \<in> set (sy_pending ?sy)"
    then have q: "(c', p') \<in> set (sy_pending sy)" "c' \<noteq> c" by (auto simp: eq)
    with entries_inj [OF e q(1) p] entries_okD [OF e q(1)]
    show "sy_chan ?sy (pa_tx p') = Open" "\<exists>t. sy_tasks ?sy (pa_tx p') = Some t \<and> rq_call t = c'"
      by (auto simp: eq)
  qed
  moreover have fresh: "(pa_tx p, c', d') \<notin> set (sy_log sy)" for c' d'
    using log_okD(1) [OF l, of "pa_tx p" c' d'] own(1) by auto
  then have "log_ok ?sy"
    using l own(2) by (auto simp: log_ok_def eq)
  moreover have "results_ok ?sy" using rs by (auto simp: results_ok_def eq split: if_splits)
  ultimately show ?thesis by (simp add: coord_inv_def)
qed

lemma cleanup_inv: "coord_inv sy \<Longrightarrow> coord_inv (snd (cleanup now sy))"
proof -
  have "coord_inv sy \<Longrightarrow> coord_inv (fold (\<lambda>(k, p). remove_entry k) es sy)" for es :: "(string \<times> pending_approval) list"
    by (induction es arbitrary: sy) (auto intro: remove_entry_inv)
  then show "coord_inv sy \<Longrightarrow> coord_inv (snd (cleanup now sy))" by (simp add: cleanup_def Let_def)
qed

lemma coord_step_inv: "coord_step sy sy' \<Longrightarrow> coord_inv sy \<Longrightarrow> coord_inv sy'"
proof (induction rule: coord_step.induct)
  case (abort r sy)
  then show ?case
    by (auto simp: request_abort_def split: option.split intro!: end_request_inv remove_entry_inv)
next
  case (decided r sy)
  then show ?case
    by (auto simp: request_decision_def split: oneshot.split intro!: end_request_inv)
qed (simp_all add: request_begin_inv request_msg_id_inv resolve_inv cleanup_inv)

lemma coord_reachable_inv: "coord_reachable sy \<Longrightarrow> coord_inv sy"
proof (induction rule: coord_reachable.induct)
  case init
  then show ?case
    by (simp add: coord_inv_def entries_ok_def log_ok_def results_ok_def coordinator_new_def)
qed (rule coord_step_inv)

subsection \<open>Properties\<close>

text \<open>C5: Under every interleaving of requests, clicks, timeouts and clean-ups, a request returns a
  decision only if that decision was given for its call, and every decision given goes to one request
  only: one click never answers two requests.\<close>

theorem approval_decisions_faithful:
  assumes "coord_reachable sy"
  shows "distinct (map fst (sy_log sy)) \<and>
    (case sy_tasks sy r of
       Some t \<Rightarrow> (case rq_result t of Some (Some d) \<Rightarrow> (r, rq_call t, d) \<in> set (sy_log sy) | _ \<Rightarrow> True)
     | None \<Rightarrow> True)"
  using coord_reachable_inv [OF assms]
  by (auto simp: coord_inv_def log_ok_def results_ok_def split: option.split)

definition sample_coordinator :: coordinator where
  "sample_coordinator =
     request_decision 1 (snd (resolve ''c'' DenyDecision (request_begin 1 ''c'' 5 100 coordinator_new)))"

lemma sample_coordinator_reachable: "coord_reachable sample_coordinator"
proof -
  have 1: "coord_reachable (request_begin 1 ''c'' 5 100 coordinator_new)"
    by (rule step [OF init start]) (simp add: coordinator_new_def)
  note 2 = step [OF 1 click [of _ "''c''" DenyDecision]]
  show ?thesis
    unfolding sample_coordinator_def
    by (rule step [OF 2 decided])
      (simp_all add: still_waiting_def resolve_def request_begin_def remove_entry_def coordinator_new_def)
qed

theorem approval_decisions_faithful_witness:
  "coord_reachable sample_coordinator \<and>
   map_option rq_result (sy_tasks sample_coordinator 1) = Some (Some (Some DenyDecision)) \<and>
   distinct (map fst (sy_log sample_coordinator)) \<and>
    (case sy_tasks sample_coordinator 1 of
       Some t \<Rightarrow> (case rq_result t of Some (Some d) \<Rightarrow> (1, rq_call t, d) \<in> set (sy_log sample_coordinator) | _ \<Rightarrow> True)
     | None \<Rightarrow> True)"
proof -
  have "map_option rq_result (sy_tasks sample_coordinator 1) = Some (Some (Some DenyDecision))"
    by (simp add: sample_coordinator_def request_decision_def end_request_def resolve_def request_begin_def
        remove_entry_def coordinator_new_def)
  then show ?thesis
    using sample_coordinator_reachable approval_decisions_faithful [OF sample_coordinator_reachable, of 1]
    by blast
qed

text \<open>A resolved call is no longer pending: a second click on it, with either decision, finds
  nothing and changes nothing.\<close>

theorem resolve_once:
  "resolve c d' (snd (resolve c d sy)) = (None, snd (resolve c d sy))"
proof -
  have "map_of (filter (\<lambda>(k, v). k \<noteq> c) kvs) c = None" for kvs :: "(string \<times> pending_approval) list"
    by (induction kvs) auto
  then show ?thesis by (simp add: resolve_def split: option.split)
qed

end
