(* ===== verification/Path_Policy.thy ===== *)
theory Path_Policy
  imports Llm_Types
begin

text \<open>
  What the agent may touch: the check in front of the file tools
  (\<^verbatim>\<open>src/src/agent/tools/path.rs\<close>) and the check in front of commands run by scripts
  (\<^verbatim>\<open>src/src/scripting/safety.rs\<close>), with the part of \<open>std::path\<close> they use.

  \<open>Path\<close> compares, joins and takes prefixes by components, so a path is the list of its components.
  The file system is a parameter: \<open>canon\<close> is \<open>Path::canonicalize\<close>, \<open>None\<close> when it fails. So are
  \<open>shellexpand::tilde\<close> and the regular expressions. A panic is the value \<open>None\<close>.
\<close>

subsection \<open>Paths\<close>

datatype component = RootDir | CurDir | ParentDir | Normal string

type_synonym path = "component list"

definition component_of :: "string \<Rightarrow> component list" where
  "component_of p =
     (if p = [] \<or> p = ''.'' then [] else if p = ''..'' then [ParentDir] else [Normal p])"

text \<open>\<open>Path::components\<close>: repeated separators and dots vanish, except a dot at the start.\<close>

definition components :: "string \<Rightarrow> path" where
  "components s =
     (let ps = split_on (CHR ''/'') s in
      (if prefix ''/'' s then [RootDir] else if hd ps = ''.'' then [CurDir] else [])
      @ concat (map component_of ps))"

fun component_text :: "component \<Rightarrow> string" where
  "component_text RootDir = []"
| "component_text CurDir = ''.''"
| "component_text ParentDir = ''..''"
| "component_text (Normal n) = n"

definition display :: "path \<Rightarrow> string" where
  "display p = (if p = [RootDir] then ''/'' else join ''/'' (map component_text p))"

definition is_absolute :: "path \<Rightarrow> bool" where
  "is_absolute p \<longleftrightarrow> p \<noteq> [] \<and> hd p = RootDir"

definition path_join :: "path \<Rightarrow> path \<Rightarrow> path" where
  "path_join p q =
     (if is_absolute q then q else if p = [] then q else p @ filter (\<lambda>c. c \<noteq> CurDir) q)"

definition parent :: "path \<Rightarrow> path option" where
  "parent p = (if p = [] \<or> last p = RootDir then None else Some (butlast p))"

definition file_name :: "path \<Rightarrow> string option" where
  "file_name p = (if p = [] then None else case last p of Normal n \<Rightarrow> Some n | _ \<Rightarrow> None)"

definition normal_name :: "string \<Rightarrow> bool" where
  "normal_name n \<longleftrightarrow> n \<noteq> [] \<and> n \<noteq> ''.'' \<and> n \<noteq> ''..'' \<and> CHR ''/'' \<notin> set n"

fun normal :: "component \<Rightarrow> bool" where
  "normal (Normal n) = normal_name n"
| "normal _ = False"

text \<open>What \<open>canonicalize\<close> documents of its result: absolute, no dots, no links.\<close>

definition canonical :: "path \<Rightarrow> bool" where
  "canonical p \<longleftrightarrow> (\<exists>cs. p = RootDir # cs \<and> list_all normal cs)"

definition canonicalizes :: "(path \<Rightarrow> path option) \<Rightarrow> bool" where
  "canonicalizes canon \<longleftrightarrow> (\<forall>p q. canon p = Some q \<longrightarrow> canonical q)"

text \<open>Where a path leads when no component is a link: a step up drops the last name.\<close>

fun walk :: "component list \<Rightarrow> component list \<Rightarrow> component list" where
  "walk at [] = at"
| "walk at (RootDir # cs) = walk [RootDir] cs"
| "walk at (CurDir # cs) = walk at cs"
| "walk at (ParentDir # cs) = walk (if length at \<le> 1 then at else butlast at) cs"
| "walk at (Normal n # cs) = walk (at @ [Normal n]) cs"

subsection \<open>The check of the file tools\<close>

datatype permission_mode = Read | Write

record sandbox_policy =
  allow_network :: bool
  allow_read :: "string list"
  allow_write :: "string list"
  allow_env :: bool
  enable_os_sandbox :: bool

definition absolute :: "path \<Rightarrow> path \<Rightarrow> path" where
  "absolute project_dir p = (if is_absolute p then p else path_join project_dir p)"

definition canon_or :: "(path \<Rightarrow> path option) \<Rightarrow> path \<Rightarrow> path" where
  "canon_or canon p = unwrap_or (canon p) p"

text \<open>The path that is checked. A path without a last name has no \<open>file_name\<close>, and unwrapping it panics.\<close>

definition check_path :: "(path \<Rightarrow> path option) \<Rightarrow> path \<Rightarrow> path option" where
  "check_path canon abs_path =
     (case canon abs_path of
        Some c \<Rightarrow> Some c
      | None \<Rightarrow>
          (case parent abs_path of
             None \<Rightarrow> Some abs_path
           | Some par \<Rightarrow>
               (case canon par of
                  None \<Rightarrow> Some abs_path
                | Some cp \<Rightarrow> map_option (\<lambda>n. path_join cp [Normal n]) (file_name abs_path))))"

definition allowed_roots ::
  "(path \<Rightarrow> path option) \<Rightarrow> (string \<Rightarrow> string) \<Rightarrow> sandbox_policy \<Rightarrow> path \<Rightarrow> path \<Rightarrow> permission_mode
   \<Rightarrow> path list" where
  "allowed_roots canon tilde policy workspace project_dir mode =
     canon_or canon workspace # canon_or canon project_dir
     # map (\<lambda>s. canon_or canon (absolute project_dir (components (tilde s))))
         (case mode of Read \<Rightarrow> allow_read policy | Write \<Rightarrow> allow_write policy)"

definition check_path_permitted ::
  "(path \<Rightarrow> path option) \<Rightarrow> (string \<Rightarrow> string) \<Rightarrow> path \<Rightarrow> sandbox_policy \<Rightarrow> path \<Rightarrow> path
   \<Rightarrow> permission_mode \<Rightarrow> (anyhow_error, unit) res option" where
  "check_path_permitted canon tilde p policy workspace project_dir mode =
     map_option (\<lambda>loc.
         if list_ex (\<lambda>root. prefix root loc) (allowed_roots canon tilde policy workspace project_dir mode)
         then Inr ()
         else Inl (Msg (''Path access denied: '' @ display p
           @ ''. Allowed roots: workspace, project, or configured policy.'')))
       (check_path canon (absolute project_dir p))"

subsection \<open>The check of commands\<close>

datatype command_safety =
    Allowed
  | SoftBlock string
  | RequireApproval string
  | HardBlock string

record safety_policy =
  sp_project_dir :: path
  sp_workspace_dir :: path
  allow_shell_chaining :: bool
  allow_global_cwd :: bool

definition safety_policy_new :: "path \<Rightarrow> path \<Rightarrow> safety_policy" where
  "safety_policy_new project_dir workspace_dir =
     \<lparr>sp_project_dir = project_dir, sp_workspace_dir = workspace_dir,
      allow_shell_chaining = False, allow_global_cwd = False\<rparr>"

definition with_shell_chaining :: "bool \<Rightarrow> safety_policy \<Rightarrow> safety_policy" where
  "with_shell_chaining allow pol = pol\<lparr>allow_shell_chaining := allow\<rparr>"

definition with_global_cwd :: "bool \<Rightarrow> safety_policy \<Rightarrow> safety_policy" where
  "with_global_cwd allow pol = pol\<lparr>allow_global_cwd := allow\<rparr>"

definition cwd_confined :: "(path \<Rightarrow> path option) \<Rightarrow> safety_policy \<Rightarrow> path \<Rightarrow> bool" where
  "cwd_confined canon pol cwd =
     (let c = canon_or canon (absolute (sp_project_dir pol) cwd) in
      prefix (canon_or canon (sp_project_dir pol)) c
      \<or> prefix (canon_or canon (sp_workspace_dir pol)) c
      \<or> prefix (components ''/tmp'') c
      \<or> prefix (components ''/var/tmp'') c)"

definition dangerous_chars :: "string list" where
  "dangerous_chars = [''&&'', ''||'', '';'', ''|'', [CHR 0x60]]"

text \<open>The loops over the arguments and the patterns: the first pattern found in the first argument that
  has one.\<close>

definition first_chaining :: "string list \<Rightarrow> string option" where
  "first_chaining cmd =
     find (\<lambda>_. True) (concat (map (\<lambda>arg. filter (contains arg) dangerous_chars) cmd))"

abbreviation bsl :: string where "bsl \<equiv> [CHR 0x5C]"

definition HARD_BLOCK_REGEX :: string where
  "HARD_BLOCK_REGEX =
     ''(rm'' @ bsl @ ''s+-rf'' @ bsl @ ''s+(/|~)|mkfs'' @ bsl @ ''.|dd'' @ bsl @ ''s+if=|:'' @ bsl @ ''('' @ bsl
     @ '')'' @ bsl @ ''{'' @ bsl @ ''s+:'' @ bsl @ ''|:&;?'' @ bsl @ ''};:)''"

definition APPROVAL_REGEX :: string where
  "APPROVAL_REGEX =
     ''(terraform'' @ bsl @ ''s+destroy|aws'' @ bsl @ ''s+.*'' @ bsl @ ''s+delete|az'' @ bsl @ ''s+group''
     @ bsl @ ''s+delete|nmap|masscan)''"

definition check_command ::
  "(path \<Rightarrow> path option) \<Rightarrow> (string \<Rightarrow> string \<Rightarrow> bool) \<Rightarrow> safety_policy \<Rightarrow> string list \<Rightarrow> path option
   \<Rightarrow> (anyhow_error, command_safety) res" where
  "check_command canon is_match pol cmd cwd =
     (if cmd = [] then Inl (Msg ''Empty command'')
      else case (case cwd of
                   Some p \<Rightarrow> if \<not> allow_global_cwd pol \<and> \<not> cwd_confined canon pol p then Some p else None
                 | None \<Rightarrow> None) of
        Some p \<Rightarrow> Inr (HardBlock (''CWD confinement violation: '' @ display p
                     @ '' is outside project/workspace''))
      | None \<Rightarrow>
          (case (if allow_shell_chaining pol then None else first_chaining cmd) of
             Some c \<Rightarrow> Inr (HardBlock (''Shell chaining/injection detected ('' @ [CHR 0x27] @ c @ [CHR 0x27]
                          @ '') and allow_shell_chaining is false''))
           | None \<Rightarrow>
               (let full = join '' '' cmd in
                if is_match HARD_BLOCK_REGEX full
                then Inr (HardBlock ''Destructive command detected (rm -rf root, mkfs, dd, fork bomb)'')
                else if is_match APPROVAL_REGEX full
                then Inr (RequireApproval (''Command requires approval: '' @ full))
                else if contains full ''grep -r /''
                then Inr (SoftBlock ''Recursive grep on root detected. Please scope to project dir.'')
                else if hd cmd = ''tmux'' \<and> (contains full ''cat /etc/shadow'' \<or> contains full ''sudo'')
                then Inr (HardBlock ''Dangerous tmux payload detected'')
                else Inr Allowed)))"

subsection \<open>Lemmas on paths\<close>

lemma split_on_join:
  "xs \<noteq> [] \<Longrightarrow> \<forall>x \<in> set xs. c \<notin> set x \<Longrightarrow> split_on c (join [c] xs) = xs"
proof (induction xs rule: induct_list012)
  case (3 x y zs)
  then show ?case using split_on_append [of c x "join [c] (y # zs)"] by simp
qed (simp_all add: split_on_no_sep)

lemma sublist_join:
  assumes "sublist p (join [c] xs)" and "c \<notin> set p" and "p \<noteq> []"
  shows "\<exists>x \<in> set xs. sublist p x"
  using assms
proof (induction xs rule: induct_list012)
  case (3 x y zs)
  let ?rest = "join [c] (y # zs)"
  from 3(3) obtain us vs where eq: "x @ c # ?rest = us @ p @ vs"
    by (auto simp: sublist_def)
  show ?case
  proof (cases "length (us @ p) \<le> length x")
    case True
    have "us @ p = take (length (us @ p)) (x @ c # ?rest)"
      unfolding eq by simp
    also from True have "\<dots> = take (length (us @ p)) x" by simp
    finally have "x = us @ p @ drop (length (us @ p)) x"
      by (metis append.assoc append_take_drop_id)
    then have "sublist p x" unfolding sublist_def by blast
    then show ?thesis by simp
  next
    case False
    have "length x < length us"
    proof (rule ccontr)
      assume "\<not> length x < length us"
      with False have i: "length us \<le> length x" "length x - length us < length p" by auto
      have "c = (us @ p @ vs) ! length x" by (metis eq nth_append_length)
      also from i have "\<dots> = p ! (length x - length us)" by (simp add: nth_append)
      finally show False using i(2) 3(4) by (metis nth_mem)
    qed
    then obtain us' where "us = x @ c # us'" "?rest = us' @ p @ vs"
      using eq by (auto simp: append_eq_append_conv2 Cons_eq_append_conv)
    then have "sublist p ?rest" by auto
    with 3(2) 3(4,5) show ?thesis by auto
  qed
qed (auto simp: sublist_def)

text \<open>What the parser of paths gives: the root or a dot at the start only, and proper names.\<close>

definition wf_path :: "path \<Rightarrow> bool" where
  "wf_path p \<longleftrightarrow> p = [] \<or> (hd p = RootDir \<or> hd p = CurDir \<or> hd p = ParentDir \<or> normal (hd p))
     \<and> list_all (\<lambda>c. c = ParentDir \<or> normal c) (tl p)"

lemma component_of_text: "c = ParentDir \<or> normal c \<Longrightarrow> component_of (component_text c) = [c]"
  by (cases c) (auto simp: component_of_def normal_name_def)

lemma components_of_texts:
  "list_all (\<lambda>c. c = ParentDir \<or> normal c) cs \<Longrightarrow> concat (map component_of (map component_text cs)) = cs"
  by (induction cs) (auto simp: component_of_text)

lemma text_no_slash: "list_all (\<lambda>c. c = ParentDir \<or> normal c) cs \<Longrightarrow> c \<in> set cs \<Longrightarrow> CHR ''/'' \<notin> set (component_text c)"
  by (induction cs) (auto simp: normal_name_def elim: normal.elims)

lemma components_display: "wf_path p \<Longrightarrow> components (display p) = p"
proof (cases p)
  case (Cons c cs)
  assume "wf_path p"
  with Cons have hd: "c = RootDir \<or> c = CurDir \<or> c = ParentDir \<or> normal c"
    and tl: "list_all (\<lambda>c. c = ParentDir \<or> normal c) cs"
    by (auto simp: wf_path_def)
  let ?ts = "map component_text p"
  have sl: "\<forall>x \<in> set ?ts. CHR ''/'' \<notin> set x"
    using hd text_no_slash [OF tl] Cons by (auto simp: normal_name_def elim: normal.elims)
  have ps: "split_on (CHR ''/'') (join ''/'' ?ts) = ?ts"
    using split_on_join [OF _ sl] Cons by simp
  have tails: "concat (map component_of (map component_text cs)) = cs"
    using tl by (rule components_of_texts)
  show ?thesis
  proof (cases "c = RootDir")
    case True
    show ?thesis
    proof (cases cs)
      case Nil
      with Cons True show ?thesis by (simp add: display_def components_def component_of_def)
    next
      case (Cons c' cs')
      with \<open>p = c # cs\<close> True have "display p = join ''/'' ?ts" and "prefix ''/'' (display p)"
        by (simp_all add: display_def)
      with ps tails True \<open>p = c # cs\<close> show ?thesis
        by (simp add: components_def component_of_def Let_def)
    qed
  next
    case False
    then have d: "display p = join ''/'' ?ts" using Cons by (simp add: display_def)
    have "component_text c \<noteq> [] \<and> CHR ''/'' \<notin> set (component_text c)"
      using False hd by (cases c) (auto simp: normal_name_def)
    then have "\<not> prefix ''/'' (join ''/'' ?ts)"
      using Cons by (cases cs; cases "component_text c") auto
    with d ps tails Cons False hd show ?thesis
      by (cases c) (auto simp: components_def component_of_def Let_def normal_name_def)
  qed
qed (simp add: display_def components_def component_of_def)

subsection \<open>What the checks guarantee\<close>

lemma canonicalD: "canonical p \<Longrightarrow> is_absolute p \<and> p \<noteq> []"
  by (auto simp: canonical_def is_absolute_def)

lemma canonical_snoc: "canonical p \<Longrightarrow> normal_name n \<Longrightarrow> canonical (p @ [Normal n])"
  by (auto simp: canonical_def)

lemma walk_normal: "list_all normal cs \<Longrightarrow> walk at (cs @ ds) = walk (at @ cs) ds"
  by (induction cs arbitrary: at) (auto elim!: normal.elims)

lemma walk_canonical: "canonical p \<Longrightarrow> walk at (p @ ds) = walk p ds"
  by (auto simp: canonical_def walk_normal)

lemma canonical_walk: "canonical p \<Longrightarrow> walk at p = p"
  using walk_canonical [of p at "[]"] by simp

lemma walk_up: "walk (RootDir # cs) (replicate (length cs + k) ParentDir @ ds) = walk [RootDir] (replicate k ParentDir @ ds)"
  by (induction cs rule: rev_induct) simp_all

lemma wf_last_normal: "wf_path p \<Longrightarrow> file_name p = Some n \<Longrightarrow> normal_name n"
proof -
  assume wf: "wf_path p" and "file_name p = Some n"
  then have l: "p \<noteq> []" "last p = Normal n"
    by (auto simp: file_name_def split: if_splits component.splits)
  show "normal_name n"
  proof (cases "tl p")
    case Nil
    with l have "p = [Normal n]" by (cases p) auto
    with wf show ?thesis by (simp add: wf_path_def)
  next
    case (Cons c cs)
    with l have "Normal n \<in> set (tl p)" by (metis last_in_set last_tl list.discI)
    with wf l show ?thesis by (auto simp: wf_path_def list_all_iff)
  qed
qed

text \<open>The place a path names when the file system can tell: itself, or its last name in its directory.\<close>

definition located :: "(path \<Rightarrow> path option) \<Rightarrow> path \<Rightarrow> path \<Rightarrow> bool" where
  "located canon p loc \<longleftrightarrow>
     canon p = Some loc
     \<or> canon p = None \<and> (\<exists>par dir n. parent p = Some par \<and> canon par = Some dir \<and> file_name p = Some n
         \<and> loc = dir @ [Normal n])"

definition unlocated :: "(path \<Rightarrow> path option) \<Rightarrow> path \<Rightarrow> bool" where
  "unlocated canon p \<longleftrightarrow> canon p = None \<and> (case parent p of None \<Rightarrow> True | Some par \<Rightarrow> canon par = None)"

lemma check_path_cases:
  assumes "canonicalizes canon"
  shows "case check_path canon p of
     Some loc \<Rightarrow> located canon p loc \<or> (unlocated canon p \<and> loc = p)
   | None \<Rightarrow> file_name p = None \<and> canon p = None \<and> (\<exists>par. parent p = Some par \<and> canon par \<noteq> None)"
  using assms
  by (auto simp: check_path_def located_def unlocated_def canonicalizes_def path_join_def is_absolute_def
      split: option.splits dest!: spec dest: canonicalD)

lemma located_canonical:
  assumes "canonicalizes canon" and "wf_path p" and "located canon p loc"
  shows "canonical loc"
  using assms canonical_snoc wf_last_normal
  by (auto simp: located_def canonicalizes_def)

text \<open>C28: What the check of the file tools guarantees. An accepted path that the file system can
  locate, by itself or by its directory, lies below one of the allowed roots with no step up left in
  it, so that walking it cannot leave the root. A path that cannot be located is compared as it is
  written. A path that ends in a step up from something that exists and is no directory makes the
  check panic.\<close>

theorem check_path_permitted_spec:
  assumes "canonicalizes canon" and "wf_path (absolute project_dir p)"
  shows "case check_path_permitted canon tilde p policy workspace project_dir mode of
     None \<Rightarrow> file_name (absolute project_dir p) = None \<and> canon (absolute project_dir p) = None
       \<and> (\<exists>par. parent (absolute project_dir p) = Some par \<and> canon par \<noteq> None)
   | Some (Inl e) \<Rightarrow>
       (\<exists>loc. (located canon (absolute project_dir p) loc \<or> loc = absolute project_dir p)
          \<and> list_all (\<lambda>root. \<not> prefix root loc) (allowed_roots canon tilde policy workspace project_dir mode))
   | Some (Inr _) \<Rightarrow>
       (\<exists>loc root. root \<in> set (allowed_roots canon tilde policy workspace project_dir mode) \<and> prefix root loc
          \<and> (located canon (absolute project_dir p) loc \<and> canonical loc \<and> walk [] loc = loc
             \<or> unlocated canon (absolute project_dir p) \<and> loc = absolute project_dir p))"
proof (cases "check_path canon (absolute project_dir p)")
  case None
  with check_path_cases [OF assms(1), of "absolute project_dir p"] show ?thesis
    by (simp add: check_path_permitted_def)
next
  case (Some loc)
  with check_path_cases [OF assms(1), of "absolute project_dir p"]
  have "located canon (absolute project_dir p) loc \<and> canonical loc \<and> walk [] loc = loc
      \<or> unlocated canon (absolute project_dir p) \<and> loc = absolute project_dir p"
    using located_canonical [OF assms] canonical_walk by auto
  with Some show ?thesis
    by (auto simp: check_path_permitted_def list_ex_iff list_all_iff)
qed

text \<open>A file system with the directories \<open>/p\<close> and \<open>/etc\<close> and the file \<open>/p/f\<close>.\<close>

definition sample_canon :: "path \<Rightarrow> path option" where
  "sample_canon p =
     (if p \<in> {components ''/p'', components ''/etc'', components ''/p/f''} then Some p
      else if p = components ''/p/../etc'' then Some (components ''/etc'') else None)"

lemma sample_canon_canonicalizes: "canonicalizes sample_canon"
  by (auto simp: canonicalizes_def sample_canon_def canonical_def components_def component_of_def
      normal_name_def split: if_splits)

definition sample_policy :: sandbox_policy where
  "sample_policy = \<lparr>allow_network = False, allow_read = [], allow_write = [], allow_env = False,
     enable_os_sandbox = False\<rparr>"

theorem check_path_permitted_spec_witness:
  "canonicalizes sample_canon \<and> wf_path (absolute (components ''/p'') (components ''new''))
   \<and> (\<exists>loc root. root \<in> set (allowed_roots sample_canon id sample_policy (components ''/w'') (components ''/p'') Write)
        \<and> prefix root loc
        \<and> (located sample_canon (absolute (components ''/p'') (components ''new'')) loc \<and> canonical loc \<and> walk [] loc = loc
           \<or> unlocated sample_canon (absolute (components ''/p'') (components ''new''))
             \<and> loc = absolute (components ''/p'') (components ''new'')))"
proof -
  let ?a = "absolute (components ''/p'') (components ''new'')"
  have wf: "wf_path ?a"
    by (simp add: absolute_def is_absolute_def path_join_def components_def component_of_def wf_path_def
        normal_name_def)
  have "check_path_permitted sample_canon id (components ''new'') sample_policy (components ''/w'')
      (components ''/p'') Write = Some (Inr ())"
    by (simp add: check_path_permitted_def check_path_def allowed_roots_def canon_or_def sample_policy_def
        absolute_def is_absolute_def path_join_def components_def component_of_def sample_canon_def
        parent_def file_name_def)
  with check_path_permitted_spec [OF sample_canon_canonicalizes wf, of id sample_policy "components ''/w''" Write]
  show ?thesis using wf sample_canon_canonicalizes by simp
qed

text \<open>A path that leaves the directory it starts in, behind a name that does not exist.\<close>

definition escape :: "path \<Rightarrow> string \<Rightarrow> string list \<Rightarrow> path" where
  "escape dir n target = dir @ Normal n # replicate (length dir) ParentDir @ map Normal target"

text \<open>The comparison as written is not enough. From every project directory, behind a name that
  does not exist, steps up lead to every place of the file system; such a path cannot be located, so
  the check reads only its beginning and accepts it, for reading and for writing.\<close>

lemma escape_permitted:
  assumes "canonical project_dir" and "canon project_dir = Some project_dir" and "normal_name n"
    and "unlocated canon (escape project_dir n target)"
  shows "check_path_permitted canon tilde (escape project_dir n target) policy workspace project_dir mode
       = Some (Inr ())
     \<and> walk [] (escape project_dir n target) = RootDir # map Normal target"
proof -
  let ?p = "escape project_dir n target"
  obtain cs where cs: "project_dir = RootDir # cs" "list_all normal cs"
    using assms(1) by (auto simp: canonical_def)
  have "is_absolute ?p" using cs by (simp add: escape_def is_absolute_def)
  moreover have "check_path canon ?p = Some ?p"
    using assms(4) by (auto simp: unlocated_def check_path_def split: option.splits)
  moreover have "prefix project_dir ?p" by (simp add: escape_def)
  ultimately have "check_path_permitted canon tilde ?p policy workspace project_dir mode = Some (Inr ())"
    using assms(2) by (simp add: check_path_permitted_def absolute_def allowed_roots_def canon_or_def)
  moreover have "walk [] ?p = RootDir # map Normal target"
  proof -
    have names: "walk at (map Normal ns) = at @ map Normal ns" for at ns
      by (induction ns arbitrary: at) auto
    have "walk [] ?p = walk (RootDir # cs @ [Normal n]) (replicate (length (cs @ [Normal n]) + 0) ParentDir @ map Normal target)"
      using walk_canonical [OF assms(1)] cs by (simp add: escape_def)
    also have "\<dots> = RootDir # map Normal target"
      unfolding walk_up by (simp add: names)
    finally show ?thesis .
  qed
  ultimately show ?thesis by simp
qed

lemma first_chaining_none:
  assumes "first_chaining cmd = None"
  shows "list_all (\<lambda>c. \<not> contains (join '' '' cmd) c) dangerous_chars"
proof -
  have "\<not> contains arg c" if "arg \<in> set cmd" "c \<in> set dangerous_chars" for arg c
    using assms that by (auto simp: first_chaining_def find_None_iff)
  moreover have "c \<noteq> [] \<and> CHR '' '' \<notin> set c" if "c \<in> set dangerous_chars" for c
    using that by (auto simp: dangerous_chars_def)
  ultimately have "\<not> sublist c (join '' '' cmd)" if "c \<in> set dangerous_chars" for c
    using sublist_join [of c "CHR '' ''" cmd] that unfolding contains_def by blast
  then show ?thesis by (simp add: list_all_iff contains_def)
qed

text \<open>What every answer but a hard block says: the directory is confined and nothing is chained.\<close>

lemma check_command_passed:
  "check_command canon is_match pol cmd cwd = Inr v \<Longrightarrow> (\<forall>msg. v \<noteq> HardBlock msg) \<Longrightarrow>
   cmd \<noteq> [] \<and> (allow_global_cwd pol \<or> (case cwd of Some p \<Rightarrow> cwd_confined canon pol p | None \<Rightarrow> True))
   \<and> (allow_shell_chaining pol \<or> list_all (\<lambda>c. \<not> contains (join '' '' cmd) c) dangerous_chars)"
  using first_chaining_none [of cmd]
  by (auto simp: check_command_def Let_def split: option.splits if_splits)

text \<open>A command that passes without a question has a working directory inside the project, the
  workspace or a directory for temporary files, unless the policy allows any; and unless the policy
  allows chaining, none of the chaining operators occurs in the command line as a whole, also not
  across two arguments.\<close>

theorem check_command_allowed:
  "case check_command canon is_match pol cmd cwd of
     Inr Allowed \<Rightarrow> cmd \<noteq> []
       \<and> (allow_global_cwd pol \<or> (case cwd of Some p \<Rightarrow> cwd_confined canon pol p | None \<Rightarrow> True))
       \<and> (allow_shell_chaining pol \<or> list_all (\<lambda>c. \<not> contains (join '' '' cmd) c) dangerous_chars)
       \<and> \<not> is_match HARD_BLOCK_REGEX (join '' '' cmd) \<and> \<not> is_match APPROVAL_REGEX (join '' '' cmd)
   | Inr _ \<Rightarrow> cmd \<noteq> []
   | Inl _ \<Rightarrow> cmd = []"
  using first_chaining_none [of cmd]
  by (auto simp: check_command_def Let_def split: option.splits if_splits)

end
