(* ===== verification/File_Tools.thy ===== *)
theory File_Tools
  imports Path_Policy Tool_Executor
begin

text \<open>
  The built-in tools (\<^verbatim>\<open>src/src/agent/tools.rs\<close>): where a path given by the model leads, reading,
  writing and editing of files behind the check of \<open>Path_Policy\<close>, the snippets of \<open>memory_get\<close>, and
  what \<open>bash\<close> and \<open>web_fetch\<close> make of the answer of the process or the server.

  The file system, the JSON parser, \<open>shellexpand::tilde\<close>, the flag of the disk monitor, the shell and
  the HTTP client are the record \<open>tool_host\<close>; \<open>'w\<close> is the world they act on. A panic is the value
  \<open>None\<close>.
\<close>

datatype workdir_strategy = Overlay | Mount

datatype bash_run = TimedOut | NotStarted anyhow_error | Finished string string "int option"

record 'w tool_host =
  canonicalize :: "'w \<Rightarrow> path \<Rightarrow> path option"
  exists_path :: "path \<Rightarrow> 'w \<Rightarrow> bool"
  read_to_string :: "path \<Rightarrow> 'w \<Rightarrow> (anyhow_error, string) res"
  fs_write :: "path \<Rightarrow> string \<Rightarrow> 'w \<Rightarrow> (anyhow_error, unit) res \<times> 'w"
  create_dir_all :: "path \<Rightarrow> 'w \<Rightarrow> (anyhow_error, unit) res \<times> 'w"
  tilde :: "string \<Rightarrow> string"
  parse_args :: "string \<Rightarrow> (anyhow_error, json) res"
  is_degraded :: "'w \<Rightarrow> bool"
  run_bash :: "path \<Rightarrow> string \<Rightarrow> u64 \<Rightarrow> 'w \<Rightarrow> bash_run \<times> 'w"
  http_get :: "string \<Rightarrow> 'w \<Rightarrow> (anyhow_error, string \<times> string) res \<times> 'w"

record file_tool =
  ft_workspace :: path
  ft_project_dir :: path
  ft_strategy :: workdir_strategy
  ft_policy :: sandbox_policy

type_synonym 'w tool_outcome = "((anyhow_error, string) res \<times> 'w) option"

subsection \<open>Paths given by the model\<close>

definition is_cognitive_path :: "string \<Rightarrow> bool" where
  "is_cognitive_path s =
     (let p = to_lowercase s in
      p = ''memory.md'' \<or> p = ''soul.md'' \<or> p = ''heartbeat.md'' \<or> p = ''identity.md'' \<or> p = ''user.md''
      \<or> p = ''agents.md'' \<or> p = ''tools.md'' \<or> starts_with p ''memory/'')"

fun trim_dot_slash :: "string \<Rightarrow> string" where
  "trim_dot_slash (a # b # r) =
     (if a = CHR ''.'' \<and> b = CHR ''/'' then trim_dot_slash r else a # b # r)"
| "trim_dot_slash s = s"

definition trim_slash :: "string \<Rightarrow> string" where
  "trim_slash s = dropWhile (\<lambda>c. c = CHR ''/'') s"

definition resolve_path :: "(string \<Rightarrow> string) \<Rightarrow> string \<Rightarrow> path \<Rightarrow> path \<Rightarrow> workdir_strategy \<Rightarrow> path" where
  "resolve_path tild s workspace project_dir strat =
     (let expanded = tild s; p = components expanded in
      if is_absolute p then p
      else case strat of
        Overlay \<Rightarrow> if is_cognitive_path expanded then path_join workspace p else path_join project_dir p
      | Mount \<Rightarrow>
          let clean_path = trim_slash (trim_dot_slash expanded) in
          if clean_path = ''project'' \<or> starts_with clean_path ''project/''
          then path_join project_dir (if clean_path = ''project'' then [] else components (drop 8 clean_path))
          else path_join workspace p)"

abbreviation resolved :: "'w tool_host \<Rightarrow> file_tool \<Rightarrow> string \<Rightarrow> path" where
  "resolved h t s \<equiv> resolve_path (tilde h) s (ft_workspace t) (ft_project_dir t) (ft_strategy t)"

abbreviation permitted ::
  "'w tool_host \<Rightarrow> file_tool \<Rightarrow> permission_mode \<Rightarrow> path \<Rightarrow> 'w \<Rightarrow> (anyhow_error, unit) res option" where
  "permitted h t mode p w \<equiv>
     check_path_permitted (canonicalize h w) (tilde h) p (ft_policy t) (ft_workspace t) (ft_project_dir t) mode"

definition str_arg :: "json \<Rightarrow> string \<Rightarrow> (anyhow_error, string) res" where
  "str_arg args k = (case as_str (jindex args k) of
     Some s \<Rightarrow> Inr s | None \<Rightarrow> Inl (Msg (''Missing '' @ k)))"

definition disk_full :: anyhow_error where
  "disk_full = Msg ''Disk full - operation not permitted until space is freed.''"

subsection \<open>Lines\<close>

text \<open>\<open>format!("{:4}\t{}", n, line)\<close>, and the lines between two indices: slicing panics when the start is
  behind the end.\<close>

definition numbered_line :: "nat \<Rightarrow> string \<Rightarrow> string" where
  "numbered_line n l =
     (let d = show_nat n in replicate (4 - length d) (CHR '' '') @ d @ [CHR 0x09] @ l)"

definition numbered_slice :: "nat \<Rightarrow> nat \<Rightarrow> string list \<Rightarrow> string list option" where
  "numbered_slice start stop ls =
     (if start \<le> stop
      then Some (map (\<lambda>(i, l). numbered_line (start + i + 1) l)
                   (enumerate 0 (take (stop - start) (drop start ls))))
      else None)"

definition slice_end :: "nat \<Rightarrow> usize \<Rightarrow> nat \<Rightarrow> nat" where
  "slice_end start n len = min (unat (of_nat start + n)) len"

definition read_lines :: "usize \<Rightarrow> usize option \<Rightarrow> string \<Rightarrow> string option" where
  "read_lines offset limit body =
     (let ls = lines body;
          total_lines = length ls;
          start = min (unat offset) total_lines;
          stop = (case limit of Some l \<Rightarrow> slice_end start l total_lines | None \<Rightarrow> total_lines)
      in map_option (join nl) (numbered_slice start stop ls))"

subsection \<open>The tools\<close>

definition read_file :: "'w tool_host \<Rightarrow> file_tool \<Rightarrow> string \<Rightarrow> 'w \<Rightarrow> 'w tool_outcome" where
  "read_file h t arguments w =
     (case bind_res (parse_args h arguments) (\<lambda>args. map_sum id (Pair args) (str_arg args ''path'')) of
        Inl e \<Rightarrow> Some (Inl e, w)
      | Inr (args, p) \<Rightarrow>
          let rp = resolved h t p in
          case permitted h t Read rp w of
            None \<Rightarrow> None
          | Some (Inl e) \<Rightarrow> Some (Inl e, w)
          | Some (Inr _) \<Rightarrow>
              (case read_to_string h rp w of
                 Inl e \<Rightarrow> Some (Inl e, w)
               | Inr body \<Rightarrow>
                   map_option (\<lambda>out. (Inr out, w))
                     (read_lines (unwrap_or (as_u64 (jindex args ''offset'')) 0)
                        (as_u64 (jindex args ''limit'')) body)))"

definition write_file :: "'w tool_host \<Rightarrow> file_tool \<Rightarrow> string \<Rightarrow> 'w \<Rightarrow> 'w tool_outcome" where
  "write_file h t arguments w =
     (if is_degraded h w then Some (Inl disk_full, w)
      else case bind_res (parse_args h arguments) (\<lambda>args.
                  bind_res (str_arg args ''path'') (\<lambda>p. map_sum id (Pair p) (str_arg args ''content''))) of
        Inl e \<Rightarrow> Some (Inl e, w)
      | Inr (p, body) \<Rightarrow>
          let rp = resolved h t p in
          case permitted h t Write rp w of
            None \<Rightarrow> None
          | Some (Inl e) \<Rightarrow> Some (Inl e, w)
          | Some (Inr _) \<Rightarrow>
              (case (case parent rp of Some par \<Rightarrow> create_dir_all h par w | None \<Rightarrow> (Inr (), w)) of
                 (Inl e, w1) \<Rightarrow> Some (Inl e, w1)
               | (Inr _, w1) \<Rightarrow>
                   (case fs_write h rp body w1 of
                      (Inl e, w2) \<Rightarrow> Some (Inl e, w2)
                    | (Inr _, w2) \<Rightarrow>
                        Some (Inr (''Successfully wrote '' @ show_nat (length body) @ '' bytes to ''
                                @ display rp), w2))))"

text \<open>\<open>str::replace\<close>, \<open>str::replacen(.., 1)\<close> and \<open>str::matches(..).count()\<close>: occurrences from the left that
  do not overlap; the empty pattern matches at every boundary of a code point.\<close>

function replace_from :: "string \<Rightarrow> string \<Rightarrow> string \<Rightarrow> string" where
  "replace_from pat new s =
     (if s = [] \<or> pat = [] then s
      else if prefix pat s then new @ replace_from pat new (drop (length pat) s)
      else hd s # replace_from pat new (tl s))"
  by pat_completeness auto
termination
  by (relation "measure (\<lambda>(p, n, s). length s)") auto

declare replace_from.simps [simp del]

function count_from :: "string \<Rightarrow> string \<Rightarrow> nat" where
  "count_from pat s =
     (if s = [] \<or> pat = [] then 0
      else if prefix pat s then Suc (count_from pat (drop (length pat) s))
      else count_from pat (tl s))"
  by pat_completeness auto
termination
  by (relation "measure (\<lambda>(p, s). length s)") auto

declare count_from.simps [simp del]

definition str_replace :: "string \<Rightarrow> string \<Rightarrow> string \<Rightarrow> string" where
  "str_replace pat new s =
     (if pat = [] then new @ concat (map (\<lambda>c. c @ new) (chars s)) else replace_from pat new s)"

definition str_matches_count :: "string \<Rightarrow> string \<Rightarrow> nat" where
  "str_matches_count pat s = (if pat = [] then char_count s + 1 else count_from pat s)"

definition str_replace_first :: "string \<Rightarrow> string \<Rightarrow> string \<Rightarrow> string" where
  "str_replace_first pat new s =
     (case find_str pat s of None \<Rightarrow> s | Some i \<Rightarrow> take i s @ new @ drop (i + length pat) s)"

definition edit_text :: "string \<Rightarrow> string \<Rightarrow> bool \<Rightarrow> string \<Rightarrow> (anyhow_error, string \<times> nat) res" where
  "edit_text old_string new_string replace_all body =
     (if replace_all then Inr (str_replace old_string new_string body, str_matches_count old_string body)
      else if contains body old_string then Inr (str_replace_first old_string new_string body, 1)
      else Inl (Msg ''old_string not found in file''))"

definition edit_file :: "'w tool_host \<Rightarrow> file_tool \<Rightarrow> string \<Rightarrow> 'w \<Rightarrow> 'w tool_outcome" where
  "edit_file h t arguments w =
     (if is_degraded h w then Some (Inl disk_full, w)
      else case bind_res (parse_args h arguments) (\<lambda>args.
                  bind_res (str_arg args ''path'') (\<lambda>p.
                  bind_res (str_arg args ''old_string'') (\<lambda>old.
                  map_sum id (\<lambda>new. (args, p, old, new)) (str_arg args ''new_string'')))) of
        Inl e \<Rightarrow> Some (Inl e, w)
      | Inr (args, p, old, new) \<Rightarrow>
          let rp = resolved h t p; replace_all = unwrap_or (as_bool (jindex args ''replace_all'')) False in
          case permitted h t Read rp w of
            None \<Rightarrow> None
          | Some (Inl e) \<Rightarrow> Some (Inl e, w)
          | Some (Inr _) \<Rightarrow>
          case permitted h t Write rp w of
            None \<Rightarrow> None
          | Some (Inl e) \<Rightarrow> Some (Inl e, w)
          | Some (Inr _) \<Rightarrow>
          case bind_res (read_to_string h rp w) (edit_text old new replace_all) of
            Inl e \<Rightarrow> Some (Inl e, w)
          | Inr (new_content, n) \<Rightarrow>
              (case fs_write h rp new_content w of
                 (Inl e, w1) \<Rightarrow> Some (Inl e, w1)
               | (Inr _, w1) \<Rightarrow>
                   Some (Inr (''Replaced '' @ show_nat n @ '' occurrence(s) in '' @ display rp), w1)))"

definition memory_get_path :: "'w tool_host \<Rightarrow> path \<Rightarrow> string \<Rightarrow> path" where
  "memory_get_path h workspace s =
     (if starts_with s ''memory/'' \<or> s = ''MEMORY.md'' \<or> s = ''HEARTBEAT.md''
      then path_join workspace (components s) else components (tilde h s))"

definition memory_snippet :: "string \<Rightarrow> usize \<Rightarrow> usize \<Rightarrow> string \<Rightarrow> string option" where
  "memory_snippet s from_line lines_count body =
     (let ls = lines body;
          total_lines = length ls;
          start = min (unat from_line - 1) total_lines;
          stop = slice_end start lines_count total_lines
      in if total_lines \<le> start
         then Some (''Line '' @ show_nat (unat from_line) @ '' is past end of file ('' @ show_nat total_lines
                @ '' lines)'')
         else map_option (\<lambda>sel. ''# '' @ s @ '' (lines '' @ show_nat (start + 1) @ ''-'' @ show_nat stop
                @ '' of '' @ show_nat total_lines @ '')'' @ nl @ join nl sel)
              (numbered_slice start stop ls))"

definition memory_get :: "'w tool_host \<Rightarrow> path \<Rightarrow> string \<Rightarrow> 'w \<Rightarrow> 'w tool_outcome" where
  "memory_get h workspace arguments w =
     (case bind_res (parse_args h arguments) (\<lambda>args. map_sum id (Pair args) (str_arg args ''path'')) of
        Inl e \<Rightarrow> Some (Inl e, w)
      | Inr (args, s) \<Rightarrow>
          let rp = memory_get_path h workspace s in
          if \<not> exists_path h rp w then Some (Inr (''File not found: '' @ s), w)
          else case read_to_string h rp w of
            Inl e \<Rightarrow> Some (Inl e, w)
          | Inr body \<Rightarrow>
              map_option (\<lambda>out. (Inr out, w))
                (memory_snippet s (max 1 (unwrap_or (as_u64 (jindex args ''from'')) 1))
                   (unwrap_or (as_u64 (jindex args ''lines'')) 50) body))"

definition bash :: "'w tool_host \<Rightarrow> file_tool \<Rightarrow> u64 \<Rightarrow> string \<Rightarrow> 'w \<Rightarrow> (anyhow_error, string) res \<times> 'w" where
  "bash h t default_timeout_ms arguments w =
     (case bind_res (parse_args h arguments) (\<lambda>args. map_sum id (Pair args) (str_arg args ''command'')) of
        Inl e \<Rightarrow> (Inl e, w)
      | Inr (args, command) \<Rightarrow>
          let timeout_ms = unwrap_or (as_u64 (jindex args ''timeout_ms'')) default_timeout_ms;
              run_dir = (case ft_strategy t of Overlay \<Rightarrow> ft_project_dir t | Mount \<Rightarrow> ft_workspace t) in
          case run_bash h run_dir command timeout_ms w of
            (TimedOut, w') \<Rightarrow> (Inl (Msg (''Command timed out after '' @ show_nat (unat timeout_ms) @ ''ms'')), w')
          | (NotStarted e, w') \<Rightarrow> (Inl e, w')
          | (Finished out err code, w') \<Rightarrow>
              (Inr (if out = [] \<and> err = []
                    then ''Command completed with exit code: '' @ show_int (unwrap_or code (-1))
                    else out @ (if err = [] then [] else (if out = [] then [] else nl2 @ ''STDERR:'' @ nl) @ err)), w'))"

definition web_fetch :: "'w tool_host \<Rightarrow> nat \<Rightarrow> string \<Rightarrow> 'w \<Rightarrow> 'w tool_outcome" where
  "web_fetch h max_bytes arguments w =
     (case bind_res (parse_args h arguments) (\<lambda>args. str_arg args ''url'') of
        Inl e \<Rightarrow> Some (Inl e, w)
      | Inr url \<Rightarrow>
          (case http_get h url w of
             (Inl e, w') \<Rightarrow> Some (Inl e, w')
           | (Inr (status, body), w') \<Rightarrow>
               map_option (\<lambda>t. (Inr (''Status: '' @ status @ nl2 @ t), w'))
                 (if max_bytes < length body
                  then map_option (\<lambda>pre. pre @ ''...'' @ nl2 @ ''[Truncated, '' @ show_nat (length body) @ '' bytes total]'')
                         (slice_to max_bytes body)
                  else Some body)))"

definition extract_tool_detail :: "(string \<Rightarrow> json option) \<Rightarrow> string \<Rightarrow> string \<Rightarrow> string option option" where
  "extract_tool_detail parse tool_name arguments =
     (case parse arguments of
        None \<Rightarrow> Some None
      | Some args \<Rightarrow>
          if tool_name = ''edit_file'' \<or> tool_name = ''write_file'' \<or> tool_name = ''read_file''
          then Some (Option.bind (or_else (jget args ''path'') (jget args ''file_path'')) as_str)
          else if tool_name = ''bash''
          then (case Option.bind (jget args ''command'') as_str of
                  None \<Rightarrow> Some None
                | Some s \<Rightarrow> if 60 < length s then map_option (\<lambda>p. Some (p @ ''...'')) (slice_to 57 s)
                            else Some (Some s))
          else if tool_name = ''memory_search''
          then Some (map_option (\<lambda>s. [CHR 0x22] @ s @ [CHR 0x22]) (Option.bind (jget args ''query'') as_str))
          else if tool_name = ''web_fetch''
          then Some (Option.bind (jget args ''url'') as_str)
          else Some None)"

subsection \<open>Reading\<close>

lemma numbered_slice_nth:
  assumes "start \<le> stop" and "stop \<le> length ls"
  shows "numbered_slice start stop ls = Some (map (\<lambda>i. numbered_line (i + 1) (ls ! i)) [start..<stop])"
  using assms
  by (auto simp: numbered_slice_def intro!: nth_equalityI simp: nth_enumerate_eq)

lemma slice_end_word:
  assumes "start < 2 ^ 64"
  shows "slice_end start n len = (if 2 ^ 64 \<le> start + unat n then min (start + unat n - 2 ^ 64) len
     else min (start + unat n) len)"
proof -
  have n: "unat n < 2 ^ 64" using unsigned_less [of n, where 'a = nat] by simp
  have "unat (of_nat start + n) = (start + unat n) mod 2 ^ 64"
    using assms by (simp add: unat_word_ariths unat_of_nat take_bit_eq_mod mod_simps)
  also have "\<dots> = (if 2 ^ 64 \<le> start + unat n then start + unat n - 2 ^ 64 else start + unat n)"
    using assms n by (simp add: mod_if le_mod_geq)
  finally show ?thesis by (simp add: slice_end_def)
qed

text \<open>Reading gives the lines from the offset on, at most as many as the limit, each with its
  number in the file, joined by newlines; an offset behind the end gives nothing. A limit so large that
  the sum with the start exceeds 64 bits wraps to an end before the start, and the slice panics.\<close>

theorem read_lines_spec:
  "read_lines offset limit body =
     (let ls = lines body;
          start = min (unat offset) (length ls);
          stop = (case limit of Some l \<Rightarrow> min (start + unat l) (length ls) | None \<Rightarrow> length ls)
      in if (case limit of Some l \<Rightarrow> 2 ^ 64 \<le> start + unat l | None \<Rightarrow> False) then None
         else Some (join nl (map (\<lambda>i. numbered_line (i + 1) (ls ! i)) [start..<stop])))"
proof -
  let ?ls = "lines body"
  let ?start = "min (unat offset) (length ?ls)"
  have s: "?start < 2 ^ 64" using unsigned_less [of offset, where 'a = nat] by simp
  show ?thesis
  proof (cases limit)
    case None
    then show ?thesis by (simp add: read_lines_def Let_def numbered_slice_nth)
  next
    case (Some l)
    have l: "unat l < 2 ^ 64" using unsigned_less [of l, where 'a = nat] by simp
    show ?thesis
    proof (cases "2 ^ 64 \<le> ?start + unat l")
      case True
      then have "\<not> ?start \<le> slice_end ?start l (length ?ls)"
        using l unfolding slice_end_word [OF s] by auto
      then have "numbered_slice ?start (slice_end ?start l (length ?ls)) ?ls = None"
        unfolding numbered_slice_def by (rule if_not_P)
      with True Some show ?thesis by (simp add: read_lines_def Let_def)
    next
      case False
      then have "numbered_slice ?start (slice_end ?start l (length ?ls)) ?ls =
          Some (map (\<lambda>i. numbered_line (i + 1) (?ls ! i)) [?start..<min (?start + unat l) (length ?ls)])"
        unfolding slice_end_word [OF s] using numbered_slice_nth by simp
      with False Some show ?thesis by (simp add: read_lines_def Let_def)
    qed
  qed
qed

subsection \<open>The check in front of the file tools\<close>

text \<open>What the arguments ask for, read off the JSON: the file, the lines of it, and the texts. Then the
  lines of a file that a reading with an offset and a limit shows, and the directories above a file created
  before it is written.\<close>

definition asks :: "'w tool_host \<Rightarrow> file_tool \<Rightarrow> string \<Rightarrow> json \<Rightarrow> path \<Rightarrow> bool" where
  "asks h t arguments args rp \<longleftrightarrow>
     parse_args h arguments = Inr args
     \<and> (\<exists>p. as_str (jindex args ''path'') = Some p \<and> rp = resolved h t p)"

definition shown :: "json \<Rightarrow> nat \<Rightarrow> bool" where
  "shown args i \<longleftrightarrow>
     unat (unwrap_or (as_u64 (jindex args ''offset'')) 0) \<le> i
     \<and> (case as_u64 (jindex args ''limit'') of
          None \<Rightarrow> True
        | Some l \<Rightarrow> i < unat (unwrap_or (as_u64 (jindex args ''offset'')) 0) + unat l)"

definition shown_lines :: "json \<Rightarrow> string list \<Rightarrow> string" where
  "shown_lines args ls =
     join nl (map (\<lambda>i. numbered_line (i + 1) (ls ! i)) (filter (shown args) [0..<length ls]))"

definition put_file :: "'w tool_host \<Rightarrow> path \<Rightarrow> string \<Rightarrow> 'w \<Rightarrow> (anyhow_error, unit) res \<times> 'w" where
  "put_file h p body w =
     (case (case parent p of Some par \<Rightarrow> create_dir_all h par w | None \<Rightarrow> (Inr (), w)) of
        (Inl e, w1) \<Rightarrow> (Inl e, w1)
      | (Inr _, w1) \<Rightarrow> fs_write h p body w1)"

lemma str_arg_iff: "str_arg args k = Inr s \<longleftrightarrow> as_str (jindex args k) = Some s"
  by (simp add: str_arg_def split: option.split)

lemma map_sum_Inr_iff: "map_sum id f r = Inr y \<longleftrightarrow> (\<exists>x. r = Inr x \<and> y = f x)"
  by (cases r) auto

lemmas guard_simps = asks_def str_arg_iff map_sum_Inr_iff res_simps Let_def

lemma filter_between:
  "filter (\<lambda>i. a \<le> i \<and> i < b) [0..<n] = [min a n..<min b n]"
  by (induction n) (auto simp: min_def not_le le_Suc_eq)

lemma filter_from:
  "filter (\<lambda>i. a \<le> i) [0..<n] = [min a n..<n]"
  by (induction n) (auto simp: min_def)

lemma read_lines_shown:
  assumes "read_lines (unwrap_or (as_u64 (jindex args ''offset'')) 0) (as_u64 (jindex args ''limit'')) body = Some out"
  shows "out = shown_lines args (lines body)"
proof -
  let ?off = "unwrap_or (as_u64 (jindex args ''offset'')) 0"
  let ?n = "length (lines body)"
  show ?thesis
  proof (cases "as_u64 (jindex args ''limit'')")
    case None
    with assms show ?thesis
      by (auto simp: read_lines_spec Let_def shown_lines_def shown_def [abs_def] filter_from split: if_splits)
  next
    case (Some l)
    have "[min (unat ?off) ?n..<min (min (unat ?off) ?n + unat l) ?n]
        = [min (unat ?off) ?n..<min (unat ?off + unat l) ?n]"
      by (cases "unat ?off \<le> ?n") auto
    with assms Some show ?thesis
      by (auto simp: read_lines_spec Let_def shown_lines_def shown_def [abs_def] filter_between split: if_splits)
  qed
qed

text \<open>What must hold for the text of a file to be given, for a text to be written, and for an edited text
  to be written back; and an offset and a limit whose sum does not fit 64 bits.\<close>

definition may_read :: "'w tool_host \<Rightarrow> file_tool \<Rightarrow> string \<Rightarrow> 'w \<Rightarrow> json \<Rightarrow> string \<Rightarrow> bool" where
  "may_read h t arguments w args body \<longleftrightarrow>
     (\<exists>rp. asks h t arguments args rp \<and> permitted h t Read rp w = Some (Inr ())
       \<and> read_to_string h rp w = Inr body)"

definition may_write :: "'w tool_host \<Rightarrow> file_tool \<Rightarrow> string \<Rightarrow> 'w \<Rightarrow> path \<Rightarrow> string \<Rightarrow> bool" where
  "may_write h t arguments w rp body \<longleftrightarrow> \<not> is_degraded h w
     \<and> (\<exists>args. asks h t arguments args rp \<and> as_str (jindex args ''content'') = Some body)
     \<and> permitted h t Write rp w = Some (Inr ())"

definition may_edit :: "'w tool_host \<Rightarrow> file_tool \<Rightarrow> string \<Rightarrow> 'w \<Rightarrow> path \<Rightarrow> string \<Rightarrow> bool" where
  "may_edit h t arguments w rp out \<longleftrightarrow> \<not> is_degraded h w
     \<and> permitted h t Read rp w = Some (Inr ()) \<and> permitted h t Write rp w = Some (Inr ())
     \<and> (\<exists>args old new body n. asks h t arguments args rp
         \<and> as_str (jindex args ''old_string'') = Some old \<and> as_str (jindex args ''new_string'') = Some new
         \<and> read_to_string h rp w = Inr body
         \<and> edit_text old new (as_bool (jindex args ''replace_all'') = Some True) body = Inr (out, n))"

definition too_far :: "json \<Rightarrow> bool" where
  "too_far args \<longleftrightarrow> (case as_u64 (jindex args ''limit'') of
     None \<Rightarrow> False
   | Some l \<Rightarrow> 2 ^ 64 \<le> unat (unwrap_or (as_u64 (jindex args ''offset'')) 0) + unat l)"

lemma read_lines_too_far:
  assumes "read_lines (unwrap_or (as_u64 (jindex args ''offset'')) 0) (as_u64 (jindex args ''limit'')) body = None"
  shows "too_far args"
  using assms
  by (cases "as_u64 (jindex args ''limit'')")
     (auto simp: read_lines_spec Let_def too_far_def min_def split: if_splits)

lemma asks_iff:
  assumes "parse_args h arguments = Inr args" and "as_str (jindex args ''path'') = Some p"
  shows "asks h t arguments args' rp \<longleftrightarrow> args' = args \<and> rp = resolved h t p"
  using assms by (auto simp: asks_def)

lemma read_file_guarded:
  "(case read_file h t arguments w of
      None \<Rightarrow> (\<exists>args rp. asks h t arguments args rp \<and> (permitted h t Read rp w = None \<or> too_far args))
    | Some (Inl e, w') \<Rightarrow> w' = w \<and> \<not> (\<exists>args body. may_read h t arguments w args body)
    | Some (Inr out, w') \<Rightarrow>
        w' = w \<and> (\<exists>args body. may_read h t arguments w args body \<and> out = shown_lines args (lines body)))"
proof -
  let ?r = "bind_res (parse_args h arguments) (\<lambda>args. map_sum id (Pair args) (str_arg args ''path''))"
  show ?thesis
  proof (cases ?r)
    case (Inl e)
    then have "\<not> asks h t arguments args rp" for args rp by (auto simp: asks_def str_arg_def)
    with Inl show ?thesis by (simp add: read_file_def may_read_def)
  next
    case (Inr ap)
    obtain args p where ap: "ap = (args, p)" by (cases ap)
    with Inr have "parse_args h arguments = Inr args" "as_str (jindex args ''path'') = Some p"
      by (auto simp: guard_simps)
    note i = asks_iff [OF this]
    from Inr ap show ?thesis
      by (auto simp: read_file_def may_read_def i Let_def split: option.splits sum.splits
          dest: read_lines_shown read_lines_too_far)
  qed
qed

lemma write_file_guarded:
  "(case write_file h t arguments w of
      None \<Rightarrow> \<exists>args rp. asks h t arguments args rp \<and> permitted h t Write rp w = None
    | Some (r, w') \<Rightarrow>
        if \<exists>rp body. may_write h t arguments w rp body
        then \<exists>rp body. may_write h t arguments w rp body \<and> put_file h rp body w = (map_sum id (\<lambda>_. ()) r, w')
        else \<not> is_ok r \<and> w' = w)"
proof -
  let ?r = "bind_res (parse_args h arguments) (\<lambda>args.
      bind_res (str_arg args ''path'') (\<lambda>p. map_sum id (Pair p) (str_arg args ''content'')))"
  show ?thesis
  proof (cases ?r)
    case (Inl e)
    then have "\<not> may_write h t arguments w rp body" for rp body by (auto simp: asks_def str_arg_def may_write_def)
    with Inl show ?thesis by (auto simp: write_file_def)
  next
    case (Inr ap)
    obtain p body where ap: "ap = (p, body)" by (cases ap)
    with Inr obtain args where "parse_args h arguments = Inr args" "as_str (jindex args ''path'') = Some p"
      and c: "as_str (jindex args ''content'') = Some body"
      by (auto simp: guard_simps)
    note i = asks_iff [OF this(1,2)]
    have m: "may_write h t arguments w rp b \<longleftrightarrow> \<not> is_degraded h w \<and> rp = resolved h t p \<and> b = body
        \<and> permitted h t Write rp w = Some (Inr ())" for rp b
      by (auto simp: may_write_def i c)
    from Inr ap show ?thesis
      by (auto simp: write_file_def put_file_def m i Let_def split: prod.splits sum.splits option.splits)
  qed
qed

lemma edit_file_guarded:
  "(case edit_file h t arguments w of
      None \<Rightarrow> \<exists>args rp. asks h t arguments args rp
                \<and> (permitted h t Read rp w = None \<or> permitted h t Write rp w = None)
    | Some (r, w') \<Rightarrow>
        if \<exists>rp out. may_edit h t arguments w rp out
        then \<exists>rp out. may_edit h t arguments w rp out \<and> fs_write h rp out w = (map_sum id (\<lambda>_. ()) r, w')
        else \<not> is_ok r \<and> w' = w)"
proof -
  let ?r = "bind_res (parse_args h arguments) (\<lambda>args.
      bind_res (str_arg args ''path'') (\<lambda>p.
      bind_res (str_arg args ''old_string'') (\<lambda>old.
      map_sum id (\<lambda>new. (args, p, old, new)) (str_arg args ''new_string''))))"
  show ?thesis
  proof (cases ?r)
    case (Inl e)
    then have "\<not> may_edit h t arguments w rp out" for rp out by (auto simp: asks_def str_arg_def may_edit_def)
    with Inl show ?thesis by (auto simp: edit_file_def)
  next
    case (Inr ap)
    obtain args p old new where ap: "ap = (args, p, old, new)" by (cases ap)
    let ?rp = "resolved h t p"
    from Inr ap have a: "parse_args h arguments = Inr args" "as_str (jindex args ''path'') = Some p"
        and c: "as_str (jindex args ''old_string'') = Some old" "as_str (jindex args ''new_string'') = Some new"
      by (auto simp: guard_simps)
    note i = asks_iff [OF a]
    let ?all = "unwrap_or (as_bool (jindex args ''replace_all'')) False"
    have all: "?all = (as_bool (jindex args ''replace_all'') = Some True)"
      by (cases "as_bool (jindex args ''replace_all'')") auto
    have m: "may_edit h t arguments w rp out \<longleftrightarrow> \<not> is_degraded h w \<and> rp = ?rp
        \<and> permitted h t Read ?rp w = Some (Inr ()) \<and> permitted h t Write ?rp w = Some (Inr ())
        \<and> (\<exists>n. bind_res (read_to_string h ?rp w) (edit_text old new ?all) = Inr (out, n))" for rp out
      by (auto simp: may_edit_def i c all res_simps)
    from Inr ap show ?thesis
      by (cases "bind_res (read_to_string h ?rp w) (edit_text old new ?all)")
         (auto simp: edit_file_def m i Let_def split: option.splits sum.splits prod.splits)
  qed
qed

text \<open>C27: The file tools act only on the path named in their arguments, and only where the policy
  permits it. Reading never changes anything, and what it gives are the numbered lines, selected by offset
  and limit, of the file at the very path that passed the check for reading. Writing happens exactly when
  the disk is not full, the arguments name a path and a content and the path passed the check for writing:
  then the directories above that path are created and that content is written there, and the outcome of
  this is the one reported. Editing checks the path in both modes, reads the file there, replaces the old
  string of the arguments by the new one and writes the result back to the same path. In every other case
  each tool reports an error and has touched nothing, or it panics, which happens only in the check or on
  an offset and a limit that do not fit 64 bits together.\<close>

theorem file_tools_guarded:
  "(case read_file h t arguments w of
      None \<Rightarrow> (\<exists>args rp. asks h t arguments args rp \<and> (permitted h t Read rp w = None \<or> too_far args))
    | Some (Inl e, w') \<Rightarrow> w' = w \<and> \<not> (\<exists>args body. may_read h t arguments w args body)
    | Some (Inr out, w') \<Rightarrow>
        w' = w \<and> (\<exists>args body. may_read h t arguments w args body \<and> out = shown_lines args (lines body)))
   \<and> (case write_file h t arguments w of
      None \<Rightarrow> \<exists>args rp. asks h t arguments args rp \<and> permitted h t Write rp w = None
    | Some (r, w') \<Rightarrow>
        if \<exists>rp body. may_write h t arguments w rp body
        then \<exists>rp body. may_write h t arguments w rp body \<and> put_file h rp body w = (map_sum id (\<lambda>_. ()) r, w')
        else \<not> is_ok r \<and> w' = w)
   \<and> (case edit_file h t arguments w of
      None \<Rightarrow> \<exists>args rp. asks h t arguments args rp
                \<and> (permitted h t Read rp w = None \<or> permitted h t Write rp w = None)
    | Some (r, w') \<Rightarrow>
        if \<exists>rp out. may_edit h t arguments w rp out
        then \<exists>rp out. may_edit h t arguments w rp out \<and> fs_write h rp out w = (map_sum id (\<lambda>_. ()) r, w')
        else \<not> is_ok r \<and> w' = w)"
  by (intro conjI read_file_guarded write_file_guarded edit_file_guarded)

subsection \<open>Editing\<close>

lemma join_Cons_head: "join sep ((x # p) # ps) = x # join sep (p # ps)"
  by (cases ps) auto

lemma join_Nil_Cons: "qs \<noteq> [] \<Longrightarrow> join sep ([] # qs) = sep @ join sep qs"
  by (cases qs) auto

lemma prefix_join: "prefix p (join sep (p # ps))"
  by (cases ps) auto

text \<open>The pieces between the occurrences: the text, the edited text and the count are read off them.\<close>

lemma replace_pieces:
  "pat \<noteq> [] \<Longrightarrow> \<exists>p ps. s = join pat (p # ps) \<and> replace_from pat new s = join new (p # ps)
     \<and> count_from pat s = length ps \<and> list_all (\<lambda>q. \<not> contains q pat) (p # ps)"
proof (induction pat new s rule: replace_from.induct)
  case (1 pat new s)
  consider "s = []" | "s \<noteq> []" "prefix pat s" | "s \<noteq> []" "\<not> prefix pat s" by auto
  then show ?case
  proof cases
    case 1
    with "1.prems" show ?thesis
      by (intro exI [of _ "[]"]) (simp add: replace_from.simps count_from.simps contains_def)
  next
    case 2
    with "1.IH"(1) "1.prems" obtain p ps where
      "drop (length pat) s = join pat (p # ps)" "replace_from pat new (drop (length pat) s) = join new (p # ps)"
      "count_from pat (drop (length pat) s) = length ps" "list_all (\<lambda>q. \<not> contains q pat) (p # ps)"
      by blast
    moreover have "s = pat @ drop (length pat) s"
      using 2 by (auto simp: prefix_def)
    moreover have "replace_from pat new s = new @ replace_from pat new (drop (length pat) s)"
      and "count_from pat s = Suc (count_from pat (drop (length pat) s))"
      using 2 "1.prems" by (simp_all add: replace_from.simps [of pat new s] count_from.simps [of pat s])
    ultimately have "s = join pat ([] # p # ps) \<and> replace_from pat new s = join new ([] # p # ps)
        \<and> count_from pat s = length (p # ps) \<and> list_all (\<lambda>q. \<not> contains q pat) ([] # p # ps)"
      using "1.prems" by (simp add: contains_def)
    then show ?thesis by blast
  next
    case 3
    with "1.IH"(2) "1.prems" obtain p ps where ih:
      "tl s = join pat (p # ps)" "replace_from pat new (tl s) = join new (p # ps)"
      "count_from pat (tl s) = length ps" "list_all (\<lambda>q. \<not> contains q pat) (p # ps)"
      by blast
    have s: "s = join pat ((hd s # p) # ps)"
      using 3(1) ih(1) by (metis join_Cons_head list.collapse)
    then have "\<not> prefix pat (hd s # p)"
      using 3(2) prefix_join [of "hd s # p" pat ps] by (metis prefix_order.trans)
    with ih(4) have "\<not> contains (hd s # p) pat"
      by (simp add: contains_def sublist_Cons_right)
    with s ih 3 "1.prems" show ?thesis
      by (intro exI [of _ "hd s # p"] exI [of _ ps])
        (simp add: replace_from.simps [of pat new s] count_from.simps [of pat s] join_Cons_head)
  qed
qed

lemma find_str_first:
  "find_str p s = Some i \<Longrightarrow> s = take i s @ p @ drop (i + length p) s
     \<and> (\<forall>j < i. \<not> prefix p (drop j s))"
proof (induction s arbitrary: i)
  case (Cons x xs)
  show ?case
  proof (cases "prefix p (x # xs)")
    case True
    with Cons.prems show ?thesis by (auto simp: prefix_def)
  next
    case False
    with Cons.prems obtain k where k: "find_str p xs = Some k" "i = Suc k" by auto
    with Cons.IH [OF k(1)] False show ?thesis
      by (auto simp: less_Suc_eq_0_disj)
  qed
qed (simp split: if_splits)

lemma find_str_contains: "contains s p \<Longrightarrow> \<exists>i. find_str p s = Some i"
  unfolding contains_def by (induction s) (auto simp: sublist_Cons_right)

text \<open>What editing makes of a text. Replacing all occurrences cuts the text at the occurrences,
  from the left and without overlap, and joins the pieces with the new string; the count is the number
  of cuts, and no piece contains an occurrence. Replacing one changes the first occurrence and nothing
  else. Only without the option is a text with no occurrence an error: with it the text stays as it is
  and zero replacements are reported as a success.\<close>

theorem edit_text_spec:
  "case edit_text old new all body of
     Inl _ \<Rightarrow> all = False \<and> \<not> contains body old
   | Inr (out, n) \<Rightarrow>
       if all then \<exists>pieces. body = join old pieces \<and> out = join new pieces \<and> length pieces = n + 1
           \<and> (old = [] \<or> list_all (\<lambda>q. \<not> contains q old) pieces)
       else \<exists>a b. body = a @ old @ b \<and> out = a @ new @ b \<and> n = 1
           \<and> list_all (\<lambda>j. \<not> prefix old (drop j body)) [0..<length a]"
proof (cases all)
  case True
  show ?thesis
  proof (cases "old = []")
    case True
    have empty: "join [] xs = concat xs" for xs :: "string list"
      by (induction "[] :: string" xs rule: join.induct) auto
    have tail: "join new (xs @ [[]]) = concat (map (\<lambda>c. c @ new) xs)" for xs
    proof (induction xs)
      case (Cons x xs)
      then show ?case by (cases xs) auto
    qed simp
    have "join new ([] # xs @ [[]]) = new @ concat (map (\<lambda>c. c @ new) xs)" for xs
      using tail [of "[] # xs"] by simp
    then have "body = join old ([] # chars body @ [[]]) \<and> str_replace old new body = join new ([] # chars body @ [[]])
        \<and> length ([] # chars body @ [[]]) = str_matches_count old body + 1"
      using True by (simp add: empty str_replace_def str_matches_count_def char_count_def)
    then show ?thesis unfolding edit_text_def if_P [OF \<open>all\<close>] sum.case prod.case using True by blast
  next
    case False
    from replace_pieces [OF False, of body new] obtain p ps where
      "body = join old (p # ps)" "replace_from old new body = join new (p # ps)"
      "count_from old body = length ps" "list_all (\<lambda>q. \<not> contains q old) (p # ps)"
      by blast
    then have "body = join old (p # ps) \<and> str_replace old new body = join new (p # ps)
        \<and> length (p # ps) = str_matches_count old body + 1
        \<and> (old = [] \<or> list_all (\<lambda>q. \<not> contains q old) (p # ps))"
      using False by (simp add: str_replace_def str_matches_count_def)
    then show ?thesis unfolding edit_text_def if_P [OF \<open>all\<close>] sum.case prod.case by blast
  qed
next
  case False
  show ?thesis
  proof (cases "contains body old")
    case True
    then obtain i where i: "find_str old body = Some i" using find_str_contains by blast
    note f = find_str_first [OF i]
    have "length (take i body) \<le> i" by simp
    with f have "body = take i body @ old @ drop (i + length old) body
        \<and> list_all (\<lambda>j. \<not> prefix old (drop j body)) [0..<length (take i body)]"
      by (auto simp: list_all_iff)
    then show ?thesis
      unfolding edit_text_def if_not_P [OF False] if_P [OF True] sum.case prod.case str_replace_first_def i
        option.case
      by blast
  qed (simp add: edit_text_def False)
qed

subsection \<open>Ways around the check\<close>

lemma wf_escape:
  assumes "canonical dir" and "normal_name n" and "list_all normal_name target"
  shows "wf_path (escape dir n target)"
proof -
  have "list_all (\<lambda>c. c = ParentDir \<or> normal c) (map Normal target)"
    using assms(3) by (simp add: list_all_iff)
  with assms(1,2) show ?thesis
    by (auto simp: canonical_def escape_def wf_path_def list_all_iff)
qed

text \<open>The tool that writes files can write anywhere. Given the path from the project through a name
  that does not exist and up again to any target, the check accepts the path as written; the tool then
  creates the directory that was missing, and writes to a path that leads to the target.\<close>

theorem write_file_escapes:
  assumes "canonical (ft_project_dir t)" and "canonicalize h w (ft_project_dir t) = Some (ft_project_dir t)"
    and "normal_name n" and "list_all normal_name target" and "target \<noteq> []"
    and "unlocated (canonicalize h w) (escape (ft_project_dir t) n target)"
    and "\<not> is_degraded h w"
    and "parse_args h arguments = Inr args"
    and "as_str (jindex args ''path'') = Some (display (escape (ft_project_dir t) n target))"
    and "as_str (jindex args ''content'') = Some body"
    and "tilde h (display (escape (ft_project_dir t) n target)) = display (escape (ft_project_dir t) n target)"
    and "create_dir_all h (butlast (escape (ft_project_dir t) n target)) w = (Inr (), w1)"
    and "fs_write h (escape (ft_project_dir t) n target) body w1 = (Inr (), w2)"
  shows "\<exists>out. write_file h t arguments w = Some (Inr out, w2)
     \<and> walk [] (escape (ft_project_dir t) n target) = RootDir # map Normal target"
proof -
  let ?e = "escape (ft_project_dir t) n target"
  have c: "components (display ?e) = ?e"
    using wf_escape [OF assms(1,3,4)] by (rule components_display)
  have abs: "is_absolute ?e"
    using assms(1) by (auto simp: canonical_def escape_def is_absolute_def)
  have rp: "resolved h t (display ?e) = ?e"
    using assms(11) c abs by (simp add: resolve_path_def Let_def)
  have par: "parent ?e = Some (butlast ?e)"
    using assms(5) by (simp add: parent_def escape_def last_map)
  have ok: "permitted h t Write ?e w = Some (Inr ())" "walk [] ?e = RootDir # map Normal target"
    using escape_permitted [OF assms(1,2,3,6)] by simp_all
  show ?thesis
    using ok rp par assms(7-10,12,13) by (simp add: write_file_def str_arg_def)
qed

text \<open>A host that records what it is asked to write, over the file system of \<open>sample_canon\<close>, where every
  argument reads as one fixed object.\<close>

definition sample_host :: "json \<Rightarrow> (path \<times> string) list tool_host" where
  "sample_host args =
     \<lparr>canonicalize = (\<lambda>w. sample_canon), exists_path = (\<lambda>p w. True),
      read_to_string = (\<lambda>p w. Inr ''root:x:0:0''), fs_write = (\<lambda>p s w. (Inr (), (p, s) # w)),
      create_dir_all = (\<lambda>p w. (Inr (), (p, []) # w)), tilde = id, parse_args = (\<lambda>s. Inr args),
      is_degraded = (\<lambda>w. False), run_bash = (\<lambda>d c ms w. (TimedOut, w)),
      http_get = (\<lambda>u w. (Inl (Msg ''offline''), w))\<rparr>"

definition sample_file_tool :: file_tool where
  "sample_file_tool = \<lparr>ft_workspace = components ''/w'', ft_project_dir = components ''/p'',
     ft_strategy = Overlay, ft_policy = sample_policy\<rparr>"

definition escape_args :: json where
  "escape_args = JObj [''path'' \<mapsto> JStr (display (escape (components ''/p'') ''none'' [''etc'', ''passwd''])),
     ''content'' \<mapsto> JStr ''x'']"

theorem write_file_escapes_witness:
  "\<exists>out dirs. write_file (sample_host escape_args) sample_file_tool ''{}'' [] =
      Some (Inr out, [(escape (components ''/p'') ''none'' [''etc'', ''passwd''], ''x''), (dirs, [])])
   \<and> walk [] (escape (components ''/p'') ''none'' [''etc'', ''passwd'']) = components ''/etc/passwd''"
proof -
  let ?h = "sample_host escape_args"
  let ?e = "escape (ft_project_dir sample_file_tool) ''none'' [''etc'', ''passwd'']"
  have e: "?e = escape (components ''/p'') ''none'' [''etc'', ''passwd'']"
    by (simp add: sample_file_tool_def)
  have "canonical (ft_project_dir sample_file_tool)"
    and "canonicalize ?h [] (ft_project_dir sample_file_tool) = Some (ft_project_dir sample_file_tool)"
    and "normal_name ''none''" and "list_all normal_name [''etc'', ''passwd'']" and "[''etc'', ''passwd''] \<noteq> []"
    by (simp_all add: canonical_def components_def component_of_def normal_name_def sample_canon_def
        sample_host_def sample_file_tool_def)
  moreover have "unlocated (canonicalize ?h []) ?e"
    by (simp add: sample_host_def sample_file_tool_def unlocated_def escape_def parent_def components_def
        component_of_def sample_canon_def numeral_eq_Suc)
  moreover have "\<not> is_degraded ?h []" and "parse_args ?h ''{}'' = Inr escape_args"
    and "as_str (jindex escape_args ''path'') = Some (display ?e)"
    and "as_str (jindex escape_args ''content'') = Some ''x''" and "tilde ?h (display ?e) = display ?e"
    and "create_dir_all ?h (butlast ?e) [] = (Inr (), [(butlast ?e, [])])"
    and "fs_write ?h ?e ''x'' [(butlast ?e, [])] = (Inr (), [(?e, ''x''), (butlast ?e, [])])"
    by (simp_all add: sample_host_def escape_args_def jindex_def e)
  ultimately have "\<exists>out. write_file ?h sample_file_tool ''{}'' [] = Some (Inr out, [(?e, ''x''), (butlast ?e, [])])
      \<and> walk [] ?e = RootDir # map Normal [''etc'', ''passwd'']"
    by (rule write_file_escapes)
  moreover have "RootDir # map Normal [''etc'', ''passwd''] = components ''/etc/passwd''"
    by (simp add: components_def component_of_def)
  ultimately show ?thesis unfolding e by metis
qed

text \<open>The tool for snippets of the memory reads any file. A path outside the memory is taken as it
  is and not checked: a file that \<open>read_file\<close> refuses under the policy is read by \<open>memory_get\<close> with the
  same arguments.\<close>

theorem memory_get_unchecked:
  assumes "parse_args h arguments = Inr args" and "as_str (jindex args ''path'') = Some s"
    and "as_u64 (jindex args ''from'') = None" and "as_u64 (jindex args ''lines'') = None"
    and "is_absolute (components s)" and "tilde h s = s"
    and "permitted h t Read (components s) w = Some (Inl e)"
    and "exists_path h (components s) w" and "read_to_string h (components s) w = Inr body"
    and "lines body \<noteq> []"
  shows "read_file h t arguments w = Some (Inl e, w)
    \<and> (\<exists>header. memory_get h (ft_workspace t) arguments w =
         Some (Inr (header @ nl @ join nl (map (\<lambda>i. numbered_line (i + 1) (lines body ! i))
           [0..<min 50 (length (lines body))])), w))"
proof
  have rp: "resolved h t s = components s"
    using assms(5,6) by (simp add: resolve_path_def Let_def)
  show "read_file h t arguments w = Some (Inl e, w)"
    using assms(1,2,7) rp by (simp add: read_file_def str_arg_def)
  have abs: "\<not> (starts_with s ''memory/'' \<or> s = ''MEMORY.md'' \<or> s = ''HEARTBEAT.md'')"
    using assms(5)
    by (auto simp: is_absolute_def components_def component_of_def starts_with_def prefix_def split: if_splits)
  have sl: "numbered_slice 0 (slice_end 0 50 (length (lines body))) (lines body) =
      Some (map (\<lambda>i. numbered_line (i + 1) (lines body ! i)) [0..<min 50 (length (lines body))])"
    by (simp add: slice_end_def numbered_slice_nth)
  show "\<exists>header. memory_get h (ft_workspace t) arguments w =
         Some (Inr (header @ nl @ join nl (map (\<lambda>i. numbered_line (i + 1) (lines body ! i))
           [0..<min 50 (length (lines body))])), w)"
    using assms abs sl
    by (simp add: memory_get_def str_arg_def memory_get_path_def memory_snippet_def Let_def)
qed

theorem memory_get_unchecked_witness:
  "let h = sample_host (JObj [''path'' \<mapsto> JStr ''/etc/shadow'']) in
   (\<exists>e. read_file h sample_file_tool ''{}'' [] = Some (Inl e, []))
   \<and> (\<exists>header. memory_get h (ft_workspace sample_file_tool) ''{}'' [] =
         Some (Inr (header @ nl @ numbered_line 1 ''root:x:0:0''), []))"
proof -
  let ?args = "JObj [''path'' \<mapsto> JStr ''/etc/shadow'']"
  let ?h = "sample_host ?args"
  have args: "parse_args ?h ''{}'' = Inr ?args" "as_str (jindex ?args ''path'') = Some ''/etc/shadow''"
      "as_u64 (jindex ?args ''from'') = None" "as_u64 (jindex ?args ''lines'') = None"
    by (simp_all add: sample_host_def jindex_def)
  have path: "is_absolute (components ''/etc/shadow'')" "tilde ?h ''/etc/shadow'' = ''/etc/shadow''"
    by (simp_all add: components_def component_of_def is_absolute_def sample_host_def)
  have "\<exists>e. permitted ?h sample_file_tool Read (components ''/etc/shadow'') [] = Some (Inl e)"
    by (simp add: check_path_permitted_def check_path_def allowed_roots_def canon_or_def sample_policy_def
        absolute_def is_absolute_def path_join_def components_def component_of_def sample_canon_def
        parent_def file_name_def sample_host_def sample_file_tool_def)
  then obtain e where e: "permitted ?h sample_file_tool Read (components ''/etc/shadow'') [] = Some (Inl e)"
    by blast
  have fl: "exists_path ?h (components ''/etc/shadow'') []"
      "read_to_string ?h (components ''/etc/shadow'') [] = Inr ''root:x:0:0''"
    by (simp_all add: sample_host_def)
  have ls: "lines ''root:x:0:0'' = [''root:x:0:0'']"
    by (simp add: lines_def newline_def Let_def)
  then have "lines ''root:x:0:0'' \<noteq> []" by simp
  from memory_get_unchecked [OF args path e fl this] ls show ?thesis
    by (auto simp: Let_def)
qed

text \<open>Truncating the body of a web page at a number of bytes panics exactly when the cut falls inside a
  code point.\<close>

lemma web_fetch_panics:
  assumes "parse_args h arguments = Inr args" and "as_str (jindex args ''url'') = Some url"
    and "http_get h url w = (Inr (status, body), w')"
  shows "web_fetch h max_bytes arguments w = None \<longleftrightarrow>
     0 < max_bytes \<and> max_bytes < length body \<and> is_cont_byte (body ! max_bytes)"
  using assms by (auto simp: web_fetch_def str_arg_def slice_to_def is_char_boundary_def)

end
