(* ===== verification/Http_Stream.thy ===== *)
theory Http_Stream
  imports Llm_Types
begin

text \<open>
  What the HTTP providers share (\<^verbatim>\<open>src/src/agent/providers.rs\<close>): the request and the response of an
  HTTP client, the decoding of the bytes of a chunk, and the loop that cuts what has arrived into
  events and keeps the rest.

  The client is the field \<open>post\<close> of the record \<open>http_host\<close>, acting on the world \<open>'w\<close>. The chunks of a
  response are given as they arrive, an \<open>Inl\<close> being a transport error by its text. JSON text is read
  and printed by \<open>of_json\<close> and \<open>to_json\<close>, the functions of the crate.
\<close>

record http_request =
  rq_url :: string
  rq_headers :: "(string \<times> string) list"
  rq_body :: json

record http_response =
  rs_status :: u16
  rs_json :: "(anyhow_error, json) res"
  rs_text :: "(anyhow_error, string) res"
  rs_chunks :: "(string, string) res list"

record 'w http_host =
  post :: "http_request \<Rightarrow> 'w \<Rightarrow> (anyhow_error, http_response) res \<times> 'w"
  of_json :: "string \<Rightarrow> json option"
  to_json :: "json \<Rightarrow> string"

type_synonym stream_chunks = "(anyhow_error, stream_chunk) res list"

definition is_success :: "u16 \<Rightarrow> bool" where
  "is_success status \<longleftrightarrow> 200 \<le> status \<and> status < 300"

definition text_chunk :: "string \<Rightarrow> (anyhow_error, stream_chunk) res" where
  "text_chunk t = Inr \<lparr>delta = t, chunk_done = False, chunk_tool_calls = None\<rparr>"

definition last_chunk :: "tool_call list option \<Rightarrow> (anyhow_error, stream_chunk) res" where
  "last_chunk calls = Inr \<lparr>delta = [], chunk_done = True, chunk_tool_calls = calls\<rparr>"

subsection \<open>Decoding of bytes\<close>

text \<open>\<open>String::from_utf8_lossy\<close>. \<open>utf8_len b\<close> is the number of bytes a code point that starts with \<open>b\<close> has,
  \<open>second_ok\<close> the range of its second byte; a sequence that is cut short or broken is replaced by
  U+FFFD, as far as it was correct.\<close>

definition utf8_len :: "nat \<Rightarrow> nat" where
  "utf8_len b =
     (if b < 128 then 1 else if 194 \<le> b \<and> b \<le> 223 then 2 else if 224 \<le> b \<and> b \<le> 239 then 3
      else if 240 \<le> b \<and> b \<le> 244 then 4 else 0)"

definition second_ok :: "nat \<Rightarrow> nat \<Rightarrow> bool" where
  "second_ok b c \<longleftrightarrow>
     (if b = 224 then 160 \<le> c \<and> c \<le> 191 else if b = 237 then 128 \<le> c \<and> c \<le> 159
      else if b = 240 then 144 \<le> c \<and> c \<le> 191 else if b = 244 then 128 \<le> c \<and> c \<le> 143
      else 128 \<le> c \<and> c \<le> 191)"

fun good_bytes :: "nat \<Rightarrow> nat \<Rightarrow> string \<Rightarrow> nat" where
  "good_bytes b 0 cs = 0"
| "good_bytes b (Suc n) [] = 0"
| "good_bytes b (Suc n) (c # cs) =
     (if second_ok b (byte c) then Suc (good_bytes 128 n cs) else 0)"

definition replacement :: string where
  "replacement = [CHR 0xEF, CHR 0xBF, CHR 0xBD]"

fun from_utf8_lossy :: "string \<Rightarrow> string" where
  "from_utf8_lossy [] = []"
| "from_utf8_lossy (b # cs) =
     (let n = utf8_len (byte b); k = good_bytes (byte b) (n - 1) cs in
      if n = 0 then replacement @ from_utf8_lossy cs
      else if k = n - 1 then b # take k cs @ from_utf8_lossy (drop k cs)
      else replacement @ from_utf8_lossy (drop k cs))"

fun valid_utf8 :: "string \<Rightarrow> bool" where
  "valid_utf8 [] = True"
| "valid_utf8 (b # cs) =
     (let n = utf8_len (byte b) in
      n \<noteq> 0 \<and> good_bytes (byte b) (n - 1) cs = n - 1 \<and> valid_utf8 (drop (n - 1) cs))"

lemma from_utf8_lossy_valid [simp]: "valid_utf8 s \<Longrightarrow> from_utf8_lossy s = s"
  by (induction s rule: valid_utf8.induct) (auto simp: Let_def)

subsection \<open>Events\<close>

lemma find_str_Some_length: "find_str p s = Some i \<Longrightarrow> i + length p \<le> length s"
proof (induction s arbitrary: i)
  case (Cons x xs)
  then show ?case by (auto split: if_splits dest: prefix_length_le)
qed (simp split: if_splits)

text \<open>The inner loop: \<open>while let Some(pos) = buffer.find(sep)\<close>.\<close>

function cut_events :: "string \<Rightarrow> string \<Rightarrow> string list \<times> string" where
  "cut_events sep buf =
     (if sep = [] then ([], buf)
      else case find_str sep buf of
        None \<Rightarrow> ([], buf)
      | Some pos \<Rightarrow> map_prod (Cons (take pos buf)) id (cut_events sep (drop (pos + length sep) buf)))"
  by pat_completeness auto
termination
  by (relation "measure (\<lambda>(sep, buf). length buf)") (auto dest!: find_str_Some_length simp: neq_Nil_conv)

declare cut_events.simps [simp del]

text \<open>The handling of the events of one chunk, and of the chunks: a transport error ends the stream.\<close>

fun on_events :: "('e \<Rightarrow> 's \<Rightarrow> stream_chunks \<times> 's) \<Rightarrow> 'e list \<Rightarrow> 's \<Rightarrow> stream_chunks \<times> 's" where
  "on_events on [] s = ([], s)"
| "on_events on (e # es) s =
     (let (items, s1) = on e s; (more, s2) = on_events on es s1 in (items @ more, s2))"

fun read_stream ::
  "string \<Rightarrow> (string \<Rightarrow> 's \<Rightarrow> stream_chunks \<times> 's) \<Rightarrow> (string, string) res list \<Rightarrow> string \<Rightarrow> 's \<Rightarrow> stream_chunks"
  where
  "read_stream sep on [] buf s = []"
| "read_stream sep on (Inl e # chunks) buf s = [Inl (Msg (''Stream error: '' @ e))]"
| "read_stream sep on (Inr bytes # chunks) buf s =
     (let (events, buf1) = cut_events sep (buf @ from_utf8_lossy bytes);
          (items, s1) = on_events on events s
      in items @ read_stream sep on chunks buf1 s1)"

definition data_prefix :: string where
  "data_prefix = ''data: ''"

text \<open>The lines of an event that carry data.\<close>

definition on_data_lines :: "(string \<Rightarrow> 's \<Rightarrow> stream_chunks \<times> 's) \<Rightarrow> string \<Rightarrow> 's \<Rightarrow> stream_chunks \<times> 's" where
  "on_data_lines on event s =
     on_events (\<lambda>line s. case strip_prefix line data_prefix of None \<Rightarrow> ([], s) | Some d \<Rightarrow> on d s) (lines event) s"

subsection \<open>Cutting does not depend on the chunks\<close>

lemma find_str_append: "find_str p s = Some i \<Longrightarrow> find_str p (s @ t) = Some i"
proof (induction s arbitrary: i)
  case Nil
  then show ?case by (cases t) (auto split: if_splits)
next
  case (Cons x xs)
  show ?case
  proof (cases "prefix p (x # xs)")
    case True
    then have "prefix p ((x # xs) @ t)" by (rule prefix_prefix)
    with True Cons.prems show ?thesis by simp
  next
    case False
    with Cons.prems obtain k where k: "find_str p xs = Some k" "i = Suc k" by auto
    have "length p \<le> length (x # xs)"
      using find_str_Some_length [OF k(1)] by simp
    with False have "\<not> prefix p ((x # xs) @ t)"
      by (metis prefixI prefix_length_prefix)
    with k Cons.IH [OF k(1)] False show ?thesis by simp
  qed
qed

lemma cut_events_append:
  "cut_events sep (buf @ t) =
     (case cut_events sep buf of (es, rest) \<Rightarrow> map_prod ((@) es) id (cut_events sep (rest @ t)))"
proof (induction sep buf rule: cut_events.induct)
  case (1 sep buf)
  show ?case
  proof (cases "sep = [] \<or> find_str sep buf = None")
    case True
    then have "cut_events sep buf = ([], buf)"
      by (auto simp: cut_events.simps [of sep buf])
    then show ?thesis by (simp add: map_prod.comp [symmetric] id_def map_prod_def)
  next
    case False
    then obtain pos where ne: "sep \<noteq> []" and pos: "find_str sep buf = Some pos" by auto
    note find_str_Some_length [OF pos]
    with 1 [OF ne pos] ne pos find_str_append [OF pos, of t] show ?thesis
      by (simp add: cut_events.simps [of sep "buf @ t"] cut_events.simps [of sep buf]
          map_prod_def case_prod_unfold)
  qed
qed

lemma cut_events_rest: "cut_events sep buf = (es, rest) \<Longrightarrow> cut_events sep rest = ([], rest)"
proof (induction sep buf arbitrary: es rule: cut_events.induct)
  case (1 sep buf)
  show ?case
  proof (cases "sep = [] \<or> find_str sep buf = None")
    case True
    then have "cut_events sep buf = ([], buf)"
      by (auto simp: cut_events.simps [of sep buf])
    with 1(2) show ?thesis by simp
  next
    case False
    then obtain pos where ne: "sep \<noteq> []" and pos: "find_str sep buf = Some pos" by auto
    with 1(2) obtain es' where "cut_events sep (drop (pos + length sep) buf) = (es', rest)"
      by (auto simp: cut_events.simps [of sep buf] map_prod_def split: prod.splits)
    with 1(1) [OF ne pos] show ?thesis by blast
  qed
qed

lemma on_events_append:
  "on_events on (es @ fs) s =
     (let (items, s1) = on_events on es s; (more, s2) = on_events on fs s1 in (items @ more, s2))"
  by (induction es arbitrary: s) (auto simp: case_prod_unfold Let_def)

text \<open>What a stream yields is what its decoded text yields as a whole, and as long as no chunk ends inside
  a code point the decoded text is the text.\<close>

lemma read_stream_decoded:
  assumes "cut_events sep buf = ([], buf)"
  shows "read_stream sep on (map Inr chunks) buf s =
    fst (on_events on (fst (cut_events sep (buf @ concat (map from_utf8_lossy chunks)))) s)"
  using assms
proof (induction chunks arbitrary: buf s)
  case (Cons c chunks)
  obtain es rest where cut: "cut_events sep (buf @ from_utf8_lossy c) = (es, rest)" by fastforce
  have "cut_events sep (buf @ concat (map from_utf8_lossy (c # chunks))) =
      map_prod ((@) es) id (cut_events sep (rest @ concat (map from_utf8_lossy chunks)))"
    using cut_events_append [of sep "buf @ from_utf8_lossy c" "concat (map from_utf8_lossy chunks)"] cut by simp
  moreover have "read_stream sep on (map Inr (c # chunks)) buf s =
      fst (on_events on es s) @ read_stream sep on (map Inr chunks) rest (snd (on_events on es s))"
    using cut by (simp add: case_prod_unfold Let_def)
  moreover note Cons.IH [OF cut_events_rest [OF cut], of "snd (on_events on es s)"]
  ultimately show ?case
    by (simp add: map_prod_def on_events_append case_prod_unfold Let_def)
qed simp

lemma decoded_valid: "list_all valid_utf8 chunks \<Longrightarrow> concat (map from_utf8_lossy chunks) = concat chunks"
  by (induction chunks) auto

lemma read_stream_whole:
  assumes "cut_events sep buf = ([], buf)" and "list_all valid_utf8 chunks"
  shows "read_stream sep on (map Inr chunks) buf s =
    fst (on_events on (fst (cut_events sep (buf @ concat chunks))) s)"
  unfolding decoded_valid [OF assms(2), symmetric] by (rule read_stream_decoded [OF assms(1)])

subsection \<open>Server-sent events\<close>

definition frame :: "string \<Rightarrow> string" where
  "frame d = data_prefix @ d @ nl2"

lemma find_str_nl2: "newline \<notin> set e \<Longrightarrow> find_str nl2 (e @ nl2 @ t) = Some (length e)"
  by (induction e) (auto simp: nl2_def)

lemma cut_event: "newline \<notin> set e \<Longrightarrow> cut_events nl2 (e @ nl2 @ t) = map_prod (Cons e) id (cut_events nl2 t)"
  by (simp add: cut_events.simps [of nl2 "e @ nl2 @ t"] find_str_nl2) (simp add: nl2_def)

lemma newline_not_in_data: "newline \<notin> set data_prefix"
  by (simp add: data_prefix_def newline_def)

lemma cut_frames:
  "list_all (\<lambda>d. newline \<notin> set d) ds \<Longrightarrow>
   cut_events nl2 (concat (map frame ds)) = (map (\<lambda>d. data_prefix @ d) ds, [])"
proof (induction ds)
  case (Cons d ds)
  have "cut_events nl2 (concat (map frame (d # ds))) =
      cut_events nl2 ((data_prefix @ d) @ nl2 @ concat (map frame ds))"
    by (simp only: frame_def list.map concat.simps append_assoc)
  also have "\<dots> = map_prod (Cons (data_prefix @ d)) id (cut_events nl2 (concat (map frame ds)))"
    by (rule cut_event) (use Cons.prems newline_not_in_data in simp)
  finally show ?case using Cons by simp
qed (simp add: cut_events.simps)

lemma on_data_line:
  assumes "newline \<notin> set d"
  shows "on_data_lines on (data_prefix @ d) s = on d s"
proof -
  have "lines (data_prefix @ d) = [data_prefix @ d]"
    using assms newline_not_in_data
    by (simp add: lines_def split_on_no_sep) (simp add: data_prefix_def)
  then show ?thesis
    by (simp add: on_data_lines_def strip_prefix_append case_prod_unfold Let_def)
qed

lemma on_events_data:
  "list_all (\<lambda>d. newline \<notin> set d) ds \<Longrightarrow>
   on_events (on_data_lines on) (map (\<lambda>d. data_prefix @ d) ds) s = on_events on ds s"
proof (induction ds arbitrary: s)
  case (Cons d ds)
  then have "newline \<notin> set d" by simp
  from on_data_line [OF this, of on] Cons show ?case
    by simp
qed simp

lemma sse_payloads:
  assumes "concat (map from_utf8_lossy chunks) = concat (map frame ds)"
    and "list_all (\<lambda>d. newline \<notin> set d) ds"
  shows "read_stream nl2 (on_data_lines on) (map Inr chunks) [] s = fst (on_events on ds s)"
proof -
  have "cut_events nl2 [] = ([], [])" by (simp add: cut_events.simps nl2_def)
  from read_stream_decoded [OF this, of "on_data_lines on" chunks s] assms
  show ?thesis by (simp add: cut_frames on_events_data)
qed

text \<open>A chunk that ends inside a code point is decoded on its own: both halves are replaced.\<close>

definition show_payload :: "string \<Rightarrow> unit \<Rightarrow> stream_chunks \<times> unit" where
  "show_payload d s = ([text_chunk d], s)"

lemma split_code_point_damaged:
  "read_stream nl2 (on_data_lines show_payload) (map Inr [data_prefix @ [CHR 0xC3], CHR 0xA9 # nl2]) [] ()
     = [text_chunk (replacement @ replacement)]"
proof -
  have "concat (map from_utf8_lossy [data_prefix @ [CHR 0xC3], CHR 0xA9 # nl2])
      = concat (map frame [replacement @ replacement])"
    by (simp add: data_prefix_def frame_def nl2_def newline_def utf8_len_def replacement_def)
  from sse_payloads [OF this, of show_payload "()"] show ?thesis
    by (simp add: show_payload_def replacement_def newline_def)
qed



end
