(* ===== verification/Openai_Provider.thy ===== *)
theory Openai_Provider
  imports Http_Stream
begin

text \<open>
  The provider for the chat-completions interface of OpenAI (\<^verbatim>\<open>OpenAIProvider\<close> in
  \<^verbatim>\<open>src/src/agent/providers.rs\<close>): the JSON of a request, the reading of an answer and of its errors,
  and the stream, whose tool calls arrive in fragments.
\<close>

subsection \<open>Requests\<close>

definition openai_tool :: "tool_schema \<Rightarrow> json" where
  "openai_tool t = JObj [''type'' \<mapsto> JStr ''function'',
     ''function'' \<mapsto> JObj [''name'' \<mapsto> JStr (ts_name t), ''description'' \<mapsto> JStr (ts_description t),
        ''parameters'' \<mapsto> ts_parameters t]]"

fun openai_role :: "role \<Rightarrow> string" where
  "openai_role System = ''system''"
| "openai_role User = ''user''"
| "openai_role Assistant = ''assistant''"
| "openai_role Tool = ''tool''"

definition openai_image :: "image_attachment \<Rightarrow> json" where
  "openai_image img = JObj [''type'' \<mapsto> JStr ''image_url'',
     ''image_url'' \<mapsto> JObj [''url'' \<mapsto> JStr (''data:'' @ img_media_type img @ '';base64,'' @ img_data img)]]"

definition json_text_part :: "string \<Rightarrow> json" where
  "json_text_part t = JObj [''type'' \<mapsto> JStr ''text'', ''text'' \<mapsto> JStr t]"

definition openai_content :: "message \<Rightarrow> json" where
  "openai_content m =
     (if role m = User \<and> images m \<noteq> []
      then JArr (map openai_image (images m) @ (if content m \<noteq> [] then [json_text_part (content m)] else []))
      else JStr (content m))"

definition openai_call :: "tool_call \<Rightarrow> json" where
  "openai_call tc = JObj [''id'' \<mapsto> JStr (tc_id tc), ''type'' \<mapsto> JStr ''function'',
     ''function'' \<mapsto> JObj [''name'' \<mapsto> JStr (tc_name tc), ''arguments'' \<mapsto> JStr (tc_arguments tc)]]"

definition openai_message :: "message \<Rightarrow> json" where
  "openai_message m =
     jset_opt
       (jset_opt (JObj [''role'' \<mapsto> JStr (openai_role (role m)), ''content'' \<mapsto> openai_content m])
          ''tool_calls'' (map_option (\<lambda>tcs. JArr (map openai_call tcs)) (tool_calls m)))
       ''tool_call_id'' (map_option JStr (tool_call_id m))"

definition with_tools :: "(tool_schema \<Rightarrow> json) \<Rightarrow> tool_schema list option \<Rightarrow> json \<Rightarrow> json" where
  "with_tools fmt tools body =
     (case tools of
        Some ts \<Rightarrow> if ts \<noteq> [] then jset body ''tools'' (JArr (map fmt ts)) else body
      | None \<Rightarrow> body)"

definition openai_body :: "string \<Rightarrow> message list \<Rightarrow> tool_schema list option \<Rightarrow> json" where
  "openai_body md msgs tools =
     with_tools openai_tool tools
       (JObj [''model'' \<mapsto> JStr md, ''messages'' \<mapsto> JArr (map openai_message msgs)])"

definition openai_stream_body :: "string \<Rightarrow> message list \<Rightarrow> tool_schema list option \<Rightarrow> json" where
  "openai_stream_body md msgs tools =
     with_tools openai_tool tools
       (JObj [''model'' \<mapsto> JStr md, ''messages'' \<mapsto> JArr (map openai_message msgs),
         ''stream'' \<mapsto> JBool True, ''stream_options'' \<mapsto> JObj [''include_usage'' \<mapsto> JBool True]])"

definition openai_request :: "string \<Rightarrow> string \<Rightarrow> json \<Rightarrow> http_request" where
  "openai_request api_key base_url body =
     \<lparr>rq_url = base_url @ ''/chat/completions'',
      rq_headers = [(''Authorization'', ''Bearer '' @ api_key), (''Content-Type'', ''application/json'')],
      rq_body = body\<rparr>"

subsection \<open>Answers\<close>

definition str_or :: "string \<Rightarrow> json \<Rightarrow> string" where
  "str_or d v = unwrap_or (as_str v) d"

definition openai_error :: "json \<Rightarrow> llm_error option" where
  "openai_error body =
     map_option (\<lambda>e.
         let msg = str_or ''Unknown error'' (jindex e ''message'') in
         case as_str (jindex e ''code'') of
           Some c \<Rightarrow> if c = ''rate_limit_exceeded'' then RateLimit msg
                     else if c = ''context_length_exceeded'' then ContextWindowExceeded msg
                     else ProviderError 400 msg
         | None \<Rightarrow> ProviderError 400 msg)
       (jget body ''error'')"

definition json_usage :: "string \<Rightarrow> string \<Rightarrow> json \<Rightarrow> usage" where
  "json_usage inp outp u =
     \<lparr>input_tokens = unwrap_or (as_u64 (jindex u inp)) 0, output_tokens = unwrap_or (as_u64 (jindex u outp)) 0\<rparr>"

definition openai_read_call :: "json \<Rightarrow> tool_call" where
  "openai_read_call tc =
     \<lparr>tc_id = str_or [] (jindex tc ''id''), tc_name = str_or [] (jindex (jindex tc ''function'') ''name''),
      tc_arguments = str_or ''{}'' (jindex (jindex tc ''function'') ''arguments'')\<rparr>"

definition openai_answer :: "json \<Rightarrow> (anyhow_error, llm_response) res" where
  "openai_answer body =
     (case openai_error body of
        Some e \<Rightarrow> Inl (Llm e)
      | None \<Rightarrow>
          (case as_array (jindex body ''choices'') of
             Some (choice # _) \<Rightarrow>
               let msg = jindex choice ''message'';
                   us = map_option (json_usage ''prompt_tokens'' ''completion_tokens'') (jget body ''usage'');
                   calls = map openai_read_call (unwrap_or (Option.bind (jget msg ''tool_calls'') as_array) [])
               in Inr \<lparr>lr_content = (if calls \<noteq> [] then ToolCalls calls else Text (str_or [] (jindex msg ''content''))),
                       lr_usage = us\<rparr>
           | _ \<Rightarrow> Inl (Msg ''No choices in response'')))"

definition openai_chat ::
  "'w http_host \<Rightarrow> string \<Rightarrow> string \<Rightarrow> string \<Rightarrow> message list \<Rightarrow> tool_schema list option \<Rightarrow> 'w
   \<Rightarrow> (anyhow_error, llm_response) res \<times> 'w" where
  "openai_chat h api_key base_url md msgs tools w =
     (let (r, w1) = post h (openai_request api_key base_url (openai_body md msgs tools)) w
      in (bind_res r (\<lambda>rs. bind_res (rs_json rs) openai_answer), w1))"

definition summary_prompt :: "string \<Rightarrow> message list" where
  "summary_prompt t = [text_message User
     (''Summarize the following conversation concisely, preserving key information and context:'' @ nl2 @ t)]"

fun text_of_answer :: "llm_response_content \<Rightarrow> (anyhow_error, string) res" where
  "text_of_answer (Text s) = Inr s"
| "text_of_answer (ToolCalls _) = Inl (Msg ''Unexpected response type'')"

definition openai_summarize ::
  "'w http_host \<Rightarrow> string \<Rightarrow> string \<Rightarrow> string \<Rightarrow> string \<Rightarrow> 'w \<Rightarrow> (anyhow_error, string) res \<times> 'w" where
  "openai_summarize h api_key base_url md t w =
     (let (r, w1) = openai_chat h api_key base_url md (summary_prompt t) None w
      in (bind_res r (\<lambda>resp. text_of_answer (lr_content resp)), w1))"

subsection \<open>Streams\<close>

record call_builder =
  cb_id :: "string option"
  cb_name :: "string option"
  cb_arguments :: string

definition cb_new :: call_builder where
  "cb_new = \<lparr>cb_id = None, cb_name = None, cb_arguments = []\<rparr>"

definition cb_add :: "json \<Rightarrow> call_builder \<Rightarrow> call_builder" where
  "cb_add tc b =
     (let fn = jget tc ''function'' in
      \<lparr>cb_id = or_else (Option.bind (jget tc ''id'') as_str) (cb_id b),
       cb_name = or_else (Option.bind (Option.bind fn (\<lambda>f. jget f ''name'')) as_str) (cb_name b),
       cb_arguments = cb_arguments b @ unwrap_or (Option.bind (Option.bind fn (\<lambda>f. jget f ''arguments'')) as_str) []\<rparr>)"

type_synonym pending_calls = "(u64 \<times> call_builder) list"

definition add_fragment :: "json \<Rightarrow> pending_calls \<Rightarrow> pending_calls" where
  "add_fragment tc p =
     (case Option.bind (jget tc ''index'') as_u64 of
        Some i \<Rightarrow> upsert i cb_new (cb_add tc) p
      | None \<Rightarrow> p)"

definition finished_call :: "u64 \<times> call_builder \<Rightarrow> (u64 \<times> tool_call) option" where
  "finished_call = (\<lambda>(i, b). case (cb_id b, cb_name b) of
      (Some cid, Some n) \<Rightarrow> Some (i, \<lparr>tc_id = cid, tc_name = n, tc_arguments = cb_arguments b\<rparr>)
    | _ \<Rightarrow> None)"

definition finish_calls :: "pending_calls \<Rightarrow> tool_call list option" where
  "finish_calls p =
     (if p = [] then None else Some (map snd (sort_key fst (List.map_filter finished_call p))))"

definition openai_delta :: "json \<Rightarrow> pending_calls \<Rightarrow> stream_chunks \<times> pending_calls" where
  "openai_delta d p =
     ((case Option.bind (jget d ''content'') as_str of Some t \<Rightarrow> [text_chunk t] | None \<Rightarrow> []),
      fold add_fragment (unwrap_or (Option.bind (jget d ''tool_calls'') as_array) []) p)"

definition openai_data :: "(string \<Rightarrow> json option) \<Rightarrow> string \<Rightarrow> pending_calls \<Rightarrow> stream_chunks \<times> pending_calls" where
  "openai_data parse d p =
     (if d = ''[DONE]'' then ([last_chunk (finish_calls p)], [])
      else case parse d of
        None \<Rightarrow> ([], p)
      | Some j \<Rightarrow>
          if jget j ''usage'' \<noteq> None then ([], p)
          else (case Option.bind (jget j ''choices'') as_array of
                  Some (choice # _) \<Rightarrow>
                    (case jget choice ''delta'' of Some dl \<Rightarrow> openai_delta dl p | None \<Rightarrow> ([], p))
                | _ \<Rightarrow> ([], p)))"

definition stream_failure :: "http_response \<Rightarrow> (anyhow_error, anyhow_error) res" where
  "stream_failure rs =
     bind_res (rs_text rs) (\<lambda>body. Inr (Llm (if rs_status rs = 429 then RateLimit body
                                          else ProviderError (rs_status rs) body)))"

definition openai_chat_stream ::
  "'w http_host \<Rightarrow> string \<Rightarrow> string \<Rightarrow> string \<Rightarrow> message list \<Rightarrow> tool_schema list option \<Rightarrow> 'w
   \<Rightarrow> (anyhow_error, stream_chunks) res \<times> 'w" where
  "openai_chat_stream h api_key base_url md msgs tools w =
     (let (r, w1) = post h (openai_request api_key base_url (openai_stream_body md msgs tools)) w
      in (bind_res r (\<lambda>rs.
            if \<not> is_success (rs_status rs)
            then (case stream_failure rs of Inl e \<Rightarrow> Inl e | Inr e \<Rightarrow> Inl e)
            else Inr (read_stream nl2 (on_data_lines (openai_data (of_json h))) (rs_chunks rs) [] [])), w1))"

subsection \<open>What a request says and an answer gives\<close>

lemma openai_read_call_roundtrip [simp]: "openai_read_call (openai_call tc) = tc"
  by (simp add: openai_read_call_def openai_call_def str_or_def)

definition completion :: "json \<Rightarrow> json" where
  "completion msg = JObj [''choices'' \<mapsto> JArr [JObj [''message'' \<mapsto> msg]]]"

text \<open>The two directions of the format agree. An assistant's message written into a request and read
  back as an answer is the same turn: its calls, with identifiers, names and arguments, or its text when
  there are none.\<close>

theorem openai_answer_roundtrip:
  "openai_answer (completion (openai_message (calls_message t calls))) =
     Inr \<lparr>lr_content = (case calls of Some (c # cs) \<Rightarrow> ToolCalls (c # cs) | _ \<Rightarrow> Text t), lr_usage = None\<rparr>"
  by (cases calls; cases "the calls")
    (simp_all add: openai_answer_def openai_error_def completion_def openai_message_def openai_content_def
      message_defs jset_opt_def str_or_def comp_def)

subsection \<open>Fragments of tool calls\<close>

definition fragment_index :: "json \<Rightarrow> u64 option" where
  "fragment_index tc = Option.bind (jget tc ''index'') as_u64"

definition fragments_of :: "u64 \<Rightarrow> json list \<Rightarrow> json list" where
  "fragments_of i frs = filter (\<lambda>tc. fragment_index tc = Some i) frs"

definition fragment_arguments :: "json \<Rightarrow> string" where
  "fragment_arguments tc =
     unwrap_or (Option.bind (Option.bind (jget tc ''function'') (\<lambda>f. jget f ''arguments'')) as_str) []"

text \<open>The call of an index, assembled from its fragments alone.\<close>

definition assembled :: "u64 \<Rightarrow> json list \<Rightarrow> call_builder" where
  "assembled i frs = fold cb_add (fragments_of i frs) cb_new"

lemma assembled_arguments: "cb_arguments (assembled i frs) = concat (map fragment_arguments (fragments_of i frs))"
proof -
  have "cb_arguments (fold cb_add gs b) = cb_arguments b @ concat (map fragment_arguments gs)" for gs b
    by (induction gs arbitrary: b) (simp_all add: cb_add_def fragment_arguments_def Let_def)
  then show ?thesis by (simp add: assembled_def cb_new_def)
qed

lemma fold_add_fragment:
  "distinct (map fst p) \<Longrightarrow>
   distinct (map fst (fold add_fragment frs p))
   \<and> fst ` set (fold add_fragment frs p) = fst ` set p \<union> {i. fragments_of i frs \<noteq> []}
   \<and> map_of (fold add_fragment frs p) i =
       (if fragments_of i frs = [] then map_of p i
        else Some (fold cb_add (fragments_of i frs) (unwrap_or (map_of p i) cb_new)))"
proof (induction frs arbitrary: p)
  case (Cons tc frs)
  show ?case
  proof (cases "fragment_index tc")
    case None
    then have "add_fragment tc p = p" and "fragments_of j (tc # frs) = fragments_of j frs" for j
      by (simp_all add: add_fragment_def fragment_index_def fragments_of_def)
    with Cons show ?thesis by simp
  next
    case (Some k)
    then have add: "add_fragment tc p = upsert k cb_new (cb_add tc) p"
      by (simp add: add_fragment_def fragment_index_def)
    have fr: "fragments_of j (tc # frs) = (if j = k then tc # fragments_of j frs else fragments_of j frs)" for j
      using Some by (simp add: fragments_of_def)
    have "fst ` set (upsert k cb_new (cb_add tc) p) = insert k (fst ` set p)"
      by (rule keys_upsert)
    with Cons.IH [OF distinct_upsert [OF Cons.prems], of k cb_new "cb_add tc"] add fr show ?thesis
      by (auto simp: map_of_upsert split: option.splits)
  qed
qed (simp add: fragments_of_def)

lemma finished_call_index: "finished_call (i, b) = Some (j, c) \<Longrightarrow> j = i"
  by (auto simp: finished_call_def split: option.splits)

lemma keys_finished:
  "map fst (List.map_filter finished_call p) = map fst (filter (\<lambda>x. finished_call x \<noteq> None) p)"
  by (induction p) (auto simp: map_filter_simps dest: finished_call_index split: option.splits)

lemma keys_finished_of:
  "map fst (List.map_filter (\<lambda>i. finished_call (i, f i)) is) = filter (\<lambda>i. finished_call (i, f i) \<noteq> None) is"
  by (induction "is") (auto simp: map_filter_simps dest: finished_call_index split: option.splits)

lemma set_map_filter_eq: "set (List.map_filter f xs) = {y. \<exists>x \<in> set xs. f x = Some y}"
  by (induction xs) (auto simp: map_filter_simps split: option.splits)

lemma map_snd_map_filter: "map snd (List.map_filter f xs) = List.map_filter (\<lambda>x. map_option snd (f x)) xs"
  by (induction xs) (auto simp: map_filter_simps split: option.splits)

text \<open>The calls handed on are those of the indices that have fragments, in the order of the indices, each
  assembled from the fragments of its index alone.\<close>

lemma finish_calls_assembled:
  "finish_calls (fold add_fragment frs []) =
     (let is = sorted_list_of_set {i. fragments_of i frs \<noteq> []} in
      if is = [] then None
      else Some (List.map_filter (\<lambda>i. map_option snd (finished_call (i, assembled i frs))) is))"
proof -
  let ?p = "fold add_fragment frs []"
  let ?I = "{i. fragments_of i frs \<noteq> []}"
  let ?is = "sorted_list_of_set ?I"
  let ?xs = "sort_key fst (List.map_filter finished_call ?p)"
  let ?ys = "List.map_filter (\<lambda>i. finished_call (i, assembled i frs)) ?is"
  note f = fold_add_fragment [of "[]" frs, simplified]
  have fin: "finite ?I" using f by (metis finite_imageI finite_set)
  have elem: "(i, b) \<in> set ?p \<longleftrightarrow> i \<in> ?I \<and> b = assembled i frs" for i b
    using f [of i] by (auto simp: assembled_def Some_eq_map_of_iff [symmetric] split: if_splits)
  have "distinct (map fst (List.map_filter finished_call ?p))"
    using f by (simp add: keys_finished distinct_map_filter)
  then have dx: "distinct (map fst ?xs)"
    by (simp add: distinct_map)
  have sets: "set ?xs = set ?ys"
    using fin elem by (auto simp: set_map_filter_eq)
  have "?xs = ?ys"
  proof (rule map_sorted_distinct_set_unique [where f = fst])
    show "inj_on fst (set ?xs \<union> set ?ys)" using dx sets by (simp add: distinct_map)
    show "sorted (map fst ?ys)" "distinct (map fst ?ys)"
      using fin by (simp_all add: keys_finished_of sorted_filter [where f = id, simplified])
  qed (use dx sets in simp_all)
  moreover have "?p = [] \<longleftrightarrow> ?is = []"
  proof -
    have "fst ` set ?p = ?I" using f by simp
    then have "?p = [] \<longleftrightarrow> ?I = {}" by (metis (no_types) image_is_empty set_empty)
    with fin show ?thesis by simp
  qed
  ultimately have "finish_calls ?p = (if ?is = [] then None
      else Some (List.map_filter (\<lambda>i. map_option snd (finished_call (i, assembled i frs))) ?is))"
    by (simp add: finish_calls_def map_snd_map_filter)
  then show ?thesis by (simp add: Let_def)
qed

text \<open>What the payloads of a stream say: the delta of the first choice of an event without a usage member,
  the text and the fragments of calls in it; and the call that the fragments of one index make, with the
  last identifier and the last name given among them, and the concatenation of the arguments.\<close>

definition payload_delta :: "(string \<Rightarrow> json option) \<Rightarrow> string \<Rightarrow> json option" where
  "payload_delta parse d =
     (case parse d of
        None \<Rightarrow> None
      | Some j \<Rightarrow>
          (case (jget j ''usage'', Option.bind (jget j ''choices'') as_array) of
             (None, Some (choice # _)) \<Rightarrow> jget choice ''delta''
           | _ \<Rightarrow> None))"

definition delta_text :: "json \<Rightarrow> string option" where
  "delta_text dl = Option.bind (jget dl ''content'') as_str"

definition delta_fragments :: "json \<Rightarrow> json list" where
  "delta_fragments dl = unwrap_or (Option.bind (jget dl ''tool_calls'') as_array) []"

fun last_given :: "'a option list \<Rightarrow> 'a option" where
  "last_given [] = None"
| "last_given (x # xs) = or_else (last_given xs) x"

definition call_of :: "json list \<Rightarrow> tool_call option" where
  "call_of gs =
     (case (last_given (map (\<lambda>tc. Option.bind (jget tc ''id'') as_str) gs),
            last_given (map (\<lambda>tc. Option.bind (Option.bind (jget tc ''function'') (\<lambda>f. jget f ''name'')) as_str) gs)) of
        (Some cid, Some n) \<Rightarrow> Some \<lparr>tc_id = cid, tc_name = n, tc_arguments = concat (map fragment_arguments gs)\<rparr>
      | _ \<Rightarrow> None)"

lemma or_else_assoc: "or_else x (or_else y z) = or_else (or_else x y) z"
  by (cases x) auto

lemma or_else_None_right [simp]: "or_else x None = x"
  by (cases x) auto

lemma fold_cb_add:
  "cb_id (fold cb_add gs b) = or_else (last_given (map (\<lambda>tc. Option.bind (jget tc ''id'') as_str) gs)) (cb_id b)"
  "cb_name (fold cb_add gs b) =
     or_else (last_given (map (\<lambda>tc. Option.bind (Option.bind (jget tc ''function'') (\<lambda>f. jget f ''name'')) as_str) gs))
       (cb_name b)"
  by (induction gs arbitrary: b) (simp_all add: cb_add_def Let_def or_else_assoc)

lemma finished_assembled: "map_option snd (finished_call (i, assembled i frs)) = call_of (fragments_of i frs)"
proof -
  have "cb_id (assembled i frs) = last_given (map (\<lambda>tc. Option.bind (jget tc ''id'') as_str) (fragments_of i frs))"
    and "cb_name (assembled i frs) = last_given (map (\<lambda>tc.
        Option.bind (Option.bind (jget tc ''function'') (\<lambda>f. jget f ''name'')) as_str) (fragments_of i frs))"
    unfolding assembled_def fold_cb_add by (simp_all add: cb_new_def)
  then show ?thesis
    unfolding finished_call_def call_of_def by (simp add: assembled_arguments split: option.split)
qed

lemma openai_payload:
  assumes "d \<noteq> ''[DONE]''"
  shows "openai_data parse d p = (case payload_delta parse d of
      None \<Rightarrow> ([], p)
    | Some dl \<Rightarrow> ((case delta_text dl of Some t \<Rightarrow> [text_chunk t] | None \<Rightarrow> []), fold add_fragment (delta_fragments dl) p))"
  using assms
  by (auto simp: openai_data_def openai_delta_def payload_delta_def delta_text_def delta_fragments_def
      split: option.split list.split)

lemma openai_payloads:
  "list_all (\<lambda>d. d \<noteq> ''[DONE]'') ds \<Longrightarrow>
   on_events (openai_data parse) ds p =
     (map text_chunk (List.map_filter delta_text (List.map_filter (payload_delta parse) ds)),
      fold add_fragment (concat (map delta_fragments (List.map_filter (payload_delta parse) ds))) p)"
proof (induction ds arbitrary: p)
  case (Cons d ds)
  then show ?case
    by (simp add: openai_payload map_filter_simps split: option.split)
qed (simp add: map_filter_simps)

text \<open>C33: What a stream of an OpenAI-compatible server gives, in whichever pieces it arrives that end
  at code points. Of each event the delta of its first choice counts, and events with a usage member or
  without such a delta are passed over. The texts of the deltas are handed on one by one, in order. At the
  end come the calls: one for every index that has fragments of which some name an identifier and some
  the function, in the order of the indices, with the last identifier and the last name, and with the
  concatenation of the argument pieces of exactly the fragments of this index in the order they came,
  whatever the interleaving. Calls that never get an identifier or a name are dropped.\<close>

theorem openai_stream_assembles:
  assumes "list_all valid_utf8 chunks" and "concat chunks = concat (map frame (ds @ [''[DONE]'']))"
    and "list_all (\<lambda>d. newline \<notin> set d \<and> d \<noteq> ''[DONE]'') ds"
  shows "read_stream nl2 (on_data_lines (openai_data parse)) (map Inr chunks) [] [] =
    (let deltas = List.map_filter (payload_delta parse) ds;
         frs = concat (map delta_fragments deltas);
         is = sorted_list_of_set {i. fragments_of i frs \<noteq> []}
     in map text_chunk (List.map_filter delta_text deltas)
        @ [last_chunk (if is = [] then None else Some (List.map_filter (\<lambda>i. call_of (fragments_of i frs)) is))])"
proof -
  have n: "list_all (\<lambda>d. newline \<notin> set d) (ds @ [''[DONE]''])" and d: "list_all (\<lambda>d. d \<noteq> ''[DONE]'') ds"
    using assms(3) by (simp_all add: list_all_iff newline_def)
  have "read_stream nl2 (on_data_lines (openai_data parse)) (map Inr chunks) [] [] =
      fst (on_events (openai_data parse) (ds @ [''[DONE]'']) [])"
    using sse_payloads [OF _ n] assms(1,2) decoded_valid by metis
  also have "\<dots> = map text_chunk (List.map_filter delta_text (List.map_filter (payload_delta parse) ds))
      @ [last_chunk (finish_calls
          (fold add_fragment (concat (map delta_fragments (List.map_filter (payload_delta parse) ds))) []))]"
    by (simp add: on_events_append openai_payloads [OF d] openai_data_def [of _ "''[DONE]''"])
  finally show ?thesis by (simp only: finish_calls_assembled finished_assembled Let_def)
qed

text \<open>Two calls whose fragments interleave, a text, an event with usage, and a call without a name.\<close>

definition sample_fragment :: "int \<Rightarrow> (string \<times> json) list \<Rightarrow> (string \<times> json) list \<Rightarrow> json" where
  "sample_fragment i ids fn =
     JObj ((map_of ids)(''index'' \<mapsto> JInt i, ''function'' \<mapsto> JObj (map_of fn)))"

definition sample_event :: "json \<Rightarrow> json" where
  "sample_event dl = JObj [''choices'' \<mapsto> JArr [JObj [''delta'' \<mapsto> dl]]]"

definition sample_stream :: "string \<Rightarrow> json option" where
  "sample_stream = map_of
     [(''e1'', sample_event (JObj [''content'' \<mapsto> JStr ''Hi'', ''tool_calls'' \<mapsto> JArr
         [sample_fragment 1 [(''id'', JStr ''b'')] [(''name'', JStr ''bash''), (''arguments'', JStr ''{'')]]])),
      (''e2'', sample_event (JObj [''tool_calls'' \<mapsto> JArr
         [sample_fragment 0 [(''id'', JStr ''a'')] [(''name'', JStr ''read_file''), (''arguments'', JStr ''[]'')],
          sample_fragment 1 [] [(''arguments'', JStr ''}'')], sample_fragment 2 [(''id'', JStr ''c'')] []]])),
      (''e3'', JObj [''usage'' \<mapsto> JNull])]"

theorem openai_stream_assembles_witness:
  "read_stream nl2 (on_data_lines (openai_data sample_stream))
     (map Inr [frame ''e1'' @ frame ''e2'' @ frame ''e3'' @ frame ''[DONE]'']) [] [] =
   [text_chunk ''Hi'', last_chunk (Some
      [\<lparr>tc_id = ''a'', tc_name = ''read_file'', tc_arguments = ''[]''\<rparr>,
       \<lparr>tc_id = ''b'', tc_name = ''bash'', tc_arguments = ''{}''\<rparr>])]"
proof -
  let ?ds = "[''e1'', ''e2'', ''e3'']"
  have v: "list_all valid_utf8 [frame ''e1'' @ frame ''e2'' @ frame ''e3'' @ frame ''[DONE]'']"
    by (simp add: frame_def data_prefix_def nl2_def newline_def utf8_len_def)
  have c: "concat [frame ''e1'' @ frame ''e2'' @ frame ''e3'' @ frame ''[DONE]''] = concat (map frame (?ds @ [''[DONE]'']))"
    by simp
  have d: "list_all (\<lambda>d. newline \<notin> set d \<and> d \<noteq> ''[DONE]'') ?ds"
    by (simp add: newline_def)
  let ?e1 = "JObj [''content'' \<mapsto> JStr ''Hi'', ''tool_calls'' \<mapsto> JArr
      [sample_fragment 1 [(''id'', JStr ''b'')] [(''name'', JStr ''bash''), (''arguments'', JStr ''{'')]]]"
  let ?e2 = "JObj [''tool_calls'' \<mapsto> JArr
      [sample_fragment 0 [(''id'', JStr ''a'')] [(''name'', JStr ''read_file''), (''arguments'', JStr ''[]'')],
       sample_fragment 1 [] [(''arguments'', JStr ''}'')], sample_fragment 2 [(''id'', JStr ''c'')] []]]"
  have deltas: "List.map_filter (payload_delta sample_stream) ?ds = [?e1, ?e2]"
    by (simp add: map_filter_simps payload_delta_def sample_stream_def sample_event_def)
  let ?frs = "concat (map delta_fragments [?e1, ?e2])"
  have idx: "fragment_index (sample_fragment i ids fn) = as_u64 (JInt i)" for i ids fn
    by (simp add: fragment_index_def sample_fragment_def)
  have f: "fragments_of i ?frs =
      (if i = 0 then [sample_fragment 0 [(''id'', JStr ''a'')] [(''name'', JStr ''read_file''), (''arguments'', JStr ''[]'')]]
       else if i = 1 then [sample_fragment 1 [(''id'', JStr ''b'')] [(''name'', JStr ''bash''), (''arguments'', JStr ''{'')],
         sample_fragment 1 [] [(''arguments'', JStr ''}'')]]
       else if i = 2 then [sample_fragment 2 [(''id'', JStr ''c'')] []] else [])" for i
    by (simp add: fragments_of_def delta_fragments_def idx)
  then have "{i. fragments_of i ?frs \<noteq> []} = {0, 1, 2}"
    by auto
  then have "sorted_list_of_set {i. fragments_of i ?frs \<noteq> []} = [0, 1, 2]"
    by simp
  then show ?thesis
    unfolding openai_stream_assembles [OF v c d] deltas Let_def f
    by (simp add: map_filter_simps call_of_def delta_text_def fragment_arguments_def sample_fragment_def)
qed

subsection \<open>Usage in a stream\<close>

lemma openai_usage_skipped:
  "list_all (\<lambda>d. d \<noteq> ''[DONE]'' \<and> (\<exists>j. parse d = Some j \<and> jget j ''usage'' \<noteq> None)) ds \<Longrightarrow>
   on_events (openai_data parse) ds p = ([], p)"
  by (induction ds) (auto simp: openai_data_def)

text \<open>The request asks for usage in the stream, and the reader skips every event that has a usage
  member, whatever its value. A server that answers as documented, with the member in every event and
  null in all but the last, has its whole answer skipped: neither text nor calls are handed on, only the
  end of the stream.\<close>

theorem openai_usage_loses_answer:
  assumes "list_all valid_utf8 chunks" and "concat chunks = concat (map frame (ds @ [''[DONE]'']))"
    and "list_all (\<lambda>d. newline \<notin> set d \<and> d \<noteq> ''[DONE]'' \<and> (\<exists>j. parse d = Some j \<and> jget j ''usage'' \<noteq> None)) ds"
  shows "read_stream nl2 (on_data_lines (openai_data parse)) (map Inr chunks) [] [] = [last_chunk None]"
proof -
  have "list_all (\<lambda>d. newline \<notin> set d) (ds @ [''[DONE]''])"
    using assms(3) by (simp add: list_all_iff newline_def)
  from sse_payloads [OF _ this, of chunks "openai_data parse" "[]"] assms(1,2) decoded_valid
  have "read_stream nl2 (on_data_lines (openai_data parse)) (map Inr chunks) [] [] =
      fst (on_events (openai_data parse) (ds @ [''[DONE]'']) [])" by metis
  moreover have "on_events (openai_data parse) ds [] = ([], [])"
    using assms(3) by (intro openai_usage_skipped) (simp add: list_all_iff)
  ultimately show ?thesis
    by (simp add: on_events_append openai_data_def finish_calls_def Let_def)
qed

definition sample_delta :: json where
  "sample_delta = JObj [''usage'' \<mapsto> JNull,
     ''choices'' \<mapsto> JArr [JObj [''delta'' \<mapsto> JObj [''content'' \<mapsto> JStr ''Hello'']]]]"

theorem openai_usage_loses_answer_witness:
  "read_stream nl2 (on_data_lines (openai_data (\<lambda>d. if d = ''j'' then Some sample_delta else None)))
     (map Inr [frame ''j'' @ frame ''[DONE]'']) [] [] = [last_chunk None]
   \<and> fst (openai_delta (JObj [''content'' \<mapsto> JStr ''Hello'']) []) = [text_chunk ''Hello'']"
proof -
  let ?parse = "\<lambda>d. if d = ''j'' then Some sample_delta else None"
  have v: "list_all valid_utf8 [frame ''j'' @ frame ''[DONE]'']"
    by (simp add: frame_def data_prefix_def nl2_def newline_def utf8_len_def)
  have c: "concat [frame ''j'' @ frame ''[DONE]''] = concat (map frame ([''j''] @ [''[DONE]'']))"
    by simp
  have d: "list_all (\<lambda>d. newline \<notin> set d \<and> d \<noteq> ''[DONE]'' \<and> (\<exists>j. ?parse d = Some j \<and> jget j ''usage'' \<noteq> None)) [''j'']"
    by (simp add: newline_def sample_delta_def)
  show ?thesis
    using openai_usage_loses_answer [OF v c d] by (simp add: openai_delta_def)
qed

end
