(* ===== verification/Anthropic_Provider.thy ===== *)
theory Anthropic_Provider
  imports Openai_Provider Session_Tokens
begin

text \<open>
  The provider for the messages interface of Anthropic (\<^verbatim>\<open>AnthropicProvider\<close> in
  \<^verbatim>\<open>src/src/agent/providers.rs\<close>): the system prompt is a member of the request of its own, tool calls and
  their results are blocks of content, and a stream opens, fills and closes blocks.
\<close>

subsection \<open>Requests\<close>

definition anthropic_tool :: "tool_schema \<Rightarrow> json" where
  "anthropic_tool t = JObj [''name'' \<mapsto> JStr (ts_name t), ''description'' \<mapsto> JStr (ts_description t),
     ''input_schema'' \<mapsto> ts_parameters t]"

definition anthropic_image :: "image_attachment \<Rightarrow> json" where
  "anthropic_image img = JObj [''type'' \<mapsto> JStr ''image'', ''source'' \<mapsto> JObj [''type'' \<mapsto> JStr ''base64'',
     ''media_type'' \<mapsto> JStr (img_media_type img), ''data'' \<mapsto> JStr (img_data img)]]"

definition anthropic_tool_use :: "(string \<Rightarrow> json option) \<Rightarrow> tool_call \<Rightarrow> json" where
  "anthropic_tool_use parse tc = JObj [''type'' \<mapsto> JStr ''tool_use'', ''id'' \<mapsto> JStr (tc_id tc),
     ''name'' \<mapsto> JStr (tc_name tc), ''input'' \<mapsto> unwrap_or (parse (tc_arguments tc)) (JObj Map.empty)]"

definition role_message :: "string \<Rightarrow> json \<Rightarrow> json" where
  "role_message r c = JObj [''role'' \<mapsto> JStr r, ''content'' \<mapsto> c]"

definition anthropic_message :: "(string \<Rightarrow> json option) \<Rightarrow> message \<Rightarrow> json list" where
  "anthropic_message parse m =
     (case role m of
        System \<Rightarrow> []
      | User \<Rightarrow>
          [role_message ''user'' (if images m = [] then JStr (content m)
             else JArr (map anthropic_image (images m)
                        @ (if content m \<noteq> [] then [json_text_part (content m)] else [])))]
      | Assistant \<Rightarrow>
          (case tool_calls m of
             Some tcs \<Rightarrow> [role_message ''assistant'' (JArr (map (anthropic_tool_use parse) tcs))]
           | None \<Rightarrow> [role_message ''assistant'' (JStr (content m))])
      | Tool \<Rightarrow>
          (case tool_call_id m of
             Some cid \<Rightarrow> [role_message ''user'' (JArr [JObj [''type'' \<mapsto> JStr ''tool_result'',
                ''tool_use_id'' \<mapsto> JStr cid, ''content'' \<mapsto> JStr (content m)]])]
           | None \<Rightarrow> []))"

text \<open>The loop over the messages: every system message replaces the prompt.\<close>

fun anthropic_format ::
  "(string \<Rightarrow> json option) \<Rightarrow> message list \<Rightarrow> string option \<Rightarrow> json list \<Rightarrow> string option \<times> json list" where
  "anthropic_format parse [] sys formatted = (sys, formatted)"
| "anthropic_format parse (m # ms) sys formatted =
     anthropic_format parse ms (if role m = System then Some (content m) else sys)
       (formatted @ anthropic_message parse m)"

definition anthropic_body ::
  "(string \<Rightarrow> json option) \<Rightarrow> string \<Rightarrow> nat \<Rightarrow> bool \<Rightarrow> message list \<Rightarrow> tool_schema list option \<Rightarrow> json" where
  "anthropic_body parse md max_tokens streaming msgs tools =
     (let (sys, formatted) = anthropic_format parse msgs None [];
          body = JObj [''model'' \<mapsto> JStr md, ''max_tokens'' \<mapsto> JInt (int max_tokens), ''messages'' \<mapsto> JArr formatted];
          body1 = (if streaming then jset body ''stream'' (JBool True) else body)
      in with_tools anthropic_tool tools (jset_opt body1 ''system'' (map_option JStr sys)))"

definition anthropic_request :: "string \<Rightarrow> string \<Rightarrow> json \<Rightarrow> http_request" where
  "anthropic_request api_key base_url body =
     \<lparr>rq_url = base_url @ ''/v1/messages'',
      rq_headers = [(''x-api-key'', api_key), (''anthropic-version'', ''2023-06-01''),
        (''Content-Type'', ''application/json'')],
      rq_body = body\<rparr>"

subsection \<open>Answers\<close>

definition error_message_of :: "json \<Rightarrow> string" where
  "error_message_of body = str_or ''Unknown error'' (jindex (jindex body ''error'') ''message'')"

definition anthropic_failure :: "http_response \<Rightarrow> anyhow_error" where
  "anthropic_failure rs =
     (let body = (case rs_json rs of
                    Inr j \<Rightarrow> j
                  | Inl _ \<Rightarrow> JObj [''error'' \<mapsto> JObj [''message'' \<mapsto> JStr ''Unknown error'']]);
          msg = error_message_of body
      in Llm (if rs_status rs = 429 then RateLimit msg else ProviderError (rs_status rs) msg))"

definition of_type :: "string \<Rightarrow> json \<Rightarrow> bool" where
  "of_type t c \<longleftrightarrow> jindex c ''type'' = JStr t"

definition anthropic_read_call :: "(json \<Rightarrow> string) \<Rightarrow> json \<Rightarrow> tool_call" where
  "anthropic_read_call print c =
     \<lparr>tc_id = str_or [] (jindex c ''id''), tc_name = str_or [] (jindex c ''name''),
      tc_arguments = print (jindex c ''input'')\<rparr>"

definition anthropic_answer :: "(json \<Rightarrow> string) \<Rightarrow> json \<Rightarrow> (anyhow_error, llm_response) res" where
  "anthropic_answer print body =
     (case jget body ''error'' of
        Some e \<Rightarrow> Inl (Llm (ProviderError 400 (str_or ''Unknown error'' (jindex e ''message''))))
      | None \<Rightarrow>
          (case as_array (jindex body ''content'') of
             None \<Rightarrow> Inl (Msg ''No content in response'')
           | Some blocks \<Rightarrow>
               let us = map_option (json_usage ''input_tokens'' ''output_tokens'') (jget body ''usage'');
                   calls = map (anthropic_read_call print) (filter (of_type ''tool_use'') blocks)
               in Inr \<lparr>lr_content = (if calls \<noteq> [] then ToolCalls calls
                          else Text (concat (map (\<lambda>c. str_or [] (jindex c ''text'')) (filter (of_type ''text'') blocks)))),
                       lr_usage = us\<rparr>))"

definition anthropic_chat ::
  "'w http_host \<Rightarrow> string \<Rightarrow> string \<Rightarrow> string \<Rightarrow> nat \<Rightarrow> message list \<Rightarrow> tool_schema list option \<Rightarrow> 'w
   \<Rightarrow> (anyhow_error, llm_response) res \<times> 'w" where
  "anthropic_chat h api_key base_url md max_tokens msgs tools w =
     (let (r, w1) = post h (anthropic_request api_key base_url (anthropic_body (of_json h) md max_tokens False msgs tools)) w
      in (bind_res r (\<lambda>rs.
            if \<not> is_success (rs_status rs) then Inl (anthropic_failure rs)
            else bind_res (rs_json rs) (anthropic_answer (to_json h))), w1))"

definition anthropic_summarize ::
  "'w http_host \<Rightarrow> string \<Rightarrow> string \<Rightarrow> string \<Rightarrow> nat \<Rightarrow> string \<Rightarrow> 'w \<Rightarrow> (anyhow_error, string) res \<times> 'w" where
  "anthropic_summarize h api_key base_url md max_tokens t w =
     (let (r, w1) = anthropic_chat h api_key base_url md max_tokens (summary_prompt t) None w
      in (bind_res r (\<lambda>resp. text_of_answer (lr_content resp)), w1))"

subsection \<open>Streams\<close>

record tool_blocks =
  tb_pending :: "tool_call list"
  tb_id :: "string option"
  tb_name :: "string option"
  tb_input :: string

definition tb_new :: tool_blocks where
  "tb_new = \<lparr>tb_pending = [], tb_id = None, tb_name = None, tb_input = []\<rparr>"

definition pending_calls_of :: "tool_blocks \<Rightarrow> tool_call list option" where
  "pending_calls_of b = (if tb_pending b = [] then None else Some (tb_pending b))"

definition block_delta :: "json \<Rightarrow> tool_blocks \<Rightarrow> stream_chunks \<times> tool_blocks" where
  "block_delta j b =
     (case as_str (jindex (jindex j ''delta'') ''text'') of
        Some t \<Rightarrow> ([text_chunk t], b)
      | None \<Rightarrow>
          (case as_str (jindex (jindex j ''delta'') ''partial_json'') of
             Some d \<Rightarrow> ([], b\<lparr>tb_input := tb_input b @ d\<rparr>)
           | None \<Rightarrow> ([], b)))"

definition block_start :: "json \<Rightarrow> tool_blocks \<Rightarrow> tool_blocks" where
  "block_start j b =
     (case jget j ''content_block'' of
        Some cb \<Rightarrow>
          if of_type ''tool_use'' cb
          then b\<lparr>tb_id := as_str (jindex cb ''id''), tb_name := as_str (jindex cb ''name''), tb_input := []\<rparr>
          else b
      | None \<Rightarrow> b)"

definition block_stop :: "tool_blocks \<Rightarrow> tool_blocks" where
  "block_stop b =
     (case (tb_id b, tb_name b) of
        (Some i, Some n) \<Rightarrow>
          \<lparr>tb_pending = tb_pending b @ [\<lparr>tc_id = i, tc_name = n, tc_arguments = tb_input b\<rparr>],
           tb_id = None, tb_name = None, tb_input = []\<rparr>
      | _ \<Rightarrow> b\<lparr>tb_id := None, tb_name := None\<rparr>)"

definition anthropic_data :: "(string \<Rightarrow> json option) \<Rightarrow> string \<Rightarrow> tool_blocks \<Rightarrow> stream_chunks \<times> tool_blocks" where
  "anthropic_data parse d b =
     (if d = ''[DONE]'' then ([last_chunk (pending_calls_of b)], b)
      else case parse d of
        None \<Rightarrow> ([], b)
      | Some j \<Rightarrow>
          (let ty = str_or [] (jindex j ''type'') in
           if ty = ''content_block_delta'' then block_delta j b
           else if ty = ''content_block_start'' then ([], block_start j b)
           else if ty = ''content_block_stop'' then ([], block_stop b)
           else if ty = ''message_stop'' then ([last_chunk (pending_calls_of b)], b)
           else if ty = ''error''
           then ([Inl (Msg (''Anthropic error: '' @ error_message_of j))], b)
           else ([], b)))"

definition anthropic_chat_stream ::
  "'w http_host \<Rightarrow> string \<Rightarrow> string \<Rightarrow> string \<Rightarrow> nat \<Rightarrow> message list \<Rightarrow> tool_schema list option \<Rightarrow> 'w
   \<Rightarrow> (anyhow_error, stream_chunks) res \<times> 'w" where
  "anthropic_chat_stream h api_key base_url md max_tokens msgs tools w =
     (let (r, w1) = post h (anthropic_request api_key base_url (anthropic_body (of_json h) md max_tokens True msgs tools)) w
      in (bind_res r (\<lambda>rs.
            if \<not> is_success (rs_status rs)
            then (case stream_failure rs of Inl e \<Rightarrow> Inl e | Inr e \<Rightarrow> Inl e)
            else Inr (read_stream nl2 (on_data_lines (anthropic_data (of_json h))) (rs_chunks rs) [] tb_new)), w1))"

subsection \<open>The prompt\<close>

lemma anthropic_format_eq:
  "anthropic_format parse ms sys formatted =
     (foldl (\<lambda>s m. if role m = System then Some (content m) else s) sys ms,
      formatted @ concat (map (anthropic_message parse) ms))"
  by (induction ms arbitrary: sys formatted) simp_all

lemma foldl_no_system:
  "list_all (\<lambda>m. role m \<noteq> System) ms \<Longrightarrow>
   foldl (\<lambda>s m. if role m = System then Some (content m) else s) sys ms = sys"
  by (induction ms arbitrary: sys) simp_all

text \<open>After a compaction the prompt is gone. The summary is kept as a system message in front of the
  last four messages, and of several system messages this format sends only the last: unless one of the
  four is itself a system message, the request carries the summary as its system prompt, and the system
  context of the session, which is unchanged, is not part of it.\<close>

theorem anthropic_forgets_prompt:
  assumes "compact_native bpe now summ s w = (Inr (), s', w')" and "4 \<le> length (messages s)"
    and "list_all (\<lambda>sm. role (sm_message sm) \<noteq> System) (drop (length (messages s) - 4) (messages s))"
  shows "system_context s' = system_context s
    \<and> (\<exists>summary. summ (summary_input (take (length (messages s) - 4) (messages s))) w = (Inr summary, w')
         \<and> anthropic_format parse (messages_for_llm s') None [] =
            (Some (''Previous conversation summary:'' @ nl2 @ summary),
             concat (map (anthropic_message parse) (map sm_message (drop (length (messages s) - 4) (messages s))))))"
proof -
  from compact_native_ok [OF assms(1,2)] obtain summary where
    sum: "summ (summary_input (take (length (messages s) - 4) (messages s))) w = (Inr summary, w')"
    and msgs: "messages s' = sm_new now (text_message System (''Previous conversation summary:'' @ nl2 @ summary))
        # drop (length (messages s) - 4) (messages s)"
    and ctx: "system_context s' = system_context s"
    by metis
  let ?recent = "map sm_message (drop (length (messages s) - 4) (messages s))"
  have "list_all (\<lambda>m. role m \<noteq> System) ?recent"
    using assms(3) by (simp add: list_all_iff)
  note fs = foldl_no_system [OF this]
  have "messages_for_llm s' = (case system_context s of Some c \<Rightarrow> [text_message System c] | None \<Rightarrow> [])
      @ text_message System (''Previous conversation summary:'' @ nl2 @ summary) # ?recent"
    by (simp add: messages_for_llm_def msgs ctx sm_new_def)
  then have "anthropic_format parse (messages_for_llm s') None [] =
      (Some (''Previous conversation summary:'' @ nl2 @ summary), concat (map (anthropic_message parse) ?recent))"
    using fs by (cases "system_context s") (simp_all add: anthropic_format_eq anthropic_message_def text_message_def)
  with sum ctx show ?thesis by blast
qed

text \<open>The text of an assistant's message that also calls tools is not part of the request.\<close>

lemma anthropic_drops_text: "anthropic_message parse (calls_message t (Some cs)) = anthropic_message parse (calls_message t' (Some cs))"
  by (simp add: anthropic_message_def calls_message_def)

subsection \<open>Calls\<close>

text \<open>Calls written into a request and read back as an answer are the same, as far as the JSON of
  their arguments is printed as it was read.\<close>

theorem anthropic_calls_roundtrip:
  assumes "cs \<noteq> []" and "list_all (\<lambda>c. \<exists>v. parse (tc_arguments c) = Some v \<and> print v = tc_arguments c) cs"
  shows "anthropic_answer print (JObj [''content'' \<mapsto> JArr (map (anthropic_tool_use parse) cs)]) = Inr (resp_tool_calls cs)"
proof -
  have "filter (of_type ''tool_use'') (map (anthropic_tool_use parse) cs) = map (anthropic_tool_use parse) cs"
    by (rule filter_True) (auto simp: of_type_def anthropic_tool_use_def)
  moreover have "map (anthropic_read_call print) (map (anthropic_tool_use parse) cs) = cs"
    unfolding map_map
    by (rule map_idI) (use assms(2) in \<open>fastforce simp: list_all_iff anthropic_read_call_def anthropic_tool_use_def str_or_def\<close>)
  ultimately show ?thesis
    using assms(1) by (simp add: anthropic_answer_def resp_tool_calls_def)
qed

theorem anthropic_calls_roundtrip_witness:
  "anthropic_answer (\<lambda>v. ''{}'') (JObj [''content'' \<mapsto> JArr (map (anthropic_tool_use (\<lambda>s. Some (JObj Map.empty)))
      [\<lparr>tc_id = ''1'', tc_name = ''date'', tc_arguments = ''{}''\<rparr>])]) =
   Inr (resp_tool_calls [\<lparr>tc_id = ''1'', tc_name = ''date'', tc_arguments = ''{}''\<rparr>])"
  by (rule anthropic_calls_roundtrip) simp_all

text \<open>The blocks of an answer and the events that stream them.\<close>

datatype block = TextBlock "string list" | ToolBlock string string "string list"

definition event :: "string \<Rightarrow> (string \<times> json) list \<Rightarrow> json" where
  "event ty kvs = JObj ((map_of kvs)(''type'' \<mapsto> JStr ty))"

fun block_events :: "block \<Rightarrow> json list" where
  "block_events (TextBlock ts) =
     event ''content_block_start'' [(''content_block'', JObj [''type'' \<mapsto> JStr ''text''])]
     # map (\<lambda>t. event ''content_block_delta'' [(''delta'', JObj [''text'' \<mapsto> JStr t])]) ts
     @ [event ''content_block_stop'' []]"
| "block_events (ToolBlock i n ds) =
     event ''content_block_start'' [(''content_block'', JObj [''type'' \<mapsto> JStr ''tool_use'', ''id'' \<mapsto> JStr i, ''name'' \<mapsto> JStr n])]
     # map (\<lambda>d. event ''content_block_delta'' [(''delta'', JObj [''partial_json'' \<mapsto> JStr d])]) ds
     @ [event ''content_block_stop'' []]"

fun block_texts :: "block \<Rightarrow> stream_chunks" where
  "block_texts (TextBlock ts) = map text_chunk ts"
| "block_texts (ToolBlock i n ds) = []"

fun block_calls :: "block \<Rightarrow> tool_call list" where
  "block_calls (TextBlock ts) = []"
| "block_calls (ToolBlock i n ds) = [\<lparr>tc_id = i, tc_name = n, tc_arguments = concat ds\<rparr>]"

definition on_json :: "json \<Rightarrow> tool_blocks \<Rightarrow> stream_chunks \<times> tool_blocks" where
  "on_json j b = anthropic_data (\<lambda>_. Some j) [] b"

lemma on_events_payloads:
  "map parse ds = map Some js \<Longrightarrow> ''[DONE]'' \<notin> set ds \<Longrightarrow>
   on_events (anthropic_data parse) ds b = on_events on_json js b"
proof (induction ds arbitrary: js b)
  case (Cons d ds)
  then obtain j js' where js: "js = j # js'" "parse d = Some j" "map parse ds = map Some js'" by auto
  have "anthropic_data parse d b = on_json j b"
    using Cons.prems(2) js(2) by (auto simp: on_json_def anthropic_data_def)
  with Cons.IH [OF js(3)] Cons.prems(2) js(1) show ?case by (simp split: prod.splits)
qed simp

lemmas on_json_simps = on_json_def anthropic_data_def str_or_def event_def block_delta_def block_start_def
  block_stop_def of_type_def

lemma text_deltas:
  "on_events on_json (map (\<lambda>t. event ''content_block_delta'' [(''delta'', JObj [''text'' \<mapsto> JStr t])]) ts) b =
     (map text_chunk ts, b)"
  by (induction ts) (simp_all add: on_json_simps)

lemma input_deltas:
  "on_events on_json (map (\<lambda>d. event ''content_block_delta'' [(''delta'', JObj [''partial_json'' \<mapsto> JStr d])]) ds) b =
     ([], b\<lparr>tb_input := tb_input b @ concat ds\<rparr>)"
  by (induction ds arbitrary: b) (simp_all add: on_json_simps)

lemma block_starts:
  "on_json (event ''content_block_start'' [(''content_block'', JObj [''type'' \<mapsto> JStr ''text''])]) b = ([], b)"
  "on_json (event ''content_block_start'' [(''content_block'', JObj [''type'' \<mapsto> JStr ''tool_use'',
     ''id'' \<mapsto> JStr i, ''name'' \<mapsto> JStr n])]) b = ([], b\<lparr>tb_id := Some i, tb_name := Some n, tb_input := []\<rparr>)"
  "on_json (event ''content_block_stop'' []) b = ([], block_stop b)"
  "on_json (event ''message_stop'' []) b = ([last_chunk (pending_calls_of b)], b)"
  by (simp_all add: on_json_simps)

lemma block_run:
  assumes "tb_id b = None" and "tb_name b = None"
  shows "\<exists>b'. on_events on_json (block_events k) b = (block_texts k, b') \<and> tb_id b' = None \<and> tb_name b' = None
     \<and> tb_pending b' = tb_pending b @ block_calls k"
  using assms
  by (cases k) (simp_all add: on_events_append text_deltas input_deltas block_starts block_stop_def)

lemma blocks_run:
  assumes "tb_id b = None" and "tb_name b = None"
  shows "\<exists>b'. on_events on_json (concat (map block_events ks)) b = (concat (map block_texts ks), b')
     \<and> tb_pending b' = tb_pending b @ concat (map block_calls ks)"
  using assms
proof (induction ks arbitrary: b)
  case (Cons k ks)
  obtain b1 where b1: "on_events on_json (block_events k) b = (block_texts k, b1)" "tb_id b1 = None" "tb_name b1 = None"
    "tb_pending b1 = tb_pending b @ block_calls k"
    using block_run [OF Cons.prems] by blast
  from Cons.IH [OF b1(2,3)] b1 show ?case
    by (auto simp: on_events_append)
qed simp

text \<open>A streamed answer is the answer. Whatever text and tool blocks it has and however their texts and
  arguments are split into deltas, the reader hands on the texts in order and, at the end, the calls in
  order with their whole arguments.\<close>

theorem anthropic_stream_assembles:
  assumes "map parse ds = map Some (concat (map block_events ks) @ [event ''message_stop'' []])"
    and "''[DONE]'' \<notin> set ds"
  shows "fst (on_events (anthropic_data parse) ds tb_new) =
     concat (map block_texts ks)
     @ [last_chunk (if concat (map block_calls ks) = [] then None else Some (concat (map block_calls ks)))]"
proof -
  have new: "tb_id tb_new = None" "tb_name tb_new = None" "tb_pending tb_new = []" by (simp_all add: tb_new_def)
  obtain b where
    "on_events on_json (concat (map block_events ks)) tb_new = (concat (map block_texts ks), b)"
    "tb_pending b = concat (map block_calls ks)"
    using blocks_run [OF new(1,2), of ks] new(3) by auto
  then show ?thesis
    unfolding on_events_payloads [OF assms]
    by (simp add: on_events_append block_starts pending_calls_of_def)
qed

definition sample_events_of :: "string \<Rightarrow> json option" where
  "sample_events_of d = map_of (zip [''0'', ''1'', ''2'', ''3'', ''4'']
     (block_events (ToolBlock ''t'' ''date'' [''{'', ''}'']) @ [event ''message_stop'' []])) d"

theorem anthropic_stream_assembles_witness:
  "fst (on_events (anthropic_data sample_events_of) [''0'', ''1'', ''2'', ''3'', ''4''] tb_new) =
     [last_chunk (Some [\<lparr>tc_id = ''t'', tc_name = ''date'', tc_arguments = ''{}''\<rparr>])]"
proof -
  have "map sample_events_of [''0'', ''1'', ''2'', ''3'', ''4''] =
      map Some (concat (map block_events [ToolBlock ''t'' ''date'' [''{'', ''}'']]) @ [event ''message_stop'' []])"
    by (simp add: sample_events_of_def)
  from anthropic_stream_assembles [OF this] show ?thesis by simp
qed

definition sample_history :: session where
  "sample_history = (session_new ''id'' 0 None)\<lparr>system_context := Some ''Be kind.'',
     messages := replicate 4 (sm_new 0 (text_message User ''hi''))\<rparr>"

theorem anthropic_forgets_prompt_witness:
  "system_context sample_history = Some ''Be kind.''
   \<and> (\<exists>s'. compact_native None 0 (\<lambda>t w. (Inr ''S'', w)) sample_history () = (Inr (), s', ())
        \<and> system_context s' = Some ''Be kind.''
        \<and> fst (anthropic_format (\<lambda>_. None) (messages_for_llm s') None []) =
             Some (''Previous conversation summary:'' @ nl2 @ ''S''))"
proof -
  let ?summ = "\<lambda>(t :: string) (w :: unit). (Inr ''S'' :: (anyhow_error, string) res, w)"
  have len: "4 \<le> length (messages sample_history)"
    and recent: "list_all (\<lambda>sm. role (sm_message sm) \<noteq> System)
        (drop (length (messages sample_history) - 4) (messages sample_history))"
    and ctx: "system_context sample_history = Some ''Be kind.''"
    by (simp_all add: sample_history_def sm_new_def message_defs list_all_iff)
  obtain s' where ok: "compact_native None 0 ?summ sample_history () = (Inr (), s', ())"
    using len by (auto simp: compact_native_def Let_def)
  from anthropic_forgets_prompt [OF ok len recent, of "\<lambda>_. None"] ctx ok show ?thesis
    by auto
qed

end
