(* ===== verification/Session_Store.thy ===== *)
theory Session_Store
  imports Llm_Types
begin

text \<open>
  The file \<^verbatim>\<open>sessions.json\<close> (\<^verbatim>\<open>src/src/agent/session_store.rs\<close>): what it records of a session, and how
  several tasks and processes change it.

  \<open>parse_store\<close> and \<open>print_store\<close> are the derived conversions between the map of entries and JSON text.
  The time is an argument, in milliseconds. A file that does not exist is \<open>None\<close>.
\<close>

subsection \<open>Entries\<close>

record session_entry =
  se_session_id :: string
  se_updated_at :: u64
  cli_session_ids :: "string \<rightharpoonup> string"
  claude_cli_session_id :: "string option"
  se_input_tokens :: "u64 option"
  se_output_tokens :: "u64 option"
  se_total_tokens :: "u64 option"
  se_compaction_count :: "u32 option"
  se_memory_flush_compaction_count :: "u32 option"
  last_heartbeat_text :: "string option"
  last_heartbeat_sent_at :: "u64 option"

definition session_entry_new :: "u64 \<Rightarrow> string \<Rightarrow> session_entry" where
  "session_entry_new now sid =
     \<lparr>se_session_id = sid, se_updated_at = now, cli_session_ids = Map.empty, claude_cli_session_id = None,
      se_input_tokens = None, se_output_tokens = None, se_total_tokens = None, se_compaction_count = None,
      se_memory_flush_compaction_count = None, last_heartbeat_text = None, last_heartbeat_sent_at = None\<rparr>"

definition non_empty :: "string option \<Rightarrow> string option" where
  "non_empty s = (case s of Some i \<Rightarrow> if i \<noteq> [] then Some i else None | None \<Rightarrow> None)"

definition entry_cli_session_id :: "string \<Rightarrow> session_entry \<Rightarrow> string option" where
  "entry_cli_session_id prov e =
     or_else (non_empty (cli_session_ids e prov))
       (if prov = ''claude-cli'' then non_empty (claude_cli_session_id e) else None)"

definition entry_set_cli_session_id :: "u64 \<Rightarrow> string \<Rightarrow> string \<Rightarrow> session_entry \<Rightarrow> session_entry" where
  "entry_set_cli_session_id now prov sid e =
     (let e1 = e\<lparr>cli_session_ids := (cli_session_ids e)(prov \<mapsto> sid)\<rparr>;
          e2 = (if prov = ''claude-cli'' then e1\<lparr>claude_cli_session_id := Some sid\<rparr> else e1)
      in e2\<lparr>se_updated_at := now\<rparr>)"

definition DEDUP_WINDOW_MS :: u64 where
  "DEDUP_WINDOW_MS = 24 * 60 * 60 * 1000"

definition is_duplicate_heartbeat :: "u64 \<Rightarrow> string \<Rightarrow> session_entry \<Rightarrow> bool" where
  "is_duplicate_heartbeat now t e =
     (case (last_heartbeat_text e, last_heartbeat_sent_at e) of
        (Some last_text, Some sent_at) \<Rightarrow> saturating_sub now sent_at < DEDUP_WINDOW_MS \<and> last_text = t
      | _ \<Rightarrow> False)"

definition record_heartbeat :: "u64 \<Rightarrow> string \<Rightarrow> session_entry \<Rightarrow> session_entry" where
  "record_heartbeat now t e =
     e\<lparr>last_heartbeat_text := Some t, last_heartbeat_sent_at := Some now, se_updated_at := now\<rparr>"

subsection \<open>The store\<close>

type_synonym entries = "string \<rightharpoonup> session_entry"

record store_format =
  parse_store :: "string \<Rightarrow> entries option"
  print_store :: "entries \<Rightarrow> string"

definition read_entries :: "store_format \<Rightarrow> entries \<Rightarrow> string option \<Rightarrow> entries" where
  "read_entries fmt own file =
     (case file of Some t \<Rightarrow> unwrap_or (parse_store fmt t) Map.empty | None \<Rightarrow> own)"

definition load_store :: "store_format \<Rightarrow> string option \<Rightarrow> entries" where
  "load_store fmt file = read_entries fmt Map.empty file"

definition store_get_or_create :: "u64 \<Rightarrow> string \<Rightarrow> string \<Rightarrow> entries \<Rightarrow> session_entry \<times> entries" where
  "store_get_or_create now key sid es =
     (case es key of
        Some e \<Rightarrow> (e, es)
      | None \<Rightarrow> (session_entry_new now sid, es(key \<mapsto> session_entry_new now sid)))"

record store_update =
  su_key :: string
  su_session_id :: string
  su_change :: "session_entry \<Rightarrow> session_entry"
  su_now :: u64

definition apply_update :: "store_update \<Rightarrow> entries \<Rightarrow> entries" where
  "apply_update u es =
     (let (e, es1) = store_get_or_create (su_now u) (su_key u) (su_session_id u) es
      in es1(su_key u \<mapsto> (su_change u e)\<lparr>se_updated_at := su_now u\<rparr>))"

text \<open>\<open>SessionStore::update\<close>: the entries in memory are changed and written over the file.\<close>

definition update_store :: "store_format \<Rightarrow> store_update \<Rightarrow> entries \<Rightarrow> entries \<times> string option" where
  "update_store fmt u es = (let es1 = apply_update u es in (es1, Some (print_store fmt es1)))"

text \<open>\<open>SessionStore::load_and_update\<close> of one task, between taking and releasing the lock file.\<close>

definition load_and_update :: "store_format \<Rightarrow> store_update \<Rightarrow> entries \<Rightarrow> string option \<Rightarrow> string option" where
  "load_and_update fmt u own file = Some (print_store fmt (apply_update u (read_entries fmt own file)))"

definition store_cli_session_id :: "string \<Rightarrow> string \<Rightarrow> entries \<Rightarrow> string option" where
  "store_cli_session_id key prov es = Option.bind (es key) (entry_cli_session_id prov)"

definition set_cli_update :: "u64 \<Rightarrow> string \<Rightarrow> string \<Rightarrow> string \<Rightarrow> string \<Rightarrow> store_update" where
  "set_cli_update now key sid prov cli_sid =
     \<lparr>su_key = key, su_session_id = sid, su_change = entry_set_cli_session_id now prov cli_sid, su_now = now\<rparr>"

subsection \<open>Entries: what is set is found\<close>

lemma cli_session_after_update:
  "store_cli_session_id key' prov' (apply_update (set_cli_update now key sid prov cli) es) =
     (if key' = key \<and> prov' = prov then (if cli = [] then None else Some cli)
      else if key' = key \<and> es key = None then None
      else store_cli_session_id key' prov' es)"
  by (auto simp: store_cli_session_id_def apply_update_def set_cli_update_def store_get_or_create_def
      entry_cli_session_id_def entry_set_cli_session_id_def session_entry_new_def non_empty_def Let_def
      split: option.splits)

text \<open>The session a command-line provider is to resume is the one recorded last for it: after it is
  set it is found, it is not found under another provider, and no other entry changes; an empty
  identifier counts as none.\<close>

theorem cli_session_lookup:
  "store_cli_session_id key' prov' (apply_update (set_cli_update now key sid prov cli) es) =
     (if key' = key \<and> prov' = prov then (if cli = [] then None else Some cli)
      else if key' = key \<and> es key = None then None
      else store_cli_session_id key' prov' es)"
  by (rule cli_session_after_update)

lemma duplicate_heartbeat_window:
  "is_duplicate_heartbeat now t (record_heartbeat sent t e) \<longleftrightarrow> unat now < unat sent + 86400000"
proof -
  have "unat (now - sent) = unat now - unat sent" if "sent \<le> now"
    using that by (rule unat_sub)
  then show ?thesis
    by (auto simp: is_duplicate_heartbeat_def record_heartbeat_def saturating_sub_def DEDUP_WINDOW_MS_def
        word_le_nat_alt word_less_nat_alt)
qed

subsection \<open>Tasks that share the file\<close>

datatype phase = Waiting | Holding | HasRead entries | Written

record store_task =
  tk_update :: store_update
  tk_own :: entries
  tk_phase :: phase

record store_system =
  st_file :: "string option"
  st_holder :: "nat option"
  st_tasks :: "nat \<rightharpoonup> store_task"
  st_log :: "store_update list"

definition leave :: "nat \<Rightarrow> store_system \<Rightarrow> store_system" where
  "leave r sy = sy\<lparr>st_holder := None, st_tasks := (st_tasks sy)(r := None)\<rparr>"

text \<open>One task goes through loading, locking, reading, writing (to a temporary file that is renamed, so
  that the file changes at once) and unlocking; a failure closes the lock file, which releases the lock
  like the unlocking does.\<close>

inductive store_step :: "store_format \<Rightarrow> store_system \<Rightarrow> store_system \<Rightarrow> bool" for fmt where
  load: "st_tasks sy r = None \<Longrightarrow>
    store_step fmt sy (sy\<lparr>st_tasks := (st_tasks sy)(r \<mapsto>
       \<lparr>tk_update = u, tk_own = load_store fmt (st_file sy), tk_phase = Waiting\<rparr>)\<rparr>)"
| lock: "st_tasks sy r = Some t \<Longrightarrow> tk_phase t = Waiting \<Longrightarrow> st_holder sy = None \<Longrightarrow>
    store_step fmt sy (sy\<lparr>st_holder := Some r, st_tasks := (st_tasks sy)(r \<mapsto> t\<lparr>tk_phase := Holding\<rparr>)\<rparr>)"
| read: "st_tasks sy r = Some t \<Longrightarrow> tk_phase t = Holding \<Longrightarrow>
    store_step fmt sy (sy\<lparr>st_tasks := (st_tasks sy)(r \<mapsto>
       t\<lparr>tk_phase := HasRead (read_entries fmt (tk_own t) (st_file sy))\<rparr>)\<rparr>)"
| save: "st_tasks sy r = Some t \<Longrightarrow> tk_phase t = HasRead es \<Longrightarrow>
    store_step fmt sy (sy\<lparr>st_file := Some (print_store fmt (apply_update (tk_update t) es)),
       st_log := st_log sy @ [tk_update t], st_tasks := (st_tasks sy)(r \<mapsto> t\<lparr>tk_phase := Written\<rparr>)\<rparr>)"
| give_up: "st_tasks sy r = Some t \<Longrightarrow> tk_phase t = Waiting \<Longrightarrow>
    store_step fmt sy (sy\<lparr>st_tasks := (st_tasks sy)(r := None)\<rparr>)"
| fail: "st_tasks sy r = Some t \<Longrightarrow> tk_phase t \<noteq> Waiting \<Longrightarrow> store_step fmt sy (leave r sy)"

inductive store_reachable :: "store_format \<Rightarrow> string option \<Rightarrow> store_system \<Rightarrow> bool" for fmt file0 where
  init: "store_reachable fmt file0 \<lparr>st_file = file0, st_holder = None, st_tasks = Map.empty, st_log = []\<rparr>"
| step: "store_reachable fmt file0 sy \<Longrightarrow> store_step fmt sy sy' \<Longrightarrow> store_reachable fmt file0 sy'"

inductive_cases store_stepE: "store_step fmt sy sy'"

text \<open>Only the holder of the lock is past waiting; what it has read is what the file holds; and a task
  that found no file, and may find none again, starts from nothing.\<close>

definition store_inv :: "store_format \<Rightarrow> store_system \<Rightarrow> bool" where
  "store_inv fmt sy \<longleftrightarrow>
     (\<forall>r t. st_tasks sy r = Some t \<longrightarrow>
        (tk_phase t \<noteq> Waiting \<longrightarrow> st_holder sy = Some r)
        \<and> (\<forall>es. tk_phase t = HasRead es \<longrightarrow> es = load_store fmt (st_file sy))
        \<and> (st_file sy = None \<longrightarrow> tk_own t = Map.empty))"

lemma store_invD:
  assumes "store_inv fmt sy" and "st_tasks sy r = Some t"
  shows "tk_phase t \<noteq> Waiting \<Longrightarrow> st_holder sy = Some r"
    and "tk_phase t = HasRead es \<Longrightarrow> es = load_store fmt (st_file sy)"
    and "st_file sy = None \<Longrightarrow> tk_own t = Map.empty"
  using assms by (auto simp: store_inv_def)

lemma read_entries_load:
  "(f = None \<Longrightarrow> own = Map.empty) \<Longrightarrow> read_entries fmt own f = load_store fmt f"
  by (cases f) (auto simp: read_entries_def load_store_def)

lemma others_wait:
  assumes "store_inv fmt sy" and "st_holder sy = Some r \<or> st_holder sy = None"
    and "st_tasks sy r' = Some t'" and "r' \<noteq> r"
  shows "tk_phase t' = Waiting"
  using store_invD(1) [OF assms(1,3)] assms(2,4) by fastforce

text \<open>A step of the holder keeps the invariant if it does so for the holder's own task.\<close>

lemma store_inv_holder:
  assumes "store_inv fmt sy" and "st_holder sy = Some r \<or> st_holder sy = None"
    and "st_tasks sy' = (st_tasks sy)(r := nt)" and "st_file sy' = None \<Longrightarrow> st_file sy = None"
    and "\<And>t. nt = Some t \<Longrightarrow> (tk_phase t \<noteq> Waiting \<longrightarrow> st_holder sy' = Some r)
      \<and> (\<forall>es. tk_phase t = HasRead es \<longrightarrow> es = load_store fmt (st_file sy'))
      \<and> (st_file sy' = None \<longrightarrow> tk_own t = Map.empty)"
  shows "store_inv fmt sy'"
  unfolding store_inv_def
proof (intro allI impI)
  fix r' t'
  assume t': "st_tasks sy' r' = Some t'"
  show "(tk_phase t' \<noteq> Waiting \<longrightarrow> st_holder sy' = Some r') \<and>
      (\<forall>es. tk_phase t' = HasRead es \<longrightarrow> es = load_store fmt (st_file sy')) \<and>
      (st_file sy' = None \<longrightarrow> tk_own t' = Map.empty)"
  proof (cases "r' = r")
    case True
    with t' assms(3,5) show ?thesis by simp
  next
    case False
    with t' assms(3) have t: "st_tasks sy r' = Some t'" by simp
    from others_wait [OF assms(1,2) t False] store_invD(3) [OF assms(1) t] assms(4)
    show ?thesis by simp
  qed
qed

lemma store_inv_step:
  assumes "store_inv fmt sy" and "store_step fmt sy sy'"
  shows "store_inv fmt sy'"
  using assms(2)
proof cases
  case (load r u)
  with assms(1) show ?thesis
    by (auto simp: store_inv_def load_store_def read_entries_def split: if_splits)
next
  case (lock r t)
  show ?thesis
    by (rule store_inv_holder [OF assms(1), where r = r and nt = "Some (t\<lparr>tk_phase := Holding\<rparr>)"])
      (use lock store_invD(3) [OF assms(1) lock(2)] in simp_all)
next
  case (read r t)
  have h: "st_holder sy = Some r" using store_invD(1) [OF assms(1) read(2)] read(3) by simp
  have "read_entries fmt (tk_own t) (st_file sy) = load_store fmt (st_file sy)"
    using store_invD(3) [OF assms(1) read(2)] by (rule read_entries_load)
  with h read store_invD(3) [OF assms(1) read(2)] show ?thesis
    by (intro store_inv_holder [OF assms(1), where r = r
          and nt = "Some (t\<lparr>tk_phase := HasRead (load_store fmt (st_file sy))\<rparr>)"]) auto
next
  case (save r t es)
  have h: "st_holder sy = Some r" using store_invD(1) [OF assms(1) save(2)] save(3) by simp
  with save show ?thesis
    by (intro store_inv_holder [OF assms(1), where r = r and nt = "Some (t\<lparr>tk_phase := Written\<rparr>)"]) auto
next
  case (give_up r t)
  with assms(1) show ?thesis
    by (auto simp: store_inv_def split: if_splits)
next
  case (fail r t)
  have h: "st_holder sy = Some r" using store_invD(1) [OF assms(1) fail(2,3)] .
  with fail show ?thesis
    by (intro store_inv_holder [OF assms(1), where r = r and nt = None]) (simp_all add: leave_def)
qed

text \<open>The abstract store: a map that updates change one at a time.\<close>

inductive atomic_step :: "(entries \<times> store_update list) \<Rightarrow> (entries \<times> store_update list) \<Rightarrow> bool" where
  "atomic_step (es, us) (apply_update u es, us @ [u])"

definition abs_store :: "store_format \<Rightarrow> store_system \<Rightarrow> entries \<times> store_update list" where
  "abs_store fmt sy = (load_store fmt (st_file sy), st_log sy)"

text \<open>What the file needs of the JSON conversions: text written for the entries that updates in \<open>U\<close> lead to
  is read back as these entries.\<close>

definition faithful :: "store_format \<Rightarrow> entries \<Rightarrow> store_update set \<Rightarrow> bool" where
  "faithful fmt es0 U \<longleftrightarrow>
     (\<forall>us. set us \<subseteq> U \<longrightarrow> parse_store fmt (print_store fmt (fold apply_update us es0)) = Some (fold apply_update us es0))"

lemma store_step_refines:
  assumes "store_inv fmt sy" and "store_step fmt sy sy'"
    and "load_store fmt (st_file sy) = fold apply_update (st_log sy) es0"
    and "faithful fmt es0 U" and "set (st_log sy') \<subseteq> U"
  shows "abs_store fmt sy' = abs_store fmt sy \<or> atomic_step (abs_store fmt sy) (abs_store fmt sy')"
  using assms(2)
proof cases
  case (save r t es)
  then have es: "es = load_store fmt (st_file sy)" using store_invD(2) [OF assms(1)] by blast
  have "parse_store fmt (print_store fmt (fold apply_update (st_log sy') es0)) = Some (fold apply_update (st_log sy') es0)"
    using assms(4,5) by (simp add: faithful_def)
  then have "load_store fmt (st_file sy') = apply_update (tk_update t) (load_store fmt (st_file sy))"
    using save(1) es assms(3) by (simp add: load_store_def read_entries_def)
  with save(1) show ?thesis
    by (simp add: abs_store_def atomic_step.simps)
qed (simp_all add: abs_store_def leave_def)

lemma store_log_grows: "store_step fmt sy sy' \<Longrightarrow> prefix (st_log sy) (st_log sy')"
  by (auto simp: leave_def elim!: store_stepE)

lemma store_reachable_inv: "store_reachable fmt file0 sy \<Longrightarrow> store_inv fmt sy"
proof (induction rule: store_reachable.induct)
  case init
  then show ?case by (simp add: store_inv_def)
qed (rule store_inv_step)

text \<open>C29: No update is lost. However the tasks of all processes interleave and wherever they fail, what
  the file holds is what it held at first, changed by the updates that were written, each as one atomic
  update of the whole, one after the other.\<close>

theorem store_refines_atomic:
  assumes "store_reachable fmt file0 sy" and "faithful fmt (load_store fmt file0) U" and "set (st_log sy) \<subseteq> U"
  shows "abs_store fmt sy = (fold apply_update (st_log sy) (load_store fmt file0), st_log sy)
    \<and> atomic_step\<^sup>*\<^sup>* (load_store fmt file0, []) (abs_store fmt sy)"
  using assms(1,3)
proof (induction rule: store_reachable.induct)
  case init
  then show ?case by (simp add: abs_store_def)
next
  case (step sy sy')
  then have U: "set (st_log sy) \<subseteq> U"
    using store_log_grows [OF step.hyps(2)] by (meson set_mono_prefix subset_trans)
  note ih = step.IH [OF U]
  then have "load_store fmt (st_file sy) = fold apply_update (st_log sy) (load_store fmt file0)"
    by (simp add: abs_store_def)
  from store_step_refines [OF store_reachable_inv [OF step.hyps(1)] step.hyps(2) this assms(2) step.prems]
  show ?case
  proof
    assume a: "abs_store fmt sy' = abs_store fmt sy"
    then have "st_log sy' = st_log sy" by (simp add: abs_store_def)
    with a ih show ?thesis by metis
  next
    assume a: "atomic_step (abs_store fmt sy) (abs_store fmt sy')"
    with ih have "atomic_step\<^sup>*\<^sup>* (load_store fmt file0, []) (abs_store fmt sy')"
      by (meson rtranclp.rtrancl_into_rtrancl)
    moreover from a ih have "abs_store fmt sy' = (fold apply_update (st_log sy') (load_store fmt file0), st_log sy')"
      by (auto simp: abs_store_def elim: atomic_step.cases)
    ultimately show ?thesis by blast
  qed
qed

text \<open>Writing without the lock does lose updates: a task that loaded before another one wrote puts its own
  entries over the file.\<close>

lemma unlocked_update_loses:
  assumes "es \<noteq> apply_update u es" and "parse_store fmt (print_store fmt (apply_update v es)) = Some (apply_update v es)"
    and "apply_update v es \<noteq> apply_update v (apply_update u es)"
  shows "load_store fmt (snd (update_store fmt v es)) \<noteq>
    fold apply_update [u, v] es"
  using assms by (simp add: update_store_def load_store_def read_entries_def Let_def)

definition sample_update :: store_update where
  "sample_update = set_cli_update 5 ''main'' ''s'' ''claude-cli'' ''c''"

definition sample_store :: entries where
  "sample_store = apply_update sample_update Map.empty"

definition sample_format :: store_format where
  "sample_format = \<lparr>parse_store = (\<lambda>t. if t = ''1'' then Some sample_store else Some Map.empty),
     print_store = (\<lambda>es. if es = sample_store then ''1'' else ''0'')\<rparr>"

lemma sample_store_idem: "apply_update sample_update sample_store = sample_store"
  by (simp add: sample_store_def sample_update_def apply_update_def set_cli_update_def store_get_or_create_def
      entry_set_cli_session_id_def session_entry_new_def Let_def)

lemma sample_faithful: "faithful sample_format Map.empty {sample_update}"
proof -
  have stays: "set us \<subseteq> {sample_update} \<Longrightarrow> fold apply_update us sample_store = sample_store" for us
    by (induction us) (auto simp: sample_store_idem)
  have "fold apply_update us Map.empty = Map.empty \<or> fold apply_update us Map.empty = sample_store"
    if "set us \<subseteq> {sample_update}" for us
    using that stays by (cases us) (auto simp flip: sample_store_def)
  moreover have "sample_store \<noteq> Map.empty"
    by (auto simp: sample_store_def apply_update_def Let_def fun_eq_iff split: prod.splits)
  ultimately show ?thesis
    by (force simp: faithful_def sample_format_def)
qed

theorem store_refines_atomic_witness:
  "\<exists>sy. store_reachable sample_format None sy \<and> st_log sy = [sample_update]
     \<and> abs_store sample_format sy = (sample_store, [sample_update])"
proof -
  let ?s0 = "\<lparr>st_file = None, st_holder = None, st_tasks = Map.empty, st_log = []\<rparr> :: store_system"
  let ?t = "\<lambda>ph. \<lparr>tk_update = sample_update, tk_own = Map.empty, tk_phase = ph\<rparr>"
  let ?s1 = "?s0\<lparr>st_tasks := [0 \<mapsto> ?t Waiting]\<rparr>"
  let ?s2 = "?s0\<lparr>st_holder := Some 0, st_tasks := [0 \<mapsto> ?t Holding]\<rparr>"
  let ?s3 = "?s0\<lparr>st_holder := Some 0, st_tasks := [0 \<mapsto> ?t (HasRead Map.empty)]\<rparr>"
  let ?s4 = "?s0\<lparr>st_file := Some (print_store sample_format sample_store), st_holder := Some 0,
      st_tasks := [0 \<mapsto> ?t Written], st_log := [sample_update]\<rparr>"
  have "store_step sample_format ?s0 ?s1"
    using store_step.load [of ?s0 0 sample_format sample_update] by (simp add: load_store_def read_entries_def)
  moreover have "store_step sample_format ?s1 ?s2"
    using store_step.lock [of ?s1 0 "?t Waiting" sample_format] by simp
  moreover have "store_step sample_format ?s2 ?s3"
    using store_step.read [of ?s2 0 "?t Holding" sample_format] by (simp add: read_entries_def)
  moreover have "store_step sample_format ?s3 ?s4"
    using store_step.save [of ?s3 0 "?t (HasRead Map.empty)" Map.empty sample_format] by (simp flip: sample_store_def)
  ultimately have r: "store_reachable sample_format None ?s4"
    using store_reachable.init [of sample_format None] by (blast intro: store_reachable.step)
  have "load_store sample_format None = Map.empty" by (simp add: load_store_def read_entries_def)
  with store_refines_atomic [OF r, of "{sample_update}"] sample_faithful r show ?thesis
    by (intro exI [of _ ?s4]) (simp flip: sample_store_def)
qed

end
