(* ===== verification/Claude_Cli.thy ===== *)
theory Claude_Cli
  imports Http_Stream Session_Store Smart_Client
begin

text \<open>
  The provider that runs the command-line program of Claude (\<^verbatim>\<open>ClaudeCliProvider\<close> in
  \<^verbatim>\<open>src/src/agent/providers.rs\<close>): the arguments of the command, the session it resumes, the second
  attempt with a new session, and the stream of JSON lines it prints.

  Running the program, fresh identifiers, the clock and the file with the sessions are the record
  \<open>cli_host\<close>. The answer of a command that has run is its exit status with its two outputs. The stream
  of a command is the list of the lines that could be read.
\<close>

subsection \<open>The provider\<close>

record cli_output =
  out_success :: bool
  out_stdout :: string
  out_stderr :: string

datatype cli_exit = ExitOk | ExitFailed string | WaitFailed string

record 'w cli_host =
  ch_run :: "string \<Rightarrow> string list \<Rightarrow> 'w \<Rightarrow> (anyhow_error, cli_output) res \<times> 'w"
  ch_spawn :: "string \<Rightarrow> string list \<Rightarrow> 'w \<Rightarrow> (anyhow_error, string list \<times> cli_exit) res \<times> 'w"
  ch_uuid :: "'w \<Rightarrow> string \<times> 'w"
  ch_now :: "'w \<Rightarrow> u64"
  ch_format :: store_format
  ch_sessions :: "'w \<Rightarrow> (anyhow_error, string option) res"
  ch_save :: "string \<Rightarrow> 'w \<Rightarrow> (anyhow_error, unit) res \<times> 'w"
  ch_of_json :: "string \<Rightarrow> json option"

record claude_cli =
  cc_command :: string
  cc_model :: string
  cc_session_key :: string
  cc_zier_session_id :: string
  cc_session :: "string option"

definition CLAUDE_CLI_PROVIDER :: string where
  "CLAUDE_CLI_PROVIDER = ''claude-cli''"

definition load_cli_session_from_store :: "'w cli_host \<Rightarrow> string \<Rightarrow> string \<Rightarrow> 'w \<Rightarrow> string option" where
  "load_cli_session_from_store h key prov w =
     (case ch_sessions h w of
        Inl _ \<Rightarrow> None
      | Inr file \<Rightarrow> store_cli_session_id key prov (load_store (ch_format h) file))"

definition save_cli_session_to_store ::
  "'w cli_host \<Rightarrow> string \<Rightarrow> string \<Rightarrow> string \<Rightarrow> string \<Rightarrow> 'w \<Rightarrow> (anyhow_error, unit) res \<times> 'w" where
  "save_cli_session_to_store h key sid prov cli_sid w =
     (case ch_sessions h w of
        Inl e \<Rightarrow> (Inl e, w)
      | Inr file \<Rightarrow>
          (case load_and_update (ch_format h) (set_cli_update (ch_now h w) key sid prov cli_sid)
                  (load_store (ch_format h) file) file of
             None \<Rightarrow> (Inr (), w)
           | Some t \<Rightarrow> ch_save h t w))"

definition claude_cli_new :: "'w cli_host \<Rightarrow> string \<Rightarrow> string \<Rightarrow> 'w \<Rightarrow> claude_cli \<times> 'w" where
  "claude_cli_new h command md w =
     (let existing = load_cli_session_from_store h ''main'' CLAUDE_CLI_PROVIDER w; (u, w1) = ch_uuid h w
      in (\<lparr>cc_command = command, cc_model = normalize_claude_model md, cc_session_key = ''main'',
           cc_zier_session_id = u, cc_session = existing\<rparr>, w1))"

subsection \<open>Arguments\<close>

definition build_cli_args_with_format ::
  "'w cli_host \<Rightarrow> claude_cli \<Rightarrow> string \<Rightarrow> string option \<Rightarrow> string option \<Rightarrow> bool \<Rightarrow> string \<Rightarrow> 'w \<Rightarrow> string list \<times> 'w" where
  "build_cli_args_with_format h c prompt system_prompt resume is_new output_format w =
     (let base = [''-p'', ''--output-format'', output_format, ''--dangerously-skip-permissions''];
          verbose = (if output_format = ''stream-json'' then [''--verbose'', ''--include-partial-messages''] else []);
          mdl = (if is_new then [''--model'', cc_model c] else []);
          sys = (if is_new then (case system_prompt of Some s \<Rightarrow> [''--system-prompt'', s] | None \<Rightarrow> []) else []);
          (sess, w1) = (case resume of
             Some cli_sid \<Rightarrow> ([''--resume'', cli_sid], w)
           | None \<Rightarrow> (let (u, w1) = ch_uuid h w in ([''--session-id'', u], w1)))
      in (base @ verbose @ mdl @ sys @ sess @ [prompt], w1))"

definition build_cli_args ::
  "'w cli_host \<Rightarrow> claude_cli \<Rightarrow> string \<Rightarrow> string option \<Rightarrow> string option \<Rightarrow> bool \<Rightarrow> 'w \<Rightarrow> string list \<times> 'w" where
  "build_cli_args h c prompt system_prompt resume is_new w =
     build_cli_args_with_format h c prompt system_prompt resume is_new ''json'' w"

definition build_prompt_from_messages :: "message list \<Rightarrow> string" where
  "build_prompt_from_messages msgs =
     (case find (\<lambda>m. role m = User) (rev msgs) of Some m \<Rightarrow> content m | None \<Rightarrow> [])"

definition extract_system_prompt :: "message list \<Rightarrow> string option" where
  "extract_system_prompt msgs = map_option content (find (\<lambda>m. role m = System) msgs)"

subsection \<open>One command, and the second attempt\<close>

definition cli_failed :: "string \<Rightarrow> anyhow_error" where
  "cli_failed stderr = Msg (''Claude CLI failed: '' @ stderr)"

definition session_not_found :: "string \<Rightarrow> bool" where
  "session_not_found stderr \<longleftrightarrow>
     contains stderr ''No conversation found''
     \<or> contains stderr ''session'' \<and> (contains stderr ''not found'' \<or> contains stderr ''does not exist'')"

definition run_new_session ::
  "'w cli_host \<Rightarrow> claude_cli \<Rightarrow> string \<Rightarrow> string option \<Rightarrow> 'w \<Rightarrow> (anyhow_error, cli_output \<times> bool) res \<times> 'w" where
  "run_new_session h c prompt system_prompt w =
     (let (args, w1) = build_cli_args h c prompt system_prompt None True w;
          (r, w2) = ch_run h (cc_command c) args w1
      in (bind_res r (\<lambda>out. if out_success out then Inr (out, True)
                           else Inl (cli_failed (from_utf8_lossy (out_stderr out)))), w2))"

definition execute_cli_command ::
  "'w cli_host \<Rightarrow> claude_cli \<Rightarrow> string \<Rightarrow> string option \<Rightarrow> string option \<Rightarrow> 'w
   \<Rightarrow> (anyhow_error, cli_output \<times> bool) res \<times> claude_cli \<times> 'w" where
  "execute_cli_command h c prompt system_prompt existing w =
     (case existing of
        None \<Rightarrow> (let (r, w1) = run_new_session h c prompt system_prompt w in (r, c, w1))
      | Some cli_sid \<Rightarrow>
          let (args, w1) = build_cli_args h c prompt system_prompt (Some cli_sid) False w in
          case ch_run h (cc_command c) args w1 of
            (Inl e, w2) \<Rightarrow> (Inl e, c, w2)
          | (Inr out, w2) \<Rightarrow>
              if out_success out then (Inr (out, False), c, w2)
              else if session_not_found (from_utf8_lossy (out_stderr out))
              then let c1 = c\<lparr>cc_session := None\<rparr>; (r, w3) = run_new_session h c1 prompt system_prompt w2
                   in (r, c1, w3)
              else (Inl (cli_failed (from_utf8_lossy (out_stderr out))), c, w2))"

definition first_key :: "string list \<Rightarrow> json \<Rightarrow> json option" where
  "first_key ks j = foldr (\<lambda>k r. or_else (jget j k) r) ks None"

definition parse_claude_cli_output :: "(string \<Rightarrow> json option) \<Rightarrow> string \<Rightarrow> string \<times> string option" where
  "parse_claude_cli_output parse stdout =
     (case parse stdout of
        Some j \<Rightarrow>
          (unwrap_or (Option.bind (first_key [''result'', ''message'', ''content''] j) as_str) (trim stdout),
           Option.bind (first_key [''session_id'', ''sessionId'', ''conversation_id'', ''conversationId''] j) as_str)
      | None \<Rightarrow> (trim stdout, None))"

definition refresh_session :: "'w cli_host \<Rightarrow> claude_cli \<Rightarrow> 'w \<Rightarrow> claude_cli" where
  "refresh_session h c w =
     (case load_cli_session_from_store h (cc_session_key c) CLAUDE_CLI_PROVIDER w of
        Some stored \<Rightarrow> c\<lparr>cc_session := Some stored\<rparr>
      | None \<Rightarrow> c)"

definition claude_chat ::
  "'w cli_host \<Rightarrow> message list \<Rightarrow> claude_cli \<Rightarrow> 'w \<Rightarrow> (anyhow_error, llm_response) res \<times> claude_cli \<times> 'w" where
  "claude_chat h msgs c0 w =
     (let prompt = build_prompt_from_messages msgs;
          system_prompt = extract_system_prompt msgs;
          c = refresh_session h c0 w
      in case execute_cli_command h c prompt system_prompt (cc_session c) w of
           (Inl e, c1, w1) \<Rightarrow> (Inl e, c1, w1)
         | (Inr (out, used_new), c1, w1) \<Rightarrow>
             let (response, new_sid) = parse_claude_cli_output (ch_of_json h) (from_utf8_lossy (out_stdout out)) in
             case new_sid of
               None \<Rightarrow> (Inr (resp_text response), c1, w1)
             | Some s \<Rightarrow>
                 (Inr (resp_text response), c1\<lparr>cc_session := Some s\<rparr>,
                  snd (save_cli_session_to_store h (cc_session_key c) (cc_zier_session_id c) CLAUDE_CLI_PROVIDER s w1)))"

definition claude_summarize ::
  "'w cli_host \<Rightarrow> string \<Rightarrow> claude_cli \<Rightarrow> 'w \<Rightarrow> (anyhow_error, string) res \<times> claude_cli \<times> 'w" where
  "claude_summarize h t c w =
     (let (r, c1, w1) = claude_chat h [text_message User
            (''Summarize the following conversation concisely:'' @ nl2 @ t)] c w
      in (bind_res r (\<lambda>resp. case lr_content resp of
            Text s \<Rightarrow> Inr s | ToolCalls _ \<Rightarrow> Inl (Msg ''Unexpected response type'')), c1, w1))"

subsection \<open>The stream of JSON lines\<close>

text \<open>A handler gives the chunks it has yielded and the state after it, or no state when it panics.\<close>

record 'w cli_stream =
  cs_text :: string
  cs_len :: nat
  cs_shown :: "string set"
  cs_pending :: "string \<rightharpoonup> string"
  cs_session :: "string option"
  cs_world :: 'w

fun until_panic ::
  "('e \<Rightarrow> 's \<Rightarrow> stream_chunks \<times> 's option) \<Rightarrow> 'e list \<Rightarrow> 's \<Rightarrow> stream_chunks \<times> 's option" where
  "until_panic on [] s = ([], Some s)"
| "until_panic on (e # es) s =
     (case on e s of
        (items, None) \<Rightarrow> (items, None)
      | (items, Some s1) \<Rightarrow> (let (more, s2) = until_panic on es s1 in (items @ more, s2)))"

definition on_system :: "json \<Rightarrow> 's \<Rightarrow> stream_chunks \<times> 's option" where
  "on_system j s =
     ((if Option.bind (jget j ''subtype'') as_str = Some ''init''
       then (case Option.bind (jget j ''model'') as_str of
               Some md \<Rightarrow> [text_chunk (''[Model: '' @ md @ '' | Tools: ''
                 @ show_nat (case Option.bind (jget j ''tools'') as_array of Some a \<Rightarrow> length a | None \<Rightarrow> 0)
                 @ '']'' @ nl)]
             | None \<Rightarrow> [])
       else []), Some s)"

text \<open>The detail shown of a tool call; the outer \<open>None\<close> is the panic of a slice.\<close>

definition tool_detail :: "string \<Rightarrow> json \<Rightarrow> string option option" where
  "tool_detail tool_name inp =
     (let field = (\<lambda>ks. Option.bind (first_key ks inp) as_str) in
      if tool_name = ''Bash''
      then (case field [''command''] of
              None \<Rightarrow> Some None
            | Some c \<Rightarrow> if 60 < length c then map_option (\<lambda>p. Some (p @ ''...'')) (slice_to 57 c) else Some (Some c))
      else if tool_name \<in> {''Read'', ''Edit'', ''Write''} then Some (field [''file_path'', ''path''])
      else if tool_name \<in> {''Grep'', ''Glob''}
      then Some (map_option (\<lambda>p. CHR 0x22 # p @ [CHR 0x22]) (field [''pattern'']))
      else if tool_name = ''WebFetch'' then Some (field [''url''])
      else if tool_name = ''Task'' then Some (field [''description''])
      else Some None)"

definition on_block :: "json \<Rightarrow> 'w cli_stream \<Rightarrow> stream_chunks \<times> 'w cli_stream option" where
  "on_block block s =
     (let kind = as_str (jindex block ''type'') in
      if kind = Some ''text''
      then ([], Some (case as_str (jindex block ''text'') of Some t \<Rightarrow> s\<lparr>cs_text := t\<rparr> | None \<Rightarrow> s))
      else if kind = Some ''tool_use''
      then let tool_id = unwrap_or (as_str (jindex block ''id'')) [];
               tool_name = unwrap_or (as_str (jindex block ''name'')) ''unknown''
           in if tool_id \<in> cs_shown s then ([], Some s)
              else let s1 = s\<lparr>cs_shown := insert tool_id (cs_shown s), cs_pending := (cs_pending s)(tool_id \<mapsto> tool_name)\<rparr>
                   in case (case jget block ''input'' of Some inp \<Rightarrow> tool_detail tool_name inp | None \<Rightarrow> Some None) of
                        None \<Rightarrow> ([], None)
                      | Some detail \<Rightarrow>
                          ([text_chunk (nl @ ''['' @ tool_name
                              @ (case detail of Some d \<Rightarrow> '': '' @ d | None \<Rightarrow> []) @ '']'')], Some s1)
      else ([], Some s))"

definition emit_text :: "'w cli_stream \<Rightarrow> stream_chunks \<times> 'w cli_stream option" where
  "emit_text s =
     (if cs_len s < length (cs_text s)
      then (case slice_from (cs_len s) (cs_text s) of
              None \<Rightarrow> ([], None)
            | Some d \<Rightarrow> ([text_chunk d], Some (s\<lparr>cs_len := length (cs_text s)\<rparr>)))
      else ([], Some s))"

definition message_blocks :: "json \<Rightarrow> json list" where
  "message_blocks j = unwrap_or (as_array (jindex (jindex j ''message'') ''content'')) []"

definition on_assistant :: "json \<Rightarrow> 'w cli_stream \<Rightarrow> stream_chunks \<times> 'w cli_stream option" where
  "on_assistant j s =
     (case until_panic on_block (message_blocks j) s of
        (items, None) \<Rightarrow> (items, None)
      | (items, Some s1) \<Rightarrow> (let (more, s2) = emit_text s1 in (items @ more, s2)))"

definition on_tool_result :: "json \<Rightarrow> 'w cli_stream \<Rightarrow> stream_chunks \<times> 'w cli_stream option" where
  "on_tool_result block s =
     (if as_str (jindex block ''type'') = Some ''tool_result''
      then let tool_id = unwrap_or (as_str (jindex block ''tool_use_id'')) [];
               is_error = unwrap_or (Option.bind (jget block ''is_error'') as_bool) False
           in ([text_chunk ('' ['' @ (if is_error then ''failed'' else ''done'') @ '']'' @ nl)],
               Some (s\<lparr>cs_pending := (cs_pending s)(tool_id := None)\<rparr>))
      else ([], Some s))"

definition on_result :: "'w cli_host \<Rightarrow> claude_cli \<Rightarrow> json \<Rightarrow> 'w cli_stream \<Rightarrow> stream_chunks \<times> 'w cli_stream option" where
  "on_result h c j s =
     (let s1 = (case Option.bind (jget j ''session_id'') as_str of
            Some sid \<Rightarrow> s\<lparr>cs_session := Some sid,
                cs_world := snd (save_cli_session_to_store h (cc_session_key c) (cc_zier_session_id c)
                  CLAUDE_CLI_PROVIDER sid (cs_world s))\<rparr>
          | None \<Rightarrow> s)
      in case Option.bind (jget j ''result'') as_str of
           Some t \<Rightarrow>
             if cs_len s1 < length t
             then (case slice_from (cs_len s1) t of
                     None \<Rightarrow> ([], None)
                   | Some d \<Rightarrow> ((if d \<noteq> [] then [text_chunk d] else []) @ [last_chunk None], Some s1))
             else ([last_chunk None], Some s1)
         | None \<Rightarrow> ([last_chunk None], Some s1))"

definition on_error :: "json \<Rightarrow> 's \<Rightarrow> stream_chunks \<times> 's option" where
  "on_error j s =
     ([Inl (Msg (''Claude CLI error: ''
        @ unwrap_or (Option.bind (Option.bind (jget j ''error'') (\<lambda>e. jget e ''message'')) as_str)
            ''Unknown CLI error''))], Some s)"

definition on_cli_line :: "'w cli_host \<Rightarrow> claude_cli \<Rightarrow> string \<Rightarrow> 'w cli_stream \<Rightarrow> stream_chunks \<times> 'w cli_stream option" where
  "on_cli_line h c line s =
     (if line = [] then ([], Some s)
      else case ch_of_json h line of
        None \<Rightarrow> ([], Some s)
      | Some j \<Rightarrow>
          let event_type = unwrap_or (as_str (jindex j ''type'')) [] in
          if event_type = ''system'' then on_system j s
          else if event_type = ''assistant'' then on_assistant j s
          else if event_type = ''user'' then until_panic on_tool_result (message_blocks j) s
          else if event_type = ''result'' then on_result h c j s
          else if event_type = ''error'' then on_error j s
          else ([], Some s))"

definition exit_chunks :: "cli_exit \<Rightarrow> stream_chunks" where
  "exit_chunks x =
     (case x of
        ExitOk \<Rightarrow> []
      | ExitFailed stderr \<Rightarrow> if stderr \<noteq> [] then [Inl (cli_failed stderr)] else []
      | WaitFailed e \<Rightarrow> [Inl (Msg (''Failed to wait for CLI process: '' @ e))])"

definition cli_stream_start :: "'w \<Rightarrow> 'w cli_stream" where
  "cli_stream_start w =
     \<lparr>cs_text = [], cs_len = 0, cs_shown = {}, cs_pending = Map.empty, cs_session = None, cs_world = w\<rparr>"

definition read_cli_stream ::
  "'w cli_host \<Rightarrow> claude_cli \<Rightarrow> string list \<Rightarrow> cli_exit \<Rightarrow> 'w \<Rightarrow> stream_chunks \<times> 'w option" where
  "read_cli_stream h c ls x w =
     (case until_panic (on_cli_line h c) ls (cli_stream_start w) of
        (items, None) \<Rightarrow> (items, None)
      | (items, Some s) \<Rightarrow> (items @ exit_chunks x, Some (cs_world s)))"

text \<open>The call: the session is the stored one or the one in memory, there is no second attempt, and the
  provider does not learn the session the stream reports.\<close>

definition claude_chat_stream ::
  "'w cli_host \<Rightarrow> message list \<Rightarrow> claude_cli \<Rightarrow> 'w
   \<Rightarrow> (anyhow_error, stream_chunks \<times> 'w option) res \<times> claude_cli \<times> 'w" where
  "claude_chat_stream h msgs c0 w =
     (let c = refresh_session h c0 w;
          (args, w1) = build_cli_args_with_format h c (build_prompt_from_messages msgs) (extract_system_prompt msgs)
             (cc_session c) (cc_session c = None) ''stream-json'' w
      in case ch_spawn h (cc_command c) args w1 of
           (Inl e, w2) \<Rightarrow> (Inl e, c, w2)
         | (Inr (ls, x), w2) \<Rightarrow> (Inr (read_cli_stream h c ls x w2), c, w2))"

subsection \<open>The text of a stream\<close>

lemma good_bytes_append:
  "good_bytes b n s = n \<Longrightarrow> n \<le> length s \<and> good_bytes b n (s @ t) = n"
  by (induction b n s rule: good_bytes.induct) (auto split: if_splits)

lemma valid_utf8_append: "valid_utf8 a \<Longrightarrow> valid_utf8 (a @ b) \<longleftrightarrow> valid_utf8 b"
proof (induction a rule: valid_utf8.induct)
  case (2 c cs)
  define n where "n = utf8_len (byte c)"
  have good: "good_bytes (byte c) (n - 1) cs = n - 1" and n: "n \<noteq> 0" and rest: "valid_utf8 (drop (n - 1) cs)"
    using 2(2) by (simp_all add: n_def Let_def)
  have len: "n - 1 \<le> length cs" "good_bytes (byte c) (n - 1) (cs @ b) = n - 1"
    using good_bytes_append [OF good] by blast+
  then have "drop (n - 1) (cs @ b) = drop (n - 1) cs @ b" by simp
  moreover have "valid_utf8 (drop (n - 1) cs @ b) \<longleftrightarrow> valid_utf8 b"
    using 2(1) [OF n_def] rest by simp
  ultimately show ?case
    using n len by (simp add: n_def Let_def del: drop_append)
qed simp

lemma valid_utf8_first: "valid_utf8 (c # cs) \<Longrightarrow> \<not> is_cont_byte c"
  by (auto simp: utf8_len_def is_cont_byte_def Let_def split: if_splits)

lemma slice_from_prefix:
  assumes "valid_utf8 a" and "valid_utf8 (a @ b)"
  shows "slice_from (length a) (a @ b) = Some b"
proof (cases b)
  case (Cons c cs)
  then have "\<not> is_cont_byte c" using assms valid_utf8_append valid_utf8_first by blast
  then show ?thesis using Cons by (simp add: slice_from_def is_char_boundary_def nth_append)
qed (simp add: slice_from_def is_char_boundary_def)

text \<open>The lines of a run that has one answer: the text as it grows, and the result.\<close>

definition snapshot :: "string \<Rightarrow> json" where
  "snapshot t = JObj [''type'' \<mapsto> JStr ''assistant'',
     ''message'' \<mapsto> JObj [''content'' \<mapsto> JArr [JObj [''type'' \<mapsto> JStr ''text'', ''text'' \<mapsto> JStr t]]]]"

definition result_event :: "string \<Rightarrow> string \<Rightarrow> json" where
  "result_event sid t = JObj [''type'' \<mapsto> JStr ''result'', ''session_id'' \<mapsto> JStr sid, ''result'' \<mapsto> JStr t]"

definition chunk_delta :: "(anyhow_error, stream_chunk) res \<Rightarrow> string" where
  "chunk_delta i = (case i of Inr c \<Rightarrow> delta c | Inl e \<Rightarrow> [])"

lemma chunk_delta_simps [simp]: "chunk_delta (text_chunk t) = t" "chunk_delta (last_chunk calls) = []"
  by (simp_all add: chunk_delta_def text_chunk_def last_chunk_def)

fun growing :: "string \<Rightarrow> string list \<Rightarrow> bool" where
  "growing t [] = True"
| "growing t (u # us) = (prefix t u \<and> valid_utf8 u \<and> growing u us)"

lemma emit_text_prefix:
  assumes "valid_utf8 t" and "valid_utf8 u" and "prefix t u" and "cs_len s = length t" and "cs_text s = u"
  shows "\<exists>items. emit_text s = (items, Some (s\<lparr>cs_len := length u\<rparr>)) \<and> t @ concat (map chunk_delta items) = u
    \<and> list_all is_ok items"
proof -
  obtain b where u: "u = t @ b" using assms(3) by (auto simp: prefix_def)
  then have "slice_from (length t) u = Some b" using assms(1, 2) slice_from_prefix by simp
  then show ?thesis
    using assms u by (cases "b = []") (simp_all add: emit_text_def text_chunk_def chunk_delta_def)
qed

lemma on_assistant_snapshot:
  "on_assistant (snapshot t) s = emit_text (s\<lparr>cs_text := t\<rparr>)"
  by (simp add: on_assistant_def message_blocks_def snapshot_def on_block_def case_prod_unfold Let_def
      split: option.splits)

lemma snapshot_type: "as_str (jindex (snapshot t) ''type'') = Some ''assistant''"
  by (simp add: snapshot_def)

definition line_of :: "'w cli_host \<Rightarrow> string \<Rightarrow> json \<Rightarrow> bool" where
  "line_of h l j \<longleftrightarrow> l \<noteq> [] \<and> ch_of_json h l = Some j"

lemma on_cli_line_snapshot: "line_of h l (snapshot t) \<Longrightarrow> on_cli_line h c l s = emit_text (s\<lparr>cs_text := t\<rparr>)"
  by (simp add: line_of_def on_cli_line_def on_assistant_snapshot snapshot_type)

definition saved :: "'w cli_host \<Rightarrow> claude_cli \<Rightarrow> string \<Rightarrow> 'w \<Rightarrow> 'w" where
  "saved h c sid w =
     snd (save_cli_session_to_store h (cc_session_key c) (cc_zier_session_id c) CLAUDE_CLI_PROVIDER sid w)"

lemma on_cli_line_result:
  assumes "line_of h l (result_event sid r)" and "valid_utf8 t" and "valid_utf8 r" and "prefix t r" and "cs_len s = length t"
  shows "\<exists>d. r = t @ d \<and> on_cli_line h c l s =
    ((if d \<noteq> [] then [text_chunk d] else []) @ [last_chunk None],
     Some (s\<lparr>cs_session := Some sid, cs_world := saved h c sid (cs_world s)\<rparr>))"
proof -
  obtain d where r: "r = t @ d" using assms(4) by (auto simp: prefix_def)
  then have "slice_from (length t) r = Some d" using assms(2, 3) slice_from_prefix by simp
  with r assms(1, 5) show ?thesis
    by (cases "d = []") (simp_all add: line_of_def on_cli_line_def on_result_def result_event_def saved_def Let_def)
qed

lemma until_panic_answer:
  assumes "list_all2 (line_of h) ls (map snapshot ts @ [result_event sid r])"
    and "growing t (ts @ [r])" and "valid_utf8 t" and "cs_len s = length t"
  shows "\<exists>items s'. until_panic (on_cli_line h c) ls s = (items @ [last_chunk None], Some s')
    \<and> t @ concat (map chunk_delta items) = r \<and> list_all is_ok items \<and> cs_world s' = saved h c sid (cs_world s)"
  using assms
proof (induction ts arbitrary: ls t s)
  case Nil
  then obtain l where ls: "ls = [l]" and l: "line_of h l (result_event sid r)"
    by (auto simp: list_all2_Cons2)
  obtain d where d: "r = t @ d" "on_cli_line h c l s =
    ((if d \<noteq> [] then [text_chunk d] else []) @ [last_chunk None],
     Some (s\<lparr>cs_session := Some sid, cs_world := saved h c sid (cs_world s)\<rparr>))"
    using on_cli_line_result [OF l, of t s c] Nil.prems by auto
  then show ?case
    by (intro exI [of _ "if d \<noteq> [] then [text_chunk d] else []"]) (simp add: ls text_chunk_def chunk_delta_def)
next
  case (Cons u ts)
  then obtain l ls' where ls: "ls = l # ls'" and l: "line_of h l (snapshot u)"
    and rest: "list_all2 (line_of h) ls' (map snapshot ts @ [result_event sid r])"
    by (auto simp: list_all2_Cons2)
  have u: "prefix t u" "valid_utf8 u" "growing u (ts @ [r])" using Cons.prems(2) by simp_all
  obtain items where items: "on_cli_line h c l s = (items, Some (s\<lparr>cs_text := u, cs_len := length u\<rparr>))"
    "t @ concat (map chunk_delta items) = u" "list_all is_ok items"
    using emit_text_prefix [of t u "s\<lparr>cs_text := u\<rparr>"] on_cli_line_snapshot [OF l] u Cons.prems by force
  obtain more s' where more: "until_panic (on_cli_line h c) ls' (s\<lparr>cs_text := u, cs_len := length u\<rparr>)
      = (more @ [last_chunk None], Some s')"
    "u @ concat (map chunk_delta more) = r" "list_all is_ok more" "cs_world s' = saved h c sid (cs_world s)"
    using Cons.IH [OF rest u(3) u(2), of "s\<lparr>cs_text := u, cs_len := length u\<rparr>"] by auto
  show ?case
    using items more by (intro exI [of _ "items @ more"]) (auto simp: ls)
qed

text \<open>A run of the program with one answer is shown completely and once. When the lines it prints are the
  text as it grows and then the result, and the program ends well, the chunks of the stream put
  together are exactly the result, whatever the sizes of the steps; the last chunk says that it is done,
  no chunk is an error, nothing panics, and the session of the result is recorded.\<close>

theorem claude_stream_assembles:
  assumes "list_all2 (line_of h) ls (map snapshot ts @ [result_event sid r])" and "growing [] (ts @ [r])"
  shows "\<exists>items. read_cli_stream h c ls ExitOk w = (items @ [last_chunk None], Some (saved h c sid w))
    \<and> concat (map chunk_delta items) = r \<and> list_all is_ok items"
  using until_panic_answer [OF assms, of "cli_stream_start w" c]
  by (auto simp: read_cli_stream_def cli_stream_start_def exit_chunks_def)

definition quiet_host :: "(string \<Rightarrow> json option) \<Rightarrow> unit cli_host" where
  "quiet_host parse =
     \<lparr>ch_run = \<lambda>c args w. (Inl (Msg ''none''), w), ch_spawn = \<lambda>c args w. (Inl (Msg ''none''), w),
      ch_uuid = \<lambda>w. (''u'', w), ch_now = \<lambda>w. 0, ch_format = \<lparr>parse_store = \<lambda>t. None, print_store = \<lambda>es. []\<rparr>,
      ch_sessions = \<lambda>w. Inr None, ch_save = \<lambda>t w. (Inr (), w), ch_of_json = parse\<rparr>"

definition sample_cli :: claude_cli where
  "sample_cli = \<lparr>cc_command = ''claude'', cc_model = ''opus'', cc_session_key = ''main'', cc_zier_session_id = ''z'',
     cc_session = None\<rparr>"

definition cli_sample_parse :: "string \<Rightarrow> json option" where
  "cli_sample_parse l =
     (if l = ''1'' then Some (snapshot ''He'') else if l = ''2'' then Some (snapshot ''Hello'')
      else if l = ''3'' then Some (result_event ''s'' ''Hello!'')
      else if l = ''4'' then Some (snapshot ''I will look at the file.'')
      else if l = ''5'' then Some (snapshot ''It is empty: there is nothing to do.'')
      else None)"

lemma cli_sample_lines:
  "line_of (quiet_host cli_sample_parse) ''1'' (snapshot ''He'')"
  "line_of (quiet_host cli_sample_parse) ''2'' (snapshot ''Hello'')"
  "line_of (quiet_host cli_sample_parse) ''3'' (result_event ''s'' ''Hello!'')"
  "line_of (quiet_host cli_sample_parse) ''4'' (snapshot ''I will look at the file.'')"
  "line_of (quiet_host cli_sample_parse) ''5'' (snapshot ''It is empty: there is nothing to do.'')"
  by (simp_all add: line_of_def quiet_host_def cli_sample_parse_def)

theorem claude_stream_assembles_witness:
  "\<exists>items. read_cli_stream (quiet_host cli_sample_parse) sample_cli [''1'', ''2'', ''3''] ExitOk ()
      = (items @ [last_chunk None], Some ())
    \<and> concat (map chunk_delta items) = ''Hello!''"
proof -
  have "growing [] ([''He'', ''Hello''] @ [''Hello!''])" by (simp add: utf8_len_def)
  moreover have "list_all2 (line_of (quiet_host cli_sample_parse)) [''1'', ''2'', ''3'']
      (map snapshot [''He'', ''Hello''] @ [result_event ''s'' ''Hello!''])"
    using cli_sample_lines by simp
  ultimately show ?thesis
    using claude_stream_assembles [of "quiet_host cli_sample_parse" "[''1'', ''2'', ''3'']" "[''He'', ''Hello'']" "''s''"
        "''Hello!''" sample_cli "()"] by auto
qed

text \<open>A second message in the same run loses as many bytes as the first one had.\<close>

lemma second_message_loses:
  "fst (read_cli_stream (quiet_host cli_sample_parse) sample_cli [''4'', ''5''] ExitOk ())
     = [text_chunk ''I will look at the file.'', text_chunk ''thing to do.'']"
  by (simp add: read_cli_stream_def cli_stream_start_def exit_chunks_def on_cli_line_snapshot [OF cli_sample_lines(4)]
      on_cli_line_snapshot [OF cli_sample_lines(5)] emit_text_def slice_from_def is_char_boundary_def is_cont_byte_def)

subsection \<open>Sessions\<close>

text \<open>A program is run at most twice, the second time only after the session was not found and then
  with a new one; what comes back is the output of a command that succeeded.\<close>

lemma execute_cli_command_ok:
  assumes "execute_cli_command h c prompt sys existing w = (Inr (out, used_new), c1, w1)"
  shows "out_success out \<and> (used_new \<or> existing \<noteq> None) \<and> c1 = (if used_new \<and> existing \<noteq> None then c\<lparr>cc_session := None\<rparr> else c)"
  using assms
  by (auto simp: execute_cli_command_def run_new_session_def Let_def res_simps
      split: option.splits prod.splits sum.splits if_splits)

definition recorded_session :: "'w cli_host \<Rightarrow> claude_cli \<Rightarrow> string \<Rightarrow> string option \<Rightarrow> 'w \<Rightarrow> entries" where
  "recorded_session h c sid file w =
     apply_update (set_cli_update (ch_now h w) (cc_session_key c) (cc_zier_session_id c) CLAUDE_CLI_PROVIDER sid)
       (load_store (ch_format h) file)"

text \<open>A conversation goes on in the session the program has reported. When a call ends with an answer
  that names a session, and the record of the sessions can be written and read back, then every
  provider that looks later, in the same process or, made anew, in another, takes this session, as long as
  the file stays as it is: the next command resumes it and sets neither model nor system prompt.\<close>

theorem claude_session_resumed:
  fixes h :: "'w cli_host"
  assumes run: "execute_cli_command h (refresh_session h c w) (build_prompt_from_messages msgs)
      (extract_system_prompt msgs) (cc_session (refresh_session h c w)) w = (Inr (out, used_new), c1, w1)"
    and sid: "parse_claude_cli_output (ch_of_json h) (from_utf8_lossy (out_stdout out)) = (response, Some sid)" "sid \<noteq> []"
    and read: "ch_sessions h w1 = Inr file"
    and parse: "parse_store (ch_format h) (print_store (ch_format h) (recorded_session h c sid file w1))
      = Some (recorded_session h c sid file w1)"
    and save: "\<forall>t. ch_sessions h (snd (ch_save h t w1)) = Inr (Some t)"
    and chat: "claude_chat h msgs c w = (r, c2, w2)"
    and kept: "ch_sessions h w3 = ch_sessions h w2" and key: "cc_session_key d = cc_session_key c"
  shows "r = Inr (resp_text response) \<and> refresh_session h d w3 = d\<lparr>cc_session := Some sid\<rparr>
    \<and> fst (build_cli_args h d prompt sys (cc_session (refresh_session h d w3)) False w3) =
        [''-p'', ''--output-format'', ''json'', ''--dangerously-skip-permissions'', ''--resume'', sid, prompt]"
proof -
  define es where "es = recorded_session h c sid file w1"
  have keys: "cc_session_key (refresh_session h c w) = cc_session_key c"
    "cc_zier_session_id (refresh_session h c w) = cc_zier_session_id c"
    by (simp_all add: refresh_session_def split: option.splits)
  have "load_and_update (ch_format h) u (load_store (ch_format h) file) file
      = Some (print_store (ch_format h) (apply_update u (load_store (ch_format h) file)))" for u
    by (simp add: load_and_update_def load_store_def read_entries_def split: option.splits)
  then have "save_cli_session_to_store h (cc_session_key c) (cc_zier_session_id c) CLAUDE_CLI_PROVIDER sid w1
      = ch_save h (print_store (ch_format h) es) w1"
    using read by (simp add: save_cli_session_to_store_def es_def recorded_session_def)
  with chat run sid(1) have r: "r = Inr (resp_text response)" and w2: "w2 = snd (ch_save h (print_store (ch_format h) es) w1)"
    by (simp_all add: claude_chat_def keys Let_def)
  have "load_cli_session_from_store h (cc_session_key c) CLAUDE_CLI_PROVIDER w3
      = store_cli_session_id (cc_session_key c) CLAUDE_CLI_PROVIDER es"
    using kept w2 save parse by (simp add: load_cli_session_from_store_def load_store_def read_entries_def es_def)
  also have "\<dots> = Some sid"
    using sid(2) by (simp add: es_def recorded_session_def cli_session_after_update)
  finally have "refresh_session h d w3 = d\<lparr>cc_session := Some sid\<rparr>"
    using key by (simp add: refresh_session_def)
  with r show ?thesis
    by (simp add: build_cli_args_def build_cli_args_with_format_def)
qed

definition one_record :: entries where
  "one_record = apply_update (set_cli_update 5 ''main'' ''z'' ''claude-cli'' ''s9'') Map.empty"

definition one_host :: "string option cli_host" where
  "one_host =
     \<lparr>ch_run = \<lambda>c args w. (Inr \<lparr>out_success = True, out_stdout = ''out'', out_stderr = []\<rparr>, w),
      ch_spawn = \<lambda>c args w. (Inl (Msg ''none''), w), ch_uuid = \<lambda>w. (''u'', w), ch_now = \<lambda>w. 5,
      ch_format = \<lparr>parse_store = \<lambda>t. if t = ''recorded'' then Some one_record else None, print_store = \<lambda>es. ''recorded''\<rparr>,
      ch_sessions = Inr, ch_save = \<lambda>t w. (Inr (), Some t),
      ch_of_json = \<lambda>l. if l = ''out'' then Some (JObj [''result'' \<mapsto> JStr ''Hi'', ''session_id'' \<mapsto> JStr ''s9'']) else None\<rparr>"

theorem claude_session_resumed_witness:
  "fst (build_cli_args one_host sample_cli ''Go on'' None
        (cc_session (refresh_session one_host sample_cli (Some ''recorded''))) False (Some ''recorded''))
     = [''-p'', ''--output-format'', ''json'', ''--dangerously-skip-permissions'', ''--resume'', ''s9'', ''Go on'']"
proof -
  let ?msgs = "[text_message User ''Hello'']"
  have fresh: "refresh_session one_host sample_cli None = sample_cli"
    by (simp add: refresh_session_def load_cli_session_from_store_def one_host_def load_store_def read_entries_def
        store_cli_session_id_def)
  have none: "cc_session sample_cli = None" by (simp add: sample_cli_def)
  have new: "run_new_session one_host sample_cli p sys None
      = (Inr (\<lparr>out_success = True, out_stdout = ''out'', out_stderr = []\<rparr>, True), None)" for p sys
    by (simp add: run_new_session_def one_host_def build_cli_args_def build_cli_args_with_format_def
        case_prod_unfold Let_def)
  have run: "execute_cli_command one_host (refresh_session one_host sample_cli None)
      (build_prompt_from_messages ?msgs) (extract_system_prompt ?msgs)
      (cc_session (refresh_session one_host sample_cli None)) None
      = (Inr (\<lparr>out_success = True, out_stdout = ''out'', out_stderr = []\<rparr>, True), sample_cli, None)"
    using new by (simp add: fresh execute_cli_command_def none)
  have out: "parse_claude_cli_output (ch_of_json one_host) (from_utf8_lossy ''out'') = (''Hi'', Some ''s9'')"
    by (simp add: one_host_def parse_claude_cli_output_def first_key_def utf8_len_def)
  have read: "ch_sessions one_host None = Inr None" by (simp add: one_host_def)
  have parse: "parse_store (ch_format one_host) (print_store (ch_format one_host)
        (recorded_session one_host sample_cli ''s9'' None None))
      = Some (recorded_session one_host sample_cli ''s9'' None None)"
    by (simp add: one_host_def recorded_session_def one_record_def sample_cli_def CLAUDE_CLI_PROVIDER_def
        load_store_def read_entries_def)
  have save: "\<forall>t. ch_sessions one_host (snd (ch_save one_host t None)) = Inr (Some t)"
    by (simp add: one_host_def)
  obtain r c2 w2 where chat: "claude_chat one_host ?msgs sample_cli None = (r, c2, w2)"
    by (cases "claude_chat one_host ?msgs sample_cli None") auto
  have "snd (save_cli_session_to_store one_host k z p sid None) = Some ''recorded''" for k z p sid
    by (simp add: save_cli_session_to_store_def load_and_update_def one_host_def)
  then have "w2 = Some ''recorded''"
    using chat run out by (simp add: claude_chat_def Let_def)
  then have kept: "ch_sessions one_host (Some ''recorded'') = ch_sessions one_host w2" by simp
  show ?thesis
    using claude_session_resumed [OF run _ _ read parse save chat kept, of "''Hi''" sample_cli "''Go on''" None] out by force
qed

end
