(* ===== verification/Local_Providers.thy ===== *)
theory Local_Providers
  imports Openai_Provider
begin

text \<open>
  The provider for local models, \<^verbatim>\<open>OllamaProvider\<close>, and the provider for tests, \<^verbatim>\<open>MockProvider\<close>, of
  \<^verbatim>\<open>src/src/agent/providers.rs\<close>. The answer of the mock is
  \<open>None\<close> where it panics.
\<close>

subsection \<open>Ollama\<close>

fun ollama_role :: "role \<Rightarrow> string" where
  "ollama_role System = ''system''"
| "ollama_role User = ''user''"
| "ollama_role Assistant = ''assistant''"
| "ollama_role Tool = ''user''"

definition ollama_message :: "message \<Rightarrow> json" where
  "ollama_message m = JObj [''role'' \<mapsto> JStr (ollama_role (role m)), ''content'' \<mapsto> JStr (content m)]"

definition ollama_body :: "string \<Rightarrow> bool \<Rightarrow> message list \<Rightarrow> json" where
  "ollama_body md stream msgs =
     JObj [''model'' \<mapsto> JStr md, ''messages'' \<mapsto> JArr (map ollama_message msgs), ''stream'' \<mapsto> JBool stream]"

definition ollama_request :: "string \<Rightarrow> json \<Rightarrow> http_request" where
  "ollama_request endpoint body =
     \<lparr>rq_url = endpoint @ ''/api/chat'', rq_headers = [(''Content-Type'', ''application/json'')], rq_body = body\<rparr>"

definition ollama_text :: "json \<Rightarrow> string" where
  "ollama_text j = str_or [] (jindex (jindex j ''message'') ''content'')"

definition ollama_answer :: "json \<Rightarrow> llm_response" where
  "ollama_answer body =
     \<lparr>lr_content = Text (ollama_text body),
      lr_usage = (if jget body ''prompt_eval_count'' \<noteq> None
                  then Some (json_usage ''prompt_eval_count'' ''eval_count'' body) else None)\<rparr>"

definition ollama_chat ::
  "'w http_host \<Rightarrow> string \<Rightarrow> string \<Rightarrow> message list \<Rightarrow> tool_schema list option \<Rightarrow> 'w
   \<Rightarrow> (anyhow_error, llm_response) res \<times> 'w" where
  "ollama_chat h endpoint md msgs tools w =
     (let (r, w1) = post h (ollama_request endpoint (ollama_body md False msgs)) w
      in (bind_res r (\<lambda>rs. bind_res (rs_json rs) (\<lambda>body. Inr (ollama_answer body))), w1))"

definition ollama_summarize ::
  "'w http_host \<Rightarrow> string \<Rightarrow> string \<Rightarrow> string \<Rightarrow> 'w \<Rightarrow> (anyhow_error, string) res \<times> 'w" where
  "ollama_summarize h endpoint md t w =
     (let (r, w1) = ollama_chat h endpoint md (summary_prompt t) None w
      in (bind_res r (\<lambda>resp. text_of_answer (lr_content resp)), w1))"

definition ollama_line :: "(string \<Rightarrow> json option) \<Rightarrow> string \<Rightarrow> unit \<Rightarrow> stream_chunks \<times> unit" where
  "ollama_line parse line s =
     (if line = [] then ([], s)
      else case parse line of
        None \<Rightarrow> ([], s)
      | Some j \<Rightarrow>
          ([Inr \<lparr>delta = ollama_text j, chunk_done = unwrap_or (as_bool (jindex j ''done'')) False,
                 chunk_tool_calls = None\<rparr>], s))"

definition ollama_chat_stream ::
  "'w http_host \<Rightarrow> string \<Rightarrow> string \<Rightarrow> message list \<Rightarrow> tool_schema list option \<Rightarrow> 'w
   \<Rightarrow> (anyhow_error, stream_chunks) res \<times> 'w" where
  "ollama_chat_stream h endpoint md msgs tools w =
     (let (r, w1) = post h (ollama_request endpoint (ollama_body md True msgs)) w
      in (bind_res r (\<lambda>rs. Inr (read_stream nl (ollama_line (of_json h)) (rs_chunks rs) [] ())), w1))"

subsection \<open>The mock\<close>

definition one_call :: "string \<Rightarrow> string \<Rightarrow> string \<Rightarrow> llm_response" where
  "one_call i n args = resp_tool_calls [\<lparr>tc_id = i, tc_name = n, tc_arguments = args\<rparr>]"

definition second_last :: "'a list \<Rightarrow> 'a option" where
  "second_last xs = (if 2 \<le> length xs then Some (xs ! (length xs - 2)) else None)"

definition asked_read_file :: "message list \<Rightarrow> bool" where
  "asked_read_file msgs =
     (case second_last msgs of
        None \<Rightarrow> False
      | Some a \<Rightarrow> role a = Assistant
          \<and> (case tool_calls a of Some tcs \<Rightarrow> tcs \<noteq> [] \<and> tc_name (last tcs) = ''read_file'' | None \<Rightarrow> False))"

definition mock_tool_result :: "message list \<Rightarrow> message \<Rightarrow> llm_response option" where
  "mock_tool_result msgs m =
     (if role m \<noteq> Tool then None
      else if asked_read_file msgs then Some (resp_text (content m))
      else if starts_with (content m) ''Error:'' then Some (resp_text (''Tool failed: '' @ content m))
      else None)"

definition mock_tool_json :: "message \<Rightarrow> llm_response option" where
  "mock_tool_json m =
     Option.bind (strip_prefix (content m) ''test_tool_json:'') (\<lambda>req.
       map_option (\<lambda>(n, args). one_call ''test_call'' n args) (split_once CHR ''|'' req))"

definition mock_tool :: "(json \<Rightarrow> string) \<Rightarrow> message \<Rightarrow> llm_response option" where
  "mock_tool print m =
     Option.bind (strip_prefix (content m) ''test_tool:'') (\<lambda>req.
       case split_on CHR ''|'' req of
         n # path # cont # _ \<Rightarrow>
           Some (if \<not> contains (content m) ''tool_result'' \<and> role m \<noteq> Tool
                 then one_call ''test_call'' n (print
                   (if n = ''write_file'' \<or> n = ''test_write'' then JObj [''path'' \<mapsto> JStr path, ''content'' \<mapsto> JStr cont]
                    else if n = ''read_file'' \<or> n = ''test_read'' then JObj [''path'' \<mapsto> JStr path]
                    else JObj Map.empty))
                 else resp_text ''Tool execution verified'')
       | _ \<Rightarrow> None)"

definition mock_write_memory :: "(json \<Rightarrow> string) \<Rightarrow> message list \<Rightarrow> llm_response option" where
  "mock_write_memory print msgs =
     map_option (\<lambda>m.
       let ws = split_whitespace (content m); name = (if ws = [] then ''Kira'' else last ws) in
       if (\<exists>r \<in> set msgs. role r = Tool \<and> contains (content r) ''Successfully wrote'')
       then resp_text (''I've saved your name as '' @ name @ '' in MEMORY.md.'')
       else one_call ''call_1'' ''write_file''
              (print (JObj [''path'' \<mapsto> JStr ''MEMORY.md'', ''content'' \<mapsto> JStr (''Name: '' @ name)])))
       (find (\<lambda>m. role m = User \<and> contains (content m) ''write memory'') msgs)"

definition last_of_role :: "role \<Rightarrow> message list \<Rightarrow> message option" where
  "last_of_role r msgs = find (\<lambda>m. role m = r) (rev msgs)"

text \<open>The outer \<open>None\<close> is the panic of unwrapping the last message of the user when there is none.\<close>

definition mock_secret :: "message list \<Rightarrow> llm_response option option" where
  "mock_secret msgs =
     (if length msgs < 2 then Some None
      else case last_of_role User msgs of
        None \<Rightarrow> None
      | Some u \<Rightarrow>
          Some (if contains (content u) ''What is the secret code''
                   \<and> (\<exists>m \<in> set (butlast msgs). role m = User \<and> contains (content m) ''secret code is 42'')
                then Some (resp_text ''The secret code is 42'') else None))"

definition mock_system_prompt :: "message list \<Rightarrow> llm_response option" where
  "mock_system_prompt msgs =
     (if map_option content (last_of_role User msgs) = Some ''CHECK_SYSTEM_PROMPT''
      then map_option (\<lambda>m. resp_text (''SYSTEM_PROMPT:'' @ content m)) (last_of_role System msgs)
      else None)"

definition mock_command ::
  "(string \<Rightarrow> json option) \<Rightarrow> (json \<Rightarrow> string) \<Rightarrow> string \<Rightarrow> string \<Rightarrow> message list \<Rightarrow> llm_response option" where
  "mock_command parse print pre n msgs =
     Option.bind (last_of_role User msgs) (\<lambda>m.
     Option.bind (strip_prefix (content m) pre) (\<lambda>args.
       map_option (\<lambda>j. one_call ''test_call'' n (print j)) (parse args)))"

definition mock_chat ::
  "(string \<Rightarrow> json option) \<Rightarrow> (json \<Rightarrow> string) \<Rightarrow> message list \<Rightarrow> (anyhow_error, llm_response) res option" where
  "mock_chat parse print msgs =
     (if msgs = [] then Some (Inl (Msg ''No messages''))
      else let m = last msgs;
               early = or_else (mock_tool_result msgs m) (or_else (mock_tool_json m)
                         (or_else (mock_tool print m) (mock_write_memory print msgs)));
               late = or_else (mock_system_prompt msgs)
                        (or_else (mock_command parse print ''RUN_BASH:'' ''bash'' msgs)
                           (mock_command parse print ''READ_FILE:'' ''read_file'' msgs))
           in case early of
                Some r \<Rightarrow> Some (Inr r)
              | None \<Rightarrow>
                  map_option (\<lambda>secret. Inr (unwrap_or (or_else secret late) (resp_text ''Mock response''))) (mock_secret msgs))"

definition mock_summarize :: "string \<Rightarrow> (anyhow_error, string) res" where
  "mock_summarize t = Inr ''Mock summary''"

subsection \<open>What Ollama says\<close>

lemma find_str_nl: "newline \<notin> set e \<Longrightarrow> find_str nl (e @ newline # t) = Some (length e)"
  by (induction e) (auto simp: prefix_def)

lemma cut_lines:
  assumes "list_all (\<lambda>l. newline \<notin> set l) ls" and "newline \<notin> set rest"
  shows "cut_events nl (concat (map (\<lambda>l. l @ nl) ls) @ rest) = (ls, rest)"
  using assms(1)
proof (induction ls)
  case Nil
  have "find_str nl r = None" if "newline \<notin> set r" for r
    using that by (induction r) (auto simp: prefix_def)
  then show ?case using assms(2) by (simp add: cut_events.simps)
next
  case (Cons l ls)
  then show ?case
    using find_str_nl [of l "concat (map (\<lambda>l. l @ nl) ls) @ rest"]
    by (simp add: cut_events.simps [of nl "l @ newline # concat (map (\<lambda>l. l @ nl) ls) @ rest"])
qed

lemma on_events_unit: "fst (on_events (ollama_line parse) ls ()) = concat (map (\<lambda>l. fst (ollama_line parse l ())) ls)"
  by (induction ls) (simp_all add: case_prod_unfold Let_def)

text \<open>The stream of Ollama can be cut anywhere between two characters: whatever the pieces in which the
  lines arrive, there is one chunk for each line that is JSON, with its text and its mark of completion,
  in the order of the lines. What follows the last newline is dropped.\<close>

theorem ollama_stream_decodes:
  assumes "post h (ollama_request endpoint (ollama_body md True msgs)) w = (Inr rs, w1)"
    and "rs_chunks rs = map Inr chunks" and "list_all valid_utf8 chunks"
    and "concat chunks = concat (map (\<lambda>l. l @ nl) ls) @ rest"
    and "list_all (\<lambda>l. newline \<notin> set l) ls" and "newline \<notin> set rest"
  shows "ollama_chat_stream h endpoint md msgs tools w =
    (Inr (concat (map (\<lambda>l. fst (ollama_line (of_json h) l ())) ls)), w1)"
proof -
  have "cut_events nl [] = ([], [])" by (simp add: cut_events.simps)
  from read_stream_whole [OF this assms(3), of "ollama_line (of_json h)" "()"]
  show ?thesis
    using assms(1, 2, 4) cut_lines [OF assms(5, 6)] on_events_unit
    by (simp add: ollama_chat_stream_def)
qed

text \<open>An error of Ollama is taken for an empty answer. Whatever the status of the response and
  whatever JSON it carries, the call succeeds; when there is no text in it, as in the object with an
  error that the server sends for an unknown model, the answer is empty, and no other model is tried.\<close>

theorem ollama_hides_errors:
  assumes "post h (ollama_request endpoint (ollama_body md False msgs)) w = (Inr rs, w1)"
    and "rs_json rs = Inr body" and "jget body ''message'' = None"
  shows "fst (ollama_chat h endpoint md msgs tools w) =
    Inr \<lparr>lr_content = Text [], lr_usage = (if jget body ''prompt_eval_count'' \<noteq> None
           then Some (json_usage ''prompt_eval_count'' ''eval_count'' body) else None)\<rparr>"
  using assms by (simp add: ollama_chat_def ollama_answer_def ollama_text_def jindex_def str_or_def)

definition ollama_host :: "u16 \<Rightarrow> json \<Rightarrow> string list \<Rightarrow> unit http_host" where
  "ollama_host status body chunks =
     \<lparr>post = \<lambda>rq w. (Inr \<lparr>rs_status = status, rs_json = Inr body, rs_text = Inr [], rs_chunks = map Inr chunks\<rparr>, w),
      of_json = \<lambda>l. if l = ''a'' then Some (JObj [''message'' \<mapsto> JObj [''content'' \<mapsto> JStr ''Hi'']]) else None,
      to_json = \<lambda>j. []\<rparr>"

theorem ollama_hides_errors_witness:
  "fst (ollama_chat (ollama_host 404 (JObj [''error'' \<mapsto> JStr ''model not found'']) [])
      ''http://localhost:11434'' ''nope'' [] None ()) = Inr \<lparr>lr_content = Text [], lr_usage = None\<rparr>"
  using ollama_hides_errors [of "ollama_host 404 (JObj [''error'' \<mapsto> JStr ''model not found'']) []"
      "''http://localhost:11434''" "''nope''" "[]" "()"
      "\<lparr>rs_status = 404, rs_json = Inr (JObj [''error'' \<mapsto> JStr ''model not found'']), rs_text = Inr [], rs_chunks = []\<rparr>"]
  by (simp add: ollama_host_def)

theorem ollama_stream_decodes_witness:
  "ollama_chat_stream (ollama_host 200 JNull [''a'' @ nl @ ''x'', nl @ ''a'' @ nl @ ''a'']) ''e'' ''m'' [] None ()
     = (Inr [text_chunk ''Hi'', text_chunk ''Hi''], ())"
proof -
  let ?h = "ollama_host 200 JNull [''a'' @ nl @ ''x'', nl @ ''a'' @ nl @ ''a'']"
  have "ollama_chat_stream ?h ''e'' ''m'' [] None () =
      (Inr (concat (map (\<lambda>l. fst (ollama_line (of_json ?h) l ())) [''a'', ''x'', ''a''])), ())"
    by (rule ollama_stream_decodes [where chunks = "[''a'' @ nl @ ''x'', nl @ ''a'' @ nl @ ''a'']" and rest = "''a''"
          and rs = "\<lparr>rs_status = 200, rs_json = Inr JNull, rs_text = Inr [],
            rs_chunks = map Inr [''a'' @ nl @ ''x'', nl @ ''a'' @ nl @ ''a'']\<rparr>"])
      (simp_all add: ollama_host_def newline_def utf8_len_def)
  then show ?thesis
    by (simp add: ollama_line_def ollama_host_def ollama_text_def str_or_def text_chunk_def)
qed

text \<open>The mock panics on two messages none of which is from the user.\<close>

lemma mock_panics:
  "mock_chat parse print [text_message System ''x'', text_message Assistant ''y''] = None"
  by (simp add: mock_chat_def mock_tool_result_def mock_tool_json_def mock_tool_def mock_write_memory_def
      mock_secret_def last_of_role_def message_defs strip_prefix_def)

end
