(* ===== verification/Turn_Locks.thy ===== *)
theory Turn_Locks
  imports Llm_Types
begin

text \<open>
  What keeps two turns of an agent apart: the gate inside the daemon
  (\<^verbatim>\<open>src/src/concurrency/turn_gate.rs\<close>), the lock file between processes
  (\<^verbatim>\<open>src/src/concurrency/workspace_lock.rs\<close>), and the ways the callers take them: the handlers of
  \<^verbatim>\<open>src/src/server/http.rs\<close> and \<^verbatim>\<open>src/src/server/openai.rs\<close> wait for the gate and then for the lock, the heartbeat
  of the daemon (\<^verbatim>\<open>src/src/heartbeat/runner.rs\<close>) tries the lock and then the gate and waits for neither, the
  command \<open>heartbeat\<close> runs the same code without a gate, and the commands \<open>chat\<close> and \<open>ask\<close>
  (\<^verbatim>\<open>src/src/cli\<close>) wait for the lock. A process started by \<open>ask --child\<close>, a turn of the ingress
  (\<^verbatim>\<open>src/src/ingress/handler.rs\<close>) and a turn of the desktop (\<^verbatim>\<open>src/src/desktop/worker.rs\<close>) take neither.

  The gate is the number of its permits. The lock is held by at most one open file, as \<open>flock\<close> promises:
  it is the task that holds it.
\<close>

subsection \<open>The gate\<close>

type_synonym turn_gate = nat

definition gate_new :: turn_gate where
  "gate_new = 1"

text \<open>\<open>acquire\<close> completes only when there is a permit; \<open>try_acquire\<close> gives up at once; dropping the permit
  returns it.\<close>

definition gate_acquire :: "turn_gate \<Rightarrow> turn_gate option" where
  "gate_acquire g = (if 0 < g then Some (g - 1) else None)"

definition gate_try_acquire :: "turn_gate \<Rightarrow> bool \<times> turn_gate" where
  "gate_try_acquire g = (case gate_acquire g of Some g' \<Rightarrow> (True, g') | None \<Rightarrow> (False, g))"

definition gate_release :: "turn_gate \<Rightarrow> turn_gate" where
  "gate_release g = g + 1"

definition is_busy :: "turn_gate \<Rightarrow> bool" where
  "is_busy g \<longleftrightarrow> g = 0"

subsection \<open>The lock file\<close>

text \<open>One attempt: creating the file fails, the lock is taken, somebody else has it, or another error.\<close>

datatype attempt = Created_Not string | Locked | WouldBlock | LockError string

definition lock_try_acquire :: "attempt \<Rightarrow> (anyhow_error, bool) res" where
  "lock_try_acquire a =
     (case a of Created_Not e \<Rightarrow> Inl (Msg e) | Locked \<Rightarrow> Inr True | WouldBlock \<Rightarrow> Inr False
      | LockError e \<Rightarrow> Inl (Msg e))"

text \<open>The loop of \<open>acquire\<close>: \<open>att k\<close> is the outcome of attempt \<open>k\<close> and \<open>elapsed k\<close> the time since the start,
  in milliseconds, when it is over.\<close>

partial_function (option) lock_acquire ::
  "(nat \<Rightarrow> attempt) \<Rightarrow> (nat \<Rightarrow> nat) \<Rightarrow> nat \<Rightarrow> (anyhow_error, nat) res option" where
  "lock_acquire att elapsed k =
     (case att k of
        Created_Not e \<Rightarrow> Some (Inl (Msg e))
      | Locked \<Rightarrow> Some (Inr k)
      | LockError e \<Rightarrow> Some (Inl (Msg e))
      | WouldBlock \<Rightarrow>
          if 30000 < elapsed k then Some (Inl (Msg ''Timed out acquiring workspace lock''))
          else lock_acquire att elapsed (Suc k))"

text \<open>Waiting for the lock comes to an end. Every round sleeps for a hundred milliseconds, so that
  whatever the other processes do, after at most 302 attempts the lock is held, with every attempt
  before having found it taken, or there is an error.\<close>

theorem lock_acquire_ends:
  assumes "\<forall>k. 100 * k \<le> elapsed k"
  shows "\<exists>r. lock_acquire att elapsed 0 = Some r \<and>
    (case r of Inr k \<Rightarrow> k \<le> 301 \<and> att k = Locked \<and> list_all (\<lambda>j. att j = WouldBlock) [0..<k] | Inl e \<Rightarrow> True)"
proof -
  have step: "\<exists>r. lock_acquire att elapsed j = Some r \<and>
      (case r of Inr k \<Rightarrow> j \<le> k \<and> k \<le> 301 \<and> att k = Locked \<and> list_all (\<lambda>i. att i = WouldBlock) [j..<k]
       | Inl e \<Rightarrow> True)" if "j \<le> 301" for j
    using that
  proof (induction "301 - j" arbitrary: j)
    case 0
    then have j: "j = 301" by simp
    have "30000 < elapsed 301" using assms [rule_format, of 301] by simp
    then show ?case
      unfolding j lock_acquire.simps [of att elapsed 301] by (cases "att 301") auto
  next
    case (Suc n)
    then have "n = 301 - Suc j" and "Suc j \<le> 301" by simp_all
    from Suc.hyps(1) [OF this] obtain r where r: "lock_acquire att elapsed (Suc j) = Some r"
      "case r of Inr k \<Rightarrow> Suc j \<le> k \<and> k \<le> 301 \<and> att k = Locked \<and> list_all (\<lambda>i. att i = WouldBlock) [Suc j..<k]
       | Inl e \<Rightarrow> True"
      by blast
    show ?case
    proof (cases "att j = WouldBlock \<and> elapsed j \<le> 30000")
      case True
      with r show ?thesis
        by (auto simp: lock_acquire.simps [of att elapsed j] list_all_iff upt_rec [of j] split: sum.splits)
    next
      case False
      then show ?thesis
        using Suc.prems by (cases "att j") (auto simp: lock_acquire.simps [of att elapsed j])
    qed
  qed
  from step [of 0] show ?thesis by (auto split: sum.splits)
qed

theorem lock_acquire_ends_witness:
  "(\<exists>r. lock_acquire (\<lambda>k. if k < 3 then WouldBlock else Locked) (\<lambda>k. 100 * k) 0 = Some r)
   \<and> (\<exists>r. lock_acquire (\<lambda>k. WouldBlock) (\<lambda>k. 100 * k) 0 = Some r)"
  using lock_acquire_ends [of "\<lambda>k. 100 * k"] by blast

subsection \<open>Turns\<close>

datatype turn_kind = Http | Heartbeat | HeartbeatOnce | Cli | Child | Ingress | Desktop

fun takes_lock :: "turn_kind \<Rightarrow> bool" where
  "takes_lock Child = False"
| "takes_lock Ingress = False"
| "takes_lock Desktop = False"
| "takes_lock _ = True"

fun takes_gate :: "turn_kind \<Rightarrow> bool" where
  "takes_gate Http = True"
| "takes_gate Heartbeat = True"
| "takes_gate _ = False"

datatype turn_phase = WantGate | Checking | WantLock | HaveLock | Running

record turn_system =
  ts_gate :: turn_gate
  ts_lock :: "nat option"
  ts_tasks :: "nat \<Rightarrow> (turn_kind \<times> turn_phase) option"

definition at :: "nat \<Rightarrow> turn_kind \<Rightarrow> turn_phase \<Rightarrow> turn_system \<Rightarrow> turn_system" where
  "at t k p sy = sy\<lparr>ts_tasks := (ts_tasks sy)(t \<mapsto> (k, p))\<rparr>"

definition gone :: "nat \<Rightarrow> turn_system \<Rightarrow> turn_system" where
  "gone t sy = sy\<lparr>ts_tasks := (ts_tasks sy)(t := None)\<rparr>"

definition take_lock :: "nat \<Rightarrow> turn_system \<Rightarrow> turn_system" where
  "take_lock t sy = sy\<lparr>ts_lock := Some t\<rparr>"

definition drop_lock :: "turn_system \<Rightarrow> turn_system" where
  "drop_lock sy = sy\<lparr>ts_lock := None\<rparr>"

definition set_gate :: "turn_gate \<Rightarrow> turn_system \<Rightarrow> turn_system" where
  "set_gate g sy = sy\<lparr>ts_gate := g\<rparr>"

definition put_permit :: "turn_system \<Rightarrow> turn_system" where
  "put_permit sy = set_gate (gate_release (ts_gate sy)) sy"

lemmas turn_defs = at_def gone_def take_lock_def drop_lock_def set_gate_def put_permit_def gate_release_def

text \<open>A new turn arrives.\<close>

definition first_phase :: "turn_kind \<Rightarrow> turn_phase" where
  "first_phase k = (case k of Http \<Rightarrow> WantGate | Heartbeat \<Rightarrow> Checking | HeartbeatOnce \<Rightarrow> WantLock | Cli \<Rightarrow> WantLock
     | _ \<Rightarrow> Running)"

inductive turn_arrives :: "turn_system \<Rightarrow> turn_system \<Rightarrow> bool" where
  "ts_tasks sy t = None \<Longrightarrow> turn_arrives sy (at t k (first_phase k) sy)"

text \<open>A turn that is there goes on.\<close>

inductive turn_goes_on :: "nat \<Rightarrow> turn_system \<Rightarrow> turn_system \<Rightarrow> bool" for t where
  gate: "ts_tasks sy t = Some (Http, WantGate) \<Longrightarrow> gate_acquire (ts_gate sy) = Some g \<Longrightarrow>
    turn_goes_on t sy (at t Http WantLock (set_gate g sy))"
| lock: "ts_tasks sy t = Some (k, WantLock) \<Longrightarrow> ts_lock sy = None \<Longrightarrow>
    turn_goes_on t sy (at t k (if k = Heartbeat then HaveLock else Running) (take_lock t sy))"
| no_lock: "ts_tasks sy t = Some (k, WantLock) \<Longrightarrow> k = Heartbeat \<or> k = HeartbeatOnce \<Longrightarrow>
    ts_lock sy \<noteq> None \<Longrightarrow>
    turn_goes_on t sy (gone t sy)"
| busy: "ts_tasks sy t = Some (Heartbeat, Checking) \<Longrightarrow> is_busy (ts_gate sy) \<Longrightarrow>
    turn_goes_on t sy (gone t sy)"
| not_busy: "ts_tasks sy t = Some (Heartbeat, Checking) \<Longrightarrow> \<not> is_busy (ts_gate sy) \<Longrightarrow>
    turn_goes_on t sy (at t Heartbeat WantLock sy)"
| try_gate: "ts_tasks sy t = Some (Heartbeat, HaveLock) \<Longrightarrow> gate_try_acquire (ts_gate sy) = (True, g) \<Longrightarrow>
    turn_goes_on t sy (at t Heartbeat Running (set_gate g sy))"
| gate_lost: "ts_tasks sy t = Some (Heartbeat, HaveLock) \<Longrightarrow> gate_try_acquire (ts_gate sy) = (False, g) \<Longrightarrow>
    turn_goes_on t sy (gone t (drop_lock sy))"
| over: "ts_tasks sy t = Some (k, Running) \<Longrightarrow>
    turn_goes_on t sy
      (gone t (if takes_lock k then drop_lock (if takes_gate k then put_permit sy else sy) else sy))"

text \<open>Taking the lock fails, by timeout or by another error: an HTTP turn gives its permit back.\<close>

inductive turn_fails :: "turn_system \<Rightarrow> turn_system \<Rightarrow> bool" where
  "ts_tasks sy t = Some (k, WantLock) \<Longrightarrow>
   turn_fails sy (gone t (if k = Http then put_permit sy else sy))"

inductive turn_reachable :: "turn_system \<Rightarrow> bool" where
  init: "turn_reachable \<lparr>ts_gate = gate_new, ts_lock = None, ts_tasks = Map.empty\<rparr>"
| arrive: "turn_reachable sy \<Longrightarrow> turn_arrives sy sy' \<Longrightarrow> turn_reachable sy'"
| go_on: "turn_reachable sy \<Longrightarrow> turn_goes_on t sy sy' \<Longrightarrow> turn_reachable sy'"
| failure: "turn_reachable sy \<Longrightarrow> turn_fails sy sy' \<Longrightarrow> turn_reachable sy'"

text \<open>Who holds what, by kind and phase.\<close>

fun holds_gate :: "turn_kind \<times> turn_phase \<Rightarrow> bool" where
  "holds_gate (Http, WantLock) = True"
| "holds_gate (Http, Running) = True"
| "holds_gate (Heartbeat, Running) = True"
| "holds_gate _ = False"

fun holds_lock :: "turn_kind \<times> turn_phase \<Rightarrow> bool" where
  "holds_lock (k, Running) = takes_lock k"
| "holds_lock (k, HaveLock) = True"
| "holds_lock _ = False"

fun possible :: "turn_kind \<times> turn_phase \<Rightarrow> bool" where
  "possible (Http, p) = (p \<in> {WantGate, WantLock, Running})"
| "possible (Heartbeat, p) = (p \<in> {Checking, WantLock, HaveLock, Running})"
| "possible (HeartbeatOnce, p) = (p \<in> {WantLock, Running})"
| "possible (Cli, p) = (p \<in> {WantLock, Running})"
| "possible (k, p) = (p = Running)"

definition gate_holders :: "turn_system \<Rightarrow> nat set" where
  "gate_holders sy = {t. case ts_tasks sy t of Some s \<Rightarrow> holds_gate s | None \<Rightarrow> False}"

definition lock_holders :: "turn_system \<Rightarrow> nat set" where
  "lock_holders sy = {t. case ts_tasks sy t of Some s \<Rightarrow> holds_lock s | None \<Rightarrow> False}"

definition turn_inv :: "turn_system \<Rightarrow> bool" where
  "turn_inv sy \<longleftrightarrow>
     lock_holders sy = set_option (ts_lock sy)
     \<and> (ts_gate sy = 1 \<and> gate_holders sy = {} \<or> ts_gate sy = 0 \<and> (\<exists>t. gate_holders sy = {t}))
     \<and> (\<forall>t. pred_option possible (ts_tasks sy t)) \<and> finite (dom (ts_tasks sy))"

lemma gate_holders_at [simp]:
  "gate_holders (at t k p sy) = (if holds_gate (k, p) then insert t (gate_holders sy) else gate_holders sy - {t})"
  by (auto simp: gate_holders_def at_def)

lemma lock_holders_at [simp]:
  "lock_holders (at t k p sy) = (if holds_lock (k, p) then insert t (lock_holders sy) else lock_holders sy - {t})"
  by (auto simp: lock_holders_def at_def)

lemma holders_gone [simp]:
  "gate_holders (gone t sy) = gate_holders sy - {t}" "lock_holders (gone t sy) = lock_holders sy - {t}"
  by (auto simp: gate_holders_def lock_holders_def gone_def)

lemma holders_unchanged [simp]:
  "gate_holders (take_lock t sy) = gate_holders sy" "lock_holders (take_lock t sy) = lock_holders sy"
  "gate_holders (drop_lock sy) = gate_holders sy" "lock_holders (drop_lock sy) = lock_holders sy"
  "gate_holders (set_gate g sy) = gate_holders sy" "lock_holders (set_gate g sy) = lock_holders sy"
  "gate_holders (put_permit sy) = gate_holders sy" "lock_holders (put_permit sy) = lock_holders sy"
  by (simp_all add: gate_holders_def lock_holders_def turn_defs)

lemma resources [simp]:
  "ts_gate (at t k p sy) = ts_gate sy" "ts_lock (at t k p sy) = ts_lock sy"
  "ts_gate (gone t sy) = ts_gate sy" "ts_lock (gone t sy) = ts_lock sy"
  "ts_gate (take_lock t sy) = ts_gate sy" "ts_lock (take_lock t sy) = Some t"
  "ts_gate (drop_lock sy) = ts_gate sy" "ts_lock (drop_lock sy) = None"
  "ts_gate (set_gate g sy) = g" "ts_lock (set_gate g sy) = ts_lock sy"
  "ts_gate (put_permit sy) = Suc (ts_gate sy)" "ts_lock (put_permit sy) = ts_lock sy"
  by (simp_all add: turn_defs)

lemma turn_inv_task:
  assumes "turn_inv sy" and "ts_tasks sy t = Some s"
  shows "holds_gate s \<Longrightarrow> ts_gate sy = 0 \<and> gate_holders sy = {t}"
    and "holds_lock s \<Longrightarrow> ts_lock sy = Some t \<and> lock_holders sy = {t}"
    and "\<not> holds_gate s \<Longrightarrow> t \<notin> gate_holders sy"
    and "\<not> holds_lock s \<Longrightarrow> t \<notin> lock_holders sy"
    and "possible s"
proof -
  have "t \<in> gate_holders sy \<longleftrightarrow> holds_gate s" and "t \<in> lock_holders sy \<longleftrightarrow> holds_lock s"
    using assms(2) by (auto simp: gate_holders_def lock_holders_def)
  moreover have "possible s"
    using assms by (metis option.pred_inject(2) turn_inv_def)
  ultimately show "holds_gate s \<Longrightarrow> ts_gate sy = 0 \<and> gate_holders sy = {t}"
    and "holds_lock s \<Longrightarrow> ts_lock sy = Some t \<and> lock_holders sy = {t}"
    and "\<not> holds_gate s \<Longrightarrow> t \<notin> gate_holders sy"
    and "\<not> holds_lock s \<Longrightarrow> t \<notin> lock_holders sy"
    and "possible s"
    using assms(1) by (auto simp: turn_inv_def elem_set)
qed

lemma tasks_of [simp]:
  "ts_tasks (at t k p sy) = (ts_tasks sy)(t \<mapsto> (k, p))" "ts_tasks (gone t sy) = (ts_tasks sy)(t := None)"
  "ts_tasks (take_lock t sy) = ts_tasks sy" "ts_tasks (drop_lock sy) = ts_tasks sy"
  "ts_tasks (set_gate g sy) = ts_tasks sy" "ts_tasks (put_permit sy) = ts_tasks sy"
  by (simp_all add: turn_defs)

lemma holders_None: "ts_tasks sy t = None \<Longrightarrow> t \<notin> gate_holders sy \<and> t \<notin> lock_holders sy"
  by (simp add: gate_holders_def lock_holders_def)

lemma turn_inv_None:
  assumes "turn_inv sy" and "ts_tasks sy t = None"
  shows "t \<notin> gate_holders sy \<and> t \<notin> lock_holders sy \<and> ts_lock sy \<noteq> Some t"
  using assms holders_None [OF assms(2)] by (auto simp: turn_inv_def)

lemma turn_inv_arrives: "turn_inv sy \<Longrightarrow> turn_arrives sy sy' \<Longrightarrow> turn_inv sy'"
proof (erule turn_arrives.cases)
  fix sya t k
  assume inv: "turn_inv sy" and "sy = sya" "sy' = at t k (first_phase k) sya" "ts_tasks sya t = None"
  with turn_inv_None [OF inv, of t] show "turn_inv sy'"
    unfolding turn_inv_def first_phase_def by (cases k) (auto simp del: split_paired_All)
qed

lemma turn_inv_goes_on:
  assumes "turn_inv sy" and "turn_goes_on t sy sy'"
  shows "turn_inv sy'"
  using assms(2)
proof cases
  case (gate g)
  with assms(1) turn_inv_task [OF assms(1) gate(2)] show ?thesis
    by (auto simp: turn_inv_def gate_acquire_def split: if_splits)
next
  case (lock k)
  with assms(1) turn_inv_task [OF assms(1) lock(2)] show ?thesis
    by (cases k) (auto simp: turn_inv_def)
next
  case (no_lock k)
  with assms(1) turn_inv_task [OF assms(1) no_lock(2)] show ?thesis
    by (auto simp: turn_inv_def)
next
  case busy
  with assms(1) turn_inv_task [OF assms(1) busy(2)] show ?thesis
    by (auto simp: turn_inv_def)
next
  case not_busy
  with assms(1) turn_inv_task [OF assms(1) not_busy(2)] show ?thesis
    by (auto simp: turn_inv_def)
next
  case (try_gate g)
  with assms(1) turn_inv_task [OF assms(1) try_gate(2)] show ?thesis
    by (auto simp: turn_inv_def gate_try_acquire_def gate_acquire_def split: if_splits)
next
  case (gate_lost g)
  with assms(1) turn_inv_task [OF assms(1) gate_lost(2)] show ?thesis
    by (auto simp: turn_inv_def)
next
  case (over k)
  with assms(1) turn_inv_task [OF assms(1) over(2)] show ?thesis
    by (cases k) (auto simp: turn_inv_def)
qed

lemma turn_inv_fails: "turn_inv sy \<Longrightarrow> turn_fails sy sy' \<Longrightarrow> turn_inv sy'"
proof (erule turn_fails.cases)
  fix sya t k
  assume inv: "turn_inv sy" and eq: "sy = sya" "sy' = gone t (if k = Http then put_permit sya else sya)"
    "ts_tasks sya t = Some (k, WantLock)"
  then have "ts_tasks sy t = Some (k, WantLock)" by simp
  with inv turn_inv_task [OF inv this] eq show "turn_inv sy'"
    by (cases k) (auto simp: turn_inv_def)
qed

lemma turn_reachable_inv: "turn_reachable sy \<Longrightarrow> turn_inv sy"
proof (induction rule: turn_reachable.induct)
  case init
  show ?case by (simp add: turn_inv_def gate_new_def gate_holders_def lock_holders_def)
qed (rule turn_inv_arrives turn_inv_goes_on turn_inv_fails, assumption+)+

text \<open>C30: At most one turn of those that take the lock (of the server, of the heartbeat, of \<open>chat\<close> and
  of \<open>ask\<close>) runs at a time, whatever the turns that arrive, in whichever order their steps interleave, and
  whether or not some of them fail to take the lock: of two running turns of this sort the two are the same,
  the lock is held by it, and when it is a turn of the daemon the gate has no permit left. Nothing of this
  holds for the turns that take neither lock nor gate (\<open>ask --child\<close>, the ingress, the desktop): in every
  state one of them may start and run beside the turn that runs.\<close>

theorem turns_exclusive:
  assumes "turn_reachable sy" and "ts_tasks sy t = Some (k, Running)" and "takes_lock k"
  shows "ts_lock sy = Some t \<and> (k = Cli \<or> k = HeartbeatOnce \<or> is_busy (ts_gate sy))
    \<and> (\<nexists>t' k'. t' \<noteq> t \<and> takes_lock k' \<and> ts_tasks sy t' = Some (k', Running))
    \<and> (\<forall>t' k'. ts_tasks sy t' = None \<and> \<not> takes_lock k' \<longrightarrow>
         turn_arrives sy (at t' k' Running sy) \<and> ts_tasks (at t' k' Running sy) t = Some (k, Running))"
proof -
  have inv: "turn_inv sy" using assms(1) by (rule turn_reachable_inv)
  have l: "ts_lock sy = Some t" using turn_inv_task(2) [OF inv assms(2)] assms(3) by simp
  have "k = Cli \<or> k = HeartbeatOnce \<or> is_busy (ts_gate sy)"
    using turn_inv_task(1) [OF inv assms(2)] assms(3) by (cases k) (auto simp: is_busy_def)
  moreover have "t' = t" if "ts_tasks sy t' = Some (k', Running)" "takes_lock k'" for t' k'
    using turn_inv_task(2) [OF inv that(1)] that(2) l by simp
  moreover have "turn_arrives sy (at t' k' Running sy) \<and> ts_tasks (at t' k' Running sy) t = Some (k, Running)"
    if "ts_tasks sy t' = None" "\<not> takes_lock k'" for t' k'
    using turn_arrives.intros [OF that(1), of k'] that assms(2) by (cases k') (auto simp: first_phase_def)
  ultimately show ?thesis using l by blast
qed

text \<open>An HTTP turn that runs while a heartbeat waits to take the lock.\<close>

definition busy_daemon :: turn_system where
  "busy_daemon = at 7 Http Running (take_lock 7 (at 7 Http WantLock (set_gate 0
     (at 8 Heartbeat WantLock (at 8 Heartbeat Checking (at 7 Http WantGate
       \<lparr>ts_gate = gate_new, ts_lock = None, ts_tasks = Map.empty\<rparr>))))))"

lemma busy_daemon_reachable: "turn_reachable busy_daemon"
proof -
  let ?s0 = "\<lparr>ts_gate = gate_new, ts_lock = None, ts_tasks = Map.empty\<rparr>"
  let ?s1 = "at 7 Http WantGate ?s0"
  let ?s2 = "at 8 Heartbeat Checking ?s1"
  let ?s3 = "at 8 Heartbeat WantLock ?s2"
  let ?s4 = "at 7 Http WantLock (set_gate 0 ?s3)"
  have "turn_arrives ?s0 ?s1" using turn_arrives.intros [of ?s0 7 Http] by (simp add: first_phase_def)
  then have "turn_reachable ?s1" by (rule turn_reachable.arrive [OF turn_reachable.init])
  moreover have "turn_arrives ?s1 ?s2"
    using turn_arrives.intros [of ?s1 8 Heartbeat] by (simp add: first_phase_def)
  ultimately have "turn_reachable ?s2" by (rule turn_reachable.arrive)
  moreover have "turn_goes_on 8 ?s2 ?s3"
    by (rule turn_goes_on.not_busy) (simp_all add: is_busy_def gate_new_def)
  ultimately have "turn_reachable ?s3" by (rule turn_reachable.go_on)
  moreover have "turn_goes_on 7 ?s3 ?s4"
    by (rule turn_goes_on.gate) (simp_all add: gate_acquire_def gate_new_def)
  ultimately have "turn_reachable ?s4" by (rule turn_reachable.go_on)
  moreover have "turn_goes_on 7 ?s4 busy_daemon"
    using turn_goes_on.lock [of ?s4 7 Http] by (simp add: busy_daemon_def)
  ultimately show ?thesis by (rule turn_reachable.go_on)
qed

theorem turns_exclusive_witness:
  "ts_lock busy_daemon = Some 7 \<and> is_busy (ts_gate busy_daemon)
   \<and> (\<nexists>t' k'. t' \<noteq> 7 \<and> takes_lock k' \<and> ts_tasks busy_daemon t' = Some (k', Running))
   \<and> turn_arrives busy_daemon (at 9 Ingress Running busy_daemon)
   \<and> ts_tasks (at 9 Ingress Running busy_daemon) 7 = Some (Http, Running)"
proof -
  have "ts_tasks busy_daemon 7 = Some (Http, Running)" and n: "ts_tasks busy_daemon 9 = None"
    by (simp_all add: busy_daemon_def)
  note * = turns_exclusive [OF busy_daemon_reachable this(1)]
  from * have "turn_arrives busy_daemon (at 9 Ingress Running busy_daemon)
      \<and> ts_tasks (at 9 Ingress Running busy_daemon) 7 = Some (Http, Running)"
    using n by (metis takes_lock.simps(2) takes_lock.simps(4))
  with * show ?thesis by simp
qed

text \<open>What is left to do, counted in steps.\<close>

fun steps_left :: "turn_kind \<times> turn_phase \<Rightarrow> nat" where
  "steps_left (k, WantGate) = 3"
| "steps_left (k, Checking) = 4"
| "steps_left (k, WantLock) = (if k = Heartbeat then 3 else 2)"
| "steps_left (k, HaveLock) = 2"
| "steps_left (k, Running) = 1"

definition load :: "turn_system \<Rightarrow> nat" where
  "load sy = (\<Sum>t\<in>dom (ts_tasks sy). steps_left (the (ts_tasks sy t)))"

lemma load_task:
  assumes "finite (dom (ts_tasks sy))" and "ts_tasks sy t = Some s"
  shows "load sy = steps_left s + load (gone t sy)"
proof -
  have "t \<in> dom (ts_tasks sy)" using assms(2) by blast
  then show ?thesis
    using assms by (auto simp: load_def sum.remove dom_fun_upd intro: sum.cong)
qed

lemma load_unchanged [simp]:
  "load (take_lock t sy) = load sy" "load (drop_lock sy) = load sy" "load (set_gate g sy) = load sy"
  "load (put_permit sy) = load sy" "gone t (at t k p sy) = gone t sy"
  by (simp_all add: load_def at_def gone_def)

lemma load_gone:
  assumes "finite (dom (ts_tasks sy))" and "ts_tasks sy t = Some s"
  shows "load (gone t sy) < load sy"
  using load_task [OF assms] by (cases s, cases "snd s") auto

lemma load_at:
  assumes "finite (dom (ts_tasks sy))" and "ts_tasks sy t = Some s" and "steps_left (k, p) < steps_left s"
  shows "load (at t k p sy) < load sy"
proof -
  have "load (at t k p sy) = steps_left (k, p) + load (gone t sy)"
    using load_task [of "at t k p sy" t "(k, p)"] assms(1) by simp
  with load_task [OF assms(1, 2)] assms(3) show ?thesis by simp
qed

lemma load_decreases:
  assumes "turn_inv sy" and "turn_goes_on t sy sy'"
  shows "load sy' < load sy"
proof -
  have fin: "finite (dom (ts_tasks sy))" using assms(1) by (simp add: turn_inv_def)
  show ?thesis
    using assms(2)
  proof cases
    case (gate g)
    then show ?thesis using load_at [of "set_gate g sy" t "(Http, WantGate)" Http WantLock] fin by simp
  next
    case (lock k)
    then show ?thesis
      using load_at [of "take_lock t sy" t "(k, WantLock)" k "if k = Heartbeat then HaveLock else Running"] fin
      by (cases k) simp_all
  next
    case not_busy
    then show ?thesis using load_at [of sy t "(Heartbeat, Checking)" Heartbeat WantLock] fin by simp
  next
    case (try_gate g)
    then show ?thesis using load_at [of "set_gate g sy" t "(Heartbeat, HaveLock)" Heartbeat Running] fin by simp
  next
    case (gate_lost g)
    then show ?thesis using load_gone [of "drop_lock sy" t] fin by simp
  next
    case (over k)
    then show ?thesis
      using load_gone [of "drop_lock sy" t] load_gone [of "drop_lock (put_permit sy)" t] load_gone [of sy t] fin by auto
  qed (use load_gone [OF fin] in auto)
qed

text \<open>The holder of the lock can always go on, and when nobody holds the lock everybody can, except those who
  wait for a gate that one of the others holds.\<close>

lemma task_goes_on:
  assumes "turn_inv sy" and "ts_tasks sy t = Some (k, p)" and "p \<noteq> WantGate" and "p \<noteq> WantLock \<or> ts_lock sy = None"
  shows "\<exists>sy'. turn_goes_on t sy sy'"
proof -
  have poss: "possible (k, p)" using turn_inv_task(5) [OF assms(1, 2)] .
  show ?thesis
  proof (cases p)
    case Checking
    with poss assms(2) show ?thesis
      by (cases k; cases "is_busy (ts_gate sy)") (auto intro: turn_goes_on.busy turn_goes_on.not_busy)
  next
    case WantLock
    with assms show ?thesis by (auto intro: turn_goes_on.lock)
  next
    case HaveLock
    with poss have k: "k = Heartbeat" by (cases k) auto
    obtain b g where "gate_try_acquire (ts_gate sy) = (b, g)" by fastforce
    with HaveLock assms(2) k show ?thesis
      by (cases b) (auto intro: turn_goes_on.try_gate turn_goes_on.gate_lost)
  next
    case Running
    with assms(2) show ?thesis by (auto intro: turn_goes_on.over)
  qed (use assms(3) in simp)
qed

lemma somebody_goes_on:
  assumes inv: "turn_inv sy" and some: "ts_tasks sy t = Some s"
  shows "\<exists>t sy'. turn_goes_on t sy sy'"
proof (cases "ts_lock sy")
  case (Some h)
  then have "h \<in> lock_holders sy" using inv by (simp add: turn_inv_def)
  then obtain k p where "ts_tasks sy h = Some (k, p)" "holds_lock (k, p)"
    by (auto simp: lock_holders_def split: option.splits)
  then have "ts_tasks sy h = Some (k, p)" "p \<noteq> WantGate" "p \<noteq> WantLock" by (cases p; simp)+
  then show ?thesis using task_goes_on [OF inv] by blast
next
  case None
  obtain k p where s: "s = (k, p)" by (cases s)
  show ?thesis
  proof (cases "p = WantGate")
    case False
    then show ?thesis using task_goes_on [OF inv] some s None by blast
  next
    case True
    then have k: "k = Http" using turn_inv_task(5) [OF inv some] s by (cases k) auto
    show ?thesis
    proof (cases "ts_gate sy")
      case 0
      then obtain h where "h \<in> gate_holders sy" using inv by (auto simp: turn_inv_def)
      then obtain k' p' where h: "ts_tasks sy h = Some (k', p')" "holds_gate (k', p')"
        by (auto simp: gate_holders_def split: option.splits)
      then have "p' \<noteq> WantGate" by (cases k') auto
      then show ?thesis using task_goes_on [OF inv h(1)] None by blast
    next
      case (Suc g)
      then have "gate_acquire (ts_gate sy) = Some g" by (simp add: gate_acquire_def)
      with some s True k show ?thesis by (auto intro: turn_goes_on.gate)
    qed
  qed
qed

text \<open>No turn waits for ever, although some take the gate before the lock and others the lock before the
  gate. In every reachable state with a turn in it some turn can take a step, and a step always brings the
  work that is left down: once no more turns arrive, every schedule ends with all turns gone, the lock free
  and the permit back in the gate.\<close>

theorem turns_finish:
  assumes "turn_reachable sy"
  shows "((\<nexists>t sy'. turn_goes_on t sy sy') \<longleftrightarrow> ts_tasks sy = Map.empty \<and> ts_lock sy = None \<and> ts_gate sy = gate_new)
    \<and> (\<nexists>t sy'. turn_goes_on t sy sy' \<and> load sy \<le> load sy')"
proof -
  have inv: "turn_inv sy" using assms by (rule turn_reachable_inv)
  have "ts_tasks sy = Map.empty" if "\<nexists>t sy'. turn_goes_on t sy sy'"
  proof (rule ext)
    show "ts_tasks sy t = None" for t
      using somebody_goes_on [OF inv, of t] that by (cases "ts_tasks sy t") auto
  qed
  moreover have "\<nexists>t sy'. turn_goes_on t sy sy'" if "ts_tasks sy = Map.empty"
    using that by (auto elim: turn_goes_on.cases)
  moreover have "ts_lock sy = None \<and> ts_gate sy = gate_new" if "ts_tasks sy = Map.empty"
    using inv that
    by (cases "ts_lock sy") (auto simp: turn_inv_def gate_holders_def lock_holders_def gate_new_def)
  moreover have "\<nexists>t sy'. turn_goes_on t sy sy' \<and> load sy \<le> load sy'"
    using load_decreases [OF inv] by (meson not_le)
  ultimately show ?thesis by blast
qed

theorem turns_finish_witness:
  "(\<exists>t sy'. turn_goes_on t busy_daemon sy') \<and> (\<nexists>t sy'. turn_goes_on t busy_daemon sy' \<and> load busy_daemon \<le> load sy')"
proof -
  have "ts_tasks busy_daemon \<noteq> Map.empty" by (simp add: busy_daemon_def)
  with turns_finish [OF busy_daemon_reachable] show ?thesis by blast
qed

end
