(* ===== verification/Heartbeat.thy ===== *)
theory Heartbeat
  imports Agent_Core System_Prompt Session_Store Turn_Locks
begin

text \<open>
  The heartbeat: a turn of the agent without a user, at an interval and during some hours
  (\<^verbatim>\<open>src/src/heartbeat/runner.rs\<close>, \<^verbatim>\<open>src/src/heartbeat/events.rs\<close>), with the two parsers of
  \<^verbatim>\<open>src/src/config/schema.rs\<close> that read its settings.

  The file system, the clocks, the construction of an agent and what other tasks do to the gate between
  the two looks at it are the record \<open>heartbeat_env\<close>. A run returns, panics, or does not come back from
  the model.
\<close>

subsection \<open>Durations and times of day\<close>

definition unit_seconds :: "string \<Rightarrow> u64 option" where
  "unit_seconds c =
     (if c = ''s'' then Some 1 else if c = ''m'' then Some 60 else if c = ''h'' then Some 3600
      else if c = ''d'' then Some 86400 else None)"

fun duration_loop :: "string \<Rightarrow> string \<Rightarrow> u64 \<Rightarrow> string list \<Rightarrow> (string, u64) res" where
  "duration_loop s current_num total_seconds [] = Inr total_seconds"
| "duration_loop s current_num total_seconds (c # cs) =
     (if length c = 1 \<and> is_ascii_digit (hd c)
      then duration_loop s (current_num @ c) total_seconds cs
      else case parse_uint (2 ^ 64 - 1) current_num of
             None \<Rightarrow> Inl (''Invalid number in duration: '' @ s)
           | Some num \<Rightarrow>
               (case unit_seconds c of
                  None \<Rightarrow> Inl (''Unknown duration unit: '' @ c)
                | Some k \<Rightarrow> duration_loop s [] (total_seconds + of_nat num * k) cs))"

definition parse_duration :: "string \<Rightarrow> (string, u64) res" where
  "parse_duration s =
     bind_res (duration_loop s [] 0 (chars s)) (\<lambda>total_seconds.
       if total_seconds = 0 then Inl (''Invalid duration: '' @ s) else Inr total_seconds)"

definition parse_u8 :: "string \<Rightarrow> string \<Rightarrow> (string, nat) res" where
  "parse_u8 what s = (case parse_uint 255 s of Some n \<Rightarrow> Inr n | None \<Rightarrow> Inl (what @ s))"

definition parse_time :: "string \<Rightarrow> (string, nat \<times> nat) res" where
  "parse_time s =
     (let parts = split_on CHR '':'' s in
      if length parts \<noteq> 2 then Inl (''Invalid time format: '' @ s @ ''. Expected HH:MM'')
      else
        bind_res (parse_u8 ''Invalid hour: '' (parts ! 0)) (\<lambda>hour.
        bind_res (parse_u8 ''Invalid minute: '' (parts ! 1)) (\<lambda>minute.
          if 23 < hour then Inl (''Hour must be 0-23, got: '' @ show_nat hour)
          else if 59 < minute then Inl (''Minute must be 0-59, got: '' @ show_nat minute)
          else Inr (hour, minute))))"

subsection \<open>Events\<close>

datatype heartbeat_status = Sent | HeartbeatOk | Skipped | Failed

record heartbeat_event =
  he_ts :: u64
  he_status :: heartbeat_status
  he_duration_ms :: u64
  he_preview :: "string option"
  he_reason :: "string option"

subsection \<open>The runner\<close>

text \<open>Times of day are in nanoseconds since midnight.\<close>

record heartbeat_settings =
  hs_interval :: u64
  hs_active_hours :: "(nat \<times> nat) option"

definition from_hms :: "nat \<times> nat \<Rightarrow> nat option" where
  "from_hms t = (if fst t < 24 \<and> snd t < 60 then Some ((fst t * 3600 + snd t * 60) * 10 ^ 9) else None)"

definition with_context :: "string \<Rightarrow> (string, 'a) res \<Rightarrow> (anyhow_error, 'a) res" where
  "with_context what r = (case r of Inl e \<Rightarrow> Inl (Msg (what @ e)) | Inr x \<Rightarrow> Inr x)"

text \<open>\<open>HeartbeatRunner::new_with_gate\<close>: \<open>None\<close> is the panic of an \<open>unwrap\<close>.\<close>

definition active_hours_of :: "string \<times> string \<Rightarrow> (anyhow_error, (nat \<times> nat) option) res" where
  "active_hours_of hours =
     bind_res (with_context ''Invalid start time: '' (parse_time (fst hours))) (\<lambda>start.
     bind_res (with_context ''Invalid end time: '' (parse_time (snd hours))) (\<lambda>stop.
       Inr (case (from_hms start, from_hms stop) of (Some a, Some b) \<Rightarrow> Some (a, b) | _ \<Rightarrow> None)))"

definition heartbeat_settings_of ::
  "string \<Rightarrow> (string \<times> string) option \<Rightarrow> (anyhow_error, heartbeat_settings) res option" where
  "heartbeat_settings_of interval hours =
     (case with_context ''Invalid heartbeat interval: '' (parse_duration interval) of
        Inl e \<Rightarrow> Some (Inl e)
      | Inr secs \<Rightarrow>
          (case hours of
             None \<Rightarrow> Some (Inr \<lparr>hs_interval = secs, hs_active_hours = None\<rparr>)
           | Some hs \<Rightarrow>
               (case active_hours_of hs of
                  Inl e \<Rightarrow> Some (Inl e)
                | Inr None \<Rightarrow> None
                | Inr (Some ab) \<Rightarrow> Some (Inr \<lparr>hs_interval = secs, hs_active_hours = Some ab\<rparr>))))"

definition in_active_hours :: "heartbeat_settings \<Rightarrow> nat \<Rightarrow> bool" where
  "in_active_hours hs now =
     (case hs_active_hours hs of
        None \<Rightarrow> True
      | Some (start, stop) \<Rightarrow>
          if start \<le> stop then start \<le> now \<and> now \<le> stop else start \<le> now \<or> now \<le> stop)"

datatype 'a outcome = Returns 'a | Panics | Diverges

record 'w heartbeat_env =
  hv_try_lock :: "'w \<Rightarrow> attempt"
  hv_meanwhile :: "turn_gate \<Rightarrow> turn_gate"
  hv_heartbeat_md :: "'w \<Rightarrow> (anyhow_error, string) res option"
  hv_new_agent :: "'w \<Rightarrow> (anyhow_error \<times> 'w) + ('w agent \<times> 'w engine_state)"
  hv_system_prompt :: "'w agent \<Rightarrow> 'w \<Rightarrow> string \<times> 'w"
  hv_memory :: "'w \<Rightarrow> memory_files"
  hv_fresh :: "'w \<Rightarrow> session"
  hv_is_git :: "'w \<Rightarrow> bool"
  hv_format :: store_format
  hv_sessions :: "'w \<Rightarrow> (anyhow_error, string option) res"
  hv_save :: "string \<Rightarrow> 'w \<Rightarrow> (anyhow_error, unit) res \<times> 'w"
  hv_now :: "'w \<Rightarrow> u64"
  hv_elapsed :: "'w \<Rightarrow> 'w \<Rightarrow> u64"
  hv_clock :: "'w \<Rightarrow> nat"
  hv_display :: "anyhow_error \<Rightarrow> string"
  hv_debug :: bool

text \<open>The turn itself: a new agent, a new session, and the prompt. The answer comes with the identifier of
  the session.\<close>

definition heartbeat_turn :: "'w heartbeat_env \<Rightarrow> 'w \<Rightarrow> ((anyhow_error, string \<times> string) res \<times> 'w) outcome" where
  "heartbeat_turn v w =
     (case hv_new_agent v w of
        Inl (e, w1) \<Rightarrow> Returns (Inl e, w1)
      | Inr (a, st0) \<Rightarrow>
          let (prompt, w1) = hv_system_prompt v a (es_world st0) in
          case agent_new_session (hv_memory v w1) prompt (hv_fresh v w1) a (st0\<lparr>es_world := w1\<rparr>) of
            (Inl e, st1) \<Rightarrow> Returns (Inl e, es_world st1)
          | (Inr _, st1) \<Rightarrow>
              (case agent_chat (build_heartbeat_prompt (hv_is_git v (es_world st1))) a st1 of
                 None \<Rightarrow> Diverges
               | Some (r, _, st2) \<Rightarrow>
                   Returns (map_sum id (\<lambda>response. (response, s_id (es_session st2))) r, es_world st2)))"

definition heartbeat_update :: "u64 \<Rightarrow> string \<Rightarrow> string \<Rightarrow> store_update" where
  "heartbeat_update now session_id response =
     \<lparr>su_key = ''heartbeat'', su_session_id = session_id, su_change = record_heartbeat now response, su_now = now\<rparr>"

text \<open>What becomes of an alert: the same text within a day is not sent again, any other is recorded.\<close>

definition settle_alert :: "'w heartbeat_env \<Rightarrow> string \<Rightarrow> string \<Rightarrow> 'w \<Rightarrow> (heartbeat_status \<times> 'w) outcome" where
  "settle_alert v response session_id w =
     (case hv_sessions v w of
        Inl _ \<Rightarrow> Returns (Sent, w)
      | Inr file \<Rightarrow>
          let store = load_store (hv_format v) file in
          if (case store ''heartbeat'' of
                Some entry \<Rightarrow> is_duplicate_heartbeat (hv_now v w) response entry | None \<Rightarrow> False)
          then (if hv_debug v \<and> slice_to (min (length response) 100) response = None then Panics
                else Returns (Skipped, w))
          else Returns (Sent, snd (hv_save v
                 (the (load_and_update (hv_format v) (heartbeat_update (hv_now v w) session_id response) store file)) w)))"

definition heartbeat_work ::
  "'w heartbeat_env \<Rightarrow> 'w \<Rightarrow> ((anyhow_error, string \<times> heartbeat_status) res \<times> 'w) outcome" where
  "heartbeat_work v w =
     (case hv_heartbeat_md v w of
        None \<Rightarrow> Returns (Inr (HEARTBEAT_OK_TOKEN, Skipped), w)
      | Some (Inl e) \<Rightarrow> Returns (Inl e, w)
      | Some (Inr tasks) \<Rightarrow>
          if trim tasks = [] then Returns (Inr (HEARTBEAT_OK_TOKEN, Skipped), w)
          else case heartbeat_turn v w of
                 Panics \<Rightarrow> Panics
               | Diverges \<Rightarrow> Diverges
               | Returns (Inl e, w1) \<Rightarrow> Returns (Inl e, w1)
               | Returns (Inr (response, session_id), w1) \<Rightarrow>
                   if is_heartbeat_ok response then Returns (Inr (response, HeartbeatOk), w1)
                   else case settle_alert v response session_id w1 of
                          Panics \<Rightarrow> Panics
                        | Diverges \<Rightarrow> Diverges
                        | Returns (status, w2) \<Rightarrow> Returns (Inr (response, status), w2))"

text \<open>\<open>run_once_internal\<close>: the gate is \<open>None\<close> when there is none; a permit that was taken is back on every
  way out.\<close>

definition run_once_internal ::
  "'w heartbeat_env \<Rightarrow> turn_gate option \<Rightarrow> 'w \<Rightarrow> ((anyhow_error, string \<times> heartbeat_status) res \<times> 'w) outcome" where
  "run_once_internal v gate w =
     (if pred_option is_busy gate \<and> gate \<noteq> None then Returns (Inr (HEARTBEAT_OK_TOKEN, Skipped), w)
      else case lock_try_acquire (hv_try_lock v w) of
             Inl e \<Rightarrow> Returns (Inl e, w)
           | Inr False \<Rightarrow> Returns (Inr (HEARTBEAT_OK_TOKEN, Skipped), w)
           | Inr True \<Rightarrow>
               if pred_option (\<lambda>g. fst (gate_try_acquire (hv_meanwhile v g))) gate then heartbeat_work v w
               else Returns (Inr (HEARTBEAT_OK_TOKEN, Skipped), w))"

definition preview_of :: "string \<Rightarrow> string option" where
  "preview_of response =
     (if 200 < length response then map_option (\<lambda>p. p @ ''...'') (slice_to 200 response) else Some response)"

text \<open>\<open>run_once\<close>: the event it leaves behind comes second.\<close>

definition run_once ::
  "'w heartbeat_env \<Rightarrow> turn_gate option \<Rightarrow> 'w \<Rightarrow> ((anyhow_error, string) res \<times> heartbeat_event \<times> 'w) outcome" where
  "run_once v gate w =
     (case run_once_internal v gate w of
        Panics \<Rightarrow> Panics
      | Diverges \<Rightarrow> Diverges
      | Returns (Inr (response, status), w1) \<Rightarrow>
          (case preview_of response of
             None \<Rightarrow> Panics
           | Some p \<Rightarrow>
               Returns (Inr response,
                 \<lparr>he_ts = hv_now v w1, he_status = status, he_duration_ms = hv_elapsed v w w1,
                  he_preview = Some p, he_reason = None\<rparr>, w1))
      | Returns (Inl e, w1) \<Rightarrow>
          Returns (Inl e,
            \<lparr>he_ts = hv_now v w1, he_status = Failed, he_duration_ms = hv_elapsed v w w1,
             he_preview = None, he_reason = Some (hv_display v e)\<rparr>, w1))"

text \<open>One round of \<open>run\<close>, after the sleep, and the rounds one after the other: \<open>gates\<close> has the gate at the
  start of each round and \<open>sleep\<close> is what happens in the world meanwhile. A panic ends the task.\<close>

definition heartbeat_round ::
  "'w heartbeat_env \<Rightarrow> heartbeat_settings \<Rightarrow> turn_gate option \<Rightarrow> 'w \<Rightarrow> (heartbeat_event \<times> 'w) outcome" where
  "heartbeat_round v hs gate w =
     (if \<not> in_active_hours hs (hv_clock v w)
      then Returns (\<lparr>he_ts = hv_now v w, he_status = Skipped, he_duration_ms = 0, he_preview = None,
                     he_reason = Some ''outside active hours''\<rparr>, w)
      else case run_once v gate w of
             Panics \<Rightarrow> Panics | Diverges \<Rightarrow> Diverges | Returns (_, ev, w1) \<Rightarrow> Returns (ev, w1))"

fun heartbeat_rounds ::
  "'w heartbeat_env \<Rightarrow> heartbeat_settings \<Rightarrow> (u64 \<Rightarrow> 'w \<Rightarrow> 'w) \<Rightarrow> turn_gate option list \<Rightarrow> 'w
   \<Rightarrow> (heartbeat_event list \<times> 'w) outcome" where
  "heartbeat_rounds v hs sleep [] w = Returns ([], w)"
| "heartbeat_rounds v hs sleep (g # gs) w =
     (case heartbeat_round v hs g (sleep (hs_interval hs) w) of
        Panics \<Rightarrow> Panics
      | Diverges \<Rightarrow> Diverges
      | Returns (ev, w1) \<Rightarrow>
          (case heartbeat_rounds v hs sleep gs w1 of
             Panics \<Rightarrow> Panics | Diverges \<Rightarrow> Diverges | Returns (evs, w2) \<Rightarrow> Returns (ev # evs, w2)))"

subsection \<open>Settings\<close>

definition printed_items :: "(nat \<times> char) list \<Rightarrow> string" where
  "printed_items items = concat (map (\<lambda>(n, u). show_nat n @ [u]) items)"

definition item_seconds :: "nat \<times> char \<Rightarrow> nat" where
  "item_seconds i = fst i * unat (the (unit_seconds [snd i]))"

definition item_ok :: "nat \<times> char \<Rightarrow> bool" where
  "item_ok i \<longleftrightarrow> fst i < 2 ^ 64 \<and> snd i \<in> set ''smhd''"

lemma duration_loop_digits:
  "list_all is_ascii_digit ds \<Longrightarrow>
   duration_loop s cur acc (map (\<lambda>c. [c]) ds @ rest) = duration_loop s (cur @ ds) acc rest"
  by (induction ds arbitrary: cur) simp_all

lemma duration_loop_item:
  assumes "item_ok i"
  shows "duration_loop s [] acc (map (\<lambda>c. [c]) (show_nat (fst i) @ [snd i]) @ rest)
    = duration_loop s [] (acc + of_nat (item_seconds i)) rest"
proof -
  have num: "parse_uint (2 ^ 64 - 1) (show_nat (fst i)) = Some (fst i)"
    using assms by (intro parse_uint_show_nat) (simp add: item_ok_def)
  have "snd i = CHR ''s'' \<or> snd i = CHR ''m'' \<or> snd i = CHR ''h'' \<or> snd i = CHR ''d''"
    using assms by (simp add: item_ok_def)
  then show ?thesis
    using duration_loop_digits [OF show_nat_digits, of s "[]" acc "fst i" "[snd i] # rest"] num
    by (auto simp: item_seconds_def unit_seconds_def is_ascii_digit_def)
qed

lemma duration_loop_items:
  assumes "list_all item_ok items" and "list_all is_ascii_digit ds"
  shows "duration_loop s [] acc (map (\<lambda>c. [c]) (printed_items items @ ds))
    = Inr (acc + of_nat (sum_list (map item_seconds items)))"
  using assms(1)
proof (induction items arbitrary: acc)
  case Nil
  then show ?case
    using duration_loop_digits [OF assms(2), of s "[]" acc "[]"] by (simp add: printed_items_def)
next
  case (Cons i items)
  then show ?case
    using duration_loop_item [of i s acc "map (\<lambda>c. [c]) (printed_items items @ ds)"]
    by (simp add: printed_items_def case_prod_unfold add.assoc)
qed

lemma digits_not_cont: "list_all is_ascii_digit ds \<Longrightarrow> c \<in> set ds \<Longrightarrow> \<not> is_cont_byte c"
proof -
  assume "list_all is_ascii_digit ds" "c \<in> set ds"
  then have "is_ascii_digit c" by (simp add: list_all_iff)
  then show ?thesis by (auto simp: is_ascii_digit_def is_cont_byte_def)
qed

lemma printed_items_ascii:
  assumes "list_all item_ok items" and "list_all is_ascii_digit ds"
  shows "\<forall>c \<in> set (printed_items items @ ds). \<not> is_cont_byte c"
proof -
  have unit: "\<not> is_cont_byte (snd i)" if "item_ok i" for i
    using that by (auto simp: item_ok_def is_cont_byte_def)
  have item: "\<not> is_cont_byte c" if "item_ok i" and "c \<in> set (show_nat (fst i) @ [snd i])" for c i
    using that unit [OF that(1)] digits_not_cont [OF show_nat_digits] by auto
  show ?thesis
    using assms item digits_not_cont [OF assms(2)] by (fastforce simp: printed_items_def list_all_iff)
qed

text \<open>A duration written as any sequence of numbers with the units for seconds, minutes, hours and days
  is read as the sum of its parts, reduced modulo two to the 64 in the release build; a sum of zero is
  refused. Digits at the end that have no unit are dropped without an error.\<close>

theorem parse_duration_sum:
  assumes "list_all item_ok items" and "list_all is_ascii_digit ds"
  shows "parse_duration (printed_items items @ ds) =
    (let t = of_nat (sum_list (map item_seconds items)) in
     if t = 0 then Inl (''Invalid duration: '' @ printed_items items @ ds) else Inr t)"
  using duration_loop_items [OF assms, of "printed_items items @ ds" 0] chars_ascii [OF printed_items_ascii [OF assms]]
  by (simp add: parse_duration_def Let_def)

theorem parse_duration_sum_witness:
  "parse_duration (printed_items [(1, CHR ''h''), (30, CHR ''m'')]) = Inr 5400
   \<and> parse_duration (printed_items [(1, CHR ''h'')] @ ''30'') = Inr 3600
   \<and> parse_duration (printed_items [(2 ^ 64 - 1, CHR ''s''), (31, CHR ''s'')]) = Inr 30"
  using parse_duration_sum [of "[(1, CHR ''h''), (30, CHR ''m'')]" "[]"]
    parse_duration_sum [of "[(1, CHR ''h'')]" "''30''"]
    parse_duration_sum [of "[(2 ^ 64 - 1, CHR ''s''), (31, CHR ''s'')]" "[]"]
  by (simp add: item_ok_def item_seconds_def unit_seconds_def is_ascii_digit_def)

lemma parse_time_range: "parse_time s = Inr (h, m) \<Longrightarrow> h \<le> 23 \<and> m \<le> 59"
  by (auto simp: parse_time_def Let_def res_simps split: if_splits)

definition day_ns :: nat where
  "day_ns = 86400 * 10 ^ 9"

lemma from_hms_day: "h \<le> 23 \<and> m \<le> 59 \<Longrightarrow> \<exists>t. from_hms (h, m) = Some t \<and> t < day_ns"
  by (auto simp: from_hms_def day_ns_def)

text \<open>C37: Reading the settings of the heartbeat never panics: the times of day the parser accepts are
  times of day for the clock as well, and the interval of settings that are accepted is never zero, so
  that the loop sleeps between two rounds.\<close>

theorem heartbeat_settings_safe:
  "case heartbeat_settings_of interval hours of
     None \<Rightarrow> False
   | Some (Inl e) \<Rightarrow> True
   | Some (Inr hs) \<Rightarrow> hs_interval hs \<noteq> 0
       \<and> pred_option (\<lambda>(start, stop). start < day_ns \<and> stop < day_ns) (hs_active_hours hs)"
proof -
  have active: "case active_hours_of hs of Inl e \<Rightarrow> True | Inr None \<Rightarrow> False
      | Inr (Some (start, stop)) \<Rightarrow> start < day_ns \<and> stop < day_ns" for hs
  proof (cases "parse_time (fst hs)"; cases "parse_time (snd hs)")
    fix a b
    assume t: "parse_time (fst hs) = Inr a" "parse_time (snd hs) = Inr b"
    obtain x y where "from_hms a = Some x" "x < day_ns" "from_hms b = Some y" "y < day_ns"
      using t parse_time_range from_hms_day by (metis prod.collapse)
    with t show ?thesis by (simp add: active_hours_of_def with_context_def)
  qed (simp_all add: active_hours_of_def with_context_def)
  have nonzero: "parse_duration interval = Inr t \<Longrightarrow> t \<noteq> 0" for t
    by (auto simp: parse_duration_def res_simps split: if_splits)
  show ?thesis
    using active [of "the hours"] nonzero
    by (auto simp: heartbeat_settings_of_def with_context_def split: sum.splits option.splits prod.splits)
qed

text \<open>The active hours are a window on the circle of the day, whether or not it contains midnight: the
  current time is inside exactly when it is no further after the start than the end is.\<close>

theorem active_hours_window:
  assumes "hs_active_hours hs = Some (start, stop)" and "start < day_ns" and "stop < day_ns" and "now < day_ns"
  shows "in_active_hours hs now \<longleftrightarrow> (int now - int start) mod int day_ns \<le> (int stop - int start) mod int day_ns"
proof -
  have dist: "(int x - int start) mod int day_ns = (if start \<le> x then int x - int start else int x - int start + int day_ns)"
    if "x < day_ns" for x
  proof (cases "start \<le> x")
    case True
    then show ?thesis using that by (simp add: mod_pos_pos_trivial)
  next
    case False
    then have "(int x - int start + int day_ns) mod int day_ns = int x - int start + int day_ns"
      using assms(2) by (intro mod_pos_pos_trivial) auto
    then show ?thesis using False by simp
  qed
  show ?thesis
    unfolding dist [OF assms(3)] dist [OF assms(4)] in_active_hours_def
    using assms by auto
qed

theorem active_hours_window_witness:
  "in_active_hours \<lparr>hs_interval = 60, hs_active_hours = Some (22 * 3600 * 10 ^ 9, 6 * 3600 * 10 ^ 9)\<rparr> (10 ^ 9)"
  using active_hours_window [of "\<lparr>hs_interval = 60, hs_active_hours = Some (22 * 3600 * 10 ^ 9, 6 * 3600 * 10 ^ 9)\<rparr>"
      "22 * 3600 * 10 ^ 9" "6 * 3600 * 10 ^ 9" "10 ^ 9"]
  by (simp add: day_ns_def)

subsection \<open>Alerts\<close>

text \<open>A run that reaches the model has found the gate free twice and the lock free; every other run leaves
  the world as it is and answers that all is well.\<close>

lemma run_once_internal_cases:
  "run_once_internal v gate w = heartbeat_work v w
   \<and> (\<forall>g. gate = Some g \<longrightarrow> 0 < g \<and> 0 < hv_meanwhile v g) \<and> hv_try_lock v w = Locked
   \<or> run_once_internal v gate w = Returns (Inr (HEARTBEAT_OK_TOKEN, Skipped), w)
   \<or> (\<exists>e. run_once_internal v gate w = Returns (Inl e, w))"
  by (cases gate; cases "hv_try_lock v w")
    (auto simp: run_once_internal_def lock_try_acquire_def is_busy_def gate_try_acquire_def gate_acquire_def)

lemma load_and_update_Some:
  "load_and_update fmt u (load_store fmt file) file = Some (print_store fmt (apply_update u (load_store fmt file)))"
  by (simp add: load_and_update_def load_store_def read_entries_def split: option.splits)

lemma heartbeat_entry:
  "\<exists>e. apply_update (heartbeat_update now sid r) es ''heartbeat'' = Some e
    \<and> last_heartbeat_text e = Some r \<and> last_heartbeat_sent_at e = Some now"
  by (auto simp: apply_update_def heartbeat_update_def store_get_or_create_def record_heartbeat_def Let_def
      split: option.splits)

lemma duplicate_iff:
  assumes "last_heartbeat_text e = Some r" and "last_heartbeat_sent_at e = Some sent"
  shows "is_duplicate_heartbeat now r' e \<longleftrightarrow> r' = r \<and> unat now < unat sent + 86400000"
proof -
  have "unat (now - sent) = unat now - unat sent" if "sent \<le> now"
    using that by (rule unat_sub)
  then show ?thesis
    using assms by (auto simp: is_duplicate_heartbeat_def saturating_sub_def DEDUP_WINDOW_MS_def
        word_le_nat_alt word_less_nat_alt)
qed

text \<open>An alert is sent once a day. When an alert has been sent and its record could be written, then,
  as long as the file with the record stays as it was written, another answer of the model is kept back if and
  only if it is the same text and less than 24 hours have gone by since; any other alert is sent.\<close>

theorem alert_once_a_day:
  fixes v :: "'w heartbeat_env"
  defines "recorded \<equiv> \<lambda>w file sid r.
      apply_update (heartbeat_update (hv_now v w) sid r) (load_store (hv_format v) file)"
  assumes sent: "settle_alert v r sid w = Returns (Sent, w1)"
    and read: "hv_sessions v w = Inr file"
    and parse: "parse_store (hv_format v) (print_store (hv_format v) (recorded w file sid r)) = Some (recorded w file sid r)"
    and save: "\<forall>t. hv_sessions v (snd (hv_save v t w)) = Inr (Some t)"
    and kept: "hv_sessions v w2 = hv_sessions v w1"
    and quiet: "\<not> hv_debug v"
  shows "\<exists>w3. settle_alert v r' sid' w2 =
    Returns (if r' = r \<and> unat (hv_now v w2) < unat (hv_now v w) + 86400000 then Skipped else Sent, w3)"
proof -
  define es where "es = recorded w file sid r"
  obtain e where e: "es ''heartbeat'' = Some e" "last_heartbeat_text e = Some r"
    "last_heartbeat_sent_at e = Some (hv_now v w)"
    using heartbeat_entry unfolding es_def recorded_def by blast
  have "w1 = snd (hv_save v (print_store (hv_format v) es) w)"
    using sent read by (auto simp: settle_alert_def es_def recorded_def Let_def load_and_update_Some split: if_splits)
  then have "hv_sessions v w2 = Inr (Some (print_store (hv_format v) es))"
    using save kept by simp
  moreover have "load_store (hv_format v) (Some (print_store (hv_format v) es)) = es"
    using parse by (simp add: es_def load_store_def read_entries_def)
  ultimately show ?thesis
    using quiet duplicate_iff [OF e(2, 3)] e(1) by (simp add: settle_alert_def Let_def)
qed

definition alert_record :: entries where
  "alert_record = apply_update (heartbeat_update 5 ''s1'' ''Disk is full'') Map.empty"

definition alert_env :: "(string option \<times> u64) heartbeat_env" where
  "alert_env =
     \<lparr>hv_try_lock = \<lambda>w. Locked, hv_meanwhile = id, hv_heartbeat_md = \<lambda>w. Some (Inr ''Check the disk''),
      hv_new_agent = \<lambda>w. Inl (Msg ''no model'', w), hv_system_prompt = \<lambda>a w. ([], w), hv_memory = undefined,
      hv_fresh = undefined, hv_is_git = \<lambda>w. False,
      hv_format = \<lparr>parse_store = \<lambda>t. if t = ''recorded'' then Some alert_record else None, print_store = \<lambda>es. ''recorded''\<rparr>,
      hv_sessions = \<lambda>w. Inr (fst w), hv_save = \<lambda>t w. (Inr (), (Some t, snd w)), hv_now = snd,
      hv_elapsed = \<lambda>w w'. snd w' - snd w, hv_clock = \<lambda>w. 0, hv_display = \<lambda>e. ''error'', hv_debug = False\<rparr>"

theorem alert_once_a_day_witness:
  "(\<exists>w3. settle_alert alert_env ''Disk is full'' ''s2'' (Some ''recorded'', 1000) = Returns (Skipped, w3))
   \<and> (\<exists>w3. settle_alert alert_env ''Disk is fine'' ''s2'' (Some ''recorded'', 1000) = Returns (Sent, w3))
   \<and> (\<exists>w3. settle_alert alert_env ''Disk is full'' ''s2'' (Some ''recorded'', 86400005) = Returns (Sent, w3))"
proof -
  have sent: "settle_alert alert_env ''Disk is full'' ''s1'' (None, 5) = Returns (Sent, (Some ''recorded'', 5))"
    by (simp add: settle_alert_def alert_env_def load_store_def read_entries_def Let_def load_and_update_def)
  have env: "hv_sessions alert_env = (\<lambda>w. Inr (fst w))" "hv_save alert_env = (\<lambda>t w. (Inr (), (Some t, snd w)))"
    "hv_now alert_env = snd" "\<not> hv_debug alert_env"
    "print_store (hv_format alert_env) = (\<lambda>es. ''recorded'')"
    "parse_store (hv_format alert_env) ''recorded'' = Some alert_record"
    by (simp_all add: alert_env_def)
  have saved: "apply_update (heartbeat_update (snd (None :: string option, 5)) ''s1'' ''Disk is full'')
      (load_store (hv_format alert_env) None) = alert_record"
    by (simp add: alert_record_def load_store_def read_entries_def)
  have "\<exists>w3. settle_alert alert_env r' ''s2'' (Some ''recorded'', now) =
      Returns (if r' = ''Disk is full'' \<and> unat now < 5 + 86400000 then Skipped else Sent, w3)" for r' now
    using alert_once_a_day [OF sent, of None "(Some ''recorded'', now)" r' "''s2''"] unfolding env(1-3, 5, 6) saved
    using env(4) by simp
  from this [of "''Disk is full''" 1000] this [of "''Disk is fine''" 1000] this [of "''Disk is full''" 86400005]
  show ?thesis by simp
qed

text \<open>Without debug output a heartbeat that has an answer panics if and only if the answer is longer than
  200 bytes and its 200th byte falls inside a character, because the preview for the event is cut there.\<close>

theorem heartbeat_preview_panics:
  "run_once v gate w = Panics \<longleftrightarrow>
     run_once_internal v gate w = Panics
     \<or> (\<exists>response status w1. run_once_internal v gate w = Returns (Inr (response, status), w1)
          \<and> 200 < length response \<and> is_cont_byte (response ! 200))"
  by (auto simp: run_once_def preview_of_def slice_to_def is_char_boundary_def
      split: sum.splits prod.splits outcome.splits)

text \<open>The panic ends the task: the rounds that were still to come do not take place.\<close>

lemma round_panics:
  assumes "heartbeat_round v hs g (sleep (hs_interval hs) w) = Panics"
  shows "heartbeat_rounds v hs sleep (g # gs) w = Panics"
  using assms by simp

lemma internal_panics_only_debugging:
  assumes "\<not> hv_debug v"
  shows "run_once_internal v gate w \<noteq> Panics"
proof -
  have turn: "heartbeat_turn v w \<noteq> Panics" for w
    by (auto simp: heartbeat_turn_def Let_def split: sum.splits prod.splits option.splits)
  have settle: "settle_alert v r sid w \<noteq> Panics" for r sid w
    using assms by (auto simp: settle_alert_def Let_def split: sum.splits)
  have "heartbeat_work v w \<noteq> Panics"
    using turn [of w] settle
    by (auto simp: heartbeat_work_def split: option.splits sum.splits outcome.splits prod.splits)
  then show ?thesis using run_once_internal_cases [of v gate w] by auto
qed

end
