(* ===== verification/Memory_Index.thy ===== *)
theory Memory_Index
  imports Path_Policy "HOL-Library.Multiset"
begin

text \<open>
  The index of the memory files (\<^verbatim>\<open>src/src/memory/index.rs\<close>) and its upkeep (\<^verbatim>\<open>src/src/memory/mod.rs\<close>):
  cutting a text into overlapping chunks, the tables of the database with the statements the code runs on
  them, the query for the full-text search, the merge of two rankings and the generation of embeddings.

  A table is the list or the map of its rows; an \<open>INSERT\<close> of a row whose primary key is taken is an error
  and a transaction that fails leaves the database as it was. The full-text table is absent in
  a build without FTS5. The code ignores the result of the statements on the full-text table and on the
  vector table: \<open>db_fails\<close> tells which of them, one for each chunk, the database refuses. The hash, fresh identifiers, the embedding model, the ranking of the full-text engine
  and floating-point arithmetic are parameters.
\<close>

subsection \<open>Chunks\<close>

record chunk_info =
  ci_start :: u32
  ci_end :: u32
  ci_content :: string

definition line_chars :: "string \<Rightarrow> usize" where
  "line_chars l = of_nat (length l + 1)"

text \<open>The index at which the overlap starts: the lines are gone through from the last one. The lines are given
  in reverse; \<open>None\<close> is the loop that ends without a break.\<close>

fun overlap_start :: "usize \<Rightarrow> usize \<Rightarrow> string list \<Rightarrow> nat option" where
  "overlap_start overlap_chars overlap_len [] = None"
| "overlap_start overlap_chars overlap_len (l # ls) =
     (let len = overlap_len + line_chars l in
      if overlap_chars \<le> len then Some (length ls) else overlap_start overlap_chars len ls)"

fun chunk_loop ::
  "usize \<Rightarrow> usize \<Rightarrow> nat \<Rightarrow> nat \<Rightarrow> string list \<Rightarrow> nat \<Rightarrow> usize \<Rightarrow> string list \<Rightarrow> chunk_info list" where
  "chunk_loop target_chars overlap_chars n i [] start_line current_chars chunk_lines = []"
| "chunk_loop target_chars overlap_chars n i (l # ls) start_line current_chars chunk_lines =
     (let chunk_lines1 = chunk_lines @ [l];
          current_chars1 = current_chars + line_chars l
      in if target_chars \<le> current_chars1 \<or> i = n - 1
         then \<lparr>ci_start = of_nat (start_line + 1), ci_end = of_nat (i + 1), ci_content = join nl chunk_lines1\<rparr> #
              (case overlap_start overlap_chars 0 (rev chunk_lines1) of
                 Some j \<Rightarrow>
                   let chunk_lines2 = drop j chunk_lines1 in
                   chunk_loop target_chars overlap_chars n (Suc i) ls (start_line + j)
                     (sum_list (map line_chars chunk_lines2)) chunk_lines2
               | None \<Rightarrow> chunk_loop target_chars overlap_chars n (Suc i) ls (i + 1) 0 [])
         else chunk_loop target_chars overlap_chars n (Suc i) ls start_line current_chars1 chunk_lines1)"

definition chunk_text :: "string \<Rightarrow> usize \<Rightarrow> usize \<Rightarrow> chunk_info list" where
  "chunk_text t target_tokens overlap_tokens =
     (let ls = lines t in chunk_loop (target_tokens * 4) (overlap_tokens * 4) (length ls) 0 ls 0 0 [])"

text \<open>The chunk of the lines from \<open>a\<close> up to, and without, \<open>b\<close>, and sequences of such spans without a gap.\<close>

definition chunk_at :: "string list \<Rightarrow> nat \<times> nat \<Rightarrow> chunk_info" where
  "chunk_at ls = (\<lambda>(a, b). \<lparr>ci_start = of_nat (a + 1), ci_end = of_nat b, ci_content = join nl (drop a (take b ls))\<rparr>)"

fun covers :: "nat \<Rightarrow> nat \<Rightarrow> nat \<Rightarrow> (nat \<times> nat) list \<Rightarrow> bool" where
  "covers n a b [] = (b = n)"
| "covers n a b ((a', b') # spans) = (a \<le> a' \<and> a' \<le> b \<and> a' < b' \<and> b < b' \<and> b' \<le> n \<and> covers n a' b' spans)"

lemma overlap_start_less: "overlap_start oc acc ls = Some j \<Longrightarrow> j < length ls"
  by (induction ls arbitrary: acc) (auto simp: Let_def less_Suc_eq split: if_splits)

lemma chunk_loop_covers:
  assumes "all = take i all @ ls" and "start \<le> i" and "chunk_lines = drop start (take i all)" and "i \<le> length all"
    and "a \<le> start" and "start \<le> b" and "b \<le> i" and "ls = [] \<Longrightarrow> b = length all"
  shows "\<exists>spans. covers (length all) a b spans
    \<and> chunk_loop tc oc (length all) i ls start cur chunk_lines = map (chunk_at all) spans"
  using assms
proof (induction ls arbitrary: i start cur chunk_lines a b)
  case Nil
  then show ?case by (intro exI [of _ "[]"]) simp
next
  case (Cons l ls)
  have drop: "drop i all = l # ls"
    using Cons.prems(1, 4) by (metis append_eq_conv_conj length_take min.absorb2)
  then have i: "i < length all" by (metis drop_eq_Nil linorder_not_less list.distinct(1))
  have l: "all ! i = l" using drop i by (metis hd_drop_conv_nth list.sel(1))
  have all: "all = take (Suc i) all @ ls"
    using drop i by (metis append_take_drop_id drop_Suc list.sel(3) tl_drop)
  have lines1: "chunk_lines @ [l] = drop start (take (Suc i) all)"
    using Cons.prems(2, 3) i l by (simp add: take_Suc_conv_app_nth)
  have last: "ls = [] \<longleftrightarrow> Suc i = length all"
    using drop i by (metis Suc_lessI drop_Suc drop_eq_Nil le_refl linorder_not_less list.sel(3) tl_drop)
  define k where "k = (case overlap_start oc 0 (rev (chunk_lines @ [l])) of Some j \<Rightarrow> start + j | None \<Rightarrow> Suc i)"
  have "start + j \<le> Suc i" if "overlap_start oc 0 (rev (drop start (take (Suc i) all))) = Some j" for j
    using overlap_start_less [OF that] Cons.prems(2) i by simp
  then have k: "start \<le> k" "k \<le> Suc i"
    using Cons.prems(2) by (auto simp: k_def lines1 split: option.splits)
  show ?case
  proof (cases "tc \<le> cur + line_chars l \<or> i = length all - 1")
    case True
    define rest where "rest = drop k (take (Suc i) all)"
    have "\<exists>spans. covers (length all) start (Suc i) spans
      \<and> chunk_loop tc oc (length all) (Suc i) ls k c rest = map (chunk_at all) spans" for c
      using Cons.IH [OF all, of k rest start "Suc i"] k i last by (simp add: rest_def)
    moreover have "\<exists>c. chunk_loop tc oc (length all) i (l # ls) start cur chunk_lines =
        chunk_at all (start, Suc i) # chunk_loop tc oc (length all) (Suc i) ls k c rest"
      using True lines1
      by (auto simp: Let_def chunk_at_def k_def rest_def drop_drop add.commute split: option.splits)
    ultimately obtain spans where "covers (length all) start (Suc i) spans"
      "chunk_loop tc oc (length all) i (l # ls) start cur chunk_lines = map (chunk_at all) ((start, Suc i) # spans)"
      by fastforce
    then show ?thesis
      using Cons.prems i by (intro exI [of _ "(start, Suc i) # spans"]) simp
  next
    case False
    then have "ls \<noteq> []" using last i by auto
    with False Cons.IH [OF all, of start "chunk_lines @ [l]" a b] lines1 i Cons.prems
    show ?thesis by (simp add: Let_def)
  qed
qed

text \<open>C35: Cutting a file into chunks loses no line. Whatever the sizes of chunk and overlap, the chunks are the
  lines of a sequence of spans: the first one starts with the first line, each one starts inside or
  right after the one before and ends behind it, the last one ends with the last line, and the text and the
  line numbers of a chunk are those of its span.\<close>

theorem chunk_text_covers:
  "\<exists>spans. covers (length (lines t)) 0 0 spans
    \<and> chunk_text t target overlap = map (chunk_at (lines t)) spans"
  using chunk_loop_covers [of "lines t" 0 "lines t" 0 "[]" 0 0]
  by (auto simp: chunk_text_def Let_def)

text \<open>Even with an overlap of zero a chunk starts with the last line of the one before.\<close>

lemma zero_overlap_repeats: "ls \<noteq> [] \<Longrightarrow> overlap_start 0 0 (rev ls) = Some (length ls - 1)"
  by (cases ls rule: rev_cases) (simp_all add: Let_def)

subsection \<open>The tables\<close>

record file_row =
  fr_hash :: string
  fr_mtime :: int
  fr_size :: int

record chunk_row =
  cr_id :: string
  cr_path :: string
  cr_start :: u32
  cr_end :: u32
  cr_hash :: string
  cr_model :: string
  cr_text :: string
  cr_embedding :: string
  cr_updated_at :: int

record fts_row =
  ft_text :: string
  ft_id :: string
  ft_path :: string
  ft_start :: u32
  ft_end :: u32

text \<open>The statements whose result is not looked at, with the identifier of the chunk.\<close>

datatype index_statement = FtsInsert string | FtsDelete string | VecDelete string | VecInsert string

record 'e memory_db =
  db_has_fts :: bool
  db_has_vec :: bool
  db_files :: "string \<rightharpoonup> file_row"
  db_chunks :: "chunk_row list"
  db_fts :: "fts_row list"
  db_vec :: "string \<rightharpoonup> 'e"
  db_cache :: "((string \<times> string \<times> string \<times> string) \<times> string) list"
  db_fails :: "index_statement \<Rightarrow> bool"

definition chunks_for :: "string \<Rightarrow> 'e memory_db \<Rightarrow> chunk_row list" where
  "chunks_for path db = filter (\<lambda>c. cr_path c = path) (db_chunks db)"

definition delete_chunks_for_path :: "string \<Rightarrow> 'e memory_db \<Rightarrow> 'e memory_db" where
  "delete_chunks_for_path path db =
     (let chunk_ids = map cr_id (chunks_for path db) in
      db\<lparr>db_fts := filter (\<lambda>r. ft_id r \<notin> set chunk_ids \<or> db_fails db (FtsDelete (ft_id r))) (db_fts db),
         db_vec := (\<lambda>i. if i \<in> set chunk_ids \<and> \<not> db_fails db (VecDelete i) then None else db_vec db i),
         db_chunks := filter (\<lambda>c. cr_path c \<noteq> path) (db_chunks db)\<rparr>)"

definition fts_of :: "chunk_row \<Rightarrow> fts_row" where
  "fts_of c = \<lparr>ft_text = cr_text c, ft_id = cr_id c, ft_path = cr_path c, ft_start = cr_start c, ft_end = cr_end c\<rparr>"

text \<open>One row of \<open>chunks\<close> and its row of \<open>chunks_fts\<close>.\<close>

definition insert_chunk :: "chunk_row \<Rightarrow> 'e memory_db \<Rightarrow> (anyhow_error, 'e memory_db) res" where
  "insert_chunk c db =
     (if cr_id c \<in> set (map cr_id (db_chunks db)) then Inl (Msg ''UNIQUE constraint failed: chunks.id'')
      else Inr (db\<lparr>db_chunks := db_chunks db @ [c],
                   db_fts := (if db_has_fts db \<and> \<not> db_fails db (FtsInsert (cr_id c))
                              then db_fts db @ [fts_of c] else db_fts db)\<rparr>))"

fun insert_chunks :: "chunk_row list \<Rightarrow> 'e memory_db \<Rightarrow> (anyhow_error, 'e memory_db) res" where
  "insert_chunks [] db = Inr db"
| "insert_chunks (c # cs) db = bind_res (insert_chunk c db) (insert_chunks cs)"

definition new_row :: "(string \<Rightarrow> string) \<Rightarrow> int \<Rightarrow> string \<Rightarrow> string \<Rightarrow> chunk_info \<Rightarrow> chunk_row" where
  "new_row hash now path i ci =
     \<lparr>cr_id = i, cr_path = path, cr_start = ci_start ci, cr_end = ci_end ci, cr_hash = hash (ci_content ci),
      cr_model = [], cr_text = ci_content ci, cr_embedding = [], cr_updated_at = now\<rparr>"

record index_config =
  ix_chunk_size :: usize
  ix_chunk_overlap :: usize

text \<open>\<open>index_file\<close> on the text of a file; \<open>uuids k\<close> is the identifier drawn for chunk \<open>k\<close>.\<close>

definition index_file ::
  "(string \<Rightarrow> string) \<Rightarrow> index_config \<Rightarrow> (nat \<Rightarrow> string) \<Rightarrow> int \<Rightarrow> string \<Rightarrow> string \<Rightarrow> int \<Rightarrow> int \<Rightarrow> bool \<Rightarrow> 'e memory_db
   \<Rightarrow> (anyhow_error, bool) res \<times> 'e memory_db" where
  "index_file hash cfg uuids now path txt mtime bytes force db =
     (if \<not> force \<and> map_option fr_hash (db_files db path) = Some (hash txt) then (Inr False, db)
      else
        let db1 = db\<lparr>db_files := (db_files db)(path \<mapsto> \<lparr>fr_hash = hash txt, fr_mtime = mtime, fr_size = bytes\<rparr>)\<rparr>;
            db2 = delete_chunks_for_path path db1;
            chunks = chunk_text txt (ix_chunk_size cfg) (ix_chunk_overlap cfg)
        in case insert_chunks (map2 (new_row hash now path) (map uuids [0..<length chunks]) chunks) db2 of
             Inl e \<Rightarrow> (Inl e, db)
           | Inr db3 \<Rightarrow> (Inr True, db3))"

definition remove_file :: "string \<Rightarrow> 'e memory_db \<Rightarrow> 'e memory_db" where
  "remove_file path db =
     (let db1 = delete_chunks_for_path path db in db1\<lparr>db_files := (db_files db1)(path := None)\<rparr>)"

definition store_embedding ::
  "('e \<Rightarrow> string) \<Rightarrow> int \<Rightarrow> string \<Rightarrow> 'e \<Rightarrow> string \<Rightarrow> 'e memory_db \<Rightarrow> 'e memory_db" where
  "store_embedding serialize now chunk_id embedding mdl db =
     (let db1 = db\<lparr>db_chunks := map (\<lambda>c. if cr_id c = chunk_id
             then c\<lparr>cr_embedding := serialize embedding, cr_model := mdl, cr_updated_at := now\<rparr> else c) (db_chunks db)\<rparr>
      in if db_has_vec db \<and> \<not> db_fails db (VecInsert chunk_id) then db1\<lparr>db_vec := (db_vec db1)(chunk_id \<mapsto> embedding)\<rparr> else db1)"

definition chunks_without_embeddings :: "nat \<Rightarrow> 'e memory_db \<Rightarrow> (string \<times> string) list" where
  "chunks_without_embeddings limit db =
     map (\<lambda>c. (cr_id c, cr_text c)) (take limit (filter (\<lambda>c. cr_embedding c = []) (db_chunks db)))"

text \<open>The cache has one row for each provider, model, key and hash; a lookup does not ask for the key.\<close>

definition get_cached_embedding :: "(string \<Rightarrow> 'e) \<Rightarrow> string \<Rightarrow> string \<Rightarrow> string \<Rightarrow> 'e memory_db \<Rightarrow> 'e option" where
  "get_cached_embedding deserialize prov mdl text_hash db =
     map_option (\<lambda>(k, j). deserialize j)
       (find (\<lambda>((p, m, key, h), j). p = prov \<and> m = mdl \<and> h = text_hash) (db_cache db))"

definition cache_embedding ::
  "('e \<Rightarrow> string) \<Rightarrow> string \<Rightarrow> string \<Rightarrow> string \<Rightarrow> string \<Rightarrow> 'e \<Rightarrow> 'e memory_db \<Rightarrow> 'e memory_db" where
  "cache_embedding serialize prov mdl prov_key text_hash embedding db =
     db\<lparr>db_cache := upsert (prov, mdl, prov_key, text_hash) (serialize embedding) (\<lambda>_. serialize embedding) (db_cache db)\<rparr>"

definition chunk_count :: "'e memory_db \<Rightarrow> nat" where
  "chunk_count db = length (db_chunks db)"

definition file_chunk_count :: "string \<Rightarrow> 'e memory_db \<Rightarrow> nat" where
  "file_chunk_count path db = length (chunks_for path db)"

definition embedded_chunk_count :: "string \<Rightarrow> 'e memory_db \<Rightarrow> nat" where
  "embedded_chunk_count mdl db = length (filter (\<lambda>c. cr_embedding c \<noteq> [] \<and> cr_model c = mdl) (db_chunks db))"

subsection \<open>The index is in order\<close>

definition db_ok :: "'e memory_db \<Rightarrow> bool" where
  "db_ok db \<longleftrightarrow> distinct (map cr_id (db_chunks db)) \<and> cr_path ` set (db_chunks db) \<subseteq> dom (db_files db)"

text \<open>What the full-text table has to do with the chunks: every row is that of a chunk; every chunk has its
  row; and the rows are those of the chunks, each once.\<close>

definition fts_sound :: "'e memory_db \<Rightarrow> bool" where
  "fts_sound db \<longleftrightarrow> set (db_fts db) \<subseteq> fts_of ` set (db_chunks db)"

definition fts_complete :: "'e memory_db \<Rightarrow> bool" where
  "fts_complete db \<longleftrightarrow> db_has_fts db \<longrightarrow> fts_of ` set (db_chunks db) \<subseteq> set (db_fts db)"

definition fts_agrees :: "'e memory_db \<Rightarrow> bool" where
  "fts_agrees db \<longleftrightarrow> db_fts db = (if db_has_fts db then map fts_of (db_chunks db) else [])"

definition deletes_work :: "'e memory_db \<Rightarrow> bool" where
  "deletes_work db \<longleftrightarrow> (\<forall>i. \<not> db_fails db (FtsDelete i))"

definition inserts_work :: "'e memory_db \<Rightarrow> bool" where
  "inserts_work db \<longleftrightarrow> (\<forall>i. \<not> db_fails db (FtsInsert i))"

lemma delete_keeps_fts:
  assumes "distinct (map cr_id cs)"
  shows "filter (\<lambda>r. ft_id r \<notin> cr_id ` {c \<in> set cs. cr_path c = path}) (map fts_of cs)
    = map fts_of (filter (\<lambda>c. cr_path c \<noteq> path) cs)"
proof -
  have "ft_id (fts_of c) \<notin> cr_id ` {c \<in> set cs. cr_path c = path} \<longleftrightarrow> cr_path c \<noteq> path" if "c \<in> set cs" for c
    using that assms by (auto simp: fts_of_def distinct_map inj_on_def)
  then have "filter (\<lambda>c. ft_id (fts_of c) \<notin> cr_id ` {c \<in> set cs. cr_path c = path}) cs = filter (\<lambda>c. cr_path c \<noteq> path) cs"
    by (intro filter_cong) auto
  then show ?thesis by (simp add: filter_map comp_def)
qed

lemma distinct_map_filter: "distinct (map f xs) \<Longrightarrow> distinct (map f (filter P xs))"
  by (induction xs) auto

lemma delete_ok:
  assumes "db_ok db"
  shows "db_ok (delete_chunks_for_path path db)"
    and "db_chunks (delete_chunks_for_path path db) = filter (\<lambda>c. cr_path c \<noteq> path) (db_chunks db)"
    and "db_files (delete_chunks_for_path path db) = db_files db"
  using assms
  by (auto simp: db_ok_def delete_chunks_for_path_def chunks_for_def Let_def distinct_map_filter)

lemma delete_same:
  "db_has_fts (delete_chunks_for_path path db) = db_has_fts db"
  "db_fails (delete_chunks_for_path path db) = db_fails db"
  by (simp_all add: delete_chunks_for_path_def Let_def)

lemma delete_fts:
  assumes "db_ok db"
  shows "deletes_work db \<Longrightarrow> fts_sound db \<Longrightarrow> fts_sound (delete_chunks_for_path path db)"
    and "fts_complete db \<Longrightarrow> fts_complete (delete_chunks_for_path path db)"
    and "deletes_work db \<Longrightarrow> fts_agrees db \<Longrightarrow> fts_agrees (delete_chunks_for_path path db)"
proof -
  have dist: "distinct (map cr_id (db_chunks db))" using assms by (simp add: db_ok_def)
  have fts: "db_fts (delete_chunks_for_path path db)
      = filter (\<lambda>r. ft_id r \<notin> cr_id ` {c \<in> set (db_chunks db). cr_path c = path} \<or> db_fails db (FtsDelete (ft_id r))) (db_fts db)"
    by (simp add: delete_chunks_for_path_def chunks_for_def Let_def)
  show "deletes_work db \<Longrightarrow> fts_sound db \<Longrightarrow> fts_sound (delete_chunks_for_path path db)"
    unfolding fts_sound_def fts delete_ok(2) [OF assms]
  proof
    fix r
    assume d: "deletes_work db" and "set (db_fts db) \<subseteq> fts_of ` set (db_chunks db)"
      and r: "r \<in> set (filter (\<lambda>r. ft_id r \<notin> cr_id ` {c \<in> set (db_chunks db). cr_path c = path}
        \<or> db_fails db (FtsDelete (ft_id r))) (db_fts db))"
    then obtain c where c: "c \<in> set (db_chunks db)" "r = fts_of c" by auto
    then have "cr_path c \<noteq> path" using d r by (auto simp: deletes_work_def fts_of_def)
    with c show "r \<in> fts_of ` set (filter (\<lambda>c. cr_path c \<noteq> path) (db_chunks db))" by auto
  qed
  show "fts_complete db \<Longrightarrow> fts_complete (delete_chunks_for_path path db)"
    unfolding fts_complete_def fts delete_ok(2) [OF assms] delete_same
    using dist by (auto simp: fts_of_def image_iff distinct_map inj_on_def)
  show "deletes_work db \<Longrightarrow> fts_agrees db \<Longrightarrow> fts_agrees (delete_chunks_for_path path db)"
    unfolding fts_agrees_def fts delete_ok(2) [OF assms] delete_same
    using delete_keeps_fts [OF dist, of path] by (simp add: deletes_work_def)
qed

text \<open>A chunk whose row cannot be deleted is found by searches when it is gone.\<close>

lemma refused_delete_stays:
  assumes "fts_of c \<in> set (db_fts db)" and "db_fails db (FtsDelete (cr_id c))" and "cr_path c = path"
  shows "fts_of c \<in> set (db_fts (delete_chunks_for_path path db)) \<and> c \<notin> set (db_chunks (delete_chunks_for_path path db))"
  using assms by (simp add: delete_chunks_for_path_def Let_def) (simp add: fts_of_def)

definition fts_after :: "chunk_row list \<Rightarrow> 'e memory_db \<Rightarrow> fts_row list" where
  "fts_after cs db =
     (if db_has_fts db then map fts_of (filter (\<lambda>c. \<not> db_fails db (FtsInsert (cr_id c))) cs) else [])"

lemma insert_chunks_effect:
  "insert_chunks cs db = Inr db' \<Longrightarrow> distinct (map cr_id (db_chunks db)) \<Longrightarrow>
   distinct (map cr_id (db_chunks db'))
   \<and> db' = db\<lparr>db_chunks := db_chunks db @ cs, db_fts := db_fts db @ fts_after cs db\<rparr>"
proof (induction cs arbitrary: db)
  case Nil
  then show ?case by (simp add: fts_after_def)
next
  case (Cons c cs)
  obtain db1 where db1: "insert_chunk c db = Inr db1" "insert_chunks cs db1 = Inr db'"
    using Cons.prems(1) by (auto simp: res_simps)
  then have eq: "db1 = db\<lparr>db_chunks := db_chunks db @ [c], db_fts := db_fts db @ fts_after [c] db\<rparr>"
    and new: "cr_id c \<notin> set (map cr_id (db_chunks db))" by (auto simp: insert_chunk_def fts_after_def split: if_splits)
  have "distinct (map cr_id (db_chunks db1))" using new Cons.prems(2) by (simp add: eq)
  moreover have "fts_after cs db1 = fts_after cs db" by (simp add: eq fts_after_def)
  moreover have "fts_after (c # cs) db = fts_after [c] db @ fts_after cs db" by (simp add: fts_after_def)
  ultimately show ?case using Cons.IH [OF db1(2)] by (auto simp: eq simp del: distinct_append map_append)
qed

lemma insert_chunks_runs:
  "distinct (map cr_id cs) \<Longrightarrow> cr_id ` set cs \<inter> cr_id ` set (db_chunks db) = {} \<Longrightarrow> \<exists>db'. insert_chunks cs db = Inr db'"
proof (induction cs arbitrary: db)
  case (Cons c cs)
  define db1 where "db1 = db\<lparr>db_chunks := db_chunks db @ [c],
      db_fts := (if db_has_fts db \<and> \<not> db_fails db (FtsInsert (cr_id c)) then db_fts db @ [fts_of c] else db_fts db)\<rparr>"
  have "insert_chunk c db = Inr db1"
    using Cons.prems(2) by (auto simp: insert_chunk_def db1_def)
  moreover have "cr_id ` set cs \<inter> cr_id ` set (db_chunks db1) = {}"
    using Cons.prems by (auto simp: db1_def)
  ultimately show ?case
    using Cons.IH [of db1] Cons.prems(1) by simp
qed simp

lemma insert_chunks_fts:
  assumes "insert_chunks cs db = Inr db'" and "distinct (map cr_id (db_chunks db))"
  shows "fts_sound db \<Longrightarrow> fts_sound db'" "inserts_work db \<Longrightarrow> fts_complete db \<Longrightarrow> fts_complete db'"
    "inserts_work db \<Longrightarrow> fts_agrees db \<Longrightarrow> fts_agrees db'"
  using insert_chunks_effect [OF assms]
  by (auto simp: fts_sound_def fts_complete_def fts_agrees_def fts_after_def inserts_work_def)

lemma insert_chunks_ok:
  assumes "db_ok db" and "distinct (map cr_id cs)" and "cr_id ` set cs \<inter> cr_id ` set (db_chunks db) = {}"
    and "cr_path ` set cs \<subseteq> dom (db_files db)"
  shows "\<exists>db'. insert_chunks cs db = Inr db' \<and> db_ok db' \<and> db_chunks db' = db_chunks db @ cs \<and> db_files db' = db_files db"
proof -
  obtain db' where db': "insert_chunks cs db = Inr db'" using insert_chunks_runs [OF assms(2, 3)] by blast
  have "distinct (map cr_id (db_chunks db))" using assms(1) by (simp add: db_ok_def)
  note e = insert_chunks_effect [OF db' this]
  then have "db_chunks db' = db_chunks db @ cs" "db_files db' = db_files db" by (metis memory_db.select_convs memory_db.surjective memory_db.update_convs)+
  moreover have "cr_path ` set (db_chunks db @ cs) \<subseteq> dom (db_files db)" using assms(1, 4) by (auto simp: db_ok_def)
  ultimately have "db_ok db'" using e unfolding db_ok_def by (metis (no_types))
  then show ?thesis
    using db' \<open>db_chunks db' = db_chunks db @ cs\<close> \<open>db_files db' = db_files db\<close> by blast
qed

lemma map_new_row:
  "length is = length cis \<Longrightarrow>
    map cr_id (map2 (new_row hash now path) is cis) = is
    \<and> cr_path ` set (map2 (new_row hash now path) is cis) \<subseteq> {path}"
  by (induction "is" cis rule: list_induct2) (auto simp: new_row_def)

definition infos :: "chunk_row list \<Rightarrow> chunk_info list" where
  "infos = map (\<lambda>c. \<lparr>ci_start = cr_start c, ci_end = cr_end c, ci_content = cr_text c\<rparr>)"

definition chunk_ids :: "'e memory_db \<Rightarrow> string set" where
  "chunk_ids db = cr_id ` set (db_chunks db)"

text \<open>With identifiers that are new and all different, indexing succeeds and says whether there was something to do.
  It is left out only when the stored hash is that of the text. Otherwise the chunks of the path are afterwards
  exactly those of the text, and the other files are as they were.\<close>

lemma index_file_spec:
  assumes "db_ok db" and "inj uuids" and "range uuids \<inter> chunk_ids db = {}"
  shows "\<exists>changed db'. index_file hash cfg uuids now path txt mtime bytes force db = (Inr changed, db')
    \<and> db_ok db' \<and> changed = (force \<or> map_option fr_hash (db_files db path) \<noteq> Some (hash txt))
    \<and> map_option fr_hash (db_files db' path) = Some (hash txt) \<and> chunk_ids db' \<subseteq> chunk_ids db \<union> range uuids
    \<and> (\<forall>p. p \<noteq> path \<longrightarrow> db_files db' p = db_files db p \<and> chunks_for p db' = chunks_for p db)
    \<and> (if changed then infos (chunks_for path db') = chunk_text txt (ix_chunk_size cfg) (ix_chunk_overlap cfg)
       else db' = db)"
proof (cases "\<not> force \<and> map_option fr_hash (db_files db path) = Some (hash txt)")
  case True
  then show ?thesis using assms(1) by (intro exI [of _ False] exI [of _ db]) (auto simp: index_file_def)
next
  case False
  define db1 where "db1 = db\<lparr>db_files := (db_files db)(path \<mapsto> \<lparr>fr_hash = hash txt, fr_mtime = mtime, fr_size = bytes\<rparr>)\<rparr>"
  define db2 where "db2 = delete_chunks_for_path path db1"
  define chunks where "chunks = chunk_text txt (ix_chunk_size cfg) (ix_chunk_overlap cfg)"
  define rows where "rows = map2 (new_row hash now path) (map uuids [0..<length chunks]) chunks"
  have ok1: "db_ok db1" using assms(1) by (auto simp: db_ok_def db1_def)
  note db2 = delete_ok [OF ok1, of path, folded db2_def]
  have rows: "map cr_id rows = map uuids [0..<length chunks]" "cr_path ` set rows \<subseteq> {path}"
    unfolding rows_def using map_new_row [of "map uuids [0..<length chunks]" chunks hash now path] by auto
  have "distinct (map cr_id rows)"
    using assms(2) by (simp add: rows(1) distinct_map inj_on_def)
  moreover have ids: "cr_id ` set rows \<subseteq> range uuids" using rows(1) by (metis image_mono image_set subset_UNIV)
  then have "cr_id ` set rows \<inter> cr_id ` set (db_chunks db2) = {}"
    using assms(3) by (auto simp: chunk_ids_def db2(2) db1_def)
  moreover have "cr_path ` set rows \<subseteq> dom (db_files db2)" using rows(2) by (auto simp: db2(3) db1_def)
  ultimately obtain db3 where db3: "insert_chunks rows db2 = Inr db3" "db_ok db3" "db_chunks db3 = db_chunks db2 @ rows"
    "db_files db3 = db_files db2"
    using insert_chunks_ok [OF db2(1)] by blast
  have run: "index_file hash cfg uuids now path txt mtime bytes force db = (Inr True, db3)"
    using False db3(1) by (auto simp: index_file_def Let_def db1_def db2_def rows_def chunks_def)
  have path: "cr_path c = path" if "c \<in> set rows" for c using that rows(2) by auto
  have "chunks_for path db3 = rows"
    using path by (simp add: chunks_for_def db3(3) db2(2) filter_id_conv)
  moreover have "infos rows = chunks"
    unfolding rows_def infos_def by (rule nth_equalityI) (simp_all add: new_row_def)
  moreover have "chunks_for p db3 = chunks_for p db" if "p \<noteq> path" for p
    using that path by (auto simp: chunks_for_def db3(3) db2(2) db1_def filter_empty_conv intro: filter_cong)
  moreover have "db_files db3 = (db_files db)(path \<mapsto> \<lparr>fr_hash = hash txt, fr_mtime = mtime, fr_size = bytes\<rparr>)"
    by (simp add: db3(4) db2(3) db1_def)
  moreover have "chunk_ids db3 \<subseteq> chunk_ids db \<union> range uuids"
    using ids by (auto simp: chunk_ids_def db3(3) db2(2) db1_def)
  ultimately show ?thesis
    using run db3(2) False chunks_def by auto
qed

definition empty_db :: "unit memory_db" where
  "empty_db = \<lparr>db_has_fts = True, db_has_vec = False, db_files = Map.empty, db_chunks = [], db_fts = [],
     db_vec = Map.empty, db_cache = [], db_fails = (\<lambda>_. False)\<rparr>"

lemma remove_file_ok:
  assumes "db_ok db"
  shows "db_ok (remove_file path db)" and "chunks_for path (remove_file path db) = []"
  using delete_ok [OF assms, of path]
  by (auto simp: remove_file_def Let_def db_ok_def chunks_for_def filter_empty_conv)

lemma map_if_id: "map f (map (\<lambda>c. if P c then g c else c) cs) = map f cs" if "\<And>c. f (g c) = f c"
  using that by simp

lemma store_embedding_same:
  "db_has_fts (store_embedding ser now i e m db) = db_has_fts db" "db_fails (store_embedding ser now i e m db) = db_fails db"
  "db_fts (store_embedding ser now i e m db) = db_fts db"
  "map cr_id (db_chunks (store_embedding ser now i e m db)) = map cr_id (db_chunks db)"
  "map cr_path (db_chunks (store_embedding ser now i e m db)) = map cr_path (db_chunks db)"
  "map fts_of (db_chunks (store_embedding ser now i e m db)) = map fts_of (db_chunks db)"
  "db_files (store_embedding ser now i e m db) = db_files db"
  by (simp_all add: store_embedding_def Let_def comp_def fts_of_def if_distrib cong: if_cong)

lemma store_embedding_ok:
  assumes "db_ok db"
  shows "db_ok (store_embedding ser now i e m db)"
proof -
  let ?db = "store_embedding ser now i e m db"
  have "cr_path ` set (db_chunks ?db) = cr_path ` set (db_chunks db)"
    using store_embedding_same(5) by (metis list.set_map)
  then show ?thesis using assms by (simp add: db_ok_def store_embedding_same)
qed

text \<open>An embedding that arrives after its chunk was replaced leaves a row of the vector table without a chunk.\<close>

lemma late_embedding_orphan:
  assumes "db_has_vec db" and "\<not> db_fails db (VecInsert i)" and "\<forall>c \<in> set (db_chunks db). cr_id c \<noteq> i"
  shows "db_chunks (store_embedding ser now i e m db) = db_chunks db
    \<and> db_vec (store_embedding ser now i e m db) i = Some e"
  using assms by (auto simp: store_embedding_def Let_def intro: map_idI)

subsection \<open>Full-text queries\<close>

definition quote :: string where
  "quote = [CHR 0x22]"

definition query_tokens :: "(string \<Rightarrow> bool) \<Rightarrow> string \<Rightarrow> string list" where
  "query_tokens uni raw =
     (let word = (\<lambda>c. is_alphanumeric uni c \<or> c = ''_'') in
      filter (\<lambda>t. t \<noteq> []) (map trim (foldr (\<lambda>c acc. if word c then (c @ hd acc) # tl acc else [] # acc) (chars raw) [[]])))"

definition build_fts_query :: "(string \<Rightarrow> bool) \<Rightarrow> string \<Rightarrow> string option" where
  "build_fts_query uni raw =
     (let tokens = query_tokens uni raw in
      if tokens = [] then None
      else Some (join '' AND '' (map (\<lambda>t. quote @ filter (\<lambda>c. c \<noteq> CHR 0x22) t @ quote) tokens)))"

text \<open>Whatever the text, the query is the conjunction of quoted words, and no word contains the quote that would
  end it: what is typed is never read as an operator of the query language.\<close>

lemma fts_query_quoted:
  "build_fts_query uni raw = Some q \<Longrightarrow>
    \<exists>ts. ts \<noteq> [] \<and> q = join '' AND '' (map (\<lambda>t. quote @ t @ quote) ts) \<and> (\<forall>t \<in> set ts. CHR 0x22 \<notin> set t)"
  by (rule exI [of _ "map (filter (\<lambda>c. c \<noteq> CHR 0x22)) (query_tokens uni raw)"])
    (auto simp: build_fts_query_def Let_def comp_def split: if_splits)

subsection \<open>Embeddings\<close>

text \<open>What the code uses of an embedding model: its name, the batch call and the JSON of a vector.\<close>

record ('e, 'w) embedder =
  em_id :: string
  em_model :: string
  em_batch :: "string list \<Rightarrow> 'w \<Rightarrow> (anyhow_error, 'e list) res \<times> 'w"
  em_serialize :: "'e \<Rightarrow> string"
  em_deserialize :: "string \<Rightarrow> 'e"

definition split_cached ::
  "(string \<Rightarrow> string) \<Rightarrow> ('e, 'w) embedder \<Rightarrow> 'e memory_db \<Rightarrow> (string \<times> string) list
   \<Rightarrow> (string \<times> 'e) list \<times> (string \<times> string) list" where
  "split_cached hash em db chunks =
     (let look = (\<lambda>t. get_cached_embedding (em_deserialize em) (em_id em) (em_model em) (hash t) db) in
      (List.map_filter (\<lambda>(i, t). map_option (Pair i) (look t)) chunks, filter (\<lambda>(i, t). look t = None) chunks))"

definition store_all :: "('e, 'w) embedder \<Rightarrow> int \<Rightarrow> (string \<times> 'e) list \<Rightarrow> 'e memory_db \<Rightarrow> 'e memory_db" where
  "store_all em now = fold (\<lambda>(i, e). store_embedding (em_serialize em) now i e (em_model em))"

definition store_new ::
  "(string \<Rightarrow> string) \<Rightarrow> ('e, 'w) embedder \<Rightarrow> int \<Rightarrow> ((string \<times> string) \<times> 'e) list \<Rightarrow> 'e memory_db \<Rightarrow> 'e memory_db" where
  "store_new hash em now =
     fold (\<lambda>((i, t), e) db. cache_embedding (em_serialize em) (em_id em) (em_model em) [] (hash t) e
             (store_embedding (em_serialize em) now i e (em_model em) db))"

text \<open>One round of \<open>generate_embeddings\<close>: the numbers of chunks gone through and of embeddings stored, and
  whether there is another round.\<close>

definition embed_round ::
  "(string \<Rightarrow> string) \<Rightarrow> ('e, 'w) embedder \<Rightarrow> int \<Rightarrow> nat \<Rightarrow> (string \<times> string) list \<Rightarrow> nat \<times> nat \<Rightarrow> 'e memory_db \<Rightarrow> 'w
   \<Rightarrow> (nat \<times> nat) \<times> bool \<times> 'e memory_db \<times> 'w" where
  "embed_round hash em now batch_size chunks = (\<lambda>(processed, embedded) db w.
     let (from_cache, to_embed) = split_cached hash em db chunks;
         processed1 = processed + length chunks;
         db1 = store_all em now from_cache db;
         embedded1 = embedded + length from_cache;
         go_on = (batch_size \<le> length chunks)
     in if to_embed = [] then ((processed1, embedded1), go_on, db1, w)
        else case em_batch em (map snd to_embed) w of
               (Inl e, w1) \<Rightarrow> ((processed1, embedded1), False, db1, w1)
             | (Inr es, w1) \<Rightarrow>
                 let pairs = zip to_embed es
                 in ((processed1, embedded1 + length pairs), go_on, store_new hash em now pairs db1, w1))"

partial_function (option) embed_loop ::
  "(string \<Rightarrow> string) \<Rightarrow> ('e, 'w) embedder \<Rightarrow> int \<Rightarrow> nat \<Rightarrow> nat \<times> nat \<Rightarrow> 'e memory_db \<Rightarrow> 'w
   \<Rightarrow> ((nat \<times> nat) \<times> 'e memory_db \<times> 'w) option" where
  "embed_loop hash em now batch_size counts db w =
     (let chunks = chunks_without_embeddings batch_size db in
      if chunks = [] then Some (counts, db, w)
      else case embed_round hash em now batch_size chunks counts db w of
             (counts1, go_on, db1, w1) \<Rightarrow>
               if go_on then embed_loop hash em now batch_size counts1 db1 w1 else Some (counts1, db1, w1))"

definition generate_embeddings ::
  "(string \<Rightarrow> string) \<Rightarrow> ('e, 'w) embedder option \<Rightarrow> int \<Rightarrow> nat \<Rightarrow> 'e memory_db \<Rightarrow> 'w
   \<Rightarrow> ((nat \<times> nat) \<times> 'e memory_db \<times> 'w) option" where
  "generate_embeddings hash em now batch_size db w =
     (case em of None \<Rightarrow> Some ((0, 0), db, w) | Some m \<Rightarrow> embed_loop hash m now batch_size (0, 0) db w)"

definition missing :: "'e memory_db \<Rightarrow> string list" where
  "missing db = map cr_id (filter (\<lambda>c. cr_embedding c = []) (db_chunks db))"

lemma missing_store:
  assumes "ser e \<noteq> []"
  shows "missing (store_embedding ser now i e m db) = filter (\<lambda>j. j \<noteq> i) (missing db)"
proof -
  have "map cr_id (filter (\<lambda>c. cr_embedding c = [])
      (map (\<lambda>c. if cr_id c = i then c\<lparr>cr_embedding := ser e, cr_model := m, cr_updated_at := now\<rparr> else c) cs))
    = filter (\<lambda>j. j \<noteq> i) (map cr_id (filter (\<lambda>c. cr_embedding c = []) cs))" for cs :: "chunk_row list"
    using assms by (induction cs) auto
  then show ?thesis by (simp add: missing_def store_embedding_def Let_def)
qed

lemma missing_cache [simp]: "missing (cache_embedding ser p m k h e db) = missing db"
  by (simp add: missing_def cache_embedding_def)

lemma missing_store_all:
  assumes "\<forall>e. em_serialize em e \<noteq> []"
  shows "missing (store_all em now ies db) = filter (\<lambda>j. j \<notin> fst ` set ies) (missing db)"
  using assms
  by (induction ies arbitrary: db) (simp_all add: store_all_def missing_store case_prod_unfold)

lemma missing_store_new:
  assumes "\<forall>e. em_serialize em e \<noteq> []"
  shows "missing (store_new hash em now ps db) = filter (\<lambda>j. j \<notin> fst ` fst ` set ps) (missing db)"
  using assms
  by (induction ps arbitrary: db) (simp_all add: store_new_def missing_store case_prod_unfold)

lemma chunks_missing: "map fst (chunks_without_embeddings n db) = take n (missing db)"
  by (simp add: chunks_without_embeddings_def missing_def take_map comp_def)

lemma split_cached_ids:
  "split_cached hash em db chunks = (fc, te) \<Longrightarrow> fst ` set fc \<union> fst ` set te = fst ` set chunks"
  by (auto simp: split_cached_def Let_def map_filter_def image_iff split: prod.splits option.splits) force+

lemma round_progress:
  assumes "chunks = chunks_without_embeddings n db" and "chunks \<noteq> []"
    and "missing db' = filter (\<lambda>j. j \<notin> fst ` set chunks) (missing db)"
  shows "length (missing db') < length (missing db) \<and> (length chunks < n \<longrightarrow> missing db' = [])"
proof -
  have ids: "fst ` set chunks = set (take n (missing db))"
    using assms(1) chunks_missing [of n db] by (metis image_set)
  have len: "length chunks = length (take n (missing db))"
    using assms(1) chunks_missing [of n db] by (metis length_map)
  then have "take n (missing db) \<noteq> []" using assms(2) by (metis length_0_conv)
  then obtain x xs where m: "missing db = x # xs" and "x \<in> set (take n (missing db))" by (cases "missing db"; cases n) auto
  then have "length (missing db') < length (missing db)"
    using assms(3) ids by (auto simp: le_imp_less_Suc)
  moreover have "missing db' = []" if "length chunks < n"
    using that len assms(3) ids by (simp add: filter_empty_conv)
  ultimately show ?thesis by blast
qed

definition one_vector_each :: "('e, 'w) embedder \<Rightarrow> bool" where
  "one_vector_each em \<longleftrightarrow> (\<forall>e. em_serialize em e \<noteq> [])
     \<and> (\<forall>ts w. case fst (em_batch em ts w) of Inl e \<Rightarrow> True | Inr es \<Rightarrow> length es = length ts)"

lemma embed_round_progress:
  assumes "one_vector_each em" and chunks: "chunks = chunks_without_embeddings n db" "chunks \<noteq> []"
    and round: "embed_round hash em now n chunks counts db w = (counts1, go_on, db1, w1)"
  shows "(\<exists>ts v. \<not> is_ok (fst (em_batch em ts v))) \<and> \<not> go_on
    \<or> length (missing db1) < length (missing db) \<and> (\<not> go_on \<longrightarrow> missing db1 = [])"
proof -
  have ser: "\<forall>e. em_serialize em e \<noteq> []" using assms(1) by (simp add: one_vector_each_def)
  obtain fc te where sc: "split_cached hash em db chunks = (fc, te)" by fastforce
  note ids = split_cached_ids [OF sc]
  define dbc where "dbc = store_all em now fc db"
  have mc: "missing dbc = filter (\<lambda>j. j \<notin> fst ` set fc) (missing db)"
    by (simp add: dbc_def missing_store_all [OF ser])
  obtain r v where r: "em_batch em (map snd te) w = (r, v)" by fastforce
  consider (cached) "te = []" | (failure) e where "te \<noteq> []" "r = Inl e" | (fresh) es where "te \<noteq> []" "r = Inr es"
    by (cases r) auto
  then show ?thesis
  proof cases
    case cached
    then have "db1 = dbc" "go_on = (n \<le> length chunks)"
      using round sc by (auto simp: embed_round_def dbc_def Let_def split: prod.splits)
    moreover have "missing dbc = filter (\<lambda>j. j \<notin> fst ` set chunks) (missing db)" using mc ids cached by simp
    ultimately show ?thesis using round_progress [OF chunks, of dbc] by auto
  next
    case failure
    then have "\<not> is_ok (fst (em_batch em (map snd te) w))" using r by simp
    moreover have "\<not> go_on" using round sc failure r by (auto simp: embed_round_def Let_def split: prod.splits)
    ultimately show ?thesis by blast
  next
    case fresh
    then have db1: "db1 = store_new hash em now (zip te es) dbc" "go_on = (n \<le> length chunks)"
      using round sc r by (auto simp: embed_round_def dbc_def Let_def split: prod.splits)
    have "length es = length te"
      using assms(1) r fresh by (auto simp: one_vector_each_def dest!: spec [of _ "map snd te"] spec [of _ w])
    then have "fst ` set (zip te es) = set te" by (metis map_fst_zip set_map)
    then have "missing db1 = filter (\<lambda>j. j \<notin> fst ` set chunks) (missing db)"
      unfolding db1(1) missing_store_new [OF ser] mc ids [symmetric] by (simp add: conj_commute)
    from round_progress [OF chunks this] show ?thesis using db1(2) by auto
  qed
qed

text \<open>Generating embeddings comes to an end. If the model, whenever it answers, gives one vector for each text,
  the loop stops for every size of a batch, and when it has stopped every chunk has its embedding, unless the
  model reported an error on the way.\<close>

theorem generate_embeddings_ends:
  assumes "one_vector_each em" and "0 < batch_size"
  shows "\<exists>counts db' w'. generate_embeddings hash (Some em) now batch_size db w = Some (counts, db', w')
    \<and> (missing db' = [] \<or> (\<exists>ts v. \<not> is_ok (fst (em_batch em ts v))))"
proof -
  have "\<exists>counts' db' w'. embed_loop hash em now batch_size counts db w = Some (counts', db', w')
    \<and> (missing db' = [] \<or> (\<exists>ts v. \<not> is_ok (fst (em_batch em ts v))))" for counts db w
  proof (induction "length (missing db)" arbitrary: counts db w rule: less_induct)
    case less
    let ?chunks = "chunks_without_embeddings batch_size db"
    obtain counts1 go_on db1 w1 where round: "embed_round hash em now batch_size ?chunks counts db w = (counts1, go_on, db1, w1)"
      by (cases "embed_round hash em now batch_size ?chunks counts db w") auto
    show ?case
    proof (cases "?chunks = []")
      case True
      then have "missing db = []" using chunks_missing [of batch_size db] assms(2) by auto
      then show ?thesis using True by (simp add: embed_loop.simps [of hash em now batch_size counts db w])
    next
      case False
      then show ?thesis
        using embed_round_progress [OF assms(1) refl False round] round less [of db1 counts1 w1]
        by (auto simp: embed_loop.simps [of hash em now batch_size counts db w])
    qed
  qed
  then show ?thesis by (simp add: generate_embeddings_def)
qed

definition length_model :: "(nat, nat) embedder" where
  "length_model = \<lparr>em_id = ''test'', em_model = ''len'', em_batch = (\<lambda>ts w. (Inr (map length ts), Suc w)),
     em_serialize = show_nat, em_deserialize = digits_value 0\<rparr>"

definition two_chunks :: "nat memory_db" where
  "two_chunks = \<lparr>db_has_fts = True, db_has_vec = True, db_files = Map.empty,
     db_chunks = map (\<lambda>i. new_row id 0 ''a.md'' i \<lparr>ci_start = 1, ci_end = 1, ci_content = i\<rparr>) [''x'', ''yy''],
     db_fts = [], db_vec = Map.empty, db_cache = [], db_fails = (\<lambda>_. False)\<rparr>"

theorem generate_embeddings_ends_witness:
  "\<exists>counts db' w'. generate_embeddings id (Some length_model) 0 1 two_chunks 0 = Some (counts, db', w') \<and> missing db' = []"
proof -
  have "one_vector_each length_model" by (simp add: one_vector_each_def length_model_def)
  moreover have "is_ok (fst (em_batch length_model ts v))" for ts v by (simp add: length_model_def)
  ultimately show ?thesis
    using generate_embeddings_ends [of length_model 1 id 0 two_chunks 0] by auto
qed

subsection \<open>Search\<close>

text \<open>A score is of an arbitrary type; \<open>float_ops\<close> has the arithmetic on it: \<open>1.0 / (1.0 + rank)\<close>, the product with a
  weight, the sum and the comparison of the sort.\<close>

record 'f memory_chunk =
  mc_file :: string
  mc_start :: u32
  mc_end :: u32
  mc_content :: string
  mc_score :: 'f

record 'f float_ops =
  fl_rank :: "nat \<Rightarrow> 'f"
  fl_mul :: "'f \<Rightarrow> 'f \<Rightarrow> 'f"
  fl_add :: "'f \<Rightarrow> 'f \<Rightarrow> 'f"
  fl_le :: "'f \<Rightarrow> 'f \<Rightarrow> bool"

definition chunk_of_fts :: "fts_row \<Rightarrow> 'f \<Rightarrow> 'f memory_chunk" where
  "chunk_of_fts r sc = \<lparr>mc_file = ft_path r, mc_start = ft_start r, mc_end = ft_end r, mc_content = ft_text r, mc_score = sc\<rparr>"

text \<open>\<open>MemoryIndex::search\<close>: \<open>fts_match\<close> gives the rows that match, best first. Without the full-text table the
  statement cannot be prepared.\<close>

definition fts_search ::
  "(string \<Rightarrow> bool) \<Rightarrow> (string \<Rightarrow> fts_row list \<Rightarrow> (fts_row \<times> 'f) list) \<Rightarrow> string \<Rightarrow> nat \<Rightarrow> 'e memory_db
   \<Rightarrow> (anyhow_error, 'f memory_chunk list) res" where
  "fts_search uni fts_match query limit db =
     (case build_fts_query uni query of
        None \<Rightarrow> Inr []
      | Some q \<Rightarrow>
          if db_has_fts db then Inr (map (\<lambda>(r, sc). chunk_of_fts r sc) (take limit (fts_match q (db_fts db))))
          else Inl (Msg ''no such table: chunks_fts''))"

text \<open>\<open>search_vector_scan\<close>: \<open>sim\<close> is the similarity of two vectors, \<open>None\<close> for different lengths. The sort is
  stable and puts the greater score first.\<close>

definition sort_desc :: "('f \<Rightarrow> 'f \<Rightarrow> bool) \<Rightarrow> ('f \<times> 'a) list \<Rightarrow> ('f \<times> 'a) list" where
  "sort_desc le xs = foldr (\<lambda>x ys. takeWhile (\<lambda>y. \<not> le (fst y) (fst x)) ys @ x # dropWhile (\<lambda>y. \<not> le (fst y) (fst x)) ys) xs []"

definition search_vector_scan ::
  "'f float_ops \<Rightarrow> (string \<Rightarrow> 'e) \<Rightarrow> ('e \<Rightarrow> 'e \<Rightarrow> 'f option) \<Rightarrow> 'e \<Rightarrow> string \<Rightarrow> nat \<Rightarrow> 'e memory_db \<Rightarrow> 'f memory_chunk list" where
  "search_vector_scan fl deserialize sim query_embedding mdl limit db =
     map snd (take limit (sort_desc (fl_le fl) (List.map_filter
       (\<lambda>c. map_option (\<lambda>sc. (sc, \<lparr>mc_file = cr_path c, mc_start = cr_start c, mc_end = cr_end c, mc_content = cr_text c,
                                 mc_score = sc\<rparr>)) (sim query_embedding (deserialize (cr_embedding c))))
       (filter (\<lambda>c. cr_embedding c \<noteq> [] \<and> cr_model c = mdl) (db_chunks db)))))"

definition show_i32 :: "u32 \<Rightarrow> string" where
  "show_i32 n = show_int (sint n)"

definition chunk_key :: "'f memory_chunk \<Rightarrow> string" where
  "chunk_key c = mc_file c @ '':'' @ show_i32 (mc_start c) @ '':'' @ show_i32 (mc_end c)"

type_synonym 'f merged = "(string \<times> ('f \<times> 'f memory_chunk)) list"

definition merge_fts :: "'f float_ops \<Rightarrow> 'f \<Rightarrow> nat \<times> 'f memory_chunk \<Rightarrow> 'f merged \<Rightarrow> 'f merged" where
  "merge_fts fl text_weight rc m =
     put (chunk_key (snd rc)) (fl_mul fl (fl_rank fl (fst rc)) text_weight, snd rc) m"

definition merge_vector :: "'f float_ops \<Rightarrow> 'f \<Rightarrow> nat \<times> 'f memory_chunk \<Rightarrow> 'f merged \<Rightarrow> 'f merged" where
  "merge_vector fl vector_weight rc m =
     (let w = fl_mul fl (fl_rank fl (fst rc)) vector_weight; key = chunk_key (snd rc) in
      case map_of m key of
        Some (sc, old) \<Rightarrow> put key (fl_add fl sc w, old\<lparr>mc_score := fl_add fl sc w\<rparr>) m
      | None \<Rightarrow> put key (w, (snd rc)\<lparr>mc_score := w\<rparr>) m)"

text \<open>\<open>search_hybrid\<close> on the two lists of results; \<open>order\<close> is the order in which the hash map gives its values.\<close>

definition merge_results ::
  "'f float_ops \<Rightarrow> ('f merged \<Rightarrow> 'f merged) \<Rightarrow> 'f \<Rightarrow> 'f \<Rightarrow> 'f memory_chunk list \<Rightarrow> 'f memory_chunk list \<Rightarrow> nat \<Rightarrow> 'f memory_chunk list" where
  "merge_results fl order text_weight vector_weight fts vec limit =
     map snd (take limit (sort_desc (fl_le fl) (map snd (order
       (fold (merge_vector fl vector_weight) (enumerate 0 vec)
         (fold (merge_fts fl text_weight) (enumerate 0 fts) []))))))"

text \<open>The whole search. \<open>vec_fast\<close> is the query of the vector extension, \<open>None\<close> where it fails; \<open>emb\<close> the vector
  of the query, if there is a model.\<close>

record ('e, 'f) search_engine =
  sx_uni :: "string \<Rightarrow> bool"
  sx_fts :: "string \<Rightarrow> fts_row list \<Rightarrow> (fts_row \<times> 'f) list"
  sx_float :: "'f float_ops"
  sx_order :: "'f merged \<Rightarrow> 'f merged"
  sx_deserialize :: "string \<Rightarrow> 'e"
  sx_sim :: "'e \<Rightarrow> 'e \<Rightarrow> 'f option"
  sx_vec_fast :: "'e \<Rightarrow> string \<Rightarrow> nat \<Rightarrow> 'e memory_db \<Rightarrow> 'f memory_chunk list option"
  sx_text_weight :: 'f
  sx_vector_weight :: 'f

definition search_vector :: "('e, 'f) search_engine \<Rightarrow> 'e \<Rightarrow> string \<Rightarrow> nat \<Rightarrow> 'e memory_db \<Rightarrow> 'f memory_chunk list" where
  "search_vector sx e mdl limit db =
     (let scan = search_vector_scan (sx_float sx) (sx_deserialize sx) (sx_sim sx) e mdl limit db in
      if db_has_vec db then unwrap_or (sx_vec_fast sx e mdl limit db) scan else scan)"

definition search_hybrid ::
  "('e, 'f) search_engine \<Rightarrow> string \<Rightarrow> 'e option \<Rightarrow> string \<Rightarrow> nat \<Rightarrow> 'e memory_db
   \<Rightarrow> (anyhow_error, 'f memory_chunk list) res" where
  "search_hybrid sx query e mdl limit db =
     map_sum id (\<lambda>fts.
       merge_results (sx_float sx) (sx_order sx) (sx_text_weight sx) (sx_vector_weight sx) fts
         (case e of Some v \<Rightarrow> search_vector sx v mdl (limit * 2) db | None \<Rightarrow> []) limit)
       (fts_search (sx_uni sx) (sx_fts sx) query (limit * 2) db)"

definition memory_search ::
  "('e, 'f) search_engine \<Rightarrow> (string \<times> (string \<Rightarrow> 'w \<Rightarrow> (anyhow_error, 'e) res \<times> 'w)) option \<Rightarrow> string \<Rightarrow> nat \<Rightarrow> 'e memory_db \<Rightarrow> 'w
   \<Rightarrow> (anyhow_error, 'f memory_chunk list) res \<times> 'w" where
  "memory_search sx emb query limit db w =
     (let plain = fts_search (sx_uni sx) (sx_fts sx) query limit db in
      case emb of
        None \<Rightarrow> (plain, w)
      | Some (mdl, em) \<Rightarrow>
          (case em query w of
             (Inl _, w1) \<Rightarrow> (plain, w1)
           | (Inr v, w1) \<Rightarrow> (search_hybrid sx query (Some v) mdl limit db, w1)))"

definition chunk_preview :: "nat \<Rightarrow> 'f memory_chunk \<Rightarrow> string option" where
  "chunk_preview max_len c =
     (if length (mc_content c) \<le> max_len then Some (mc_content c)
      else map_option (\<lambda>p. p @ ''...'') (slice_to max_len (mc_content c)))"

definition chunk_location :: "'f memory_chunk \<Rightarrow> string" where
  "chunk_location c =
     (if mc_start c = mc_end c then mc_file c @ '':'' @ show_i32 (mc_start c)
      else mc_file c @ '':'' @ show_i32 (mc_start c) @ ''-'' @ show_i32 (mc_end c))"

lemma mset_sort_desc: "mset (sort_desc le xs) = mset xs"
proof (induction xs)
  case (Cons x xs)
  have "mset (takeWhile P ys) + mset (dropWhile P ys) = mset ys" for P and ys :: "('a \<times> 'b) list"
    by (metis mset_append takeWhile_dropWhile_id)
  then show ?case using Cons by (simp add: sort_desc_def)
qed (simp add: sort_desc_def)

definition keyed_ok :: "'f merged \<Rightarrow> bool" where
  "keyed_ok m \<longleftrightarrow> distinct (map fst m) \<and> (\<forall>(k, sc, c) \<in> set m. k = chunk_key c)"

lemma chunk_key_score [simp]: "chunk_key (c\<lparr>mc_score := x\<rparr>) = chunk_key c"
  by (simp add: chunk_key_def)

lemma keyed_ok_put:
  assumes "keyed_ok m" and "chunk_key (snd v) = k"
  shows "keyed_ok (put k v m)"
proof -
  have "distinct (map fst (put k v m))" using assms(1) by (simp add: keyed_ok_def put_def distinct_upsert)
  then show ?thesis using set_put [of k v m] assms by (cases v) (auto simp: keyed_ok_def)
qed

lemma keyed_ok_merge:
  "keyed_ok m \<Longrightarrow> keyed_ok (merge_fts fl tw rc m)" "keyed_ok m \<Longrightarrow> keyed_ok (merge_vector fl vw rc m)"
proof -
  have "chunk_key old = k" if "keyed_ok m" and "map_of m k = Some (sc, old)" for k sc old
    using map_of_SomeD [OF that(2)] that(1) by (auto simp: keyed_ok_def)
  then show "keyed_ok m \<Longrightarrow> keyed_ok (merge_vector fl vw rc m)"
    by (auto simp: merge_vector_def Let_def split: option.splits intro!: keyed_ok_put)
qed (simp add: merge_fts_def keyed_ok_put)

lemma merge_keys:
  "fst ` set (merge_fts fl tw rc m) = insert (chunk_key (snd rc)) (fst ` set m)"
  "fst ` set (merge_vector fl vw rc m) = insert (chunk_key (snd rc)) (fst ` set m)"
  by (auto simp: merge_fts_def merge_vector_def Let_def put_def keys_upsert split: option.splits prod.splits)

lemma fold_merge:
  assumes "\<And>rc m. keyed_ok m \<Longrightarrow> keyed_ok (g rc m)" and "\<And>rc m. fst ` set (g rc m) = insert (chunk_key (snd rc)) (fst ` set m)"
  shows "keyed_ok m \<Longrightarrow> keyed_ok (fold g rcs m)
    \<and> fst ` set (fold g rcs m) = chunk_key ` snd ` set rcs \<union> fst ` set m"
  by (induction rcs arbitrary: m) (auto simp: assms)

text \<open>Merging the two searches gives every place of the memory at most once. Whatever the scores and in whatever
  order the hash map hands out its values, no two results are the same lines of the same file, there are no
  more than asked for, each one was found by one of the two searches, and if the limit allows it
  everything that was found is there.\<close>

theorem merge_results_spec:
  assumes "\<forall>m. mset (order m) = mset m"
  shows "let rs = merge_results fl order tw vw fts vec limit; found = chunk_key ` (set fts \<union> set vec) in
    distinct (map chunk_key rs) \<and> length rs = min limit (card found) \<and> chunk_key ` set rs \<subseteq> found"
proof -
  define m where "m = fold (merge_vector fl vw) (enumerate 0 vec) (fold (merge_fts fl tw) (enumerate 0 fts) [])"
  have set_enum: "snd ` set (enumerate 0 xs) = set xs" for xs :: "'x list"
    by (metis map_snd_enumerate set_map)
  have "keyed_ok []" by (simp add: keyed_ok_def)
  then have fts: "keyed_ok (fold (merge_fts fl tw) (enumerate 0 fts) [])"
    "fst ` set (fold (merge_fts fl tw) (enumerate 0 fts) []) = chunk_key ` set fts"
    using fold_merge [where g = "merge_fts fl tw" and m = "[]" and rcs = "enumerate 0 fts", OF keyed_ok_merge(1) merge_keys(1)] set_enum [of fts] by auto
  then have m: "keyed_ok m" "fst ` set m = chunk_key ` (set fts \<union> set vec)"
    using fold_merge [where g = "merge_vector fl vw" and rcs = "enumerate 0 vec", OF keyed_ok_merge(2) merge_keys(2)] set_enum [of vec]
    by (auto simp: m_def)
  have perm: "mset (map (\<lambda>e. chunk_key (snd e)) (sort_desc (fl_le fl) (map snd (order m)))) = mset (map fst m)"
  proof -
    have "map (\<lambda>e. chunk_key (snd (snd e))) m = map fst m"
      using m(1) by (intro map_cong) (auto simp: keyed_ok_def)
    then show ?thesis using assms mset_sort_desc by (metis (no_types, lifting) list.map_comp map_eq_conv comp_apply mset_map)
  qed
  let ?all = "sort_desc (fl_le fl) (map snd (order m))"
  have "distinct (map (\<lambda>e. chunk_key (snd e)) ?all)"
    using perm m(1) by (metis keyed_ok_def mset_eq_imp_distinct_iff)
  moreover have "length ?all = card (fst ` set m)"
    using perm m(1) by (metis (no_types) keyed_ok_def distinct_card length_map mset_eq_length set_map)
  moreover have "(\<lambda>e. chunk_key (snd e)) ` set ?all = fst ` set m"
    using perm by (metis set_map set_mset_mset)
  moreover have "merge_results fl order tw vw fts vec limit = map snd (take limit ?all)"
    by (simp add: merge_results_def m_def)
  moreover have "(\<lambda>e. chunk_key (snd e)) ` set (take limit ?all) \<subseteq> (\<lambda>e. chunk_key (snd e)) ` set ?all"
    by (intro image_mono set_take_subset)
  ultimately show ?thesis
    using m(2) distinct_take [of "map (\<lambda>e. chunk_key (snd e)) ?all" limit]
    by (simp add: Let_def comp_def take_map image_image)
qed

theorem merge_results_spec_witness:
  "let rs = merge_results \<lparr>fl_rank = (\<lambda>n. 10 - n), fl_mul = (*), fl_add = (+), fl_le = (\<le>)\<rparr> rev (3 :: nat) 7
       [chunk_of_fts \<lparr>ft_text = [], ft_id = [], ft_path = ''a.md'', ft_start = 1, ft_end = 2\<rparr> 0]
       [chunk_of_fts \<lparr>ft_text = [], ft_id = [], ft_path = ''a.md'', ft_start = 1, ft_end = 2\<rparr> 0] 5
   in length rs = 1 \<and> distinct (map chunk_key rs)"
  using merge_results_spec [of rev "\<lparr>fl_rank = (\<lambda>n. 10 - n), fl_mul = (*), fl_add = (+), fl_le = (\<le>)\<rparr>" 3 7
      "[chunk_of_fts \<lparr>ft_text = [], ft_id = [], ft_path = ''a.md'', ft_start = 1, ft_end = 2\<rparr> 0]"
      "[chunk_of_fts \<lparr>ft_text = [], ft_id = [], ft_path = ''a.md'', ft_start = 1, ft_end = 2\<rparr> 0]" 5]
  by (simp add: Let_def)

subsection \<open>Upkeep\<close>

text \<open>\<open>cleanup_deleted_files\<close>: \<open>present\<close> tells whether the file of an indexed path is there. \<open>index_files\<close> works
  on the files found, each with the path it has in the index, its text or the error of reading it, and the identifiers
  drawn for its chunks. An error ends the run and keeps what was done before.\<close>

definition cleanup_deleted_files :: "(string \<Rightarrow> bool) \<Rightarrow> string list \<Rightarrow> 'e memory_db \<Rightarrow> nat \<times> 'e memory_db" where
  "cleanup_deleted_files present indexed db =
     (let gone = filter (\<lambda>p. \<not> present p) indexed in (length gone, fold remove_file gone db))"

record found_file =
  ff_path :: string
  ff_text :: "(anyhow_error, string) res"
  ff_mtime :: int
  ff_size :: int
  ff_uuids :: "nat \<Rightarrow> string"

fun index_files ::
  "(string \<Rightarrow> string) \<Rightarrow> index_config \<Rightarrow> int \<Rightarrow> bool \<Rightarrow> found_file list \<Rightarrow> nat \<times> nat \<Rightarrow> 'e memory_db
   \<Rightarrow> (anyhow_error, nat \<times> nat) res \<times> 'e memory_db" where
  "index_files hash cfg now force [] counts db = (Inr counts, db)"
| "index_files hash cfg now force (f # fs) (processed, updated) db =
     (case ff_text f of
        Inl e \<Rightarrow> (Inl e, db)
      | Inr t \<Rightarrow>
          (case index_file hash cfg (ff_uuids f) now (ff_path f) t (ff_mtime f) (ff_size f) force db of
             (Inl e, db1) \<Rightarrow> (Inl e, db1)
           | (Inr changed, db1) \<Rightarrow>
               index_files hash cfg now force fs (processed + 1, if changed then updated + 1 else updated) db1))"

text \<open>Which files are found: all Markdown files below the workspace, then those the configured
  patterns give outside of it. \<open>mf_glob\<close> is the crate \<open>glob\<close> on a pattern, with the entries it could read.\<close>

record glob_entry =
  ge_path :: path
  ge_is_file :: bool
  ge_text :: "(anyhow_error, string) res"
  ge_mtime :: int
  ge_size :: int
  ge_uuids :: "nat \<Rightarrow> string"

record index_path =
  ip_path :: string
  ip_pattern :: string

record memory_fs =
  mf_glob :: "string \<Rightarrow> glob_entry list"
  mf_exists :: "path \<Rightarrow> bool"
  mf_tilde :: "string \<Rightarrow> string"

definition relative_path :: "path \<Rightarrow> path \<Rightarrow> string" where
  "relative_path workspace p = display (if prefix workspace p then drop (length workspace) p else p)"

definition base_path :: "memory_fs \<Rightarrow> path \<Rightarrow> index_path \<Rightarrow> path" where
  "base_path fs workspace ip =
     (if starts_with (ip_path ip) ''~'' \<or> starts_with (ip_path ip) ''/'' then components (mf_tilde fs (ip_path ip))
      else path_join workspace (components (ip_path ip)))"

definition files_outside :: "memory_fs \<Rightarrow> path \<Rightarrow> index_path \<Rightarrow> glob_entry list" where
  "files_outside fs workspace ip =
     (let base = base_path fs workspace ip in
      if prefix workspace base \<or> \<not> mf_exists fs base then []
      else mf_glob fs (display base @ ''/'' @ ip_pattern ip))"

definition found_of :: "path \<Rightarrow> glob_entry \<Rightarrow> found_file" where
  "found_of workspace e =
     \<lparr>ff_path = relative_path workspace (ge_path e), ff_text = ge_text e, ff_mtime = ge_mtime e, ff_size = ge_size e,
      ff_uuids = ge_uuids e\<rparr>"

definition found_files :: "memory_fs \<Rightarrow> path \<Rightarrow> index_path list \<Rightarrow> found_file list" where
  "found_files fs workspace paths =
     map (found_of workspace) (filter ge_is_file
       (mf_glob fs (display workspace @ ''/**/*.md'') @ concat (map (files_outside fs workspace) paths)))"

definition indexed_exists :: "memory_fs \<Rightarrow> path \<Rightarrow> string \<Rightarrow> bool" where
  "indexed_exists fs workspace rel = mf_exists fs (path_join workspace (components rel))"

text \<open>\<open>indexed\<close> are the paths of the table \<open>files\<close> in the order of the database.\<close>

definition reindex ::
  "(string \<Rightarrow> string) \<Rightarrow> index_config \<Rightarrow> int \<Rightarrow> memory_fs \<Rightarrow> path \<Rightarrow> index_path list \<Rightarrow> string list \<Rightarrow> bool \<Rightarrow> 'e memory_db
   \<Rightarrow> (anyhow_error, nat \<times> nat \<times> nat) res \<times> 'e memory_db" where
  "reindex hash cfg now fs workspace paths indexed force db =
     (case index_files hash cfg now force (found_files fs workspace paths) (0, 0)
        (snd (cleanup_deleted_files (indexed_exists fs workspace) indexed db)) of
        (Inl e, db1) \<Rightarrow> (Inl e, db1)
      | (Inr (processed, updated), db1) \<Rightarrow> (Inr (processed, updated, chunk_count db1), db1))"

text \<open>Every indexed file has the chunks of a text with the recorded hash.\<close>

definition index_ok :: "(string \<Rightarrow> string) \<Rightarrow> index_config \<Rightarrow> 'e memory_db \<Rightarrow> bool" where
  "index_ok hash cfg db \<longleftrightarrow> db_ok db
     \<and> (\<forall>p fr. db_files db p = Some fr \<longrightarrow>
          (\<exists>t. hash t = fr_hash fr \<and> infos (chunks_for p db) = chunk_text t (ix_chunk_size cfg) (ix_chunk_overlap cfg)))"

fun fresh_uuids :: "string set \<Rightarrow> found_file list \<Rightarrow> bool" where
  "fresh_uuids used [] = True"
| "fresh_uuids used (f # fs) =
     (inj (ff_uuids f) \<and> range (ff_uuids f) \<inter> used = {} \<and> fresh_uuids (used \<union> range (ff_uuids f)) fs)"

lemma fresh_uuids_mono: "fresh_uuids used fs \<Longrightarrow> used' \<subseteq> used \<Longrightarrow> fresh_uuids used' fs"
proof (induction fs arbitrary: used used')
  case (Cons f fs)
  have "used' \<union> range (ff_uuids f) \<subseteq> used \<union> range (ff_uuids f)" using Cons.prems(2) by blast
  then show ?case using Cons by auto
qed simp

definition indexed_as :: "index_config \<Rightarrow> 'e memory_db \<Rightarrow> found_file \<Rightarrow> bool" where
  "indexed_as cfg db f \<longleftrightarrow> (case ff_text f of
     Inl e \<Rightarrow> False
   | Inr t \<Rightarrow> infos (chunks_for (ff_path f) db) = chunk_text t (ix_chunk_size cfg) (ix_chunk_overlap cfg))"

lemma index_file_ok:
  assumes "index_ok hash cfg db" and "inj hash" and "inj uuids" and "range uuids \<inter> chunk_ids db = {}"
  shows "\<exists>changed db'. index_file hash cfg uuids now path t mtime bytes force db = (Inr changed, db')
    \<and> index_ok hash cfg db' \<and> infos (chunks_for path db') = chunk_text t (ix_chunk_size cfg) (ix_chunk_overlap cfg)
    \<and> dom (db_files db') = insert path (dom (db_files db)) \<and> chunk_ids db' \<subseteq> chunk_ids db \<union> range uuids
    \<and> (\<forall>p. p \<noteq> path \<longrightarrow> chunks_for p db' = chunks_for p db)"
proof -
  obtain changed db' where run: "index_file hash cfg uuids now path t mtime bytes force db = (Inr changed, db')"
    and ok: "db_ok db'" and changed: "changed = (force \<or> map_option fr_hash (db_files db path) \<noteq> Some (hash t))"
    and hashed: "map_option fr_hash (db_files db' path) = Some (hash t)"
    and ids: "chunk_ids db' \<subseteq> chunk_ids db \<union> range uuids"
    and others: "\<And>p. p \<noteq> path \<Longrightarrow> db_files db' p = db_files db p \<and> chunks_for p db' = chunks_for p db"
    and chunks: "if changed then infos (chunks_for path db') = chunk_text t (ix_chunk_size cfg) (ix_chunk_overlap cfg)
       else db' = db"
    using index_file_spec [OF _ assms(3, 4), of hash cfg now path t mtime bytes force] assms(1) unfolding index_ok_def by blast
  have same: "infos (chunks_for path db') = chunk_text t (ix_chunk_size cfg) (ix_chunk_overlap cfg)"
  proof (cases changed)
    case False
    then obtain fr where fr: "db_files db path = Some fr" "fr_hash fr = hash t" using changed by auto
    then obtain u where "hash u = fr_hash fr" "infos (chunks_for path db) = chunk_text u (ix_chunk_size cfg) (ix_chunk_overlap cfg)"
      using assms(1) unfolding index_ok_def by blast
    then show ?thesis using fr(2) chunks False assms(2) by (auto dest: injD)
  qed (use chunks in simp)
  have "index_ok hash cfg db'"
    unfolding index_ok_def
  proof (intro conjI allI impI)
    fix p fr
    assume p: "db_files db' p = Some fr"
    show "\<exists>u. hash u = fr_hash fr \<and> infos (chunks_for p db') = chunk_text u (ix_chunk_size cfg) (ix_chunk_overlap cfg)"
      using p same hashed others [of p] assms(1) by (cases "p = path") (auto simp: index_ok_def)
  qed (rule ok)
  moreover have "dom (db_files db') = insert path (dom (db_files db))"
  proof (rule set_eqI)
    show "p \<in> dom (db_files db') \<longleftrightarrow> p \<in> insert path (dom (db_files db))" for p
      using hashed others [of p] by (cases "p = path") (auto simp: dom_def)
  qed
  ultimately show ?thesis using run same ids others by blast
qed

text \<open>What a run makes of a file that it can read: its hash is recorded, and the chunks are those of its text
  if the run is forced or the hash recorded before is another one; otherwise they are left as they are.\<close>

definition brought_in ::
  "(string \<Rightarrow> string) \<Rightarrow> index_config \<Rightarrow> bool \<Rightarrow> string \<Rightarrow> string \<Rightarrow> 'e memory_db \<Rightarrow> 'e memory_db \<Rightarrow> bool" where
  "brought_in hash cfg force p t db db' \<longleftrightarrow>
     map_option fr_hash (db_files db' p) = Some (hash t)
     \<and> (if force \<or> map_option fr_hash (db_files db p) \<noteq> Some (hash t)
        then infos (chunks_for p db') = chunk_text t (ix_chunk_size cfg) (ix_chunk_overlap cfg)
        else chunks_for p db' = chunks_for p db)"

lemma brought_in_again:
  "brought_in hash cfg force p t db db1 \<Longrightarrow> brought_in hash cfg force p t db1 db' \<Longrightarrow> brought_in hash cfg force p t db db'"
  by (auto simp: brought_in_def split: if_splits)

lemma brought_in_same:
  "db_files db1' p = db_files db1 p \<Longrightarrow> chunks_for p db1' = chunks_for p db1 \<Longrightarrow>
   brought_in hash cfg force p t db db1' = brought_in hash cfg force p t db db1"
  "db_files db2 p = db_files db p \<Longrightarrow> chunks_for p db2 = chunks_for p db \<Longrightarrow>
   brought_in hash cfg force p t db2 db1 = brought_in hash cfg force p t db db1"
  by (simp_all only: brought_in_def)

definition readable :: "found_file list \<Rightarrow> found_file list" where
  "readable fs = takeWhile (\<lambda>f. is_ok (ff_text f)) fs"

definition one_text_each :: "found_file list \<Rightarrow> bool" where
  "one_text_each fs \<longleftrightarrow> (\<forall>f \<in> set fs. \<forall>g \<in> set fs. ff_path f = ff_path g \<longrightarrow> ff_text f = ff_text g)"

lemma one_textD: "one_text_each fs \<Longrightarrow> f \<in> set fs \<Longrightarrow> g \<in> set fs \<Longrightarrow> ff_path f = ff_path g \<Longrightarrow> ff_text f = ff_text g"
  unfolding one_text_each_def by blast

lemma one_text_tl: "one_text_each (f # fs) \<Longrightarrow> one_text_each fs"
  unfolding one_text_each_def by (meson list.set_intros(2))

definition run_result :: "found_file list \<Rightarrow> (anyhow_error, nat \<times> nat) res \<Rightarrow> nat \<Rightarrow> bool" where
  "run_result fs r n \<longleftrightarrow>
     (case find (\<lambda>f. \<not> is_ok (ff_text f)) fs of
        None \<Rightarrow> \<exists>u. r = Inr (n + length fs, u)
      | Some f \<Rightarrow> \<exists>e. ff_text f = Inl e \<and> r = Inl e)"

lemma index_files_run:
  assumes "db_ok db" and "fresh_uuids (chunk_ids db) fs" and "one_text_each fs"
  shows "\<exists>r db'. index_files hash cfg now force fs (n, u) db = (r, db') \<and> db_ok db' \<and> run_result fs r n
    \<and> dom (db_files db') = dom (db_files db) \<union> ff_path ` set (readable fs)
    \<and> (\<forall>f t. f \<in> set (readable fs) \<and> ff_text f = Inr t \<longrightarrow> brought_in hash cfg force (ff_path f) t db db')
    \<and> (\<forall>p. p \<notin> ff_path ` set (readable fs) \<longrightarrow> db_files db' p = db_files db p \<and> chunks_for p db' = chunks_for p db)"
  using assms
proof (induction fs arbitrary: n u db)
  case Nil
  then show ?case by (simp add: readable_def run_result_def)
next
  case (Cons f fs)
  show ?case
  proof (cases "ff_text f")
    case (Inl e)
    then show ?thesis using Cons.prems(1) by (simp add: readable_def run_result_def res_simps)
  next
    case (Inr t)
    let ?p = "ff_path f"
    have new: "inj (ff_uuids f)" "range (ff_uuids f) \<inter> chunk_ids db = {}" using Cons.prems(2) by simp_all
    obtain changed db1 where f: "index_file hash cfg (ff_uuids f) now ?p t (ff_mtime f) (ff_size f) force db = (Inr changed, db1)"
      and ok: "db_ok db1" and changed: "changed = (force \<or> map_option fr_hash (db_files db ?p) \<noteq> Some (hash t))"
      and hashed: "map_option fr_hash (db_files db1 ?p) = Some (hash t)"
      and ids: "chunk_ids db1 \<subseteq> chunk_ids db \<union> range (ff_uuids f)"
      and others: "\<And>p. p \<noteq> ?p \<Longrightarrow> db_files db1 p = db_files db p \<and> chunks_for p db1 = chunks_for p db"
      and chunks: "if changed then infos (chunks_for ?p db1) = chunk_text t (ix_chunk_size cfg) (ix_chunk_overlap cfg) else db1 = db"
      using index_file_spec [OF Cons.prems(1) new, of hash cfg now ?p t "ff_mtime f" "ff_size f" force]
      by (elim exE conjE) (rule that, assumption+, blast, assumption+)
    have here: "brought_in hash cfg force ?p t db db1"
      using hashed chunks changed by (auto simp: brought_in_def split: if_splits)
    have fresh: "fresh_uuids (chunk_ids db1) fs" using fresh_uuids_mono [OF _ ids] Cons.prems(2) by simp
    have one: "one_text_each fs" using Cons.prems(3) by (rule one_text_tl)
    obtain r db' where run: "index_files hash cfg now force fs (n + 1, if changed then u + 1 else u) db1 = (r, db')"
      and ok': "db_ok db'" and r: "run_result fs r (n + 1)"
      and dom: "dom (db_files db') = dom (db_files db1) \<union> ff_path ` set (readable fs)"
      and into: "\<And>g v. g \<in> set (readable fs) \<Longrightarrow> ff_text g = Inr v \<Longrightarrow> brought_in hash cfg force (ff_path g) v db1 db'"
      and rest: "\<And>p. p \<notin> ff_path ` set (readable fs) \<Longrightarrow> db_files db' p = db_files db1 p \<and> chunks_for p db' = chunks_for p db1"
      using Cons.IH [OF ok fresh one, of "n + 1" "if changed then u + 1 else u"]
      by (elim exE conjE) (rule that, assumption+, blast, blast)
    have sub: "set (readable fs) \<subseteq> set fs" by (auto simp: readable_def dest: set_takeWhileD)
    have here': "brought_in hash cfg force ?p t db db'"
    proof (cases "?p \<in> ff_path ` set (readable fs)")
      case True
      then obtain g where g: "g \<in> set (readable fs)" "ff_path g = ?p" by auto
      then have "ff_text g = ff_text f" using one_textD [OF Cons.prems(3), of g f] sub by auto
      then have "ff_text g = Inr t" using Inr by simp
      from into [OF g(1) this] g(2) here show ?thesis using brought_in_again by metis
    next
      case False
      with rest [OF False] here show ?thesis using brought_in_same(1) by metis
    qed
    have "brought_in hash cfg force (ff_path g) v db db'"
      if "g \<in> set (readable (f # fs))" "ff_text g = Inr v" for g v
    proof (cases "ff_path g = ?p")
      case True
      have "g \<in> set (f # fs)" using that(1) by (auto simp: readable_def dest: set_takeWhileD)
      then have "ff_text g = ff_text f" using one_textD [OF Cons.prems(3), of g f] True by auto
      then show ?thesis using here' True that(2) Inr by simp
    next
      case False
      then have "g \<in> set (readable fs)" using that(1) Inr by (auto simp: readable_def)
      from into [OF this that(2)] others [OF False] show ?thesis using brought_in_same(2) by metis
    qed
    moreover have "readable (f # fs) = f # readable fs" by (simp add: readable_def Inr res_simps)
    moreover have "dom (db_files db1) = insert ?p (dom (db_files db))"
    proof (rule set_eqI)
      show "p \<in> dom (db_files db1) \<longleftrightarrow> p \<in> insert ?p (dom (db_files db))" for p
        using hashed others [of p] by (cases "p = ?p") (auto simp: dom_def)
    qed
    moreover have "db_files db' p = db_files db p \<and> chunks_for p db' = chunks_for p db"
      if "p \<notin> ff_path ` set (f # readable fs)" for p
      using that rest [of p] others [of p] by auto
    moreover have "run_result (f # fs) r n" using r by (simp add: run_result_def Inr res_simps split: option.splits)
    ultimately show ?thesis
      using f run ok' dom by (intro exI [of _ r] exI [of _ db']) (auto simp: Inr)
  qed
qed

lemma chunks_for_remove: "p \<noteq> q \<Longrightarrow> chunks_for p (remove_file q db) = chunks_for p db"
  by (auto simp: chunks_for_def remove_file_def delete_chunks_for_path_def Let_def intro: filter_cong)

lemma remove_file_files: "db_files (remove_file q db) = (db_files db)(q := None)"
  by (simp add: remove_file_def delete_chunks_for_path_def Let_def)

lemma removes_effect:
  assumes "db_ok db"
  shows "db_ok (fold remove_file qs db) \<and> chunk_ids (fold remove_file qs db) \<subseteq> chunk_ids db
    \<and> (\<forall>p. db_files (fold remove_file qs db) p = (if p \<in> set qs then None else db_files db p)
         \<and> chunks_for p (fold remove_file qs db) = (if p \<in> set qs then [] else chunks_for p db))"
  using assms
proof (induction qs arbitrary: db)
  case (Cons q qs)
  let ?db1 = "remove_file q db"
  have "chunk_ids ?db1 \<subseteq> chunk_ids db"
    by (auto simp: chunk_ids_def remove_file_def delete_chunks_for_path_def Let_def)
  moreover have "db_files ?db1 p = (if p = q then None else db_files db p)" for p by (simp add: remove_file_files)
  moreover have "chunks_for p ?db1 = (if p = q then [] else chunks_for p db)" for p
    using remove_file_ok(2) [OF Cons.prems] chunks_for_remove [of p q db] by auto
  moreover note Cons.IH [OF remove_file_ok(1) [OF Cons.prems, of q]]
  ultimately show ?case by auto
qed simp

text \<open>C34: What a run of the indexer does to any index whose chunks have different identifiers and belong to files of it,
  whatever their sizes and hashes. The identifiers drawn are new, and a file that is found twice has the same text both
  times. The files found are taken in order up to the first that cannot be read: its error is the result, and
  what was done before it stays; without one the run succeeds and says how many files and chunks there are. The files of the index
  are then those that were in it and still exist, and those that were found and read. The chunks of each of the
  latter are those of its present text when the run is forced, the file is new or the hash recorded for it is not that of its text; and
  otherwise they are what they were, also when the sizes of the chunks have changed meanwhile. Nothing else is changed, but that the
  files that no longer exist lose their chunks.\<close>

theorem reindex_spec:
  assumes "db_ok db" and "set indexed = dom (db_files db)"
    and "fresh_uuids (chunk_ids db) (found_files fs ws paths)" and "one_text_each (found_files fs ws paths)"
  shows "\<exists>r db'. reindex hash cfg now fs ws paths indexed force db = (r, db') \<and> db_ok db'
    \<and> (case find (\<lambda>f. \<not> is_ok (ff_text f)) (found_files fs ws paths) of
         None \<Rightarrow> \<exists>u. r = Inr (length (found_files fs ws paths), u, chunk_count db')
       | Some f \<Rightarrow> \<exists>e. ff_text f = Inl e \<and> r = Inl e)
    \<and> dom (db_files db') =
        {p \<in> dom (db_files db). indexed_exists fs ws p} \<union> ff_path ` set (readable (found_files fs ws paths))
    \<and> (\<forall>f t. f \<in> set (readable (found_files fs ws paths)) \<and> ff_text f = Inr t \<longrightarrow>
         map_option fr_hash (db_files db' (ff_path f)) = Some (hash t)
         \<and> (if force \<or> \<not> indexed_exists fs ws (ff_path f) \<or> map_option fr_hash (db_files db (ff_path f)) \<noteq> Some (hash t)
            then infos (chunks_for (ff_path f) db') = chunk_text t (ix_chunk_size cfg) (ix_chunk_overlap cfg)
            else chunks_for (ff_path f) db' = chunks_for (ff_path f) db))
    \<and> (\<forall>p. p \<notin> ff_path ` set (readable (found_files fs ws paths)) \<longrightarrow>
         db_files db' p = (if indexed_exists fs ws p then db_files db p else None)
         \<and> chunks_for p db' = (if indexed_exists fs ws p then chunks_for p db else []))"
proof -
  let ?found = "found_files fs ws paths"
  let ?gone = "filter (\<lambda>p. \<not> indexed_exists fs ws p) indexed"
  define db0 where "db0 = fold remove_file ?gone db"
  have none: "chunks_for p db = []" if "p \<notin> dom (db_files db)" for p
    using assms(1) that by (auto simp: db_ok_def chunks_for_def filter_empty_conv)
  from removes_effect [OF assms(1), of ?gone]
  have ok0: "db_ok db0" and ids0: "chunk_ids db0 \<subseteq> chunk_ids db"
    and files0: "db_files db0 p = (if p \<in> set ?gone then None else db_files db p)"
    and chunks0: "chunks_for p db0 = (if p \<in> set ?gone then [] else chunks_for p db)" for p
    by (auto simp: db0_def)
  have files0: "db_files db0 p = (if indexed_exists fs ws p then db_files db p else None)"
    and chunks0: "chunks_for p db0 = (if indexed_exists fs ws p then chunks_for p db else [])" for p
    using files0 [of p] chunks0 [of p] assms(2) none [of p] by (auto simp: dom_def)
  obtain r db' where run: "index_files hash cfg now force ?found (0, 0) db0 = (r, db')" and ok': "db_ok db'"
    and r: "run_result ?found r 0"
    and dom: "dom (db_files db') = dom (db_files db0) \<union> ff_path ` set (readable ?found)"
    and into: "\<And>f t. f \<in> set (readable ?found) \<Longrightarrow> ff_text f = Inr t \<Longrightarrow> brought_in hash cfg force (ff_path f) t db0 db'"
    and rest: "\<And>p. p \<notin> ff_path ` set (readable ?found) \<Longrightarrow> db_files db' p = db_files db0 p \<and> chunks_for p db' = chunks_for p db0"
    using index_files_run [OF ok0 fresh_uuids_mono [OF assms(3) ids0] assms(4), of hash cfg now force 0 0] by blast
  have re: "reindex hash cfg now fs ws paths indexed force db =
      (case r of Inl e \<Rightarrow> (Inl e, db') | Inr (processed, updated) \<Rightarrow> (Inr (processed, updated, chunk_count db'), db'))"
    using run by (simp add: reindex_def cleanup_deleted_files_def Let_def split: sum.split flip: db0_def)
  have "dom (db_files db0) = {p \<in> dom (db_files db). indexed_exists fs ws p}" by (auto simp: dom_def files0)
  moreover have "map_option fr_hash (db_files db' (ff_path f)) = Some (hash t)
      \<and> (if force \<or> \<not> indexed_exists fs ws (ff_path f) \<or> map_option fr_hash (db_files db (ff_path f)) \<noteq> Some (hash t)
         then infos (chunks_for (ff_path f) db') = chunk_text t (ix_chunk_size cfg) (ix_chunk_overlap cfg)
         else chunks_for (ff_path f) db' = chunks_for (ff_path f) db)"
    if "f \<in> set (readable ?found)" "ff_text f = Inr t" for f t
    using into [OF that] by (auto simp: brought_in_def files0 chunks0 split: if_splits)
  moreover have "\<exists>r'. reindex hash cfg now fs ws paths indexed force db = (r', db')
      \<and> (case find (\<lambda>f. \<not> is_ok (ff_text f)) ?found of
           None \<Rightarrow> \<exists>u. r' = Inr (length ?found, u, chunk_count db')
         | Some f \<Rightarrow> \<exists>e. ff_text f = Inl e \<and> r' = Inl e)"
    using r re by (auto simp: run_result_def split: option.splits)
  ultimately show ?thesis
    using ok' dom rest files0 chunks0 by (elim exE conjE) (intro exI conjI, assumption, simp_all)
qed

definition sample_entry :: glob_entry where
  "sample_entry = \<lparr>ge_path = components ''/w/MEMORY.md'', ge_is_file = True, ge_text = Inr ''Name: Kira'', ge_mtime = 0,
     ge_size = 10, ge_uuids = show_nat\<rparr>"

definition sample_fs :: memory_fs where
  "sample_fs = \<lparr>mf_glob = (\<lambda>p. if p = ''/w/**/*.md'' then [sample_entry] else []), mf_exists = (\<lambda>p. True), mf_tilde = id\<rparr>"

lemma found_sample:
  "found_files sample_fs (components ''/w'') [\<lparr>ip_path = ''notes'', ip_pattern = ''*.md''\<rparr>]
   = [\<lparr>ff_path = ''MEMORY.md'', ff_text = Inr ''Name: Kira'', ff_mtime = 0, ff_size = 10, ff_uuids = show_nat\<rparr>]"
  by (simp add: found_files_def sample_fs_def sample_entry_def files_outside_def base_path_def found_of_def relative_path_def
      components_def component_of_def display_def path_join_def is_absolute_def starts_with_def Let_def)

theorem reindex_spec_witness:
  "\<exists>u db'. reindex id \<lparr>ix_chunk_size = 400, ix_chunk_overlap = 80\<rparr> 0 sample_fs (components ''/w'')
      [\<lparr>ip_path = ''notes'', ip_pattern = ''*.md''\<rparr>] [] False empty_db = (Inr (1, u, chunk_count db'), db')
     \<and> dom (db_files db') = {''MEMORY.md''}
     \<and> infos (chunks_for ''MEMORY.md'' db') = chunk_text ''Name: Kira'' 400 80"
proof -
  let ?fs = "found_files sample_fs (components ''/w'') [\<lparr>ip_path = ''notes'', ip_pattern = ''*.md''\<rparr>]"
  have "inj show_nat" by (rule injI) (metis digits_value_show_nat)
  then have 3: "fresh_uuids (chunk_ids empty_db) ?fs"
    by (simp add: found_sample chunk_ids_def empty_db_def)
  have 1: "db_ok empty_db" and 2: "set [] = dom (db_files empty_db)"
    by (simp_all add: db_ok_def empty_db_def)
  have 4: "one_text_each ?fs" by (simp add: found_sample one_text_each_def)
  have e: "db_files empty_db p = None" for p by (simp add: empty_db_def)
  have r: "readable ?fs = ?fs" by (simp add: found_sample readable_def)
  have n: "find (\<lambda>f. \<not> is_ok (ff_text f)) ?fs = None" by (simp add: found_sample)
  from reindex_spec [OF 1 2 3 4, of id "\<lparr>ix_chunk_size = 400, ix_chunk_overlap = 80\<rparr>" 0 False]
  show ?thesis unfolding r n by (auto simp: found_sample e)
qed

text \<open>A search by text finds what is in the table of chunks, when the rows of the full-text table are sound.\<close>

lemma fts_search_sound:
  assumes "fts_sound db" and "\<And>q rows. fst ` set (engine q rows) \<subseteq> set rows"
    and "fts_search uni engine query limit db = Inr rs" and "r \<in> set rs"
  shows "\<exists>c \<in> set (db_chunks db). mc_file r = cr_path c \<and> mc_start r = cr_start c \<and> mc_end r = cr_end c \<and> mc_content r = cr_text c"
proof -
  obtain q where "rs = map (\<lambda>(r, sc). chunk_of_fts r sc) (take limit (engine q (db_fts db)))"
    using assms(3) assms(4) by (auto simp: fts_search_def split: option.splits if_splits)
  then obtain x where x: "x \<in> set (take limit (engine q (db_fts db)))" "r = chunk_of_fts (fst x) (snd x)"
    using assms(4) by (auto simp: case_prod_unfold)
  obtain row sc where "x = (row, sc)" by (cases x)
  with x have "(row, sc) \<in> set (engine q (db_fts db))" and r: "r = chunk_of_fts row sc"
    by (auto dest: in_set_takeD)
  then have "row \<in> set (db_fts db)" using assms(2) by force
  then obtain c where "c \<in> set (db_chunks db)" "row = fts_of c" using assms(1) by (auto simp: fts_sound_def)
  then show ?thesis using r by (auto simp: fts_of_def chunk_of_fts_def)
qed

subsection \<open>Histories of the index\<close>

text \<open>What the operations owe the searches: the chunks stay consistent, and the full-text table as good as the
  statements on it allow.\<close>

locale index_keeping =
  fixes step :: "'e memory_db \<Rightarrow> 'e memory_db"
  assumes keeps: "db_ok db \<Longrightarrow> db_ok (step db)"
    and same_fts: "db_ok db \<Longrightarrow> db_has_fts (step db) = db_has_fts db"
    and same_fails: "db_ok db \<Longrightarrow> db_fails (step db) = db_fails db"
    and sound: "db_ok db \<Longrightarrow> deletes_work db \<Longrightarrow> fts_sound db \<Longrightarrow> fts_sound (step db)"
    and complete: "db_ok db \<Longrightarrow> inserts_work db \<Longrightarrow> fts_complete db \<Longrightarrow> fts_complete (step db)"
    and agrees: "db_ok db \<Longrightarrow> deletes_work db \<Longrightarrow> inserts_work db \<Longrightarrow> fts_agrees db \<Longrightarrow> fts_agrees (step db)"
begin

text \<open>What holds of a database after any number of steps; \<open>F\<close> are the statements that may ever be refused.\<close>

definition in_order :: "index_statement set \<Rightarrow> 'e memory_db \<Rightarrow> bool" where
  "in_order F db \<longleftrightarrow> db_ok db \<and> Collect (db_fails db) \<subseteq> F
     \<and> (F \<inter> range FtsDelete = {} \<longrightarrow> fts_sound db) \<and> (F \<inter> range FtsInsert = {} \<longrightarrow> fts_complete db)
     \<and> (F \<inter> (range FtsInsert \<union> range FtsDelete) = {} \<longrightarrow> fts_agrees db)"

lemma step_in_order: "in_order F db \<Longrightarrow> in_order F (step db) \<and> db_has_fts (step db) = db_has_fts db"
proof -
  assume o: "in_order F db"
  then have ok: "db_ok db" and fails: "Collect (db_fails db) \<subseteq> F" by (simp_all add: in_order_def)
  have "F \<inter> range FtsDelete = {} \<Longrightarrow> deletes_work db" "F \<inter> range FtsInsert = {} \<Longrightarrow> inserts_work db"
    using fails by (auto simp: deletes_work_def inserts_work_def)
  then show ?thesis
    using o keeps [OF ok] same_fts [OF ok] same_fails [OF ok] sound [OF ok] complete [OF ok] agrees [OF ok]
    unfolding in_order_def by (auto simp: Int_Un_distrib)
qed

end

lemma index_file_cases:
  assumes "db_ok db"
  obtains "snd (index_file hash cfg uuids now path t mtime bytes force db) = db"
  | rows db2 where "db_ok db2" "distinct (map cr_id (db_chunks db2))" "cr_path ` set rows \<subseteq> dom (db_files db2)"
      "db_has_fts db2 = db_has_fts db" "db_fails db2 = db_fails db"
      "deletes_work db \<Longrightarrow> fts_sound db \<Longrightarrow> fts_sound db2" "fts_complete db \<Longrightarrow> fts_complete db2"
      "deletes_work db \<Longrightarrow> fts_agrees db \<Longrightarrow> fts_agrees db2"
      "insert_chunks rows db2 = Inr (snd (index_file hash cfg uuids now path t mtime bytes force db))"
proof -
  let ?db1 = "db\<lparr>db_files := (db_files db)(path \<mapsto> \<lparr>fr_hash = hash t, fr_mtime = mtime, fr_size = bytes\<rparr>)\<rparr>"
  let ?db2 = "delete_chunks_for_path path ?db1"
  let ?rows = "map2 (new_row hash now path) (map uuids [0..<length (chunk_text t (ix_chunk_size cfg) (ix_chunk_overlap cfg))])
      (chunk_text t (ix_chunk_size cfg) (ix_chunk_overlap cfg))"
  have ok1: "db_ok ?db1" using assms by (auto simp: db_ok_def)
  have f1: "deletes_work ?db1 = deletes_work db" "fts_sound ?db1 = fts_sound db" "fts_complete ?db1 = fts_complete db"
    "fts_agrees ?db1 = fts_agrees db"
    by (simp_all add: deletes_work_def fts_sound_def fts_complete_def fts_agrees_def)
  note ok2 = delete_ok [OF ok1, of path] and fts2 = delete_fts [OF ok1, of path]
  have paths: "cr_path ` set ?rows \<subseteq> dom (db_files ?db2)" unfolding ok2(3) by (auto simp: new_row_def)
  have "snd (index_file hash cfg uuids now path t mtime bytes force db) = db
      \<or> insert_chunks ?rows ?db2 = Inr (snd (index_file hash cfg uuids now path t mtime bytes force db))"
    by (auto simp: index_file_def Let_def split: sum.split)
  then show thesis
  proof
    assume "insert_chunks ?rows ?db2 = Inr (snd (index_file hash cfg uuids now path t mtime bytes force db))"
    moreover have "distinct (map cr_id (db_chunks ?db2))" using ok2(1) by (simp add: db_ok_def)
    ultimately show thesis
      using that(2) [OF ok2(1) _ paths] fts2 f1 delete_same [of path ?db1] by simp
  qed (rule that(1))
qed

lemma insert_chunks_same:
  assumes "insert_chunks cs db = Inr db'" and "db_ok db" and "cr_path ` set cs \<subseteq> dom (db_files db)"
  shows "db_ok db' \<and> db_has_fts db' = db_has_fts db \<and> db_fails db' = db_fails db"
  using insert_chunks_effect [OF assms(1)] assms(2, 3) by (auto simp: db_ok_def simp del: map_append distinct_append)

interpretation index: index_keeping "\<lambda>db. snd (index_file hash cfg uuids now path t mtime bytes force db)"
  for hash cfg uuids now path t mtime bytes force
proof
  fix db :: "'a memory_db"
  let ?step = "\<lambda>db. snd (index_file hash cfg uuids now path t mtime bytes force db)"
  assume ok: "db_ok db"
  have "db_ok (?step db) \<and> db_has_fts (?step db) = db_has_fts db \<and> db_fails (?step db) = db_fails db
    \<and> (deletes_work db \<longrightarrow> fts_sound db \<longrightarrow> fts_sound (?step db))
    \<and> (inserts_work db \<longrightarrow> fts_complete db \<longrightarrow> fts_complete (?step db))
    \<and> (deletes_work db \<longrightarrow> inserts_work db \<longrightarrow> fts_agrees db \<longrightarrow> fts_agrees (?step db))"
    using ok
  proof (cases rule: index_file_cases [where hash = hash and cfg = cfg and uuids = uuids and now = now and path = path
        and t = t and mtime = mtime and bytes = bytes and force = force])
    case (2 rows db2)
    have "inserts_work db2 = inserts_work db" using 2(5) by (simp add: inserts_work_def)
    then show ?thesis
      using insert_chunks_same [OF 2(9, 1, 3)] insert_chunks_fts [OF 2(9, 2)] 2(4-8) by simp
  qed (use ok in simp)
  then show "db_ok (?step db)" "db_has_fts (?step db) = db_has_fts db" "db_fails (?step db) = db_fails db"
    "deletes_work db \<Longrightarrow> fts_sound db \<Longrightarrow> fts_sound (?step db)"
    "inserts_work db \<Longrightarrow> fts_complete db \<Longrightarrow> fts_complete (?step db)"
    "deletes_work db \<Longrightarrow> inserts_work db \<Longrightarrow> fts_agrees db \<Longrightarrow> fts_agrees (?step db)"
    by blast+
qed

lemma remove_file_fts:
  assumes "db_ok db"
  shows "deletes_work db \<Longrightarrow> fts_sound db \<Longrightarrow> fts_sound (remove_file path db)"
    and "fts_complete db \<Longrightarrow> fts_complete (remove_file path db)"
    and "deletes_work db \<Longrightarrow> fts_agrees db \<Longrightarrow> fts_agrees (remove_file path db)"
  using delete_fts [OF assms, of path]
  by (simp_all add: remove_file_def Let_def fts_sound_def fts_complete_def fts_agrees_def)

interpretation removal: index_keeping "remove_file path" for path
  by unfold_locales (simp_all add: remove_file_ok remove_file_fts, simp_all add: remove_file_def delete_same Let_def)

lemma store_embedding_fts:
  "fts_sound (store_embedding ser now i e m db) = fts_sound db"
  "fts_complete (store_embedding ser now i e m db) = fts_complete db"
  "fts_agrees (store_embedding ser now i e m db) = fts_agrees db"
proof -
  have "fts_of ` set (db_chunks (store_embedding ser now i e m db)) = fts_of ` set (db_chunks db)"
    using store_embedding_same(6) by (metis list.set_map)
  then show "fts_sound (store_embedding ser now i e m db) = fts_sound db"
    "fts_complete (store_embedding ser now i e m db) = fts_complete db"
    "fts_agrees (store_embedding ser now i e m db) = fts_agrees db"
    by (simp_all add: fts_sound_def fts_complete_def fts_agrees_def store_embedding_same)
qed

interpretation embedding: index_keeping "store_embedding ser now i e m" for ser now i e m
  by unfold_locales (simp_all add: store_embedding_ok store_embedding_fts store_embedding_same)

interpretation caching: index_keeping "cache_embedding ser prov m key h e" for ser prov m key h e
  by unfold_locales (simp_all add: cache_embedding_def db_ok_def fts_sound_def fts_complete_def fts_agrees_def)

text \<open>Any sequence of the operations, by the indexer, the watcher and the embedding task, in any order, while
  the database refuses now these and now those of the statements of \<open>F\<close> whose result nobody looks at.\<close>

inductive index_step :: "index_statement set \<Rightarrow> 'e memory_db \<Rightarrow> 'e memory_db \<Rightarrow> bool" for F where
  indexed: "index_step F db (snd (index_file hash cfg uuids now path t mtime bytes force db))"
| removed: "index_step F db (remove_file path db)"
| embedded: "index_step F db (store_embedding ser now i e m db)"
| cached: "index_step F db (cache_embedding ser prov m key h e db)"
| refusing: "Collect fails \<subseteq> F \<Longrightarrow> index_step F db (db\<lparr>db_fails := fails\<rparr>)"

inductive index_reachable :: "bool \<Rightarrow> bool \<Rightarrow> index_statement set \<Rightarrow> 'e memory_db \<Rightarrow> bool" for has_fts has_vec F where
  created: "index_reachable has_fts has_vec F \<lparr>db_has_fts = has_fts, db_has_vec = has_vec, db_files = Map.empty,
     db_chunks = [], db_fts = [], db_vec = Map.empty, db_cache = [], db_fails = (\<lambda>_. False)\<rparr>"
| changed: "index_reachable has_fts has_vec F db \<Longrightarrow> index_step F db db' \<Longrightarrow> index_reachable has_fts has_vec F db'"

lemma index_step_keeps:
  "index_step F db db' \<Longrightarrow> index.in_order F db \<Longrightarrow> index.in_order F db' \<and> db_has_fts db' = db_has_fts db"
proof (induction rule: index_step.induct)
  case (indexed db hash cfg uuids now path t mtime bytes force)
  then show ?case by (rule index.step_in_order)
next
  case (removed db path)
  then show ?case by (rule removal.step_in_order)
next
  case (embedded db ser now i e m)
  then show ?case by (rule embedding.step_in_order)
next
  case (cached db ser prov m key h e)
  then show ?case by (rule caching.step_in_order)
next
  case (refusing fails db)
  then show ?case
    by (simp add: index.in_order_def db_ok_def fts_sound_def fts_complete_def fts_agrees_def)
qed

lemma index_reachable_ok: "index_reachable has_fts has_vec F db \<Longrightarrow> index.in_order F db \<and> db_has_fts db = has_fts"
proof (induction rule: index_reachable.induct)
  case (changed db db')
  then show ?case using index_step_keeps by blast
qed (simp add: index.in_order_def db_ok_def fts_sound_def fts_complete_def fts_agrees_def)

text \<open>C36: Whatever indexing, removals and embeddings came before, also with identifiers that collide and transactions that
  fail, and whichever of the statements with ignored results the database refused on the way (those of \<open>F\<close>): no two chunks
  have the same identifier, and every chunk belongs to a file of the index. If no deletion from the full-text table was ever refused, all its
  rows are those of chunks that are there now, and a search by text, which fails only without the table, gives only
  chunks that are there now, with their place and their text. If no insertion into it was ever refused and the table exists, every chunk has its row. If neither was, the rows are
  exactly those of the chunks, in their order and each once. Of the table of vectors nothing is said.\<close>

theorem search_finds_current_chunks:
  assumes "index_reachable has_fts has_vec F db" and "\<And>q rows. fst ` set (engine q rows) \<subseteq> set rows"
  shows "distinct (map cr_id (db_chunks db)) \<and> cr_path ` set (db_chunks db) \<subseteq> dom (db_files db)
    \<and> (F \<inter> range FtsDelete = {} \<longrightarrow>
         set (db_fts db) \<subseteq> fts_of ` set (db_chunks db)
         \<and> (case fts_search uni engine query limit db of
              Inl e \<Rightarrow> \<not> has_fts
            | Inr rs \<Rightarrow> list_all (\<lambda>r. list_ex (\<lambda>c. mc_file r = cr_path c \<and> mc_start r = cr_start c
                \<and> mc_end r = cr_end c \<and> mc_content r = cr_text c) (db_chunks db)) rs))
    \<and> (has_fts \<and> F \<inter> range FtsInsert = {} \<longrightarrow> fts_of ` set (db_chunks db) \<subseteq> set (db_fts db))
    \<and> (F \<inter> (range FtsInsert \<union> range FtsDelete) = {} \<longrightarrow>
         db_fts db = (if has_fts then map fts_of (db_chunks db) else []))"
proof -
  have o: "index.in_order F db" "db_has_fts db = has_fts" using index_reachable_ok [OF assms(1)] by simp_all
  have "case fts_search uni engine query limit db of
      Inl e \<Rightarrow> \<not> has_fts
    | Inr rs \<Rightarrow> list_all (\<lambda>r. list_ex (\<lambda>c. mc_file r = cr_path c \<and> mc_start r = cr_start c
        \<and> mc_end r = cr_end c \<and> mc_content r = cr_text c) (db_chunks db)) rs" if "fts_sound db"
  proof (cases "fts_search uni engine query limit db")
    case (Inl e)
    then show ?thesis using o(2) by (auto simp: fts_search_def split: option.splits if_splits)
  next
    case (Inr rs)
    then show ?thesis using fts_search_sound [OF that assms(2) Inr] by (simp add: list_all_iff list_ex_iff)
  qed
  with o show ?thesis
    by (auto simp: index.in_order_def db_ok_def fts_sound_def fts_complete_def fts_agrees_def)
qed

text \<open>A file is indexed, then its deletion from the full-text table is refused when it is removed.\<close>

definition indexed_db :: "unit memory_db" where
  "indexed_db = snd (index_file id \<lparr>ix_chunk_size = 400, ix_chunk_overlap = 80\<rparr> show_nat 0 ''a.md'' ''x'' 0 1 False empty_db)"

theorem search_finds_current_chunks_witness:
  "db_fts indexed_db = map fts_of (db_chunks indexed_db)
   \<and> (case fts_search (\<lambda>c. False) (\<lambda>q rows. map (\<lambda>r. (r, 0 :: nat)) rows) ''x'' 5 indexed_db of
        Inl e \<Rightarrow> False
      | Inr rs \<Rightarrow> list_all (\<lambda>r. list_ex (\<lambda>c. mc_content r = cr_text c) (db_chunks indexed_db)) rs)
   \<and> distinct (map cr_id (db_chunks (remove_file ''a.md'' (indexed_db\<lparr>db_fails := \<lambda>s. s = FtsDelete ''0''\<rparr>))))"
proof -
  have created: "index_reachable True False F empty_db" for F
    using index_reachable.created [of True False F] by (simp add: empty_db_def)
  have r: "index_reachable True False F indexed_db" for F
    unfolding indexed_db_def by (rule index_reachable.changed [OF created]) (rule index_step.indexed)
  let ?engine = "\<lambda>q rows. map (\<lambda>r. (r, 0 :: nat)) rows"
  have engine: "fst ` set (?engine q rows) \<subseteq> set rows" for q rows by auto
  have "index_step {FtsDelete ''0''} indexed_db (indexed_db\<lparr>db_fails := \<lambda>s. s = FtsDelete ''0''\<rparr>)"
    by (rule index_step.refusing) simp
  from index_reachable.changed [OF index_reachable.changed [OF r this] index_step.removed]
  have "index_reachable True False {FtsDelete ''0''} (remove_file ''a.md'' (indexed_db\<lparr>db_fails := \<lambda>s. s = FtsDelete ''0''\<rparr>))" .
  from search_finds_current_chunks [OF this, where engine = ?engine, OF engine]
    search_finds_current_chunks [OF r [of "{}"], where engine = ?engine and uni = "\<lambda>c. False" and query = "''x''" and limit = 5, OF engine]
  show ?thesis by (auto simp: list_all_iff list_ex_iff split: sum.splits)
qed

end
