(* ===== verification/Skills.thy ===== *)
theory Skills
  imports Path_Policy "HOL-Library.List_Lexorder" "HOL-Library.Char_ord" "HOL-Library.Multiset"
begin

text \<open>
  Skills (\<^verbatim>\<open>src/src/agent/skills.rs\<close>): reading the files \<open>SKILL.md\<close>, the requirements that make a skill
  eligible, which of two skills of the same name counts, slash commands and the section of the system prompt.

  The directories, \<open>which\<close>, the environment, the YAML parser and the parts of Unicode beyond ASCII are fields of
  the record \<open>skill_host\<close>. The order of strings is that of their bytes, as in Rust.
\<close>

subsection \<open>Data\<close>

record skill_requirements =
  rq_bins :: "string list"
  rq_any_bins :: "string list"
  rq_env :: "string list"

definition no_requirements :: skill_requirements where
  "no_requirements = \<lparr>rq_bins = [], rq_any_bins = [], rq_env = []\<rparr>"

record skill_metadata =
  md_emoji :: "string option"
  md_always :: bool
  md_requires :: skill_requirements

record skill_metadata_wrapper =
  mw_openclaw :: "skill_metadata option"
  mw_emoji :: "string option"
  mw_requires :: "skill_requirements option"

record skill_frontmatter =
  fm_name :: "string option"
  fm_description :: "string option"
  fm_user_invocable :: bool
  fm_disable_model_invocation :: bool
  fm_command_dispatch :: "string option"
  fm_command_tool :: "string option"
  fm_metadata :: "skill_metadata_wrapper option"

text \<open>The derived \<open>Default\<close>: every field has the default of its type.\<close>

definition default_frontmatter :: skill_frontmatter where
  "default_frontmatter =
     \<lparr>fm_name = None, fm_description = None, fm_user_invocable = False, fm_disable_model_invocation = False,
      fm_command_dispatch = None, fm_command_tool = None, fm_metadata = None\<rparr>"

datatype skill_source = Workspace | Managed | Bundled

datatype skill_eligibility =
    Ready
  | MissingBins "string list"
  | MissingEnv "string list"
  | MissingAnyBins "string list"

fun is_eligible :: "skill_eligibility \<Rightarrow> bool" where
  "is_eligible Ready = True"
| "is_eligible _ = False"

record command_dispatch =
  cd_kind :: string
  cd_tool_name :: string

record skill =
  sk_name :: string
  sk_command_name :: string
  sk_path :: path
  sk_description :: string
  sk_emoji :: "string option"
  sk_source :: skill_source
  sk_user_invocable :: bool
  sk_disable_model_invocation :: bool
  sk_command_dispatch :: "command_dispatch option"
  sk_requires :: skill_requirements
  sk_eligibility :: skill_eligibility

definition include_in_prompt :: "skill \<Rightarrow> bool" where
  "include_in_prompt s \<longleftrightarrow> \<not> sk_disable_model_invocation s \<and> is_eligible (sk_eligibility s)"

definition can_invoke :: "skill \<Rightarrow> bool" where
  "can_invoke s \<longleftrightarrow> sk_user_invocable s \<and> is_eligible (sk_eligibility s)"

record skill_host =
  sh_alnum :: "string \<Rightarrow> bool"
  sh_lower :: "string \<Rightarrow> string"
  sh_yaml :: "string \<Rightarrow> skill_frontmatter option"
  sh_which :: "string \<Rightarrow> bool"
  sh_env :: "string \<Rightarrow> bool"

subsection \<open>Reading a skill\<close>

text \<open>The lines between the first line \<open>---\<close> and the next one are YAML; what cannot be read is body.\<close>

definition fence :: "string \<Rightarrow> bool" where
  "fence l \<longleftrightarrow> trim l = ''---''"

definition parse_frontmatter :: "skill_host \<Rightarrow> string \<Rightarrow> skill_frontmatter \<times> string" where
  "parse_frontmatter h txt =
     (case lines txt of
        [] \<Rightarrow> (default_frontmatter, txt)
      | l # ls \<Rightarrow>
          if \<not> fence l \<or> \<not> list_ex fence ls then (default_frontmatter, txt)
          else
            (case sh_yaml h (join nl (takeWhile (\<lambda>x. \<not> fence x) ls)) of
               None \<Rightarrow> (default_frontmatter, txt)
             | Some fm \<Rightarrow> (fm, join nl (tl (dropWhile (\<lambda>x. \<not> fence x) ls)))))"

definition extract_description_from_body :: "string \<Rightarrow> string" where
  "extract_description_from_body body =
     (case filter (\<lambda>t. t \<noteq> [] \<and> \<not> starts_with t ''#'') (map trim (lines body)) of
        [] \<Rightarrow> []
      | t # _ \<Rightarrow> take_chars 100 t)"

definition trim_matches :: "string \<Rightarrow> string list \<Rightarrow> string list" where
  "trim_matches p cs = rev (dropWhile (\<lambda>c. c = p) (rev (dropWhile (\<lambda>c. c = p) cs)))"

definition command_char :: "skill_host \<Rightarrow> string \<Rightarrow> string" where
  "command_char h c = (if is_alphanumeric (sh_alnum h) c then to_lowercase c else ''-'')"

definition sanitize_command_name :: "skill_host \<Rightarrow> string \<Rightarrow> string" where
  "sanitize_command_name h n = concat (take 32 (trim_matches ''-'' (map (command_char h) (chars n))))"

definition check_eligibility :: "skill_host \<Rightarrow> skill_requirements \<Rightarrow> skill_eligibility" where
  "check_eligibility h req =
     (let missing_bins = filter (\<lambda>b. \<not> sh_which h b) (rq_bins req);
          missing_env = filter (\<lambda>v. \<not> sh_env h v) (rq_env req)
      in if missing_bins \<noteq> [] then MissingBins missing_bins
         else if rq_any_bins req \<noteq> [] \<and> \<not> list_ex (sh_which h) (rq_any_bins req) then MissingAnyBins (rq_any_bins req)
         else if missing_env \<noteq> [] then MissingEnv missing_env
         else Ready)"

definition skill_extras :: "skill_frontmatter \<Rightarrow> string option \<times> skill_requirements \<times> bool" where
  "skill_extras fm =
     (case fm_metadata fm of
        None \<Rightarrow> (None, no_requirements, False)
      | Some meta \<Rightarrow>
          (case mw_openclaw meta of
             Some oc \<Rightarrow> (md_emoji oc, md_requires oc, md_always oc)
           | None \<Rightarrow> (mw_emoji meta, unwrap_or (mw_requires meta) no_requirements, False)))"

text \<open>\<open>txt\<close> is the result of reading the file.\<close>

definition load_skill ::
  "skill_host \<Rightarrow> path \<Rightarrow> string \<Rightarrow> skill_source \<Rightarrow> (anyhow_error, string) res \<Rightarrow> (anyhow_error, skill) res" where
  "load_skill h p dir_name src txt =
     map_sum id (\<lambda>t.
       let (fm, body) = parse_frontmatter h t;
           name = unwrap_or (fm_name fm) dir_name;
           (emoji, req, always) = skill_extras fm
       in \<lparr>sk_name = name, sk_command_name = sanitize_command_name h name, sk_path = p,
           sk_description = unwrap_or (fm_description fm) (extract_description_from_body body), sk_emoji = emoji, sk_source = src,
           sk_user_invocable = fm_user_invocable fm, sk_disable_model_invocation = fm_disable_model_invocation fm,
           sk_command_dispatch =
             (if fm_command_dispatch fm = Some ''tool''
              then map_option (\<lambda>t. \<lparr>cd_kind = ''tool'', cd_tool_name = t\<rparr>) (fm_command_tool fm) else None),
           sk_requires = req, sk_eligibility = (if always then Ready else check_eligibility h req)\<rparr>) txt"

subsection \<open>Directories of skills\<close>

text \<open>An entry of a directory; \<open>de_skill\<close> is the result of reading its \<open>SKILL.md\<close>, \<open>None\<close> where there is none.\<close>

record dir_entry =
  de_path :: path
  de_is_dir :: bool
  de_skill :: "(anyhow_error, string) res option"

definition load_entry_skill :: "skill_host \<Rightarrow> skill_source \<Rightarrow> dir_entry \<Rightarrow> skill option" where
  "load_entry_skill h src e =
     (if \<not> de_is_dir e then None
      else case de_skill e of
        None \<Rightarrow> None
      | Some txt \<Rightarrow>
          ok_opt (load_skill h (path_join (de_path e) [Normal ''SKILL.md''])
            (unwrap_or (file_name (de_path e)) ''unknown'') src txt))"

fun load_skill_entries :: "skill_host \<Rightarrow> skill_source \<Rightarrow> (anyhow_error, dir_entry) res list \<Rightarrow> (anyhow_error, skill list) res" where
  "load_skill_entries h src [] = Inr []"
| "load_skill_entries h src (Inl e # es) = Inl e"
| "load_skill_entries h src (Inr d # es) =
     map_sum id (\<lambda>ss. case load_entry_skill h src d of Some s \<Rightarrow> s # ss | None \<Rightarrow> ss) (load_skill_entries h src es)"

type_synonym listing = "(anyhow_error, (anyhow_error, dir_entry) res list) res"

definition load_skills_from_dir :: "skill_host \<Rightarrow> skill_source \<Rightarrow> listing \<Rightarrow> (anyhow_error, skill list) res" where
  "load_skills_from_dir h src dir = bind_res dir (load_skill_entries h src)"

text \<open>A directory that does not exist is \<open>None\<close>; \<open>order\<close> is the order of \<open>into_values\<close>.\<close>

definition load_optional :: "skill_host \<Rightarrow> skill_source \<Rightarrow> listing option \<Rightarrow> (anyhow_error, skill list) res" where
  "load_optional h src dir = (case dir of None \<Rightarrow> Inr [] | Some d \<Rightarrow> load_skills_from_dir h src d)"

definition insert_skills :: "skill list \<Rightarrow> (string \<times> skill) list \<Rightarrow> (string \<times> skill) list" where
  "insert_skills ss m = fold (\<lambda>s. put (sk_name s) s) ss m"

definition load_skills ::
  "skill_host \<Rightarrow> (skill list \<Rightarrow> skill list) \<Rightarrow> listing option \<Rightarrow> listing option \<Rightarrow> (anyhow_error, skill list) res" where
  "load_skills h order managed_dir workspace_dir =
     bind_res (load_optional h Managed managed_dir) (\<lambda>ms.
       bind_res (load_optional h Workspace workspace_dir) (\<lambda>ws.
         Inr (sort_key sk_name (order (map snd (insert_skills ws (insert_skills ms [])))))))"

subsection \<open>Slash commands\<close>

record skill_invocation =
  si_skill_name :: string
  si_args :: string
  si_dispatch :: "command_dispatch option"

definition hyphens :: "string \<Rightarrow> string" where
  "hyphens s = map (\<lambda>c. if c = CHR ''_'' then CHR ''-'' else c) s"

text \<open>\<open>split_once(char::is_whitespace)\<close>.\<close>

definition split_once_whitespace :: "string \<Rightarrow> (string \<times> string) option" where
  "split_once_whitespace s =
     (let cs = chars s; word = takeWhile (\<lambda>c. \<not> is_whitespace c) cs in
      if word = cs then None else Some (concat word, concat (drop (length word + 1) cs)))"

definition answers_to :: "skill_host \<Rightarrow> string \<Rightarrow> skill \<Rightarrow> bool" where
  "answers_to h cmd s \<longleftrightarrow> can_invoke s \<and> (cmd = hyphens (sk_command_name s) \<or> cmd = hyphens (sh_lower h (sk_name s)))"

definition parse_skill_command :: "skill_host \<Rightarrow> string \<Rightarrow> skill list \<Rightarrow> skill_invocation option" where
  "parse_skill_command h input skills =
     (let inp = trim input in
      if \<not> starts_with inp ''/'' then None
      else
        let without_slash = tl inp;
            (cmd, args) = (case split_once_whitespace without_slash of
               Some (c, a) \<Rightarrow> (trim c, trim a)
             | None \<Rightarrow> (trim without_slash, []))
        in map_option (\<lambda>s. \<lparr>si_skill_name = sk_name s, si_args = args, si_dispatch = sk_command_dispatch s\<rparr>)
             (find (answers_to h (hyphens (sh_lower h cmd))) skills))"

subsection \<open>Texts\<close>

definition emoji_or :: "(string \<Rightarrow> string) \<Rightarrow> skill \<Rightarrow> string" where
  "emoji_or f s = (case sk_emoji s of Some e \<Rightarrow> f e | None \<Rightarrow> [])"

definition prompt_lines :: "skill \<Rightarrow> string list" where
  "prompt_lines s =
     [''- '' @ emoji_or (\<lambda>e. e @ '' '') s @ sk_name s @ '': '' @ sk_description s
        @ (if sk_user_invocable s then '' (or use /'' @ sk_command_name s @ '' command)'' else []),
      ''  location: '' @ display (sk_path s)]"

definition command_line :: "skill \<Rightarrow> string" where
  "command_line s = ''- /'' @ sk_command_name s @ emoji_or (\<lambda>e. '' '' @ e) s @ '' - '' @ sk_description s"

definition build_skills_prompt :: "skill list \<Rightarrow> string" where
  "build_skills_prompt skills =
     (let prompt_skills = filter include_in_prompt skills; invocable = filter can_invoke skills in
      if prompt_skills = [] then []
      else join nl (
        [''## Skills'', [],
         ''Before replying: scan available skills below. If one clearly applies, read its SKILL.md with read_file, then follow it.'',
         [], ''<available_skills>'']
        @ concat (map prompt_lines prompt_skills)
        @ [''</available_skills>'', []]
        @ (if invocable = [] then [] else ''Available slash commands:'' # map command_line invocable @ [[]])
        @ [''Rules:'', ''- If exactly one skill clearly applies: read its SKILL.md, then follow it.'',
           ''- If multiple could apply: choose the most specific one.'', ''- If none clearly apply: do not read any SKILL.md.'', []]))"

fun source_tag :: "skill_source \<Rightarrow> string" where
  "source_tag Workspace = ''[workspace]''"
| "source_tag Managed = ''[managed]''"
| "source_tag Bundled = ''[bundled]''"

fun blocked_reason :: "skill_eligibility \<Rightarrow> string" where
  "blocked_reason Ready = ''ready''"
| "blocked_reason (MissingBins bins) = ''missing bins: '' @ join '', '' bins"
| "blocked_reason (MissingEnv vars) = ''missing env: '' @ join '', '' vars"
| "blocked_reason (MissingAnyBins bins) = ''need one of: '' @ join '', '' bins"

definition get_skills_summary :: "skill list \<Rightarrow> string" where
  "get_skills_summary skills =
     (let ready = filter (\<lambda>s. is_eligible (sk_eligibility s)) skills; blocked = filter (\<lambda>s. \<not> is_eligible (sk_eligibility s)) skills in
      join nl (
        [''Skills: '' @ show_nat (length ready) @ '' ready, '' @ show_nat (length blocked) @ '' blocked'']
        @ (if ready = [] then []
           else [[], ''Ready:''] @ map (\<lambda>s. ''  /'' @ sk_command_name s @ emoji_or (\<lambda>e. '' '' @ e) s @ '' - '' @ sk_description s
                  @ '' '' @ source_tag (sk_source s)) ready)
        @ (if blocked = [] then []
           else [[], ''Blocked:''] @ map (\<lambda>s. ''  '' @ sk_name s @ '' - '' @ blocked_reason (sk_eligibility s)) blocked)))"

subsection \<open>Which skills there are\<close>

lemma check_eligibility_ready:
  "check_eligibility h req = Ready \<longleftrightarrow>
     list_all (sh_which h) (rq_bins req) \<and> (rq_any_bins req = [] \<or> list_ex (sh_which h) (rq_any_bins req))
     \<and> list_all (sh_env h) (rq_env req)"
  by (auto simp: check_eligibility_def Let_def filter_empty_conv list_all_iff)

definition named :: "(string \<times> skill) list \<Rightarrow> bool" where
  "named m \<longleftrightarrow> distinct (map fst m) \<and> (\<forall>(k, s) \<in> set m. k = sk_name s)"

lemma named_put: "named m \<Longrightarrow> named (put (sk_name s) s m)"
  using set_put [of "sk_name s" s m] by (auto simp: named_def distinct_put)

lemma named_insert_skills: "named m \<Longrightarrow> named (insert_skills ss m)"
  unfolding insert_skills_def by (induction ss arbitrary: m) (simp_all add: named_put)

lemma find_append: "find P (xs @ ys) = (case find P xs of Some x \<Rightarrow> Some x | None \<Rightarrow> find P ys)"
  by (induction xs) auto

lemma map_of_insert_skills:
  "map_of (insert_skills ss m) n = (case find (\<lambda>s. sk_name s = n) (rev ss) of Some s \<Rightarrow> Some s | None \<Rightarrow> map_of m n)"
  unfolding insert_skills_def
  by (induction ss arbitrary: m) (auto simp: find_append split: option.splits)

lemma insert_skills_append: "insert_skills ws (insert_skills ms m) = insert_skills (ms @ ws) m"
  by (simp add: insert_skills_def)

lemma named_values: "named m \<Longrightarrow> s \<in> snd ` set m \<longleftrightarrow> map_of m (sk_name s) = Some s"
  by (auto simp: named_def intro: rev_image_eqI dest: map_of_SomeD)

lemma named_names: "named m \<Longrightarrow> map sk_name (map snd m) = map fst m"
  by (auto simp: named_def)

text \<open>Of the skills with one name, the last one of the workspace is taken, and the last one of the user's own directory
  when the workspace has none; the result is in the order of the names and does not depend on the order in which
  the hash map gives its values.\<close>

theorem load_skills_precedence:
  assumes "\<And>xs. mset (order xs) = mset xs"
    and "load_optional h Managed managed_dir = Inr ms" and "load_optional h Workspace workspace_dir = Inr ws"
  shows "\<exists>skills. load_skills h order managed_dir workspace_dir = Inr skills \<and> sorted_wrt (<) (map sk_name skills)
    \<and> (\<forall>s. s \<in> set skills \<longleftrightarrow> find (\<lambda>t. sk_name t = sk_name s) (rev (ms @ ws)) = Some s)"
proof -
  let ?m = "insert_skills (ms @ ws) []"
  let ?skills = "sort_key sk_name (order (map snd ?m))"
  have named: "named ?m" by (rule named_insert_skills) (simp add: named_def)
  have same: "mset ?skills = mset (map snd ?m)" using assms(1) by simp
  have "mset (map sk_name ?skills) = mset (map sk_name (map snd ?m))" by (simp only: mset_map same)
  then have "mset (map sk_name ?skills) = mset (map fst ?m)" by (simp only: named_names [OF named])
  then have "distinct (map sk_name ?skills)"
    using named by (metis named_def mset_eq_imp_distinct_iff)
  then have "sorted_wrt (<) (map sk_name ?skills)" by (simp add: strict_sorted_iff)
  moreover have "s \<in> set ?skills \<longleftrightarrow> find (\<lambda>t. sk_name t = sk_name s) (rev (ms @ ws)) = Some s" for s
  proof -
    have "set ?skills = snd ` set ?m" using mset_eq_setD [OF same] by simp
    then show ?thesis
      using named_values [OF named, of s] map_of_insert_skills [of "ms @ ws" "[]" "sk_name s"] by (auto split: option.splits)
  qed
  ultimately show ?thesis using assms(2, 3) by (simp add: load_skills_def insert_skills_append)
qed

definition sample_host :: skill_host where
  "sample_host = \<lparr>sh_alnum = (\<lambda>c. False), sh_lower = to_lowercase,
     sh_yaml = (\<lambda>y. Some (default_frontmatter\<lparr>fm_user_invocable := True, fm_description := Some y\<rparr>)),
     sh_which = (\<lambda>b. True), sh_env = (\<lambda>v. False)\<rparr>"

definition skill_dir :: "string \<Rightarrow> string \<Rightarrow> listing" where
  "skill_dir n txt = Inr [Inr \<lparr>de_path = [RootDir, Normal n], de_is_dir = True, de_skill = Some (Inr txt)\<rparr>]"

theorem load_skills_precedence_witness:
  "\<exists>ms ws skills. load_optional sample_host Managed (Some (skill_dir ''a'' ''old'')) = Inr ms
     \<and> load_optional sample_host Workspace (Some (skill_dir ''a'' ''new'')) = Inr ws
     \<and> load_skills sample_host rev (Some (skill_dir ''a'' ''old'')) (Some (skill_dir ''a'' ''new'')) = Inr skills
     \<and> sorted_wrt (<) (map sk_name skills)"
proof -
  obtain ms ws where "load_optional sample_host Managed (Some (skill_dir ''a'' ''old'')) = Inr ms"
    "load_optional sample_host Workspace (Some (skill_dir ''a'' ''new'')) = Inr ws"
    by (simp add: load_optional_def skill_dir_def load_skills_from_dir_def)
  then show ?thesis
    using load_skills_precedence [of rev sample_host "Some (skill_dir ''a'' ''old'')" ms "Some (skill_dir ''a'' ''new'')" ws] by auto
qed

subsection \<open>Commands\<close>

definition command_letter :: "skill_host \<Rightarrow> string \<Rightarrow> bool" where
  "command_letter h c \<longleftrightarrow>
     c = ''-'' \<or> (\<exists>d. is_alphanumeric (sh_alnum h) d \<and> d \<noteq> [] \<and> list_all is_cont_byte (tl d) \<and> c = to_lowercase d)"

lemma set_trim_matches: "set (trim_matches p cs) \<subseteq> set cs"
  by (auto simp: trim_matches_def dest!: set_dropWhileD)

lemma sanitize_command_name_shape:
  "\<exists>cs. sanitize_command_name h n = concat cs \<and> length cs \<le> 32 \<and> list_all (command_letter h) cs \<and> (cs = [] \<or> hd cs \<noteq> ''-'')"
proof -
  let ?t = "trim_matches ''-'' (map (command_char h) (chars n))"
  have "c \<in> set ?t \<Longrightarrow> command_letter h c" for c
    using set_trim_matches [of "''-''" "map (command_char h) (chars n)"] by (auto simp: command_letter_def command_char_def dest: chars_shape)
  moreover have "hd ?t \<noteq> ''-''" if "?t \<noteq> []"
  proof -
    let ?u = "dropWhile (\<lambda>c. c = ''-'') (map (command_char h) (chars n))"
    obtain v where v: "?u = ?t @ v"
      unfolding trim_matches_def by (metis rev_append rev_rev_ident takeWhile_dropWhile_id)
    then have "hd ?u = hd ?t" "?u \<noteq> []" using that by auto
    then show ?thesis using hd_dropWhile [of "\<lambda>c. c = ''-''" "map (command_char h) (chars n)"] by simp
  qed
  ultimately show ?thesis
    by (intro exI [of _ "take 32 ?t"]) (auto simp: sanitize_command_name_def list_all_iff dest: in_set_takeD)
qed

text \<open>\<open>trim\<close> on code points.\<close>

definition strip_end :: "string list \<Rightarrow> string list" where
  "strip_end cs = rev (dropWhile is_whitespace (rev cs))"

lemma strip_end_split:
  assumes "\<not> list_all is_whitespace cs"
  obtains m q x where "cs = m @ [x] @ q" "list_all is_whitespace q" "\<not> is_whitespace x" "strip_end cs = m @ [x]"
proof -
  have "\<exists>x \<in> set cs. \<not> is_whitespace x" using assms by (auto simp: list_all_iff)
  then obtain m x q where "cs = m @ x # q" "\<not> is_whitespace x" "\<forall>y \<in> set q. is_whitespace y"
    using split_list_last_prop [of cs "\<lambda>x. \<not> is_whitespace x"] by blast
  then show ?thesis
    using that [of m x q] by (simp add: strip_end_def list_all_iff dropWhile_append3)
qed

lemma strip_end_append: "\<not> list_all is_whitespace b \<Longrightarrow> strip_end (a @ b) = a @ strip_end b"
  by (auto simp: strip_end_def list_all_iff intro: dropWhile_append1 simp: dropWhile_append)

lemma strip_end_blank: "list_all is_whitespace b \<Longrightarrow> strip_end (a @ b) = strip_end a"
  by (simp add: strip_end_def list_all_iff dropWhile_append)

lemma trim_points: "list_all code_point cs \<Longrightarrow> trim (concat cs) = concat (strip_end (dropWhile is_whitespace cs))"
  by (simp add: trim_def chars_concat strip_end_def)

lemma trim_strip_end:
  assumes "starts_clean s" and "\<not> list_all is_whitespace (chars s)"
  shows "trim (concat (strip_end (chars s))) = trim s"
proof -
  obtain m q x where cs: "chars s = m @ [x] @ q" "list_all is_whitespace q" "\<not> is_whitespace x" "strip_end (chars s) = m @ [x]"
    using strip_end_split [OF assms(2)] .
  have points: "list_all code_point (m @ [x])" using code_point_chars [OF assms(1)] cs(1) by simp
  have "dropWhile is_whitespace (m @ [x] @ q) = dropWhile is_whitespace (m @ [x]) @ q"
    using cs(3) by (simp add: dropWhile_append)
  then have "strip_end (dropWhile is_whitespace (chars s)) = strip_end (dropWhile is_whitespace (m @ [x]))"
    using cs(1, 2) strip_end_blank by simp
  then show ?thesis using trim_points [OF points] cs(4) by (simp add: trim_def strip_end_def)
qed

text \<open>A command name in ASCII is left alone by the normalisation of what the user types.\<close>

definition is_ascii :: "string \<Rightarrow> bool" where
  "is_ascii s \<longleftrightarrow> list_all (\<lambda>c. byte c < 128) s"

definition lowers_ascii :: "skill_host \<Rightarrow> bool" where
  "lowers_ascii h \<longleftrightarrow> (\<forall>s. is_ascii s \<longrightarrow> sh_lower h s = to_lowercase s)"

definition plain_letter :: "char \<Rightarrow> bool" where
  "plain_letter c \<longleftrightarrow> c = CHR ''-'' \<or> 48 \<le> byte c \<and> byte c \<le> 57 \<or> 97 \<le> byte c \<and> byte c \<le> 122"

lemma plain_letter_simps:
  assumes "plain_letter c"
  shows "to_lowercase_char c = c" "c \<noteq> CHR ''_''" "\<not> is_cont_byte c" "\<not> is_whitespace [c]" "byte c < 128"
  using assms by (auto simp: plain_letter_def to_lowercase_char_def is_cont_byte_def is_whitespace_def)

lemma lower_cont: "is_cont_byte c \<Longrightarrow> to_lowercase_char c = c"
  by (auto simp: is_cont_byte_def to_lowercase_char_def)

lemma ascii_command_letter:
  assumes "command_letter h c" and "is_ascii c"
  shows "list_all plain_letter c"
proof (cases "c = ''-''")
  case False
  then obtain d where d: "is_alphanumeric (sh_alnum h) d" "d \<noteq> []" "list_all is_cont_byte (tl d)" "c = to_lowercase d"
    using assms(1) by (auto simp: command_letter_def)
  then obtain b bs where b: "d = b # bs" by (cases d) auto
  have "bs = []"
    using d(3, 4) assms(2) lower_cont by (cases bs) (auto simp: b to_lowercase_def is_ascii_def is_cont_byte_def)
  then show ?thesis using d(1, 4)
    by (auto simp: b is_alphanumeric_def to_lowercase_def to_lowercase_char_def plain_letter_def)
qed (simp add: plain_letter_def)

lemma ascii_command_name:
  assumes "is_ascii (sanitize_command_name h n)"
  shows "list_all plain_letter (sanitize_command_name h n)"
proof -
  obtain cs where cs: "sanitize_command_name h n = concat cs" "list_all (command_letter h) cs"
    using sanitize_command_name_shape by metis
  then have "list_all is_ascii cs" using assms by (auto simp: is_ascii_def list_all_iff)
  then show ?thesis using cs ascii_command_letter unfolding list_all_iff by fastforce
qed

lemma plain_name_fixed:
  assumes "list_all plain_letter c"
  shows "to_lowercase c = c" "hyphens c = c" "is_ascii c" "chars c = map (\<lambda>b. [b]) c" "trim c = c"
proof -
  show points: "chars c = map (\<lambda>b. [b]) c"
    using assms by (intro chars_ascii) (auto simp: list_all_iff plain_letter_simps)
  have nows: "\<forall>x \<in> set (chars c). \<not> is_whitespace x" using assms points by (auto simp: list_all_iff plain_letter_simps)
  then have "dropWhile is_whitespace (chars c) = chars c" "dropWhile is_whitespace (rev (chars c)) = rev (chars c)"
    by (auto simp: dropWhile_eq_self_iff hd_rev)
  then show "trim c = c" by (simp add: trim_def)
  show "to_lowercase c = c" "hyphens c = c" "is_ascii c"
    using assms by (auto simp: to_lowercase_def hyphens_def is_ascii_def list_all_iff plain_letter_simps intro!: map_idI)
qed

text \<open>What is left of a typed command after trimming, in its two forms.\<close>

lemma trim_command:
  assumes "list_all plain_letter c" and "starts_clean args"
  shows "trim (''/'' @ c @ '' '' @ args) =
    (if list_all is_whitespace (chars args) then ''/'' @ c else ''/'' @ c @ '' '' @ concat (strip_end (chars args)))"
proof -
  let ?pre = "map (\<lambda>b. [b]) (''/'' @ c)"
  have points: "list_all code_point ?pre" "code_point '' ''"
    using assms(1) plain_letter_simps(3) by (auto simp: code_point_def list_all_iff) (simp_all add: is_cont_byte_def)
  have all: "''/'' @ c @ '' '' @ args = concat (?pre @ '' '' # chars args)" by simp
  have whole: "trim (concat (?pre @ '' '' # chars args)) = concat (strip_end (dropWhile is_whitespace (?pre @ '' '' # chars args)))"
    using points code_point_chars [OF assms(2)] by (intro trim_points) simp
  have "dropWhile is_whitespace (?pre @ '' '' # chars args) = ?pre @ '' '' # chars args" by (simp add: is_whitespace_def)
  moreover have "strip_end (?pre @ '' '' # chars args) = ?pre" if "list_all is_whitespace (chars args)"
  proof -
    have "\<not> is_whitespace [last (''/'' @ c)]"
      using assms(1) plain_letter_simps(4) [of "last c"] by (cases "c = []") (auto simp: list_all_iff, simp add: is_whitespace_def)
    then have "\<not> is_whitespace (last ?pre)" by (subst last_map) simp_all
    then have "strip_end ?pre = ?pre" unfolding strip_end_def by (subst dropWhile_eq_self_iff [THEN iffD2]) (simp_all only: hd_rev, simp_all)
    then show ?thesis using that strip_end_blank [of "'' '' # chars args" ?pre] by (simp add: is_whitespace_def)
  qed
  moreover have "strip_end (?pre @ '' '' # chars args) = (?pre @ ['' '']) @ strip_end (chars args)" if "\<not> list_all is_whitespace (chars args)"
    using strip_end_append [OF that, of "?pre @ ['' '']"] by simp
  ultimately show ?thesis unfolding all whole by simp
qed

lemma find_SomeD: "find P xs = Some y \<Longrightarrow> y \<in> set xs \<and> P y"
  by (induction xs) (auto split: if_splits)

lemma find_some_unique:
  assumes "\<And>t. t \<in> set xs \<Longrightarrow> P t \<Longrightarrow> t = x" and "x \<in> set xs" and "P x"
  shows "find P xs = Some x"
proof (cases "find P xs")
  case None
  then show ?thesis using assms(2, 3) by (simp add: find_None_iff)
next
  case (Some y)
  then show ?thesis using assms(1) find_SomeD [of P xs y] by blast
qed

text \<open>The commands that are offered work. A skill that can be invoked, whose command name is in ASCII and taken by no other
  skill, is found under its command name, with any arguments after a blank; the arguments are handed on
  without the blanks around them.\<close>

lemma skill_command_found:
  assumes "s \<in> set skills" and "can_invoke s" and "sk_command_name s = sanitize_command_name h (sk_name s)"
    and "is_ascii (sk_command_name s)" and "lowers_ascii h" and "starts_clean args"
    and "\<And>t. t \<in> set skills \<Longrightarrow> answers_to h (sk_command_name s) t \<Longrightarrow> t = s"
  shows "parse_skill_command h (''/'' @ sk_command_name s @ '' '' @ args) skills =
    Some \<lparr>si_skill_name = sk_name s, si_args = trim args, si_dispatch = sk_command_dispatch s\<rparr>"
proof -
  let ?c = "sk_command_name s"
  have plain: "list_all plain_letter ?c" using ascii_command_name assms(3, 4) by metis
  note fixed = plain_name_fixed [OF plain]
  have cmd: "hyphens (sh_lower h ?c) = ?c" using assms(5) fixed(1-3) by (simp add: lowers_ascii_def)
  have "answers_to h ?c s" using assms(2) fixed(2) by (simp add: answers_to_def)
  then have found: "find (answers_to h ?c) skills = Some s"
    using assms(1) find_some_unique [OF assms(7)] by simp
  have word: "takeWhile (\<lambda>x. \<not> is_whitespace x) (map (\<lambda>b. [b]) ?c @ ys) = map (\<lambda>b. [b]) ?c @ takeWhile (\<lambda>x. \<not> is_whitespace x) ys" for ys
    using plain by (subst takeWhile_append2) (auto simp: list_all_iff plain_letter_simps)
  show ?thesis
  proof (cases "list_all is_whitespace (chars args)")
    case True
    have blank: "dropWhile is_whitespace (chars args) = []" using True by (simp add: list_all_iff)
    have "trim args = []" by (simp only: trim_def blank) simp
    moreover have "split_once_whitespace ?c = None" using word [of "[]"] fixed(4) by (simp add: split_once_whitespace_def)
    ultimately show ?thesis
      using True trim_command [OF plain assms(6)] cmd found fixed(5)
      by (simp add: parse_skill_command_def starts_with_def)
  next
    case False
    let ?t = "strip_end (chars args)"
    have "list_all code_point (map (\<lambda>b. [b]) ?c)" "code_point '' ''"
      using plain plain_letter_simps(3) by (auto simp: code_point_def list_all_iff) (simp add: is_cont_byte_def)
    moreover have "list_all code_point ?t"
      using code_point_chars [OF assms(6)] by (auto simp: strip_end_def list_all_iff dest: set_dropWhileD)
    ultimately have "chars (?c @ '' '' @ concat ?t) = map (\<lambda>b. [b]) ?c @ '' '' # ?t"
      using chars_concat [of "map (\<lambda>b. [b]) ?c @ '' '' # ?t"] by simp
    then have "split_once_whitespace (?c @ '' '' @ concat ?t) = Some (?c, concat ?t)"
      using word [of "'' '' # ?t"] by (simp add: split_once_whitespace_def is_whitespace_def)
    then show ?thesis
      using False trim_command [OF plain assms(6)] cmd found fixed(5) trim_strip_end [OF assms(6) False]
      by (simp add: parse_skill_command_def starts_with_def)
  qed
qed

definition sample_skill :: skill where
  "sample_skill = \<lparr>sk_name = ''GitHub PR'', sk_command_name = sanitize_command_name sample_host ''GitHub PR'', sk_path = [],
     sk_description = [], sk_emoji = None, sk_source = Workspace, sk_user_invocable = True, sk_disable_model_invocation = False,
     sk_command_dispatch = None, sk_requires = no_requirements, sk_eligibility = Ready\<rparr>"

lemma sample_command: "sanitize_command_name sample_host ''GitHub PR'' = ''github-pr''"
  by code_simp

text \<open>Beyond ASCII they need not work: the command name keeps a capital letter that the typed command loses.\<close>

definition umlaut :: "nat \<Rightarrow> string" where
  "umlaut n = [CHR 0xC3, char_of n]"

definition umlaut_host :: skill_host where
  "umlaut_host = sample_host\<lparr>sh_alnum := (\<lambda>c. c = umlaut 132 \<or> c = umlaut 164),
     sh_lower := (\<lambda>s. if prefix (umlaut 132) s then umlaut 164 @ to_lowercase (drop 2 s) else to_lowercase s)\<rparr>"

definition umlaut_skill :: skill where
  "umlaut_skill = sample_skill\<lparr>sk_name := umlaut 132 @ '' b'', sk_command_name := umlaut 132 @ ''-b''\<rparr>"

lemma umlaut_command_lost:
  "can_invoke umlaut_skill" "sk_command_name umlaut_skill = sanitize_command_name umlaut_host (sk_name umlaut_skill)"
  "parse_skill_command umlaut_host (''/'' @ sk_command_name umlaut_skill) [umlaut_skill] = None"
  by code_simp+

text \<open>A skill whose file has no header cannot be invoked by a command, although the field is said to be true by default.\<close>

lemma no_frontmatter_not_invocable:
  assumes "lines txt = [] \<or> \<not> fence (hd (lines txt))" and "load_skill h p n src (Inr txt) = Inr s"
  shows "\<not> can_invoke s"
proof -
  have "parse_frontmatter h txt = (default_frontmatter, txt)"
    using assms(1) by (auto simp: parse_frontmatter_def split: list.splits)
  then have "\<not> sk_user_invocable s"
    using assms(2) by (auto simp: load_skill_def default_frontmatter_def split: prod.splits)
  then show ?thesis by (simp add: can_invoke_def)
qed

end
