(* ===== verification/Disk_Monitor.thy ===== *)
theory Disk_Monitor
  imports Path_Policy "HOL-Library.Multiset"
begin

text \<open>
  The disk monitor (\<^verbatim>\<open>src/src/agent/disk_monitor.rs\<close>): the flag for low space and the removal of old sessions and
  logs.

  The file system is a record of functions on a world that removals change. Times are nanoseconds, the
  comparison of the free share with its threshold is a parameter (it is made in floating point), and a panic
  is \<open>None\<close>.
\<close>

subsection \<open>Low space\<close>

record disk_config =
  dc_monitor_interval :: string
  dc_session_retention_days :: u32
  dc_max_log_size_mb :: u32

record disk_monitor =
  mon_config :: disk_config
  mon_degraded :: bool

definition check_disk_space ::
  "(u64 \<Rightarrow> u64 \<Rightarrow> bool) \<Rightarrow> ('e, u64) res \<Rightarrow> ('e, u64) res \<Rightarrow> disk_monitor \<Rightarrow> disk_monitor" where
  "check_disk_space low available total_space m =
     (case available of
        Inl _ \<Rightarrow> m
      | Inr a \<Rightarrow>
          (case total_space of
             Inl _ \<Rightarrow> m
           | Inr t \<Rightarrow>
               if low a t then (if \<not> mon_degraded m then m\<lparr>mon_degraded := True\<rparr> else m)
               else (if mon_degraded m then m\<lparr>mon_degraded := False\<rparr> else m)))"

text \<open>\<open>parse_duration\<close> of this file: a number and one unit. Seconds wrap at 64 bits.\<close>

definition interval_duration :: "string \<Rightarrow> (string, u64) res option" where
  "interval_duration s =
     (if length s < 2 then Some (Inl ''Invalid duration format'')
      else if \<not> is_char_boundary (length s - 1) s then None
      else Some (case parse_uint (2 ^ 64 - 1) (butlast s) of
          None \<Rightarrow> Inl ''Invalid number''
        | Some n \<Rightarrow>
            if last s = CHR ''s'' then Inr (of_nat n)
            else if last s = CHR ''m'' then Inr (of_nat n * 60)
            else if last s = CHR ''h'' then Inr (of_nat n * 3600)
            else Inl ''Unknown unit''))"

text \<open>A monitor and the interval of its task, which is not started where the environment disables it.\<close>

definition monitor_new :: "bool \<Rightarrow> disk_config \<Rightarrow> (disk_monitor \<times> u64 option) option" where
  "monitor_new disabled cfg =
     (let m = \<lparr>mon_config = cfg, mon_degraded = False\<rparr> in
      if disabled then Some (m, None)
      else map_option (\<lambda>d. (m, Some (case d of Inr t \<Rightarrow> t | Inl _ \<Rightarrow> 60))) (interval_duration (dc_monitor_interval cfg)))"

lemma check_disk_space_spec:
  "mon_degraded (check_disk_space low available total_space m) =
     (case (available, total_space) of (Inr a, Inr t) \<Rightarrow> low a t | _ \<Rightarrow> mon_degraded m)"
  "mon_config (check_disk_space low available total_space m) = mon_config m"
  by (auto simp: check_disk_space_def split: sum.splits)

lemma interval_duration_panics:
  "interval_duration s = None \<longleftrightarrow> 2 \<le> length s \<and> is_cont_byte (last s)"
  by (cases s rule: rev_cases) (auto simp: interval_duration_def is_char_boundary_def nth_append Suc_le_eq)

subsection \<open>Cleaning up\<close>

definition extension :: "path \<Rightarrow> string option" where
  "extension p =
     (case file_name p of
        None \<Rightarrow> None
      | Some n \<Rightarrow>
          (let ext = rev (takeWhile (\<lambda>c. c \<noteq> CHR ''.'') (rev n)) in
           if length n \<le> length ext + 1 then None else Some ext))"

record disk_file =
  df_path :: path
  df_is_dir :: bool
  df_meta :: "(u64 \<times> int option) option"

record 'w disk_host =
  dh_state_dir :: "path option"
  dh_exists :: "path \<Rightarrow> 'w \<Rightarrow> bool"
  dh_read_dir :: "path \<Rightarrow> 'w \<Rightarrow> (anyhow_error, disk_file list) res"
  dh_size :: "path \<Rightarrow> 'w \<Rightarrow> u64 option"
  dh_remove :: "path \<Rightarrow> 'w \<Rightarrow> (anyhow_error, unit) res \<times> 'w"
  dh_now :: int
  dh_debug :: "string \<Rightarrow> string"

definition too_old :: "int \<Rightarrow> u32 \<Rightarrow> disk_file \<Rightarrow> bool" where
  "too_old now days f =
     (case df_meta f of
        Some (_, Some modified) \<Rightarrow> modified \<le> now \<and> uint days * 86400 * 10 ^ 9 < now - modified
      | _ \<Rightarrow> False)"

fun cleanup_files :: "'w disk_host \<Rightarrow> string \<Rightarrow> u32 \<Rightarrow> disk_file list \<Rightarrow> nat \<times> 'w \<Rightarrow> nat \<times> 'w" where
  "cleanup_files h ext days [] (deleted, w) = (deleted, w)"
| "cleanup_files h ext days (f # fs) (deleted, w) =
     (if extension (df_path f) = Some ext \<and> too_old (dh_now h) days f
      then case dh_remove h (df_path f) w of
             (Inl _, w1) \<Rightarrow> cleanup_files h ext days fs (deleted, w1)
           | (Inr _, w1) \<Rightarrow> cleanup_files h ext days fs (deleted + 1, w1)
      else cleanup_files h ext days fs (deleted, w))"

definition cleanup_directory ::
  "'w disk_host \<Rightarrow> path \<Rightarrow> string \<Rightarrow> u32 \<Rightarrow> 'w \<Rightarrow> (anyhow_error, nat) res \<times> 'w" where
  "cleanup_directory h dir ext days w =
     (if \<not> dh_exists h dir w then (Inr 0, w)
      else case dh_read_dir h dir w of
        Inl e \<Rightarrow> (Inl e, w)
      | Inr fs \<Rightarrow> (let (deleted, w1) = cleanup_files h ext days fs (0, w) in (Inr deleted, w1)))"

fun cleanup_agents :: "'w disk_host \<Rightarrow> u32 \<Rightarrow> disk_file list \<Rightarrow> 'w \<Rightarrow> string list \<times> 'w" where
  "cleanup_agents h days [] w = ([], w)"
| "cleanup_agents h days (a # as) w =
     (if \<not> df_is_dir a then cleanup_agents h days as w
      else let (r, w1) = cleanup_directory h (path_join (df_path a) [Normal ''sessions'']) ''jsonl'' days w;
               (report, w2) = cleanup_agents h days as w1
           in (case r of
                 Inr deleted \<Rightarrow>
                   if deleted > 0
                   then (''Deleted '' @ show_nat deleted @ '' old sessions for agent ''
                     @ dh_debug h (unwrap_or (file_name (df_path a)) [])) # report
                   else report
               | Inl _ \<Rightarrow> report, w2))"

definition cleanup_sessions :: "'w disk_host \<Rightarrow> u32 \<Rightarrow> 'w \<Rightarrow> string list \<times> 'w" where
  "cleanup_sessions h days w =
     (if days = 0 then ([], w)
      else case dh_state_dir h of
        None \<Rightarrow> ([], w)
      | Some st \<Rightarrow>
          (let agents = path_join st [Normal ''agents''] in
           if \<not> dh_exists h agents w then ([], w)
           else case dh_read_dir h agents w of
             Inl _ \<Rightarrow> ([], w)
           | Inr as \<Rightarrow> cleanup_agents h days as w))"

definition log_limit :: "u32 \<Rightarrow> u64" where
  "log_limit max_mb = ucast max_mb * 1024 * 1024"

definition log_files :: "'w disk_host \<Rightarrow> disk_file list \<Rightarrow> (path \<times> int \<times> u64) list" where
  "log_files h fs =
     concat (map (\<lambda>f. case df_meta f of
        Some (bytes, modified) \<Rightarrow>
          if extension (df_path f) = Some ''log'' then [(df_path f, unwrap_or modified (dh_now h), bytes)] else []
      | None \<Rightarrow> []) fs)"

fun delete_logs :: "'w disk_host \<Rightarrow> u64 \<Rightarrow> u64 \<Rightarrow> path list \<Rightarrow> nat \<Rightarrow> 'w \<Rightarrow> nat \<times> 'w" where
  "delete_logs h limit total_size [] deleted w = (deleted, w)"
| "delete_logs h limit total_size (p # ps) deleted w =
     (if total_size \<le> limit then (deleted, w)
      else case dh_size h p w of
        None \<Rightarrow> delete_logs h limit total_size ps deleted w
      | Some bytes \<Rightarrow>
          (case dh_remove h p w of
             (Inl _, w1) \<Rightarrow> delete_logs h limit total_size ps deleted w1
           | (Inr _, w1) \<Rightarrow> delete_logs h limit (saturating_sub total_size bytes) ps (deleted + 1) w1))"

definition oldest_first :: "(path \<times> int \<times> u64) list \<Rightarrow> path list" where
  "oldest_first ls = map fst (sort_key (\<lambda>(p, t, b). t) ls)"

definition cleanup_logs :: "'w disk_host \<Rightarrow> u32 \<Rightarrow> 'w \<Rightarrow> string list \<times> 'w" where
  "cleanup_logs h max_mb w =
     (case dh_state_dir h of
        None \<Rightarrow> ([], w)
      | Some st \<Rightarrow>
          if max_mb = 0 then ([], w)
          else
            (let ls = (case dh_read_dir h (path_join st [Normal ''logs'']) w of Inr fs \<Rightarrow> log_files h fs | Inl _ \<Rightarrow> []);
                 total_size = sum_list (map (\<lambda>(p, t, b). b) ls)
             in if total_size \<le> log_limit max_mb then ([], w)
                else let (deleted, w1) = delete_logs h (log_limit max_mb) total_size (oldest_first ls) 0 w
                     in (if deleted > 0 then [''Deleted '' @ show_nat deleted @ '' log files to enforce size limit''] else [], w1)))"

definition disk_cleanup :: "'w disk_host \<Rightarrow> disk_config \<Rightarrow> 'w \<Rightarrow> string \<times> 'w" where
  "disk_cleanup h cfg w =
     (let (r1, w1) = cleanup_sessions h (dc_session_retention_days cfg) w;
          (r2, w2) = cleanup_logs h (dc_max_log_size_mb cfg) w1
      in (if r1 @ r2 = [] then ''Disk cleanup completed. No files eligible for deletion.'' else join nl (r1 @ r2), w2))"

subsection \<open>What is removed\<close>

definition removing :: "'w disk_host \<Rightarrow> path \<Rightarrow> 'w \<Rightarrow> 'w" where
  "removing h p w = snd (dh_remove h p w)"

text \<open>What \<open>read_dir\<close> documents of its entries: each is a name in the directory.\<close>

definition lists_children :: "'w disk_host \<Rightarrow> bool" where
  "lists_children h \<longleftrightarrow> (\<forall>d w fs. dh_read_dir h d w = Inr fs \<longrightarrow> list_all (\<lambda>f. \<exists>n. df_path f = d @ [Normal n]) fs)"

text \<open>From one world to another by removals of paths with a property.\<close>

definition removes :: "'w disk_host \<Rightarrow> (path \<Rightarrow> bool) \<Rightarrow> 'w \<Rightarrow> 'w \<Rightarrow> bool" where
  "removes h P w w' \<longleftrightarrow> (\<exists>ps. w' = fold (removing h) ps w \<and> list_all P ps)"

lemma removes_refl [simp]: "removes h P w w"
  unfolding removes_def by (rule exI [of _ "[]"]) simp

lemma removes_trans: "removes h P w w1 \<Longrightarrow> removes h P w1 w2 \<Longrightarrow> removes h P w w2"
  unfolding removes_def by (metis fold_append comp_apply list_all_append)

lemma removes_mono: "removes h P w w' \<Longrightarrow> (\<And>p. P p \<Longrightarrow> Q p) \<Longrightarrow> removes h Q w w'"
  unfolding removes_def by (metis list_all_iff)

lemma removes_one: "P p \<Longrightarrow> dh_remove h p w = (r, w1) \<Longrightarrow> removes h P w w1"
  unfolding removes_def by (rule exI [of _ "[p]"]) (simp add: removing_def)

lemma cleanup_files_removes:
  "list_all (\<lambda>f. extension (df_path f) = Some ext \<and> too_old (dh_now h) days f \<longrightarrow> P (df_path f)) fs
    \<Longrightarrow> removes h P (snd cw) (snd (cleanup_files h ext days fs cw))"
proof (induction fs arbitrary: cw)
  case (Cons f fs)
  obtain c w where cw: "cw = (c, w)" by (cases cw)
  obtain r w1 where r: "dh_remove h (df_path f) w = (r, w1)" by (cases "dh_remove h (df_path f) w")
  have rest: "removes h P (snd cw') (snd (cleanup_files h ext days fs cw'))" for cw' using Cons by simp
  show ?case
  proof (cases "extension (df_path f) = Some ext \<and> too_old (dh_now h) days f")
    case True
    then have one: "removes h P w w1" using Cons.prems removes_one [OF _ r] by simp
    show ?thesis
      using True r cw removes_trans [OF one] rest [of "(c, w1)"] rest [of "(c + 1, w1)"] by (cases r) auto
  qed (use rest [of "(c, w)"] cw in auto)
qed (simp add: split_paired_all)

lemma cleanup_directory_removes:
  assumes "lists_children h" and "\<And>n. extension (dir @ [Normal n]) = Some ext \<Longrightarrow> P (dir @ [Normal n])"
  shows "removes h P w (snd (cleanup_directory h dir ext days w))"
proof -
  have "removes h P w (snd (cleanup_files h ext days fs (0, w)))" if "dh_read_dir h dir w = Inr fs" for fs
    using cleanup_files_removes [of ext h days P fs "(0, w)"] assms that by (fastforce simp: lists_children_def list_all_iff)
  then show ?thesis by (auto simp: cleanup_directory_def split: sum.splits prod.splits)
qed

definition session_file :: "path \<Rightarrow> path \<Rightarrow> bool" where
  "session_file st p \<longleftrightarrow>
     extension p = Some ''jsonl'' \<and> (\<exists>a n. p = st @ [Normal ''agents'', Normal a, Normal ''sessions'', Normal n])"

definition log_file :: "path \<Rightarrow> path \<Rightarrow> bool" where
  "log_file st p \<longleftrightarrow> extension p = Some ''log'' \<and> (\<exists>n. p = st @ [Normal ''logs'', Normal n])"

lemma cleanup_agents_removes:
  assumes "lists_children h"
  shows "list_all (\<lambda>f. \<exists>a. df_path f = st @ [Normal ''agents'', Normal a]) as
    \<Longrightarrow> removes h (session_file st) w (snd (cleanup_agents h days as w))"
proof (induction as arbitrary: w)
  case (Cons a as)
  obtain n where n: "df_path a = st @ [Normal ''agents'', Normal n]" using Cons.prems by auto
  let ?d = "path_join (df_path a) [Normal ''sessions'']"
  have "?d = st @ [Normal ''agents'', Normal n, Normal ''sessions'']" using n by (simp add: path_join_def is_absolute_def)
  then have one: "removes h (session_file st) w (snd (cleanup_directory h ?d ''jsonl'' days w))"
    by (intro cleanup_directory_removes [OF assms]) (auto simp: session_file_def)
  obtain r w1 where d: "cleanup_directory h ?d ''jsonl'' days w = (r, w1)" by fastforce
  have "removes h (session_file st) w' (snd (cleanup_agents h days as w'))" for w' using Cons by simp
  from this [of w] this [of w1] show ?case
    using removes_trans [of h "session_file st" w w1] one d by (auto split: prod.splits)
qed simp

lemma path_join_name: "st \<noteq> [] \<Longrightarrow> path_join st [Normal n] = st @ [Normal n]"
  by (simp add: path_join_def is_absolute_def)

lemma cleanup_sessions_removes:
  assumes "lists_children h" and "dh_state_dir h = Some st" and "st \<noteq> []"
  shows "removes h (\<lambda>p. days \<noteq> 0 \<and> session_file st p) w (snd (cleanup_sessions h days w))"
proof -
  have "removes h (session_file st) w (snd (cleanup_agents h days as w))"
    if "dh_read_dir h (st @ [Normal ''agents'']) w = Inr as" for as
    using assms(1) that by (intro cleanup_agents_removes) (fastforce simp: lists_children_def list_all_iff)+
  then show ?thesis
    using assms(2, 3) by (auto simp: cleanup_sessions_def Let_def path_join_name split: sum.splits intro: removes_mono)
qed

lemma delete_logs_removes:
  "list_all P ps \<Longrightarrow> removes h P w (snd (delete_logs h limit total_size ps deleted w))"
proof (induction ps arbitrary: total_size deleted w)
  case (Cons p ps)
  obtain r w1 where r: "dh_remove h p w = (r, w1)" by (cases "dh_remove h p w")
  then have one: "removes h P w w1" using Cons.prems removes_one by (metis list.pred_inject(2))
  show ?case using r removes_trans [OF one] Cons by (auto split: option.splits sum.splits)
qed simp

lemma set_oldest_first: "set (oldest_first ls) = fst ` set ls"
  by (simp add: oldest_first_def)

definition logs_found :: "'w disk_host \<Rightarrow> path \<Rightarrow> 'w \<Rightarrow> (path \<times> int \<times> u64) list" where
  "logs_found h st w = (case dh_read_dir h (st @ [Normal ''logs'']) w of Inr fs \<Rightarrow> log_files h fs | Inl _ \<Rightarrow> [])"

lemma cleanup_logs_world:
  assumes "dh_state_dir h = Some st" and "st \<noteq> []" and "max_mb \<noteq> 0"
  shows "snd (cleanup_logs h max_mb w) =
    snd (delete_logs h (log_limit max_mb) (sum_list (map (\<lambda>(p, t, b). b) (logs_found h st w))) (oldest_first (logs_found h st w)) 0 w)"
proof -
  have stop: "snd (delete_logs h l n ps 0 w) = w" if "n \<le> l" for l n ps using that by (cases ps) auto
  show ?thesis
    unfolding cleanup_logs_def Let_def using assms stop
    by (simp add: path_join_name logs_found_def [symmetric] split: prod.splits)
qed

lemma logs_found_files:
  assumes "lists_children h"
  shows "list_all (log_file st) (oldest_first (logs_found h st w))"
proof -
  have "log_file st p" if "(p, t, b) \<in> set (log_files h fs)" "list_all (\<lambda>f. \<exists>n. df_path f = st @ [Normal ''logs'', Normal n]) fs"
    for p t b fs
    using that by (fastforce simp: log_files_def log_file_def list_all_iff split: option.splits if_splits)
  then show ?thesis
    using assms unfolding list_all_iff set_oldest_first lists_children_def logs_found_def
    by (cases "dh_read_dir h (st @ [Normal ''logs'']) w") (fastforce simp: list_all_iff)+
qed

lemma cleanup_logs_removes:
  assumes "lists_children h" and "dh_state_dir h = Some st" and "st \<noteq> []"
  shows "removes h (\<lambda>p. max_mb \<noteq> 0 \<and> log_file st p) w (snd (cleanup_logs h max_mb w))"
proof (cases "max_mb = 0")
  case False
  then show ?thesis
    using delete_logs_removes [OF logs_found_files [OF assms(1)]] cleanup_logs_world [OF assms(2, 3)] by simp
qed (simp add: cleanup_logs_def assms(2))

text \<open>Cleaning up removes nothing but old transcripts and logs: every path it removes is a file \<open>*.jsonl\<close> directly in the
  directory of sessions of an agent, when there is a retention, or a file \<open>*.log\<close> directly in the directory of logs, when
  there is a limit.\<close>

theorem disk_cleanup_confined:
  assumes "lists_children h" and "dh_state_dir h = Some st" and "st \<noteq> []"
  shows "\<exists>ps. snd (disk_cleanup h cfg w) = fold (removing h) ps w
    \<and> list_all (\<lambda>p. dc_session_retention_days cfg \<noteq> 0 \<and> session_file st p \<or> dc_max_log_size_mb cfg \<noteq> 0 \<and> log_file st p) ps"
proof -
  let ?P = "\<lambda>p. dc_session_retention_days cfg \<noteq> 0 \<and> session_file st p \<or> dc_max_log_size_mb cfg \<noteq> 0 \<and> log_file st p"
  obtain r1 w1 where s: "cleanup_sessions h (dc_session_retention_days cfg) w = (r1, w1)" by fastforce
  have "removes h ?P w w1"
    using cleanup_sessions_removes [OF assms, of "dc_session_retention_days cfg" w] s by (auto elim: removes_mono)
  moreover have "removes h ?P w1 (snd (cleanup_logs h (dc_max_log_size_mb cfg) w1))"
    using cleanup_logs_removes [OF assms, of "dc_max_log_size_mb cfg" w1] by (auto elim: removes_mono)
  ultimately have "removes h ?P w (snd (disk_cleanup h cfg w))"
    using s removes_trans by (auto simp: disk_cleanup_def split: prod.splits)
  then show ?thesis by (simp add: removes_def)
qed

text \<open>Sizes are those of the listing as long as a file is there.\<close>

definition sizes_stay :: "'w disk_host \<Rightarrow> (path \<times> int \<times> u64) list \<Rightarrow> 'w \<Rightarrow> bool" where
  "sizes_stay h ls w \<longleftrightarrow> list_all (\<lambda>(p, t, b). \<forall>qs. p \<notin> set qs \<longrightarrow> dh_size h p (fold (removing h) qs w) = Some b) ls"

definition bytes_of :: "(path \<times> int \<times> u64) list \<Rightarrow> nat" where
  "bytes_of ls = sum_list (map (\<lambda>(p, t, b). unat b) ls)"

lemma bytes_of_simps [simp]: "bytes_of [] = 0" "bytes_of ((p, t, b) # ls) = unat b + bytes_of ls"
  by (simp_all add: bytes_of_def)

lemma unat_bytes: "bytes_of ls < 2 ^ 64 \<Longrightarrow> unat (sum_list (map (\<lambda>(p, t, b). b) ls)) = bytes_of ls"
proof (induction ls)
  case (Cons a ls)
  obtain p t b where a: "a = (p, t, b)" by (cases a)
  then show ?case using Cons by (simp add: unat_word_ariths)
qed simp

lemma sizes_stay_step:
  assumes "sizes_stay h ((p, t, b) # ls) w" and "p \<notin> fst ` set ls"
  shows "dh_size h p w = Some b" "sizes_stay h ls (removing h p w)"
proof -
  show "dh_size h p w = Some b" using assms(1) unfolding sizes_stay_def by (metis (mono_tags, lifting) empty_iff empty_set fold_simps(1) list.pred_inject(2) prod.case)
  show "sizes_stay h ls (removing h p w)"
    unfolding sizes_stay_def list_all_iff
  proof (clarify)
    fix q s c and qs :: "path list"
    assume "(q, s, c) \<in> set ls" "q \<notin> set qs"
    moreover have "q \<noteq> p" using \<open>(q, s, c) \<in> set ls\<close> assms(2) by force
    ultimately show "dh_size h q (fold (removing h) qs (removing h p w)) = Some c"
      using assms(1) by (auto simp: sizes_stay_def list_all_iff dest!: bspec [where x = "(q, s, c)"] spec [where x = "p # qs"])
  qed
qed

lemma delete_logs_spec:
  assumes "\<And>p w. is_ok (fst (dh_remove h p w))"
  shows "sizes_stay h ls w \<Longrightarrow> distinct (map fst ls) \<Longrightarrow> unat n = bytes_of ls \<Longrightarrow>
    \<exists>k. snd (delete_logs h limit n (map fst ls) deleted w) = fold (removing h) (take k (map fst ls)) w
      \<and> bytes_of (drop k ls) \<le> unat limit \<and> (\<forall>j < k. unat limit < bytes_of (drop j ls))"
proof (induction ls arbitrary: n deleted w)
  case (Cons a ls)
  obtain p t b where a: "a = (p, t, b)" by (cases a)
  show ?case
  proof (cases "n \<le> limit")
    case True
    then show ?thesis using Cons.prems(3) by (intro exI [of _ 0]) (simp add: word_le_nat_alt)
  next
    case False
    note stay = sizes_stay_step [of h p t b ls w]
    have size: "dh_size h p w = Some b" and rest: "sizes_stay h ls (removing h p w)"
      using stay Cons.prems(1, 2) by (auto simp: a)
    obtain u where rm: "dh_remove h p w = (Inr u, removing h p w)"
      using assms [of p w] by (cases "dh_remove h p w") (auto simp: removing_def res_simps)
    have "b \<le> n" using Cons.prems(3) a by (simp add: word_le_nat_alt)
    then have "unat (saturating_sub n b) = bytes_of ls"
      using Cons.prems(3) a by (simp add: saturating_sub_def unat_sub)
    then obtain k where k: "snd (delete_logs h limit (saturating_sub n b) (map fst ls) (deleted + 1) (removing h p w))
        = fold (removing h) (take k (map fst ls)) (removing h p w)"
      "bytes_of (drop k ls) \<le> unat limit" "\<forall>j < k. unat limit < bytes_of (drop j ls)"
      using Cons.IH [OF rest] Cons.prems(2) a by fastforce
    have "unat limit < bytes_of (drop j (a # ls))" if "j < Suc k" for j
      using that k(3) False Cons.prems(3) by (cases j) (auto simp: word_le_nat_alt)
    then show ?thesis using k False size rm a by (intro exI [of _ "Suc k"]) auto
  qed
qed (auto intro: exI [of _ 0])

text \<open>The limit on the logs holds afterwards, and no more is removed than needed for it: the logs are gone through from the oldest,
  and what is removed is the shortest such stretch that brings the rest down to the limit.\<close>

theorem cleanup_logs_minimal:
  assumes "dh_state_dir h = Some st" and "st \<noteq> []" and "max_mb \<noteq> 0" and "\<And>p w. is_ok (fst (dh_remove h p w))"
    and "sizes_stay h (logs_found h st w) w" and "distinct (map fst (logs_found h st w))"
    and "bytes_of (logs_found h st w) < 2 ^ 64"
  shows "\<exists>k. let ls = sort_key (\<lambda>(p, t, b). t) (logs_found h st w) in
    snd (cleanup_logs h max_mb w) = fold (removing h) (take k (map fst ls)) w
    \<and> bytes_of (drop k ls) \<le> unat max_mb * 2 ^ 20 \<and> (\<forall>j. j < k \<longrightarrow> unat max_mb * 2 ^ 20 < bytes_of (drop j ls))"
proof -
  let ?ls = "sort_key (\<lambda>(p, t, b). t) (logs_found h st w)"
  have same: "mset ?ls = mset (logs_found h st w)" by simp
  have "sizes_stay h ?ls w" using assms(5) by (simp add: sizes_stay_def list_all_iff)
  moreover have "distinct (map fst ?ls)" using assms(6) mset_eq_imp_distinct_iff [of "map fst ?ls" "map fst (logs_found h st w)"] by simp
  moreover have "unat (sum_list (map (\<lambda>(p, t, b). b) (logs_found h st w))) = bytes_of ?ls"
    using unat_bytes [OF assms(7)] sum_mset_sum_list [of "map (\<lambda>(p, t, b). unat b) ?ls"]
      sum_mset_sum_list [of "map (\<lambda>(p, t, b). unat b) (logs_found h st w)"] by (simp add: bytes_of_def)
  ultimately have "\<exists>k. snd (cleanup_logs h max_mb w) = fold (removing h) (take k (map fst ?ls)) w
      \<and> bytes_of (drop k ?ls) \<le> unat (log_limit max_mb) \<and> (\<forall>j < k. unat (log_limit max_mb) < bytes_of (drop j ?ls))"
    using delete_logs_spec [OF assms(4)] cleanup_logs_world [OF assms(1-3)] by (simp add: oldest_first_def)
  moreover have "unat (log_limit max_mb) = unat max_mb * 2 ^ 20"
  proof -
    have small: "unat max_mb < 2 ^ 32" using unsigned_less [of max_mb, where ?'a = nat] by simp
    then have "unat (ucast max_mb :: u64) = unat max_mb" by (simp add: unsigned_ucast_eq take_bit_nat_eq_self)
    then show ?thesis using small by (simp add: log_limit_def unat_word_ariths)
  qed
  ultimately show ?thesis by (simp add: Let_def)
qed

text \<open>A world that lists what was removed.\<close>

definition sample_log :: "string \<Rightarrow> int \<Rightarrow> disk_file" where
  "sample_log n t = \<lparr>df_path = [RootDir, Normal ''logs'', Normal n], df_is_dir = False, df_meta = Some (2 ^ 20, Some t)\<rparr>"

definition sample_disk :: "path list disk_host" where
  "sample_disk = \<lparr>dh_state_dir = Some [RootDir], dh_exists = (\<lambda>p w. True),
     dh_read_dir = (\<lambda>d w. if d = [RootDir, Normal ''logs''] then Inr [sample_log ''b.log'' 2, sample_log ''a.log'' 1] else Inr []),
     dh_size = (\<lambda>p w. if p \<in> set w then None else Some (2 ^ 20)), dh_remove = (\<lambda>p w. (Inr (), p # w)), dh_now = 10, dh_debug = id\<rparr>"

lemma sample_removing: "fold (removing sample_disk) qs w = rev qs @ w"
  by (induction qs arbitrary: w) (simp_all add: removing_def sample_disk_def)

lemma sample_children: "lists_children sample_disk"
  by (auto simp: lists_children_def sample_disk_def sample_log_def)

theorem disk_cleanup_confined_witness:
  "\<exists>ps. snd (disk_cleanup sample_disk \<lparr>dc_monitor_interval = ''1m'', dc_session_retention_days = 30, dc_max_log_size_mb = 1\<rparr> [])
      = fold (removing sample_disk) ps []
    \<and> list_all (\<lambda>p. session_file [RootDir] p \<or> log_file [RootDir] p) ps"
proof -
  have "dh_state_dir sample_disk = Some [RootDir]" by (simp add: sample_disk_def)
  from disk_cleanup_confined [OF sample_children this,
      of "\<lparr>dc_monitor_interval = ''1m'', dc_session_retention_days = 30, dc_max_log_size_mb = 1\<rparr>" "[]"]
  show ?thesis by simp
qed

lemma sample_logs:
  "logs_found sample_disk [RootDir] [] = [([RootDir, Normal ''logs'', Normal ''b.log''], 2, 2 ^ 20), ([RootDir, Normal ''logs'', Normal ''a.log''], 1, 2 ^ 20)]"
  by (simp add: logs_found_def sample_disk_def log_files_def sample_log_def extension_def file_name_def)

theorem cleanup_logs_minimal_witness:
  "\<exists>k. snd (cleanup_logs sample_disk 1 []) = rev (take k [[RootDir, Normal ''logs'', Normal ''a.log''], [RootDir, Normal ''logs'', Normal ''b.log'']])
     \<and> k = 1"
proof -
  let ?ls = "logs_found sample_disk [RootDir] []"
  have "dh_state_dir sample_disk = Some [RootDir]" "[RootDir] \<noteq> []" "(1 :: u32) \<noteq> 0" by (simp_all add: sample_disk_def)
  moreover have "is_ok (fst (dh_remove sample_disk p w))" for p w by (simp add: sample_disk_def)
  moreover have "sizes_stay sample_disk ?ls []"
    unfolding sizes_stay_def sample_logs sample_removing by (simp add: sample_disk_def)
  moreover have "distinct (map fst ?ls)" "bytes_of ?ls < 2 ^ 64" by (simp_all add: sample_logs)
  ultimately obtain k where k: "let ls = sort_key (\<lambda>(p, t, b). t) ?ls in
    snd (cleanup_logs sample_disk 1 []) = fold (removing sample_disk) (take k (map fst ls)) []
    \<and> bytes_of (drop k ls) \<le> unat (1 :: u32) * 2 ^ 20 \<and> (\<forall>j. j < k \<longrightarrow> unat (1 :: u32) * 2 ^ 20 < bytes_of (drop j ls))"
    using cleanup_logs_minimal [of sample_disk "[RootDir]" 1 "[]"] by blast
  then have "\<not> 1 < k" by (auto simp: sample_logs Let_def dest: spec [of _ 1])
  moreover have "k \<noteq> 0" using k by (cases k) (auto simp: sample_logs Let_def)
  ultimately have "k = 1" by simp
  then show ?thesis using k by (simp add: sample_logs Let_def sample_removing)
qed

end
