(* ===== verification/Chat_Terminal.thy ===== *)
theory Chat_Terminal
  imports Skills Disk_Monitor
begin

text \<open>
  The terminal chat (\<^verbatim>\<open>src/src/cli/chat.rs\<close>) as far as it decides something: what a line typed by the user does,
  the files attached to the next message (\<^verbatim>\<open>src/src/agent/attachments.rs\<close>), the message that is built from them and
  the snippets shown for a search. Printing is not modelled. A panic is \<open>None\<close>.
\<close>

subsection \<open>Attachments\<close>

datatype attachment =
    TextFile string string
  | Image string image_attachment
  | FileRef string string

record attachments_config =
  at_max_file_size_bytes :: u64
  at_base_dir :: string

record 'w attach_host =
  ah_tilde :: "string \<Rightarrow> string"
  ah_lower :: "string \<Rightarrow> string"
  ah_exists :: "path \<Rightarrow> 'w \<Rightarrow> bool"
  ah_size :: "path \<Rightarrow> 'w \<Rightarrow> (anyhow_error, u64) res"
  ah_read :: "path \<Rightarrow> 'w \<Rightarrow> (anyhow_error, string) res"
  ah_read_to_string :: "path \<Rightarrow> 'w \<Rightarrow> (anyhow_error, string) res"
  ah_base64 :: "string \<Rightarrow> string"
  ah_create_dir_all :: "path \<Rightarrow> 'w \<Rightarrow> (string, unit) res \<times> 'w"
  ah_copy :: "path \<Rightarrow> path \<Rightarrow> 'w \<Rightarrow> (string, unit) res \<times> 'w"
  ah_uuid :: string

definition image_media_type :: "string option \<Rightarrow> string option" where
  "image_media_type ext =
     (if ext = Some ''png'' then Some ''image/png''
      else if ext = Some ''jpg'' \<or> ext = Some ''jpeg'' then Some ''image/jpeg''
      else if ext = Some ''gif'' then Some ''image/gif''
      else if ext = Some ''webp'' then Some ''image/webp''
      else None)"

text \<open>A file that is too large is copied into the project and named by its path.\<close>

definition attach_reference ::
  "'w attach_host \<Rightarrow> attachments_config \<Rightarrow> path \<Rightarrow> path \<Rightarrow> string \<Rightarrow> u64 \<Rightarrow> attachment list \<Rightarrow> 'w
   \<Rightarrow> (anyhow_error, string) res \<times> attachment list \<times> 'w" where
  "attach_reference h cfg project_dir p filename bytes pending w =
     (let attach_dir = path_join project_dir (components (at_base_dir cfg));
          saved_name = components (ah_uuid h @ ''_'' @ filename)
      in case ah_create_dir_all h attach_dir w of
           (Inl e, w1) \<Rightarrow> (Inl (Msg (''Failed to create attachments directory: '' @ e)), pending, w1)
         | (Inr _, w1) \<Rightarrow>
             (case ah_copy h p (path_join attach_dir saved_name) w1 of
                (Inl e, w2) \<Rightarrow> (Inl (Msg (''Failed to save attachment: '' @ e)), pending, w2)
              | (Inr _, w2) \<Rightarrow>
                  (let rel_path = display (path_join (components (at_base_dir cfg)) saved_name) in
                   (Inr (''Attached large file as reference: '' @ filename @ '' ('' @ show_nat (unat bytes) @ '' bytes)''
                      @ nl @ ''Saved to: '' @ rel_path),
                    pending @ [FileRef filename rel_path], w2))))"

definition attach_text ::
  "'w attach_host \<Rightarrow> path \<Rightarrow> string \<Rightarrow> u64 \<Rightarrow> attachment list \<Rightarrow> 'w \<Rightarrow> (anyhow_error, string) res \<times> attachment list \<times> 'w" where
  "attach_text h p filename bytes pending w =
     (case ah_read_to_string h p w of
        Inr t \<Rightarrow> (Inr (''Attached text: '' @ filename @ '' ('' @ show_nat (unat bytes) @ '' bytes)''), pending @ [TextFile filename t], w)
      | Inl _ \<Rightarrow> (Inl (Msg ''File is binary or invalid UTF-8 (binary fallback not implemented)''), pending, w))"

definition attach_image ::
  "'w attach_host \<Rightarrow> path \<Rightarrow> string \<Rightarrow> string \<Rightarrow> u64 \<Rightarrow> attachment list \<Rightarrow> 'w \<Rightarrow> (anyhow_error, string) res \<times> attachment list \<times> 'w" where
  "attach_image h p filename media bytes pending w =
     (case ah_read h p w of
        Inl e \<Rightarrow> (Inl e, pending, w)
      | Inr b \<Rightarrow>
          (Inr (''Attached image: '' @ filename @ '' ('' @ show_nat (unat bytes) @ '' bytes)''),
           pending @ [Image filename \<lparr>img_data = ah_base64 h b, img_media_type = media\<rparr>], w))"

definition process_attach_command ::
  "'w attach_host \<Rightarrow> attachments_config \<Rightarrow> path \<Rightarrow> string \<Rightarrow> attachment list \<Rightarrow> 'w
   \<Rightarrow> ((anyhow_error, string) res \<times> attachment list \<times> 'w) option" where
  "process_attach_command h cfg project_dir input pending w =
     map_option (\<lambda>rest.
       let file_path = trim rest in
       if file_path = [] then (Inl (Msg ''Usage: /attach <file_path>''), pending, w)
       else
         let expanded = ah_tilde h file_path;
             p = components expanded;
             filename = unwrap_or (file_name p) file_path
         in if \<not> ah_exists h p w then (Inl (Msg (''File not found: '' @ expanded)), pending, w)
            else case ah_size h p w of
              Inl e \<Rightarrow> (Inl e, pending, w)
            | Inr bytes \<Rightarrow>
                (let max_size = at_max_file_size_bytes cfg in
                 case image_media_type (map_option (ah_lower h) (extension p)) of
                   Some media \<Rightarrow>
                     if max_size < bytes then attach_reference h cfg project_dir p filename bytes pending w
                     else attach_image h p filename media bytes pending w
                 | None \<Rightarrow>
                     if max_size < bytes then attach_reference h cfg project_dir p filename bytes pending w
                     else attach_text h p filename bytes pending w))
       (slice_from 7 input)"

subsection \<open>The message\<close>

definition push_reference :: "string \<Rightarrow> attachment \<Rightarrow> string" where
  "push_reference m att =
     (case att of
        FileRef n p \<Rightarrow>
          m @ nl2 @ (''<context>'' @ nl @ ''  <attached-file filename='' @ [CHR 0x22] @ n @ [CHR 0x22, CHR '' ''] @ ''path='' @ [CHR 0x22] @ p
            @ [CHR 0x22] @ ''/>'' @ nl @ ''</context>'') @ nl
      | _ \<Rightarrow> m)"

definition fenced :: "string \<times> string \<Rightarrow> string" where
  "fenced nc = nl @ ''### '' @ fst nc @ nl @ ''```'' @ nl @ snd nc @ nl @ ''```'' @ nl"

fun text_of_attachment :: "attachment \<Rightarrow> (string \<times> string) list" where
  "text_of_attachment (TextFile n t) = [(n, t)]"
| "text_of_attachment _ = []"

fun image_of_attachment :: "attachment \<Rightarrow> image_attachment list" where
  "image_of_attachment (Image n d) = [d]"
| "image_of_attachment _ = []"

definition build_message :: "string \<Rightarrow> attachment list \<Rightarrow> string \<times> image_attachment list" where
  "build_message input pending =
     (let texts = concat (map text_of_attachment pending);
          m = foldl push_reference input pending
      in (if texts = [] then m else m @ (nl2 @ ''---'' @ nl2 @ ''**Attached files:**'' @ nl) @ concat (map fenced texts),
          concat (map image_of_attachment pending)))"

subsection \<open>A line of input\<close>

text \<open>The commands of \<open>handle_command\<close> that act on the agent; each is one function of the agent.\<close>

definition builtin_commands :: "string list" where
  "builtin_commands =
     [''/help'', ''/h'', ''/?'', ''/skills'', ''/sessions'', ''/search'', ''/resume'', ''/model'', ''/compact'', ''/clear'', ''/new'',
      ''/memory'', ''/reindex'', ''/save'', ''/status'', ''/models'', ''/context'', ''/export'']"

datatype command_result =
    Quit
  | Builtin string "string list"
  | SendMessage string
  | CommandError string

definition skill_prompt :: "skill \<Rightarrow> string \<Rightarrow> string" where
  "skill_prompt s args =
     (if args = [] then ''Use the skill at '' @ display (sk_path s) @ ''. Read it first, then follow its instructions.''
      else ''Use the skill at '' @ display (sk_path s) @ '' with this request: '' @ args @ nl2
        @ ''Read the skill file first, then follow its instructions.'')"

definition handle_command :: "skill_host \<Rightarrow> string \<Rightarrow> skill list \<Rightarrow> command_result" where
  "handle_command h input skills =
     (let parts = split_whitespace input; cmd = hd parts;
          unknown = CommandError (''Unknown command: '' @ cmd @ ''. Type /help for commands.'')
      in if cmd \<in> {''/quit'', ''/exit'', ''/q''} then Quit
         else if cmd \<in> set builtin_commands then Builtin cmd (tl parts)
         else case parse_skill_command h input skills of
           None \<Rightarrow> unknown
         | Some invocation \<Rightarrow>
             (case find (\<lambda>s. sk_name s = si_skill_name invocation) skills of
                None \<Rightarrow> unknown
              | Some s \<Rightarrow> SendMessage (skill_prompt s (si_args invocation))))"

datatype line_action =
    Ignore
  | Attach
  | ListAttachments
  | ClearAttachments
  | Command command_result
  | Chat string "image_attachment list"

definition line_action_of :: "skill_host \<Rightarrow> skill list \<Rightarrow> attachment list \<Rightarrow> string \<Rightarrow> line_action" where
  "line_action_of h skills pending line =
     (let input = trim line in
      if input = [] then Ignore
      else if starts_with input ''/'' then
        (if starts_with input ''/attach'' then Attach
         else if input = ''/attachments'' then ListAttachments
         else if input = ''/clear-attachments'' then ClearAttachments
         else Command (handle_command h input skills))
      else (\<lambda>(m, imgs). Chat m imgs) (build_message input pending))"

text \<open>The attachments after the line.\<close>

definition pending_after ::
  "'w attach_host \<Rightarrow> attachments_config \<Rightarrow> path \<Rightarrow> string \<Rightarrow> line_action \<Rightarrow> attachment list \<Rightarrow> 'w \<Rightarrow> (attachment list \<times> 'w) option" where
  "pending_after h cfg project_dir line act pending w =
     (case act of
        Attach \<Rightarrow> map_option snd (process_attach_command h cfg project_dir (trim line) pending w)
      | ClearAttachments \<Rightarrow> Some ([], w)
      | Chat _ _ \<Rightarrow> Some ([], w)
      | _ \<Rightarrow> Some (pending, w))"

subsection \<open>Attaching\<close>

text \<open>The command \<open>/attachments\<close> does not list the attachments: it begins with \<open>/attach\<close>, which is asked for first, and is
  read as a request to attach a file \<open>ments\<close>.\<close>

theorem attachments_never_listed:
  "line_action_of h skills pending line \<noteq> ListAttachments
   \<and> line_action_of h skills pending ''/attachments'' = Attach
   \<and> process_attach_command ah cfg project_dir ''/attachments'' pending w =
       process_attach_command ah cfg project_dir ''/attach ments'' pending w"
proof -
  have t: "trim ''/attachments'' = ''/attachments''" "trim ''ments'' = ''ments''" "trim '' ments'' = ''ments''" by code_simp+
  have "slice_from 7 ''/attachments'' = Some ''ments''" "slice_from 7 ''/attach ments'' = Some '' ments''" by code_simp+
  then show ?thesis
    by (auto simp: line_action_of_def Let_def starts_with_def t process_attach_command_def split: prod.splits)
qed

lemma slice_attach: "starts_clean rest \<Longrightarrow> slice_from 7 (''/attach'' @ rest) = Some rest"
  by (cases rest) (auto simp: slice_from_def is_char_boundary_def starts_clean_def)

text \<open>Attaching a file never panics; an error leaves the attachments as they are, and a success adds one. A file above
  the limit is never taken into the message: it is copied and referred to. One within the limit is read as text or as
  an image, and nothing is written.\<close>

theorem attach_command_spec:
  assumes "starts_clean rest"
  shows "\<exists>r pending' w'. process_attach_command h cfg project_dir (''/attach'' @ rest) pending w = Some (r, pending', w')
    \<and> (case r of
         Inl e \<Rightarrow> pending' = pending
       | Inr m \<Rightarrow>
           (\<exists>att bytes. pending' = pending @ [att] \<and> ah_size h (components (ah_tilde h (trim rest))) w = Inr bytes
              \<and> (case att of
                   FileRef n q \<Rightarrow> at_max_file_size_bytes cfg < bytes
                 | TextFile n t \<Rightarrow> bytes \<le> at_max_file_size_bytes cfg \<and> w' = w
                     \<and> ah_read_to_string h (components (ah_tilde h (trim rest))) w = Inr t
                 | Image n d \<Rightarrow> bytes \<le> at_max_file_size_bytes cfg \<and> w' = w
                     \<and> (\<exists>b. ah_read h (components (ah_tilde h (trim rest))) w = Inr b \<and> img_data d = ah_base64 h b))))"
proof -
  let ?p = "components (ah_tilde h (trim rest))"
  have ref: "\<exists>r pending' w'. attach_reference h cfg project_dir ?p n bytes pending w = (r, pending', w')
      \<and> (case r of Inl e \<Rightarrow> pending' = pending | Inr m \<Rightarrow> \<exists>k q. pending' = pending @ [FileRef k q])" for n bytes
    by (auto simp: attach_reference_def Let_def split: prod.splits sum.splits)
  show ?thesis
  proof (cases "trim rest = [] \<or> \<not> ah_exists h ?p w \<or> (\<exists>e. ah_size h ?p w = Inl e)")
    case True
    then have "\<exists>e. process_attach_command h cfg project_dir (''/attach'' @ rest) pending w = Some (Inl e, pending, w)"
      unfolding process_attach_command_def slice_attach [OF assms] by (auto simp: Let_def)
    then show ?thesis by (elim exE) simp
  next
    case False
    then obtain bytes where size: "ah_size h ?p w = Inr bytes" by (cases "ah_size h ?p w") auto
    let ?n = "unwrap_or (file_name ?p) (trim rest)"
    have run: "process_attach_command h cfg project_dir (''/attach'' @ rest) pending w = Some
        (if at_max_file_size_bytes cfg < bytes then attach_reference h cfg project_dir ?p ?n bytes pending w
         else case image_media_type (map_option (ah_lower h) (extension ?p)) of
           Some media \<Rightarrow> attach_image h ?p ?n media bytes pending w
         | None \<Rightarrow> attach_text h ?p ?n bytes pending w)"
      unfolding process_attach_command_def slice_attach [OF assms]
      using False size by (simp add: Let_def split: option.splits)
    show ?thesis
    proof (cases "at_max_file_size_bytes cfg < bytes")
      case True
      then show ?thesis unfolding run using ref [of ?n bytes] size by (fastforce split: sum.splits)
    next
      case small: False
      then show ?thesis
        unfolding run using size
        by (auto simp: attach_image_def attach_text_def split: option.splits sum.splits)
    qed
  qed
qed

definition sample_attach_host :: "unit attach_host" where
  "sample_attach_host = \<lparr>ah_tilde = id, ah_lower = to_lowercase, ah_exists = (\<lambda>p w. True), ah_size = (\<lambda>p w. Inr 5),
     ah_read = (\<lambda>p w. Inr ''hello''), ah_read_to_string = (\<lambda>p w. Inr ''hello''), ah_base64 = id,
     ah_create_dir_all = (\<lambda>p w. (Inr (), w)), ah_copy = (\<lambda>p q w. (Inr (), w)), ah_uuid = ''u''\<rparr>"

theorem attach_command_spec_witness:
  "\<exists>r pending' w'. process_attach_command sample_attach_host \<lparr>at_max_file_size_bytes = 10, at_base_dir = ''attachments''\<rparr> []
     (''/attach'' @ '' notes.txt'') [] () = Some (r, pending', w')"
proof -
  have "starts_clean '' notes.txt''" by (simp add: starts_clean_def is_cont_byte_def)
  from attach_command_spec [OF this, of sample_attach_host "\<lparr>at_max_file_size_bytes = 10, at_base_dir = ''attachments''\<rparr>" "[]" "[]" "()"]
  show ?thesis by blast
qed

text \<open>The message begins with what was typed and holds every text and every reference; the images go with it in order.\<close>

lemma foldl_push_prefix: "prefix m (foldl push_reference m pending)"
proof (induction pending arbitrary: m)
  case (Cons a pending)
  have "prefix m (push_reference m a)" by (auto simp: push_reference_def split: attachment.splits)
  then show ?case using Cons by (metis foldl_Cons prefix_order.trans)
qed simp

lemma build_message_holds:
  "prefix input (fst (build_message input pending))"
  "TextFile n t \<in> set pending \<Longrightarrow> contains (fst (build_message input pending)) (fenced (n, t))"
  "snd (build_message input pending) = concat (map image_of_attachment pending)"
proof -
  show "prefix input (fst (build_message input pending))"
    using foldl_push_prefix [of input pending] by (auto simp: build_message_def Let_def intro: prefix_order.trans)
  assume "TextFile n t \<in> set pending"
  then have "(n, t) \<in> set (concat (map text_of_attachment pending))" by force
  then obtain xs ys where "concat (map text_of_attachment pending) = xs @ (n, t) # ys" by (meson split_list)
  then have "\<exists>pre. fst (build_message input pending) = pre @ fenced (n, t) @ concat (map fenced ys)"
    by (simp add: build_message_def Let_def)
  then show "contains (fst (build_message input pending)) (fenced (n, t))"
    unfolding contains_def sublist_def by blast
qed (simp add: build_message_def Let_def)

subsection \<open>Skills from the terminal\<close>

lemma strip_end_strip: "strip_end (strip_end cs) = strip_end cs"
  by (simp add: strip_end_def)

lemma trim_trim:
  assumes "starts_clean s"
  shows "trim (trim s) = trim s"
proof (cases "list_all is_whitespace (chars s)")
  case True
  then have blank: "dropWhile is_whitespace (chars s) = []" by (simp add: list_all_iff)
  have empty: "trim s = []" by (simp only: trim_def blank) simp
  show ?thesis unfolding empty by (simp add: trim_def)
next
  case False
  let ?d = "dropWhile is_whitespace (chars s)"
  have d: "?d \<noteq> []" "\<not> is_whitespace (hd ?d)" using False hd_dropWhile [of is_whitespace "chars s"] by (auto simp: list_all_iff)
  then have some: "\<not> list_all is_whitespace ?d" by (cases ?d) auto
  have trim: "trim s = concat (strip_end ?d)" by (simp add: trim_def strip_end_def)
  have points: "list_all code_point (strip_end ?d)"
    using code_point_chars [OF assms] by (auto simp: strip_end_def list_all_iff dest!: set_dropWhileD)
  obtain m q x where "?d = m @ [x] @ q" "\<not> is_whitespace x" "strip_end ?d = m @ [x]" using strip_end_split [OF some] by metis
  then have "\<not> is_whitespace (hd (strip_end ?d))" "strip_end ?d \<noteq> []" using d(2) by (cases m; simp)+
  then have "dropWhile is_whitespace (strip_end ?d) = strip_end ?d" by (simp add: dropWhile_eq_self_iff)
  then show ?thesis using trim trim_points [OF points] strip_end_strip by simp
qed

lemma first_word:
  assumes "list_all plain_letter c" and "rest = [] \<or> (\<exists>t. rest = '' '' # t)"
  shows "hd (words_of [] (''/'' # map (\<lambda>b. [b]) c @ rest)) = ''/'' @ c"
proof -
  have "words_of acc (map (\<lambda>b. [b]) c @ rest) = words_of (acc @ map (\<lambda>b. [b]) c) rest" for acc
    using assms(1) by (induction c arbitrary: acc) (simp_all add: plain_letter_simps)
  from this [of "[''/'']"] show ?thesis
    using assms(2) by (auto simp: is_whitespace_def)
qed

lemma command_word:
  assumes "list_all plain_letter c" and "starts_clean args"
  shows "hd (split_whitespace (trim (''/'' @ c @ '' '' @ args))) = ''/'' @ c"
proof -
  let ?pre = "map (\<lambda>b. [b]) (''/'' @ c)"
  have points: "list_all code_point ?pre" "code_point '' ''"
    using assms(1) plain_letter_simps(3) by (auto simp: code_point_def list_all_iff) (simp_all add: is_cont_byte_def)
  have "list_all code_point (strip_end (chars args))"
    using code_point_chars [OF assms(2)] by (auto simp: strip_end_def list_all_iff dest: set_dropWhileD)
  then have "chars (''/'' @ c) = ?pre" "chars (''/'' @ c @ '' '' @ concat (strip_end (chars args))) = ?pre @ '' '' # strip_end (chars args)"
    using points chars_concat [of ?pre] chars_concat [of "?pre @ '' '' # strip_end (chars args)"] by simp_all
  moreover have "hd (words_of [] (?pre @ rest)) = ''/'' @ c" if "rest = [] \<or> (\<exists>t. rest = '' '' # t)" for rest
    using first_word [OF assms(1) that] by simp
  from this [of "[]"] this [of "'' '' # strip_end (chars args)"]
  have "hd (words_of [] ?pre) = ''/'' @ c" "hd (words_of [] (?pre @ '' '' # strip_end (chars args))) = ''/'' @ c" by simp_all
  ultimately show ?thesis
    unfolding trim_command [OF assms] split_whitespace_def by (simp only: if_distrib [of chars] split: if_split) blast
qed

lemma line_trimmed:
  assumes "list_all plain_letter c" and "starts_clean args"
  shows "starts_with (trim (''/'' @ c @ '' '' @ args)) (''/'' @ c)"
  unfolding trim_command [OF assms] by (simp add: starts_with_def)

lemma parse_skill_command_trim: "trim (trim s) = trim s \<Longrightarrow> parse_skill_command h (trim s) skills = parse_skill_command h s skills"
  by (simp add: parse_skill_command_def)

lemma prefix_word:
  assumes "CHR '' '' \<notin> set w" and "prefix w (c @ CHR '' '' # t)"
  shows "prefix w c"
proof (cases "prefix w c")
  case False
  then have "prefix c w" using prefix_same_cases [OF assms(2), of c] by simp
  then obtain u where u: "w = c @ u" by (auto simp: prefix_def)
  then have "prefix u (CHR '' '' # t)" using assms(2) by simp
  then have "u = []" using assms(1) u by (cases u) auto
  then show ?thesis using u by simp
qed

text \<open>The names the terminal keeps for itself.\<close>

definition reserved :: "string \<Rightarrow> bool" where
  "reserved c \<longleftrightarrow> ''/'' @ c \<in> {''/quit'', ''/exit'', ''/q''} \<or> ''/'' @ c \<in> set builtin_commands \<or> starts_with c ''attach''
     \<or> starts_with c ''clear-attachments''"

text \<open>A skill is started from the terminal. Whatever is pending, a line with the command of a skill that is eligible and
  open to the user, with a name in ASCII that is not reserved and that no other skill answers to, sends the agent the
  request to read exactly the file of this skill, with the arguments as typed.\<close>

theorem skill_line_sends:
  assumes "s \<in> set skills" and "can_invoke s" and "sk_command_name s = sanitize_command_name h (sk_name s)"
    and "is_ascii (sk_command_name s)" and "lowers_ascii h" and "starts_clean args"
    and "\<And>t. t \<in> set skills \<Longrightarrow> answers_to h (sk_command_name s) t \<Longrightarrow> t = s"
    and "sorted_wrt (<) (map sk_name skills)" and "\<not> reserved (sk_command_name s)"
  shows "line_action_of h skills pending (''/'' @ sk_command_name s @ '' '' @ args) = Command (SendMessage (skill_prompt s (trim args)))"
proof -
  let ?c = "sk_command_name s" and ?line = "''/'' @ sk_command_name s @ '' '' @ args"
  have plain: "list_all plain_letter ?c" using ascii_command_name assms(3, 4) by metis
  have clean: "starts_clean ?line" by (simp add: starts_clean_def is_cont_byte_def)
  have word: "hd (split_whitespace (trim ?line)) = ''/'' @ ?c" by (rule command_word [OF plain assms(6)])
  have starts: "starts_with (trim ?line) (''/'' @ ?c)" by (rule line_trimmed [OF plain assms(6)])
  have parsed: "parse_skill_command h (trim ?line) skills =
      Some \<lparr>si_skill_name = sk_name s, si_args = trim args, si_dispatch = sk_command_dispatch s\<rparr>"
    using skill_command_found [OF assms(1-7)] parse_skill_command_trim [OF trim_trim [OF clean]] by metis
  have "find (\<lambda>t. sk_name t = sk_name s) skills = Some s"
  proof (rule find_some_unique)
    fix t
    assume "t \<in> set skills" "sk_name t = sk_name s"
    moreover have "inj_on sk_name (set skills)" using assms(8) by (simp add: strict_sorted_iff distinct_map)
    ultimately show "t = s" using assms(1) by (auto dest: inj_onD)
  qed (use assms(1) in simp_all)
  then have command: "handle_command h (trim ?line) skills = SendMessage (skill_prompt s (trim args))"
    using assms(9) parsed word unfolding handle_command_def reserved_def Let_def by simp
  have no: "\<not> prefix (''/'' @ v) (trim ?line)" if "CHR '' '' \<notin> set v" "\<not> prefix v ?c" for v
    using that(2) prefix_word [OF that(1), of ?c] unfolding trim_command [OF plain assms(6)]
    by (simp split: if_split) blast
  have "\<not> prefix (''/'' @ ''attach'') (trim ?line)" "\<not> prefix (''/'' @ ''clear-attachments'') (trim ?line)"
    using assms(9) by (intro no; simp add: reserved_def starts_with_def)+
  then have "\<not> starts_with (trim ?line) ''/attach''" "trim ?line \<noteq> ''/attachments''" "trim ?line \<noteq> ''/clear-attachments''"
    by (auto simp: starts_with_def)
  moreover have "starts_with (trim ?line) ''/''" "trim ?line \<noteq> []" using starts by (auto simp: starts_with_def prefix_def)
  ultimately show ?thesis by (simp only: line_action_of_def Let_def if_False if_True command)
qed

theorem skill_line_sends_witness:
  "line_action_of sample_host [sample_skill] [] (''/'' @ sk_command_name sample_skill @ '' '' @ ''create it '')
     = Command (SendMessage (skill_prompt sample_skill (trim ''create it '')))"
proof (rule skill_line_sends)
  show "is_ascii (sk_command_name sample_skill)" by (simp add: sample_skill_def sample_command is_ascii_def)
  show "\<not> reserved (sk_command_name sample_skill)"
    by (simp add: reserved_def builtin_commands_def sample_skill_def sample_command starts_with_def)
qed (simp_all add: can_invoke_def sample_skill_def lowers_ascii_def sample_host_def starts_clean_def is_cont_byte_def)

subsection \<open>Snippets\<close>

function floor_from :: "string \<Rightarrow> nat \<Rightarrow> nat" where
  "floor_from s i = (if 0 < i \<and> \<not> is_char_boundary i s then floor_from s (i - 1) else i)"
  by pat_completeness auto
termination by (relation "measure snd") auto

function ceil_from :: "string \<Rightarrow> nat \<Rightarrow> nat" where
  "ceil_from s i = (if i < length s \<and> \<not> is_char_boundary i s then ceil_from s (i + 1) else i)"
  by pat_completeness auto
termination by (relation "measure (\<lambda>(s, i). length s - i)") auto

declare floor_from.simps [simp del] ceil_from.simps [simp del]

definition floor_char_boundary :: "string \<Rightarrow> nat \<Rightarrow> nat" where
  "floor_char_boundary s index = (if length s \<le> index then length s else floor_from s index)"

definition ceil_char_boundary :: "string \<Rightarrow> nat \<Rightarrow> nat" where
  "ceil_char_boundary s index = (if length s \<le> index then length s else ceil_from s index)"

definition slice :: "nat \<Rightarrow> nat \<Rightarrow> string \<Rightarrow> string option" where
  "slice a b s = (if a \<le> b \<and> is_char_boundary a s \<and> is_char_boundary b s then Some (drop a (take b s)) else None)"

definition rfind_char :: "char \<Rightarrow> string \<Rightarrow> nat option" where
  "rfind_char c s = map_option (\<lambda>i. length s - 1 - i) (find_char c (rev s))"

text \<open>\<open>lower\<close> is \<open>to_lowercase\<close>. The slices up to a boundary do not panic; the last one does where its ends cross.\<close>

definition snippet_at :: "string \<Rightarrow> nat \<Rightarrow> nat \<Rightarrow> nat \<Rightarrow> string option" where
  "snippet_at normalized pos query_len max_len =
     (let half_len = max_len div 2;
          start = floor_char_boundary normalized (pos - half_len);
          end_pos = ceil_char_boundary normalized (min (pos + query_len + half_len) (length normalized));
          snippet_start = (if 0 < start
            then (case find_char (CHR '' '') (drop start normalized) of Some p \<Rightarrow> start + p + 1 | None \<Rightarrow> start) else start);
          snippet_end = (if end_pos < length normalized
            then (case rfind_char (CHR '' '') (take end_pos normalized) of Some p \<Rightarrow> p | None \<Rightarrow> end_pos) else end_pos)
      in map_option (\<lambda>sn. (if 0 < snippet_start then ''...'' else []) @ sn @ (if snippet_end < length normalized then ''...'' else []))
           (slice snippet_start snippet_end normalized))"

definition extract_snippet :: "(string \<Rightarrow> string) \<Rightarrow> string \<Rightarrow> string \<Rightarrow> nat \<Rightarrow> string option" where
  "extract_snippet lower txt query max_len =
     (let normalized = join '' '' (split_whitespace txt) in
      case find_str (lower query) (lower normalized) of
        Some pos \<Rightarrow> snippet_at normalized pos (length query) max_len
      | None \<Rightarrow>
          (let truncated = take_chars max_len normalized in
           if max_len < length normalized
           then Some ((case rfind_char (CHR '' '') truncated of Some p \<Rightarrow> take p truncated | None \<Rightarrow> truncated) @ ''...'')
           else Some truncated))"

lemma boundary_0 [simp]: "is_char_boundary 0 s"
  by (simp add: is_char_boundary_def)

lemma floor_from_spec: "is_char_boundary (floor_from s i) s \<and> floor_from s i \<le> i \<and> (\<forall>j. floor_from s i < j \<and> j \<le> i \<longrightarrow> \<not> is_char_boundary j s)"
proof (induction i rule: less_induct)
  case (less i)
  show ?case
  proof (cases "0 < i \<and> \<not> is_char_boundary i s")
    case True
    then have "floor_from s i = floor_from s (i - 1)" by (subst floor_from.simps) simp
    moreover have "\<not> is_char_boundary j s" if "floor_from s (i - 1) < j" "j \<le> i" for j
      using less [of "i - 1"] True that by (cases "j = i") auto
    moreover have "is_char_boundary (floor_from s (i - 1)) s" "floor_from s (i - 1) \<le> i" using less [of "i - 1"] True by auto
    ultimately show ?thesis by simp
  next
    case False
    then have "floor_from s i = i" by (subst floor_from.simps) (simp only: if_False)
    then show ?thesis using False by (cases "i = 0") auto
  qed
qed

lemma floor_ceil_ascii:
  assumes "\<forall>c \<in> set s. \<not> is_cont_byte c" and "i \<le> length s"
  shows "floor_char_boundary s i = i" "ceil_char_boundary s i = i"
proof -
  have "is_char_boundary i s" using assms by (auto simp: is_char_boundary_def)
  then show "floor_char_boundary s i = i" "ceil_char_boundary s i = i"
    using assms(2) floor_from.simps [of s i] ceil_from.simps [of s i] by (auto simp: floor_char_boundary_def ceil_char_boundary_def)
qed

lemma find_char_first: "c \<notin> set u \<Longrightarrow> find_char c (u @ c # v) = Some (length u)"
  by (induction u) auto

lemma rfind_char_last: "c \<notin> set v \<Longrightarrow> rfind_char c (u @ c # v) = Some (length u)"
  by (simp add: rfind_char_def find_char_first)

text \<open>A word that is long enough for the window to begin and to end in it makes the command fail: the start is moved
  to the next blank, the end to the last one before, and the slice from the one to the other panics.\<close>

lemma snippet_panics:
  assumes "CHR '' '' \<notin> set (a @ q @ b)" and "half < length a" and "half < length b"
    and "\<forall>c \<in> set (a @ q @ b). \<not> is_cont_byte c"
  shows "snippet_at (''x '' @ a @ q @ b @ '' y'') (2 + length a) (length q) (2 * half) = None"
proof -
  let ?N = "''x '' @ a @ q @ b @ '' y''" and ?w = "drop (length a - half) a @ q @ b"
  have ascii: "\<forall>c \<in> set ?N. \<not> is_cont_byte c" using assms(4) by (auto simp: is_cont_byte_def)
  have start: "floor_char_boundary ?N (2 + length a - half) = 2 + length a - half"
    by (rule floor_ceil_ascii(1) [OF ascii]) simp
  have stop: "ceil_char_boundary ?N (2 + length a + length q + half) = 2 + length a + length q + half"
    by (rule floor_ceil_ascii(2) [OF ascii]) (use assms(3) in simp)
  have "drop (2 + length a - half) ?N = ?w @ CHR '' '' # ''y''" using assms(2) by (simp add: Suc_diff_le)
  then have at: "drop (2 + length a - half) ?N = ?w @ '' y''" by simp
  have "CHR '' '' \<notin> set ?w" using assms(1) by (auto dest: in_set_dropD)
  then have first: "find_char (CHR '' '') (drop (2 + length a - half) ?N) = Some (length ?w)"
    unfolding at by (rule find_char_first)
  have "take (2 + length a + length q + half) ?N = ''x'' @ CHR '' '' # a @ q @ take half b" using assms(3) by simp
  moreover have "CHR '' '' \<notin> set (a @ q @ take half b)" using assms(1) by (auto dest: in_set_takeD)
  ultimately have last: "rfind_char (CHR '' '') (take (2 + length a + length q + half) ?N) = Some 1"
    using rfind_char_last [of "CHR '' ''" "a @ q @ take half b" "''x''"] by simp
  have "2 * half div 2 = half" "min (2 + length a + length q + half) (length ?N) = 2 + length a + length q + half"
    "0 < 2 + length a - half" "2 + length a + length q + half < length ?N"
    using assms(2, 3) by simp_all
  note window = this
  have "slice (2 + length a - half + length ?w + 1) 1 ?N = None" using assms(2) by (simp add: slice_def)
  then show ?thesis
    unfolding snippet_at_def Let_def window(1, 2) start stop using window(3, 4) first last by (simp only: if_True option.case option.map)
qed

end
