(* ===== verification/Telegram.thy ===== *)
theory Telegram
  imports Approval_Coordinator Path_Policy
begin

text \<open>
  Telegram: the client of the bot interface (\<^verbatim>\<open>src/src/ingress/telegram_client.rs\<close>), the webhook
  (\<^verbatim>\<open>src/src/server/telegram.rs\<close>) and the polling service (\<^verbatim>\<open>src/src/server/telegram_polling.rs\<close>), from the
  updates of the server to the messages pushed to the bus and the clicks that reach the approval coordinator.

  Requests, files, the transcriber and the bus are functions of a record on a world. Identifiers are integers;
  an update has one far below the limit of 64 bits.
\<close>

subsection \<open>Data\<close>

record telegram_document =
  td_file_id :: string
  td_file_name :: "string option"
  td_mime_type :: "string option"
  td_file_size :: "int option"

record telegram_message =
  tm_message_id :: int
  tm_from :: "int option"
  tm_text :: "string option"
  tm_photo :: "string list option"
  tm_document :: "telegram_document option"
  tm_audio :: "telegram_document option"
  tm_voice :: "telegram_document option"
  tm_caption :: "string option"

record telegram_callback_query =
  cq_id :: string
  cq_from :: int
  cq_data :: "string option"

record telegram_update =
  up_id :: int
  up_message :: "telegram_message option"
  up_callback :: "telegram_callback_query option"

subsection \<open>The client\<close>

record telegram_response =
  tr_success :: bool
  tr_text :: "(anyhow_error, string) res"
  tr_json :: "(anyhow_error, json) res"

record 'w telegram_client =
  tc_token :: string
  tc_post :: "string \<Rightarrow> json \<Rightarrow> 'w \<Rightarrow> (anyhow_error, telegram_response) res \<times> 'w"
  tc_get :: "string \<Rightarrow> 'w \<Rightarrow> (anyhow_error, telegram_response) res \<times> 'w"
  tc_debug :: "json \<Rightarrow> string"

definition bot_url :: "'w telegram_client \<Rightarrow> string \<Rightarrow> string" where
  "bot_url c m = ''https://api.telegram.org/bot'' @ tc_token c @ ''/'' @ m"

text \<open>A call whose response must be a success; otherwise the error is \<open>msg\<close> with the text of the response.\<close>

definition checked_response :: "string \<Rightarrow> (anyhow_error, telegram_response) res \<Rightarrow> (anyhow_error, telegram_response) res" where
  "checked_response msg r =
     bind_res r (\<lambda>resp. if tr_success resp then Inr resp else bind_res (tr_text resp) (\<lambda>t. Inl (Msg (msg @ t))))"

definition bot_call :: "'w telegram_client \<Rightarrow> string \<Rightarrow> string \<Rightarrow> json \<Rightarrow> 'w \<Rightarrow> (anyhow_error, telegram_response) res \<times> 'w" where
  "bot_call c m msg body w = (let (r, w1) = tc_post c (bot_url c m) body w in (checked_response msg r, w1))"

definition client_get_updates ::
  "'w telegram_client \<Rightarrow> (json \<Rightarrow> (bool \<times> telegram_update list) option) \<Rightarrow> int option \<Rightarrow> u64 \<Rightarrow> 'w
   \<Rightarrow> (anyhow_error, telegram_update list) res \<times> 'w" where
  "client_get_updates c parse offset wait w =
     (let body = JObj [''timeout'' \<mapsto> j_u64 wait];
          body1 = (case offset of Some i \<Rightarrow> jset body ''offset'' (JInt i) | None \<Rightarrow> body);
          (r, w1) = bot_call c ''getUpdates'' ''Telegram getUpdates failed: '' body1 w
      in (bind_res r (\<lambda>resp. bind_res (tr_json resp) (\<lambda>j.
            case parse j of
              None \<Rightarrow> Inl (Msg ''error decoding response body'')
            | Some (ok, us) \<Rightarrow> if ok then Inr us else Inl (Msg ''Telegram getUpdates returned ok=false''))), w1))"

function message_chunks :: "string list \<Rightarrow> string list" where
  "message_chunks cs = (if cs = [] then [] else concat (take 4000 cs) # message_chunks (drop 4000 cs))"
  by pat_completeness auto
termination by (relation "measure length") auto

declare message_chunks.simps [simp del]

fun send_chunks :: "'w telegram_client \<Rightarrow> int \<Rightarrow> string list \<Rightarrow> 'w \<Rightarrow> (anyhow_error, unit) res \<times> 'w" where
  "send_chunks c chat_id [] w = (Inr (), w)"
| "send_chunks c chat_id (t # ts) w =
     (case bot_call c ''sendMessage'' ''Telegram sendMessage failed: '' (JObj [''chat_id'' \<mapsto> JInt chat_id, ''text'' \<mapsto> JStr t]) w of
        (Inl e, w1) \<Rightarrow> (Inl e, w1)
      | (Inr _, w1) \<Rightarrow> send_chunks c chat_id ts w1)"

definition client_send_message :: "'w telegram_client \<Rightarrow> int \<Rightarrow> string \<Rightarrow> 'w \<Rightarrow> (anyhow_error, unit) res \<times> 'w" where
  "client_send_message c chat_id t w = send_chunks c chat_id (message_chunks (chars t)) w"

definition client_get_file_download_url :: "'w telegram_client \<Rightarrow> string \<Rightarrow> 'w \<Rightarrow> (anyhow_error, string) res \<times> 'w" where
  "client_get_file_download_url c file_id w =
     (let (r, w1) = bot_call c ''getFile'' ''Telegram getFile failed: '' (JObj [''file_id'' \<mapsto> JStr file_id]) w
      in (bind_res r (\<lambda>resp. bind_res (tr_json resp) (\<lambda>j.
            case as_str (jindex (jindex j ''result'') ''file_path'') of
              Some p \<Rightarrow> Inr (''https://api.telegram.org/file/bot'' @ tc_token c @ ''/'' @ p)
            | None \<Rightarrow> Inl (Msg (''Failed to get file path from Telegram: '' @ tc_debug c j)))), w1))"

definition client_download_file :: "'w telegram_client \<Rightarrow> string \<Rightarrow> 'w \<Rightarrow> (anyhow_error, string) res \<times> 'w" where
  "client_download_file c url w =
     (let (r, w1) = tc_get c url w in (bind_res (checked_response ''Failed to download file: '' r) tr_text, w1))"

fun as_i64 :: "json \<Rightarrow> int option" where
  "as_i64 (JInt n) = (if - (2 ^ 63) \<le> n \<and> n < 2 ^ 63 then Some n else None)"
| "as_i64 v = None"

definition check_mark :: string where
  "check_mark = [CHR 0xE2, CHR 0x9C, CHR 0x85]"

definition cross_mark :: string where
  "cross_mark = [CHR 0xE2, CHR 0x9D, CHR 0x8C]"

definition approval_keyboard :: "string \<Rightarrow> json" where
  "approval_keyboard call_id =
     JObj [''inline_keyboard'' \<mapsto> JArr [JArr
       [JObj [''text'' \<mapsto> JStr (check_mark @ '' Approve''), ''callback_data'' \<mapsto> JStr (''approve:'' @ call_id)],
        JObj [''text'' \<mapsto> JStr (cross_mark @ '' Deny''), ''callback_data'' \<mapsto> JStr (''deny:'' @ call_id)]]]]"

definition client_send_approval_message ::
  "'w telegram_client \<Rightarrow> int \<Rightarrow> string \<Rightarrow> string \<Rightarrow> 'w \<Rightarrow> (anyhow_error, int) res \<times> 'w" where
  "client_send_approval_message c chat_id t call_id w =
     (let (r, w1) = bot_call c ''sendMessage'' ''Telegram sendMessage error: ''
            (JObj [''chat_id'' \<mapsto> JInt chat_id, ''text'' \<mapsto> JStr t, ''reply_markup'' \<mapsto> approval_keyboard call_id]) w
      in (bind_res r (\<lambda>resp. bind_res (tr_json resp) (\<lambda>j.
            case as_i64 (jindex (jindex j ''result'') ''message_id'') of
              Some i \<Rightarrow> Inr i
            | None \<Rightarrow> Inl (Msg ''No message_id in response''))), w1))"

definition client_edit_message_text ::
  "'w telegram_client \<Rightarrow> int \<Rightarrow> int \<Rightarrow> string \<Rightarrow> 'w \<Rightarrow> (anyhow_error, unit) res \<times> 'w" where
  "client_edit_message_text c chat_id message_id t w =
     (let (r, w1) = bot_call c ''editMessageText'' ''Telegram editMessageText error: ''
            (JObj [''chat_id'' \<mapsto> JInt chat_id, ''message_id'' \<mapsto> JInt message_id, ''text'' \<mapsto> JStr t]) w
      in (map_sum id (\<lambda>_. ()) r, w1))"

definition client_answer_callback_query ::
  "'w telegram_client \<Rightarrow> string \<Rightarrow> string option \<Rightarrow> 'w \<Rightarrow> (anyhow_error, unit) res \<times> 'w" where
  "client_answer_callback_query c query_id t w =
     (let (r, w1) = bot_call c ''answerCallbackQuery'' ''Telegram answerCallbackQuery error: ''
            (jset_opt (JObj [''callback_query_id'' \<mapsto> JStr query_id]) ''text'' (map_option JStr t)) w
      in (map_sum id (\<lambda>_. ()) r, w1))"

subsection \<open>From messages to the bus\<close>

record 'w telegram_env =
  te_client :: "'w telegram_client"
  te_owner :: "int option"
  te_attachments_enabled :: bool
  te_max_file_size_bytes :: u64
  te_base_dir :: string
  te_project_dir :: path
  te_alnum :: "string \<Rightarrow> bool"
  te_base64 :: "string \<Rightarrow> string"
  te_transcriber :: "(path \<Rightarrow> 'w \<Rightarrow> (anyhow_error, string) res \<times> 'w) option"
  te_temp_file :: "string \<Rightarrow> 'w \<Rightarrow> (anyhow_error, path) res \<times> 'w"
  te_create_dir_all :: "path \<Rightarrow> 'w \<Rightarrow> (anyhow_error, unit) res \<times> 'w"
  te_write_file :: "path \<Rightarrow> string \<Rightarrow> 'w \<Rightarrow> (anyhow_error, unit) res \<times> 'w"
  te_uuid :: "'w \<Rightarrow> string"
  te_now :: "'w \<Rightarrow> u64"
  te_push :: "ingress_message \<Rightarrow> 'w \<Rightarrow> (anyhow_error, unit) res \<times> 'w"

definition telegram_source :: "int \<Rightarrow> string" where
  "telegram_source chat_id = ''telegram:'' @ show_int chat_id"

definition telegram_trust :: "int option \<Rightarrow> int \<Rightarrow> trust_level" where
  "telegram_trust owner user_id =
     (case owner of Some o_id \<Rightarrow> if user_id = o_id then OwnerCommand else UntrustedEvent | None \<Rightarrow> UntrustedEvent)"

definition push_text ::
  "'w telegram_env \<Rightarrow> int \<Rightarrow> trust_level \<Rightarrow> string \<Rightarrow> image_attachment list \<Rightarrow> 'w \<Rightarrow> (anyhow_error, unit) res \<times> 'w" where
  "push_text env chat_id trust payload imgs w =
     te_push env (with_images imgs (ingress_new (te_uuid env w) (te_now env w) (telegram_source chat_id) payload trust)) w"

definition safe_name :: "(string \<Rightarrow> bool) \<Rightarrow> string \<Rightarrow> string" where
  "safe_name uni n =
     concat (map (\<lambda>c. if is_alphanumeric uni c \<or> c = ''-'' \<or> c = ''_'' \<or> c = ''.'' then c else ''_'') (chars n))"

definition document_name :: "(string \<Rightarrow> bool) \<Rightarrow> int \<Rightarrow> int \<Rightarrow> string \<Rightarrow> string" where
  "document_name uni message_id chat_id original = show_int message_id @ ''_'' @ show_int chat_id @ ''_'' @ safe_name uni original"

definition document_xml :: "string \<Rightarrow> string \<Rightarrow> nat \<Rightarrow> string \<Rightarrow> string" where
  "document_xml original mime bytes rel =
     (let q = [CHR 0x22] in
      ''<context>'' @ nl @ ''<attached-file filename='' @ q @ original @ q @ '' mime='' @ q @ mime @ q @ '' size='' @ q
        @ show_nat bytes @ q @ '' path='' @ q @ rel @ q @ ''/>'' @ nl @ ''</context>'')"

definition with_caption :: "string option \<Rightarrow> string \<Rightarrow> string" where
  "with_caption cap t = (case cap of Some c \<Rightarrow> c @ nl2 @ t | None \<Rightarrow> t)"

definition fetch_file :: "'w telegram_env \<Rightarrow> string \<Rightarrow> 'w \<Rightarrow> (anyhow_error, string) res \<times> 'w" where
  "fetch_file env file_id w =
     (case client_get_file_download_url (te_client env) file_id w of
        (Inl e, w1) \<Rightarrow> (Inl e, w1)
      | (Inr url, w1) \<Rightarrow> client_download_file (te_client env) url w1)"

definition handle_document ::
  "'w telegram_env \<Rightarrow> telegram_document \<Rightarrow> telegram_message \<Rightarrow> int \<Rightarrow> trust_level \<Rightarrow> 'w \<Rightarrow> (anyhow_error, unit) res \<times> 'w" where
  "handle_document env doc m chat_id trust w =
     (if \<not> te_attachments_enabled env then (Inr (), w)
      else if (case td_file_size doc of Some n \<Rightarrow> sint (te_max_file_size_bytes env) < n | None \<Rightarrow> False) then (Inr (), w)
      else
        let original = unwrap_or (td_file_name doc) ''file'';
            filename = document_name (te_alnum env) (tm_message_id m) chat_id original;
            attach_dir = path_join (path_join (te_project_dir env) (components (te_base_dir env))) [Normal ''telegram'']
        in case te_create_dir_all env attach_dir w of
             (Inl _, w1) \<Rightarrow> (Inr (), w1)
           | (Inr _, w1) \<Rightarrow>
               (case fetch_file env (td_file_id doc) w1 of
                  (Inl e, w2) \<Rightarrow> (Inl e, w2)
                | (Inr bytes, w2) \<Rightarrow>
                    (case te_write_file env (path_join attach_dir (components filename)) bytes w2 of
                       (Inl e, w3) \<Rightarrow> (Inl e, w3)
                     | (Inr _, w3) \<Rightarrow>
                         push_text env chat_id trust
                           (with_caption (tm_caption m)
                             (document_xml original (unwrap_or (td_mime_type doc) ''application/octet-stream'') (length bytes)
                               (te_base_dir env @ ''/telegram/'' @ filename)))
                           [] w3)))"

text \<open>Audio and voice messages: the same steps on a file with and without a name. What fails before the transcription
  ends the message without an error, a failed transcription falls back to the document.\<close>

definition handle_recording ::
  "'w telegram_env \<Rightarrow> telegram_document \<Rightarrow> telegram_message \<Rightarrow> int \<Rightarrow> trust_level \<Rightarrow> 'w \<Rightarrow> (anyhow_error, unit) res \<times> 'w" where
  "handle_recording env doc m chat_id trust w =
     (case te_transcriber env of
        None \<Rightarrow> handle_document env doc m chat_id trust w
      | Some transcribe \<Rightarrow>
          (case fetch_file env (td_file_id doc) w of
             (Inl _, w1) \<Rightarrow> (Inr (), w1)
           | (Inr bytes, w1) \<Rightarrow>
               (case te_temp_file env bytes w1 of
                  (Inl _, w2) \<Rightarrow> (Inr (), w2)
                | (Inr p, w2) \<Rightarrow>
                    (case transcribe p w2 of
                       (Inl _, w3) \<Rightarrow> handle_document env doc m chat_id trust w3
                     | (Inr t, w3) \<Rightarrow> push_text env chat_id trust (with_caption (tm_caption m) t) [] w3))))"

definition photo_payload :: "'w telegram_env \<Rightarrow> telegram_message \<Rightarrow> string list \<Rightarrow> 'w \<Rightarrow> (string \<times> image_attachment list) option \<times> 'w" where
  "photo_payload env m photos w =
     (if photos = [] then (None, w)
      else case fetch_file env (last photos) w of
        (Inl _, w1) \<Rightarrow> (None, w1)
      | (Inr bytes, w1) \<Rightarrow>
          (Some (unwrap_or (tm_caption m) ''User sent an image'',
             [\<lparr>img_data = te_base64 env bytes, img_media_type = ''image/jpeg''\<rparr>]), w1))"

definition handle_message :: "'w telegram_env \<Rightarrow> telegram_message \<Rightarrow> 'w \<Rightarrow> (anyhow_error, unit) res \<times> 'w" where
  "handle_message env m w =
     (case tm_from m of
        None \<Rightarrow> (Inr (), w)
      | Some user_id \<Rightarrow>
          (let trust = telegram_trust (te_owner env) user_id in
           case tm_document m of
             Some doc \<Rightarrow> handle_document env doc m user_id trust w
           | None \<Rightarrow>
               (case tm_audio m of
                  Some a \<Rightarrow> handle_recording env a m user_id trust w
                | None \<Rightarrow>
                    (case tm_voice m of
                       Some v \<Rightarrow> handle_recording env (v\<lparr>td_file_name := None\<rparr>) m user_id trust w
                     | None \<Rightarrow>
                         (let (payload, w1) = (case tm_photo m of
                                Some photos \<Rightarrow> photo_payload env m photos w
                              | None \<Rightarrow> (map_option (\<lambda>t. (t, [])) (tm_text m), w))
                          in case payload of
                               Some (t, imgs) \<Rightarrow> push_text env user_id trust t imgs w1
                             | None \<Rightarrow> (Inr (), w1))))))"

subsection \<open>Approvals\<close>

record approval_ui_request =
  ui_call_id :: string
  ui_chat_id :: int
  ui_tool_name :: string
  ui_arguments :: string

definition handle_approval_ui_request ::
  "'w telegram_env \<Rightarrow> approval_ui_request \<Rightarrow> 'w \<Rightarrow> (anyhow_error, int) res \<times> 'w" where
  "handle_approval_ui_request env req w =
     client_send_approval_message (te_client env) (ui_chat_id req)
       (''Tool `'' @ ui_tool_name req @ ''` requires approval:'' @ nl @ ''Arguments: `'' @ ui_arguments req @ ''`'') (ui_call_id req) w"

definition parse_callback :: "string option \<Rightarrow> (anyhow_error, approval_decision \<times> string) res" where
  "parse_callback data =
     (case data of
        None \<Rightarrow> Inl (Msg ''Missing callback data'')
      | Some d \<Rightarrow>
          (case split_once (CHR '':'') d of
             None \<Rightarrow> Inl (Msg (''Invalid callback data format: '' @ d))
           | Some (dec, call_id) \<Rightarrow>
               if dec = ''approve'' then Inr (ApproveDecision, call_id)
               else if dec = ''deny'' then Inr (DenyDecision, call_id)
               else Inl (Msg (''Unknown decision: '' @ dec))))"

definition result_text :: "approval_decision \<Rightarrow> string" where
  "result_text d = (case d of ApproveDecision \<Rightarrow> check_mark @ '' Approved'' | DenyDecision \<Rightarrow> cross_mark @ '' Denied'')"

definition handle_callback_query ::
  "'w telegram_env \<Rightarrow> telegram_callback_query \<Rightarrow> coordinator \<Rightarrow> 'w \<Rightarrow> (anyhow_error, unit) res \<times> coordinator \<times> 'w" where
  "handle_callback_query env q sy w =
     (case parse_callback (cq_data q) of
        Inl e \<Rightarrow> (Inl e, sy, w)
      | Inr (d, call_id) \<Rightarrow>
          (let (found, sy1) = resolve call_id d sy;
               w1 = (case found of
                  Some (chat_id, message_id) \<Rightarrow> snd (client_edit_message_text (te_client env) chat_id message_id (result_text d) w)
                | None \<Rightarrow> w);
               w2 = snd (client_answer_callback_query (te_client env) (cq_id q) (Some ''Processed'') w1)
           in (Inr (), sy1, w2)))"

subsection \<open>The polling loop\<close>

text \<open>A turn of the loop ends with the answer of the server, or with a request of the coordinator, which abandons
  the poll that was under way, or with the end of its channel.\<close>

datatype poll_event =
    Polled "(anyhow_error, telegram_update list) res"
  | UiRequest approval_ui_request
  | UiClosed

record 'w poll_state =
  ps_offset :: "int option"
  ps_backoff :: nat
  ps_running :: bool
  ps_coord :: coordinator
  ps_world :: 'w

definition handle_update :: "'w telegram_env \<Rightarrow> telegram_update \<Rightarrow> 'w poll_state \<Rightarrow> 'w poll_state" where
  "handle_update env u st =
     (let w1 = (case up_message u of Some m \<Rightarrow> snd (handle_message env m (ps_world st)) | None \<Rightarrow> ps_world st);
          (sy2, w2) = (case up_callback u of
             Some q \<Rightarrow> snd (handle_callback_query env q (ps_coord st) w1)
           | None \<Rightarrow> (ps_coord st, w1))
      in st\<lparr>ps_offset := Some (up_id u + 1), ps_coord := sy2, ps_world := w2\<rparr>)"

fun poll_step :: "'w telegram_env \<Rightarrow> poll_event \<Rightarrow> 'w poll_state \<Rightarrow> 'w poll_state" where
  "poll_step env (Polled (Inr us)) st = fold (handle_update env) us (st\<lparr>ps_backoff := 1\<rparr>)"
| "poll_step env (Polled (Inl e)) st = st\<lparr>ps_backoff := min (ps_backoff st * 2) 60\<rparr>"
| "poll_step env (UiRequest req) st = st\<lparr>ps_world := snd (handle_approval_ui_request env req (ps_world st))\<rparr>"
| "poll_step env UiClosed st = st\<lparr>ps_running := False\<rparr>"

fun poll_run :: "'w telegram_env \<Rightarrow> poll_event list \<Rightarrow> 'w poll_state \<Rightarrow> 'w poll_state" where
  "poll_run env [] st = st"
| "poll_run env (ev # evs) st = (if ps_running st then poll_run env evs (poll_step env ev st) else st)"

definition poll_start :: "coordinator \<Rightarrow> 'w \<Rightarrow> 'w poll_state" where
  "poll_start sy w = \<lparr>ps_offset = None, ps_backoff = 1, ps_running = True, ps_coord = sy, ps_world = w\<rparr>"

subsection \<open>The webhook\<close>

record 'w webhook_state =
  wh_secret :: "string option"
  wh_env :: "'w telegram_env option"
  wh_bot :: "'w telegram_client option"
  wh_owner :: "int option"
  wh_get :: "string \<Rightarrow> 'w \<Rightarrow> (anyhow_error, string) res \<times> 'w"

definition webhook_payload ::
  "'w webhook_state \<Rightarrow> (string \<Rightarrow> string) \<Rightarrow> telegram_message \<Rightarrow> 'w \<Rightarrow> (string \<times> image_attachment list) option \<times> 'w" where
  "webhook_payload wh base64 m w =
     (case tm_text m of
        Some t \<Rightarrow> (Some (t, []), w)
      | None \<Rightarrow>
          (case tm_photo m of
             None \<Rightarrow> (None, w)
           | Some photos \<Rightarrow>
               if photos = [] then (None, w)
               else case wh_bot wh of
                 None \<Rightarrow> (Some (''[Photo received but bot token missing]'', []), w)
               | Some c \<Rightarrow>
                   (case client_get_file_download_url c (last photos) w of
                      (Inl _, w1) \<Rightarrow> (None, w1)
                    | (Inr url, w1) \<Rightarrow>
                        (case wh_get wh url w1 of
                           (Inl _, w2) \<Rightarrow> (None, w2)
                         | (Inr bytes, w2) \<Rightarrow>
                             (Some (''User sent an image'', [\<lparr>img_data = base64 bytes, img_media_type = ''image/jpeg''\<rparr>]), w2)))))"

text \<open>The status of the response. \<open>wh_env\<close> is there when the bus is; its owner is that of the configuration.\<close>

definition webhook_handler :: "'w webhook_state \<Rightarrow> string option \<Rightarrow> telegram_update \<Rightarrow> 'w \<Rightarrow> u16 \<times> 'w" where
  "webhook_handler wh got_token u w =
     (if (case wh_secret wh of Some expected \<Rightarrow> got_token \<noteq> Some expected | None \<Rightarrow> False) then (401, w)
      else case wh_env wh of
        None \<Rightarrow> (503, w)
      | Some env \<Rightarrow>
          (case up_message u of
             None \<Rightarrow> (200, w)
           | Some m \<Rightarrow>
               (let (payload, w1) = webhook_payload wh (te_base64 env) m w in
                case (payload, tm_from m) of
                  (Some (t, imgs), Some user_id) \<Rightarrow>
                    (case push_text env user_id (telegram_trust (wh_owner wh) user_id) t imgs w1 of
                       (Inl _, w2) \<Rightarrow> (500, w2)
                     | (Inr _, w2) \<Rightarrow> (200, w2))
                | _ \<Rightarrow> (200, w1))))"

subsection \<open>Every update once\<close>

text \<open>What the server documents: it answers with the first of the updates from the given identifier on, as many as it has.
  \<open>serves us env evs st\<close> says that all answers in \<open>evs\<close> are of this kind for the updates \<open>us\<close>.\<close>

definition due :: "telegram_update list \<Rightarrow> int option \<Rightarrow> telegram_update list" where
  "due us offset = (case offset of None \<Rightarrow> us | Some i \<Rightarrow> filter (\<lambda>u. i \<le> up_id u) us)"

fun serves :: "telegram_update list \<Rightarrow> 'w telegram_env \<Rightarrow> poll_event list \<Rightarrow> 'w poll_state \<Rightarrow> bool" where
  "serves us env [] st = True"
| "serves us env (ev # evs) st =
     (ps_running st \<longrightarrow>
        (case ev of Polled (Inr batch) \<Rightarrow> prefix batch (due us (ps_offset st)) | _ \<Rightarrow> True)
        \<and> serves us env evs (poll_step env ev st))"

text \<open>The specification of the service: what it owes the events, in their order, up to the end of the channel. Each update is
  handled by its message and then by its click, each request is shown to the user.\<close>

datatype poll_act = Handles telegram_update | Shows approval_ui_request

fun owed :: "poll_event list \<Rightarrow> poll_act list" where
  "owed [] = []"
| "owed (Polled (Inr us) # evs) = map Handles us @ owed evs"
| "owed (Polled (Inl e) # evs) = owed evs"
| "owed (UiRequest req # evs) = Shows req # owed evs"
| "owed (UiClosed # evs) = []"

fun perform :: "'w telegram_env \<Rightarrow> poll_act \<Rightarrow> coordinator \<times> 'w \<Rightarrow> coordinator \<times> 'w" where
  "perform env (Handles u) (sy, w) =
     (let w1 = (case up_message u of Some m \<Rightarrow> snd (handle_message env m w) | None \<Rightarrow> w) in
      case up_callback u of Some q \<Rightarrow> snd (handle_callback_query env q sy w1) | None \<Rightarrow> (sy, w1))"
| "perform env (Shows req) (sy, w) = (sy, snd (handle_approval_ui_request env req w))"

fun updates_of :: "poll_act list \<Rightarrow> telegram_update list" where
  "updates_of [] = []"
| "updates_of (Handles u # acts) = u # updates_of acts"
| "updates_of (Shows req # acts) = updates_of acts"

definition effects :: "'w poll_state \<Rightarrow> coordinator \<times> 'w" where
  "effects st = (ps_coord st, ps_world st)"

definition offset_after :: "telegram_update list \<Rightarrow> int option" where
  "offset_after us = (if us = [] then None else Some (up_id (last us) + 1))"

lemma fold_handle_update:
  "ps_offset (fold (handle_update env) us st) = (if us = [] then ps_offset st else offset_after us)"
  "ps_running (fold (handle_update env) us st) = ps_running st"
  "ps_backoff (fold (handle_update env) us st) = ps_backoff st"
proof (induction us arbitrary: st)
  case (Cons u us)
  have u: "ps_offset (handle_update env u st) = Some (up_id u + 1)" "ps_running (handle_update env u st) = ps_running st"
    "ps_backoff (handle_update env u st) = ps_backoff st" for st
    by (simp_all add: handle_update_def Let_def split: prod.splits)
  case 1 show ?case using Cons(1) [of "handle_update env u st"] u by (cases "us = []") (simp_all add: offset_after_def)
  case 2 show ?case using Cons(2) [of "handle_update env u st"] u by simp
  case 3 show ?case using Cons(3) [of "handle_update env u st"] u by simp
qed simp_all

lemma updates_of_append [simp]: "updates_of (xs @ ys) = updates_of xs @ updates_of ys"
  by (induction xs rule: updates_of.induct) simp_all

lemma updates_of_handles [simp]: "updates_of (map Handles us) = us"
  by (induction us) simp_all

lemma effects_update: "effects (handle_update env u st) = perform env (Handles u) (effects st)"
  by (auto simp: effects_def handle_update_def Let_def split: option.split prod.split)

lemma effects_updates: "effects (fold (handle_update env) us st) = fold (perform env) (map Handles us) (effects st)"
  by (induction us arbitrary: st) (simp_all add: effects_update del: perform.simps)

lemma effects_run: "ps_running st \<Longrightarrow> effects (poll_run env evs st) = fold (perform env) (owed evs) (effects st)"
proof (induction evs arbitrary: st)
  case (Cons ev evs)
  show ?case
  proof (cases ev)
    case (Polled r)
    show ?thesis
    proof (cases r)
      case (Inl e)
      have "effects (poll_step env ev st) = effects st" using Polled Inl by (simp add: effects_def)
      then show ?thesis using Cons Polled Inl by simp
    next
      case (Inr us)
      let ?st = "poll_step env ev st"
      have "effects (st\<lparr>ps_backoff := 1\<rparr>) = effects st" by (simp add: effects_def)
      then have "effects ?st = fold (perform env) (map Handles us) (effects st)"
        using Polled Inr effects_updates [of env us "st\<lparr>ps_backoff := 1\<rparr>"] by simp
      moreover have "ps_running ?st" using Polled Inr Cons.prems by (simp add: fold_handle_update)
      ultimately show ?thesis using Cons Polled Inr by simp
    qed
  next
    case (UiRequest req)
    have "effects (poll_step env ev st) = perform env (Shows req) (effects st)"
      using UiRequest by (simp add: effects_def)
    then show ?thesis using Cons UiRequest by simp
  next
    case UiClosed
    then have "poll_run env evs (poll_step env ev st) = st\<lparr>ps_running := False\<rparr>" by (cases evs) simp_all
    then show ?thesis using UiClosed Cons.prems by (simp add: effects_def)
  qed
qed simp

lemma due_after:
  assumes "sorted_wrt (\<lambda>a b. up_id a < up_id b) us" and "k \<le> length us"
  shows "due us (offset_after (take k us)) = drop k us"
proof (cases k)
  case (Suc j)
  then have j: "j < length us" "last (take k us) = us ! j" "take k us \<noteq> []" using assms(2) by (auto simp: take_Suc_conv_app_nth)
  have "\<not> up_id (us ! j) + 1 \<le> up_id u" if u: "u \<in> set (take k us)" for u
  proof -
    obtain i where i: "i < k" "u = us ! i" "i < length us" using u assms(2) by (auto simp: in_set_conv_nth)
    then have "i = j \<or> up_id (us ! i) < up_id (us ! j)" using assms(1) j(1) Suc by (auto simp: sorted_wrt_iff_nth_less less_Suc_eq)
    then show ?thesis using i(2) by auto
  qed
  then have "filter (\<lambda>u. up_id (us ! j) + 1 \<le> up_id u) (take k us) = []" by (simp add: filter_empty_conv)
  moreover have "up_id (us ! j) + 1 \<le> up_id u" if u: "u \<in> set (drop k us)" for u
  proof -
    obtain i where "i < length (drop k us)" "u = drop k us ! i" using u by (metis in_set_conv_nth)
    then have i: "k + i < length us" "u = us ! (k + i)" by simp_all
    have "j < k + i" using Suc by simp
    then have "up_id (us ! j) < up_id u" using i assms(1) by (simp add: sorted_wrt_iff_nth_less)
    then show ?thesis by simp
  qed
  then have "filter (\<lambda>u. up_id (us ! j) + 1 \<le> up_id u) (drop k us) = drop k us" by simp
  moreover have "filter P us = filter P (take k us) @ filter P (drop k us)" for P by (metis append_take_drop_id filter_append)
  ultimately show ?thesis using j(2, 3) by (simp add: due_def offset_after_def)
qed (simp add: due_def offset_after_def)

lemma poll_run_serves:
  assumes "sorted_wrt (\<lambda>a b. up_id a < up_id b) us"
  shows "serves us env evs st \<Longrightarrow> ps_running st \<Longrightarrow> k \<le> length us \<Longrightarrow> ps_offset st = offset_after (take k us)
    \<Longrightarrow> \<exists>n. updates_of (owed evs) = take n (drop k us) \<and> ps_offset (poll_run env evs st) = offset_after (take (k + n) us)"
proof (induction evs arbitrary: st k)
  case (Cons ev evs)
  have same: "\<exists>n. updates_of (owed evs) = take n (drop k us) \<and> ps_offset (poll_run env evs st') = offset_after (take (k + n) us)"
    if "ps_offset st' = ps_offset st" "ps_running st'" "serves us env evs st'" for st'
    using Cons.IH [OF that(3, 2) Cons.prems(3)] that(1) Cons.prems(4) by simp
  show ?case
  proof (cases ev)
    case (Polled r)
    show ?thesis
    proof (cases r)
      case (Inr batch)
      then have "prefix batch (drop k us)"
        using Cons.prems Polled due_after [OF assms Cons.prems(3)] by simp
      then obtain n where n: "batch = take n (drop k us)" "n \<le> length (drop k us)" by (metis prefix_length_le prefix_def append_eq_conv_conj)
      let ?st = "poll_step env ev st"
      have "take (k + n) us = take k us @ batch" using n(1) by (simp add: take_add)
      then have off: "ps_offset ?st = offset_after (take (k + n) us)"
        using Polled Inr Cons.prems(4) by (auto simp: fold_handle_update offset_after_def)
      have "ps_running ?st" using Polled Inr Cons.prems(2) by (simp add: fold_handle_update)
      moreover have "k + n \<le> length us" using n(2) Cons.prems(3) by simp
      ultimately obtain m where "updates_of (owed evs) = take m (drop (k + n) us)" "ps_offset (poll_run env evs ?st) = offset_after (take (k + n + m) us)"
        using Cons.IH [of ?st "k + n"] off Cons.prems(1, 2) by auto
      then show ?thesis
        using Polled Inr n(1) Cons.prems(2) by (intro exI [of _ "n + m"]) (simp add: take_add add.assoc [symmetric] add.commute [of n k])
    qed (use Polled Cons.prems same [of "poll_step env ev st"] in simp)
  next
    case UiClosed
    then have "poll_run env evs (poll_step env ev st) = st\<lparr>ps_running := False\<rparr>" by (cases evs) simp_all
    then show ?thesis using UiClosed Cons.prems by (intro exI [of _ 0]) simp
  qed (use Cons.prems same [of "poll_step env ev st"] in simp)
qed (auto intro: exI [of _ 0])

text \<open>C7: However polls, failures of the server and requests of the coordinator alternate, every update that is received is
  handled, in the order of the server, once, and none is left out. What the run has done to the coordinator and to the
  world is the handling of a first part of all updates, each by its message and its click, with the requests shown
  where they came, and nothing else; the offset asked for next is the one after the last update handled. A poll that
  a request interrupts is repeated without loss.\<close>

theorem poll_every_update_once:
  assumes "sorted_wrt (\<lambda>a b. up_id a < up_id b) us" and "serves us env evs (poll_start sy w)"
  shows "\<exists>n. effects (poll_run env evs (poll_start sy w)) = fold (perform env) (owed evs) (sy, w)
    \<and> updates_of (owed evs) = take n us \<and> ps_offset (poll_run env evs (poll_start sy w)) = offset_after (take n us)"
proof -
  have st: "ps_running (poll_start sy w)" "ps_offset (poll_start sy w) = offset_after (take 0 us)"
    "effects (poll_start sy w) = (sy, w)"
    by (simp_all add: poll_start_def offset_after_def effects_def)
  from poll_run_serves [OF assms st(1) _ st(2)] effects_run [OF st(1), of env evs] st(3) show ?thesis by auto
qed

text \<open>The delay after an error doubles up to a minute.\<close>

lemma poll_backoff: "1 \<le> ps_backoff st \<Longrightarrow> ps_backoff st \<le> 60
    \<Longrightarrow> 1 \<le> ps_backoff (poll_run env evs st) \<and> ps_backoff (poll_run env evs st) \<le> 60"
proof (induction evs arbitrary: st)
  case (Cons ev evs)
  have "1 \<le> ps_backoff (poll_step env ev st) \<and> ps_backoff (poll_step env ev st) \<le> 60"
    using Cons.prems by (cases "(env, ev, st)" rule: poll_step.cases) (simp_all add: fold_handle_update)
  then show ?case using Cons by simp
qed simp

subsection \<open>Messages to the user\<close>

lemma message_chunks_spec:
  "list_all code_point cs \<Longrightarrow>
    concat (message_chunks cs) = concat cs \<and> list_all (\<lambda>t. t \<noteq> [] \<and> char_count t \<le> 4000) (message_chunks cs)"
proof (induction cs rule: message_chunks.induct)
  case (1 cs)
  show ?case
  proof (cases "cs = []")
    case False
    have points: "list_all code_point (take 4000 cs)" "list_all code_point (drop 4000 cs)"
      using 1(2) by (auto simp: list_all_iff dest: in_set_takeD in_set_dropD)
    have "concat (take 4000 cs) @ concat (drop 4000 cs) = concat cs" by (metis append_take_drop_id concat_append)
    moreover have "char_count (concat (take 4000 cs)) \<le> 4000" using chars_concat [OF points(1)] by (simp add: char_count_def)
    moreover have "concat (take 4000 cs) \<noteq> []" using False 1(2) by (cases cs) (auto simp: code_point_def)
    ultimately show ?thesis using False 1(1) [OF False points(2)] by (subst (1 2) message_chunks.simps) simp
  qed (simp add: message_chunks.simps)
qed

text \<open>The buttons of a request for approval are read back as the decisions they stand for, whatever the identifier
  of the call contains, and a click on one decides this call and no other.\<close>

theorem approval_buttons_decide:
  "parse_callback (Some (''approve:'' @ call_id)) = Inr (ApproveDecision, call_id)
   \<and> parse_callback (Some (''deny:'' @ call_id)) = Inr (DenyDecision, call_id)
   \<and> fst (snd (handle_callback_query env \<lparr>cq_id = q, cq_from = from_id, cq_data = Some (''approve:'' @ call_id)\<rparr> sy w))
      = snd (resolve call_id ApproveDecision sy)
   \<and> fst (snd (handle_callback_query env \<lparr>cq_id = q, cq_from = from_id, cq_data = Some (''deny:'' @ call_id)\<rparr> sy w))
      = snd (resolve call_id DenyDecision sy)"
proof -
  have "parse_callback (Some (''approve:'' @ call_id)) = Inr (ApproveDecision, call_id)"
    "parse_callback (Some (''deny:'' @ call_id)) = Inr (DenyDecision, call_id)"
    by (simp_all add: parse_callback_def split_once_def)
  then show ?thesis by (simp add: handle_callback_query_def Let_def split: prod.splits)
qed

subsection \<open>Attached documents\<close>

lemma chars_slash: "c \<in> set (chars s) \<Longrightarrow> CHR ''/'' \<in> set c \<Longrightarrow> hd c = CHR ''/''"
  using chars_shape [of c s] by (cases c) (auto simp: list_all_iff is_cont_byte_def)

lemma safe_name_no_slash:
  assumes "\<And>c. uni c \<Longrightarrow> CHR ''/'' \<notin> set c"
  shows "CHR ''/'' \<notin> set (safe_name uni n)"
proof -
  have "CHR ''/'' \<notin> set c" if "is_alphanumeric uni c" for c
    using that assms [of c] by (cases c; cases "tl c") (auto simp: is_alphanumeric_def)
  then show ?thesis by (auto simp: safe_name_def split: if_splits)
qed

lemma show_int_chars: "c \<in> set (show_int i) \<Longrightarrow> c = CHR ''-'' \<or> is_ascii_digit c"
  using show_nat_digits [of "nat i"] show_nat_digits [of "nat (- i)"] by (auto simp: show_int_def list_all_iff split: if_splits)

lemma split_on_single: "c \<notin> set s \<Longrightarrow> split_on c s = [s]"
  by (induction s) auto

lemma components_name:
  assumes "CHR ''/'' \<notin> set s" and "CHR ''_'' \<in> set s"
  shows "components s = [Normal s]"
proof -
  have "s \<noteq> ''.''" "s \<noteq> ''..''" "s \<noteq> []" "\<not> prefix ''/'' s" using assms by (auto simp: prefix_def)
  then show ?thesis using split_on_single [OF assms(1)] by (simp add: components_def component_of_def)
qed

text \<open>Where a document is saved: whatever name the sender gives it, its file is an entry of the directory of attachments,
  which carries the identifiers of the message and of the sender.\<close>

theorem document_stays_in_directory:
  assumes "\<And>c. uni c \<Longrightarrow> CHR ''/'' \<notin> set c" and "dir \<noteq> []"
  shows "path_join dir (components (document_name uni message_id chat_id original))
    = dir @ [Normal (document_name uni message_id chat_id original)]"
proof -
  have "CHR ''/'' \<notin> set (show_int i)" for i using show_int_chars [of "CHR ''/''" i] by (auto simp: is_ascii_digit_def)
  then have "CHR ''/'' \<notin> set (document_name uni message_id chat_id original)"
    using safe_name_no_slash [where n = original, OF assms(1)] by (simp add: document_name_def)
  then have "components (document_name uni message_id chat_id original) = [Normal (document_name uni message_id chat_id original)]"
    by (rule components_name) (simp add: document_name_def)
  then show ?thesis using assms(2) by (simp add: path_join_def is_absolute_def)
qed

subsection \<open>Trust\<close>

text \<open>The trust that belongs to a source: the owner's chat alone carries commands.\<close>

definition source_trust :: "int option \<Rightarrow> string \<Rightarrow> trust_level" where
  "source_trust owner src =
     (case owner of Some i \<Rightarrow> if src = telegram_source i then OwnerCommand else UntrustedEvent | None \<Rightarrow> UntrustedEvent)"

lemma telegram_trust_source: "telegram_trust owner i = source_trust owner (telegram_source i)"
  by (auto simp: telegram_trust_def source_trust_def telegram_source_def dest: show_int_inj split: option.splits)

text \<open>\<open>bus w\<close> are the messages pushed up to the world \<open>w\<close>: only a push adds to them, and it adds its message or fails.\<close>

definition bus_of :: "('w \<Rightarrow> ingress_message list) \<Rightarrow> 'w telegram_env \<Rightarrow> bool" where
  "bus_of bus env \<longleftrightarrow>
     (\<forall>u b w. bus (snd (tc_post (te_client env) u b w)) = bus w) \<and> (\<forall>u w. bus (snd (tc_get (te_client env) u w)) = bus w)
     \<and> (\<forall>f p w. te_transcriber env = Some f \<longrightarrow> bus (snd (f p w)) = bus w)
     \<and> (\<forall>b w. bus (snd (te_temp_file env b w)) = bus w) \<and> (\<forall>p w. bus (snd (te_create_dir_all env p w)) = bus w)
     \<and> (\<forall>p b w. bus (snd (te_write_file env p b w)) = bus w)
     \<and> (\<forall>m w. bus (snd (te_push env m w)) = bus w \<or> bus (snd (te_push env m w)) = bus w @ [m])"

lemma bus_ofD:
  assumes "bus_of bus env"
  shows "bus (snd (tc_post (te_client env) u body w)) = bus w" "bus (snd (tc_get (te_client env) u w)) = bus w"
    "te_transcriber env = Some f \<Longrightarrow> bus (snd (f p w)) = bus w"
    "bus (snd (te_temp_file env b w)) = bus w" "bus (snd (te_create_dir_all env p w)) = bus w"
    "bus (snd (te_write_file env p b w)) = bus w"
    "bus (snd (te_push env m w)) = bus w \<or> bus (snd (te_push env m w)) = bus w @ [m]"
  using assms unfolding bus_of_def by blast+

definition trusted_bus :: "('w \<Rightarrow> ingress_message list) \<Rightarrow> int option \<Rightarrow> 'w \<Rightarrow> bool" where
  "trusted_bus bus owner w \<longleftrightarrow> list_all (\<lambda>m. im_trust m = source_trust owner (im_source m)) (bus w)"

lemma bus_bot_call: "bus_of bus env \<Longrightarrow> bus (snd (bot_call (te_client env) m msg body w)) = bus w"
  by (simp add: bot_call_def bus_ofD(1) split_beta)

lemma bus_client:
  assumes "bus_of bus env"
  shows "bus (snd (client_get_file_download_url (te_client env) f w)) = bus w"
    "bus (snd (client_download_file (te_client env) u w)) = bus w"
    "bus (snd (client_send_approval_message (te_client env) i t c w)) = bus w"
    "bus (snd (client_edit_message_text (te_client env) i j t w)) = bus w"
    "bus (snd (client_answer_callback_query (te_client env) q answer w)) = bus w"
  using bus_bot_call [OF assms] bus_ofD(2) [OF assms]
  by (simp_all add: client_get_file_download_url_def client_download_file_def client_send_approval_message_def
      client_edit_message_text_def client_answer_callback_query_def split_beta)

lemma bus_fetch: "bus_of bus env \<Longrightarrow> bus (snd (fetch_file env f w)) = bus w"
  using bus_client(1) [of bus env f w] by (auto simp: fetch_file_def bus_client(2) split: prod.splits sum.splits)

lemma trusted_push:
  assumes "bus_of bus env" and "trusted_bus bus owner w" and "trust = source_trust owner (telegram_source i)"
  shows "trusted_bus bus owner (snd (push_text env i trust t imgs w))"
proof -
  let ?m = "with_images imgs (ingress_new (te_uuid env w) (te_now env w) (telegram_source i) t trust)"
  have "im_trust ?m = source_trust owner (im_source ?m)" using assms(3) by (simp add: with_images_def ingress_new_def)
  then show ?thesis using bus_ofD(7) [OF assms(1), of ?m w] assms(2) by (auto simp: trusted_bus_def push_text_def)
qed

lemma trusted_push_after:
  assumes "bus_of bus env" and "trusted_bus bus (te_owner env) w" and "bus w1 = bus w"
  shows "trusted_bus bus (te_owner env) (snd (push_text env i (telegram_trust (te_owner env) i) t imgs w1))"
  using trusted_push [OF assms(1), of "te_owner env" w1 "telegram_trust (te_owner env) i" i] assms(2, 3)
  by (simp add: trusted_bus_def telegram_trust_source)

lemma trusted_same: "trusted_bus bus owner w \<Longrightarrow> bus w1 = bus w \<Longrightarrow> trusted_bus bus owner w1"
  by (simp add: trusted_bus_def)

lemma bus_steps:
  assumes "bus_of bus env"
  shows "te_create_dir_all env p w = (r1, w1) \<Longrightarrow> bus w1 = bus w" "fetch_file env f w = (r2, w1) \<Longrightarrow> bus w1 = bus w"
    "te_write_file env p b w = (r1, w1) \<Longrightarrow> bus w1 = bus w" "te_temp_file env b w = (r3, w1) \<Longrightarrow> bus w1 = bus w"
    "te_transcriber env = Some g \<Longrightarrow> g p w = (r2, w1) \<Longrightarrow> bus w1 = bus w"
  using bus_ofD(3-6) [OF assms] bus_fetch [OF assms] by (metis snd_conv)+

lemma trusted_document:
  assumes "bus_of bus env" and "trusted_bus bus (te_owner env) w" and "bus w1 = bus w"
  shows "trusted_bus bus (te_owner env) (snd (handle_document env doc m i (telegram_trust (te_owner env) i) w1))"
  unfolding handle_document_def Let_def
  using assms
  by (auto split: prod.split sum.split option.split dest!: bus_steps(1-3) [OF assms(1)]
      intro!: trusted_push_after [OF assms(1, 2)] intro: trusted_same [OF assms(2)])

lemma trusted_recording:
  assumes "bus_of bus env" and "trusted_bus bus (te_owner env) w"
  shows "trusted_bus bus (te_owner env) (snd (handle_recording env doc m i (telegram_trust (te_owner env) i) w))"
  unfolding handle_recording_def
  using assms
  by (auto split: prod.split sum.split option.split dest!: bus_steps(2, 4, 5) [OF assms(1)]
      intro!: trusted_push_after [OF assms] trusted_document [OF assms] intro: trusted_same [OF assms(2)])

lemma trusted_message:
  assumes "bus_of bus env" and "trusted_bus bus (te_owner env) w"
  shows "trusted_bus bus (te_owner env) (snd (handle_message env m w))"
proof (cases "tm_from m")
  case (Some i)
  have photo: "bus w1 = bus w" if "photo_payload env m photos w = (x, w1)" for photos x w1
    using that bus_steps(2) [OF assms(1)] by (auto simp: photo_payload_def split: if_splits prod.splits sum.splits)
  show ?thesis
    unfolding handle_message_def Some Let_def option.case
    using assms
    by (auto split: option.split prod.split option.split_asm dest!: photo
        intro!: trusted_push_after [OF assms] trusted_recording [OF assms] trusted_document [OF assms] intro: trusted_same [OF assms(2)])
qed (simp add: handle_message_def assms(2))

lemma trusted_callback:
  assumes "bus_of bus env"
  shows "bus (snd (snd (handle_callback_query env q sy w))) = bus w"
  using bus_client(4, 5) [OF assms]
  by (auto simp: handle_callback_query_def Let_def split: sum.split prod.split option.split)

lemma trusted_update:
  assumes "bus_of bus env" and "trusted_bus bus (te_owner env) (ps_world st)"
  shows "trusted_bus bus (te_owner env) (ps_world (handle_update env u st))"
proof -
  define w1 where "w1 = (case up_message u of Some m \<Rightarrow> snd (handle_message env m (ps_world st)) | None \<Rightarrow> ps_world st)"
  have w1: "trusted_bus bus (te_owner env) w1"
    using trusted_message [OF assms] assms(2) by (simp add: w1_def split: option.split)
  have "bus (ps_world (handle_update env u st)) = bus w1"
    using trusted_callback [OF assms(1), of _ "ps_coord st" w1]
    by (auto simp: handle_update_def Let_def w1_def [symmetric] split: option.split prod.splits) (metis snd_conv)+
  then show ?thesis using w1 by (simp add: trusted_bus_def)
qed

lemma trusted_step:
  assumes "bus_of bus env" and "trusted_bus bus (te_owner env) (ps_world st)"
  shows "trusted_bus bus (te_owner env) (ps_world (poll_step env ev st))"
proof -
  have updates: "trusted_bus bus (te_owner env) (ps_world st') \<Longrightarrow> trusted_bus bus (te_owner env) (ps_world (fold (handle_update env) us st'))"
    for us st' by (induction us arbitrary: st') (simp_all add: trusted_update [OF assms(1)])
  have "bus (snd (handle_approval_ui_request env req w)) = bus w" for req w
    using bus_client(3) [OF assms(1)] by (simp add: handle_approval_ui_request_def)
  then show ?thesis
    using assms(2) updates by (cases "(env, ev, st)" rule: poll_step.cases) (simp_all add: trusted_bus_def)
qed

lemma trusted_run:
  "bus_of bus env \<Longrightarrow> trusted_bus bus (te_owner env) (ps_world st) \<Longrightarrow> trusted_bus bus (te_owner env) (ps_world (poll_run env evs st))"
  by (induction evs arbitrary: st) (simp_all add: trusted_step)

text \<open>C6: From the service to the debouncer: a command of the owner is a message of the owner. Whatever arrives, every message pushed
  to the bus has the trust of its source, and so has every combined message that the debouncer makes of them: one that
  passes for a command comes from the chat of the configured owner.\<close>

theorem owner_commands_from_owner:
  assumes "bus_of bus env" and "bus w = []" and "Ingress_Debounce.received ds = bus (ps_world (poll_run env evs (poll_start sy w)))"
  shows "list_all (\<lambda>m. im_trust m = OwnerCommand \<longrightarrow> map_option telegram_source (te_owner env) = Some (im_source m))
    (bus (ps_world (poll_run env evs (poll_start sy w))) @ debounce_worker fresh ds (debounce_new cfg))"
proof -
  have "trusted_bus bus (te_owner env) (ps_world (poll_start sy w))" using assms(2) by (simp add: trusted_bus_def poll_start_def)
  then have bus: "\<forall>m \<in> set (bus (ps_world (poll_run env evs (poll_start sy w)))). im_trust m = source_trust (te_owner env) (im_source m)"
    using trusted_run [OF assms(1)] by (auto simp: trusted_bus_def list_all_iff)
  then have "\<forall>m \<in> set (debounce_worker fresh ds (debounce_new cfg)). im_trust m = source_trust (te_owner env) (im_source m)"
    unfolding assms(3) [symmetric] by (rule debounce_trust)
  moreover have "map_option telegram_source (te_owner env) = Some src" if "source_trust (te_owner env) src = OwnerCommand" for src
    using that by (auto simp: source_trust_def split: option.splits if_splits)
  ultimately show ?thesis using bus by (auto simp: list_all_iff)
qed

text \<open>A world that is the bus itself.\<close>

definition sample_client :: "ingress_message list telegram_client" where
  "sample_client = \<lparr>tc_token = [], tc_post = (\<lambda>u b w. (Inl (Msg []), w)), tc_get = (\<lambda>u w. (Inl (Msg []), w)), tc_debug = (\<lambda>j. [])\<rparr>"

definition sample_telegram :: "ingress_message list telegram_env" where
  "sample_telegram = \<lparr>te_client = sample_client, te_owner = Some 5, te_attachments_enabled = True, te_max_file_size_bytes = 100,
     te_base_dir = ''attachments'', te_project_dir = [RootDir], te_alnum = (\<lambda>c. False), te_base64 = id, te_transcriber = None,
     te_temp_file = (\<lambda>b w. (Inl (Msg []), w)), te_create_dir_all = (\<lambda>p w. (Inr (), w)), te_write_file = (\<lambda>p b w. (Inr (), w)),
     te_uuid = (\<lambda>w. show_nat (length w)), te_now = (\<lambda>w. 0), te_push = (\<lambda>m w. (Inr (), w @ [m]))\<rparr>"

lemma bus_sample: "bus_of id sample_telegram"
  by (simp add: bus_of_def sample_telegram_def sample_client_def)

definition sample_update :: "int \<Rightarrow> int \<Rightarrow> string \<Rightarrow> telegram_update" where
  "sample_update i user t = \<lparr>up_id = i, up_message = Some \<lparr>tm_message_id = 1, tm_from = Some user, tm_text = Some t, tm_photo = None,
     tm_document = None, tm_audio = None, tm_voice = None, tm_caption = None\<rparr>, up_callback = None\<rparr>"

definition sample_polls :: "poll_event list" where
  "sample_polls = [Polled (Inr [sample_update 7 5 ''hi'']), Polled (Inl (Msg ''timeout'')), Polled (Inr [sample_update 9 6 ''ho''])]"

lemma sample_sources: "telegram_source 5 = ''telegram:5''" "telegram_source 6 = ''telegram:6''"
  by code_simp+

lemma sample_run:
  "map (\<lambda>m. (im_source m, im_payload m, im_trust m)) (ps_world (poll_run sample_telegram sample_polls (poll_start coordinator_new [])))
   = [(''telegram:5'', ''hi'', OwnerCommand), (''telegram:6'', ''ho'', UntrustedEvent)]"
  by (simp add: sample_polls_def poll_start_def handle_update_def handle_message_def sample_update_def sample_telegram_def
      telegram_trust_def sample_sources push_text_def ingress_new_def with_images_def)

theorem owner_commands_from_owner_witness:
  "list_all (\<lambda>m. im_trust m \<noteq> OwnerCommand \<or> im_source m = ''telegram:5'')
     (debounce_worker id (map (Received 0) (ps_world (poll_run sample_telegram sample_polls (poll_start coordinator_new []))))
       (debounce_new sample_debounce))"
proof -
  have "Ingress_Debounce.received (map (Received 0) xs) = xs" for xs by (induction xs) simp_all
  moreover have "te_owner sample_telegram = Some 5" by (simp add: sample_telegram_def)
  ultimately show ?thesis
    using owner_commands_from_owner [OF bus_sample, of "[]" "map (Received 0) (ps_world (poll_run sample_telegram sample_polls (poll_start coordinator_new [])))"
        sample_polls coordinator_new id sample_debounce]
    by (auto simp: list_all_iff sample_sources)
qed

theorem poll_every_update_once_witness:
  "\<exists>n. updates_of (owed sample_polls) = take n [sample_update 7 5 ''hi'', sample_update 9 6 ''ho'']
     \<and> effects (poll_run sample_telegram sample_polls (poll_start coordinator_new []))
       = fold (perform sample_telegram) (owed sample_polls) (coordinator_new, [])
     \<and> ps_offset (poll_run sample_telegram sample_polls (poll_start coordinator_new []))
       = offset_after (take n [sample_update 7 5 ''hi'', sample_update 9 6 ''ho''])"
proof -
  let ?us = "[sample_update 7 5 ''hi'', sample_update 9 6 ''ho'']"
  have "ps_offset (handle_update sample_telegram (sample_update i u t) st) = Some (i + 1)"
    "ps_running (handle_update sample_telegram (sample_update i u t) st) = ps_running st" for i u t st
    by (simp_all add: handle_update_def sample_update_def Let_def)
  then have s: "serves ?us sample_telegram sample_polls (poll_start coordinator_new [])"
    by (simp add: sample_polls_def poll_start_def due_def) (simp add: sample_update_def)
  have "sorted_wrt (\<lambda>a b. up_id a < up_id b) ?us" by (simp add: sample_update_def)
  from poll_every_update_once [OF this s] obtain n where
    "effects (poll_run sample_telegram sample_polls (poll_start coordinator_new []))
       = fold (perform sample_telegram) (owed sample_polls) (coordinator_new, [])"
    "updates_of (owed sample_polls) = take n ?us"
    "ps_offset (poll_run sample_telegram sample_polls (poll_start coordinator_new [])) = offset_after (take n ?us)" by blast
  then show ?thesis by (intro exI [of _ n] conjI)
qed

theorem document_stays_in_directory_witness:
  "path_join [RootDir, Normal ''p''] (components (document_name (\<lambda>c. False) 3 5 ''../../etc/passwd''))
   = [RootDir, Normal ''p'', Normal (document_name (\<lambda>c. False) 3 5 ''../../etc/passwd'')]"
  using document_stays_in_directory [of "\<lambda>c. False" "[RootDir, Normal ''p'']" 3 5 "''../../etc/passwd''"] by simp

end
