(* ===== verification/Http_Server.thy ===== *)
theory Http_Server
  imports Agent_Core Session_Jsonl Path_Policy
begin

text \<open>
  The HTTP server (\<^verbatim>\<open>src/src/server/http.rs\<close>): the map from the identifiers of its clients to agents, and the
  handlers that work on it, with the transcripts of \<^verbatim>\<open>src/src/agent/session.rs\<close> they are saved to.

  An agent lives behind an \<open>Arc<Mutex<Agent>>\<close>: its address is its place in \<open>as_agents\<close>, which an entry of the map
  holds and a running turn keeps when the entry is gone. Every handler is one step while it holds the mutex of the
  map; a turn consists of three, \<open>http_get_or_create\<close>, \<open>chat_find\<close> and \<open>handle_chat_result\<close>, with the run of the agent
  in between, and \<open>http_chat\<close> is their composition. \<open>now\<close> is what \<open>Instant::now\<close> says, in milliseconds.
  The transcripts are \<open>as_files\<close>, by agent and session, in the order a listing of their directory gives.
  At the end stands how the handler of \<^verbatim>\<open>src/src/server/openai.rs\<close> finds or enters a session in the same map.
\<close>

subsection \<open>State\<close>

definition SESSION_TIMEOUT :: nat where
  "SESSION_TIMEOUT = 30 * 60 * 1000"

definition MAX_SESSIONS :: nat where
  "MAX_SESSIONS = 100"

definition HTTP_AGENT_ID :: string where
  "HTTP_AGENT_ID = ''http''"

definition DEFAULT_AGENT_ID :: string where
  "DEFAULT_AGENT_ID = ''main''"

record 'w live_agent =
  la_agent :: "'w agent"
  la_session :: session
  la_approved :: approvals

record session_slot =
  slot_agent :: nat
  slot_last :: nat
  slot_dirty :: bool

type_synonym transcripts = "((string \<times> string) \<times> string) list"

record 'w app_state =
  as_sessions :: "(string \<times> session_slot) list"
  as_agents :: "'w live_agent list"
  as_files :: transcripts
  as_world :: 'w

text \<open>What the handlers take from outside: a new agent with the session it starts with (\<open>Agent::new\<close>), the files of the
  workspace, the system prompt, fresh sessions and identifiers, the text of an error.\<close>

record 'w http_env =
  hv_new_agent :: "'w \<Rightarrow> (anyhow_error, 'w agent \<times> session) res \<times> 'w"
  hv_memory :: "'w \<Rightarrow> memory_files"
  hv_prompt :: "'w agent \<Rightarrow> 'w \<Rightarrow> string"
  hv_fresh :: "'w \<Rightarrow> session \<times> 'w"
  hv_uuid :: "'w \<Rightarrow> string \<times> 'w"
  hv_show :: "anyhow_error \<Rightarrow> string"
  hv_default_model :: string
  hv_serde :: serde
  hv_bpe :: tokenizer
  hv_utc :: "'w \<Rightarrow> int"

type_synonym app_error = "u16 \<times> string"

definition remove_session :: "string \<Rightarrow> (string \<times> session_slot) list \<Rightarrow> (string \<times> session_slot) list" where
  "remove_session sid = filter (\<lambda>(k, e). k \<noteq> sid)"

definition update_slot ::
  "string \<Rightarrow> (session_slot \<Rightarrow> session_slot) \<Rightarrow> (string \<times> session_slot) list \<Rightarrow> (string \<times> session_slot) list" where
  "update_slot sid f = map (\<lambda>(k, e). (k, if k = sid then f e else e))"

definition touch :: "nat \<Rightarrow> session_slot \<Rightarrow> session_slot" where
  "touch now e = e\<lparr>slot_last := now\<rparr>"

definition mark_dirty :: "session_slot \<Rightarrow> session_slot" where
  "mark_dirty e = e\<lparr>slot_dirty := True\<rparr>"

definition engine_state_of :: "'w live_agent \<Rightarrow> 'w \<Rightarrow> 'w engine_state" where
  "engine_state_of la w = \<lparr>es_session = la_session la, es_approved = la_approved la, es_world = w\<rparr>"

definition live_again :: "'w agent \<Rightarrow> 'w engine_state \<Rightarrow> 'w live_agent" where
  "live_again a st = \<lparr>la_agent = a, la_session = es_session st, la_approved = es_approved st\<rparr>"

definition put_agent :: "nat \<Rightarrow> 'w live_agent \<Rightarrow> 'w \<Rightarrow> 'w app_state \<Rightarrow> 'w app_state" where
  "put_agent a la w st = st\<lparr>as_agents := (as_agents st)[a := la], as_world := w\<rparr>"

subsection \<open>Expiry, saving and loading\<close>

definition cleanup_expired_sessions :: "nat \<Rightarrow> 'w app_state \<Rightarrow> 'w app_state" where
  "cleanup_expired_sessions now st =
     st\<lparr>as_sessions := filter (\<lambda>(k, e). \<not> SESSION_TIMEOUT < now - slot_last e) (as_sessions st)\<rparr>"

text \<open>\<open>outcome\<close> is what the file system does: writing succeeds, or there is an error and the file holds what it
  then holds.\<close>

definition save_for_agent ::
  "serde \<Rightarrow> u64 \<Rightarrow> (anyhow_error \<times> string option) option \<Rightarrow> string \<Rightarrow> session \<Rightarrow> transcripts
   \<Rightarrow> (anyhow_error, unit) res \<times> session \<times> transcripts" where
  "save_for_agent sd now outcome agent_id s fs =
     (case outcome of
        None \<Rightarrow> (Inr (), s\<lparr>dirty := False\<rparr>, put (agent_id, s_id s) (save_text sd now s) fs)
      | Some (e, None) \<Rightarrow> (Inl e, s, fs)
      | Some (e, Some left) \<Rightarrow> (Inl e, s, put (agent_id, s_id s) left fs))"

definition session_load ::
  "serde \<Rightarrow> tokenizer \<Rightarrow> int \<Rightarrow> string \<Rightarrow> transcripts \<Rightarrow> (anyhow_error, session) res" where
  "session_load sd bpe now sid fs =
     (case map_of fs (DEFAULT_AGENT_ID, sid) of
        None \<Rightarrow> Inl (Msg (''Session not found: '' @ sid))
      | Some txt \<Rightarrow> Inr (load_text sd bpe now sid txt))"

record session_info =
  si_id :: string
  si_created_at :: int
  si_message_count :: nat
  si_file_size :: nat

text \<open>One file of the listing: a transcript has a name of at least 32 bytes and begins with a session entry.\<close>

definition transcript_info :: "serde \<Rightarrow> int \<Rightarrow> string \<Rightarrow> string \<Rightarrow> session_info option" where
  "transcript_info sd now name txt =
     (if length name < 32 then None
      else case lines txt of
        [] \<Rightarrow> None
      | first_line # others \<Rightarrow>
          (case of_json_text sd first_line of
             None \<Rightarrow> None
           | Some header \<Rightarrow>
               if as_str (jindex header ''type'') = Some ''session''
               then Some \<lparr>si_id = name,
                          si_created_at = unwrap_or (Option.bind (as_str (jindex header ''timestamp'')) (of_rfc3339 sd)) now,
                          si_message_count = length others, si_file_size = length txt\<rparr>
               else None))"

text \<open>The sort is stable and descending in the time of creation.\<close>

definition list_sessions_for_agent :: "serde \<Rightarrow> int \<Rightarrow> string \<Rightarrow> transcripts \<Rightarrow> session_info list" where
  "list_sessions_for_agent sd now agent_id fs =
     sort_key (\<lambda>i. - si_created_at i)
       (List.map_filter (\<lambda>((a, name), txt). if a = agent_id then transcript_info sd now name txt else None) fs)"

text \<open>\<open>load_persisted_sessions\<close>: an error of \<open>Agent::new\<close> ends it with the sessions loaded so far.\<close>

fun load_persisted ::
  "'w http_env \<Rightarrow> nat \<Rightarrow> session_info list \<Rightarrow> 'w app_state \<Rightarrow> (anyhow_error, unit) res \<times> 'w app_state" where
  "load_persisted env now [] st = (Inr (), st)"
| "load_persisted env now (i # is) st =
     (case hv_new_agent env (as_world st) of
        (Inl e, w) \<Rightarrow> (Inl e, st\<lparr>as_world := w\<rparr>)
      | (Inr (a, s0), w) \<Rightarrow>
          load_persisted env now is
            (case session_load (hv_serde env) (hv_bpe env) (hv_utc env w) (si_id i) (as_files st) of
               Inl _ \<Rightarrow> st\<lparr>as_world := w\<rparr>
             | Inr s \<Rightarrow>
                 st\<lparr>as_sessions := put (si_id i)
                        \<lparr>slot_agent = length (as_agents st), slot_last = now, slot_dirty = False\<rparr> (as_sessions st),
                    as_agents := as_agents st @ [\<lparr>la_agent = a, la_session = s, la_approved = approvals_new\<rparr>],
                    as_world := w\<rparr>))"

definition load_persisted_sessions ::
  "'w http_env \<Rightarrow> nat \<Rightarrow> 'w app_state \<Rightarrow> (anyhow_error, unit) res \<times> 'w app_state" where
  "load_persisted_sessions env now st =
     load_persisted env now
       (take MAX_SESSIONS (list_sessions_for_agent (hv_serde env) (hv_utc env (as_world st)) HTTP_AGENT_ID (as_files st))) st"

text \<open>\<open>outcomes\<close> gives the outcome of each write.\<close>

fun save_slots ::
  "serde \<Rightarrow> u64 \<Rightarrow> (string \<Rightarrow> (anyhow_error \<times> string option) option) \<Rightarrow> (string \<times> session_slot) list
   \<Rightarrow> 'w live_agent list \<Rightarrow> transcripts \<Rightarrow> (string \<times> session_slot) list \<times> 'w live_agent list \<times> transcripts" where
  "save_slots sd now outcomes [] as fs = ([], as, fs)"
| "save_slots sd now outcomes ((k, e) # es) as fs =
     (if slot_dirty e then
        let la = as ! slot_agent e;
            (r, s, fs1) = save_for_agent sd now (outcomes k) HTTP_AGENT_ID (la_session la) fs;
            (es', as', fs') = save_slots sd now outcomes es (as[slot_agent e := la\<lparr>la_session := s\<rparr>]) fs1
        in ((k, if is_ok r then e\<lparr>slot_dirty := False\<rparr> else e) # es', as', fs')
      else let (es', as', fs') = save_slots sd now outcomes es as fs in ((k, e) # es', as', fs'))"

definition save_dirty_sessions ::
  "serde \<Rightarrow> u64 \<Rightarrow> (string \<Rightarrow> (anyhow_error \<times> string option) option) \<Rightarrow> 'w app_state \<Rightarrow> 'w app_state" where
  "save_dirty_sessions sd now outcomes st =
     (let (es, as, fs) = save_slots sd now outcomes (as_sessions st) (as_agents st) (as_files st)
      in st\<lparr>as_sessions := es, as_agents := as, as_files := fs\<rparr>)"

subsection \<open>Sessions on demand\<close>

text \<open>\<open>min_by_key\<close>: the first of the entries with the least time.\<close>

fun oldest_session :: "(string \<times> session_slot) list \<Rightarrow> (string \<times> session_slot) option" where
  "oldest_session [] = None"
| "oldest_session (x # xs) =
     (case oldest_session xs of
        None \<Rightarrow> Some x
      | Some y \<Rightarrow> if slot_last (snd x) \<le> slot_last (snd y) then Some x else Some y)"

definition evict :: "(string \<times> session_slot) list \<Rightarrow> (string \<times> session_slot) list" where
  "evict es =
     (if MAX_SESSIONS \<le> length es
      then case oldest_session es of Some (k, e) \<Rightarrow> remove_session k es | None \<Rightarrow> es
      else es)"

definition start_session ::
  "'w http_env \<Rightarrow> 'w \<Rightarrow> (anyhow_error, 'w live_agent) res \<times> 'w" where
  "start_session env w =
     (case hv_new_agent env w of
        (Inl e, w1) \<Rightarrow> (Inl e, w1)
      | (Inr (a, s0), w1) \<Rightarrow>
          let (fresh, w2) = hv_fresh env w1;
              (r, st) = agent_new_session (hv_memory env w1) (hv_prompt env a w1) fresh a
                \<lparr>es_session = s0, es_approved = approvals_new, es_world = w2\<rparr>
          in (bind_res r (\<lambda>_. Inr (live_again a st)), es_world st))"

definition http_get_or_create ::
  "'w http_env \<Rightarrow> nat \<Rightarrow> string option \<Rightarrow> 'w app_state \<Rightarrow> (app_error, string) res \<times> 'w app_state" where
  "http_get_or_create env now sid st =
     (if (case sid of Some i \<Rightarrow> map_of (as_sessions st) i \<noteq> None | None \<Rightarrow> False)
      then (Inr (the sid), st\<lparr>as_sessions := update_slot (the sid) (touch now) (as_sessions st)\<rparr>)
      else
        let es = evict (as_sessions st);
            (new_id, w1) = (case sid of Some i \<Rightarrow> (i, as_world st) | None \<Rightarrow> hv_uuid env (as_world st))
        in case start_session env w1 of
             (Inl e, w2) \<Rightarrow> (Inl (500, hv_show env e), st\<lparr>as_sessions := es, as_world := w2\<rparr>)
           | (Inr la, w2) \<Rightarrow>
               (Inr new_id,
                st\<lparr>as_sessions := put new_id
                       \<lparr>slot_agent = length (as_agents st), slot_last = now, slot_dirty = True\<rparr> es,
                   as_agents := as_agents st @ [la], as_world := w2\<rparr>))"

subsection \<open>Handlers\<close>

text \<open>A response: a status with a body, or an error with its text.\<close>

datatype 'b reply = Reply u16 'b | AppError u16 string

definition not_found :: "'b reply" where
  "not_found = AppError 404 ''Session not found''"

record session_response =
  sr_session_id :: string
  sr_model :: string

definition create_session ::
  "'w http_env \<Rightarrow> nat \<Rightarrow> string option \<Rightarrow> 'w app_state \<Rightarrow> session_response reply \<times> 'w app_state" where
  "create_session env now sid st =
     (case http_get_or_create env now sid st of
        (Inr i, st') \<Rightarrow> (Reply 200 \<lparr>sr_session_id = i, sr_model = hv_default_model env\<rparr>, st')
      | (Inl (code, msg), st') \<Rightarrow> (AppError code msg, st'))"

text \<open>\<open>list_sessions\<close>: identifiers with the seconds since the last access.\<close>

definition http_list_sessions :: "nat \<Rightarrow> 'w app_state \<Rightarrow> (string \<times> nat) list" where
  "http_list_sessions now st = map (\<lambda>(k, e). (k, (now - slot_last e) div 1000)) (as_sessions st)"

definition delete_session :: "string \<Rightarrow> 'w app_state \<Rightarrow> string reply \<times> 'w app_state" where
  "delete_session sid st =
     (if map_of (as_sessions st) sid \<noteq> None
      then (Reply 200 sid, st\<lparr>as_sessions := remove_session sid (as_sessions st)\<rparr>)
      else (not_found, st))"

record session_status_response =
  ss_session_id :: string
  ss_model :: string
  ss_message_count :: nat
  ss_token_count :: usize
  ss_idle_seconds :: nat
  ss_input_tokens :: u64
  ss_output_tokens :: u64

definition get_session_status :: "nat \<Rightarrow> string \<Rightarrow> 'w app_state \<Rightarrow> session_status_response reply" where
  "get_session_status now sid st =
     (case map_of (as_sessions st) sid of
        None \<Rightarrow> not_found
      | Some e \<Rightarrow>
          let la = as_agents st ! slot_agent e;
              u = ag_usage (la_agent la);
              s = status_with_usage (input_tokens u) (output_tokens u) (la_session la)
          in Reply 200 \<lparr>ss_session_id = sid, ss_model = e_model (ag_engine (la_agent la)),
               ss_message_count = st_message_count s, ss_token_count = st_token_count s,
               ss_idle_seconds = (now - slot_last e) div 1000,
               ss_input_tokens = api_input_tokens s, ss_output_tokens = api_output_tokens s\<rparr>)"

record session_message_view =
  mv_role :: string
  mv_content :: "string option"
  mv_tool_calls :: "json list option"
  mv_tool_call_id :: "string option"
  mv_timestamp :: "u64 option"

fun http_role :: "role \<Rightarrow> string" where
  "http_role User = ''user''"
| "http_role Assistant = ''assistant''"
| "http_role System = ''system''"
| "http_role Tool = ''toolResult''"

definition non_empty_text :: "string \<Rightarrow> string option" where
  "non_empty_text t = (if t = [] then None else Some t)"

definition http_tool_call :: "tool_call \<Rightarrow> json" where
  "http_tool_call c = JObj [''id'' \<mapsto> JStr (tc_id c), ''name'' \<mapsto> JStr (tc_name c), ''arguments'' \<mapsto> JStr (tc_arguments c)]"

definition message_view :: "session_message \<Rightarrow> session_message_view" where
  "message_view sm =
     \<lparr>mv_role = http_role (role (sm_message sm)), mv_content = non_empty_text (content (sm_message sm)),
      mv_tool_calls = map_option (map http_tool_call) (tool_calls (sm_message sm)),
      mv_tool_call_id = tool_call_id (sm_message sm), mv_timestamp = Some (timestamp sm)\<rparr>"

definition get_session_messages ::
  "nat \<Rightarrow> string \<Rightarrow> 'w app_state \<Rightarrow> session_message_view list reply \<times> 'w app_state" where
  "get_session_messages now sid st =
     (case map_of (as_sessions st) sid of
        None \<Rightarrow> (not_found, st)
      | Some e \<Rightarrow>
          (Reply 200 (map message_view (messages (la_session (as_agents st ! slot_agent e)))),
           st\<lparr>as_sessions := update_slot sid (touch now) (as_sessions st)\<rparr>))"

definition http_compact_session ::
  "'w http_env \<Rightarrow> nat \<Rightarrow> string \<Rightarrow> 'w app_state \<Rightarrow> (usize \<times> usize) reply \<times> 'w app_state" where
  "http_compact_session env now sid st =
     (case map_of (as_sessions st) sid of
        None \<Rightarrow> (not_found, st)
      | Some e \<Rightarrow>
          let st1 = st\<lparr>as_sessions := update_slot sid (touch now) (as_sessions st)\<rparr>;
              la = as_agents st ! slot_agent e;
              (r, est) = agent_compact_session (la_agent la) (engine_state_of la (as_world st))
          in (case r of Inr counts \<Rightarrow> Reply 200 counts | Inl err \<Rightarrow> AppError 500 (hv_show env err),
              put_agent (slot_agent e) (live_again (la_agent la) est) (es_world est) st1))"

definition http_clear_session :: "'w http_env \<Rightarrow> nat \<Rightarrow> string \<Rightarrow> 'w app_state \<Rightarrow> string reply \<times> 'w app_state" where
  "http_clear_session env now sid st =
     (case map_of (as_sessions st) sid of
        None \<Rightarrow> (not_found, st)
      | Some e \<Rightarrow>
          let st1 = st\<lparr>as_sessions := update_slot sid (touch now) (as_sessions st)\<rparr>;
              la = as_agents st ! slot_agent e;
              (fresh, w) = hv_fresh env (as_world st);
              est = clear_session fresh (engine_state_of la w)
          in (Reply 200 sid, put_agent (slot_agent e) (live_again (la_agent la) est) (es_world est) st1))"

definition set_session_model ::
  "nat \<Rightarrow> string \<Rightarrow> string \<Rightarrow> 'w app_state \<Rightarrow> session_response reply \<times> 'w app_state" where
  "set_session_model now sid m st =
     (case map_of (as_sessions st) sid of
        None \<Rightarrow> (not_found, st)
      | Some e \<Rightarrow>
          let st1 = st\<lparr>as_sessions := update_slot sid (touch now) (as_sessions st)\<rparr>;
              la = as_agents st ! slot_agent e
          in (Reply 200 \<lparr>sr_session_id = sid, sr_model = m\<rparr>,
              put_agent (slot_agent e) (la\<lparr>la_agent := set_model m (la_agent la)\<rparr>) (as_world st) st1))"

subsection \<open>Turns\<close>

record chat_request =
  cq_message :: string
  cq_session_id :: "string option"
  cq_model :: "string option"

record approve_request =
  aq_session_id :: string
  aq_tool_call_id :: string
  aq_approved :: bool

record approval_details =
  ad_tool_name :: string
  ad_tool_call_id :: string
  ad_arguments :: string

record chat_response =
  ch_response :: "string option"
  ch_session_id :: string
  ch_model :: string
  ch_requires_approval :: bool
  ch_approval_details :: "approval_details option"

text \<open>What becomes of the workspace lock, and of the thread that waits for it.\<close>

datatype ws_outcome = WsHeld | WsError string | WsTaskError string

definition ws_failure :: "string \<Rightarrow> string \<Rightarrow> ws_outcome \<Rightarrow> string option" where
  "ws_failure lock_text task_text ws =
     (case ws of WsHeld \<Rightarrow> None | WsError e \<Rightarrow> Some (lock_text @ e) | WsTaskError e \<Rightarrow> Some (task_text @ e))"

definition chat_find :: "nat \<Rightarrow> string \<Rightarrow> bool \<Rightarrow> 'w app_state \<Rightarrow> nat option \<times> 'w app_state" where
  "chat_find now sid changes st =
     (case map_of (as_sessions st) sid of
        None \<Rightarrow> (None, st)
      | Some e \<Rightarrow>
          (Some (slot_agent e),
           st\<lparr>as_sessions := update_slot sid (if changes then mark_dirty \<circ> touch now else touch now) (as_sessions st)\<rparr>))"

text \<open>The run of the agent at an address, under its own mutex.\<close>

definition chat_run ::
  "string option \<Rightarrow> string \<Rightarrow> nat \<Rightarrow> 'w app_state
   \<Rightarrow> ((anyhow_error, string) res \<times> string \<times> 'w app_state) option" where
  "chat_run new_model msg a st =
     (let la = as_agents st ! a;
          ag = (case new_model of Some m \<Rightarrow> set_model m (la_agent la) | None \<Rightarrow> la_agent la)
      in map_option (\<lambda>(r, ag', est). (r, e_model (ag_engine ag'), put_agent a (live_again ag' est) (es_world est) st))
           (agent_chat msg ag (engine_state_of la (as_world st))))"

definition approve_run ::
  "string \<Rightarrow> nat \<Rightarrow> 'w app_state \<Rightarrow> ((anyhow_error, string) res \<times> string \<times> 'w app_state) option" where
  "approve_run call_id a st =
     (let la = as_agents st ! a in
      map_option (\<lambda>(r, ag', est). (r, e_model (ag_engine ag'), put_agent a (live_again ag' est) (es_world est) st))
        (agent_continue_chat (la_agent la) (approve_tool_call call_id (engine_state_of la (as_world st)))))"

definition handle_chat_result ::
  "'w http_env \<Rightarrow> (anyhow_error, string) res \<Rightarrow> string \<Rightarrow> string \<Rightarrow> 'w app_state \<Rightarrow> chat_response reply \<times> 'w app_state" where
  "handle_chat_result env r sid m st =
     (let marked = st\<lparr>as_sessions := update_slot sid mark_dirty (as_sessions st)\<rparr> in
      case r of
        Inr response \<Rightarrow>
          (Reply 200 \<lparr>ch_response = Some response, ch_session_id = sid, ch_model = m,
             ch_requires_approval = False, ch_approval_details = None\<rparr>, marked)
      | Inl (Llm (ApprovalRequired name c)) \<Rightarrow>
          (Reply 402 \<lparr>ch_response = None, ch_session_id = sid, ch_model = m, ch_requires_approval = True,
             ch_approval_details = Some \<lparr>ad_tool_name = name, ad_tool_call_id = tc_id c, ad_arguments = tc_arguments c\<rparr>\<rparr>,
           marked)
      | Inl e \<Rightarrow> (AppError 500 (hv_show env e), st))"

text \<open>The handlers as a whole, when no other request comes in between. \<open>None\<close> is a turn that does not return.\<close>

definition http_chat ::
  "'w http_env \<Rightarrow> nat \<Rightarrow> ws_outcome \<Rightarrow> chat_request \<Rightarrow> 'w app_state \<Rightarrow> (chat_response reply \<times> 'w app_state) option" where
  "http_chat env now ws q st =
     (case http_get_or_create env now (cq_session_id q) st of
        (Inl (code, msg), st1) \<Rightarrow> Some (AppError code msg, st1)
      | (Inr sid, st1) \<Rightarrow>
          (case ws_failure ''Failed to acquire workspace lock: '' ''Lock task error: '' ws of
             Some msg \<Rightarrow> Some (AppError 500 msg, st1)
           | None \<Rightarrow>
               (case chat_find now sid False st1 of
                  (None, st2) \<Rightarrow> Some (not_found, st2)
                | (Some a, st2) \<Rightarrow>
                    map_option (\<lambda>(r, m, st3). handle_chat_result env r sid m st3)
                      (chat_run (cq_model q) (cq_message q) a st2))))"

definition http_approve_tool ::
  "'w http_env \<Rightarrow> nat \<Rightarrow> ws_outcome \<Rightarrow> approve_request \<Rightarrow> 'w app_state \<Rightarrow> (chat_response reply \<times> 'w app_state) option" where
  "http_approve_tool env now ws q st =
     (if \<not> aq_approved q then Some (AppError 400 ''Rejection not implemented'', st)
      else case ws_failure ''Lock error: '' ''Task error: '' ws of
             Some msg \<Rightarrow> Some (AppError 500 msg, st)
           | None \<Rightarrow>
               (case chat_find now (aq_session_id q) False st of
                  (None, st1) \<Rightarrow> Some (not_found, st1)
                | (Some a, st1) \<Rightarrow>
                    map_option (\<lambda>(r, m, st2). handle_chat_result env r (aq_session_id q) m st2)
                      (approve_run (aq_tool_call_id q) a st1)))"

subsection \<open>Streams\<close>

datatype sse_data =
    SseError string
  | SseSession string
  | SseContent string
  | SseToolStart string string "string option"
  | SseApproval string string "string option" string
  | SseToolEnd string string string
  | SseDone
  | SseEnd

text \<open>The loop over the events of the agent; \<open>None\<close> when describing a call panics.\<close>

fun sse_items ::
  "(string \<Rightarrow> string \<Rightarrow> string option option) \<Rightarrow> (anyhow_error \<Rightarrow> string) \<Rightarrow> stream_item list \<Rightarrow> sse_data list option" where
  "sse_items detail sh [] = Some []"
| "sse_items detail sh (Inl e # is) = Some [SseError (sh e)]"
| "sse_items detail sh (Inr (Content t) # is) = map_option (Cons (SseContent t)) (sse_items detail sh is)"
| "sse_items detail sh (Inr (ToolCallStart name i arguments) # is) =
     Option.bind (detail name arguments)
       (\<lambda>d. map_option (Cons (SseToolStart name i d)) (sse_items detail sh is))"
| "sse_items detail sh (Inr (ApprovalRequiredEv name i arguments) # is) =
     map_option (\<lambda>d. [SseApproval name i d arguments]) (detail name arguments)"
| "sse_items detail sh (Inr (ToolCallEnd name i out) # is) =
     map_option (Cons (SseToolEnd name i (take_chars 500 out))) (sse_items detail sh is)"
| "sse_items detail sh (Inr Done # is) = map_option (Cons SseDone) (sse_items detail sh is)"

definition stream_run ::
  "string \<Rightarrow> nat \<Rightarrow> 'w app_state \<Rightarrow> ((anyhow_error, stream_item list) res \<times> 'w app_state) option" where
  "stream_run msg a st =
     (let la = as_agents st ! a in
      map_option (\<lambda>(r, est). (r, put_agent a (live_again (la_agent la) est) (es_world est) st))
        (chat_stream_with_tools (ag_engine (la_agent la)) msg [] (engine_state_of la (as_world st))))"

definition http_chat_stream ::
  "'w http_env \<Rightarrow> (string \<Rightarrow> string \<Rightarrow> string option option) \<Rightarrow> nat \<Rightarrow> ws_outcome \<Rightarrow> chat_request \<Rightarrow> 'w app_state
   \<Rightarrow> (sse_data list \<times> 'w app_state) option" where
  "http_chat_stream env detail now ws q st =
     (case http_get_or_create env now (cq_session_id q) st of
        (Inl (code, msg), st1) \<Rightarrow> Some ([SseError msg], st1)
      | (Inr sid, st1) \<Rightarrow>
          (case ws_failure ''Workspace lock error: '' ''Lock task error: '' ws of
             Some msg \<Rightarrow> Some ([SseSession sid, SseError msg], st1)
           | None \<Rightarrow>
               (case chat_find now sid True st1 of
                  (None, st2) \<Rightarrow> Some ([SseSession sid, SseError ''Session not found''], st2)
                | (Some a, st2) \<Rightarrow>
                    Option.bind (stream_run (cq_message q) a st2)
                      (\<lambda>(r, st3). case r of
                         Inl e \<Rightarrow> Some ([SseSession sid, SseError (hv_show env e), SseEnd], st3)
                       | Inr items \<Rightarrow>
                           map_option (\<lambda>ds. (SseSession sid # ds @ [SseEnd], st3))
                             (sse_items detail (hv_show env) items)))))"

subsection \<open>Transcripts and logs\<close>

definition saved_content :: "json \<Rightarrow> string" where
  "saved_content msg =
     (case as_array (jindex msg ''content'') of
        Some arr \<Rightarrow>
          join nl (List.map_filter
            (\<lambda>c. if as_str (jindex c ''type'') = Some ''text'' then as_str (jindex c ''text'') else None) arr)
      | None \<Rightarrow> unwrap_or (as_str (jindex msg ''content'')) [])"

definition saved_message :: "json \<Rightarrow> session_message_view" where
  "saved_message msg =
     \<lparr>mv_role = unwrap_or (as_str (jindex msg ''role'')) ''unknown'',
      mv_content = non_empty_text (saved_content msg),
      mv_tool_calls = as_array (jindex msg ''toolCalls''),
      mv_tool_call_id = as_str (jindex msg ''toolCallId''),
      mv_timestamp = as_u64 (jindex msg ''timestamp'')\<rparr>"

record saved_session =
  sd_created_at :: string
  sd_messages :: "session_message_view list"

definition saved_line :: "serde \<Rightarrow> nat \<times> string \<Rightarrow> saved_session \<Rightarrow> saved_session" where
  "saved_line sd il d =
     (case of_json_text sd (snd il) of
        None \<Rightarrow> d
      | Some parsed \<Rightarrow>
          if fst il = 0 \<and> as_str (jindex parsed ''type'') = Some ''session''
          then d\<lparr>sd_created_at := unwrap_or (as_str (jindex parsed ''timestamp'')) []\<rparr>
          else if as_str (jindex parsed ''type'') = Some ''message''
          then (case jget parsed ''message'' of
                  Some msg \<Rightarrow> d\<lparr>sd_messages := sd_messages d @ [saved_message msg]\<rparr> | None \<Rightarrow> d)
          else d)"

definition saved_session_of :: "serde \<Rightarrow> string \<Rightarrow> saved_session" where
  "saved_session_of sd txt =
     fold (saved_line sd) (enumerate 0 (lines txt)) \<lparr>sd_created_at = [], sd_messages = []\<rparr>"

definition saved_session_path :: "path \<Rightarrow> string \<Rightarrow> path" where
  "saved_session_path sessions_dir sid = path_join sessions_dir (components (sid @ ''.jsonl''))"

text \<open>\<open>exists_at\<close> and \<open>read_at\<close> are the file system, \<open>Inl\<close> the text of an error.\<close>

definition get_saved_session ::
  "serde \<Rightarrow> (path \<Rightarrow> bool) \<Rightarrow> (path \<Rightarrow> (string, string) res) \<Rightarrow> (anyhow_error \<Rightarrow> string) \<Rightarrow> (anyhow_error, path) res
   \<Rightarrow> string \<Rightarrow> (string \<times> saved_session) reply" where
  "get_saved_session sd exists_at read_at sh sessions_dir sid =
     (case sessions_dir of
        Inl e \<Rightarrow> AppError 500 (sh e)
      | Inr dir \<Rightarrow>
          if \<not> exists_at (saved_session_path dir sid) then not_found
          else case read_at (saved_session_path dir sid) of
                 Inl e \<Rightarrow> AppError 500 e
               | Inr txt \<Rightarrow> Reply 200 (sid, saved_session_of sd txt))"

record daemon_logs =
  dl_lines :: "string list"
  dl_total_lines :: nat
  dl_file_size :: nat

definition log_lines_requested :: "usize option \<Rightarrow> usize" where
  "log_lines_requested q = min (unwrap_or q 200) 1000"

text \<open>The log of the day: \<open>None\<close> when there is none, an error, or the size in the metadata with the lines read.\<close>

definition get_daemon_logs ::
  "(anyhow_error \<Rightarrow> string) \<Rightarrow> usize option \<Rightarrow> (anyhow_error, (string, nat \<times> string list) res option) res \<Rightarrow> daemon_logs reply" where
  "get_daemon_logs sh q log =
     (case log of
        Inl e \<Rightarrow> AppError 500 (sh e)
      | Inr None \<Rightarrow> Reply 200 \<lparr>dl_lines = [], dl_total_lines = 0, dl_file_size = 0\<rparr>
      | Inr (Some (Inl e)) \<Rightarrow> AppError 500 e
      | Inr (Some (Inr (bytes, all_lines))) \<Rightarrow>
          let total = length all_lines;
              n = unat (log_lines_requested q)
          in Reply 200 \<lparr>dl_lines = (if n < total then drop (total - n) all_lines else all_lines),
               dl_total_lines = total, dl_file_size = bytes\<rparr>)"

subsection \<open>The way of the OpenAI-compatible handlers to the same map\<close>

text \<open>They take their agent without the limit and the eviction of \<open>http_get_or_create\<close>; their environment differs in the
  agents it makes.\<close>

definition openai_find_agent ::
  "'w http_env \<Rightarrow> nat \<Rightarrow> string \<Rightarrow> 'w app_state \<Rightarrow> (app_error, nat) res \<times> 'w app_state" where
  "openai_find_agent env now sid st =
     (case map_of (as_sessions st) sid of
        Some e \<Rightarrow> (Inr (slot_agent e), st\<lparr>as_sessions := update_slot sid (touch now) (as_sessions st)\<rparr>)
      | None \<Rightarrow>
          (case start_session env (as_world st) of
             (Inl e, w) \<Rightarrow> (Inl (500, hv_show env e), st\<lparr>as_world := w\<rparr>)
           | (Inr la, w) \<Rightarrow>
               let a = length (as_agents st) in
               (Inr a, st\<lparr>as_sessions := put sid \<lparr>slot_agent = a, slot_last = now, slot_dirty = True\<rparr> (as_sessions st),
                          as_agents := as_agents st @ [la], as_world := w\<rparr>)))"

definition mark_session :: "string \<Rightarrow> 'w app_state \<Rightarrow> 'w app_state" where
  "mark_session sid st = st\<lparr>as_sessions := update_slot sid mark_dirty (as_sessions st)\<rparr>"

end
