(* ===== verification/Http_Sessions.thy ===== *)
theory Http_Sessions
  imports Http_Server
begin

text \<open>
  What holds of the sessions of the HTTP server: the map stays within its limit under every interleaving of
  requests and background tasks, eviction takes the session accessed longest ago, requests leave the sessions of
  others alone, and what is saved is shown as it was but not found again after a restart.
\<close>

subsection \<open>The map of sessions\<close>

definition slots_ok :: "nat \<Rightarrow> (string \<times> session_slot) list \<Rightarrow> bool" where
  "slots_ok n es \<longleftrightarrow> distinct (map fst es) \<and> distinct (map (slot_agent \<circ> snd) es)
     \<and> list_all (\<lambda>a. a < n) (map (slot_agent \<circ> snd) es)"

lemma slots_ok_cong:
  "map fst es' = map fst es \<Longrightarrow> map (slot_agent \<circ> snd) es' = map (slot_agent \<circ> snd) es \<Longrightarrow> slots_ok n es' = slots_ok n es"
  by (simp only: slots_ok_def)

lemma slots_ok_filter: "slots_ok n es \<Longrightarrow> slots_ok n (filter P es)"
  by (auto simp: slots_ok_def list_all_iff distinct_map inj_on_def)

lemma slots_ok_remove: "slots_ok n es \<Longrightarrow> slots_ok n (remove_session k es)"
  by (simp add: remove_session_def slots_ok_filter)

lemma slots_ok_mono: "slots_ok n es \<Longrightarrow> n \<le> m \<Longrightarrow> slots_ok m es"
  by (auto simp: slots_ok_def list_all_iff)

lemma slots_ok_update:
  assumes "\<And>e. slot_agent (f e) = slot_agent e"
  shows "slots_ok n (update_slot k f es) = slots_ok n es"
  by (rule slots_ok_cong) (auto simp: update_slot_def assms)

lemma slots_ok_put:
  "slots_ok n es \<Longrightarrow> slot_agent e = n \<Longrightarrow> slots_ok (Suc n) (put k e es)"
proof (induction es)
  case (Cons x es)
  obtain k' e' where x: "x = (k', e')" by (cases x)
  have rest: "slots_ok n es" and "slot_agent e' < n" "k' \<notin> fst ` set es"
    and e': "slot_agent e' \<notin> (slot_agent \<circ> snd) ` set es"
    using Cons.prems(1) by (auto simp: slots_ok_def x)
  have lt: "slot_agent (snd y) < n" if "y \<in> set es" for y
    using rest that by (auto simp: slots_ok_def list_all_iff)
  show ?case
  proof (cases "k' = k")
    case True
    then show ?thesis
      using rest Cons.prems(2) \<open>k' \<notin> fst ` set es\<close> lt by (fastforce simp: put_def slots_ok_def x list_all_iff)
  next
    case False
    have "(slot_agent \<circ> snd) ` set (put k e es) \<subseteq> insert n ((slot_agent \<circ> snd) ` set es)"
      using set_put [of k e es] Cons.prems(2) by auto
    then have "slot_agent e' \<notin> (slot_agent \<circ> snd) ` set (put k e es)"
      using e' \<open>slot_agent e' < n\<close> by auto
    moreover have "k' \<notin> fst ` set (put k e es)"
      using False \<open>k' \<notin> fst ` set es\<close> by (simp add: put_def keys_upsert)
    ultimately show ?thesis
      using Cons.IH [OF rest Cons.prems(2)] False \<open>slot_agent e' < n\<close>
      by (auto simp: put_def slots_ok_def x)
  qed
qed (simp add: slots_ok_def put_def)

lemma length_put: "length (put k v m) = (if k \<in> fst ` set m then length m else Suc (length m))"
proof (induction m)
  case (Cons x m)
  then show ?case by (cases x) (auto simp: put_def split: if_splits)
qed (simp add: put_def)

lemma length_update_slot [simp]: "length (update_slot k f es) = length es"
  by (simp add: update_slot_def)

lemma map_of_update_slot: "map_of (update_slot k f es) k' = (if k' = k then map_option f (map_of es k) else map_of es k')"
  by (induction es) (auto simp: update_slot_def)

lemma map_of_remove_session: "map_of (remove_session k es) = (map_of es)(k := None)"
  by (rule ext) (induction es, auto simp: remove_session_def)

lemma oldest_session_least:
  "es \<noteq> [] \<Longrightarrow> \<exists>k e. oldest_session es = Some (k, e) \<and> (k, e) \<in> set es \<and> (\<forall>(k', e') \<in> set es. slot_last e \<le> slot_last e')"
proof (induction es)
  case (Cons x xs)
  show ?case
  proof (cases "xs = []")
    case False
    with Cons.IH obtain k e where "oldest_session xs = Some (k, e)" "(k, e) \<in> set xs"
      "\<forall>(k', e') \<in> set xs. slot_last e \<le> slot_last e'" by blast
    then show ?thesis by (cases x) (auto intro: order_trans)
  qed (cases x, simp)
qed simp

lemma length_remove_session: "k \<in> fst ` set es \<Longrightarrow> length (remove_session k es) < length es"
  unfolding remove_session_def by (erule imageE) (rule length_filter_less, auto)

lemma slots_ok_evict: "slots_ok n es \<Longrightarrow> slots_ok n (evict es)"
  by (auto simp: evict_def slots_ok_remove split: option.splits)

lemma length_evict:
  assumes "length es \<le> MAX_SESSIONS + n"
  shows "length (evict es) < MAX_SESSIONS + n"
proof (cases "MAX_SESSIONS \<le> length es")
  case True
  then have "es \<noteq> []" by (auto simp: MAX_SESSIONS_def)
  from oldest_session_least [OF this] obtain k e where o: "oldest_session es = Some (k, e)" "(k, e) \<in> set es"
    by blast
  then have "length (remove_session k es) < length es"
    by (intro length_remove_session) (auto intro: rev_image_eqI)
  then show ?thesis using assms True o by (simp add: evict_def)
qed (simp add: evict_def)

lemma map_of_evict:
  "map_of (evict es) k = map_of es k \<or> map_of (evict es) k = None"
  by (auto simp: evict_def map_of_remove_session split: option.splits)


lemma save_slots_keeps:
  "save_slots sd now oc es as fs = (es', as', fs') \<Longrightarrow>
   map fst es' = map fst es \<and> map (slot_agent \<circ> snd) es' = map (slot_agent \<circ> snd) es \<and> length as' = length as"
proof (induction sd now oc es as fs arbitrary: es' as' fs' rule: save_slots.induct)
  case (2 sd now oc k e es as fs)
  show ?case
  proof (cases "slot_dirty e")
    case True
    obtain r s fs1 where sv: "save_for_agent sd now (oc k) HTTP_AGENT_ID (la_session (as ! slot_agent e)) fs = (r, s, fs1)"
      by (metis prod_cases3)
    obtain es1 as1 fs2 where rest: "save_slots sd now oc es (as[slot_agent e := (as ! slot_agent e)\<lparr>la_session := s\<rparr>]) fs1 = (es1, as1, fs2)"
      by (metis prod_cases3)
    from "2.IH"(1) [OF True refl sv [symmetric] refl refl rest] "2.prems" True sv rest
    show ?thesis by (auto simp: Let_def)
  next
    case False
    obtain es1 as1 fs2 where rest: "save_slots sd now oc es as fs = (es1, as1, fs2)"
      by (metis prod_cases3)
    from "2.IH"(2) [OF False rest] "2.prems" False rest show ?thesis by auto
  qed
qed simp

definition table_ok :: "nat \<Rightarrow> 'w app_state \<Rightarrow> bool" where
  "table_ok n st \<longleftrightarrow>
     slots_ok (length (as_agents st)) (as_sessions st) \<and> length (as_sessions st) \<le> MAX_SESSIONS + n"

lemma table_ok_get_or_create:
  assumes "table_ok n st"
  shows "table_ok n (snd (http_get_or_create env now sid st))"
proof -
  let ?es = "evict (as_sessions st)"
  have ev: "slots_ok (length (as_agents st)) ?es" "length ?es < MAX_SESSIONS + n"
    using assms by (simp_all add: table_ok_def slots_ok_evict length_evict)
  have "slots_ok (Suc (length (as_agents st))) (put i \<lparr>slot_agent = length (as_agents st), slot_last = now, slot_dirty = True\<rparr> ?es)"
    and "length (put i \<lparr>slot_agent = length (as_agents st), slot_last = now, slot_dirty = True\<rparr> ?es) \<le> MAX_SESSIONS + n" for i
    using ev by (simp_all add: slots_ok_put length_put)
  then show ?thesis
    using assms ev
    by (auto simp: http_get_or_create_def table_ok_def slots_ok_update touch_def Let_def split: prod.splits sum.splits option.splits)
qed

lemma table_ok_openai:
  assumes "table_ok n st"
  shows "table_ok (if map_of (as_sessions st) sid = None then Suc n else n) (snd (openai_find_agent env now sid st))"
  using assms
  by (auto simp: openai_find_agent_def table_ok_def slots_ok_update slots_ok_put length_put touch_def Let_def
      split: prod.splits sum.splits option.splits)

lemma load_persisted_ok:
  "load_persisted env now is st = (r, st') \<Longrightarrow> slots_ok (length (as_agents st)) (as_sessions st) \<Longrightarrow>
   slots_ok (length (as_agents st')) (as_sessions st')
   \<and> length (as_sessions st') \<le> length (as_sessions st) + length is"
proof (induction env now "is" st arbitrary: r st' rule: load_persisted.induct)
  case (2 env now i "is" st)
  from 2(1,2,3) show ?case
    by (fastforce simp: length_put slots_ok_put split: sum.splits prod.splits if_splits)
qed simp

text \<open>What can happen to the state, from the start of the server: the background tasks and what every handler does
  while it holds the mutex of the map or that of one agent, the OpenAI-compatible ones included. An agent may be at work
  when its session is gone. The number of a step is that of the sessions it enters without regard to the limit.\<close>

inductive http_step :: "'w http_env \<Rightarrow> nat \<Rightarrow> 'w app_state \<Rightarrow> 'w app_state \<Rightarrow> bool" for env where
  expire: "http_step env 0 st (cleanup_expired_sessions now st)"
| save: "http_step env 0 st (save_dirty_sessions (hv_serde env) t outcomes st)"
| get_or_create: "http_step env 0 st (snd (http_get_or_create env now sid st))"
| delete: "http_step env 0 st (snd (delete_session sid st))"
| show_messages: "http_step env 0 st (snd (get_session_messages now sid st))"
| compact: "http_step env 0 st (snd (http_compact_session env now sid st))"
| clear: "http_step env 0 st (snd (http_clear_session env now sid st))"
| new_model: "http_step env 0 st (snd (set_session_model now sid m st))"
| find_agent: "http_step env 0 st (snd (chat_find now sid changes st))"
| run: "chat_run m msg a st = Some (r, m', st') \<Longrightarrow> http_step env 0 st st'"
| approved: "approve_run call_id a st = Some (r, m', st') \<Longrightarrow> http_step env 0 st st'"
| streamed: "stream_run msg a st = Some (items, st') \<Longrightarrow> http_step env 0 st st'"
| finish: "http_step env 0 st (snd (handle_chat_result env result sid m st))"
| openai: "http_step env (if map_of (as_sessions st) sid = None then 1 else 0) st
    (snd (openai_find_agent openai_env now sid st))"
| openai_done: "http_step env 0 st (mark_session sid st)"

inductive http_reachable :: "'w http_env \<Rightarrow> nat \<Rightarrow> 'w app_state \<Rightarrow> bool" for env where
  init: "http_reachable env 0 (snd (load_persisted_sessions env now
    \<lparr>as_sessions = [], as_agents = [], as_files = fs, as_world = w\<rparr>))"
| step: "http_reachable env n st \<Longrightarrow> http_step env k st st' \<Longrightarrow> http_reachable env (n + k) st'"

lemma table_ok_step: "http_step env k st st' \<Longrightarrow> table_ok n st \<Longrightarrow> table_ok (n + k) st'"
proof (induction rule: http_step.induct)
  case (save st t outcomes)
  obtain es as fs where s: "save_slots (hv_serde env) t outcomes (as_sessions st) (as_agents st) (as_files st) = (es, as, fs)"
    by (metis prod_cases3)
  from save_slots_keeps [OF s] have "slots_ok b es = slots_ok b (as_sessions st)" "length es = length (as_sessions st)"
    "length as = length (as_agents st)" for b
    using slots_ok_cong [of es "as_sessions st"] by (auto dest: arg_cong [where f = length])
  then show ?case using save by (simp add: save_dirty_sessions_def s table_ok_def)
next
  case (get_or_create st now sid)
  then show ?case by (simp add: table_ok_get_or_create)
next
  case (expire st now)
  then show ?case
    by (auto simp: table_ok_def cleanup_expired_sessions_def slots_ok_filter intro: order_trans [OF length_filter_le])
next
  case (delete st sid)
  then show ?case
    by (auto simp: table_ok_def delete_session_def remove_session_def slots_ok_filter intro: order_trans [OF length_filter_le])
next
  case (openai st sid openai_env now)
  then show ?case using table_ok_openai [of n st sid openai_env now] by (cases "map_of (as_sessions st) sid") simp_all
qed (auto simp: table_ok_def mark_session_def get_session_messages_def http_compact_session_def http_clear_session_def
    set_session_model_def chat_find_def chat_run_def approve_run_def stream_run_def handle_chat_result_def
    put_agent_def slots_ok_update touch_def mark_dirty_def Let_def
    split: option.splits prod.splits sum.splits anyhow_error.splits llm_error.splits)

lemma http_reachable_table: "http_reachable env n st \<Longrightarrow> table_ok n st"
proof (induction rule: http_reachable.induct)
  case (init now fs w)
  let ?st = "\<lparr>as_sessions = [], as_agents = [], as_files = fs, as_world = w\<rparr>"
  obtain r st' where l: "load_persisted_sessions env now ?st = (r, st')" by (metis surj_pair)
  have "slots_ok (length (as_agents ?st)) (as_sessions ?st)" by (simp add: slots_ok_def)
  from load_persisted_ok [OF l [unfolded load_persisted_sessions_def] this] show ?case
    by (simp add: l table_ok_def)
qed (rule table_ok_step)

text \<open>C10: How large the map of sessions becomes, whatever requests, expiries and saves come in whatever order after the
  start with saved sessions. The handlers of the server itself keep it within its limit; every session that a request
  to the OpenAI-compatible interface enters under a new identifier, and no other, adds one to that. No two entries have
  the same identifier or share an agent, and every entry has one.\<close>

theorem http_sessions_bounded:
  assumes "http_reachable env n st"
  shows "length (as_sessions st) \<le> MAX_SESSIONS + n \<and> distinct (map fst (as_sessions st))
    \<and> distinct (map (slot_agent \<circ> snd) (as_sessions st))
    \<and> list_all (\<lambda>a. a < length (as_agents st)) (map (slot_agent \<circ> snd) (as_sessions st))"
  using http_reachable_table [OF assms] by (simp add: table_ok_def slots_ok_def)

subsection \<open>New sessions\<close>

lemma evict_spec:
  "(if length es < MAX_SESSIONS then evict es = es
    else \<exists>k e0. (k, e0) \<in> set es \<and> list_all (\<lambda>(k', e'). slot_last e0 \<le> slot_last e') es
      \<and> evict es = remove_session k es)"
proof (cases "length es < MAX_SESSIONS")
  case False
  then have "es \<noteq> []" by (auto simp: MAX_SESSIONS_def)
  from oldest_session_least [OF this] obtain k e where "oldest_session es = Some (k, e)" "(k, e) \<in> set es"
    "list_all (\<lambda>(k', e'). slot_last e \<le> slot_last e') es"
    by (auto simp: list_all_iff)
  with False show ?thesis
    unfolding if_not_P [OF False] by (intro exI [of _ k] exI [of _ e]) (simp add: evict_def)
qed (simp add: evict_def)

lemma get_or_create_new:
  assumes "map_of (as_sessions st) sid = None" and "start_session env (as_world st) = (Inr la, w)"
  shows "http_get_or_create env now (Some sid) st =
    (Inr sid, st\<lparr>as_sessions := put sid \<lparr>slot_agent = length (as_agents st), slot_last = now, slot_dirty = True\<rparr>
         (evict (as_sessions st)), as_agents := as_agents st @ [la], as_world := w\<rparr>)"
  using assms by (simp add: http_get_or_create_def)

text \<open>A request with a new identifier gets a new agent under it. When the map is full, exactly one other session
  goes, one that no session was accessed before; its transcript is not written, even if it has changed since the
  last save.\<close>

theorem http_get_or_create_spec:
  assumes "map_of (as_sessions st) sid = None" and "start_session env (as_world st) = (Inr la, w)"
  shows "case http_get_or_create env now (Some sid) st of (r, st') \<Rightarrow>
    r = Inr sid \<and> as_agents st' = as_agents st @ [la] \<and> as_files st' = as_files st \<and>
    (let e = \<lparr>slot_agent = length (as_agents st), slot_last = now, slot_dirty = True\<rparr> in
     if length (as_sessions st) < MAX_SESSIONS
     then map_of (as_sessions st') = (map_of (as_sessions st))(sid \<mapsto> e)
     else \<exists>k e0. (k, e0) \<in> set (as_sessions st) \<and> list_all (\<lambda>(k', e'). slot_last e0 \<le> slot_last e') (as_sessions st)
       \<and> map_of (as_sessions st') = (map_of (as_sessions st))(k := None, sid \<mapsto> e))"
proof (cases "length (as_sessions st) < MAX_SESSIONS")
  case False
  with evict_spec [of "as_sessions st"] obtain k e0 where "(k, e0) \<in> set (as_sessions st)"
    "list_all (\<lambda>(k', e'). slot_last e0 \<le> slot_last e') (as_sessions st)"
    "evict (as_sessions st) = remove_session k (as_sessions st)" by auto
  with False show ?thesis
    unfolding get_or_create_new [OF assms] Let_def prod.case if_not_P [OF False]
    by (intro conjI exI [of _ k] exI [of _ e0]) (simp_all add: map_of_remove_session)
qed (use evict_spec [of "as_sessions st"] in \<open>simp add: get_or_create_new [OF assms]\<close>)

text \<open>What a request with one identifier does to the sessions of others.\<close>

lemma get_or_create_others:
  assumes "http_get_or_create env now (Some sid) st = (r, st1)" and "slots_ok (length (as_agents st)) (as_sessions st)"
    and "map_of (as_sessions st) k = Some e" and "k \<noteq> sid"
  shows "map_of (as_sessions st1) k = Some e \<or> map_of (as_sessions st1) k = None"
    and "\<exists>new. as_agents st1 = as_agents st @ new"
    and "map_of (as_sessions st1) sid = Some e1 \<Longrightarrow> slot_agent e1 \<noteq> slot_agent e"
proof -
  have e: "(k, e) \<in> set (as_sessions st)" and lt: "slot_agent e < length (as_agents st)"
    using assms(2,3) map_of_SomeD by (fastforce simp: slots_ok_def list_all_iff)+
  show "map_of (as_sessions st1) k = Some e \<or> map_of (as_sessions st1) k = None"
    and "\<exists>new. as_agents st1 = as_agents st @ new"
    using assms map_of_evict [of "as_sessions st" k]
    by (auto simp: http_get_or_create_def Let_def map_of_update_slot split: if_splits prod.splits sum.splits)
  assume e1: "map_of (as_sessions st1) sid = Some e1"
  show "slot_agent e1 \<noteq> slot_agent e"
  proof (cases "map_of (as_sessions st) sid")
    case None
    then have "slot_agent e1 = length (as_agents st)"
      using assms(1) e1 map_of_evict [of "as_sessions st" sid]
      by (auto simp: http_get_or_create_def Let_def split: prod.splits sum.splits)
    with lt show ?thesis by simp
  next
    case (Some e2)
    then have "slot_agent e1 = slot_agent e2"
      using assms(1) e1 by (auto simp: http_get_or_create_def map_of_update_slot touch_def)
    moreover have "(sid, e2) \<in> set (as_sessions st)" using Some by (rule map_of_SomeD)
    ultimately show ?thesis
      using e assms(2,4) by (auto simp: slots_ok_def distinct_map inj_on_def) (metis fst_conv snd_conv)
  qed
qed

lemma chat_run_elsewhere:
  "chat_run m msg a st = Some (r, m', st') \<Longrightarrow> as_sessions st' = as_sessions st \<and> (b \<noteq> a \<longrightarrow> as_agents st' ! b = as_agents st ! b)"
  by (auto simp: chat_run_def Let_def put_agent_def)

lemma handle_chat_result_elsewhere:
  "handle_chat_result env r sid m st = (rep, st') \<Longrightarrow> as_agents st' = as_agents st \<and>
   (k \<noteq> sid \<longrightarrow> map_of (as_sessions st') k = map_of (as_sessions st) k)"
  by (auto simp: handle_chat_result_def Let_def map_of_update_slot
      split: sum.splits anyhow_error.splits llm_error.splits)

text \<open>C9: A chat in one session leaves every other session alone: its agent, with its conversation, its approvals
  and its model, is as before, and so is its entry, unless it was the one evicted.\<close>

theorem http_chat_isolated:
  assumes "http_reachable env n st" and "map_of (as_sessions st) k = Some e" and "k \<noteq> sid" and "cq_session_id q = Some sid"
    and "http_chat env now ws q st = Some (rep, st')"
  shows "as_agents st' ! slot_agent e = as_agents st ! slot_agent e
    \<and> (map_of (as_sessions st') k = Some e \<or> map_of (as_sessions st') k = None)"
proof -
  from assms(1) have tab: "table_ok n st" by (rule http_reachable_table)
  then have ok: "slots_ok (length (as_agents st)) (as_sessions st)" by (simp add: table_ok_def)
  have "(k, e) \<in> set (as_sessions st)" using assms(2) by (rule map_of_SomeD)
  then have lt: "slot_agent e < length (as_agents st)" using ok by (auto simp: slots_ok_def list_all_iff)
  obtain r st1 where g: "http_get_or_create env now (Some sid) st = (r, st1)" by (metis surj_pair)
  note others = get_or_create_others [OF g ok assms(2,3)]
  have same: "as_agents st1 ! slot_agent e = as_agents st ! slot_agent e"
    using others(2) lt by (auto simp: nth_append)
  show ?thesis
  proof (cases "\<exists>a st2. r = Inr sid \<and> ws = WsHeld \<and> chat_find now sid False st1 = (Some a, st2)")
    case False
    then have "as_agents st' = as_agents st1 \<and> as_sessions st' = as_sessions st1"
      using assms(4,5) g
      by (auto simp: http_chat_def ws_failure_def chat_find_def http_get_or_create_def Let_def
          split: sum.splits prod.splits ws_outcome.splits option.splits if_splits)
    then show ?thesis using others(1) same by simp
  next
    case True
    then obtain a st2 where r: "r = Inr sid" and ws: "ws = WsHeld" and f: "chat_find now sid False st1 = (Some a, st2)"
      by blast
    from f obtain e1 where e1: "map_of (as_sessions st1) sid = Some e1" "a = slot_agent e1"
      and st2: "as_agents st2 = as_agents st1" "as_sessions st2 = update_slot sid (touch now) (as_sessions st1)"
      by (auto simp: chat_find_def split: option.splits)
    from assms(4,5) g r ws f obtain r3 m3 st3 where run: "chat_run (cq_model q) (cq_message q) a st2 = Some (r3, m3, st3)"
      and fin: "handle_chat_result env r3 sid m3 st3 = (rep, st')"
      by (auto simp: http_chat_def ws_failure_def)
    have "slot_agent e \<noteq> a" using others(3) [OF e1(1)] e1(2) by simp
    then show ?thesis
      using chat_run_elsewhere [OF run, of "slot_agent e"] handle_chat_result_elsewhere [OF fin, of k] same st2 others(1) assms(3)
      by (simp add: map_of_update_slot)
  qed
qed

subsection \<open>Transcripts\<close>

lemma saved_content_items:
  "f ''content'' = Some (JArr ((if t \<noteq> [] then [text_item t] else []) @ map image_item imgs)) \<Longrightarrow> saved_content (JObj f) = t"
proof -
  have "List.map_filter (\<lambda>c. if as_str (jindex c ''type'') = Some ''text'' then as_str (jindex c ''text'') else None)
      (map image_item imgs) = []"
    by (rule map_filter_all_None) (simp add: image_item_def)
  then show "f ''content'' = Some (JArr ((if t \<noteq> [] then [text_item t] else []) @ map image_item imgs)) \<Longrightarrow> saved_content (JObj f) = t"
    by (simp add: saved_content_def map_filter_append List.map_filter_simps text_item_def)
qed

lemma saved_message_format: "saved_message (format_message sd sm) = message_view sm"
proof -
  let ?m = "sm_message sm"
  obtain f where f: "format_message sd sm = JObj f"
    by (simp add: format_message_def jset_opt_upd Let_def)
  have get: "f k = jget (format_message sd sm) k" for k by (simp add: f)
  have "f ''role'' = Some (JStr (role_name (role ?m)))"
    and items: "f ''content'' = Some (JArr ((if content ?m \<noteq> [] then [text_item (content ?m)] else []) @ map image_item (images ?m)))"
    and "f ''timestamp'' = Some (j_u64 (timestamp sm))"
    and "f ''toolCalls'' = map_option (\<lambda>tcs. JArr (map tool_call_json tcs)) (tool_calls ?m)"
    and cid: "f ''toolCallId'' = map_option JStr (tool_call_id ?m)"
    unfolding get by (simp_all add: format_message_def jset_opt_upd opt_upd_apply Let_def)
  moreover have "role_name (role ?m) = http_role (role ?m)" by (cases "role ?m") simp_all
  moreover have "http_tool_call = tool_call_json" by (simp add: fun_eq_iff http_tool_call_def tool_call_json_def)
  moreover note saved_content_items [where f = f, OF items] as_str_field [where f = f, OF cid]
  ultimately show ?thesis
    unfolding f by (cases "tool_calls ?m") (simp_all add: saved_message_def message_view_def)
qed

lemma fold_saved_lines:
  "json_lines_ok sd (map (format_message_entry sd) sms) \<Longrightarrow>
   fold (saved_line sd) (enumerate (Suc n) (map (to_json_text sd) (map (format_message_entry sd) sms))) d
     = d\<lparr>sd_messages := sd_messages d @ map message_view sms\<rparr>"
proof (induction sms arbitrary: n d)
  case (Cons sm sms)
  then have "saved_line sd (Suc n, to_json_text sd (format_message_entry sd sm)) d
      = d\<lparr>sd_messages := sd_messages d @ [message_view sm]\<rparr>"
    by (simp add: saved_line_def json_lines_ok_def format_message_entry_def saved_message_format)
  with Cons show ?case by (simp add: json_lines_ok_def)
qed simp

text \<open>The page of a saved session shows what the page of the live session shows: of every message its role, text,
  tool calls, identifier and time, with the system prompt in front, for every session whose JSON lines the crate
  reads back.\<close>

theorem saved_session_view:
  assumes "json_lines_ok sd (save_entries sd now s)"
  shows "saved_session_of sd (save_text sd now s) =
    \<lparr>sd_created_at = to_rfc3339 sd (created_at s),
     sd_messages = map message_view
       ((case system_context s of Some c \<Rightarrow> [sm_new now (text_message System c)] | None \<Rightarrow> []) @ messages s)\<rparr>"
proof -
  let ?sms = "(case system_context s of Some c \<Rightarrow> [sm_new now (text_message System c)] | None \<Rightarrow> []) @ messages s"
  have es: "save_entries sd now s = header_entry sd s # map (format_message_entry sd) ?sms"
    by (simp add: save_entries_def split: option.split)
  with assms have h: "of_json_text sd (to_json_text sd (header_entry sd s)) = Some (header_entry sd s)"
    and ms: "json_lines_ok sd (map (format_message_entry sd) ?sms)"
    by (simp_all add: json_lines_ok_def)
  have "saved_line sd (0, to_json_text sd (header_entry sd s)) \<lparr>sd_created_at = [], sd_messages = []\<rparr>
      = \<lparr>sd_created_at = to_rfc3339 sd (created_at s), sd_messages = []\<rparr>"
    unfolding saved_line_def snd_conv h by (simp add: header_entry_def)
  then show ?thesis
    unfolding saved_session_of_def lines_save_text [OF assms] es list.map enumerate_simps fold_simps fold_saved_lines [OF ms]
    by simp
qed

theorem saved_session_view_witness:
  "sd_messages (saved_session_of sample_serde (save_text sample_serde 9 sample_session)) =
     map message_view [sm_new 9 (text_message System ''ctx''), sm_new 7 (text_message User ''hi'')]"
  unfolding saved_session_view [OF sample_json_lines] by (simp add: sample_defs)

subsection \<open>Restarts\<close>

lemma save_for_agent_files:
  assumes "save_for_agent sd now oc HTTP_AGENT_ID s fs = (r, s', fs')"
  shows "s_id s' = s_id s" "a \<noteq> HTTP_AGENT_ID \<Longrightarrow> map_of fs' (a, n) = map_of fs (a, n)"
    "map_of fs (a, n) \<noteq> None \<Longrightarrow> map_of fs' (a, n) \<noteq> None"
    "oc = None \<Longrightarrow> map_of fs' (HTTP_AGENT_ID, s_id s) \<noteq> None"
  using assms by (auto simp: save_for_agent_def split: option.splits)

lemma save_slots_files:
  "save_slots sd now oc es as fs = (es', as', fs') \<Longrightarrow>
   (a \<noteq> HTTP_AGENT_ID \<longrightarrow> map_of fs' (a, n) = map_of fs (a, n))
   \<and> (map_of fs (a, n) \<noteq> None \<longrightarrow> map_of fs' (a, n) \<noteq> None)
   \<and> ((k, e) \<in> set es \<and> slot_dirty e \<and> oc k = None \<longrightarrow>
        map_of fs' (HTTP_AGENT_ID, s_id (la_session (as ! slot_agent e))) \<noteq> None)"
proof (induction sd now oc es as fs arbitrary: es' as' fs' a n rule: save_slots.induct)
  case (2 sd now oc k1 e1 es as fs)
  show ?case
  proof (cases "slot_dirty e1")
    case True
    let ?la = "as ! slot_agent e1"
    obtain r s fs1 where sv: "save_for_agent sd now (oc k1) HTTP_AGENT_ID (la_session ?la) fs = (r, s, fs1)"
      by (metis prod_cases3)
    let ?as = "as[slot_agent e1 := ?la\<lparr>la_session := s\<rparr>]"
    obtain es1 as1 fs2 where rest: "save_slots sd now oc es ?as fs1 = (es1, as1, fs2)"
      by (metis prod_cases3)
    have ids: "s_id (la_session (?as ! x)) = s_id (la_session (as ! x))" for x
      using save_for_agent_files(1) [OF sv] by (cases "slot_agent e1 < length as") (auto simp: nth_list_update list_update_beyond)
    note ih = "2.IH"(1) [OF True refl sv [symmetric] refl refl rest]
    have fs': "fs' = fs2" using "2.prems" True sv rest by (auto simp: Let_def)
    show ?thesis
      using ih [of a n] ih [of HTTP_AGENT_ID "s_id (la_session ?la)"] save_for_agent_files(2-4) [OF sv] ids
      unfolding fs' by auto
  next
    case False
    obtain es1 as1 fs2 where rest: "save_slots sd now oc es as fs = (es1, as1, fs2)"
      by (metis prod_cases3)
    from "2.IH"(2) [OF False rest, of a n] "2.prems" False rest show ?thesis by auto
  qed
qed simp

lemma load_persisted_none:
  "\<forall>sid. map_of (as_files st) (DEFAULT_AGENT_ID, sid) = None \<Longrightarrow>
   as_sessions (snd (load_persisted env now is st)) = as_sessions st"
proof (induction env now "is" st rule: load_persisted.induct)
  case (2 env now i "is" st)
  then show ?case by (auto simp: session_load_def split: prod.splits sum.splits)
qed simp

text \<open>A restart forgets every session. Saving writes the transcript of each changed session below the agent of the
  server, but loading looks for the sessions listed there below the default agent: where that one has no transcripts,
  the server starts with an empty map, although the files are there.\<close>

theorem http_sessions_not_restored:
  assumes "\<forall>sid. map_of (as_files st) (DEFAULT_AGENT_ID, sid) = None"
  shows "let fs = as_files (save_dirty_sessions sd t outcomes st) in
    as_sessions (snd (load_persisted_sessions env now
      \<lparr>as_sessions = [], as_agents = [], as_files = fs, as_world = w\<rparr>)) = []
    \<and> ((k, e) \<in> set (as_sessions st) \<and> slot_dirty e \<and> outcomes k = None \<longrightarrow>
        map_of fs (HTTP_AGENT_ID, s_id (la_session (as_agents st ! slot_agent e))) \<noteq> None)"
proof -
  obtain es as fs where s: "save_slots sd t outcomes (as_sessions st) (as_agents st) (as_files st) = (es, as, fs)"
    by (metis prod_cases3)
  have fs: "as_files (save_dirty_sessions sd t outcomes st) = fs" by (simp add: save_dirty_sessions_def s)
  have "DEFAULT_AGENT_ID \<noteq> HTTP_AGENT_ID" by (simp add: DEFAULT_AGENT_ID_def HTTP_AGENT_ID_def)
  with save_slots_files [OF s, of DEFAULT_AGENT_ID] assms have "\<forall>sid. map_of fs (DEFAULT_AGENT_ID, sid) = None" by simp
  moreover have "(k, e) \<in> set (as_sessions st) \<and> slot_dirty e \<and> outcomes k = None \<longrightarrow>
      map_of fs (HTTP_AGENT_ID, s_id (la_session (as_agents st ! slot_agent e))) \<noteq> None"
    using save_slots_files [OF s] by blast
  ultimately show ?thesis
    unfolding Let_def fs load_persisted_sessions_def by (simp add: load_persisted_none)
qed

subsection \<open>Examples\<close>

definition no_files :: memory_files where
  "no_files = \<lparr>brand_new = False, identity_file = Inr [], user_file = Inr [], soul_file = Inr [], agents_file = Inr [],
     tools_file = Inr [], memory_file = Inr [], recent_daily_logs = Inr [], heartbeat_file = Inr []\<rparr>"

definition sample_agent :: "llm_response list agent" where
  "sample_agent = \<lparr>ag_engine = sample_engine scripted_host [] 4000, ag_usage = \<lparr>input_tokens = 0, output_tokens = 0\<rparr>,
     ag_status_lines = []\<rparr>"

definition sample_env :: "llm_response list http_env" where
  "sample_env = \<lparr>hv_new_agent = (\<lambda>w. (Inr (sample_agent, sample_session), w)), hv_memory = (\<lambda>w. no_files),
     hv_prompt = (\<lambda>a w. ''prompt''), hv_fresh = (\<lambda>w. (sample_session, w)), hv_uuid = (\<lambda>w. (''u'', w)),
     hv_show = (\<lambda>e. ''error''), hv_default_model = ''ollama/m'', hv_serde = sample_serde, hv_bpe = None, hv_utc = (\<lambda>w. 0)\<rparr>"

definition full_server :: "llm_response list app_state" where
  "full_server = \<lparr>as_sessions = map (\<lambda>i. (replicate i CHR ''a'', \<lparr>slot_agent = i, slot_last = 100 - i, slot_dirty = True\<rparr>)) [0..<100],
     as_agents = replicate 100 \<lparr>la_agent = sample_agent, la_session = sample_session, la_approved = {}\<rparr>,
     as_files = [], as_world = []\<rparr>"

lemma sample_start: "\<exists>la. start_session sample_env w = (Inr la, w) \<and> la_agent la = sample_agent"
proof -
  have "\<exists>ctx. build_memory_context tc mf = Inr ctx" for tc mf by (simp add: build_memory_context_def Let_def)
  then obtain ctx where "build_memory_context (tools_cfg (e_cfg (ag_engine sample_agent))) no_files = Inr ctx" by blast
  then show ?thesis
    by (simp add: start_session_def sample_env_def agent_new_session_def live_again_def)
qed

lemma sample_chat_returns: "agent_chat msg sample_agent st \<noteq> None"
  using turn_returns [OF scripted_budget [of "[]" 4000], of msg "[]" st]
  by (auto simp: agent_chat_def chat_def sample_agent_def)

definition sample_server :: "llm_response list app_state" where
  "sample_server = snd (http_get_or_create sample_env 5 (Some ''b'')
     (snd (load_persisted_sessions sample_env 0 \<lparr>as_sessions = [], as_agents = [], as_files = [], as_world = []\<rparr>)))"

lemma sample_server_reachable: "http_reachable sample_env 0 sample_server"
  unfolding sample_server_def using http_reachable.step [OF http_reachable.init http_step.get_or_create] by simp

lemma sample_server_sessions:
  "\<exists>la. as_sessions sample_server = [(''b'', \<lparr>slot_agent = 0, slot_last = 5, slot_dirty = True\<rparr>)]
     \<and> as_agents sample_server = [la] \<and> la_agent la = sample_agent"
proof -
  let ?st = "\<lparr>as_sessions = [], as_agents = [], as_files = [], as_world = []\<rparr> :: llm_response list app_state"
  have l: "snd (load_persisted_sessions sample_env 0 ?st) = ?st"
    by (simp add: load_persisted_sessions_def list_sessions_for_agent_def List.map_filter_simps)
  obtain la where "start_session sample_env [] = (Inr la, [])" "la_agent la = sample_agent"
    using sample_start by blast
  then show ?thesis
    by (simp add: sample_server_def l get_or_create_new [where st = ?st] evict_def MAX_SESSIONS_def put_def)
qed

theorem http_sessions_bounded_witness:
  "length (as_sessions (snd (openai_find_agent sample_env 6 ''o'' sample_server))) \<le> MAX_SESSIONS + 1
   \<and> distinct (map fst (as_sessions (snd (openai_find_agent sample_env 6 ''o'' sample_server))))"
proof -
  have "map_of (as_sessions sample_server) ''o'' = None" using sample_server_sessions by auto
  then have "http_reachable sample_env 1 (snd (openai_find_agent sample_env 6 ''o'' sample_server))"
    using http_reachable.step [OF sample_server_reachable http_step.openai [where sid = "''o''" and openai_env = sample_env and now = 6]]
    by simp
  from http_sessions_bounded [OF this] show ?thesis by simp
qed

theorem http_chat_isolated_witness:
  "\<exists>rep st'. http_chat sample_env 9 WsHeld \<lparr>cq_message = ''hi'', cq_session_id = Some ''c'', cq_model = None\<rparr> sample_server
      = Some (rep, st') \<and> as_agents st' ! 0 = as_agents sample_server ! 0"
proof -
  let ?q = "\<lparr>cq_message = ''hi'', cq_session_id = Some ''c'', cq_model = None\<rparr>"
  obtain la0 where b: "as_sessions sample_server = [(''b'', \<lparr>slot_agent = 0, slot_last = 5, slot_dirty = True\<rparr>)]"
    "as_agents sample_server = [la0]" using sample_server_sessions by blast
  obtain la where la: "start_session sample_env (as_world sample_server) = (Inr la, as_world sample_server)"
    "la_agent la = sample_agent" using sample_start by blast
  have none: "map_of (as_sessions sample_server) ''c'' = None" by (simp add: b)
  obtain r ag est where "agent_chat ''hi'' sample_agent (engine_state_of la (as_world sample_server)) = Some (r, ag, est)"
    using sample_chat_returns by (metis option.exhaust prod_cases3)
  then obtain rep st' where h: "http_chat sample_env 9 WsHeld ?q sample_server = Some (rep, st')"
    by (simp add: http_chat_def get_or_create_new [OF none la(1)] ws_failure_def chat_find_def chat_run_def b la(2) Let_def)
      (metis surj_pair)
  have k: "map_of (as_sessions sample_server) ''b'' = Some \<lparr>slot_agent = 0, slot_last = 5, slot_dirty = True\<rparr>"
    by (simp add: b)
  have "''b'' \<noteq> ''c''" by simp
  from http_chat_isolated [OF sample_server_reachable k this _ h] h show ?thesis by auto
qed

theorem http_sessions_not_restored_witness:
  "as_sessions (snd (load_persisted_sessions sample_env 0 \<lparr>as_sessions = [], as_agents = [],
      as_files = as_files (save_dirty_sessions sample_serde 1 (\<lambda>k. None) full_server), as_world = []\<rparr>)) = []
   \<and> map_of (as_files (save_dirty_sessions sample_serde 1 (\<lambda>k. None) full_server)) (''http'', ''u'') \<noteq> None"
proof -
  have "\<forall>sid. map_of (as_files full_server) (DEFAULT_AGENT_ID, sid) = None" by (simp add: full_server_def)
  note r = http_sessions_not_restored [OF this, unfolded Let_def]
  have "([], \<lparr>slot_agent = 0, slot_last = 100, slot_dirty = True\<rparr>) \<in> set (as_sessions full_server)"
    by (force simp: full_server_def intro: rev_image_eqI [of 0])
  moreover have "s_id (la_session (as_agents full_server ! 0)) = ''u''"
    by (simp add: full_server_def sample_defs)
  ultimately show ?thesis
    using r [where sd = sample_serde and t = 1 and outcomes = "\<lambda>k. None" and env = sample_env and now = 0 and w = "[]"
        and k = "[]" and e = "\<lparr>slot_agent = 0, slot_last = 100, slot_dirty = True\<rparr>"]
    by (simp add: HTTP_AGENT_ID_def)
qed

theorem http_get_or_create_spec_witness:
  "\<exists>la k e0. case http_get_or_create sample_env 200 (Some ''b'') full_server of (r, st') \<Rightarrow>
     r = Inr ''b'' \<and> as_agents st' = as_agents full_server @ [la] \<and> (k, e0) \<in> set (as_sessions full_server)
     \<and> map_of (as_sessions st') k = None"
proof -
  obtain la where la: "start_session sample_env (as_world full_server) = (Inr la, as_world full_server)"
    using sample_start by blast
  have "replicate i CHR ''a'' \<noteq> ''b''" for i by (cases i) simp_all
  then have none: "map_of (as_sessions full_server) ''b'' = None"
    by (fastforce simp: full_server_def map_of_eq_None_iff)
  obtain r st' where g: "http_get_or_create sample_env 200 (Some ''b'') full_server = (r, st')" by (metis surj_pair)
  have "\<not> length (as_sessions full_server) < MAX_SESSIONS" by (simp add: full_server_def MAX_SESSIONS_def)
  from http_get_or_create_spec [OF none la, of 200, unfolded g prod.case Let_def if_not_P [OF this]]
  obtain k e0 where r: "r = Inr ''b''" "as_agents st' = as_agents full_server @ [la]" "(k, e0) \<in> set (as_sessions full_server)"
    and m: "map_of (as_sessions st') = (map_of (as_sessions full_server))
      (k := None, ''b'' \<mapsto> \<lparr>slot_agent = length (as_agents full_server), slot_last = 200, slot_dirty = True\<rparr>)"
    by blast
  have "k \<noteq> ''b''" using none r(3) by (auto simp: map_of_eq_None_iff image_iff)
  with m have "map_of (as_sessions st') k = None" by simp
  with r g show ?thesis by auto
qed

end
