(* ===== verification/Openai_Proxy.thy ===== *)
theory Openai_Proxy
  imports Http_Sessions File_Tools
begin

text \<open>
  The OpenAI-compatible server (\<^verbatim>\<open>src/src/server/openai.rs\<close>): which session a request belongs to, what becomes of the
  events of the agent in one answer and in a stream, and the handlers on the state of \<open>Http_Server\<close>. The identifier
  and the time of an answer come from outside and are left out; the environment's agents are those of the agent
  \<open>openai\<close>.
\<close>

subsection \<open>Requests\<close>

record openai_request_message =
  om_role :: string
  om_content :: string

record proxy_request =
  oq_messages :: "openai_request_message list"
  oq_stream :: bool
  oq_user :: "string option"

text \<open>The text sent to the agent and whether a trace is wanted.\<close>

definition proxy_message :: "openai_request_message list \<Rightarrow> string \<times> bool" where
  "proxy_message ms =
     (let m = (if ms = [] then [] else om_content (last ms)) in
      if starts_with m ''/v '' then (drop 3 m, True)
      else if m = ''/v'' then ([], True)
      else (m, False))"

text \<open>\<open>authorization\<close>: the header, if there is one, and its text, if it is text.\<close>

definition openai_session_id :: "(string \<Rightarrow> bool) \<Rightarrow> string option \<Rightarrow> string option option \<Rightarrow> string" where
  "openai_session_id uni user authorization =
     (case user of
        Some u \<Rightarrow> ''openai-'' @ u
      | None \<Rightarrow>
          (case authorization of
             Some (Some auth) \<Rightarrow>
               (case strip_prefix auth ''Bearer '' of
                  Some token \<Rightarrow> ''openai-'' @ concat (take 20 (filter (is_alphanumeric uni) (chars token)))
                | None \<Rightarrow> ''openai-proxy'')
           | _ \<Rightarrow> ''openai-proxy''))"

subsection \<open>One answer\<close>

definition wrench :: string where
  "wrench = [CHR 0xF0, CHR 0x9F, CHR 0x9B, CHR 0xA0, CHR 0xEF, CHR 0xB8, CHR 0x8F]"

definition dashes :: "nat \<Rightarrow> string" where
  "dashes n = concat (replicate n [CHR 0xE2, CHR 0x94, CHR 0x80])"

definition bar :: string where
  "bar = [CHR 0xE2, CHR 0x94, CHR 0x82]"

definition trace_header :: string where
  "trace_header = [CHR 0xE2, CHR 0x94, CHR 0x8C] @ dashes 2 @ '' Tool Calls Trace '' @ dashes 42 @ nl"

definition trace_footer :: string where
  "trace_footer = [CHR 0xE2, CHR 0x94, CHR 0x94] @ dashes 62 @ nl2"

definition no_newlines :: "string \<Rightarrow> string" where
  "no_newlines s = map (\<lambda>c. if c = newline then CHR '' '' else c) s"

definition trace_status :: "string \<Rightarrow> string" where
  "trace_status out = (if 50 < length out then no_newlines (take_chars 47 out) @ ''...'' else no_newlines out)"

definition trace_call :: "string \<Rightarrow> string option \<Rightarrow> string" where
  "trace_call name d = wrench @ '' '' @ name @ '': '' @ unwrap_or d []"

text \<open>The loop of \<open>handle_non_stream\<close> with the lines of the trace and the text so far; \<open>None\<close> when describing a call
  panics.\<close>

fun collect_events ::
  "(string \<Rightarrow> string \<Rightarrow> string option option) \<Rightarrow> stream_item list \<Rightarrow> string list \<Rightarrow> string \<Rightarrow> (string list \<times> string) option" where
  "collect_events detail [] traces final = Some (traces, final)"
| "collect_events detail (Inr (Content t) # is) traces final = collect_events detail is traces (final @ t)"
| "collect_events detail (Inr (ToolCallStart name i arguments) # is) traces final =
     Option.bind (detail name arguments) (\<lambda>d. collect_events detail is (traces @ [trace_call name d]) final)"
| "collect_events detail (Inr (ToolCallEnd name i out) # is) traces final =
     collect_events detail is
       (if traces = [] then [] else butlast traces @ [last traces @ '' -> '' @ trace_status out]) final"
| "collect_events detail (Inr Done # is) traces final = Some (traces, final)"
| "collect_events detail (Inr (ApprovalRequiredEv name i arguments) # is) traces final = collect_events detail is traces final"
| "collect_events detail (Inl e # is) traces final = collect_events detail is traces final"

definition response_text :: "bool \<Rightarrow> string list \<Rightarrow> string \<Rightarrow> string" where
  "response_text trace_enabled traces final =
     (if trace_enabled
      then trace_header
        @ (if traces = [] then bar @ '' (no tool calls)'' @ nl else concat (map (\<lambda>t. bar @ '' '' @ t @ nl) traces))
        @ trace_footer
      else []) @ final"

record openai_usage =
  ou_prompt_tokens :: u64
  ou_completion_tokens :: u64
  ou_total_tokens :: u64

definition openai_usage_of :: "usage \<Rightarrow> openai_usage" where
  "openai_usage_of u =
     \<lparr>ou_prompt_tokens = input_tokens u, ou_completion_tokens = output_tokens u,
      ou_total_tokens = input_tokens u + output_tokens u\<rparr>"

record openai_response =
  or_model :: string
  or_content :: string
  or_finish_reason :: string
  or_usage :: openai_usage

text \<open>\<open>None\<close>: the agent does not return, or describing a call panics.\<close>

definition handle_non_stream ::
  "'w http_env \<Rightarrow> (string \<Rightarrow> string \<Rightarrow> string option option) \<Rightarrow> ws_outcome \<Rightarrow> nat \<Rightarrow> string \<Rightarrow> bool \<Rightarrow> string \<Rightarrow> 'w app_state
   \<Rightarrow> (openai_response reply \<times> 'w app_state) option" where
  "handle_non_stream env detail ws a msg trace_enabled sid st =
     (if ws \<noteq> WsHeld then Some (AppError 500 ''Lock error'', st)
      else Option.bind (stream_run msg a st)
        (\<lambda>(r, st1). case r of
           Inl e \<Rightarrow> Some (AppError 500 (hv_show env e), st1)
         | Inr items \<Rightarrow>
             map_option (\<lambda>(traces, final).
               let ag = la_agent (as_agents st1 ! a) in
               (Reply 200 \<lparr>or_model = e_model (ag_engine ag), or_content = response_text trace_enabled traces final,
                  or_finish_reason = ''stop'', or_usage = openai_usage_of (ag_usage ag)\<rparr>,
                mark_session sid st1))
               (collect_events detail items [] [])))"

subsection \<open>Streams\<close>

record openai_chunk =
  oc_role :: "string option"
  oc_content :: "string option"
  oc_finish_reason :: "string option"
  oc_usage :: "openai_usage option"

datatype openai_event = OChunk openai_chunk | OError string | OEnd

definition role_chunk :: openai_event where
  "role_chunk = OChunk \<lparr>oc_role = Some ''assistant'', oc_content = None, oc_finish_reason = None, oc_usage = None\<rparr>"

definition content_chunk :: "string \<Rightarrow> openai_event" where
  "content_chunk t = OChunk \<lparr>oc_role = None, oc_content = Some t, oc_finish_reason = None, oc_usage = None\<rparr>"

definition stop_chunk :: "usage \<Rightarrow> openai_event" where
  "stop_chunk u = OChunk \<lparr>oc_role = None, oc_content = None, oc_finish_reason = Some ''stop'', oc_usage = Some (openai_usage_of u)\<rparr>"

text \<open>The loop of \<open>handle_stream\<close>: \<open>sent\<close> and \<open>has_tools\<close> are its flags.\<close>

fun openai_events ::
  "(string \<Rightarrow> string \<Rightarrow> string option option) \<Rightarrow> (anyhow_error \<Rightarrow> string) \<Rightarrow> bool \<Rightarrow> stream_item list \<Rightarrow> bool \<Rightarrow> bool
   \<Rightarrow> openai_event list option" where
  "openai_events detail sh tr [] sent has_tools = Some []"
| "openai_events detail sh tr (Inr (Content t) # is) sent has_tools =
     map_option (\<lambda>es. (if tr \<and> \<not> sent
                        then [content_chunk (trace_header @ bar @ '' (no tool calls)'' @ nl @ trace_footer)] else [])
                       @ content_chunk t # es)
       (openai_events detail sh tr is (sent \<or> tr) has_tools)"
| "openai_events detail sh tr (Inr (ToolCallStart name i arguments) # is) sent has_tools =
     (if tr
      then Option.bind (detail name arguments)
        (\<lambda>d. map_option (\<lambda>es. (if sent then [] else [content_chunk trace_header])
                               @ content_chunk (bar @ '' '' @ trace_call name d) # es)
              (openai_events detail sh tr is True True))
      else openai_events detail sh tr is sent True)"
| "openai_events detail sh tr (Inr (ToolCallEnd name i out) # is) sent has_tools =
     (if tr
      then map_option (Cons (content_chunk ('' -> '' @ trace_status out @ nl))) (openai_events detail sh tr is sent has_tools)
      else openai_events detail sh tr is sent has_tools)"
| "openai_events detail sh tr (Inr Done # is) sent has_tools =
     Some (if tr \<and> sent \<and> has_tools then [content_chunk trace_footer] else [])"
| "openai_events detail sh tr (Inl e # is) sent has_tools = Some [OError (sh e)]"
| "openai_events detail sh tr (Inr (ApprovalRequiredEv name i arguments) # is) sent has_tools =
     openai_events detail sh tr is sent has_tools"

definition handle_stream ::
  "'w http_env \<Rightarrow> (string \<Rightarrow> string \<Rightarrow> string option option) \<Rightarrow> ws_outcome \<Rightarrow> nat \<Rightarrow> string \<Rightarrow> bool \<Rightarrow> string \<Rightarrow> 'w app_state
   \<Rightarrow> (openai_event list \<times> 'w app_state) option" where
  "handle_stream env detail ws a msg trace_enabled sid st =
     (if ws \<noteq> WsHeld then Some ([OError ''Lock error''], st)
      else Option.bind (stream_run msg a st)
        (\<lambda>(r, st1).
           map_option (\<lambda>es. (role_chunk # es @ [stop_chunk (ag_usage (la_agent (as_agents st1 ! a))), OEnd], mark_session sid st1))
             (case r of
                Inl e \<Rightarrow> Some [OError (hv_show env e)]
              | Inr items \<Rightarrow> openai_events detail (hv_show env) trace_enabled items False False)))"

datatype openai_reply = Answer "openai_response reply" | Events "openai_event list"

definition chat_completions ::
  "'w http_env \<Rightarrow> (string \<Rightarrow> bool) \<Rightarrow> (string \<Rightarrow> string \<Rightarrow> string option option) \<Rightarrow> nat \<Rightarrow> ws_outcome \<Rightarrow> string option option
   \<Rightarrow> proxy_request \<Rightarrow> 'w app_state \<Rightarrow> (openai_reply \<times> 'w app_state) option" where
  "chat_completions env uni detail now ws authorization q st =
     (let (msg, trace_enabled) = proxy_message (oq_messages q);
          sid = openai_session_id uni (oq_user q) authorization
      in case openai_find_agent env now sid st of
           (Inl (code, e), st1) \<Rightarrow> Some (Answer (AppError code e), st1)
         | (Inr a, st1) \<Rightarrow>
             if oq_stream q
             then map_option (\<lambda>(es, st2). (Events es, st2)) (handle_stream env detail ws a msg trace_enabled sid st1)
             else map_option (\<lambda>(r, st2). (Answer r, st2)) (handle_non_stream env detail ws a msg trace_enabled sid st1))"

subsection \<open>What both answers say\<close>

fun event_text :: "openai_event \<Rightarrow> string" where
  "event_text (OChunk c) = unwrap_or (oc_content c) []"
| "event_text (OError e) = []"
| "event_text OEnd = []"

definition streamed_text :: "openai_event list \<Rightarrow> string" where
  "streamed_text es = concat (map event_text es)"

lemma streamed_text_simps [simp]:
  "streamed_text [] = []" "streamed_text (e # es) = event_text e @ streamed_text es"
  "streamed_text (es @ es') = streamed_text es @ streamed_text es'"
  "event_text (content_chunk t) = t"
  by (simp_all add: streamed_text_def content_chunk_def)

text \<open>A command too long to be shown whole whose 57th byte is inside a code point.\<close>

definition cuts_code_point :: "(string \<Rightarrow> json option) \<Rightarrow> string \<Rightarrow> bool" where
  "cuts_code_point parse arguments \<longleftrightarrow>
     (\<exists>args s. parse arguments = Some args \<and> jget args ''command'' = Some (JStr s)
       \<and> 60 < length s \<and> slice_to 57 s = None)"

lemma extract_tool_detail_panics:
  "extract_tool_detail parse name arguments = None \<longleftrightarrow> name = ''bash'' \<and> cuts_code_point parse arguments"
proof (cases "parse arguments")
  case (Some args)
  have as_str_iff: "as_str j = Some s \<longleftrightarrow> j = JStr s" for j s by (cases j) auto
  show ?thesis
  proof (cases "jget args ''command''")
    case None
    with Some show ?thesis by (simp add: extract_tool_detail_def cuts_code_point_def)
  next
    case c: (Some j)
    show ?thesis
    proof (cases "as_str j")
      case None
      with Some c as_str_iff [of j] show ?thesis by (simp add: extract_tool_detail_def cuts_code_point_def) 
    next
      case (Some s)
      with \<open>parse arguments = Some args\<close> c as_str_iff [of j s] show ?thesis
        by (auto simp: extract_tool_detail_def cuts_code_point_def)
    qed
  qed
qed (simp add: extract_tool_detail_def cuts_code_point_def)

lemma openai_agrees_from:
  assumes "list_all (\<lambda>i. \<not> isl i) items"
  shows "\<exists>es. openai_events (extract_tool_detail parse) sh False items sent has_tools = Some es
    \<and> list_all (\<lambda>e. \<forall>t. e \<noteq> OError t) es
    \<and> (case collect_events (extract_tool_detail parse) items traces final of
         Some (ts, t) \<Rightarrow> t = final @ streamed_text es
       | None \<Rightarrow> \<exists>i arguments. Inr (ToolCallStart ''bash'' i arguments) \<in> set items \<and> cuts_code_point parse arguments)"
  using assms
proof (induction items arbitrary: traces final sent has_tools)
  case (Cons item items)
  let ?d = "extract_tool_detail parse"
  from Cons have rest: "\<exists>es. openai_events ?d sh False items sent has_tools = Some es
      \<and> list_all (\<lambda>e. \<forall>t. e \<noteq> OError t) es
      \<and> (case collect_events ?d items traces final of
           Some (ts, t) \<Rightarrow> t = final @ streamed_text es
         | None \<Rightarrow> \<exists>i arguments. Inr (ToolCallStart ''bash'' i arguments) \<in> set items \<and> cuts_code_point parse arguments)"
    for traces final sent has_tools by simp
  from Cons.prems obtain ev where item: "item = Inr ev" by (cases item) auto
  show ?case
  proof (cases ev)
    case (Content t)
    obtain es where "openai_events ?d sh False items sent has_tools = Some es"
      "list_all (\<lambda>e. \<forall>t. e \<noteq> OError t) es"
      "case collect_events ?d items traces (final @ t) of
         Some (ts, u) \<Rightarrow> u = (final @ t) @ streamed_text es
       | None \<Rightarrow> \<exists>i arguments. Inr (ToolCallStart ''bash'' i arguments) \<in> set items \<and> cuts_code_point parse arguments"
      using rest [where sent = sent and has_tools = has_tools and traces = traces and final = "final @ t"] by blast
    then show ?thesis
      by (simp add: item Content) (auto simp: content_chunk_def split: option.splits)
  next
    case (ToolCallStart name i arguments)
    show ?thesis
    proof (cases "?d name arguments")
      case None
      then have "name = ''bash''" "cuts_code_point parse arguments" by (simp_all add: extract_tool_detail_panics)
      with None rest [where sent = sent and has_tools = True and traces = traces and final = final] show ?thesis by (auto simp: item ToolCallStart)
    next
      case (Some d)
      with rest [where sent = sent and has_tools = True and traces = "traces @ [trace_call name d]" and final = final] show ?thesis
        by (auto simp: item ToolCallStart split: option.splits)
    qed
  next
    case (ToolCallEnd name i out)
    let ?ts = "if traces = [] then [] else butlast traces @ [last traces @ '' -> '' @ trace_status out]"
    obtain es where es: "openai_events ?d sh False items sent has_tools = Some es"
      "list_all (\<lambda>e. \<forall>t. e \<noteq> OError t) es"
      "case collect_events ?d items ?ts final of
         Some (ts, u) \<Rightarrow> u = final @ streamed_text es
       | None \<Rightarrow> \<exists>i arguments. Inr (ToolCallStart ''bash'' i arguments) \<in> set items \<and> cuts_code_point parse arguments"
      using rest [where sent = sent and has_tools = has_tools and traces = ?ts and final = final] by blast
    have "collect_events ?d (item # items) traces final = collect_events ?d items ?ts final"
      and "openai_events ?d sh False (item # items) sent has_tools = openai_events ?d sh False items sent has_tools"
      by (simp_all only: item ToolCallEnd collect_events.simps openai_events.simps if_False)
    with es show ?thesis by (auto simp only: list.set option.split option.case split: option.splits)
  next
    case (ApprovalRequiredEv name i arguments)
    with rest [where sent = sent and has_tools = has_tools and traces = traces and final = final] show ?thesis by (auto simp: item split: option.splits)
  qed (simp add: item)
qed simp

text \<open>C32: Without a trace, and when no error is among the events of the agent, a stream always comes to its
  end, tells of no error, and delivers the text of the single answer: its chunks put together are the
  content of that answer. The single answer may be missing all the same, since its loop describes every call
  although no trace is wanted: it panics, and only then, on a call of \<open>bash\<close> whose command is longer than
  60 bytes and has its 57th byte inside a code point.\<close>

theorem openai_stream_agrees:
  assumes "list_all (\<lambda>i. \<not> isl i) items"
  shows "\<exists>es. openai_events (extract_tool_detail parse) sh False items False False = Some es
    \<and> list_all (\<lambda>e. \<forall>t. e \<noteq> OError t) es
    \<and> (case collect_events (extract_tool_detail parse) items [] [] of
         Some (traces, final) \<Rightarrow> streamed_text es = response_text False traces final
       | None \<Rightarrow> \<exists>i arguments. Inr (ToolCallStart ''bash'' i arguments) \<in> set items \<and> cuts_code_point parse arguments)"
  using openai_agrees_from [OF assms, where parse = parse and sh = sh and sent = False and has_tools = False and traces = "[]" and final = "[]"]
  by (auto simp: response_text_def split: option.splits)

text \<open>One turn whose call can be described, and one whose command is made of letters of two bytes.\<close>

definition long_command :: string where
  "long_command = concat (replicate 31 [CHR 0xC3, CHR 0xA9])"

definition sample_args :: "string \<Rightarrow> json option" where
  "sample_args = map_of [(''short'', JObj [''command'' \<mapsto> JStr ''date'']), (''long'', JObj [''command'' \<mapsto> JStr long_command])]"

definition sample_items :: "string \<Rightarrow> stream_item list" where
  "sample_items arguments =
     [Inr (Content ''a''), Inr (ToolCallStart ''bash'' ''1'' arguments), Inr (ToolCallEnd ''bash'' ''1'' ''now''),
      Inr (Content ''b''), Inr Done]"

theorem openai_stream_agrees_witness:
  "(\<exists>es traces final. openai_events (extract_tool_detail sample_args) (\<lambda>e. []) False (sample_items ''short'') False False = Some es
     \<and> collect_events (extract_tool_detail sample_args) (sample_items ''short'') [] [] = Some (traces, final)
     \<and> streamed_text es = response_text False traces final)
   \<and> (\<exists>es. openai_events (extract_tool_detail sample_args) (\<lambda>e. []) False (sample_items ''long'') False False = Some es)
   \<and> collect_events (extract_tool_detail sample_args) (sample_items ''long'') [] [] = None"
proof -
  have ok: "list_all (\<lambda>i. \<not> isl i) (sample_items a)" for a by (simp add: sample_items_def)
  have "extract_tool_detail sample_args ''bash'' ''short'' \<noteq> None"
    by (simp add: extract_tool_detail_def sample_args_def)
  then obtain d where d: "extract_tool_detail sample_args ''bash'' ''short'' = Some d" by blast
  obtain es where "openai_events (extract_tool_detail sample_args) (\<lambda>e. []) False (sample_items ''short'') False False = Some es"
    "case collect_events (extract_tool_detail sample_args) (sample_items ''short'') [] [] of
       Some (traces, final) \<Rightarrow> streamed_text es = response_text False traces final
     | None \<Rightarrow> \<exists>i arguments. Inr (ToolCallStart ''bash'' i arguments) \<in> set (sample_items ''short'')
         \<and> cuts_code_point sample_args arguments"
    using openai_stream_agrees [OF ok, of sample_args "\<lambda>e. []" "''short''"] by blast
  moreover have "collect_events (extract_tool_detail sample_args) (sample_items ''short'') [] [] \<noteq> None"
    by (simp add: sample_items_def d)
  moreover have "slice_to 57 long_command = None" and "60 < length long_command"
    by code_simp+
  then have "cuts_code_point sample_args ''long''"
    by (simp add: cuts_code_point_def sample_args_def)
  then have "extract_tool_detail sample_args ''bash'' ''long'' = None"
    unfolding extract_tool_detail_panics by simp
  then have "collect_events (extract_tool_detail sample_args) (sample_items ''long'') [] [] = None"
    by (simp add: sample_items_def)
  moreover have "\<exists>es. openai_events (extract_tool_detail sample_args) (\<lambda>e. []) False (sample_items ''long'') False False = Some es"
    using openai_stream_agrees [OF ok, of sample_args "\<lambda>e. []" "''long''"] by blast
  ultimately show ?thesis by (auto split: option.splits)
qed

text \<open>A single answer does not tell that the agent failed or waits for an approval: with or without the error or the
  request among the events it is the same complete answer.\<close>

theorem openai_hides_errors:
  "collect_events detail (before @ Inl e # after) traces final = collect_events detail (before @ after) traces final
   \<and> collect_events detail (before @ Inr (ApprovalRequiredEv name i arguments) # after) traces final
     = collect_events detail (before @ after) traces final"
  by (induction detail before traces final rule: collect_events.induct) (auto cong: Option.bind_cong)

text \<open>The user of a request is taken at its word: naming the first twenty letters and digits of a token gives the
  session of that token, whatever the own authorization.\<close>

theorem openai_session_shared:
  "openai_session_id uni (Some (concat (take 20 (filter (is_alphanumeric uni) (chars token))))) authorization
     = openai_session_id uni None (Some (Some (''Bearer '' @ token)))"
  unfolding openai_session_id_def by (simp only: strip_prefix_append option.case)

text \<open>The limit of the HTTP handlers does not hold for this one: every new identifier stays.\<close>

lemma openai_find_agent_keeps:
  assumes "\<forall>w. is_ok (fst (start_session env w))"
  shows "insert sid (dom (map_of (as_sessions st))) \<subseteq> dom (map_of (as_sessions (snd (openai_find_agent env now sid st))))"
proof -
  obtain r w where "start_session env (as_world st) = (r, w)" by (metis surj_pair)
  moreover from this obtain la where "r = Inr la" using assms by (metis fst_conv is_ok_iff)
  ultimately show ?thesis
    by (auto simp: openai_find_agent_def map_of_update_slot Let_def split: option.splits)
qed

lemma openai_find_agents_keep:
  assumes "\<forall>w. is_ok (fst (start_session env w))"
  shows "dom (map_of (as_sessions st)) \<subseteq> dom (map_of (as_sessions (fold (\<lambda>sid st. snd (openai_find_agent env now sid st)) ids st)))"
proof (induction ids arbitrary: st)
  case (Cons sid ids)
  have "dom (map_of (as_sessions st)) \<subseteq> dom (map_of (as_sessions (snd (openai_find_agent env now sid st))))"
    using openai_find_agent_keeps [OF assms] by blast
  also note Cons.IH
  finally show ?case by simp
qed simp

theorem openai_sessions_unbounded:
  assumes "\<forall>w. is_ok (fst (start_session env w))"
  shows "set ids \<subseteq> dom (map_of (as_sessions (fold (\<lambda>sid st. snd (openai_find_agent env now sid st)) ids st)))"
proof (induction ids arbitrary: st)
  case (Cons sid ids)
  have "sid \<in> dom (map_of (as_sessions (snd (openai_find_agent env now sid st))))"
    using openai_find_agent_keeps [OF assms] by blast
  then have "sid \<in> dom (map_of (as_sessions (fold (\<lambda>sid st. snd (openai_find_agent env now sid st)) (sid # ids) st)))"
    using openai_find_agents_keep [OF assms] unfolding fold_simps by blast
  with Cons.IH show ?case by simp
qed simp

end
