(* ===== verification/Server_Locks.thy ===== *)
theory Server_Locks
  imports Turn_Locks
begin

text \<open>
  The mutexes of the server: the one of the map of sessions and one for each agent, besides the gate and the lock of
  a turn (\<open>Turn_Locks\<close>). A handler of \<^verbatim>\<open>src/src/server/http.rs\<close> or \<^verbatim>\<open>src/src/server/openai.rs\<close> is the sequence in which
  it takes and drops them, on the path on which it takes most; guards that are not dropped explicitly go at the end,
  the last one first. Waiting for the lock of the workspace may fail, and then the handler ends and drops what it
  holds.
\<close>

subsection \<open>Handlers as sequences\<close>

datatype mutex = Gate | Workspace | Sessions | AgentAt nat

datatype lock_op = Take mutex | Drop mutex

definition turn_start :: "lock_op list" where
  "turn_start = [Take Gate, Take Workspace, Take Sessions, Drop Sessions]"

definition create_locks :: "lock_op list" where
  "create_locks = [Take Sessions, Drop Sessions]"

text \<open>\<open>approve_tool\<close>: the guard of the agent lives to the end, past \<open>handle_chat_result\<close>.\<close>

definition approve_locks :: "nat \<Rightarrow> lock_op list" where
  "approve_locks a = turn_start @ [Take (AgentAt a), Drop Workspace, Take Sessions, Drop Sessions, Drop (AgentAt a), Drop Gate]"

definition chat_locks :: "nat \<Rightarrow> lock_op list" where
  "chat_locks a = create_locks @ approve_locks a"

text \<open>\<open>get_session_status\<close>, \<open>get_session_messages\<close>, \<open>compact_session\<close>, \<open>clear_session\<close> and \<open>set_session_model\<close> wait for the
  agent while they hold the map; \<open>save_dirty_sessions\<close> does so for one agent after the other.\<close>

definition manage_locks :: "nat \<Rightarrow> lock_op list" where
  "manage_locks a = [Take Sessions, Take (AgentAt a), Drop (AgentAt a), Drop Sessions]"

definition save_locks :: "nat list \<Rightarrow> lock_op list" where
  "save_locks as = Take Sessions # concat (map (\<lambda>a. [Take (AgentAt a), Drop (AgentAt a)]) as) @ [Drop Sessions]"

definition stream_locks :: "nat \<Rightarrow> lock_op list" where
  "stream_locks a = create_locks @ turn_start @ [Take (AgentAt a), Drop (AgentAt a), Drop Workspace, Drop Gate]"

definition openai_locks :: "nat \<Rightarrow> lock_op list" where
  "openai_locks a = create_locks @ [Take Gate, Take Workspace, Take (AgentAt a), Drop (AgentAt a),
     Take Sessions, Drop Sessions, Drop Workspace, Drop Gate]"

lemmas handler_locks = create_locks_def approve_locks_def chat_locks_def turn_start_def manage_locks_def save_locks_def
  stream_locks_def openai_locks_def

subsection \<open>The system\<close>

record lock_system =
  ls_held :: "mutex \<Rightarrow> nat option"
  ls_tasks :: "nat \<Rightarrow> lock_op list option"

definition no_tasks :: lock_system where
  "no_tasks = \<lparr>ls_held = Map.empty, ls_tasks = Map.empty\<rparr>"

inductive lock_step :: "nat \<Rightarrow> lock_system \<Rightarrow> lock_system \<Rightarrow> bool" for t where
  take: "ls_tasks sy t = Some (Take l # ps) \<Longrightarrow> ls_held sy l = None \<Longrightarrow>
    lock_step t sy \<lparr>ls_held = (ls_held sy)(l \<mapsto> t), ls_tasks = (ls_tasks sy)(t \<mapsto> ps)\<rparr>"
| drop: "ls_tasks sy t = Some (Drop l # ps) \<Longrightarrow> ls_held sy l = Some t \<Longrightarrow>
    lock_step t sy \<lparr>ls_held = (ls_held sy)(l := None), ls_tasks = (ls_tasks sy)(t \<mapsto> ps)\<rparr>"
| over: "ls_tasks sy t = Some [] \<Longrightarrow> lock_step t sy (sy\<lparr>ls_tasks := (ls_tasks sy)(t := None)\<rparr>)"
| no_workspace: "ls_tasks sy t = Some (Take Workspace # ps) \<Longrightarrow>
    lock_step t sy \<lparr>ls_held = (\<lambda>l. if ls_held sy l = Some t then None else ls_held sy l),
      ls_tasks = (ls_tasks sy)(t := None)\<rparr>"

inductive_cases lock_stepE: "lock_step t sy sy'"

text \<open>Requests with programs from a set arrive and go on, in any order.\<close>

inductive locks_reachable :: "lock_op list set \<Rightarrow> lock_system \<Rightarrow> bool" for P where
  init: "locks_reachable P no_tasks"
| arrive: "locks_reachable P sy \<Longrightarrow> ls_tasks sy t = None \<Longrightarrow> p \<in> P \<Longrightarrow>
    locks_reachable P (sy\<lparr>ls_tasks := (ls_tasks sy)(t \<mapsto> p)\<rparr>)"
| go_on: "locks_reachable P sy \<Longrightarrow> lock_step t sy sy' \<Longrightarrow> locks_reachable P sy'"

text \<open>Everything that may happen after a state, whatever requests arrive.\<close>

inductive_set futures :: "lock_system \<Rightarrow> lock_system set" for sy where
  now: "sy \<in> futures sy"
| arrive: "sy1 \<in> futures sy \<Longrightarrow> ls_tasks sy1 t = None \<Longrightarrow> sy1\<lparr>ls_tasks := (ls_tasks sy1)(t \<mapsto> p)\<rparr> \<in> futures sy"
| go_on: "sy1 \<in> futures sy \<Longrightarrow> lock_step t sy1 sy2 \<Longrightarrow> sy2 \<in> futures sy"

subsection \<open>Locks taken in order\<close>

fun takes_in_order :: "(mutex \<Rightarrow> nat) \<Rightarrow> mutex set \<Rightarrow> lock_op list \<Rightarrow> bool" where
  "takes_in_order rank H [] = (H = {})"
| "takes_in_order rank H (Take l # ps) = ((\<forall>h \<in> H. rank h < rank l) \<and> takes_in_order rank (insert l H) ps)"
| "takes_in_order rank H (Drop l # ps) = (l \<in> H \<and> takes_in_order rank (H - {l}) ps)"

definition locks_of :: "nat \<Rightarrow> lock_system \<Rightarrow> mutex set" where
  "locks_of t sy = {l. ls_held sy l = Some t}"

definition locks_ok :: "(mutex \<Rightarrow> nat) \<Rightarrow> lock_system \<Rightarrow> bool" where
  "locks_ok rank sy \<longleftrightarrow> finite (dom (ls_tasks sy))
     \<and> (\<forall>t ps. ls_tasks sy t = Some ps \<longrightarrow> takes_in_order rank (locks_of t sy) ps)
     \<and> (\<forall>t. ls_tasks sy t = None \<longrightarrow> locks_of t sy = {})"

lemma locks_okD:
  assumes "locks_ok rank sy"
  shows "finite (dom (ls_tasks sy))" "ls_tasks sy t = Some ps \<Longrightarrow> takes_in_order rank (locks_of t sy) ps"
    "ls_tasks sy t = None \<Longrightarrow> locks_of t sy = {}"
  using assms by (simp_all add: locks_ok_def)

text \<open>A state in which one task has changed is in order if that task is.\<close>

lemma locks_ok_change:
  assumes "locks_ok rank sy" and "ls_tasks sy' = (ls_tasks sy)(t := p)"
    and "\<And>u. u \<noteq> t \<Longrightarrow> locks_of u sy' = locks_of u sy"
    and "case p of Some ps \<Rightarrow> takes_in_order rank (locks_of t sy') ps | None \<Rightarrow> locks_of t sy' = {}"
  shows "locks_ok rank sy'"
proof -
  have "finite (dom (ls_tasks sy'))"
    using locks_okD(1) [OF assms(1)] assms(2) by (cases p) simp_all
  moreover have "takes_in_order rank (locks_of u sy') ps" if "ls_tasks sy' u = Some ps" for u ps
    using that assms(2-4) locks_okD(2) [OF assms(1), of u ps] by (cases "u = t") auto
  moreover have "locks_of u sy' = {}" if "ls_tasks sy' u = None" for u
    using that assms(2-4) locks_okD(3) [OF assms(1), of u] by (cases "u = t") auto
  ultimately show ?thesis by (simp add: locks_ok_def)
qed

definition locks_load :: "lock_system \<Rightarrow> nat" where
  "locks_load sy = (\<Sum>t \<in> dom (ls_tasks sy). Suc (length (the (ls_tasks sy t))))"

locale ordered_locks =
  fixes rank :: "mutex \<Rightarrow> nat" and P :: "lock_op list set"
  assumes ordered: "p \<in> P \<Longrightarrow> takes_in_order rank {} p"
begin

lemma locks_ok_step:
  assumes "lock_step t sy sy'" and ok: "locks_ok rank sy"
  shows "locks_ok rank sy'"
  using assms(1)
proof (cases rule: lock_step.cases)
  case (take l ps)
  then have "locks_of u sy' = (if u = t then insert l (locks_of t sy) else locks_of u sy)" for u
    by (auto simp: locks_of_def)
  with locks_okD(2) [OF ok take(2)] show ?thesis
    by (intro locks_ok_change [OF ok, of sy' t "Some ps"]) (simp_all add: take(1))
next
  case (drop l ps)
  note t = locks_okD(2) [OF ok drop(2)]
  have "locks_of u sy' = (if u = t then locks_of t sy - {l} else locks_of u sy)" for u
    using drop by (auto simp: locks_of_def)
  with t show ?thesis
    by (intro locks_ok_change [OF ok, of sy' t "Some ps"]) (simp_all add: drop(1))
next
  case over
  then have "locks_of u sy' = locks_of u sy" for u by (simp add: locks_of_def)
  with locks_okD(2) [OF ok over(2)] show ?thesis
    by (intro locks_ok_change [OF ok, of sy' t None]) (simp_all add: over(1))
next
  case (no_workspace ps)
  then have "locks_of u sy' = (if u = t then {} else locks_of u sy)" for u by (auto simp: locks_of_def)
  then show ?thesis
    by (intro locks_ok_change [OF ok, of sy' t None]) (simp_all add: no_workspace(1))
qed

lemma locks_ok_reachable: "locks_reachable P sy \<Longrightarrow> locks_ok rank sy"
proof (induction rule: locks_reachable.induct)
  case init
  show ?case by (simp add: locks_ok_def no_tasks_def locks_of_def)
next
  case (arrive sy t p)
  have "locks_of u (sy\<lparr>ls_tasks := (ls_tasks sy)(t \<mapsto> p)\<rparr>) = locks_of u sy" for u by (simp add: locks_of_def)
  with arrive ordered locks_okD(3) [OF arrive.IH arrive.hyps(2)] show ?case
    by (intro locks_ok_change [OF arrive.IH, of _ t "Some p"]) simp_all
qed (rule locks_ok_step)

lemma some_task_goes_on:
  assumes "locks_reachable P sy" and "ls_tasks sy t0 \<noteq> None"
  shows "\<exists>t sy'. lock_step t sy sy'"
proof (rule ccontr)
  assume stuck: "\<not> (\<exists>t sy'. lock_step t sy sy')"
  have ok: "locks_ok rank sy" using assms(1) by (rule locks_ok_reachable)
  have waits: "\<exists>l ps u. ls_tasks sy t = Some (Take l # ps) \<and> ls_held sy l = Some u" if "t \<in> dom (ls_tasks sy)" for t
  proof -
    from that obtain ps where ps: "ls_tasks sy t = Some ps" by blast
    show ?thesis
    proof (cases ps)
      case Nil
      with ps lock_step.over stuck show ?thesis by blast
    next
      case (Cons x xs)
      have "takes_in_order rank (locks_of t sy) (x # xs)" using ok ps Cons by (simp add: locks_okD(2))
      then have "ls_held sy l = Some t" if "x = Drop l" for l using that by (simp add: locks_of_def)
      with Cons ps lock_step.take [of sy t _ xs] lock_step.drop [of sy t _ xs] stuck show ?thesis
        by (cases x) blast+
    qed
  qed
  define wanted where "wanted t = rank (case the (ls_tasks sy t) of Take l # ps \<Rightarrow> l | _ \<Rightarrow> Gate)" for t
  have fin: "finite (dom (ls_tasks sy))" using ok by (simp add: locks_ok_def)
  have "dom (ls_tasks sy) \<noteq> {}" using assms(2) by blast
  then obtain t where t: "t \<in> dom (ls_tasks sy)" and most: "\<And>u. u \<in> dom (ls_tasks sy) \<Longrightarrow> wanted u \<le> wanted t"
    using Max_in [of "wanted ` dom (ls_tasks sy)"] Max_ge [of "wanted ` dom (ls_tasks sy)"] fin
    by (metis (no_types, lifting) finite_imageI image_iff image_is_empty)
  from waits [OF t] obtain l ps u where l: "ls_tasks sy t = Some (Take l # ps)" "ls_held sy l = Some u" by blast
  then have lu: "l \<in> locks_of u sy" by (simp add: locks_of_def)
  then have "u \<in> dom (ls_tasks sy)" using locks_okD(3) [OF ok, of u] by auto
  with waits obtain l' ps' where l': "ls_tasks sy u = Some (Take l' # ps')" by blast
  then have "takes_in_order rank (locks_of u sy) (Take l' # ps')"
    by (rule locks_okD(2) [OF ok])
  with lu have "rank l < rank l'" by simp
  with l l' most [OF \<open>u \<in> dom (ls_tasks sy)\<close>] show False by (simp add: wanted_def)
qed

lemma step_lowers_load:
  assumes "locks_reachable P sy" and "lock_step t sy sy'"
  shows "locks_load sy' < locks_load sy"
proof -
  have fin: "finite (dom (ls_tasks sy))" using locks_ok_reachable [OF assms(1)] by (simp add: locks_ok_def)
  from assms(2) obtain ps where ps: "ls_tasks sy t = Some ps" by (auto elim: lock_stepE)
  have old: "locks_load sy = Suc (length ps) + (\<Sum>u \<in> dom (ls_tasks sy) - {t}. Suc (length (the (ls_tasks sy u))))"
    unfolding locks_load_def using fin ps by (subst sum.remove [of _ t]) auto
  have "ls_tasks sy' = (ls_tasks sy)(t := None) \<or> (\<exists>qs. ls_tasks sy' = (ls_tasks sy)(t \<mapsto> qs) \<and> length qs < length ps)"
    using assms(2) ps by cases auto
  then show ?thesis
  proof
    assume "ls_tasks sy' = (ls_tasks sy)(t := None)"
    then show ?thesis unfolding old by (simp add: locks_load_def)
  next
    assume "\<exists>qs. ls_tasks sy' = (ls_tasks sy)(t \<mapsto> qs) \<and> length qs < length ps"
    then obtain qs where qs: "ls_tasks sy' = (ls_tasks sy)(t \<mapsto> qs)" "length qs < length ps" by blast
    have "locks_load sy' = Suc (length qs) + (\<Sum>u \<in> dom (ls_tasks sy) - {t}. Suc (length (the (ls_tasks sy' u))))"
      unfolding locks_load_def using fin qs(1) by (subst sum.remove [of _ t]) auto
    also have "\<dots> = Suc (length qs) + (\<Sum>u \<in> dom (ls_tasks sy) - {t}. Suc (length (the (ls_tasks sy u))))"
      by (simp add: qs(1))
    finally show ?thesis unfolding old using qs(2) by simp
  qed
qed

end

subsection \<open>The handlers\<close>

fun mutex_rank :: "mutex \<Rightarrow> nat" where
  "mutex_rank Gate = 0"
| "mutex_rank Workspace = 1"
| "mutex_rank Sessions = 2"
| "mutex_rank (AgentAt a) = 3"

text \<open>All handlers but \<open>chat\<close> and \<open>approve_tool\<close>.\<close>

definition orderly_handlers :: "lock_op list set" where
  "orderly_handlers = {create_locks} \<union> range manage_locks \<union> range save_locks \<union> range stream_locks \<union> range openai_locks"

lemma save_locks_in_order:
  "takes_in_order mutex_rank {Sessions} (concat (map (\<lambda>a. [Take (AgentAt a), Drop (AgentAt a)]) as) @ [Drop Sessions])"
  by (induction as) simp_all

interpretation orderly: ordered_locks mutex_rank orderly_handlers
proof
  fix p assume "p \<in> orderly_handlers"
  then show "takes_in_order mutex_rank {} p"
    by (auto simp: orderly_handlers_def handler_locks save_locks_in_order)
qed

text \<open>C12: The handlers that stream, manage and save never block each other for good: whatever requests arrive, as long as
  one is there some request can go on, and every step brings the end of all of them nearer.\<close>

theorem orderly_handlers_finish:
  assumes "locks_reachable orderly_handlers sy" and "ls_tasks sy t \<noteq> None"
  shows "(\<exists>u sy'. lock_step u sy sy') \<and> {locks_load sy' | u sy'. lock_step u sy sy'} \<subseteq> {..<locks_load sy}"
  using orderly.some_task_goes_on [OF assms] orderly.step_lowers_load [OF assms(1)] by auto

theorem orderly_handlers_finish_witness:
  "\<exists>u sy'. lock_step u (no_tasks\<lparr>ls_tasks := (ls_tasks no_tasks)(0 \<mapsto> manage_locks 7)\<rparr>) sy'"
proof -
  have "ls_tasks no_tasks 0 = None" and "manage_locks 7 \<in> orderly_handlers" by (simp_all add: no_tasks_def orderly_handlers_def)
  from locks_reachable.arrive [OF locks_reachable.init this]
  show ?thesis by (rule conjunct1 [OF orderly_handlers_finish [where t = 0]]) simp
qed

text \<open>A step of a task as a function, and a run of several tasks.\<close>

definition task_step :: "nat \<Rightarrow> lock_system \<Rightarrow> lock_system option" where
  "task_step t sy =
     (case ls_tasks sy t of
        Some (Take l # ps) \<Rightarrow>
          if ls_held sy l = None then Some \<lparr>ls_held = (ls_held sy)(l \<mapsto> t), ls_tasks = (ls_tasks sy)(t \<mapsto> ps)\<rparr> else None
      | Some (Drop l # ps) \<Rightarrow>
          if ls_held sy l = Some t then Some \<lparr>ls_held = (ls_held sy)(l := None), ls_tasks = (ls_tasks sy)(t \<mapsto> ps)\<rparr>
          else None
      | _ \<Rightarrow> None)"

fun run_tasks :: "nat list \<Rightarrow> lock_system \<Rightarrow> lock_system option" where
  "run_tasks [] sy = Some sy"
| "run_tasks (t # ts) sy = Option.bind (task_step t sy) (run_tasks ts)"

lemma task_step_step: "task_step t sy = Some sy' \<Longrightarrow> lock_step t sy sy'"
  by (auto simp: task_step_def intro: lock_step.intros split: option.splits list.splits lock_op.splits if_splits)

lemma run_tasks_reachable:
  "run_tasks ts sy = Some sy' \<Longrightarrow> locks_reachable P sy \<Longrightarrow> locks_reachable P sy'"
  by (induction ts arbitrary: sy) (auto split: Option.bind_splits dest: task_step_step intro: locks_reachable.go_on)

definition chat_and_status :: "nat \<Rightarrow> lock_system" where
  "chat_and_status a = \<lparr>ls_held = Map.empty, ls_tasks = [0 \<mapsto> chat_locks a, 1 \<mapsto> manage_locks a]\<rparr>"

definition stuck_pair :: "nat \<Rightarrow> lock_system \<Rightarrow> bool" where
  "stuck_pair a sy \<longleftrightarrow> ls_held sy Gate = Some 0 \<and> ls_held sy (AgentAt a) = Some 0 \<and> ls_held sy Sessions = Some 1
     \<and> ls_tasks sy 0 = Some [Take Sessions, Drop Sessions, Drop (AgentAt a), Drop Gate]
     \<and> ls_tasks sy 1 = Some [Take (AgentAt a), Drop (AgentAt a), Drop Sessions]"

lemma chat_and_status_runs:
  "\<exists>sy. run_tasks [0, 0, 0, 0, 0, 0, 0, 1, 0] (chat_and_status a) = Some sy \<and> stuck_pair a sy"
  by (simp add: chat_and_status_def task_step_def handler_locks stuck_pair_def)

lemma chat_and_status_reachable: "locks_reachable {chat_locks a, manage_locks a} (chat_and_status a)"
proof -
  let ?P = "{chat_locks a, manage_locks a}"
  have "locks_reachable ?P (no_tasks\<lparr>ls_tasks := (ls_tasks no_tasks)(0 \<mapsto> chat_locks a)\<rparr>)" (is "locks_reachable ?P ?sy")
    by (rule locks_reachable.arrive [OF locks_reachable.init]) (simp_all add: no_tasks_def)
  then have "locks_reachable ?P (?sy\<lparr>ls_tasks := (ls_tasks ?sy)(1 \<mapsto> manage_locks a)\<rparr>)"
    by (rule locks_reachable.arrive) (simp_all add: no_tasks_def)
  then show ?thesis by (simp add: chat_and_status_def no_tasks_def)
qed

lemma stuck_pair_step: "lock_step t sy sy' \<Longrightarrow> stuck_pair a sy \<Longrightarrow> stuck_pair a sy'"
proof -
  assume st: "lock_step t sy sy'" and stuck: "stuck_pair a sy"
  have "t \<noteq> 0" by (rule notI) (use st stuck in \<open>auto simp: stuck_pair_def elim!: lock_stepE\<close>)
  moreover have "t \<noteq> 1" by (rule notI) (use st stuck in \<open>auto simp: stuck_pair_def elim!: lock_stepE\<close>)
  ultimately have "t \<noteq> 0" "t \<noteq> 1" by this+
  with st stuck show ?thesis by cases (auto simp: stuck_pair_def)
qed

text \<open>C11: A chat and a request for the status of its session can block each other for ever. The chat keeps the agent while
  it waits for the map to mark the session, the status keeps the map while it waits for the agent; they get there by
  themselves, and from then on, whatever else arrives, neither goes on, the gate stays closed for all turns and the map
  for all requests.\<close>

theorem chat_status_deadlock:
  "\<exists>sy. locks_reachable {chat_locks a, manage_locks a} sy \<and> futures sy \<subseteq> Collect (stuck_pair a)"
proof -
  obtain sy where sy: "run_tasks [0, 0, 0, 0, 0, 0, 0, 1, 0] (chat_and_status a) = Some sy" "stuck_pair a sy"
    using chat_and_status_runs by blast
  have "stuck_pair a sy'" if "sy' \<in> futures sy" for sy'
    using that
  proof induction
    case now
    show ?case by (rule sy(2))
  next
    case (arrive sy1 t p)
    then show ?case by (auto simp: stuck_pair_def)
  qed (rule stuck_pair_step)
  with run_tasks_reachable [OF sy(1) chat_and_status_reachable] show ?thesis by blast
qed

end
