(* ===== verification/Config_Schema.thy ===== *)
theory Config_Schema
  imports Complex_Main Model_Config File_Tools Ingress_Debounce "HOL-Library.Monad_Syntax"
begin

text \<open>
  The configuration file (\<^verbatim>\<open>src/src/config/mod.rs\<close>): the structs with the defaults of their fields, how they are
  read from a TOML document (\<open>de_\<close>) and written to one (\<open>ser_\<close>). The text of a document is the crate's business: a
  document is a tree \<open>toml\<close>, without the dates no field has. What \<open>serde\<close> derives is written out: a field is taken
  from its key, a field that is missing has its default if it declares one and is an error otherwise, a key that no
  field has is ignored, \<open>flatten\<close> takes the keys that are left, and an absent option is not written. \<open>None\<close> is an
  error. A float is a rational number, an infinity or no number.
\<close>

subsection \<open>Documents\<close>

datatype tfloat = Finite rat | Infinite bool | NaN

datatype toml = TBool bool | TInt int | TFloat tfloat | TStr string | TArr "toml list" | TTable "(string \<times> toml) list"

fun de_str :: "toml \<Rightarrow> string option" where
  "de_str (TStr s) = Some s" | "de_str _ = None"

fun de_bool :: "toml \<Rightarrow> bool option" where
  "de_bool (TBool b) = Some b" | "de_bool _ = None"

fun de_uint :: "toml \<Rightarrow> 'w :: len word option" where
  "de_uint (TInt n) = (if 0 \<le> n \<and> n < 2 ^ LENGTH('w) then Some (word_of_int n) else None)" | "de_uint _ = None"

fun de_usize :: "toml \<Rightarrow> nat option" where
  "de_usize (TInt n) = (if 0 \<le> n \<and> n < 2 ^ 64 then Some (nat n) else None)" | "de_usize _ = None"

fun de_int :: "toml \<Rightarrow> 'w :: len word option" where
  "de_int (TInt n) = (if - (2 ^ (LENGTH('w) - 1)) \<le> n \<and> n < 2 ^ (LENGTH('w) - 1) then Some (word_of_int n) else None)"
| "de_int _ = None"

fun de_f64 :: "toml \<Rightarrow> tfloat option" where
  "de_f64 (TFloat f) = Some f" | "de_f64 (TInt n) = Some (Finite (of_int n))" | "de_f64 _ = None"

fun de_all :: "(toml \<Rightarrow> 'a option) \<Rightarrow> toml list \<Rightarrow> 'a list option" where
  "de_all d [] = Some []"
| "de_all d (v # vs) = do { x \<leftarrow> d v; xs \<leftarrow> de_all d vs; Some (x # xs) }"

fun de_list :: "(toml \<Rightarrow> 'a option) \<Rightarrow> toml \<Rightarrow> 'a list option" where
  "de_list d (TArr vs) = de_all d vs" | "de_list d _ = None"

definition de_strs :: "toml \<Rightarrow> string list option" where
  "de_strs = de_list de_str"

fun de_entries :: "(toml \<Rightarrow> 'a option) \<Rightarrow> (string \<times> toml) list \<Rightarrow> (string \<times> 'a) list option" where
  "de_entries d [] = Some []"
| "de_entries d ((k, v) # kvs) = do { x \<leftarrow> d v; xs \<leftarrow> de_entries d kvs; Some ((k, x) # xs) }"

type_synonym table = "(string \<times> toml) list"

fun de_struct :: "(table \<Rightarrow> 'a option) \<Rightarrow> toml \<Rightarrow> 'a option" where
  "de_struct d (TTable kvs) = d kvs" | "de_struct d _ = None"

definition de_map :: "(toml \<Rightarrow> 'a option) \<Rightarrow> toml \<Rightarrow> (string \<times> 'a) list option" where
  "de_map d = de_struct (de_entries d)"

text \<open>A field without a default, one with a default, one of type \<open>Option\<close>.\<close>

definition field :: "(toml \<Rightarrow> 'a option) \<Rightarrow> string \<Rightarrow> table \<Rightarrow> 'a option" where
  "field d k t = (case map_of t k of Some v \<Rightarrow> d v | None \<Rightarrow> None)"

definition field_or :: "(toml \<Rightarrow> 'a option) \<Rightarrow> 'a \<Rightarrow> string \<Rightarrow> table \<Rightarrow> 'a option" where
  "field_or d x k t = (case map_of t k of Some v \<Rightarrow> d v | None \<Rightarrow> Some x)"

definition field_opt :: "(toml \<Rightarrow> 'a option) \<Rightarrow> string \<Rightarrow> table \<Rightarrow> 'a option option" where
  "field_opt d = field_or (map_option Some \<circ> d) None"

fun toml_json :: "(rat \<Rightarrow> u64) \<Rightarrow> toml \<Rightarrow> json" where
  "toml_json fl (TBool b) = JBool b"
| "toml_json fl (TInt n) = JInt n"
| "toml_json fl (TFloat f) = (case f of Finite q \<Rightarrow> JFloat (fl q) | _ \<Rightarrow> JNull)"
| "toml_json fl (TStr s) = JStr s"
| "toml_json fl (TArr vs) = JArr (map (toml_json fl) vs)"
| "toml_json fl (TTable kvs) = JObj (map_of (map (\<lambda>(k, v). (k, toml_json fl v)) kvs))"

text \<open>The way back. \<open>toml_fits\<close>: the writer takes integers of 64 bits with a sign only.\<close>

definition ser_uint :: "'w :: len word \<Rightarrow> toml" where "ser_uint n = TInt (uint n)"
definition ser_int :: "'w :: len word \<Rightarrow> toml" where "ser_int n = TInt (sint n)"
definition ser_list :: "('a \<Rightarrow> toml) \<Rightarrow> 'a list \<Rightarrow> toml" where "ser_list f xs = TArr (map f xs)"
definition ser_strs :: "string list \<Rightarrow> toml" where "ser_strs = ser_list TStr"
definition ser_map :: "('a \<Rightarrow> toml) \<Rightarrow> (string \<times> 'a) list \<Rightarrow> toml" where
  "ser_map f kvs = TTable (map (\<lambda>(k, x). (k, f x)) kvs)"

fun written :: "(string \<times> toml option) list \<Rightarrow> table" where
  "written [] = []"
| "written ((k, x) # t) = (case x of Some v \<Rightarrow> (k, v) # written t | None \<Rightarrow> written t)"

fun toml_fits :: "toml \<Rightarrow> bool" where
  "toml_fits (TInt n) \<longleftrightarrow> - (2 ^ 63) \<le> n \<and> n < 2 ^ 63"
| "toml_fits (TArr vs) \<longleftrightarrow> list_all toml_fits vs"
| "toml_fits (TTable kvs) \<longleftrightarrow> list_all (toml_fits \<circ> snd) kvs"
| "toml_fits v \<longleftrightarrow> True"

text \<open>Reading a field of what was written.\<close>

declare written.simps(2) [simp del]

lemma field_written [simp]:
  "field d k (written ((k', x) # t))
   = (if k = k' then case x of Some v \<Rightarrow> d v | None \<Rightarrow> field d k (written t) else field d k (written t))"
  by (simp add: field_def written.simps split: option.split)

lemma field_or_Nil [simp]: "field_or d x k [] = Some x"
  by (simp add: field_or_def)

lemma field_or_written [simp]:
  "field_or d e k (written ((k', x) # t))
   = (if k = k' then case x of Some v \<Rightarrow> d v | None \<Rightarrow> field_or d e k (written t) else field_or d e k (written t))"
  by (simp add: field_or_def written.simps split: option.split)

lemma field_opt_Nil [simp]: "field_opt d k [] = Some None"
  by (simp add: field_opt_def)

lemma field_opt_skip [simp]: "k \<noteq> k' \<Longrightarrow> field_opt d k (written ((k', x) # t)) = field_opt d k (written t)"
  by (simp add: field_opt_def)

lemma field_opt_None [simp]: "field_opt d k (written ((k, None) # t)) = field_opt d k (written t)"
  by (simp add: field_opt_def)

lemma field_opt_Some [simp]: "field_opt d k (written ((k, Some v) # t)) = map_option Some (d v)"
  by (simp add: field_opt_def)

lemma field_opt_written [simp]:
  "(\<And>v. d (f v) = Some v) \<Longrightarrow> field_opt d k (written t) = Some None
   \<Longrightarrow> field_opt d k (written ((k, map_option f y) # t)) = Some y"
  by (cases y) (simp_all add: field_opt_def)

lemma de_ser_uint [simp]: "de_uint (ser_uint n) = Some n"
  using unsigned_less [of n] by (simp add: ser_uint_def)

lemma de_ser_int [simp]: "de_int (ser_int n) = Some n"
  using sint_greater_eq [of n] sint_less [of n] by (simp add: ser_int_def)

lemma de_all_map [simp]: "(\<And>x. d (f x) = Some x) \<Longrightarrow> de_all d (map f xs) = Some xs"
  by (induction xs) simp_all

lemma de_ser_list [simp]: "(\<And>x. d (f x) = Some x) \<Longrightarrow> de_list d (ser_list f xs) = Some xs"
  by (simp add: ser_list_def)

lemma de_ser_strs [simp]: "de_strs (ser_strs xs) = Some xs"
  by (simp add: de_strs_def ser_strs_def)

lemma de_entries_map [simp]:
  "(\<And>x. d (f x) = Some x) \<Longrightarrow> de_entries d (map (\<lambda>(k, x). (k, f x)) kvs) = Some kvs"
  by (induction kvs) auto

lemma de_ser_map [simp]: "(\<And>x. d (f x) = Some x) \<Longrightarrow> de_map d (ser_map f kvs) = Some kvs"
  by (simp add: de_map_def ser_map_def)

subsection \<open>Working directory, agent, tools\<close>

fun de_strategy :: "toml \<Rightarrow> workdir_strategy option" where
  "de_strategy (TStr s) = (if s = ''overlay'' then Some Overlay else if s = ''mount'' then Some Mount else None)"
| "de_strategy _ = None"

fun ser_strategy :: "workdir_strategy \<Rightarrow> toml" where
  "ser_strategy Overlay = TStr ''overlay''" | "ser_strategy Mount = TStr ''mount''"

lemma de_ser_strategy [simp]: "de_strategy (ser_strategy s) = Some s"
  by (cases s) auto

record workdir_config =
  wd_strategy :: workdir_strategy
  wd_custom_prompt :: "string option"

definition default_workdir :: workdir_config where
  "default_workdir = \<lparr>wd_strategy = Overlay, wd_custom_prompt = None\<rparr>"

definition de_workdir :: "table \<Rightarrow> workdir_config option" where
  "de_workdir t = do {
     a \<leftarrow> field_or de_strategy Overlay ''strategy'' t;
     b \<leftarrow> field_opt de_str ''custom_prompt'' t;
     Some \<lparr>wd_strategy = a, wd_custom_prompt = b\<rparr> }"

definition ser_workdir :: "workdir_config \<Rightarrow> table" where
  "ser_workdir r = written [(''strategy'', Some (ser_strategy (wd_strategy r))),
     (''custom_prompt'', map_option TStr (wd_custom_prompt r))]"

lemma de_ser_workdir [simp]: "de_workdir (ser_workdir r) = Some r"
  by (simp add: de_workdir_def ser_workdir_def)

definition default_keep_last :: usize where "default_keep_last = 10"
definition default_compaction_strategy :: string where "default_compaction_strategy = ''native''"

record compaction_settings =
  cp_strategy :: string
  cp_script_path :: "string option"
  cp_fallback_models :: "string list"
  cp_keep_last :: usize

definition default_compaction :: compaction_settings where
  "default_compaction = \<lparr>cp_strategy = default_compaction_strategy, cp_script_path = None,
     cp_fallback_models = [], cp_keep_last = default_keep_last\<rparr>"

definition de_compaction :: "table \<Rightarrow> compaction_settings option" where
  "de_compaction t = do {
     a \<leftarrow> field_or de_str default_compaction_strategy ''strategy'' t;
     b \<leftarrow> field_opt de_str ''script_path'' t;
     c \<leftarrow> field_or de_strs [] ''fallback_models'' t;
     d \<leftarrow> field_or de_uint default_keep_last ''keep_last'' t;
     Some \<lparr>cp_strategy = a, cp_script_path = b, cp_fallback_models = c, cp_keep_last = d\<rparr> }"

definition ser_compaction :: "compaction_settings \<Rightarrow> table" where
  "ser_compaction r = written [(''strategy'', Some (TStr (cp_strategy r))),
     (''script_path'', map_option TStr (cp_script_path r)),
     (''fallback_models'', Some (ser_strs (cp_fallback_models r))),
     (''keep_last'', Some (ser_uint (cp_keep_last r)))]"

lemma de_ser_compaction [simp]: "de_compaction (ser_compaction r) = Some r"
  by (simp add: de_compaction_def ser_compaction_def)

definition default_model :: string where "default_model = ''claude-cli/opus''"
definition default_context_window :: usize where "default_context_window = 128000"
definition default_reserve_tokens :: usize where "default_reserve_tokens = 8000"
definition default_max_tokens :: usize where "default_max_tokens = 4096"

record agent_settings =
  ac_default_model :: string
  ac_context_window :: usize
  ac_reserve_tokens :: usize
  ac_max_tokens :: usize
  ac_compaction :: compaction_settings
  ac_system_prompt_script :: "string option"

definition default_agent :: agent_settings where
  "default_agent = \<lparr>ac_default_model = default_model, ac_context_window = default_context_window,
     ac_reserve_tokens = default_reserve_tokens, ac_max_tokens = default_max_tokens,
     ac_compaction = default_compaction, ac_system_prompt_script = None\<rparr>"

definition de_agent :: "table \<Rightarrow> agent_settings option" where
  "de_agent t = do {
     a \<leftarrow> field_or de_str default_model ''default_model'' t;
     b \<leftarrow> field_or de_uint default_context_window ''context_window'' t;
     c \<leftarrow> field_or de_uint default_reserve_tokens ''reserve_tokens'' t;
     d \<leftarrow> field_or de_uint default_max_tokens ''max_tokens'' t;
     e \<leftarrow> field_or (de_struct de_compaction) default_compaction ''compaction'' t;
     f \<leftarrow> field_opt de_str ''system_prompt_script'' t;
     Some \<lparr>ac_default_model = a, ac_context_window = b, ac_reserve_tokens = c, ac_max_tokens = d,
       ac_compaction = e, ac_system_prompt_script = f\<rparr> }"

definition ser_agent :: "agent_settings \<Rightarrow> table" where
  "ser_agent r = written [(''default_model'', Some (TStr (ac_default_model r))),
     (''context_window'', Some (ser_uint (ac_context_window r))),
     (''reserve_tokens'', Some (ser_uint (ac_reserve_tokens r))),
     (''max_tokens'', Some (ser_uint (ac_max_tokens r))),
     (''compaction'', Some (TTable (ser_compaction (ac_compaction r)))),
     (''system_prompt_script'', map_option TStr (ac_system_prompt_script r))]"

lemma de_ser_agent [simp]: "de_agent (ser_agent r) = Some r"
  by (simp add: de_agent_def ser_agent_def)

record external_tool_config =
  xt_description :: string
  xt_command :: string
  xt_args :: "string list"
  xt_sandbox :: bool
  xt_path_args :: "string list"

definition de_external_tool :: "table \<Rightarrow> external_tool_config option" where
  "de_external_tool t = do {
     a \<leftarrow> field de_str ''description'' t;
     b \<leftarrow> field de_str ''command'' t;
     c \<leftarrow> field_or de_strs [] ''args'' t;
     d \<leftarrow> field_or de_bool False ''sandbox'' t;
     e \<leftarrow> field_or de_strs [] ''path_args'' t;
     Some \<lparr>xt_description = a, xt_command = b, xt_args = c, xt_sandbox = d, xt_path_args = e\<rparr> }"

definition ser_external_tool :: "external_tool_config \<Rightarrow> table" where
  "ser_external_tool r = written [(''description'', Some (TStr (xt_description r))),
     (''command'', Some (TStr (xt_command r))), (''args'', Some (ser_strs (xt_args r))),
     (''sandbox'', Some (TBool (xt_sandbox r))), (''path_args'', Some (ser_strs (xt_path_args r)))]"

lemma de_ser_external_tool [simp]: "de_external_tool (ser_external_tool r) = Some r"
  by (simp add: de_external_tool_def ser_external_tool_def)

definition default_bash_timeout :: u64 where "default_bash_timeout = 30000"
definition default_web_fetch_max_bytes :: usize where "default_web_fetch_max_bytes = 10000"
definition default_tool_output_max_chars :: usize where "default_tool_output_max_chars = 50000"
definition default_allowed_tools :: "string list" where "default_allowed_tools = [''*'']"

record tools_settings =
  tl_bash_timeout_ms :: u64
  tl_web_fetch_max_bytes :: usize
  tl_require_approval :: "string list"
  tl_output_max_chars :: usize
  tl_log_injection_warnings :: bool
  tl_use_content_delimiters :: bool
  tl_allowed_builtin :: "string list"
  tl_external :: "(string \<times> external_tool_config) list"

definition default_tools :: tools_settings where
  "default_tools = \<lparr>tl_bash_timeout_ms = default_bash_timeout,
     tl_web_fetch_max_bytes = default_web_fetch_max_bytes, tl_require_approval = [],
     tl_output_max_chars = default_tool_output_max_chars, tl_log_injection_warnings = True,
     tl_use_content_delimiters = True, tl_allowed_builtin = default_allowed_tools, tl_external = []\<rparr>"

definition de_tools :: "table \<Rightarrow> tools_settings option" where
  "de_tools t = do {
     a \<leftarrow> field_or de_uint default_bash_timeout ''bash_timeout_ms'' t;
     b \<leftarrow> field_or de_uint default_web_fetch_max_bytes ''web_fetch_max_bytes'' t;
     c \<leftarrow> field_or de_strs [] ''require_approval'' t;
     d \<leftarrow> field_or de_uint default_tool_output_max_chars ''tool_output_max_chars'' t;
     e \<leftarrow> field_or de_bool True ''log_injection_warnings'' t;
     f \<leftarrow> field_or de_bool True ''use_content_delimiters'' t;
     g \<leftarrow> field_or de_strs default_allowed_tools ''allowed_builtin'' t;
     h \<leftarrow> field_or (de_map (de_struct de_external_tool)) [] ''external'' t;
     Some \<lparr>tl_bash_timeout_ms = a, tl_web_fetch_max_bytes = b, tl_require_approval = c,
       tl_output_max_chars = d, tl_log_injection_warnings = e, tl_use_content_delimiters = f,
       tl_allowed_builtin = g, tl_external = h\<rparr> }"

definition ser_tools :: "tools_settings \<Rightarrow> table" where
  "ser_tools r = written [(''bash_timeout_ms'', Some (ser_uint (tl_bash_timeout_ms r))),
     (''web_fetch_max_bytes'', Some (ser_uint (tl_web_fetch_max_bytes r))),
     (''require_approval'', Some (ser_strs (tl_require_approval r))),
     (''tool_output_max_chars'', Some (ser_uint (tl_output_max_chars r))),
     (''log_injection_warnings'', Some (TBool (tl_log_injection_warnings r))),
     (''use_content_delimiters'', Some (TBool (tl_use_content_delimiters r))),
     (''allowed_builtin'', Some (ser_strs (tl_allowed_builtin r))),
     (''external'', Some ((ser_map (TTable \<circ> ser_external_tool)) (tl_external r)))]"

lemma de_ser_tools [simp]: "de_tools (ser_tools r) = Some r"
  by (simp add: de_tools_def ser_tools_def)

subsection \<open>Heartbeat, memory, logging, vision, disk, sandbox\<close>

record active_hours =
  ah_start :: string
  ah_end :: string

definition de_active_hours :: "table \<Rightarrow> active_hours option" where
  "de_active_hours t = do {
     a \<leftarrow> field de_str ''start'' t;
     b \<leftarrow> field de_str ''end'' t;
     Some \<lparr>ah_start = a, ah_end = b\<rparr> }"

definition ser_active_hours :: "active_hours \<Rightarrow> table" where
  "ser_active_hours r = written [(''start'', Some (TStr (ah_start r))), (''end'', Some (TStr (ah_end r)))]"

lemma de_ser_active_hours [simp]: "de_active_hours (ser_active_hours r) = Some r"
  by (simp add: de_active_hours_def ser_active_hours_def)

definition default_interval :: string where "default_interval = ''30m''"

record heartbeat_config =
  hb_enabled :: bool
  hb_interval :: string
  hb_active_hours :: "active_hours option"
  hb_timezone :: "string option"

definition default_heartbeat :: heartbeat_config where
  "default_heartbeat = \<lparr>hb_enabled = True, hb_interval = default_interval, hb_active_hours = None,
     hb_timezone = None\<rparr>"

definition de_heartbeat :: "table \<Rightarrow> heartbeat_config option" where
  "de_heartbeat t = do {
     a \<leftarrow> field_or de_bool True ''enabled'' t;
     b \<leftarrow> field_or de_str default_interval ''interval'' t;
     c \<leftarrow> field_opt (de_struct de_active_hours) ''active_hours'' t;
     d \<leftarrow> field_opt de_str ''timezone'' t;
     Some \<lparr>hb_enabled = a, hb_interval = b, hb_active_hours = c, hb_timezone = d\<rparr> }"

definition ser_heartbeat :: "heartbeat_config \<Rightarrow> table" where
  "ser_heartbeat r = written [(''enabled'', Some (TBool (hb_enabled r))),
     (''interval'', Some (TStr (hb_interval r))),
     (''active_hours'', map_option (TTable \<circ> ser_active_hours) (hb_active_hours r)),
     (''timezone'', map_option TStr (hb_timezone r))]"

lemma de_ser_heartbeat [simp]: "de_heartbeat (ser_heartbeat r) = Some r"
  by (simp add: de_heartbeat_def ser_heartbeat_def)

definition default_pattern :: string where "default_pattern = ''**/*.md''"

record memory_index_path =
  mi_path :: string
  mi_pattern :: string

definition de_index_path :: "table \<Rightarrow> memory_index_path option" where
  "de_index_path t = do {
     a \<leftarrow> field de_str ''path'' t;
     b \<leftarrow> field_or de_str default_pattern ''pattern'' t;
     Some \<lparr>mi_path = a, mi_pattern = b\<rparr> }"

definition ser_index_path :: "memory_index_path \<Rightarrow> table" where
  "ser_index_path r = written [(''path'', Some (TStr (mi_path r))), (''pattern'', Some (TStr (mi_pattern r)))]"

lemma de_ser_index_path [simp]: "de_index_path (ser_index_path r) = Some r"
  by (simp add: de_index_path_def ser_index_path_def)

definition default_workspace :: string where "default_workspace = ''~/.zier-alpha/workspace''"
definition default_embedding_provider :: string where "default_embedding_provider = ''none''"
definition default_embedding_model :: string where "default_embedding_model = ''all-MiniLM-L6-v2''"
definition default_embedding_cache_dir :: string where "default_embedding_cache_dir = ''~/.cache/zier-alpha/models''"
definition default_chunk_size :: usize where "default_chunk_size = 400"
definition default_chunk_overlap :: usize where "default_chunk_overlap = 80"
definition default_index_paths :: "memory_index_path list" where
  "default_index_paths = [\<lparr>mi_path = ''knowledge'', mi_pattern = ''**/*.md''\<rparr>]"
definition default_session_max_messages :: usize where "default_session_max_messages = 15"

record memory_config =
  mm_workspace :: string
  mm_embedding_provider :: string
  mm_embedding_model :: string
  mm_embedding_cache_dir :: string
  mm_chunk_size :: usize
  mm_chunk_overlap :: usize
  mm_paths :: "memory_index_path list"
  mm_session_max_messages :: usize
  mm_session_max_chars :: usize

definition default_memory :: memory_config where
  "default_memory = \<lparr>mm_workspace = default_workspace, mm_embedding_provider = default_embedding_provider,
     mm_embedding_model = default_embedding_model, mm_embedding_cache_dir = default_embedding_cache_dir,
     mm_chunk_size = default_chunk_size, mm_chunk_overlap = default_chunk_overlap, mm_paths = default_index_paths,
     mm_session_max_messages = default_session_max_messages, mm_session_max_chars = 0\<rparr>"

definition de_memory :: "table \<Rightarrow> memory_config option" where
  "de_memory t = do {
     a \<leftarrow> field_or de_str default_workspace ''workspace'' t;
     b \<leftarrow> field_or de_str default_embedding_provider ''embedding_provider'' t;
     c \<leftarrow> field_or de_str default_embedding_model ''embedding_model'' t;
     d \<leftarrow> field_or de_str default_embedding_cache_dir ''embedding_cache_dir'' t;
     e \<leftarrow> field_or de_uint default_chunk_size ''chunk_size'' t;
     f \<leftarrow> field_or de_uint default_chunk_overlap ''chunk_overlap'' t;
     g \<leftarrow> field_or (de_list (de_struct de_index_path)) default_index_paths ''paths'' t;
     h \<leftarrow> field_or de_uint default_session_max_messages ''session_max_messages'' t;
     i \<leftarrow> field_or de_uint 0 ''session_max_chars'' t;
     Some \<lparr>mm_workspace = a, mm_embedding_provider = b, mm_embedding_model = c, mm_embedding_cache_dir = d,
       mm_chunk_size = e, mm_chunk_overlap = f, mm_paths = g, mm_session_max_messages = h,
       mm_session_max_chars = i\<rparr> }"

definition ser_memory :: "memory_config \<Rightarrow> table" where
  "ser_memory r = written [(''workspace'', Some (TStr (mm_workspace r))),
     (''embedding_provider'', Some (TStr (mm_embedding_provider r))),
     (''embedding_model'', Some (TStr (mm_embedding_model r))),
     (''embedding_cache_dir'', Some (TStr (mm_embedding_cache_dir r))),
     (''chunk_size'', Some (ser_uint (mm_chunk_size r))), (''chunk_overlap'', Some (ser_uint (mm_chunk_overlap r))),
     (''paths'', Some ((ser_list (TTable \<circ> ser_index_path)) (mm_paths r))),
     (''session_max_messages'', Some (ser_uint (mm_session_max_messages r))),
     (''session_max_chars'', Some (ser_uint (mm_session_max_chars r)))]"

lemma de_ser_memory [simp]: "de_memory (ser_memory r) = Some r"
  by (simp add: de_memory_def ser_memory_def)

definition default_log_level :: string where "default_log_level = ''info''"
definition default_log_file :: string where "default_log_file = ''~/.zier-alpha/logs/agent.log''"

record logging_config =
  lg_level :: string
  lg_file :: string
  lg_retention_days :: u32

definition default_logging :: logging_config where
  "default_logging = \<lparr>lg_level = default_log_level, lg_file = default_log_file,
     lg_retention_days = 0\<rparr>"

definition de_logging :: "table \<Rightarrow> logging_config option" where
  "de_logging t = do {
     a \<leftarrow> field_or de_str default_log_level ''level'' t;
     b \<leftarrow> field_or de_str default_log_file ''file'' t;
     c \<leftarrow> field_or de_uint 0 ''retention_days'' t;
     Some \<lparr>lg_level = a, lg_file = b, lg_retention_days = c\<rparr> }"

definition ser_logging :: "logging_config \<Rightarrow> table" where
  "ser_logging r = written [(''level'', Some (TStr (lg_level r))), (''file'', Some (TStr (lg_file r))),
     (''retention_days'', Some (ser_uint (lg_retention_days r)))]"

lemma de_ser_logging [simp]: "de_logging (ser_logging r) = Some r"
  by (simp add: de_logging_def ser_logging_def)

text \<open>The default of the vision settings is derived: it is not what their fields declare.\<close>

definition default_vision_fallback_model :: string where "default_vision_fallback_model = ''gpt-4o''"
definition default_vision_fallback_prompt :: string where
  "default_vision_fallback_prompt = ''Transcribe text and describe details in this image for a text-only AI.''"

record vision_config =
  vs_enabled :: bool
  vs_fallback_model :: string
  vs_fallback_prompt :: string

definition default_vision :: vision_config where
  "default_vision = \<lparr>vs_enabled = False, vs_fallback_model = [], vs_fallback_prompt = []\<rparr>"

definition de_vision :: "table \<Rightarrow> vision_config option" where
  "de_vision t = do {
     a \<leftarrow> field_or de_bool True ''enabled'' t;
     b \<leftarrow> field_or de_str default_vision_fallback_model ''fallback_model'' t;
     c \<leftarrow> field_or de_str default_vision_fallback_prompt ''fallback_prompt'' t;
     Some \<lparr>vs_enabled = a, vs_fallback_model = b, vs_fallback_prompt = c\<rparr> }"

definition ser_vision :: "vision_config \<Rightarrow> table" where
  "ser_vision r = written [(''enabled'', Some (TBool (vs_enabled r))),
     (''fallback_model'', Some (TStr (vs_fallback_model r))),
     (''fallback_prompt'', Some (TStr (vs_fallback_prompt r)))]"

lemma de_ser_vision [simp]: "de_vision (ser_vision r) = Some r"
  by (simp add: de_vision_def ser_vision_def)

definition default_monitor_interval :: string where "default_monitor_interval = ''10m''"
definition default_min_free_percent :: tfloat where "default_min_free_percent = Finite 5"
definition default_session_retention_days :: u32 where "default_session_retention_days = 0"
definition default_max_log_size_mb :: u32 where "default_max_log_size_mb = 0"

record disk_settings =
  dk_monitor_interval :: string
  dk_min_free_percent :: tfloat
  dk_session_retention_days :: u32
  dk_max_log_size_mb :: u32

definition default_disk :: disk_settings where
  "default_disk = \<lparr>dk_monitor_interval = default_monitor_interval,
     dk_min_free_percent = default_min_free_percent, dk_session_retention_days = default_session_retention_days,
     dk_max_log_size_mb = default_max_log_size_mb\<rparr>"

definition de_disk :: "table \<Rightarrow> disk_settings option" where
  "de_disk t = do {
     a \<leftarrow> field_or de_str default_monitor_interval ''monitor_interval'' t;
     b \<leftarrow> field_or de_f64 default_min_free_percent ''min_free_percent'' t;
     c \<leftarrow> field_or de_uint default_session_retention_days ''session_retention_days'' t;
     d \<leftarrow> field_or de_uint default_max_log_size_mb ''max_log_size_mb'' t;
     Some \<lparr>dk_monitor_interval = a, dk_min_free_percent = b, dk_session_retention_days = c,
       dk_max_log_size_mb = d\<rparr> }"

definition ser_disk :: "disk_settings \<Rightarrow> table" where
  "ser_disk r = written [(''monitor_interval'', Some (TStr (dk_monitor_interval r))),
     (''min_free_percent'', Some (TFloat (dk_min_free_percent r))),
     (''session_retention_days'', Some (ser_uint (dk_session_retention_days r))),
     (''max_log_size_mb'', Some (ser_uint (dk_max_log_size_mb r)))]"

lemma de_ser_disk [simp]: "de_disk (ser_disk r) = Some r"
  by (simp add: de_disk_def ser_disk_def)

definition default_sandbox :: sandbox_policy where
  "default_sandbox = \<lparr>allow_network = False, allow_read = [], allow_write = [], allow_env = False,
     enable_os_sandbox = False\<rparr>"

definition de_sandbox :: "table \<Rightarrow> sandbox_policy option" where
  "de_sandbox t = do {
     a \<leftarrow> field_or de_bool False ''allow_network'' t;
     b \<leftarrow> field_or de_strs [] ''allow_read'' t;
     c \<leftarrow> field_or de_strs [] ''allow_write'' t;
     d \<leftarrow> field_or de_bool False ''allow_env'' t;
     e \<leftarrow> field_or de_bool False ''enable_os_sandbox'' t;
     Some \<lparr>allow_network = a, allow_read = b, allow_write = c, allow_env = d,
       enable_os_sandbox = e\<rparr> }"

definition ser_sandbox :: "sandbox_policy \<Rightarrow> table" where
  "ser_sandbox r = written [(''allow_network'', Some (TBool (allow_network r))),
     (''allow_read'', Some (ser_strs (allow_read r))), (''allow_write'', Some (ser_strs (allow_write r))),
     (''allow_env'', Some (TBool (allow_env r))), (''enable_os_sandbox'', Some (TBool (enable_os_sandbox r)))]"

lemma de_ser_sandbox [simp]: "de_sandbox (ser_sandbox r) = Some r"
  by (simp add: de_sandbox_def ser_sandbox_def)

subsection \<open>Server\<close>

definition default_debounce_seconds :: u64 where "default_debounce_seconds = 3"
definition default_max_debounce_messages :: nat where "default_max_debounce_messages = 50"
definition default_max_debounce_chars :: nat where "default_max_debounce_chars = 100000"

text \<open>The limits of the debouncer are numbers of the machine, kept as natural numbers in \<open>debounce_config\<close>.\<close>

definition default_ingress :: debounce_config where
  "default_ingress = \<lparr>debounce_seconds = default_debounce_seconds,
     max_debounce_messages = default_max_debounce_messages, max_debounce_chars = default_max_debounce_chars\<rparr>"

definition de_ingress :: "table \<Rightarrow> debounce_config option" where
  "de_ingress t = do {
     a \<leftarrow> field_or de_uint default_debounce_seconds ''debounce_seconds'' t;
     b \<leftarrow> field_or de_usize default_max_debounce_messages ''max_debounce_messages'' t;
     c \<leftarrow> field_or de_usize default_max_debounce_chars ''max_debounce_chars'' t;
     Some \<lparr>debounce_seconds = a, max_debounce_messages = b, max_debounce_chars = c\<rparr> }"

definition ser_ingress :: "debounce_config \<Rightarrow> table" where
  "ser_ingress r = written [(''debounce_seconds'', Some (ser_uint (debounce_seconds r))),
     (''max_debounce_messages'', Some ((TInt \<circ> int) (max_debounce_messages r))),
     (''max_debounce_chars'', Some ((TInt \<circ> int) (max_debounce_chars r)))]"

lemma de_ser_ingress [simp]:
  "max_debounce_messages r < 2 ^ 64 \<Longrightarrow> max_debounce_chars r < 2 ^ 64 \<Longrightarrow> de_ingress (ser_ingress r) = Some r"
  by (simp add: de_ingress_def ser_ingress_def)

definition default_max_file_size_bytes :: u64 where "default_max_file_size_bytes = 10485760"
definition default_attachments_base_dir :: string where "default_attachments_base_dir = ''attachments''"

record attachments_settings =
  at_enabled :: bool
  at_max_file_size_bytes :: u64
  at_base_dir :: string

definition default_attachments :: attachments_settings where
  "default_attachments = \<lparr>at_enabled = True, at_max_file_size_bytes = default_max_file_size_bytes,
     at_base_dir = ''attachments''\<rparr>"

definition de_attachments :: "table \<Rightarrow> attachments_settings option" where
  "de_attachments t = do {
     a \<leftarrow> field_or de_bool True ''enabled'' t;
     b \<leftarrow> field_or de_uint default_max_file_size_bytes ''max_file_size_bytes'' t;
     c \<leftarrow> field_or de_str default_attachments_base_dir ''base_dir'' t;
     Some \<lparr>at_enabled = a, at_max_file_size_bytes = b, at_base_dir = c\<rparr> }"

definition ser_attachments :: "attachments_settings \<Rightarrow> table" where
  "ser_attachments r = written [(''enabled'', Some (TBool (at_enabled r))),
     (''max_file_size_bytes'', Some (ser_uint (at_max_file_size_bytes r))),
     (''base_dir'', Some (TStr (at_base_dir r)))]"

lemma de_ser_attachments [simp]: "de_attachments (ser_attachments r) = Some r"
  by (simp add: de_attachments_def ser_attachments_def)

definition default_audio_backend :: string where "default_audio_backend = ''local''"
definition default_audio_timeout_seconds :: u64 where "default_audio_timeout_seconds = 60"
definition default_openai_audio_model :: "string option" where "default_openai_audio_model = Some ''whisper-1''"

record audio_config =
  au_enabled :: bool
  au_backend :: string
  au_local_command :: "string option"
  au_openai_model :: "string option"
  au_gemini_model :: "string option"
  au_timeout_seconds :: u64

definition default_audio :: audio_config where
  "default_audio = \<lparr>au_enabled = True, au_backend = default_audio_backend, au_local_command = None,
     au_openai_model = default_openai_audio_model, au_gemini_model = None,
     au_timeout_seconds = default_audio_timeout_seconds\<rparr>"

definition de_audio :: "table \<Rightarrow> audio_config option" where
  "de_audio t = do {
     a \<leftarrow> field_or de_bool True ''enabled'' t;
     b \<leftarrow> field_or de_str default_audio_backend ''backend'' t;
     c \<leftarrow> field_opt de_str ''local_command'' t;
     d \<leftarrow> field_or (map_option Some \<circ> de_str) default_openai_audio_model ''openai_model'' t;
     e \<leftarrow> field_opt de_str ''gemini_model'' t;
     f \<leftarrow> field_or de_uint default_audio_timeout_seconds ''timeout_seconds'' t;
     Some \<lparr>au_enabled = a, au_backend = b, au_local_command = c, au_openai_model = d, au_gemini_model = e,
       au_timeout_seconds = f\<rparr> }"

definition ser_audio :: "audio_config \<Rightarrow> table" where
  "ser_audio r = written [(''enabled'', Some (TBool (au_enabled r))), (''backend'', Some (TStr (au_backend r))),
     (''local_command'', map_option TStr (au_local_command r)),
     (''openai_model'', map_option TStr (au_openai_model r)),
     (''gemini_model'', map_option TStr (au_gemini_model r)),
     (''timeout_seconds'', Some (ser_uint (au_timeout_seconds r)))]"

text \<open>An absent model is not written, so it is read back as the default one.\<close>

lemma de_ser_audio:
  "de_audio (ser_audio r)
   = Some (r\<lparr>au_openai_model := or_else (au_openai_model r) default_openai_audio_model\<rparr>)"
  by (cases "au_openai_model r") (simp_all add: de_audio_def ser_audio_def)

definition default_approval_timeout_seconds :: u64 where "default_approval_timeout_seconds = 300"

record telegram_approval_config =
  ta_enabled :: bool
  ta_timeout_seconds :: u64
  ta_auto_deny :: bool

definition default_telegram_approval :: telegram_approval_config where
  "default_telegram_approval = \<lparr>ta_enabled = True, ta_timeout_seconds = default_approval_timeout_seconds,
     ta_auto_deny = False\<rparr>"

definition de_telegram_approval :: "table \<Rightarrow> telegram_approval_config option" where
  "de_telegram_approval t = do {
     a \<leftarrow> field_or de_bool True ''enabled'' t;
     b \<leftarrow> field_or de_uint default_approval_timeout_seconds ''timeout_seconds'' t;
     c \<leftarrow> field_or de_bool False ''auto_deny'' t;
     Some \<lparr>ta_enabled = a, ta_timeout_seconds = b, ta_auto_deny = c\<rparr> }"

definition ser_telegram_approval :: "telegram_approval_config \<Rightarrow> table" where
  "ser_telegram_approval r = written [(''enabled'', Some (TBool (ta_enabled r))),
     (''timeout_seconds'', Some (ser_uint (ta_timeout_seconds r))), (''auto_deny'', Some (TBool (ta_auto_deny r)))]"

lemma de_ser_telegram_approval [simp]: "de_telegram_approval (ser_telegram_approval r) = Some r"
  by (simp add: de_telegram_approval_def ser_telegram_approval_def)

definition default_openai_proxy_port :: u16 where "default_openai_proxy_port = 37777"
definition default_bind :: string where "default_bind = ''127.0.0.1''"

record openai_proxy_config =
  px_enabled :: bool
  px_port :: u16
  px_bind :: string

definition default_openai_proxy :: openai_proxy_config where
  "default_openai_proxy = \<lparr>px_enabled = True, px_port = default_openai_proxy_port,
     px_bind = default_bind\<rparr>"

definition de_openai_proxy :: "table \<Rightarrow> openai_proxy_config option" where
  "de_openai_proxy t = do {
     a \<leftarrow> field_or de_bool True ''enabled'' t;
     b \<leftarrow> field_or de_uint default_openai_proxy_port ''port'' t;
     c \<leftarrow> field_or de_str default_bind ''bind'' t;
     Some \<lparr>px_enabled = a, px_port = b, px_bind = c\<rparr> }"

definition ser_openai_proxy :: "openai_proxy_config \<Rightarrow> table" where
  "ser_openai_proxy r = written [(''enabled'', Some (TBool (px_enabled r))),
     (''port'', Some (ser_uint (px_port r))), (''bind'', Some (TStr (px_bind r)))]"

lemma de_ser_openai_proxy [simp]: "de_openai_proxy (ser_openai_proxy r) = Some r"
  by (simp add: de_openai_proxy_def ser_openai_proxy_def)

datatype telegram_mode = Webhook | Polling

fun de_telegram_mode :: "toml \<Rightarrow> telegram_mode option" where
  "de_telegram_mode (TStr s) = (if s = ''webhook'' then Some Webhook else if s = ''polling'' then Some Polling else None)"
| "de_telegram_mode _ = None"

fun ser_telegram_mode :: "telegram_mode \<Rightarrow> toml" where
  "ser_telegram_mode Webhook = TStr ''webhook''" | "ser_telegram_mode Polling = TStr ''polling''"

lemma de_ser_telegram_mode [simp]: "de_telegram_mode (ser_telegram_mode m) = Some m"
  by (cases m) auto

definition default_port :: u16 where "default_port = 31327"
definition default_poll_timeout :: u64 where "default_poll_timeout = 30"

record server_config =
  sv_enabled :: bool
  sv_port :: u16
  sv_bind :: string
  sv_openai_proxy :: openai_proxy_config
  sv_telegram_mode :: telegram_mode
  sv_owner_telegram_id :: "u64 option"
  sv_telegram_secret_token :: "string option"
  sv_telegram_bot_token :: "string option"
  sv_telegram_poll_timeout :: u64
  sv_ingress :: debounce_config
  sv_attachments :: attachments_settings
  sv_audio :: audio_config
  sv_telegram_approval :: telegram_approval_config

definition default_server :: server_config where
  "default_server = \<lparr>sv_enabled = True, sv_port = default_port, sv_bind = default_bind,
     sv_openai_proxy = default_openai_proxy, sv_telegram_mode = Webhook, sv_owner_telegram_id = None,
     sv_telegram_secret_token = None, sv_telegram_bot_token = None, sv_telegram_poll_timeout = default_poll_timeout,
     sv_ingress = default_ingress, sv_attachments = default_attachments, sv_audio = default_audio,
     sv_telegram_approval = default_telegram_approval\<rparr>"

definition de_server :: "table \<Rightarrow> server_config option" where
  "de_server t = do {
     a \<leftarrow> field_or de_bool True ''enabled'' t;
     b \<leftarrow> field_or de_uint default_port ''port'' t;
     c \<leftarrow> field_or de_str default_bind ''bind'' t;
     d \<leftarrow> field_or (de_struct de_openai_proxy) default_openai_proxy ''openai_proxy'' t;
     e \<leftarrow> field_or de_telegram_mode Webhook ''telegram_mode'' t;
     f \<leftarrow> field_opt de_int ''owner_telegram_id'' t;
     g \<leftarrow> field_opt de_str ''telegram_secret_token'' t;
     h \<leftarrow> field_opt de_str ''telegram_bot_token'' t;
     i \<leftarrow> field_or de_uint default_poll_timeout ''telegram_poll_timeout'' t;
     j \<leftarrow> field_or (de_struct de_ingress) default_ingress ''ingress'' t;
     k \<leftarrow> field_or (de_struct de_attachments) default_attachments ''attachments'' t;
     l \<leftarrow> field_or (de_struct de_audio) default_audio ''audio'' t;
     m \<leftarrow> field_or (de_struct de_telegram_approval) default_telegram_approval ''telegram_approval'' t;
     Some \<lparr>sv_enabled = a, sv_port = b, sv_bind = c, sv_openai_proxy = d, sv_telegram_mode = e,
       sv_owner_telegram_id = f, sv_telegram_secret_token = g, sv_telegram_bot_token = h,
       sv_telegram_poll_timeout = i, sv_ingress = j, sv_attachments = k, sv_audio = l,
       sv_telegram_approval = m\<rparr> }"

definition ser_server :: "server_config \<Rightarrow> table" where
  "ser_server r = written [(''enabled'', Some (TBool (sv_enabled r))), (''port'', Some (ser_uint (sv_port r))),
     (''bind'', Some (TStr (sv_bind r))), (''openai_proxy'', Some (TTable (ser_openai_proxy (sv_openai_proxy r)))),
     (''telegram_mode'', Some (ser_telegram_mode (sv_telegram_mode r))),
     (''owner_telegram_id'', map_option ser_int (sv_owner_telegram_id r)),
     (''telegram_secret_token'', map_option TStr (sv_telegram_secret_token r)),
     (''telegram_bot_token'', map_option TStr (sv_telegram_bot_token r)),
     (''telegram_poll_timeout'', Some (ser_uint (sv_telegram_poll_timeout r))),
     (''ingress'', Some (TTable (ser_ingress (sv_ingress r)))),
     (''attachments'', Some (TTable (ser_attachments (sv_attachments r)))),
     (''audio'', Some (TTable (ser_audio (sv_audio r)))),
     (''telegram_approval'', Some (TTable (ser_telegram_approval (sv_telegram_approval r))))]"

end
