(* ===== verification/Config_Document.thy ===== *)
theory Config_Document
  imports Config_Schema
begin

text \<open>
  The rest of the configuration document (\<^verbatim>\<open>src/src/config/mod.rs\<close>, \<^verbatim>\<open>src/src/config/models.rs\<close>,
  \<^verbatim>\<open>src/src/agent/mcp_manager.rs\<close>): extensions, providers, models and the document as a whole, and that a
  configuration that was read is read again from what it is written as. A value of \<open>serde_json\<close> in the document is
  read by \<open>toml_json\<close>; \<open>vt\<close> is how the crate writes one, which fails on a null.
\<close>

subsection \<open>Extensions\<close>

definition default_agents_dir :: string where "default_agents_dir = ''agents''"
definition default_max_depth :: usize where "default_max_depth = 3"
definition default_max_clone_fork_depth :: usize where "default_max_clone_fork_depth = 1"
definition default_ipc_mode :: string where "default_ipc_mode = ''artifact''"
definition default_timeout :: u64 where "default_timeout = 300"

record hive_config =
  hv_enabled :: bool
  hv_agents_dir :: string
  hv_max_depth :: usize
  hv_ipc_mode :: string
  hv_default_model :: string
  hv_timeout_seconds :: u64
  hv_cleanup_temp_files :: bool
  hv_allow_clones :: bool
  hv_max_clone_fork_depth :: usize
  hv_clone_sysprompt_followup :: "string option"
  hv_clone_userprompt_prefix :: "string option"
  hv_clone_disable_tools :: "string list"

definition de_hive :: "table \<Rightarrow> hive_config option" where
  "de_hive t = do {
     a \<leftarrow> field_or de_bool True ''enabled'' t;
     b \<leftarrow> field_or de_str default_agents_dir ''agents_dir'' t;
     c \<leftarrow> field_or de_uint default_max_depth ''max_depth'' t;
     d \<leftarrow> field_or de_str default_ipc_mode ''ipc_mode'' t;
     e \<leftarrow> field_or de_str default_model ''default_model'' t;
     f \<leftarrow> field_or de_uint default_timeout ''timeout_seconds'' t;
     g \<leftarrow> field_or de_bool True ''cleanup_temp_files'' t;
     h \<leftarrow> field_or de_bool True ''allow_clones'' t;
     i \<leftarrow> field_or de_uint default_max_clone_fork_depth ''max_clone_fork_depth'' t;
     j \<leftarrow> field_opt de_str ''clone_sysprompt_followup'' t;
     k \<leftarrow> field_opt de_str ''clone_userprompt_prefix'' t;
     l \<leftarrow> field_or de_strs [] ''clone_disable_tools'' t;
     Some \<lparr>hv_enabled = a, hv_agents_dir = b, hv_max_depth = c, hv_ipc_mode = d, hv_default_model = e,
       hv_timeout_seconds = f, hv_cleanup_temp_files = g, hv_allow_clones = h, hv_max_clone_fork_depth = i,
       hv_clone_sysprompt_followup = j, hv_clone_userprompt_prefix = k, hv_clone_disable_tools = l\<rparr> }"

definition ser_hive :: "hive_config \<Rightarrow> table" where
  "ser_hive r = written [(''enabled'', Some (TBool (hv_enabled r))),
     (''agents_dir'', Some (TStr (hv_agents_dir r))), (''max_depth'', Some (ser_uint (hv_max_depth r))),
     (''ipc_mode'', Some (TStr (hv_ipc_mode r))), (''default_model'', Some (TStr (hv_default_model r))),
     (''timeout_seconds'', Some (ser_uint (hv_timeout_seconds r))),
     (''cleanup_temp_files'', Some (TBool (hv_cleanup_temp_files r))),
     (''allow_clones'', Some (TBool (hv_allow_clones r))),
     (''max_clone_fork_depth'', Some (ser_uint (hv_max_clone_fork_depth r))),
     (''clone_sysprompt_followup'', map_option TStr (hv_clone_sysprompt_followup r)),
     (''clone_userprompt_prefix'', map_option TStr (hv_clone_userprompt_prefix r)),
     (''clone_disable_tools'', Some (ser_strs (hv_clone_disable_tools r)))]"

lemma de_ser_hive [simp]: "de_hive (ser_hive r) = Some r"
  by (simp add: de_hive_def ser_hive_def)

record mcp_server_config =
  ms_name :: string
  ms_command :: string
  ms_args :: "string list"
  ms_env :: "(string \<times> string) list option"
  ms_strategy :: "string option"
  ms_native_tools :: "string list"

definition de_mcp_server :: "table \<Rightarrow> mcp_server_config option" where
  "de_mcp_server t = do {
     a \<leftarrow> field_or de_str [] ''name'' t;
     b \<leftarrow> field de_str ''command'' t;
     c \<leftarrow> field_or de_strs [] ''args'' t;
     d \<leftarrow> field_opt (de_map de_str) ''env'' t;
     e \<leftarrow> field_opt de_str ''strategy'' t;
     f \<leftarrow> field_or de_strs [] ''native_tools'' t;
     Some \<lparr>ms_name = a, ms_command = b, ms_args = c, ms_env = d, ms_strategy = e,
       ms_native_tools = f\<rparr> }"

definition ser_mcp_server :: "mcp_server_config \<Rightarrow> table" where
  "ser_mcp_server r = written [(''name'', Some (TStr (ms_name r))), (''command'', Some (TStr (ms_command r))),
     (''args'', Some (ser_strs (ms_args r))), (''env'', map_option (ser_map TStr) (ms_env r)),
     (''strategy'', map_option TStr (ms_strategy r)), (''native_tools'', Some (ser_strs (ms_native_tools r)))]"

lemma de_ser_mcp_server [simp]: "de_mcp_server (ser_mcp_server r) = Some r"
  by (simp add: de_mcp_server_def ser_mcp_server_def)

definition default_cache_dir :: "path option \<Rightarrow> string" where
  "default_cache_dir home =
     (case home of Some h \<Rightarrow> display (path_join h (components ''.zier-alpha/cache/mcp''))
      | None \<Rightarrow> ''~/.zier-alpha/cache/mcp'')"

definition default_idle_timeout :: u64 where "default_idle_timeout = 600"
definition default_mcp_strategy :: string where "default_mcp_strategy = ''hybrid''"

record mcp_config =
  mp_cache_dir :: string
  mp_idle_timeout_secs :: u64
  mp_health_check_interval_secs :: u64
  mp_default_strategy :: string
  mp_servers :: "(string \<times> mcp_server_config) list"

definition de_mcp :: "path option \<Rightarrow> table \<Rightarrow> mcp_config option" where
  "de_mcp home t = do {
     a \<leftarrow> field_or de_str (default_cache_dir home) ''cache_dir'' t;
     b \<leftarrow> field_or de_uint default_idle_timeout ''idle_timeout_secs'' t;
     c \<leftarrow> field_or de_uint 0 ''health_check_interval_secs'' t;
     d \<leftarrow> field_or de_str default_mcp_strategy ''default_strategy'' t;
     e \<leftarrow> field_or (de_map (de_struct de_mcp_server)) [] ''servers'' t;
     Some \<lparr>mp_cache_dir = a, mp_idle_timeout_secs = b, mp_health_check_interval_secs = c,
       mp_default_strategy = d, mp_servers = e\<rparr> }"

definition ser_mcp :: "mcp_config \<Rightarrow> table" where
  "ser_mcp r = written [(''cache_dir'', Some (TStr (mp_cache_dir r))),
     (''idle_timeout_secs'', Some (ser_uint (mp_idle_timeout_secs r))),
     (''health_check_interval_secs'', Some (ser_uint (mp_health_check_interval_secs r))),
     (''default_strategy'', Some (TStr (mp_default_strategy r))),
     (''servers'', Some ((ser_map (TTable \<circ> ser_mcp_server)) (mp_servers r)))]"

lemma de_ser_mcp [simp]: "de_mcp home (ser_mcp r) = Some r"
  by (simp add: de_mcp_def ser_mcp_def)

record extensions_config =
  xn_hive :: "hive_config option"
  xn_mcp :: "mcp_config option"

definition default_extensions :: extensions_config where
  "default_extensions = \<lparr>xn_hive = None, xn_mcp = None\<rparr>"

definition de_extensions :: "path option \<Rightarrow> table \<Rightarrow> extensions_config option" where
  "de_extensions home t = do {
     a \<leftarrow> field_opt (de_struct de_hive) ''hive'' t;
     b \<leftarrow> field_opt (de_struct (de_mcp home)) ''mcp'' t;
     Some \<lparr>xn_hive = a, xn_mcp = b\<rparr> }"

definition ser_extensions :: "extensions_config \<Rightarrow> table" where
  "ser_extensions r = written [(''hive'', map_option (TTable \<circ> ser_hive) (xn_hive r)),
     (''mcp'', map_option (TTable \<circ> ser_mcp) (xn_mcp r))]"

lemma de_ser_extensions [simp]: "de_extensions home (ser_extensions r) = Some r"
  by (simp add: de_extensions_def ser_extensions_def)

subsection \<open>Providers\<close>

definition default_openai_base_url :: string where "default_openai_base_url = ''https://api.openai.com/v1''"
definition default_anthropic_base_url :: string where "default_anthropic_base_url = ''https://api.anthropic.com''"
definition default_ollama_endpoint :: string where "default_ollama_endpoint = ''http://localhost:11434''"
definition default_ollama_model :: string where "default_ollama_model = ''llama3''"
definition default_claude_cli_command :: string where "default_claude_cli_command = ''claude''"
definition default_claude_cli_model :: string where "default_claude_cli_model = ''opus''"
definition default_gemini_base_url :: string where
  "default_gemini_base_url = ''https://generativelanguage.googleapis.com/v1beta''"

text \<open>The settings of OpenAI, Anthropic and Gemini: a key, and an address with a default of its own.\<close>

definition de_key_url :: "string \<Rightarrow> table \<Rightarrow> key_url option" where
  "de_key_url url t = do {
     a \<leftarrow> field de_str ''api_key'' t;
     b \<leftarrow> field_or de_str url ''base_url'' t;
     Some \<lparr>api_key = a, base_url = b\<rparr> }"

definition ser_key_url :: "key_url \<Rightarrow> table" where
  "ser_key_url r = written [(''api_key'', Some (TStr (api_key r))), (''base_url'', Some (TStr (base_url r)))]"

lemma de_ser_key_url [simp]: "de_key_url url (ser_key_url r) = Some r"
  by (simp add: de_key_url_def ser_key_url_def)

definition de_ollama :: "table \<Rightarrow> ollama_config option" where
  "de_ollama t = do {
     a \<leftarrow> field_or de_str default_ollama_endpoint ''endpoint'' t;
     b \<leftarrow> field_or de_str default_ollama_model ''model'' t;
     Some \<lparr>endpoint = a, ollama_model = b\<rparr> }"

definition ser_ollama :: "ollama_config \<Rightarrow> table" where
  "ser_ollama r = written [(''endpoint'', Some (TStr (endpoint r))), (''model'', Some (TStr (ollama_model r)))]"

lemma de_ser_ollama [simp]: "de_ollama (ser_ollama r) = Some r"
  by (simp add: de_ollama_def ser_ollama_def)

definition de_claude_cli :: "table \<Rightarrow> claude_cli_config option" where
  "de_claude_cli t = do {
     a \<leftarrow> field_or de_str default_claude_cli_command ''command'' t;
     b \<leftarrow> field_or de_str default_claude_cli_model ''model'' t;
     Some \<lparr>cli_command = a, cli_model = b\<rparr> }"

definition ser_claude_cli :: "claude_cli_config \<Rightarrow> table" where
  "ser_claude_cli r = written [(''command'', Some (TStr (cli_command r))), (''model'', Some (TStr (cli_model r)))]"

lemma de_ser_claude_cli [simp]: "de_claude_cli (ser_claude_cli r) = Some r"
  by (simp add: de_claude_cli_def ser_claude_cli_def)

record extra_settings =
  xs_api_key :: "string option"
  xs_base_url :: string
  xs_type :: "string option"
  xs_other :: "(string \<times> json) list"

definition rest :: "string list \<Rightarrow> table \<Rightarrow> table" where
  "rest named t = filter (\<lambda>kv. fst kv \<notin> set named) t"

definition extra_fields :: "string list" where "extra_fields = [''api_key'', ''base_url'', ''type'']"

definition de_extra :: "(rat \<Rightarrow> u64) \<Rightarrow> table \<Rightarrow> extra_settings option" where
  "de_extra fl t = do {
     a \<leftarrow> field_opt de_str ''api_key'' t;
     b \<leftarrow> field_or de_str default_openai_base_url ''base_url'' t;
     c \<leftarrow> field_opt de_str ''type'' t;
     d \<leftarrow> de_entries (Some \<circ> toml_json fl) (rest extra_fields t);
     Some \<lparr>xs_api_key = a, xs_base_url = b, xs_type = c, xs_other = d\<rparr> }"

text \<open>Writing what may not be writable: a list of entries whose values are written one by one.\<close>

fun ser_each :: "('a \<Rightarrow> toml option) \<Rightarrow> (string \<times> 'a) list \<Rightarrow> table option" where
  "ser_each f [] = Some []"
| "ser_each f ((k, x) # kvs) = do { v \<leftarrow> f x; t \<leftarrow> ser_each f kvs; Some ((k, v) # t) }"

definition ser_extra :: "(json \<Rightarrow> toml option) \<Rightarrow> extra_settings \<Rightarrow> table option" where
  "ser_extra vt r = do {
     t \<leftarrow> ser_each vt (xs_other r);
     Some (written [(''api_key'', map_option TStr (xs_api_key r)), (''base_url'', Some (TStr (xs_base_url r))),
       (''type'', map_option TStr (xs_type r))] @ t) }"

record provider_settings =
  ps_openai :: "key_url option"
  ps_anthropic :: "key_url option"
  ps_ollama :: "ollama_config option"
  ps_claude_cli :: "claude_cli_config option"
  ps_gemini :: "key_url option"
  ps_extra :: "(string \<times> extra_settings) list"

definition default_providers :: provider_settings where
  "default_providers = \<lparr>ps_openai = None, ps_anthropic = None, ps_ollama = None, ps_claude_cli = None,
     ps_gemini = None, ps_extra = []\<rparr>"

definition provider_fields :: "string list" where
  "provider_fields = [''openai'', ''anthropic'', ''ollama'', ''claude_cli'', ''gemini'']"

definition de_providers :: "(rat \<Rightarrow> u64) \<Rightarrow> table \<Rightarrow> provider_settings option" where
  "de_providers fl t = do {
     a \<leftarrow> field_opt (de_struct (de_key_url default_openai_base_url)) ''openai'' t;
     b \<leftarrow> field_opt (de_struct (de_key_url default_anthropic_base_url)) ''anthropic'' t;
     c \<leftarrow> field_opt (de_struct de_ollama) ''ollama'' t;
     d \<leftarrow> field_opt (de_struct de_claude_cli) ''claude_cli'' t;
     e \<leftarrow> field_opt (de_struct (de_key_url default_gemini_base_url)) ''gemini'' t;
     f \<leftarrow> de_entries (de_struct (de_extra fl)) (rest provider_fields t);
     Some \<lparr>ps_openai = a, ps_anthropic = b, ps_ollama = c, ps_claude_cli = d, ps_gemini = e, ps_extra = f\<rparr> }"

definition ser_providers :: "(json \<Rightarrow> toml option) \<Rightarrow> provider_settings \<Rightarrow> table option" where
  "ser_providers vt r = do {
     t \<leftarrow> ser_each (map_option TTable \<circ> ser_extra vt) (ps_extra r);
     Some (written [(''openai'', map_option (TTable \<circ> ser_key_url) (ps_openai r)),
       (''anthropic'', map_option (TTable \<circ> ser_key_url) (ps_anthropic r)),
       (''ollama'', map_option (TTable \<circ> ser_ollama) (ps_ollama r)),
       (''claude_cli'', map_option (TTable \<circ> ser_claude_cli) (ps_claude_cli r)),
       (''gemini'', map_option (TTable \<circ> ser_key_url) (ps_gemini r))] @ t) }"

subsection \<open>Models\<close>

definition de_fallback :: "table \<Rightarrow> fallback_settings option" where
  "de_fallback t = do {
     a \<leftarrow> field de_str ''default'' t;
     b \<leftarrow> field de_strs ''allow'' t;
     c \<leftarrow> field de_strs ''deny'' t;
     Some \<lparr>fb_default = a, fb_allow = b, fb_deny = c\<rparr> }"

definition ser_fallback :: "fallback_settings \<Rightarrow> table" where
  "ser_fallback r = written [(''default'', Some (TStr (fb_default r))), (''allow'', Some (ser_strs (fb_allow r))),
     (''deny'', Some (ser_strs (fb_deny r)))]"

lemma de_ser_fallback [simp]: "de_fallback (ser_fallback r) = Some r"
  by (simp add: de_fallback_def ser_fallback_def)

definition de_model :: "(rat \<Rightarrow> u64) \<Rightarrow> table \<Rightarrow> model_config option" where
  "de_model fl t = do {
     a \<leftarrow> field_opt de_str ''provider'' t;
     b \<leftarrow> field_opt de_str ''api_base'' t;
     c \<leftarrow> field_opt de_str ''api_key_env'' t;
     d \<leftarrow> field de_str ''model'' t;
     e \<leftarrow> field_opt de_str ''extend'' t;
     f \<leftarrow> field_opt de_uint ''timeout'' t;
     g \<leftarrow> field_opt (Some \<circ> toml_json fl) ''extra_body'' t;
     h \<leftarrow> field_opt de_strs ''fallback_models'' t;
     i \<leftarrow> field_opt (de_struct de_fallback) ''fallback_settings'' t;
     j \<leftarrow> field_opt de_strs ''aliases'' t;
     k \<leftarrow> field_opt de_bool ''supports_vision'' t;
     l \<leftarrow> field_opt de_str ''tokenizer_name'' t;
     Some \<lparr>mc_provider = a, api_base = b, api_key_env = c, mc_model = d, mc_extend = e, timeout = f,
       extra_body = g, fallback_models = h, mc_fallback_settings = i, aliases = j, supports_vision = k,
       tokenizer_name = l\<rparr> }"

definition ser_model :: "(json \<Rightarrow> toml option) \<Rightarrow> model_config \<Rightarrow> table option" where
  "ser_model vt r = do {
     body \<leftarrow> (case extra_body r of None \<Rightarrow> Some None | Some j \<Rightarrow> map_option Some (vt j));
     Some (written [(''provider'', map_option TStr (mc_provider r)),
     (''api_base'', map_option TStr (api_base r)), (''api_key_env'', map_option TStr (api_key_env r)),
     (''model'', Some (TStr (mc_model r))), (''extend'', map_option TStr (mc_extend r)),
     (''timeout'', map_option ser_uint (timeout r)), (''extra_body'', body),
     (''fallback_models'', map_option ser_strs (fallback_models r)),
     (''fallback_settings'', map_option (TTable \<circ> ser_fallback) (mc_fallback_settings r)),
     (''aliases'', map_option ser_strs (aliases r)), (''supports_vision'', map_option TBool (supports_vision r)),
     (''tokenizer_name'', map_option TStr (tokenizer_name r))]) }"

subsection \<open>The document\<close>

record config =
  cf_agent :: agent_settings
  cf_providers :: provider_settings
  cf_models :: "(string \<times> model_config) list"
  cf_heartbeat :: heartbeat_config
  cf_memory :: memory_config
  cf_server :: server_config
  cf_logging :: logging_config
  cf_tools :: tools_settings
  cf_vision :: vision_config
  cf_workdir :: workdir_config
  cf_extensions :: extensions_config
  cf_disk :: disk_settings
  cf_ingress :: debounce_config
  cf_sandbox :: sandbox_policy

definition default_config :: config where
  "default_config = \<lparr>cf_agent = default_agent, cf_providers = default_providers, cf_models = [],
     cf_heartbeat = default_heartbeat, cf_memory = default_memory, cf_server = default_server,
     cf_logging = default_logging, cf_tools = default_tools, cf_vision = default_vision, cf_workdir = default_workdir,
     cf_extensions = default_extensions, cf_disk = default_disk, cf_ingress = default_ingress,
     cf_sandbox = default_sandbox\<rparr>"

definition de_config :: "path option \<Rightarrow> (rat \<Rightarrow> u64) \<Rightarrow> table \<Rightarrow> config option" where
  "de_config home fl t = do {
     a \<leftarrow> field_or (de_struct de_agent) default_agent ''agent'' t;
     b \<leftarrow> field_or (de_struct (de_providers fl)) default_providers ''providers'' t;
     c \<leftarrow> field_or (de_map (de_struct (de_model fl))) [] ''models'' t;
     d \<leftarrow> field_or (de_struct de_heartbeat) default_heartbeat ''heartbeat'' t;
     e \<leftarrow> field_or (de_struct de_memory) default_memory ''memory'' t;
     f \<leftarrow> field_or (de_struct de_server) default_server ''server'' t;
     g \<leftarrow> field_or (de_struct de_logging) default_logging ''logging'' t;
     h \<leftarrow> field_or (de_struct de_tools) default_tools ''tools'' t;
     i \<leftarrow> field_or (de_struct de_vision) default_vision ''vision'' t;
     j \<leftarrow> field_or (de_struct de_workdir) default_workdir ''workdir'' t;
     k \<leftarrow> field_or (de_struct (de_extensions home)) default_extensions ''extensions'' t;
     l \<leftarrow> field_or (de_struct de_disk) default_disk ''disk'' t;
     m \<leftarrow> field_or (de_struct de_ingress) default_ingress ''ingress'' t;
     n \<leftarrow> field_or (de_struct de_sandbox) default_sandbox ''sandbox'' t;
     Some \<lparr>cf_agent = a, cf_providers = b, cf_models = c, cf_heartbeat = d, cf_memory = e, cf_server = f,
       cf_logging = g, cf_tools = h, cf_vision = i, cf_workdir = j, cf_extensions = k, cf_disk = l, cf_ingress = m,
       cf_sandbox = n\<rparr> }"

definition ser_config :: "(json \<Rightarrow> toml option) \<Rightarrow> config \<Rightarrow> table option" where
  "ser_config vt r = do {
     providers \<leftarrow> ser_providers vt (cf_providers r);
     models \<leftarrow> ser_each (map_option TTable \<circ> ser_model vt) (cf_models r);
     Some (written [(''agent'', Some (TTable (ser_agent (cf_agent r)))), (''providers'', Some (TTable providers)),
       (''models'', Some (TTable models)), (''heartbeat'', Some (TTable (ser_heartbeat (cf_heartbeat r)))),
       (''memory'', Some (TTable (ser_memory (cf_memory r)))),
       (''server'', Some (TTable (ser_server (cf_server r)))),
       (''logging'', Some (TTable (ser_logging (cf_logging r)))),
       (''tools'', Some (TTable (ser_tools (cf_tools r)))),
       (''vision'', Some (TTable (ser_vision (cf_vision r)))),
       (''workdir'', Some (TTable (ser_workdir (cf_workdir r)))),
       (''extensions'', Some (TTable (ser_extensions (cf_extensions r)))),
       (''disk'', Some (TTable (ser_disk (cf_disk r)))), (''ingress'', Some (TTable (ser_ingress (cf_ingress r)))),
       (''sandbox'', Some (TTable (ser_sandbox (cf_sandbox r))))]) }"

subsection \<open>What was read is read again\<close>

text \<open>The configurations a document is read as: no entry of a flattened map has the key of a field.\<close>

definition debounce_fits :: "debounce_config \<Rightarrow> bool" where
  "debounce_fits d \<longleftrightarrow> max_debounce_messages d < 2 ^ 64 \<and> max_debounce_chars d < 2 ^ 64"

definition disjoint_keys :: "string list \<Rightarrow> (string \<times> 'a) list \<Rightarrow> bool" where
  "disjoint_keys named kvs \<longleftrightarrow> list_all (\<lambda>kv. fst kv \<notin> set named) kvs"

definition readable :: "config \<Rightarrow> bool" where
  "readable c \<longleftrightarrow>
     disjoint_keys provider_fields (ps_extra (cf_providers c))
     \<and> list_all (\<lambda>kv. disjoint_keys extra_fields (xs_other (snd kv))) (ps_extra (cf_providers c))
     \<and> au_openai_model (sv_audio (cf_server c)) \<noteq> None
     \<and> debounce_fits (sv_ingress (cf_server c)) \<and> debounce_fits (cf_ingress c)"

lemma map_of_append_disjoint [simp]:
  "disjoint_keys named xs \<Longrightarrow> k \<in> set named \<Longrightarrow> map_of (t @ xs) k = map_of t k"
  by (induction t) (auto simp: disjoint_keys_def list_all_iff map_of_eq_None_iff [THEN iffD2] map_add_def
    split: option.splits intro!: map_of_eq_None_iff [THEN iffD2])

definition writes_values :: "(rat \<Rightarrow> u64) \<Rightarrow> (json \<Rightarrow> toml option) \<Rightarrow> bool" where
  "writes_values fl vt \<longleftrightarrow> (\<forall>j t. vt j = Some t \<longrightarrow> toml_json fl t = j)"

lemma fields_append_disjoint [simp]:
  assumes "disjoint_keys named xs" "k \<in> set named"
  shows "field_opt d k (t @ xs) = field_opt d k t" "field_or e x k (t @ xs) = field_or e x k t"
  using assms by (simp_all add: field_opt_def field_or_def del: map_of_append)

lemma rest_written [simp]: "fst ` set t \<subseteq> set named \<Longrightarrow> rest named (written t) = []"
  by (induction t) (auto simp: rest_def written.simps split: option.split)

lemma rest_append [simp]: "rest named (t @ xs) = rest named t @ rest named xs"
  by (simp add: rest_def)

lemma rest_disjoint [simp]: "disjoint_keys named xs \<Longrightarrow> rest named xs = xs"
  by (simp add: rest_def disjoint_keys_def list_all_iff)

lemma ser_each_keys: "ser_each f kvs = Some t \<Longrightarrow> map fst t = map fst kvs"
  by (induction kvs arbitrary: t) (auto simp: bind_eq_Some_conv)

lemma disjoint_keys_iff: "disjoint_keys named kvs \<longleftrightarrow> list_all (\<lambda>k. k \<notin> set named) (map fst kvs)"
  by (simp add: disjoint_keys_def list.pred_map comp_def)

lemma ser_each_disjoint: "ser_each f kvs = Some t \<Longrightarrow> disjoint_keys named t = disjoint_keys named kvs"
  by (simp only: disjoint_keys_iff ser_each_keys)

lemma de_ser_each:
  assumes "ser_each f kvs = Some t" "\<And>k x v. (k, x) \<in> set kvs \<Longrightarrow> f x = Some v \<Longrightarrow> d v = Some x"
  shows "de_entries d t = Some kvs"
  using assms
proof (induction kvs arbitrary: t)
  case (Cons kx kvs)
  obtain k x where kx: "kx = (k, x)" by (cases kx)
  from Cons.prems(1) obtain v t' where v: "f x = Some v" "ser_each f kvs = Some t'" "t = (k, v) # t'"
    by (auto simp: kx bind_eq_Some_conv)
  have "d v = Some x" by (rule Cons.prems(2) [of k]) (simp_all add: kx v)
  moreover have "de_entries d t' = Some kvs" using Cons.prems(2) by (intro Cons.IH [OF v(2)]) auto
  ultimately show ?case by (simp add: v kx)
qed simp

lemma de_entries_keys: "de_entries d t = Some kvs \<Longrightarrow> map fst t = map fst kvs"
  by (induction d t arbitrary: kvs rule: de_entries.induct) (auto simp: bind_eq_Some_conv)

lemma de_rest_disjoint: "de_entries d (rest named t) = Some kvs \<Longrightarrow> disjoint_keys named kvs"
  by (simp only: disjoint_keys_iff de_entries_keys [symmetric]) (simp add: rest_def list_all_iff)

lemma de_ser_model:
  assumes "writes_values fl vt" "ser_model vt r = Some t"
  shows "de_model fl t = Some r"
proof (cases "extra_body r")
  case None
  then show ?thesis using assms(2) by (auto simp: ser_model_def de_model_def)
next
  case (Some j)
  then show ?thesis using assms by (auto simp: ser_model_def de_model_def writes_values_def bind_eq_Some_conv)
qed

lemma de_ser_extra:
  assumes "writes_values fl vt" "ser_extra vt r = Some t" "disjoint_keys extra_fields (xs_other r)"
  shows "de_extra fl t = Some r"
proof -
  from assms(2) obtain t' where t': "ser_each vt (xs_other r) = Some t'"
    and t: "t = written [(''api_key'', map_option TStr (xs_api_key r)), (''base_url'', Some (TStr (xs_base_url r))),
       (''type'', map_option TStr (xs_type r))] @ t'"
    by (auto simp: ser_extra_def bind_eq_Some_conv)
  have d: "disjoint_keys extra_fields t'" using assms(3) t' by (simp add: ser_each_disjoint)
  have "de_entries (Some \<circ> toml_json fl) t' = Some (xs_other r)"
    using assms(1) by (intro de_ser_each [OF t']) (simp add: writes_values_def)
  then show ?thesis using d by (simp add: de_extra_def t extra_fields_def)
qed

lemma de_ser_providers:
  assumes "writes_values fl vt" "ser_providers vt r = Some t" "disjoint_keys provider_fields (ps_extra r)"
    "list_all (\<lambda>kv. disjoint_keys extra_fields (xs_other (snd kv))) (ps_extra r)"
  shows "de_providers fl t = Some r"
proof -
  from assms(2) obtain t' where t': "ser_each (map_option TTable \<circ> ser_extra vt) (ps_extra r) = Some t'"
    and t: "t = written [(''openai'', map_option (TTable \<circ> ser_key_url) (ps_openai r)),
       (''anthropic'', map_option (TTable \<circ> ser_key_url) (ps_anthropic r)),
       (''ollama'', map_option (TTable \<circ> ser_ollama) (ps_ollama r)),
       (''claude_cli'', map_option (TTable \<circ> ser_claude_cli) (ps_claude_cli r)),
       (''gemini'', map_option (TTable \<circ> ser_key_url) (ps_gemini r))] @ t'"
    by (auto simp: ser_providers_def bind_eq_Some_conv)
  have d: "disjoint_keys provider_fields t'" using assms(3) t' by (simp add: ser_each_disjoint)
  have "de_entries (de_struct (de_extra fl)) t' = Some (ps_extra r)"
  proof (rule de_ser_each [OF t'])
    fix k x v
    assume "(k, x) \<in> set (ps_extra r)" "(map_option TTable \<circ> ser_extra vt) x = Some v"
    moreover from this have "disjoint_keys extra_fields (xs_other x)" using assms(4) by (auto simp: list_all_iff)
    ultimately show "de_struct (de_extra fl) v = Some x" using de_ser_extra [OF assms(1)] by auto
  qed
  then show ?thesis using d by (simp add: de_providers_def t provider_fields_def)
qed

lemma de_ser_server:
  assumes "au_openai_model (sv_audio r) \<noteq> None" "debounce_fits (sv_ingress r)"
  shows "de_server (ser_server r) = Some r"
  using assms by (cases "au_openai_model (sv_audio r)")
    (auto simp: de_server_def ser_server_def de_ser_audio debounce_fits_def)

lemma de_ser_config:
  assumes V: "writes_values fl vt" and t: "ser_config vt c = Some t" and c: "readable c"
  shows "de_config home fl t = Some c"
proof -
  from t obtain ps ms where ps: "ser_providers vt (cf_providers c) = Some ps"
    and ms: "ser_each (map_option TTable \<circ> ser_model vt) (cf_models c) = Some ms"
    by (auto simp: ser_config_def bind_eq_Some_conv)
  have "de_providers fl ps = Some (cf_providers c)" using c by (intro de_ser_providers [OF V ps]) (simp_all add: readable_def)
  moreover have "de_entries (de_struct (de_model fl)) ms = Some (cf_models c)"
    by (rule de_ser_each [OF ms]) (auto simp: de_ser_model [OF V])
  moreover have "de_server (ser_server (cf_server c)) = Some (cf_server c)"
    using c by (intro de_ser_server) (simp_all add: readable_def)
  moreover have "de_ingress (ser_ingress (cf_ingress c)) = Some (cf_ingress c)"
    using c by (simp add: readable_def debounce_fits_def)
  ultimately show ?thesis using t ps ms by (auto simp: ser_config_def de_config_def de_map_def)
qed

subsection \<open>What is read is readable\<close>

lemma field_bounds:
  assumes "field_or de_usize e k t = Some n" "e < 2 ^ 64"
  shows "n < 2 ^ 64"
proof (cases "map_of t k")
  case (Some v)
  then show ?thesis using assms by (cases v) (auto simp: field_or_def split: if_splits)
qed (use assms in \<open>simp add: field_or_def\<close>)

lemma de_ingress_fits: "de_ingress t = Some d \<Longrightarrow> debounce_fits d"
  by (auto simp: de_ingress_def bind_eq_Some_conv debounce_fits_def default_max_debounce_messages_def
    default_max_debounce_chars_def dest!: field_bounds)

lemma field_struct_cases:
  assumes "field_or (de_struct d) x k t = Some y" "P x" "\<And>kvs z. d kvs = Some z \<Longrightarrow> P z"
  shows "P y"
proof (cases "map_of t k")
  case (Some v)
  then show ?thesis using assms by (cases v) (auto simp: field_or_def)
qed (use assms in \<open>simp add: field_or_def\<close>)

lemma default_ingress_fits [simp]: "debounce_fits default_ingress"
  by (simp add: debounce_fits_def default_ingress_def default_max_debounce_messages_def default_max_debounce_chars_def)

lemma de_audio_model:
  assumes "de_audio t = Some a"
  shows "au_openai_model a \<noteq> None"
proof -
  from assms obtain m where m: "field_or (map_option Some \<circ> de_str) default_openai_audio_model ''openai_model'' t = Some m"
    and a: "au_openai_model a = m"
    by (auto simp: de_audio_def bind_eq_Some_conv)
  have "m \<noteq> None"
    using m by (auto simp: field_or_def default_openai_audio_model_def split: option.splits)
  then show ?thesis by (simp add: a)
qed

lemma de_server_readable:
  assumes "de_server t = Some s"
  shows "au_openai_model (sv_audio s) \<noteq> None \<and> debounce_fits (sv_ingress s)"
proof -
  from assms have a: "field_or (de_struct de_audio) default_audio ''audio'' t = Some (sv_audio s)"
    and i: "field_or (de_struct de_ingress) default_ingress ''ingress'' t = Some (sv_ingress s)"
    by (auto simp: de_server_def bind_eq_Some_conv)
  have "au_openai_model (sv_audio s) \<noteq> None"
    by (rule field_struct_cases [OF a]) (simp_all add: default_audio_def default_openai_audio_model_def de_audio_model)
  moreover have "debounce_fits (sv_ingress s)"
    by (rule field_struct_cases [OF i]) (simp_all add: de_ingress_fits)
  ultimately show ?thesis ..
qed

lemma de_extra_disjoint: "de_extra fl t = Some r \<Longrightarrow> disjoint_keys extra_fields (xs_other r)"
  by (auto simp: de_extra_def bind_eq_Some_conv dest: de_rest_disjoint)

lemma de_entries_all:
  assumes "de_entries d t = Some kvs" "\<And>v x. d v = Some x \<Longrightarrow> P x"
  shows "list_all (\<lambda>kv. P (snd kv)) kvs"
  using assms by (induction d t arbitrary: kvs rule: de_entries.induct) (auto simp: bind_eq_Some_conv)

lemma de_providers_disjoint:
  assumes "de_providers fl t = Some r"
  shows "disjoint_keys provider_fields (ps_extra r)
    \<and> list_all (\<lambda>kv. disjoint_keys extra_fields (xs_other (snd kv))) (ps_extra r)"
proof -
  from assms have r: "de_entries (de_struct (de_extra fl)) (rest provider_fields t) = Some (ps_extra r)"
    by (auto simp: de_providers_def bind_eq_Some_conv)
  have "list_all (\<lambda>kv. disjoint_keys extra_fields (xs_other (snd kv))) (ps_extra r)"
  proof (rule de_entries_all [OF r])
    fix v x assume "de_struct (de_extra fl) v = Some x"
    then show "disjoint_keys extra_fields (xs_other x)" by (cases v) (simp_all add: de_extra_disjoint)
  qed
  then show ?thesis using de_rest_disjoint [OF r] by simp
qed

lemma de_config_readable:
  assumes "de_config home fl t = Some c"
  shows "readable c"
proof -
  from assms have p: "field_or (de_struct (de_providers fl)) default_providers ''providers'' t = Some (cf_providers c)"
    and s: "field_or (de_struct de_server) default_server ''server'' t = Some (cf_server c)"
    and i: "field_or (de_struct de_ingress) default_ingress ''ingress'' t = Some (cf_ingress c)"
    by (auto simp: de_config_def bind_eq_Some_conv)
  have "disjoint_keys provider_fields (ps_extra (cf_providers c))
    \<and> list_all (\<lambda>kv. disjoint_keys extra_fields (xs_other (snd kv))) (ps_extra (cf_providers c))"
    by (rule field_struct_cases [OF p])
      (simp add: default_providers_def disjoint_keys_def, rule de_providers_disjoint)
  moreover have "au_openai_model (sv_audio (cf_server c)) \<noteq> None \<and> debounce_fits (sv_ingress (cf_server c))"
    by (rule field_struct_cases [OF s])
      (simp_all add: de_server_readable default_server_def default_audio_def default_openai_audio_model_def)
  moreover have "debounce_fits (cf_ingress c)"
    by (rule field_struct_cases [OF i]) (simp_all add: de_ingress_fits)
  ultimately show ?thesis by (simp add: readable_def)
qed

text \<open>C17: 
  A configuration that was read from a document, written again and read again is the same configuration: no
  setting is lost, none changes and none is taken for another, the custom providers and the fields of theirs that no
  struct names included. What is not written, a value of \<open>serde_json\<close> that TOML has no form for, is an error of the
  writer.
\<close>

theorem config_saved_is_read:
  assumes "de_config home fl t = Some c" "writes_values fl vt" "ser_config vt c = Some t'"
  shows "de_config home fl t' = Some c"
  using assms by (intro de_ser_config) (auto intro: de_config_readable)

definition sample_vt :: "json \<Rightarrow> toml option" where
  "sample_vt j = (case j of JStr s \<Rightarrow> Some (TStr s) | JBool b \<Rightarrow> Some (TBool b) | JInt n \<Rightarrow> Some (TInt n) | _ \<Rightarrow> None)"

definition sample_document :: table where
  "sample_document =
     [(''providers'', TTable [(''openrouter'', TTable [(''api_key'', TStr ''$KEY''), (''project'', TInt 7)])]),
      (''models'', TTable [(''fast'', TTable [(''model'', TStr ''openai/gpt-4o''), (''extra_body'', TStr ''x'')])]),
      (''server'', TTable [(''port'', TInt 80)])]"

lemma sample_writes_values: "writes_values fl sample_vt"
  by (auto simp: writes_values_def sample_vt_def split: json.splits)

theorem config_saved_is_read_witness:
  "\<exists>c t'. de_config None (\<lambda>q. 0) sample_document = Some c \<and> ser_config sample_vt c = Some t'
    \<and> de_config None (\<lambda>q. 0) t' = Some c"
proof -
  have "de_config None (\<lambda>q. 0) sample_document \<noteq> None"
    by (simp add: sample_document_def de_config_def de_providers_def de_extra_def de_map_def de_model_def
      de_server_def field_def field_or_def field_opt_def rest_def provider_fields_def extra_fields_def)
  then obtain c where c: "de_config None (\<lambda>q. 0) sample_document = Some c" by auto
  then have "ser_config sample_vt c \<noteq> None"
    by (auto simp: sample_document_def de_config_def de_providers_def de_extra_def de_map_def de_model_def
      de_server_def field_def field_or_def field_opt_def rest_def provider_fields_def extra_fields_def
      ser_config_def ser_providers_def ser_extra_def ser_model_def sample_vt_def)
  then obtain t' where t': "ser_config sample_vt c = Some t'" by auto
  from config_saved_is_read [OF c sample_writes_values t'] c t' show ?thesis by blast
qed

definition config_sections :: "string list" where
  "config_sections = [''agent'', ''providers'', ''models'', ''heartbeat'', ''memory'', ''server'', ''logging'', ''tools'',
     ''vision'', ''workdir'', ''extensions'', ''disk'', ''ingress'', ''sandbox'']"

lemmas read_defs =
  de_config_def de_map_def de_agent_def de_providers_def de_heartbeat_def de_memory_def de_server_def de_logging_def
  de_tools_def de_vision_def de_workdir_def de_extensions_def de_disk_def de_ingress_def de_sandbox_def
  field_or_def field_opt_def rest_def

lemmas default_defs =
  default_config_def default_agent_def default_providers_def default_heartbeat_def default_memory_def
  default_server_def default_logging_def default_tools_def default_vision_def default_workdir_def
  default_extensions_def default_disk_def default_ingress_def default_sandbox_def default_vision_fallback_model_def

text \<open>
  An empty document is the default configuration, and so is one with an empty section, with one exception: the
  vision settings, whose default is not the one of their fields. Naming the section switches the fallback on.
\<close>

theorem config_defaults:
  "de_config home fl [] = Some default_config
   \<and> list_all (\<lambda>s. de_config home fl [(s, TTable [])] = Some default_config \<longleftrightarrow> s \<noteq> ''vision'') config_sections
   \<and> vs_enabled (cf_vision default_config) = False
   \<and> map_option (vs_enabled \<circ> cf_vision) (de_config home fl [(''vision'', TTable [])]) = Some True"
  by (simp add: config_sections_def read_defs default_defs)

end
