(* ===== verification/Config_Loading.thy ===== *)
theory Config_Loading
  imports Config_Document
begin

text \<open>
  Loading, checking, changing and saving the configuration (\<^verbatim>\<open>src/src/config/mod.rs\<close>) and the command
  \<^verbatim>\<open>config\<close> (\<^verbatim>\<open>src/src/cli/config.rs\<close>). The state is the file of the configuration: it is not there, it cannot be
  read, it is no TOML, or it is a document. The environment is a parameter.
\<close>

datatype config_file = Missing | Unreadable | Unparsable | Document table

text \<open>
  \<open>ce_digit\<close> says which code points beyond ASCII are digits, \<open>ce_glob\<close> is the error of a pattern of the crate \<open>glob\<close>,
  \<open>ce_failed_write\<close> what a write that fails leaves behind.
\<close>

record config_env =
  ce_home :: "path option"
  ce_var :: "string \<Rightarrow> string option"
  ce_tilde :: "string \<Rightarrow> string"
  ce_float :: "rat \<Rightarrow> u64"
  ce_value :: "json \<Rightarrow> toml option"
  ce_glob :: "string \<Rightarrow> string option"
  ce_digit :: "string \<Rightarrow> bool"
  ce_show :: "tfloat \<Rightarrow> string"
  ce_failed_write :: "config_file option"

datatype load_error =
    NoHome
  | ReadFailed
  | ParseFailed
  | ValidationFailed string
  | SerializeFailed
  | WriteFailed

subsection \<open>References to the environment\<close>

definition expand_env :: "(string \<Rightarrow> string option) \<Rightarrow> string \<Rightarrow> string" where
  "expand_env var s =
     (case Option.bind (strip_prefix s ''${'') (\<lambda>r. strip_suffix r ''}'') of
        Some var_name \<Rightarrow> unwrap_or (var var_name) s
      | None \<Rightarrow>
          (case strip_prefix s ''$'' of
             Some var_name \<Rightarrow> unwrap_or (var var_name) s
           | None \<Rightarrow> s))"

definition expand_key :: "(string \<Rightarrow> string option) \<Rightarrow> key_url \<Rightarrow> key_url" where
  "expand_key var k = k\<lparr>api_key := expand_env var (api_key k)\<rparr>"

definition expand_providers :: "(string \<Rightarrow> string option) \<Rightarrow> provider_settings \<Rightarrow> provider_settings" where
  "expand_providers var p =
     p\<lparr>ps_openai := map_option (expand_key var) (ps_openai p),
       ps_anthropic := map_option (expand_key var) (ps_anthropic p),
       ps_extra := map (\<lambda>(k, x). (k, x\<lparr>xs_api_key := map_option (expand_env var) (xs_api_key x)\<rparr>)) (ps_extra p)\<rparr>"

definition expand_env_vars :: "(string \<Rightarrow> string option) \<Rightarrow> config \<Rightarrow> config" where
  "expand_env_vars var c = c\<lparr>cf_providers := expand_providers var (cf_providers c)\<rparr>"

subsection \<open>Checks\<close>

definition regex_digit :: "config_env \<Rightarrow> string \<Rightarrow> bool" where
  "regex_digit env c = (if length c = 1 then is_ascii_digit (hd c) else ce_digit env c)"

definition hh_mm :: "config_env \<Rightarrow> string \<Rightarrow> bool" where
  "hh_mm env s =
     (case chars s of
        [a, b, c, d, e] \<Rightarrow> regex_digit env a \<and> regex_digit env b \<and> c = '':'' \<and> regex_digit env d \<and> regex_digit env e
      | _ \<Rightarrow> False)"

definition validate_heartbeat :: "heartbeat_config \<Rightarrow> (string, unit) res" where
  "validate_heartbeat h =
     (if hb_enabled h \<and> trim (hb_interval h) = [] then Inl ''Heartbeat interval cannot be empty'' else Inr ())"

definition validate_hours :: "config_env \<Rightarrow> heartbeat_config \<Rightarrow> (string, unit) res" where
  "validate_hours env h =
     (case hb_active_hours h of
        None \<Rightarrow> Inr ()
      | Some a \<Rightarrow>
          if \<not> hh_mm env (ah_start a)
          then Inl (''Invalid active hours start format: '' @ ah_start a @ ''. Expected HH:MM'')
          else if \<not> hh_mm env (ah_end a)
          then Inl (''Invalid active hours end format: '' @ ah_end a @ ''. Expected HH:MM'')
          else Inr ())"

definition validate_keys :: "provider_settings \<Rightarrow> (string, unit) res" where
  "validate_keys p =
     (if map_option api_key (ps_openai p) = Some [] then Inl ''OpenAI API key is missing''
      else if map_option api_key (ps_anthropic p) = Some [] then Inl ''Anthropic API key is missing''
      else Inr ())"

fun below_zero :: "tfloat \<Rightarrow> bool" where
  "below_zero (Finite q) = (q < 0)" | "below_zero (Infinite positive) = (\<not> positive)" | "below_zero NaN = False"

fun above_hundred :: "tfloat \<Rightarrow> bool" where
  "above_hundred (Finite q) = (100 < q)" | "above_hundred (Infinite positive) = positive" | "above_hundred NaN = False"

definition validate_disk :: "config_env \<Rightarrow> disk_settings \<Rightarrow> (string, unit) res" where
  "validate_disk env d =
     (if below_zero (dk_min_free_percent d) \<or> above_hundred (dk_min_free_percent d)
      then Inl (''disk.min_free_percent must be between 0.0 and 100.0 (got '' @ ce_show env (dk_min_free_percent d) @ '')'')
      else Inr ())"

fun validate_patterns :: "config_env \<Rightarrow> string \<Rightarrow> string \<Rightarrow> string list \<Rightarrow> (string, unit) res" where
  "validate_patterns env what name [] = Inr ()"
| "validate_patterns env what name (p # ps) =
     (case ce_glob env p of
        Some e \<Rightarrow> Inl (''Invalid glob pattern in fallback '' @ what @ '' list for model '' @ [CHR 0x27] @ name @ [CHR 0x27]
          @ '': '' @ e)
      | None \<Rightarrow> validate_patterns env what name ps)"

definition validate_model :: "config_env \<Rightarrow> string \<Rightarrow> model_config \<Rightarrow> (string, unit) res" where
  "validate_model env name m =
     (if mc_extend m = Some name then Inl (''Model '' @ [CHR 0x27] @ name @ [CHR 0x27] @ '' cannot extend itself'')
      else
        (case mc_fallback_settings m of
           None \<Rightarrow> Inr ()
         | Some fallback \<Rightarrow>
             bind_res (validate_patterns env ''allow'' name (fb_allow fallback))
               (\<lambda>_. validate_patterns env ''deny'' name (fb_deny fallback))))"

fun validate_models :: "config_env \<Rightarrow> (string \<times> model_config) list \<Rightarrow> (string, unit) res" where
  "validate_models env [] = Inr ()"
| "validate_models env ((name, m) # ms) = bind_res (validate_model env name m) (\<lambda>_. validate_models env ms)"

text \<open>The check of the approval list and of the audio settings have no effect but a warning.\<close>

definition validate :: "config_env \<Rightarrow> config \<Rightarrow> (string, unit) res" where
  "validate env c =
     bind_res (validate_heartbeat (cf_heartbeat c)) (\<lambda>_.
     bind_res (validate_hours env (cf_heartbeat c)) (\<lambda>_.
     bind_res (validate_keys (cf_providers c)) (\<lambda>_.
     bind_res (validate_disk env (cf_disk c)) (\<lambda>_.
       validate_models env (cf_models c)))))"

datatype audio_warning = NoLocalCommand | NoOpenaiProvider | NoGeminiProvider | UnknownBackend string

definition audio_warnings :: "config \<Rightarrow> audio_warning list" where
  "audio_warnings c =
     (let a = sv_audio (cf_server c) in
      if \<not> au_enabled a then []
      else if au_backend a = ''local'' then (if au_local_command a = None then [NoLocalCommand] else [])
      else if au_backend a = ''openai'' then (if ps_openai (cf_providers c) = None then [NoOpenaiProvider] else [])
      else if au_backend a = ''gemini'' then (if ps_gemini (cf_providers c) = None then [NoGeminiProvider] else [])
      else [UnknownBackend (au_backend a)])"

subsection \<open>Loading and saving\<close>

text \<open>The document that \<open>DEFAULT_CONFIG_TEMPLATE\<close> is, without its comments.\<close>

definition DEFAULT_CONFIG_TEMPLATE :: table where
  "DEFAULT_CONFIG_TEMPLATE =
     [(''agent'', TTable [(''default_model'', TStr ''claude-cli/opus''), (''context_window'', TInt 128000),
        (''reserve_tokens'', TInt 8000)]),
      (''providers'', TTable [(''claude_cli'', TTable [(''command'', TStr ''claude'')])]),
      (''heartbeat'', TTable [(''enabled'', TBool True), (''interval'', TStr ''30m'')]),
      (''memory'', TTable [(''workspace'', TStr ''~/.zier-alpha/workspace''), (''embedding_provider'', TStr ''none'')]),
      (''server'', TTable [(''enabled'', TBool True), (''port'', TInt 31327), (''bind'', TStr ''127.0.0.1''),
        (''openai_proxy'', TTable [(''enabled'', TBool True), (''port'', TInt 37777), (''bind'', TStr ''127.0.0.1'')])]),
      (''logging'', TTable [(''level'', TStr ''info'')]),
      (''workdir'', TTable [(''strategy'', TStr ''overlay'')])]"

definition config_path :: "config_env \<Rightarrow> (load_error, path) res" where
  "config_path env =
     (case ce_home env of
        None \<Rightarrow> Inl NoHome
      | Some h \<Rightarrow> Inr (path_join h (components ''.zier-alpha/config.toml'')))"

definition write_config :: "config_env \<Rightarrow> table \<Rightarrow> (load_error, unit) res \<times> config_file" where
  "write_config env t =
     (case ce_failed_write env of None \<Rightarrow> (Inr (), Document t) | Some left \<Rightarrow> (Inl WriteFailed, left))"

definition save_with_template :: "config_env \<Rightarrow> config_file \<Rightarrow> (load_error, unit) res \<times> config_file" where
  "save_with_template env f =
     (case config_path env of Inl e \<Rightarrow> (Inl e, f) | Inr _ \<Rightarrow> write_config env DEFAULT_CONFIG_TEMPLATE)"

definition save_config :: "config_env \<Rightarrow> config \<Rightarrow> config_file \<Rightarrow> (load_error, unit) res \<times> config_file" where
  "save_config env c f =
     (case config_path env of
        Inl e \<Rightarrow> (Inl e, f)
      | Inr _ \<Rightarrow>
          (case ser_config (ce_value env) c of
             None \<Rightarrow> (Inl SerializeFailed, f)
           | Some t \<Rightarrow> if toml_fits (TTable t) then write_config env t else (Inl SerializeFailed, f)))"

definition load_config :: "config_env \<Rightarrow> config_file \<Rightarrow> (load_error, config) res \<times> config_file" where
  "load_config env f =
     (case config_path env of
        Inl e \<Rightarrow> (Inl e, f)
      | Inr _ \<Rightarrow>
          (case f of
             Missing \<Rightarrow>
               (case save_with_template env f of
                  (Inl e, f') \<Rightarrow> (Inl e, f')
                | (Inr _, f') \<Rightarrow> (Inr default_config, f'))
           | Unreadable \<Rightarrow> (Inl ReadFailed, f)
           | Unparsable \<Rightarrow> (Inl ParseFailed, f)
           | Document t \<Rightarrow>
               (case de_config (ce_home env) (ce_float env) t of
                  None \<Rightarrow> (Inl ParseFailed, f)
                | Some c0 \<Rightarrow>
                    let c = expand_env_vars (ce_var env) c0 in
                    (case validate env c of Inl e \<Rightarrow> (Inl (ValidationFailed e), f) | Inr _ \<Rightarrow> (Inr c, f)))))"

subsection \<open>Keys\<close>

datatype config_key =
    DefaultModel | ContextWindow | ReserveTokens | HeartbeatEnabled | HeartbeatInterval
  | ServerEnabled | ServerPort | ServerBind | ProxyEnabled | ProxyPort | ProxyBind
  | MemoryWorkspace | LoggingLevel

definition config_keys :: "(string list \<times> config_key) list" where
  "config_keys =
     [([''agent'', ''default_model''], DefaultModel),
      ([''agent'', ''context_window''], ContextWindow),
      ([''agent'', ''reserve_tokens''], ReserveTokens),
      ([''heartbeat'', ''enabled''], HeartbeatEnabled),
      ([''heartbeat'', ''interval''], HeartbeatInterval),
      ([''server'', ''enabled''], ServerEnabled),
      ([''server'', ''port''], ServerPort),
      ([''server'', ''bind''], ServerBind),
      ([''server'', ''openai_proxy'', ''enabled''], ProxyEnabled),
      ([''server'', ''openai_proxy'', ''port''], ProxyPort),
      ([''server'', ''openai_proxy'', ''bind''], ProxyBind),
      ([''memory'', ''workspace''], MemoryWorkspace),
      ([''logging'', ''level''], LoggingLevel)]"

definition config_key_of :: "string \<Rightarrow> config_key option" where
  "config_key_of key = map_of config_keys (split_on CHR ''.'' key)"

definition show_bool :: "bool \<Rightarrow> string" where
  "show_bool b = (if b then ''true'' else ''false'')"

definition parse_bool :: "string \<Rightarrow> bool option" where
  "parse_bool s = (if s = ''true'' then Some True else if s = ''false'' then Some False else None)"

definition show_word :: "'w :: len word \<Rightarrow> string" where
  "show_word n = show_nat (unat n)"

definition parse_word :: "string \<Rightarrow> 'w :: len word option" where
  "parse_word s = map_option of_nat (parse_uint (2 ^ LENGTH('w) - 1) s)"

fun key_text :: "config \<Rightarrow> config_key \<Rightarrow> string" where
  "key_text c DefaultModel = ac_default_model (cf_agent c)"
| "key_text c ContextWindow = show_word (ac_context_window (cf_agent c))"
| "key_text c ReserveTokens = show_word (ac_reserve_tokens (cf_agent c))"
| "key_text c HeartbeatEnabled = show_bool (hb_enabled (cf_heartbeat c))"
| "key_text c HeartbeatInterval = hb_interval (cf_heartbeat c)"
| "key_text c ServerEnabled = show_bool (sv_enabled (cf_server c))"
| "key_text c ServerPort = show_word (sv_port (cf_server c))"
| "key_text c ServerBind = sv_bind (cf_server c)"
| "key_text c ProxyEnabled = show_bool (px_enabled (sv_openai_proxy (cf_server c)))"
| "key_text c ProxyPort = show_word (px_port (sv_openai_proxy (cf_server c)))"
| "key_text c ProxyBind = px_bind (sv_openai_proxy (cf_server c))"
| "key_text c MemoryWorkspace = mm_workspace (cf_memory c)"
| "key_text c LoggingLevel = lg_level (cf_logging c)"

datatype key_error = UnknownKey string | NotABool | NotAnInteger

definition get_value :: "config \<Rightarrow> string \<Rightarrow> (key_error, string) res" where
  "get_value c key = (case config_key_of key of Some k \<Rightarrow> Inr (key_text c k) | None \<Rightarrow> Inl (UnknownKey key))"

definition parsed :: "key_error \<Rightarrow> 'a option \<Rightarrow> ('a \<Rightarrow> config) \<Rightarrow> (key_error, config) res" where
  "parsed e x put_it = (case x of Some v \<Rightarrow> Inr (put_it v) | None \<Rightarrow> Inl e)"

definition in_agent :: "(agent_settings \<Rightarrow> agent_settings) \<Rightarrow> config \<Rightarrow> config" where
  "in_agent f c = c\<lparr>cf_agent := f (cf_agent c)\<rparr>"

definition in_heartbeat :: "(heartbeat_config \<Rightarrow> heartbeat_config) \<Rightarrow> config \<Rightarrow> config" where
  "in_heartbeat f c = c\<lparr>cf_heartbeat := f (cf_heartbeat c)\<rparr>"

definition in_server :: "(server_config \<Rightarrow> server_config) \<Rightarrow> config \<Rightarrow> config" where
  "in_server f c = c\<lparr>cf_server := f (cf_server c)\<rparr>"

definition in_proxy :: "(openai_proxy_config \<Rightarrow> openai_proxy_config) \<Rightarrow> config \<Rightarrow> config" where
  "in_proxy f = in_server (\<lambda>s. s\<lparr>sv_openai_proxy := f (sv_openai_proxy s)\<rparr>)"

fun set_key :: "config \<Rightarrow> config_key \<Rightarrow> string \<Rightarrow> (key_error, config) res" where
  "set_key c DefaultModel v = Inr (in_agent (\<lambda>a. a\<lparr>ac_default_model := v\<rparr>) c)"
| "set_key c ContextWindow v = parsed NotAnInteger (parse_word v) (\<lambda>n. in_agent (\<lambda>a. a\<lparr>ac_context_window := n\<rparr>) c)"
| "set_key c ReserveTokens v = parsed NotAnInteger (parse_word v) (\<lambda>n. in_agent (\<lambda>a. a\<lparr>ac_reserve_tokens := n\<rparr>) c)"
| "set_key c HeartbeatEnabled v = parsed NotABool (parse_bool v) (\<lambda>b. in_heartbeat (\<lambda>h. h\<lparr>hb_enabled := b\<rparr>) c)"
| "set_key c HeartbeatInterval v = Inr (in_heartbeat (\<lambda>h. h\<lparr>hb_interval := v\<rparr>) c)"
| "set_key c ServerEnabled v = parsed NotABool (parse_bool v) (\<lambda>b. in_server (\<lambda>s. s\<lparr>sv_enabled := b\<rparr>) c)"
| "set_key c ServerPort v = parsed NotAnInteger (parse_word v) (\<lambda>n. in_server (\<lambda>s. s\<lparr>sv_port := n\<rparr>) c)"
| "set_key c ServerBind v = Inr (in_server (\<lambda>s. s\<lparr>sv_bind := v\<rparr>) c)"
| "set_key c ProxyEnabled v = parsed NotABool (parse_bool v) (\<lambda>b. in_proxy (\<lambda>p. p\<lparr>px_enabled := b\<rparr>) c)"
| "set_key c ProxyPort v = parsed NotAnInteger (parse_word v) (\<lambda>n. in_proxy (\<lambda>p. p\<lparr>px_port := n\<rparr>) c)"
| "set_key c ProxyBind v = Inr (in_proxy (\<lambda>p. p\<lparr>px_bind := v\<rparr>) c)"
| "set_key c MemoryWorkspace v = Inr (c\<lparr>cf_memory := (cf_memory c)\<lparr>mm_workspace := v\<rparr>\<rparr>)"
| "set_key c LoggingLevel v = Inr (c\<lparr>cf_logging := (cf_logging c)\<lparr>lg_level := v\<rparr>\<rparr>)"

definition set_value :: "config \<Rightarrow> string \<Rightarrow> string \<Rightarrow> (key_error, config) res" where
  "set_value c key v = (case config_key_of key of Some k \<Rightarrow> set_key c k v | None \<Rightarrow> Inl (UnknownKey key))"

subsection \<open>The workspace\<close>

definition non_blank :: "string \<Rightarrow> string option" where
  "non_blank s = (if trim s = [] then None else Some (trim s))"

definition config_workspace_path :: "config_env \<Rightarrow> config \<Rightarrow> path" where
  "config_workspace_path env c =
     (case Option.bind (ce_var env ''ZIER_ALPHA_WORKSPACE'') non_blank of
        Some workspace \<Rightarrow> components (ce_tilde env workspace)
      | None \<Rightarrow>
          (case Option.bind (ce_var env ''ZIER_ALPHA_PROFILE'') (map_option to_lowercase \<circ> non_blank) of
             Some profile \<Rightarrow>
               if profile = ''default'' then components (ce_tilde env (mm_workspace (cf_memory c)))
               else path_join (path_join (unwrap_or (ce_home env) (components ''~'')) (components ''.zier-alpha''))
                      (components (''workspace-'' @ profile))
           | None \<Rightarrow> components (ce_tilde env (mm_workspace (cf_memory c)))))"

subsection \<open>The command\<close>

datatype config_command = ShowConfig string | GetConfig string | SetConfig string string | ShowPath | InitConfig bool

datatype command_error = LoadError load_error | KeyError key_error | ConfigExists string

datatype command_output = AsJson config | AsToml table | Line string

text \<open>The template of \<^verbatim>\<open>src/src/cli/config.rs\<close> is an older one.\<close>

definition INIT_CONFIG_TEMPLATE :: table where
  "INIT_CONFIG_TEMPLATE =
     [(''agent'', TTable [(''default_model'', TStr ''claude-cli/opus''), (''context_window'', TInt 128000),
        (''reserve_tokens'', TInt 8000)]),
      (''providers'', TTable [(''claude_cli'', TTable [(''command'', TStr ''claude'')])]),
      (''heartbeat'', TTable [(''enabled'', TBool True), (''interval'', TStr ''30m'')]),
      (''memory'', TTable [(''workspace'', TStr ''~/.zier-alpha/workspace'')]),
      (''server'', TTable [(''enabled'', TBool True), (''port'', TInt 31327), (''bind'', TStr ''127.0.0.1'')]),
      (''logging'', TTable [(''level'', TStr ''info'')])]"

definition lift_load :: "(load_error, 'a) res \<Rightarrow> (command_error, 'a) res" where
  "lift_load r = (case r of Inl e \<Rightarrow> Inl (LoadError e) | Inr x \<Rightarrow> Inr x)"

definition lift_key :: "(key_error, 'a) res \<Rightarrow> (command_error, 'a) res" where
  "lift_key r = (case r of Inl e \<Rightarrow> Inl (KeyError e) | Inr x \<Rightarrow> Inr x)"

definition show_config :: "config_env \<Rightarrow> string \<Rightarrow> config_file \<Rightarrow> (command_error, command_output) res \<times> config_file" where
  "show_config env format f =
     (let (r, f') = load_config env f in
      (bind_res (lift_load r) (\<lambda>c.
         if format = ''json'' then Inr (AsJson c)
         else
           (case ser_config (ce_value env) c of
              Some t \<Rightarrow> if toml_fits (TTable t) then Inr (AsToml t) else Inl (LoadError SerializeFailed)
            | None \<Rightarrow> Inl (LoadError SerializeFailed))), f'))"

definition get_config :: "config_env \<Rightarrow> string \<Rightarrow> config_file \<Rightarrow> (command_error, command_output) res \<times> config_file" where
  "get_config env key f =
     (let (r, f') = load_config env f in
      (bind_res (lift_load r) (\<lambda>c. bind_res (lift_key (get_value c key)) (\<lambda>v. Inr (Line v))), f'))"

definition set_config ::
  "config_env \<Rightarrow> string \<Rightarrow> string \<Rightarrow> config_file \<Rightarrow> (command_error, command_output) res \<times> config_file" where
  "set_config env key v f =
     (let (r, f') = load_config env f in
      (case bind_res (lift_load r) (\<lambda>c. lift_key (set_value c key v)) of
         Inl e \<Rightarrow> (Inl e, f')
       | Inr c \<Rightarrow>
           (let (saved, f'') = save_config env c f' in
            (bind_res (lift_load saved) (\<lambda>_. Inr (Line (''Set '' @ key @ '' = '' @ v))), f''))))"

definition init_config :: "config_env \<Rightarrow> bool \<Rightarrow> config_file \<Rightarrow> (command_error, command_output) res \<times> config_file" where
  "init_config env force f =
     (case config_path env of
        Inl e \<Rightarrow> (Inl (LoadError e), f)
      | Inr p \<Rightarrow>
          if f \<noteq> Missing \<and> \<not> force
          then (Inl (ConfigExists (''Config file already exists at '' @ display p @ ''. Use --force to overwrite.'')), f)
          else
            (let (r, f') = write_config env INIT_CONFIG_TEMPLATE in
             (bind_res (lift_load r) (\<lambda>_. Inr (Line (''Created config file at '' @ display p))), f')))"

fun run_config ::
  "config_env \<Rightarrow> config_command \<Rightarrow> config_file \<Rightarrow> (command_error, command_output) res \<times> config_file" where
  "run_config env (ShowConfig format) f = show_config env format f"
| "run_config env (GetConfig key) f = get_config env key f"
| "run_config env (SetConfig key v) f = set_config env key v f"
| "run_config env ShowPath f = (bind_res (lift_load (config_path env)) (\<lambda>p. Inr (Line (display p))), f)"
| "run_config env (InitConfig force) f = init_config env force f"

subsection \<open>Keys are read as they were set\<close>

lemma parse_show_word [simp]: "parse_word (show_word n) = Some (n :: 'w :: len word)"
proof -
  have "unat n \<le> 2 ^ LENGTH('w) - 1" using unsigned_less [of n, where 'a = nat] by linarith
  then show ?thesis by (simp add: parse_word_def show_word_def parse_uint_show_nat)
qed

lemma parse_show_bool [simp]: "parse_bool (show_bool b) = Some b"
  by (simp add: parse_bool_def show_bool_def)

lemmas in_defs = in_agent_def in_heartbeat_def in_server_def in_proxy_def

lemma set_key_text:
  assumes "set_key c k v = Inr c'"
  shows "set_key c k (key_text c' k) = Inr c' \<and> set_key c' k (key_text c' k) = Inr c'
    \<and> (k' \<noteq> k \<longrightarrow> key_text c' k' = key_text c k')"
  using assms by (cases k; cases k') (auto simp: parsed_def in_defs split: option.splits)

text \<open>
  What a key is set to is what it is read as, in the way the program writes it, setting it to what it is read as
  changes nothing, and no other key changes. A key that cannot be read cannot be set, and the other way round.
\<close>

theorem config_set_get:
  "(case set_value c key v of
      Inr c' \<Rightarrow>
        (\<exists>t. get_value c' key = Inr t \<and> set_value c key t = Inr c' \<and> set_value c' key t = Inr c')
        \<and> list_all (\<lambda>other. config_key_of other = config_key_of key \<or> get_value c' other = get_value c other) others
    | Inl e \<Rightarrow> (e = UnknownKey key) = (get_value c key = Inl (UnknownKey key)))"
proof (cases "config_key_of key")
  case None
  then show ?thesis by (simp add: set_value_def get_value_def)
next
  case (Some k)
  show ?thesis
  proof (cases "set_key c k v")
    case (Inl e)
    then have "e \<noteq> UnknownKey key" by (cases k) (auto simp: parsed_def split: option.splits)
    with Inl Some show ?thesis by (simp add: set_value_def get_value_def)
  next
    case (Inr c')
    then have "list_all (\<lambda>other. config_key_of other = Some k \<or> get_value c' other = get_value c other) others"
      using set_key_text [OF Inr] by (auto simp: list_all_iff get_value_def split: option.splits)
    with Inr Some show ?thesis using set_key_text [OF Inr] by (simp add: set_value_def get_value_def)
  qed
qed

subsection \<open>What is set is what is loaded\<close>

lemma readable_expand: "readable c \<Longrightarrow> readable (expand_env_vars var c)"
  by (simp add: readable_def expand_env_vars_def expand_providers_def disjoint_keys_def list.pred_map comp_def
    case_prod_beta)

lemma readable_set_key:
  assumes "set_key c k v = Inr c'" "readable c"
  shows "readable c' \<and> cf_providers c' = cf_providers c"
  using assms by (cases k) (auto simp: readable_def parsed_def in_defs split: option.splits)

lemma readable_set_value:
  "set_value c key v = Inr c' \<Longrightarrow> readable c \<Longrightarrow> readable c' \<and> cf_providers c' = cf_providers c"
  by (auto simp: set_value_def dest: readable_set_key split: option.splits)

lemma load_document:
  "ce_home env \<noteq> None \<Longrightarrow> de_config (ce_home env) (ce_float env) t = Some c0 \<Longrightarrow>
   load_config env (Document t) =
     (case validate env (expand_env_vars (ce_var env) c0) of
        Inl e \<Rightarrow> (Inl (ValidationFailed e), Document t)
      | Inr _ \<Rightarrow> (Inr (expand_env_vars (ce_var env) c0), Document t))"
  by (cases "validate env (expand_env_vars (ce_var env) c0)"; cases "ce_home env")
    (simp_all add: load_config_def config_path_def)

lemma load_document_Inr:
  assumes "load_config env (Document t) = (Inr c, f')"
  obtains c0 where "ce_home env \<noteq> None" "f' = Document t" "c = expand_env_vars (ce_var env) c0"
    "de_config (ce_home env) (ce_float env) t = Some c0"
proof -
  have home: "ce_home env \<noteq> None" using assms by (cases "ce_home env") (auto simp: load_config_def config_path_def)
  then obtain c0 where c0: "de_config (ce_home env) (ce_float env) t = Some c0"
    using assms by (cases "de_config (ce_home env) (ce_float env) t") (auto simp: load_config_def config_path_def)
  have "f' = Document t \<and> c = expand_env_vars (ce_var env) c0"
    using assms load_document [OF home c0] by (cases "validate env (expand_env_vars (ce_var env) c0)") simp_all
  with home c0 show thesis by (intro that) simp_all
qed

lemma set_config_Inr:
  assumes "set_config env key v (Document t) = (Inr out, f')" "ce_failed_write env = None"
  obtains c0 c' t' where "de_config (ce_home env) (ce_float env) t = Some c0"
    "set_value (expand_env_vars (ce_var env) c0) key v = Inr c'"
    "ser_config (ce_value env) c' = Some t'" "f' = Document t'" "ce_home env \<noteq> None"
proof -
  obtain r f1 where r: "load_config env (Document t) = (r, f1)" by fastforce
  with assms obtain c where c: "r = Inr c" by (cases r) (auto simp: set_config_def lift_load_def)
  from r [unfolded c] obtain c0 where c0: "ce_home env \<noteq> None" "f1 = Document t" "c = expand_env_vars (ce_var env) c0"
    "de_config (ce_home env) (ce_float env) t = Some c0"
    by (rule load_document_Inr)
  obtain c' where c': "set_value c key v = Inr c'"
    using assms(1) by (cases "set_value c key v") (auto simp: set_config_def r c lift_load_def lift_key_def)
  obtain t' where t': "ser_config (ce_value env) c' = Some t'"
    using assms(1) c0(1) by (cases "ser_config (ce_value env) c'")
      (auto simp: set_config_def r c c' lift_load_def lift_key_def save_config_def config_path_def)
  have "f' = Document t'"
    using assms c0(1) by (auto simp: set_config_def r c c' t' lift_load_def lift_key_def save_config_def config_path_def
      write_config_def split: if_splits)
  with c0 c' t' show thesis by (intro that) simp_all
qed

text \<open>C18: 
  After \<^verbatim>\<open>config set\<close> has succeeded, the document that was written is read as the loaded configuration with that
  key set: the settings and the custom providers are what they were, and the API keys are the values of the
  variables they referred to, no longer the references. The next load is that configuration, if it is valid.
\<close>

theorem config_set_persists:
  assumes "set_config env key v (Document t) = (Inr out, f')" "ce_failed_write env = None"
    "writes_values (ce_float env) (ce_value env)"
  shows "\<exists>c0 c' t'. de_config (ce_home env) (ce_float env) t = Some c0
    \<and> set_value (expand_env_vars (ce_var env) c0) key v = Inr c'
    \<and> f' = Document t' \<and> de_config (ce_home env) (ce_float env) t' = Some c'
    \<and> cf_providers c' = expand_providers (ce_var env) (cf_providers c0)
    \<and> fst (load_config env f') =
        (case validate env (expand_env_vars (ce_var env) c') of
           Inl e \<Rightarrow> Inl (ValidationFailed e) | Inr _ \<Rightarrow> Inr (expand_env_vars (ce_var env) c'))"
proof -
  from assms(1,2) obtain c0 c' t' where c0: "de_config (ce_home env) (ce_float env) t = Some c0"
    and c': "set_value (expand_env_vars (ce_var env) c0) key v = Inr c'"
    and t': "ser_config (ce_value env) c' = Some t'" "f' = Document t'" and home: "ce_home env \<noteq> None"
    by (rule set_config_Inr)
  have rd: "readable c'" "cf_providers c' = cf_providers (expand_env_vars (ce_var env) c0)"
    using readable_set_value [OF c'] readable_expand [OF de_config_readable [OF c0]] by blast+
  have "de_config (ce_home env) (ce_float env) t' = Some c'" by (rule de_ser_config [OF assms(3) t'(1) rd(1)])
  moreover from load_document [OF home this] have "fst (load_config env f') =
      (case validate env (expand_env_vars (ce_var env) c') of
         Inl e \<Rightarrow> Inl (ValidationFailed e) | Inr _ \<Rightarrow> Inr (expand_env_vars (ce_var env) c'))"
    by (simp add: t'(2) split: sum.split)
  moreover have "cf_providers c' = expand_providers (ce_var env) (cf_providers c0)"
    using rd(2) by (simp add: expand_env_vars_def)
  ultimately show ?thesis using c0 c' t'(2) by blast
qed

definition sample_config_env :: config_env where
  "sample_config_env = \<lparr>ce_home = Some [RootDir, Normal ''h''], ce_var = (\<lambda>v. if v = ''KEY'' then Some ''secret'' else None),
     ce_tilde = id, ce_float = (\<lambda>q. 0), ce_value = sample_vt, ce_glob = (\<lambda>p. None), ce_digit = (\<lambda>c. False),
     ce_show = (\<lambda>f. ''?''), ce_failed_write = None\<rparr>"

definition sample_file :: table where
  "sample_file = [(''providers'', TTable [(''openai'', TTable [(''api_key'', TStr ''$KEY'')])])]"

lemma sample_file_read:
  "de_config home fl sample_file
   = Some (default_config\<lparr>cf_providers := default_providers\<lparr>ps_openai := Some \<lparr>api_key = ''$KEY'',
       base_url = default_openai_base_url\<rparr>\<rparr>\<rparr>)"
  by (simp add: sample_file_def de_config_def de_providers_def de_key_url_def field_or_def field_opt_def field_def
    rest_def provider_fields_def default_config_def default_providers_def)

definition sample_loaded :: config where
  "sample_loaded = default_config\<lparr>cf_providers := default_providers\<lparr>ps_openai := Some \<lparr>api_key = ''secret'',
     base_url = default_openai_base_url\<rparr>\<rparr>\<rparr>"

lemma sample_file_loaded: "load_config sample_config_env (Document sample_file) = (Inr sample_loaded, Document sample_file)"
proof -
  have home: "ce_home sample_config_env \<noteq> None" by (simp add: sample_config_env_def)
  have "expand_env_vars (ce_var sample_config_env) (default_config\<lparr>cf_providers := default_providers\<lparr>ps_openai := Some
      \<lparr>api_key = ''$KEY'', base_url = default_openai_base_url\<rparr>\<rparr>\<rparr>) = sample_loaded"
    by (simp add: expand_env_vars_def expand_providers_def sample_loaded_def default_providers_def expand_key_def
      expand_env_def strip_prefix_def sample_config_env_def)
  moreover have "validate sample_config_env sample_loaded = Inr ()"
    by (simp add: validate_def sample_loaded_def default_config_def validate_heartbeat_def default_heartbeat_def
      default_interval_def validate_hours_def validate_keys_def default_providers_def validate_disk_def default_disk_def
      default_min_free_percent_def trim_def trim_start_def is_whitespace_def)
  ultimately show ?thesis using load_document [OF home sample_file_read] by simp
qed

lemma sample_env_simps:
  "ce_home sample_config_env = Some [RootDir, Normal ''h'']" "ce_failed_write sample_config_env = None"
  "ce_value sample_config_env = sample_vt"
  by (simp_all add: sample_config_env_def)

definition sample_changed :: config where
  "sample_changed = in_heartbeat (\<lambda>h. h\<lparr>hb_interval := []\<rparr>) sample_loaded"

lemmas ser_defs =
  ser_config_def ser_providers_def ser_key_url_def ser_agent_def ser_compaction_def ser_heartbeat_def ser_memory_def
  ser_index_path_def ser_server_def ser_openai_proxy_def ser_ingress_def ser_attachments_def ser_audio_def
  ser_telegram_approval_def ser_logging_def ser_tools_def ser_vision_def ser_workdir_def ser_extensions_def
  ser_disk_def ser_sandbox_def ser_uint_def ser_list_def ser_strs_def ser_map_def

lemma sample_saved: "\<exists>t. save_config sample_config_env sample_changed f = (Inr (), Document t)"
proof -
  have "\<exists>t. ser_config sample_vt sample_changed = Some t \<and> toml_fits (TTable t)"
    by (simp add: ser_defs sample_changed_def sample_loaded_def in_defs default_defs written.simps
      default_openai_proxy_def default_attachments_def default_audio_def default_telegram_approval_def
      default_compaction_def default_context_window_def default_reserve_tokens_def default_max_tokens_def
      default_keep_last_def default_chunk_size_def default_chunk_overlap_def default_session_max_messages_def
      default_index_paths_def default_port_def default_openai_proxy_port_def default_poll_timeout_def
      default_debounce_seconds_def default_max_debounce_messages_def default_max_debounce_chars_def
      default_max_file_size_bytes_def default_audio_timeout_seconds_def default_approval_timeout_seconds_def
      default_bash_timeout_def default_web_fetch_max_bytes_def default_tool_output_max_chars_def
      default_allowed_tools_def default_session_retention_days_def default_max_log_size_mb_def
      default_openai_audio_model_def)
  then show ?thesis by (auto simp: save_config_def config_path_def write_config_def sample_env_simps)
qed

lemma sample_set:
  "\<exists>t. set_config sample_config_env ''heartbeat.interval'' [] (Document sample_file)
     = (Inr (Line ''Set heartbeat.interval = ''), Document t)"
proof -
  obtain t where t: "save_config sample_config_env sample_changed (Document sample_file) = (Inr (), Document t)"
    using sample_saved by blast
  have "set_value sample_loaded ''heartbeat.interval'' [] = Inr sample_changed"
    by (simp add: set_value_def config_key_of_def config_keys_def sample_changed_def)
  then show ?thesis by (simp add: set_config_def sample_file_loaded lift_load_def lift_key_def t)
qed

theorem config_set_persists_witness:
  "\<exists>t c'. fst (set_config sample_config_env ''heartbeat.interval'' [] (Document sample_file))
      = Inr (Line ''Set heartbeat.interval = '')
    \<and> snd (set_config sample_config_env ''heartbeat.interval'' [] (Document sample_file)) = Document t
    \<and> de_config (Some [RootDir, Normal ''h'']) (ce_float sample_config_env) t = Some c'
    \<and> map_option api_key (ps_openai (cf_providers c')) = Some ''secret''"
proof -
  obtain f' where f': "set_config sample_config_env ''heartbeat.interval'' [] (Document sample_file)
     = (Inr (Line ''Set heartbeat.interval = ''), f')"
    using sample_set by blast
  have v: "writes_values (ce_float sample_config_env) (ce_value sample_config_env)"
    by (simp add: sample_env_simps sample_writes_values)
  from config_set_persists [OF f' sample_env_simps(2) v] obtain c0 c' t' where
    c0: "de_config (ce_home sample_config_env) (ce_float sample_config_env) sample_file = Some c0"
    and t': "f' = Document t'" "de_config (ce_home sample_config_env) (ce_float sample_config_env) t' = Some c'"
    and ps: "cf_providers c' = expand_providers (ce_var sample_config_env) (cf_providers c0)"
    by blast
  from c0 have "cf_providers c0 = default_providers\<lparr>ps_openai := Some \<lparr>api_key = ''$KEY'',
      base_url = default_openai_base_url\<rparr>\<rparr>"
    by (auto simp: sample_file_read)
  then have "map_option api_key (ps_openai (cf_providers c')) = Some ''secret''"
    by (simp add: ps expand_providers_def expand_key_def expand_env_def strip_prefix_def sample_config_env_def)
  with t' f' show ?thesis by (auto simp: sample_env_simps)
qed

lemma save_config_Inr:
  assumes "save_config env c f = (Inr (), f')"
  obtains t where "ce_home env \<noteq> None" "ser_config (ce_value env) c = Some t" "f' = Document t"
  using assms by (cases "ce_home env"; cases "ser_config (ce_value env) c")
    (auto simp: save_config_def config_path_def write_config_def split: if_splits option.splits)

text \<open>C19: 
  \<^verbatim>\<open>config set\<close> does not check what it writes. While the heartbeat is on, setting its interval to blank is reported as done
  and is saved, whenever the file can be loaded and the new one be written; from then on the configuration cannot be loaded:
  \<^verbatim>\<open>config get\<close> and \<^verbatim>\<open>config set\<close>, of any key, fail and leave the file as it is, so the program cannot undo it.
\<close>

theorem config_set_unchecked:
  assumes "load_config env (Document t) = (Inr c, Document t)" "hb_enabled (cf_heartbeat c)" "trim v = []"
    "save_config env (c\<lparr>cf_heartbeat := (cf_heartbeat c)\<lparr>hb_interval := v\<rparr>\<rparr>) (Document t) = (Inr (), f')"
    "writes_values (ce_float env) (ce_value env)"
  shows "set_config env ''heartbeat.interval'' v (Document t) = (Inr (Line (''Set heartbeat.interval = '' @ v)), f')
    \<and> get_config env k f' = (Inl (LoadError (ValidationFailed ''Heartbeat interval cannot be empty'')), f')
    \<and> set_config env k w f' = (Inl (LoadError (ValidationFailed ''Heartbeat interval cannot be empty'')), f')"
proof -
  let ?c = "c\<lparr>cf_heartbeat := (cf_heartbeat c)\<lparr>hb_interval := v\<rparr>\<rparr>"
  have set: "set_value c ''heartbeat.interval'' v = Inr ?c"
    by (simp add: set_value_def config_key_of_def config_keys_def in_heartbeat_def)
  from assms(4) obtain t' where home: "ce_home env \<noteq> None" and t': "ser_config (ce_value env) ?c = Some t'" "f' = Document t'"
    by (rule save_config_Inr)
  have "readable c"
    using load_document_Inr [OF assms(1)] readable_expand de_config_readable by metis
  then have "readable ?c" using readable_set_value [OF set] by blast
  then have rd: "de_config (ce_home env) (ce_float env) t' = Some ?c" by (rule de_ser_config [OF assms(5) t'(1)])
  have "validate env (expand_env_vars (ce_var env) ?c) = Inl ''Heartbeat interval cannot be empty''"
    using assms(2,3) by (simp add: validate_def validate_heartbeat_def expand_env_vars_def)
  then have "load_config env f' = (Inl (ValidationFailed ''Heartbeat interval cannot be empty''), f')"
    by (simp only: load_document [OF home rd] t'(2)) simp
  moreover have "set_config env ''heartbeat.interval'' v (Document t) = (Inr (Line (''Set heartbeat.interval = '' @ v)), f')"
    by (simp add: set_config_def assms(1,4) lift_load_def lift_key_def set)
  ultimately show ?thesis by (simp add: get_config_def set_config_def lift_load_def)
qed

theorem config_set_unchecked_witness:
  "\<exists>f'. set_config sample_config_env ''heartbeat.interval'' [] (Document sample_file)
      = (Inr (Line ''Set heartbeat.interval = ''), f')
    \<and> set_config sample_config_env ''heartbeat.interval'' ''30m'' f'
      = (Inl (LoadError (ValidationFailed ''Heartbeat interval cannot be empty'')), f')"
proof -
  obtain t where t: "save_config sample_config_env sample_changed (Document sample_file) = (Inr (), Document t)"
    using sample_saved by blast
  have c: "sample_changed = sample_loaded\<lparr>cf_heartbeat := (cf_heartbeat sample_loaded)\<lparr>hb_interval := []\<rparr>\<rparr>"
    by (simp add: sample_changed_def in_heartbeat_def)
  have v: "writes_values (ce_float sample_config_env) (ce_value sample_config_env)"
    by (simp add: sample_env_simps sample_writes_values)
  have b: "trim [] = []" by (simp add: trim_def trim_start_def)
  have h: "hb_enabled (cf_heartbeat sample_loaded)" by (simp add: sample_loaded_def default_defs)
  from config_set_unchecked [OF sample_file_loaded h b t [unfolded c] v] show ?thesis by auto
qed

end
