(* ===== verification/Mcp_Connection.thy ===== *)
theory Mcp_Connection
  imports Llm_Types
begin

text \<open>
  One connection to an MCP server (\<^verbatim>\<open>src/src/agent/mcp_manager.rs\<close>): the calls in flight, the map from the id of a
  request to the channel its answer goes to, and the two tasks that write to the server and read from it. The tasks
  and the calls take their steps in any order; between two steps nobody holds the lock of the map. \<open>given\<close> is the
  history of what the reader handed to which call; no step looks at it.
\<close>

subsection \<open>Messages\<close>

record rpc_request =
  rq_method :: string
  rq_params :: json
  rq_id :: "u64 option"

record rpc_error =
  re_code :: int
  re_message :: string
  re_data :: "json option"

record rpc_response =
  rs_result :: "json option"
  rs_error :: "rpc_error option"
  rs_id :: "u64 option"

type_synonym answer = "(anyhow_error, json) res"

definition answer_of :: "rpc_response \<Rightarrow> answer" where
  "answer_of resp =
     (case rs_error resp of
        Some e \<Rightarrow> Inl (Msg (''MCP Error '' @ show_int (re_code e) @ '': '' @ re_message e))
      | None \<Rightarrow> Inr (unwrap_or (rs_result resp) JNull))"

definition terminated :: answer where "terminated = Inl (Msg ''Server terminated'')"
definition send_failed :: answer where "send_failed = Inl (Msg ''Failed to send request (server likely dead)'')"
definition channel_closed :: answer where "channel_closed = Inl (Msg ''Response channel closed'')"
definition timed_out :: answer where "timed_out = Inl (Msg ''Request timed out'')"

subsection \<open>Calls and the map of pending requests\<close>

text \<open>The channel of a call: its sender is in the map, it holds an answer, or its sender is gone.\<close>

datatype slot = Open | Got answer | Dropped

record mcp_call =
  cl_request :: rpc_request
  cl_id :: u64
  cl_sent :: bool
  cl_slot :: slot
  cl_result :: "answer option"

record connection =
  calls :: "mcp_call list"
  pending :: "(u64 \<times> nat) list"
  request_queue :: "rpc_request list"
  server_input :: "rpc_request list"
  reader_on :: bool
  writer_on :: bool
  given :: "(nat \<times> rpc_response) list"

definition new_connection :: connection where
  "new_connection = \<lparr>calls = [], pending = [], request_queue = [], server_input = [], reader_on = True, writer_on = True,
     given = []\<rparr>"

definition CHANNEL_CAPACITY :: nat where "CHANNEL_CAPACITY = 32"

definition set_call :: "nat \<Rightarrow> (mcp_call \<Rightarrow> mcp_call) \<Rightarrow> connection \<Rightarrow> connection" where
  "set_call n f s = s\<lparr>calls := (calls s)[n := f (calls s ! n)]\<rparr>"

text \<open>\<open>map.remove(&id)\<close>, with what dropping or using the sender does to the call that owns it.\<close>

definition take_pending :: "u64 \<Rightarrow> slot \<Rightarrow> connection \<Rightarrow> connection" where
  "take_pending i x s =
     (case map_of (pending s) i of
        None \<Rightarrow> s
      | Some n \<Rightarrow> (set_call n (\<lambda>c. c\<lparr>cl_slot := x\<rparr>) s)\<lparr>pending := filter (\<lambda>p. fst p \<noteq> i) (pending s)\<rparr>)"

definition begin_call :: "u64 \<Rightarrow> string \<Rightarrow> json \<Rightarrow> connection \<Rightarrow> connection" where
  "begin_call i meth params s =
     (let s' = take_pending i Dropped s in
      s'\<lparr>pending := (i, length (calls s')) # pending s',
         calls := calls s' @ [\<lparr>cl_request = \<lparr>rq_method = meth, rq_params = params, rq_id = Some i\<rparr>, cl_id = i,
           cl_sent = False, cl_slot = Open, cl_result = None\<rparr>]\<rparr>)"

text \<open>The end of a call: one that fails takes its id out of the map, whoever it belongs to by then.\<close>

definition finish :: "nat \<Rightarrow> answer \<Rightarrow> connection \<Rightarrow> connection" where
  "finish n a s =
     (let s' = set_call n (\<lambda>c. c\<lparr>cl_result := Some a\<rparr>) s in
      (if is_ok a then s' else take_pending (cl_id (calls s ! n)) Dropped s'))"

definition hand_out :: "rpc_response \<Rightarrow> connection \<Rightarrow> connection" where
  "hand_out resp s =
     (case rs_id resp of
        None \<Rightarrow> s
      | Some i \<Rightarrow>
          (case map_of (pending s) i of
             None \<Rightarrow> s
           | Some n \<Rightarrow> (take_pending i (Got (answer_of resp)) s)\<lparr>given := (n, resp) # given s\<rparr>))"

definition read_line :: "(string \<Rightarrow> rpc_response option) \<Rightarrow> string \<Rightarrow> connection \<Rightarrow> connection" where
  "read_line parse line s =
     (if trim line = [] then s else case parse line of Some resp \<Rightarrow> hand_out resp s | None \<Rightarrow> s)"

definition drain :: "connection \<Rightarrow> connection" where
  "drain s = fold (\<lambda>p. take_pending (fst p) (Got terminated)) (pending s) s\<lparr>reader_on := False\<rparr>"

subsection \<open>Steps\<close>

definition running :: "connection \<Rightarrow> nat \<Rightarrow> bool" where
  "running s n \<longleftrightarrow> n < length (calls s) \<and> cl_result (calls s ! n) = None"

definition awaiting :: "connection \<Rightarrow> nat \<Rightarrow> bool" where
  "awaiting s n \<longleftrightarrow> running s n \<and> cl_sent (calls s ! n)"

text \<open>The steps of a call that has begun. \<open>send\<close> waits for room in the channel; the clock of a call runs once it has sent.\<close>

inductive call_step :: "nat \<Rightarrow> connection \<Rightarrow> connection \<Rightarrow> bool" where
  send: "running s n \<Longrightarrow> \<not> cl_sent (calls s ! n) \<Longrightarrow> writer_on s \<Longrightarrow> length (request_queue s) < CHANNEL_CAPACITY \<Longrightarrow>
    call_step n s ((set_call n (\<lambda>c. c\<lparr>cl_sent := True\<rparr>) s)\<lparr>request_queue := request_queue s @ [cl_request (calls s ! n)]\<rparr>)"
| send_fails: "running s n \<Longrightarrow> \<not> cl_sent (calls s ! n) \<Longrightarrow> \<not> writer_on s \<Longrightarrow> call_step n s (finish n send_failed s)"
| receive: "awaiting s n \<Longrightarrow> cl_slot (calls s ! n) = Got a \<Longrightarrow> call_step n s (finish n a s)"
| closed: "awaiting s n \<Longrightarrow> cl_slot (calls s ! n) = Dropped \<Longrightarrow> call_step n s (finish n channel_closed s)"
| expire: "awaiting s n \<Longrightarrow> cl_slot (calls s ! n) = Open \<Longrightarrow> call_step n s (finish n timed_out s)"

inductive conn_step :: "(string \<Rightarrow> rpc_response option) \<Rightarrow> connection \<Rightarrow> connection \<Rightarrow> bool"
  for parse :: "string \<Rightarrow> rpc_response option" where
  start: "conn_step parse s (begin_call i meth params s)"
| call: "call_step n s s' \<Longrightarrow> conn_step parse s s'"
| write_out: "writer_on s \<Longrightarrow> request_queue s = r # rs \<Longrightarrow>
    conn_step parse s (s\<lparr>request_queue := rs, server_input := server_input s @ [r]\<rparr>)"
| writer_ends: "conn_step parse s (s\<lparr>writer_on := False, request_queue := []\<rparr>)"
| read_in: "reader_on s \<Longrightarrow> conn_step parse s (read_line parse line s)"
| reader_ends: "reader_on s \<Longrightarrow> conn_step parse s (drain s)"

inductive conn_reachable :: "(string \<Rightarrow> rpc_response option) \<Rightarrow> connection \<Rightarrow> bool"
  for parse :: "string \<Rightarrow> rpc_response option" where
  init: "conn_reachable parse new_connection"
| step: "conn_reachable parse s \<Longrightarrow> conn_step parse s s' \<Longrightarrow> conn_reachable parse s'"

subsection \<open>What holds of the map\<close>

text \<open>A sender is in the map exactly as long as the channel of its call is open, under the id of the call.\<close>

definition conn_inv :: "connection \<Rightarrow> bool" where
  "conn_inv s \<longleftrightarrow> distinct (map fst (pending s))
     \<and> (\<forall>i n. map_of (pending s) i = Some n \<longleftrightarrow> n < length (calls s) \<and> cl_slot (calls s ! n) = Open \<and> cl_id (calls s ! n) = i)"

lemma map_of_filter_key: "map_of (filter (\<lambda>p. fst p \<noteq> i) m) = (map_of m)(i := None)"
  by (induction m) auto

lemma take_pending_fields [simp]:
  "length (calls (take_pending i x s)) = length (calls s)" "given (take_pending i x s) = given s"
  "reader_on (take_pending i x s) = reader_on s" "writer_on (take_pending i x s) = writer_on s"
  "request_queue (take_pending i x s) = request_queue s" "server_input (take_pending i x s) = server_input s"
  "map_of (pending (take_pending i x s)) = (map_of (pending s))(i := None)"
  by (auto simp: take_pending_def set_call_def map_of_filter_key split: option.split)

lemma take_pending_call:
  "n < length (calls s) \<Longrightarrow> calls (take_pending i x s) ! n =
     (if map_of (pending s) i = Some n then (calls s ! n)\<lparr>cl_slot := x\<rparr> else calls s ! n)"
  by (auto simp: take_pending_def set_call_def nth_list_update split: option.split)

lemma take_pending_other [simp]:
  "n < length (calls s) \<Longrightarrow> cl_id (calls (take_pending i x s) ! n) = cl_id (calls s ! n)"
  "n < length (calls s) \<Longrightarrow> cl_result (calls (take_pending i x s) ! n) = cl_result (calls s ! n)"
  "n < length (calls s) \<Longrightarrow> cl_sent (calls (take_pending i x s) ! n) = cl_sent (calls s ! n)"
  by (auto simp: take_pending_call)

lemma take_pending_inv:
  assumes "conn_inv s" "x \<noteq> Open"
  shows "conn_inv (take_pending i x s)"
proof -
  have "distinct (map fst (pending (take_pending i x s)))"
    using assms(1) by (auto simp: conn_inv_def take_pending_def set_call_def split: option.split
      intro: distinct_map_filter)
  then show ?thesis using assms by (auto simp: conn_inv_def take_pending_call split: if_splits)
qed

lemma set_call_inv:
  "conn_inv s \<Longrightarrow> (\<And>c. cl_slot (f c) = cl_slot c \<and> cl_id (f c) = cl_id c) \<Longrightarrow> conn_inv (set_call n f s)"
  by (cases "n < length (calls s)") (auto simp: conn_inv_def set_call_def nth_list_update)

lemma begin_call_inv:
  assumes "conn_inv s"
  shows "conn_inv (begin_call i meth params s)"
proof -
  have t: "conn_inv (take_pending i Dropped s)" by (rule take_pending_inv [OF assms]) simp
  then have "i \<notin> set (map fst (pending (take_pending i Dropped s)))"
    by (metis fun_upd_same map_of_eq_None_iff list.set_map take_pending_fields(7))
  with t show ?thesis
    by (auto simp: conn_inv_def begin_call_def Let_def nth_append less_Suc_eq split: if_splits)
qed

lemma finish_conn_inv: "conn_inv s \<Longrightarrow> conn_inv (finish n a s)"
  by (simp add: finish_def Let_def take_pending_inv set_call_inv)

lemma conn_inv_other [simp]:
  "conn_inv (s\<lparr>given := g\<rparr>) = conn_inv s" "conn_inv (s\<lparr>reader_on := b\<rparr>) = conn_inv s"
  "conn_inv (s\<lparr>writer_on := b\<rparr>) = conn_inv s" "conn_inv (s\<lparr>request_queue := q\<rparr>) = conn_inv s"
  "conn_inv (s\<lparr>server_input := q\<rparr>) = conn_inv s"
  by (simp_all add: conn_inv_def)

lemma hand_out_inv: "conn_inv s \<Longrightarrow> conn_inv (hand_out resp s)"
  by (simp add: hand_out_def take_pending_inv split: option.split)

lemma fold_take_pending_inv: "conn_inv s \<Longrightarrow> x \<noteq> Open \<Longrightarrow> conn_inv (fold (\<lambda>p. take_pending (fst p) x) ps s)"
  by (induction ps arbitrary: s) (simp_all add: take_pending_inv)

lemma drain_inv: "conn_inv s \<Longrightarrow> conn_inv (drain s)"
  by (simp add: drain_def fold_take_pending_inv)

lemma conn_step_inv: "conn_step parse s s' \<Longrightarrow> conn_inv s \<Longrightarrow> conn_inv s'"
  by (auto elim!: conn_step.cases call_step.cases
    simp: begin_call_inv finish_conn_inv hand_out_inv drain_inv set_call_inv read_line_def split: option.split)

lemma conn_reachable_inv: "conn_reachable parse s \<Longrightarrow> conn_inv s"
  by (induction rule: conn_reachable.induct) (auto simp: conn_inv_def new_connection_def dest: conn_step_inv)

subsection \<open>Where answers come from\<close>

definition given_to :: "connection \<Rightarrow> nat \<Rightarrow> answer \<Rightarrow> bool" where
  "given_to s n a \<longleftrightarrow> a = terminated
     \<or> (\<exists>r. (n, r) \<in> set (given s) \<and> rs_id r = Some (cl_id (calls s ! n)) \<and> answer_of r = a)"

definition answers_inv :: "connection \<Rightarrow> bool" where
  "answers_inv s \<longleftrightarrow> distinct (map fst (given s))
     \<and> (\<forall>n \<in> fst ` set (given s). n < length (calls s) \<and> cl_slot (calls s ! n) \<noteq> Open)
     \<and> (\<forall>n < length (calls s). \<forall>a. cl_slot (calls s ! n) = Got a \<longrightarrow> given_to s n a)
     \<and> (\<forall>n < length (calls s). \<forall>a. cl_result (calls s ! n) = Some a \<longrightarrow>
          a \<in> {send_failed, channel_closed, timed_out} \<or> cl_slot (calls s ! n) = Got a)"

lemma take_pending_answers:
  assumes "answers_inv s" "conn_inv s" "x = Dropped \<or> x = Got terminated"
  shows "answers_inv (take_pending i x s)"
proof -
  have "cl_slot (calls s ! n) = Open" if "map_of (pending s) i = Some n" for n
    using assms(2) that by (auto simp: conn_inv_def)
  then show ?thesis using assms by (fastforce simp: answers_inv_def given_to_def take_pending_call)
qed

lemma set_call_answers:
  assumes "answers_inv s" "\<And>c. cl_slot (f c) = cl_slot c \<and> cl_id (f c) = cl_id c"
    "\<And>a. n < length (calls s) \<Longrightarrow> cl_result (f (calls s ! n)) = Some a \<Longrightarrow>
       cl_result (calls s ! n) = Some a \<or> a \<in> {send_failed, channel_closed, timed_out} \<or> cl_slot (calls s ! n) = Got a"
  shows "answers_inv (set_call n f s)"
  using assms by (cases "n < length (calls s)")
    (fastforce simp: answers_inv_def given_to_def set_call_def nth_list_update)+

lemma begin_call_answers:
  assumes "answers_inv s" "conn_inv s"
  shows "answers_inv (begin_call i meth params s)"
proof -
  have "answers_inv (take_pending i Dropped s)" using take_pending_answers [OF assms] by simp
  then show ?thesis by (fastforce simp: answers_inv_def given_to_def begin_call_def Let_def nth_append less_Suc_eq)
qed

lemma finish_answers:
  assumes "answers_inv s" "conn_inv s" "a \<in> {send_failed, channel_closed, timed_out} \<or> cl_slot (calls s ! n) = Got a"
  shows "answers_inv (finish n a s)"
proof -
  have "answers_inv (set_call n (\<lambda>c. c\<lparr>cl_result := Some a\<rparr>) s)"
    using assms by (intro set_call_answers) auto
  then show ?thesis using assms(2) by (simp add: finish_def Let_def take_pending_answers set_call_inv)
qed

lemma hand_out_answers:
  assumes "answers_inv s" "conn_inv s"
  shows "answers_inv (hand_out resp s)"
proof (cases "rs_id resp")
  case (Some i)
  show ?thesis
  proof (cases "map_of (pending s) i")
    case None
    with Some assms show ?thesis by (simp add: hand_out_def)
  next
    case (Some m)
    then have m: "m < length (calls s)" "cl_slot (calls s ! m) = Open" "cl_id (calls s ! m) = i"
      using assms(2) by (auto simp: conn_inv_def)
    then have new: "m \<notin> fst ` set (given s)" using assms(1) by (auto simp: answers_inv_def)
    let ?t = "take_pending i (Got (answer_of resp)) s" let ?s = "?t\<lparr>given := (m, resp) # given s\<rparr>"
    have c: "calls ?t ! n = (if n = m then (calls s ! n)\<lparr>cl_slot := Got (answer_of resp)\<rparr> else calls s ! n)"
      if "n < length (calls s)" for n
      using that Some by (auto simp: take_pending_call)
    have g: "given_to ?s n b" if "n < length (calls s)" "n \<noteq> m" "given_to s n b" for n b
      using that by (auto simp: given_to_def)
    have "given_to ?s m (answer_of resp)" using m \<open>rs_id resp = Some i\<close> by (auto simp: given_to_def)
    then have "answers_inv ?s" using assms(1) m new g unfolding answers_inv_def by (auto simp: c split: if_splits)
    then show ?thesis using Some \<open>rs_id resp = Some i\<close> by (simp add: hand_out_def)
  qed
qed (use assms in \<open>simp add: hand_out_def\<close>)

lemma answers_inv_other [simp]:
  "answers_inv (s\<lparr>pending := p\<rparr>) = answers_inv s" "answers_inv (s\<lparr>reader_on := b\<rparr>) = answers_inv s"
  "answers_inv (s\<lparr>writer_on := b\<rparr>) = answers_inv s" "answers_inv (s\<lparr>request_queue := q\<rparr>) = answers_inv s"
  "answers_inv (s\<lparr>server_input := q\<rparr>) = answers_inv s"
  by (simp_all add: answers_inv_def given_to_def)

lemma fold_take_pending_answers:
  "answers_inv s \<Longrightarrow> conn_inv s \<Longrightarrow> answers_inv (fold (\<lambda>p. take_pending (fst p) (Got terminated)) ps s)"
  by (induction ps arbitrary: s) (simp_all add: take_pending_inv take_pending_answers)

lemma conn_step_answers:
  assumes "conn_step parse s s'" "answers_inv s" "conn_inv s"
  shows "answers_inv s'"
  using assms
proof cases
  case (call n)
  then show ?thesis using assms(2,3)
    by (auto elim!: call_step.cases intro!: finish_answers set_call_answers simp: awaiting_def running_def)
qed (auto simp: begin_call_answers read_line_def hand_out_answers drain_def fold_take_pending_answers split: option.split)

lemma conn_reachable_answers: "conn_reachable parse s \<Longrightarrow> answers_inv s"
proof (induction rule: conn_reachable.induct)
  case init
  then show ?case by (simp add: answers_inv_def new_connection_def)
next
  case (step s s')
  then show ?case using conn_step_answers conn_reachable_inv by blast
qed

text \<open>C15: 
  A call that returns a value returns what the server answered to the id of that call, and an answer of the server is
  given to one call at most; every other result is an error the client makes up itself. Whatever the order of the
  answers, the timeouts and the other calls is, no call gets the answer to another id.
\<close>

theorem mcp_answers_own:
  assumes "conn_reachable parse s" "n < length (calls s)" "cl_result (calls s ! n) = Some a"
  shows "distinct (map fst (given s))
    \<and> ((\<exists>r. (n, r) \<in> set (given s) \<and> rs_id r = Some (cl_id (calls s ! n)) \<and> answer_of r = a)
       \<or> a \<in> {terminated, send_failed, channel_closed, timed_out})"
proof -
  have i: "answers_inv s" by (rule conn_reachable_answers [OF assms(1)])
  then have "a \<in> {send_failed, channel_closed, timed_out} \<or> cl_slot (calls s ! n) = Got a"
    using assms(2,3) by (simp add: answers_inv_def)
  moreover have "cl_slot (calls s ! n) = Got a \<Longrightarrow> given_to s n a"
    using i assms(2) by (simp add: answers_inv_def)
  moreover have "distinct (map fst (given s))" using i by (simp add: answers_inv_def)
  ultimately show ?thesis by (auto simp: given_to_def)
qed

definition sample_parse :: "string \<Rightarrow> rpc_response option" where
  "sample_parse line =
     map_option (\<lambda>n. \<lparr>rs_result = Some (JStr line), rs_error = None, rs_id = Some (of_nat n)\<rparr>) (parse_uint 99 line)"

definition started :: connection where
  "started = begin_call 8 ''tools/call'' JNull (begin_call 7 ''tools/list'' JNull new_connection)"

definition both_sent :: connection where
  "both_sent = (set_call 1 (\<lambda>c. c\<lparr>cl_sent := True\<rparr>) ((set_call 0 (\<lambda>c. c\<lparr>cl_sent := True\<rparr>) started)
     \<lparr>request_queue := [cl_request (calls started ! 0)]\<rparr>))
     \<lparr>request_queue := [cl_request (calls started ! 0), cl_request (calls started ! 1)]\<rparr>"

lemma started_eq: "started = \<lparr>calls =
    [\<lparr>cl_request = \<lparr>rq_method = ''tools/list'', rq_params = JNull, rq_id = Some 7\<rparr>, cl_id = 7, cl_sent = False,
       cl_slot = Open, cl_result = None\<rparr>,
     \<lparr>cl_request = \<lparr>rq_method = ''tools/call'', rq_params = JNull, rq_id = Some 8\<rparr>, cl_id = 8, cl_sent = False,
       cl_slot = Open, cl_result = None\<rparr>],
    pending = [(8, 1), (7, 0)], request_queue = [], server_input = [], reader_on = True, writer_on = True, given = []\<rparr>"
  by (simp add: started_def begin_call_def Let_def new_connection_def take_pending_def)

lemma both_sent_reachable: "conn_reachable parse both_sent"
proof -
  let ?s1 = "(set_call 0 (\<lambda>c. c\<lparr>cl_sent := True\<rparr>) started)\<lparr>request_queue := [cl_request (calls started ! 0)]\<rparr>"
  have "conn_reachable parse (begin_call 7 ''tools/list'' JNull new_connection)"
    by (rule conn_reachable.step [OF conn_reachable.init]) (rule conn_step.start)
  then have s: "conn_reachable parse started"
    unfolding started_def by (rule conn_reachable.step) (rule conn_step.start)
  have "call_step 0 started ?s1"
    using call_step.send [of started 0] by (simp add: started_eq running_def CHANNEL_CAPACITY_def)
  with s have r: "conn_reachable parse ?s1" by (blast intro: conn_reachable.step conn_step.call)
  have "call_step 1 ?s1 both_sent"
    using call_step.send [of ?s1 1] by (simp add: both_sent_def started_eq running_def CHANNEL_CAPACITY_def set_call_def)
  with r show ?thesis by (blast intro: conn_reachable.step conn_step.call)
qed

definition answered :: connection where
  "answered = finish 1 (Inr (JStr ''8'')) (read_line sample_parse ''8'' both_sent)"

lemma answered_reachable: "conn_reachable sample_parse answered"
proof -
  have on: "reader_on both_sent" by (simp add: both_sent_def started_eq set_call_def)
  then have r: "conn_reachable sample_parse (read_line sample_parse ''8'' both_sent)"
    by (intro conn_reachable.step [OF both_sent_reachable] conn_step.read_in)
  have "call_step 1 (read_line sample_parse ''8'' both_sent) answered"
    unfolding answered_def
    by (rule call_step.receive) (simp_all add: awaiting_def running_def both_sent_def started_eq set_call_def read_line_def
      trim_def trim_start_def is_whitespace_def sample_parse_def parse_uint_def is_ascii_digit_def hand_out_def
      take_pending_def answer_of_def)
  with r show ?thesis by (blast intro: conn_reachable.step conn_step.call)
qed

theorem mcp_answers_own_witness:
  "\<exists>r. (1, r) \<in> set (given answered) \<and> rs_id r = Some 8 \<and> answer_of r = Inr (JStr ''8'')"
proof -
  have n: "1 < length (calls answered)" "cl_result (calls answered ! 1) = Some (Inr (JStr ''8''))"
    "cl_id (calls answered ! 1) = 8"
    by (simp_all add: answered_def finish_def both_sent_def started_eq set_call_def read_line_def
      trim_def trim_start_def is_whitespace_def sample_parse_def parse_uint_def is_ascii_digit_def hand_out_def
      take_pending_def answer_of_def)
  from mcp_answers_own [OF answered_reachable n(1,2)] n(3) show ?thesis
    by (simp add: terminated_def send_failed_def channel_closed_def timed_out_def)
qed

subsection \<open>Ids\<close>

definition no_loss :: "connection \<Rightarrow> bool" where
  "no_loss s \<longleftrightarrow> (\<forall>n < length (calls s). cl_slot (calls s ! n) = Dropped \<longrightarrow> cl_result (calls s ! n) \<noteq> None)
     \<and> (\<forall>n < length (calls s). cl_result (calls s ! n) \<noteq> Some channel_closed)"

lemma no_loss_other [simp]:
  "no_loss (s\<lparr>pending := p\<rparr>) = no_loss s" "no_loss (s\<lparr>reader_on := b\<rparr>) = no_loss s"
  "no_loss (s\<lparr>writer_on := b\<rparr>) = no_loss s" "no_loss (s\<lparr>request_queue := q\<rparr>) = no_loss s"
  "no_loss (s\<lparr>server_input := q\<rparr>) = no_loss s" "no_loss (s\<lparr>given := g\<rparr>) = no_loss s"
  by (simp_all add: no_loss_def)

lemma take_pending_no_loss: "no_loss s \<Longrightarrow> no_loss (take_pending i (Got a) s)"
  by (simp add: no_loss_def take_pending_call)

lemma fold_take_pending_no_loss: "no_loss s \<Longrightarrow> no_loss (fold (\<lambda>p. take_pending (fst p) (Got a)) ps s)"
  by (induction ps arbitrary: s) (simp_all add: take_pending_no_loss)

lemma given_not_closed: "answers_inv s \<Longrightarrow> n < length (calls s) \<Longrightarrow> cl_slot (calls s ! n) \<noteq> Got channel_closed"
  by (auto simp: answers_inv_def given_to_def terminated_def channel_closed_def answer_of_def split: option.splits)

lemma finish_no_loss:
  assumes "no_loss s" "conn_inv s" "distinct (map cl_id (calls s))" "n < length (calls s)" "a \<noteq> channel_closed"
  shows "no_loss (finish n a s)"
proof -
  have own: "m = n" if "map_of (pending s) (cl_id (calls s ! n)) = Some m" for m
  proof -
    from that assms(2) have "m < length (calls s)" "cl_id (calls s ! m) = cl_id (calls s ! n)" by (auto simp: conn_inv_def)
    then show ?thesis using assms(3,4) by (simp add: distinct_conv_nth) metis
  qed
  show ?thesis
    using assms(1,4,5) own
    by (auto simp: no_loss_def finish_def Let_def set_call_def take_pending_call nth_list_update split: if_splits)
qed

lemma ids_take_pending [simp]: "map cl_id (calls (take_pending i x s)) = map cl_id (calls s)"
  by (rule nth_equalityI) simp_all

lemma ids_set_call [simp]: "(\<And>c. cl_id (f c) = cl_id c) \<Longrightarrow> map cl_id (calls (set_call n f s)) = map cl_id (calls s)"
  by (cases "n < length (calls s)") (auto simp: set_call_def nth_list_update intro!: nth_equalityI)

lemma ids_fold [simp]: "map cl_id (calls (fold (\<lambda>p. take_pending (fst p) x) ps s)) = map cl_id (calls s)"
  by (induction ps arbitrary: s) simp_all

lemma ids_begin_call: "map cl_id (calls (begin_call i meth params s)) = map cl_id (calls s) @ [i]"
  by (simp add: begin_call_def Let_def)

lemma ids_step: "conn_step parse s s' \<Longrightarrow> \<exists>xs. map cl_id (calls s') = map cl_id (calls s) @ xs"
  by (cases rule: conn_step.cases) (auto elim!: call_step.cases simp: ids_begin_call finish_def Let_def read_line_def
    hand_out_def drain_def split: option.split)

lemma no_loss_step:
  assumes "conn_step parse s s'" "no_loss s" "conn_inv s" "answers_inv s" "distinct (map cl_id (calls s'))"
  shows "no_loss s'"
  using assms(1)
proof cases
  case (start i meth params)
  have "map_of (pending s) i = None"
  proof (rule ccontr)
    assume "map_of (pending s) i \<noteq> None"
    then obtain m where "m < length (calls s)" "cl_id (calls s ! m) = i" using assms(3) by (auto simp: conn_inv_def)
    then have "i \<in> set (map cl_id (calls s))" by auto
    then show False using assms(5) by (simp add: start ids_begin_call)
  qed
  then show ?thesis using assms(2) start
    by (auto simp: no_loss_def begin_call_def Let_def take_pending_def nth_append less_Suc_eq)
next
  case (call n)
  have d: "distinct (map cl_id (calls s))" using ids_step [OF assms(1)] assms(5) by auto
  have f: "no_loss (finish n a s)" if "running s n" "a \<noteq> channel_closed" for a
    using that assms(2,3) d by (intro finish_no_loss) (simp_all add: running_def)
  from call show ?thesis
  proof cases
    case send
    then show ?thesis using assms(2) by (simp add: no_loss_def set_call_def nth_list_update running_def)
  next
    case (receive a)
    then have "a \<noteq> channel_closed" using given_not_closed [OF assms(4), of n] by (auto simp: awaiting_def running_def)
    with receive show ?thesis by (simp add: f awaiting_def)
  next
    case closed
    then show ?thesis using assms(2) by (auto simp: no_loss_def awaiting_def running_def)
  qed (auto simp: f awaiting_def send_failed_def timed_out_def channel_closed_def)
qed (use assms(2) in \<open>auto simp: read_line_def hand_out_def drain_def take_pending_no_loss fold_take_pending_no_loss
  split: option.split\<close>)

text \<open>
  The id of a request is the time in nanoseconds. As long as no two calls of a connection have the same one, no call
  loses its answer to another: none ends with a closed channel, and none is left with one.
\<close>

theorem mcp_distinct_ids:
  assumes "conn_reachable parse s" "distinct (map cl_id (calls s))" "n < length (calls s)"
  shows "cl_result (calls s ! n) \<noteq> Some channel_closed \<and> (running s n \<longrightarrow> cl_slot (calls s ! n) \<noteq> Dropped)"
proof -
  have "no_loss s" using assms(1,2)
  proof (induction rule: conn_reachable.induct)
    case init
    then show ?case by (simp add: no_loss_def new_connection_def)
  next
    case (step s s')
    have "distinct (map cl_id (calls s))" using ids_step [OF step.hyps(2)] step.prems by auto
    with step show ?case using no_loss_step conn_reachable_inv conn_reachable_answers by blast
  qed
  then show ?thesis using assms(3) by (auto simp: no_loss_def running_def)
qed

theorem mcp_distinct_ids_witness:
  "conn_reachable sample_parse answered \<and> running answered 0 \<and> cl_slot (calls answered ! 0) \<noteq> Dropped"
proof -
  have "distinct (map cl_id (calls answered)) \<and> 0 < length (calls answered) \<and> running answered 0"
    by (simp add: answered_def finish_def both_sent_def started_eq set_call_def read_line_def
      trim_def trim_start_def is_whitespace_def sample_parse_def parse_uint_def is_ascii_digit_def hand_out_def
      take_pending_def answer_of_def running_def)
  with mcp_distinct_ids [OF answered_reachable] answered_reachable show ?thesis by blast
qed

subsection \<open>When calls end\<close>

text \<open>
  Nothing but room in the channel is needed for a call to end: a call that has been sent, or whose writer has
  stopped, ends with its next step, one that is to be sent goes on as soon as the channel has room. While the channel is full
  the call waits without a limit, the timeout only starts when the request is in the channel.
\<close>

theorem mcp_call_progress:
  assumes "running s n"
  shows "if cl_sent (calls s ! n) \<or> \<not> writer_on s
    then (\<exists>s'. call_step n s s') \<and> (\<forall>s'. \<not> (call_step n s s' \<and> running s' n))
    else (\<exists>s'. call_step n s s') \<longleftrightarrow> length (request_queue s) < CHANNEL_CAPACITY"
proof -
  have over: "\<not> running (finish n a s) n" for a
    using assms by (simp add: running_def finish_def Let_def set_call_def)
  show ?thesis
  proof (cases "cl_sent (calls s ! n) \<or> \<not> writer_on s")
    case True
    have "\<exists>s'. call_step n s s'"
    proof (cases "cl_sent (calls s ! n)")
      case True
      with assms have "awaiting s n" by (simp add: awaiting_def)
      then show ?thesis by (cases "cl_slot (calls s ! n)") (blast intro: call_step.intros)+
    next
      case False
      with assms \<open>cl_sent (calls s ! n) \<or> \<not> writer_on s\<close> show ?thesis by (blast intro: call_step.intros)
    qed
    moreover have "\<not> running s' n" if "call_step n s s'" for s'
      using that True over by (auto elim!: call_step.cases)
    ultimately show ?thesis using True by auto
  next
    case False
    with assms show ?thesis by (auto elim!: call_step.cases intro: call_step.send simp: awaiting_def)
  qed
qed

theorem mcp_call_progress_witness:
  "\<exists>s'. call_step 0 both_sent s'"
  using mcp_call_progress [of both_sent 0] by (simp add: running_def both_sent_def started_eq set_call_def)

text \<open>Once the reader has stopped no call that begins later is answered.\<close>

lemma finish_slot:
  "m < length (calls s) \<Longrightarrow> cl_slot (calls (finish n a s) ! m) \<in> {cl_slot (calls s ! m), Dropped}"
proof -
  have "cl_slot ((calls s)[n := (calls s ! n)\<lparr>cl_result := Some a\<rparr>] ! m) = cl_slot (calls s ! m)"
    by (cases "n < length (calls s)") (auto simp: nth_list_update list_update_beyond)
  moreover assume "m < length (calls s)"
  ultimately show ?thesis by (auto simp: finish_def Let_def take_pending_call set_call_def)
qed

definition unanswered_from :: "nat \<Rightarrow> connection \<Rightarrow> bool" where
  "unanswered_from k s \<longleftrightarrow> \<not> reader_on s \<and> k \<le> length (calls s)
     \<and> (\<forall>n < length (calls s). k \<le> n \<longrightarrow> (\<forall>a. cl_slot (calls s ! n) \<noteq> Got a))"

lemma unanswered_step:
  assumes "conn_step parse s s'" "unanswered_from k s"
  shows "unanswered_from k s'"
  using assms(1)
proof cases
  case (start i meth params)
  then show ?thesis using assms(2)
    by (auto simp: unanswered_from_def begin_call_def Let_def take_pending_call nth_append less_Suc_eq split: if_splits)
next
  case (call n)
  have f: "unanswered_from k (finish n a s)" for a
  proof -
    have "cl_slot (calls (finish n a s) ! m) \<noteq> Got b" if "m < length (calls s)" "k \<le> m" for m b
      using finish_slot [OF that(1), of n a] assms(2) that by (auto simp: unanswered_from_def)
    moreover have "\<not> reader_on (finish n a s) \<and> length (calls (finish n a s)) = length (calls s)"
      using assms(2) by (simp add: unanswered_from_def finish_def Let_def set_call_def)
    ultimately show ?thesis using assms(2) by (simp add: unanswered_from_def)
  qed
  from call show ?thesis
  proof cases
    case send
    then show ?thesis using assms(2) by (simp add: unanswered_from_def set_call_def nth_list_update running_def)
  qed (simp_all add: f)
qed (use assms(2) in \<open>simp_all add: unanswered_from_def\<close>)

text \<open>
  A call that begins after the output of the server has ended is not told: its request is inserted after the reader
  emptied the map, so it is answered by nobody and ends with a failed send, a timeout, or another call of its id.
\<close>

theorem mcp_late_call_unanswered:
  assumes "conn_reachable parse s" "\<not> reader_on s" "(conn_step parse)\<^sup>*\<^sup>* s s'"
    "length (calls s) \<le> n" "n < length (calls s')" "cl_result (calls s' ! n) = Some a"
  shows "a \<in> {send_failed, timed_out, channel_closed}"
proof -
  have "unanswered_from (length (calls s)) s" using assms(2) by (simp add: unanswered_from_def)
  with assms(3) have "unanswered_from (length (calls s)) s'"
    by (induction rule: rtranclp_induct) (auto intro: unanswered_step)
  moreover from assms(3,1) have "conn_reachable parse s'"
    by (induction rule: rtranclp_induct) (auto intro: conn_reachable.step)
  then have "answers_inv s'" by (rule conn_reachable_answers)
  ultimately show ?thesis using assms(4-6) by (fastforce simp: answers_inv_def unanswered_from_def)
qed

theorem mcp_late_call_unanswered_witness:
  "timed_out \<in> {send_failed, timed_out, channel_closed}
   \<and> (\<exists>s s'. \<not> reader_on s \<and> (conn_step sample_parse)\<^sup>*\<^sup>* s s' \<and> calls s = [] \<and> map cl_result (calls s') = [Some timed_out])"
proof -
  let ?s = "drain new_connection" let ?b = "begin_call 7 ''ping'' JNull ?s"
  let ?w = "(set_call 0 (\<lambda>c. c\<lparr>cl_sent := True\<rparr>) ?b)\<lparr>request_queue := [cl_request (calls ?b ! 0)]\<rparr>"
  let ?e = "finish 0 timed_out ?w"
  have s: "conn_reachable sample_parse ?s" "\<not> reader_on ?s" "calls ?s = []"
    by (rule conn_reachable.step [OF conn_reachable.init conn_step.reader_ends])
      (simp_all add: new_connection_def drain_def)
  have b: "?b = \<lparr>calls = [\<lparr>cl_request = \<lparr>rq_method = ''ping'', rq_params = JNull, rq_id = Some 7\<rparr>, cl_id = 7,
      cl_sent = False, cl_slot = Open, cl_result = None\<rparr>], pending = [(7, 0)], request_queue = [], server_input = [],
      reader_on = False, writer_on = True, given = []\<rparr>"
    by (simp add: begin_call_def Let_def new_connection_def take_pending_def drain_def)
  have "call_step 0 ?b ?w" using call_step.send [of ?b 0] by (simp add: b running_def CHANNEL_CAPACITY_def)
  moreover have "call_step 0 ?w ?e"
    by (rule call_step.expire) (simp_all add: b awaiting_def running_def set_call_def)
  ultimately have "conn_step sample_parse ?s ?b" "conn_step sample_parse ?b ?w" "conn_step sample_parse ?w ?e"
    by (auto intro: conn_step.intros)
  then have st: "(conn_step sample_parse)\<^sup>*\<^sup>* ?s ?e" by (meson r_into_rtranclp rtranclp.rtrancl_into_rtrancl)
  have r: "map cl_result (calls ?e) = [Some timed_out]"
    by (simp add: b finish_def set_call_def timed_out_def take_pending_def)
  have "0 < length (calls ?e)" "cl_result (calls ?e ! 0) = Some timed_out"
    by (simp_all add: b finish_def set_call_def timed_out_def take_pending_def)
  then have "timed_out \<in> {send_failed, timed_out, channel_closed}"
    by (intro mcp_late_call_unanswered [OF s(1,2) st]) (simp_all add: s(3))
  moreover have "\<exists>s s'. \<not> reader_on s \<and> (conn_step sample_parse)\<^sup>*\<^sup>* s s' \<and> calls s = []
      \<and> map cl_result (calls s') = [Some timed_out]"
    using s(2,3) st r by (intro exI [of _ ?s] exI [of _ ?e]) (simp only: simp_thms)
  ultimately show ?thesis by (rule conjI)
qed

end
