(* ===== verification/Mcp_Manager.thy ===== *)
theory Mcp_Manager
  imports Mcp_Connection Config_Document
begin

text \<open>
  The MCP servers the agent keeps running (\<^verbatim>\<open>src/src/agent/mcp_manager.rs\<close>) and the tool that calls one
  (\<^verbatim>\<open>src/src/agent/tools/mcp.rs\<close>). \<open>ensure_server\<close> is several tasks at once, each a sequence of sections between
  which others run; the sections under one lock, \<open>shutdown\<close>, the reaper and the health check are one step. The
  processes are part of the state: a process runs, has exited, or was killed and waited for. Of which processes the
  status cannot be read, how a start and a handshake come out, and what a server answers is given.
\<close>

subsection \<open>State\<close>

datatype process = Alive | Exited | Reaped

record server_handle =
  sh_pid :: nat
  sh_last_used :: nat

record mcp_manager =
  mg_servers :: "(string \<times> server_handle) list"
  mg_configs :: "(string \<times> mcp_server_config) list"
  mg_idle_timeout :: nat
  mg_processes :: "process list"
  mg_now :: nat

definition new_with_config :: "nat \<Rightarrow> mcp_manager" where
  "new_with_config idle_timeout_secs =
     \<lparr>mg_servers = [], mg_configs = [], mg_idle_timeout = idle_timeout_secs, mg_processes = [], mg_now = 0\<rparr>"

definition initialize_servers :: "mcp_server_config list \<Rightarrow> mcp_manager \<Rightarrow> mcp_manager" where
  "initialize_servers configs m = m\<lparr>mg_configs := fold (\<lambda>c. put (ms_name c) c) configs (mg_configs m)\<rparr>"

definition without :: "string \<Rightarrow> (string \<times> 'a) list \<Rightarrow> (string \<times> 'a) list" where
  "without name kvs = filter (\<lambda>kv. fst kv \<noteq> name) kvs"

definition kill_wait :: "nat \<Rightarrow> mcp_manager \<Rightarrow> mcp_manager" where
  "kill_wait pid m = m\<lparr>mg_processes := (mg_processes m)[pid := Reaped]\<rparr>"

text \<open>\<open>try_wait\<close>: the process is known to have ended.\<close>

definition known_dead :: "(nat \<Rightarrow> bool) \<Rightarrow> mcp_manager \<Rightarrow> server_handle \<Rightarrow> bool" where
  "known_dead unreadable m h \<longleftrightarrow> \<not> unreadable (sh_pid h) \<and> mg_processes m ! sh_pid h \<noteq> Alive"

definition used_now :: "string \<Rightarrow> mcp_manager \<Rightarrow> mcp_manager" where
  "used_now name m =
     m\<lparr>mg_servers := map (\<lambda>(k, h). (k, if k = name then h\<lparr>sh_last_used := mg_now m\<rparr> else h)) (mg_servers m)\<rparr>"

subsection \<open>Starting a server\<close>

datatype ensure_task =
    Looking string
  | Stale string
  | Spawning string
  | Shaking string nat
  | Inserting string nat
  | Ended "(anyhow_error, unit) res"

definition ensure_look :: "(nat \<Rightarrow> bool) \<Rightarrow> string \<Rightarrow> mcp_manager \<Rightarrow> ensure_task \<times> mcp_manager" where
  "ensure_look unreadable name m =
     (case map_of (mg_servers m) name of
        None \<Rightarrow> (Spawning name, m)
      | Some h \<Rightarrow> if known_dead unreadable m h then (Stale name, m) else (Ended (Inr ()), used_now name m))"

definition ensure_remove_stale :: "(nat \<Rightarrow> bool) \<Rightarrow> string \<Rightarrow> mcp_manager \<Rightarrow> ensure_task \<times> mcp_manager" where
  "ensure_remove_stale unreadable name m =
     (Spawning name,
      case map_of (mg_servers m) name of
        None \<Rightarrow> m
      | Some h \<Rightarrow> if known_dead unreadable m h then m\<lparr>mg_servers := without name (mg_servers m)\<rparr> else m)"

text \<open>The command line and the environment: that of the program, and over it that of the server.\<close>

definition spawn_command ::
  "(string \<rightharpoonup> string) \<Rightarrow> mcp_server_config \<Rightarrow> string \<times> string list \<times> (string \<rightharpoonup> string)" where
  "spawn_command vars c =
     (ms_command c, ms_args c, vars ++ (case ms_env c of Some env \<Rightarrow> map_of env | None \<Rightarrow> Map.empty))"

definition ensure_spawn :: "(mcp_server_config \<Rightarrow> bool) \<Rightarrow> string \<Rightarrow> mcp_manager \<Rightarrow> ensure_task \<times> mcp_manager" where
  "ensure_spawn starts name m =
     (case map_of (mg_configs m) name of
        None \<Rightarrow> (Ended (Inl (Msg (''Server config not found: '' @ name))), m)
      | Some config \<Rightarrow>
          if starts config
          then (Shaking name (length (mg_processes m)), m\<lparr>mg_processes := mg_processes m @ [Alive]\<rparr>)
          else (Ended (Inl (Msg ''Failed to spawn MCP server process'')), m))"

text \<open>How a handshake comes out: the request, the answer within ten seconds, the notification.\<close>

datatype handshake = Shaken | InitNotSent string | InitRefused string | InitClosed | InitTimeout | NotifyNotSent string

fun handshake_error :: "handshake \<Rightarrow> string option" where
  "handshake_error Shaken = None"
| "handshake_error (InitNotSent e) = Some (''Failed to send initialize request: '' @ e)"
| "handshake_error (InitRefused e) = Some (''Initialize failed: '' @ e)"
| "handshake_error InitClosed = Some ''Initialize response channel closed''"
| "handshake_error InitTimeout = Some ''Initialize timed out''"
| "handshake_error (NotifyNotSent e) = Some (''Failed to send initialized notification: '' @ e)"

definition ensure_shake :: "handshake \<Rightarrow> string \<Rightarrow> nat \<Rightarrow> mcp_manager \<Rightarrow> ensure_task \<times> mcp_manager" where
  "ensure_shake h name pid m =
     (case handshake_error h of
        None \<Rightarrow> (Inserting name pid, m)
      | Some e \<Rightarrow> (Ended (Inl (Msg e)), kill_wait pid m))"

definition ensure_insert :: "string \<Rightarrow> nat \<Rightarrow> mcp_manager \<Rightarrow> ensure_task \<times> mcp_manager" where
  "ensure_insert name pid m =
     (Ended (Inr ()),
      case map_of (mg_servers m) name of
        Some existing \<Rightarrow> used_now name (kill_wait pid m)
      | None \<Rightarrow> m\<lparr>mg_servers := (name, \<lparr>sh_pid = pid, sh_last_used = mg_now m\<rparr>) # mg_servers m\<rparr>)"

subsection \<open>Stopping servers\<close>

definition shutdown_one :: "string \<Rightarrow> mcp_manager \<Rightarrow> mcp_manager" where
  "shutdown_one name m =
     (case map_of (mg_servers m) name of
        None \<Rightarrow> m
      | Some h \<Rightarrow> kill_wait (sh_pid h) (m\<lparr>mg_servers := without name (mg_servers m)\<rparr>))"

definition shutdown :: "string option \<Rightarrow> mcp_manager \<Rightarrow> mcp_manager" where
  "shutdown server_name m =
     (case server_name of
        Some name \<Rightarrow> shutdown_one name m
      | None \<Rightarrow> fold (kill_wait \<circ> sh_pid \<circ> snd) (mg_servers m) (m\<lparr>mg_servers := []\<rparr>))"

definition to_reap :: "(nat \<Rightarrow> bool) \<Rightarrow> mcp_manager \<Rightarrow> string list" where
  "to_reap unreadable m =
     map fst (filter (\<lambda>(name, h). mg_idle_timeout m < mg_now m - sh_last_used h \<or> unreadable (sh_pid h)
       \<or> mg_processes m ! sh_pid h \<noteq> Alive) (mg_servers m))"

definition reap_idle_servers :: "(nat \<Rightarrow> bool) \<Rightarrow> mcp_manager \<Rightarrow> mcp_manager" where
  "reap_idle_servers unreadable m = fold shutdown_one (to_reap unreadable m) m"

text \<open>
  What a ping came back with. An error of the server counts as an answer, recognised by its text; any other error
  removes whatever server has the name by then.
\<close>

fun alive_answer :: "(anyhow_error \<Rightarrow> string) \<Rightarrow> answer \<Rightarrow> bool" where
  "alive_answer show_error (Inr v) = True"
| "alive_answer show_error (Inl e) = contains (show_error e) ''MCP Error''"

definition health_check :: "(anyhow_error \<Rightarrow> string) \<Rightarrow> string \<Rightarrow> answer \<Rightarrow> mcp_manager \<Rightarrow> mcp_manager" where
  "health_check show_error name a m = (if alive_answer show_error a then m else shutdown_one name m)"

subsection \<open>Calling a server\<close>

definition connect :: "string \<Rightarrow> mcp_manager \<Rightarrow> (anyhow_error, nat) res \<times> mcp_manager" where
  "connect name m =
     (case map_of (mg_servers m) name of
        None \<Rightarrow> (Inl (Msg (''Server not connected: '' @ name)), m)
      | Some h \<Rightarrow> (Inr (sh_pid h), used_now name m))"

definition list_tools :: "answer \<Rightarrow> (anyhow_error, json list) res" where
  "list_tools a = bind_res a (\<lambda>resp. Inr (unwrap_or (Option.bind (jget resp ''tools'') as_array) []))"

definition tool_params :: "string \<Rightarrow> json \<Rightarrow> json" where
  "tool_params name args = JObj [''name'' \<mapsto> JStr name, ''arguments'' \<mapsto> args]"

definition item_text :: "json \<Rightarrow> string" where
  "item_text item = unwrap_or (Option.bind (jget item ''text'') as_str) []"

definition mcp_result_text :: "(json \<Rightarrow> string) \<Rightarrow> json \<Rightarrow> string" where
  "mcp_result_text pretty result =
     (case Option.bind (jget result ''content'') as_array of
        None \<Rightarrow> pretty result
      | Some items \<Rightarrow>
          let output = concat (map item_text items) in if output = [] then pretty result else output)"

definition mcp_execute ::
  "(string \<Rightarrow> json option) \<Rightarrow> string \<Rightarrow> (json \<Rightarrow> string) \<Rightarrow> (string \<Rightarrow> json \<Rightarrow> answer) \<Rightarrow> string \<Rightarrow> string
   \<Rightarrow> (anyhow_error, string) res" where
  "mcp_execute parse parse_error pretty rpc name arguments =
     (case parse arguments of
        None \<Rightarrow> Inl (Msg parse_error)
      | Some args \<Rightarrow> bind_res (rpc ''tools/call'' (tool_params name args)) (\<lambda>result. Inr (mcp_result_text pretty result)))"

subsection \<open>Steps\<close>

type_synonym mcp_system = "mcp_manager \<times> ensure_task list"

inductive ensure_step :: "mcp_manager \<Rightarrow> ensure_task \<Rightarrow> ensure_task \<times> mcp_manager \<Rightarrow> bool" where
  look: "ensure_step m (Looking name) (ensure_look unreadable name m)"
| stale: "ensure_step m (Stale name) (ensure_remove_stale unreadable name m)"
| spawn: "ensure_step m (Spawning name) (ensure_spawn starts name m)"
| shake: "ensure_step m (Shaking name pid) (ensure_shake h name pid m)"
| insert: "ensure_step m (Inserting name pid) (ensure_insert name pid m)"

inductive mcp_step :: "mcp_system \<Rightarrow> mcp_system \<Rightarrow> bool" where
  configured: "mcp_step (m, ts) (initialize_servers configs m, ts)"
| ensured: "mcp_step (m, ts) (m, ts @ [Looking name])"
| task: "n < length ts \<Longrightarrow> ensure_step m (ts ! n) (t, m') \<Longrightarrow> mcp_step (m, ts) (m', ts[n := t])"
| shut_down: "mcp_step (m, ts) (shutdown server_name m, ts)"
| reaped: "mcp_step (m, ts) (reap_idle_servers unreadable m, ts)"
| pinged: "mcp_step (m, ts) (health_check show_error name a m, ts)"
| used: "mcp_step (m, ts) (snd (connect name m), ts)"
| exits: "pid < length (mg_processes m) \<Longrightarrow> mg_processes m ! pid = Alive \<Longrightarrow>
    mcp_step (m, ts) (m\<lparr>mg_processes := (mg_processes m)[pid := Exited]\<rparr>, ts)"
| ticks: "mcp_step (m, ts) (m\<lparr>mg_now := mg_now m + d\<rparr>, ts)"

inductive mcp_reachable :: "nat \<Rightarrow> mcp_system \<Rightarrow> bool" for idle :: nat where
  init: "mcp_reachable idle (new_with_config idle, [])"
| step: "mcp_reachable idle s \<Longrightarrow> mcp_step s s' \<Longrightarrow> mcp_reachable idle s'"

subsection \<open>No process is lost\<close>

fun holds :: "ensure_task \<Rightarrow> nat set" where
  "holds (Shaking name pid) = {pid}" | "holds (Inserting name pid) = {pid}" | "holds t = {}"

definition held :: "mcp_system \<Rightarrow> nat set" where
  "held s = sh_pid ` snd ` set (mg_servers (fst s)) \<union> (\<Union>t \<in> set (snd s). holds t)"

definition mcp_inv :: "mcp_system \<Rightarrow> bool" where
  "mcp_inv s \<longleftrightarrow> distinct (map fst (mg_servers (fst s)))
     \<and> (\<forall>pid < length (mg_processes (fst s)). mg_processes (fst s) ! pid = Alive \<longrightarrow> pid \<in> held s)"

lemma fst_used_now [simp]: "map fst (mg_servers (used_now name m)) = map fst (mg_servers m)"
  by (simp add: used_now_def comp_def case_prod_beta)

lemma pids_used_now [simp]: "sh_pid ` snd ` set (mg_servers (used_now name m)) = sh_pid ` snd ` set (mg_servers m)"
  unfolding used_now_def by (auto simp: image_image intro!: image_cong)

lemma processes_simps [simp]:
  "mg_processes (used_now name m) = mg_processes m"
  "mg_processes (kill_wait pid m) = (mg_processes m)[pid := Reaped]"
  "mg_servers (kill_wait pid m) = mg_servers m"
  by (simp_all add: used_now_def kill_wait_def)

definition covered :: "mcp_manager \<Rightarrow> nat set \<Rightarrow> bool" where
  "covered m H \<longleftrightarrow> distinct (map fst (mg_servers m))
     \<and> (\<forall>pid < length (mg_processes m). mg_processes m ! pid = Alive \<longrightarrow>
          pid \<in> sh_pid ` snd ` set (mg_servers m) \<or> pid \<in> H)"

lemma mcp_inv_covered: "mcp_inv (m, ts) \<longleftrightarrow> covered m (\<Union>t \<in> set ts. holds t)"
  by (simp add: mcp_inv_def covered_def held_def)

lemma without_fields:
  "distinct (map fst kvs) \<Longrightarrow> distinct (map fst (without name kvs))"
  "map_of kvs name = Some h \<Longrightarrow> distinct (map fst kvs) \<Longrightarrow> set kvs = insert (name, h) (set (without name kvs))"
  by (auto simp: without_def distinct_map_filter map_of_eq_Some_iff dest: map_of_SomeD) (metis map_of_SomeD map_of_eq_Some_iff option.inject)

lemma alive_update: "n < length ps \<Longrightarrow> ps[pid := x] ! n = Alive \<Longrightarrow> x \<noteq> Alive \<Longrightarrow>
    n \<noteq> pid \<and> ps ! n = Alive \<and> n < length ps"
  by (metis nth_list_update_eq nth_list_update_neq)

lemma covered_kill:
  assumes "covered m (insert pid H)"
  shows "covered (kill_wait pid m) H"
proof -
  have "n \<in> sh_pid ` snd ` set (mg_servers m) \<or> n \<in> H"
    if "n < length (mg_processes m)" "(mg_processes m)[pid := Reaped] ! n = Alive" for n
    using alive_update [OF that] assms by (auto simp: covered_def)
  then show ?thesis using assms by (simp add: covered_def)
qed

lemma covered_mono: "covered m H \<Longrightarrow> H \<subseteq> H' \<Longrightarrow> covered m H'"
  by (auto simp: covered_def)

lemma covered_used [simp]: "covered (used_now name m) H = covered m H"
  by (simp only: covered_def fst_used_now pids_used_now processes_simps)

lemma covered_drop:
  assumes "covered m H" "map_of (mg_servers m) name = Some h"
  shows "covered (m\<lparr>mg_servers := without name (mg_servers m)\<rparr>) (insert (sh_pid h) H)"
  using assms without_fields(2) [OF assms(2)] by (auto simp: covered_def without_fields(1))

lemma covered_shutdown_one: "covered m H \<Longrightarrow> covered (shutdown_one name m) H"
  by (auto simp: shutdown_one_def covered_kill covered_drop split: option.split)

lemma covered_fold: "covered m H \<Longrightarrow> covered (fold shutdown_one names m) H"
  by (induction names arbitrary: m) (simp_all add: covered_shutdown_one)

lemma covered_fold_kill:
  "covered m (sh_pid ` snd ` set hs \<union> H) \<Longrightarrow> covered (fold (kill_wait \<circ> sh_pid \<circ> snd) hs m) H"
  by (induction hs arbitrary: m) (auto intro!: covered_kill)

lemma covered_shutdown: "covered m H \<Longrightarrow> covered (shutdown name m) H"
  by (auto simp: shutdown_def covered_shutdown_one covered_def [of m] covered_def [of "_\<lparr>mg_servers := _\<rparr>"]
    intro!: covered_fold_kill split: option.split)

lemma covered_ensure:
  assumes "ensure_step m t (t', m')" "covered m (holds t \<union> H)"
  shows "covered m' (holds t' \<union> H)"
  using assms(1)
proof cases
  case (look name unreadable)
  then show ?thesis using assms(2) by (auto simp: ensure_look_def split: option.splits if_splits)
next
  case (stale name unreadable)
  show ?thesis
  proof (cases "\<exists>h. map_of (mg_servers m) name = Some h \<and> known_dead unreadable m h")
    case True
    then obtain h where h: "map_of (mg_servers m) name = Some h" "known_dead unreadable m h" by blast
    have "covered (m\<lparr>mg_servers := without name (mg_servers m)\<rparr>) (insert (sh_pid h) H)"
      using covered_drop [OF _ h(1)] assms(2) stale by simp
    then have "covered (m\<lparr>mg_servers := without name (mg_servers m)\<rparr>) H"
      using h(2) by (auto simp: covered_def known_dead_def)
    then show ?thesis using stale h by (simp add: ensure_remove_stale_def)
  next
    case False
    then show ?thesis using assms(2) stale by (auto simp: ensure_remove_stale_def split: option.splits if_splits)
  qed
next
  case (spawn name starts)
  then show ?thesis using assms(2)
    by (auto simp: ensure_spawn_def covered_def nth_append less_Suc_eq split: option.splits if_splits)
next
  case (shake name pid h)
  then show ?thesis using assms(2) by (auto simp: ensure_shake_def covered_kill split: option.splits)
next
  case (insert name pid)
  then show ?thesis using assms(2)
    by (auto simp: ensure_insert_def covered_kill split: option.splits)
      (auto simp: covered_def map_of_eq_None_iff)
qed

lemma covered_step:
  assumes "mcp_step (m, ts) (m', ts')" "covered m (\<Union>t \<in> set ts. holds t)"
  shows "covered m' (\<Union>t \<in> set ts'. holds t)"
  using assms(1)
proof cases
  case (task n t)
  let ?H = "\<Union>t \<in> set (take n ts @ drop (Suc n) ts). holds t"
  have u: "(\<Union>t \<in> set ts. holds t) = holds (ts ! n) \<union> ?H"
    by (subst id_take_nth_drop [OF task(2)]) auto
  have "(\<Union>t \<in> set ts'. holds t) = holds t \<union> ?H"
    by (simp add: task upd_conv_take_nth_drop)
  then show ?thesis using covered_ensure [OF task(3)] assms(2) u by metis
next
  case (configured configs)
  then show ?thesis using assms(2) by (simp add: initialize_servers_def covered_def)
next
  case (pinged show_error name a)
  then show ?thesis using assms(2) by (simp add: health_check_def covered_shutdown_one)
next
  case (used name)
  then show ?thesis using assms(2) by (simp add: connect_def split: option.split)
next
  case (exits pid)
  have "n \<in> sh_pid ` snd ` set (mg_servers m) \<or> n \<in> (\<Union>t \<in> set ts. holds t)"
    if "n < length (mg_processes m)" "(mg_processes m)[pid := Exited] ! n = Alive" for n
    using alive_update [OF that] assms(2) by (auto simp: covered_def)
  then show ?thesis using assms(2) exits by (simp add: covered_def)
next
  case (ticks d)
  then show ?thesis using assms(2) by (simp add: covered_def)
qed (use assms(2) in \<open>auto simp: covered_shutdown reap_idle_servers_def covered_fold\<close>)

lemma mcp_reachable_inv: "mcp_reachable idle s \<Longrightarrow> mcp_inv s"
proof (induction rule: mcp_reachable.induct)
  case init
  then show ?case by (simp add: mcp_inv_def new_with_config_def)
next
  case (step s s')
  then show ?case by (cases s; cases s') (auto simp: mcp_inv_covered intro: covered_step)
qed

lemma shutdown_all_servers: "mg_servers (shutdown None m) = []"
proof -
  have "mg_servers (fold (kill_wait \<circ> sh_pid \<circ> snd) hs m) = mg_servers m" for hs :: "(string \<times> server_handle) list" and m :: mcp_manager
    by (induction hs arbitrary: m) simp_all
  then show ?thesis by (simp add: shutdown_def)
qed

text \<open>C16: 
  No server process is lost: whatever starts, deaths, failed handshakes, two tasks that start the same server at once,
  reaping and health checks come together, a process that runs is in the map or belongs to a task that is still
  starting it, and a name has one server at most. So once nobody is starting a server, \<open>shutdown\<close> leaves no process
  running.
\<close>

theorem mcp_no_stray_process:
  assumes "mcp_reachable idle (m, ts)"
  shows "distinct (map fst (mg_servers m))
    \<and> (\<forall>pid. pid < length (mg_processes m) \<and> mg_processes m ! pid = Alive \<longrightarrow> pid \<in> held (m, ts))
    \<and> (list_all (\<lambda>t. holds t = {}) ts \<longrightarrow> Alive \<notin> set (mg_processes (shutdown None m)))"
proof -
  have i: "mcp_inv (m, ts)" by (rule mcp_reachable_inv [OF assms])
  have "Alive \<notin> set (mg_processes (shutdown None m))" if "list_all (\<lambda>t. holds t = {}) ts"
  proof -
    have "covered m {}" using i that by (auto simp: mcp_inv_covered list_all_iff covered_def)
    then have "covered (shutdown None m) {}" by (rule covered_shutdown)
    then show ?thesis by (auto simp: covered_def shutdown_all_servers in_set_conv_nth)
  qed
  with i show ?thesis by (simp add: mcp_inv_def)
qed

definition sample_server :: mcp_server_config where
  "sample_server = \<lparr>ms_name = ''files'', ms_command = ''mcp-files'', ms_args = [], ms_env = None, ms_strategy = None,
     ms_native_tools = []\<rparr>"

text \<open>Two tasks start the same server; the second one finds the map filled and kills its own process.\<close>

definition two_starts :: mcp_manager where
  "two_starts =
     (let m1 = initialize_servers [sample_server] (new_with_config 600);
          m2 = snd (ensure_spawn (\<lambda>c. True) ''files'' m1);
          m3 = snd (ensure_spawn (\<lambda>c. True) ''files'' m2) in
      snd (ensure_insert ''files'' 1 (snd (ensure_insert ''files'' 0 m3))))"

lemma two_starts_eq:
  "two_starts = \<lparr>mg_servers = [(''files'', \<lparr>sh_pid = 0, sh_last_used = 0\<rparr>)], mg_configs = [(''files'', sample_server)],
     mg_idle_timeout = 600, mg_processes = [Alive, Reaped], mg_now = 0\<rparr>"
  by (simp add: two_starts_def initialize_servers_def new_with_config_def put_def sample_server_def ensure_spawn_def
    ensure_insert_def used_now_def kill_wait_def Let_def)

lemma two_starts_reachable: "mcp_reachable 600 (two_starts, [Ended (Inr ()), Ended (Inr ())])"
proof -
  let ?f = "''files''"
  define m0 where "m0 = new_with_config 600"
  define m1 where "m1 = initialize_servers [sample_server] m0"
  define m2 where "m2 = snd (ensure_spawn (\<lambda>c. True) ?f m1)"
  define m3 where "m3 = snd (ensure_spawn (\<lambda>c. True) ?f m2)"
  define m4 where "m4 = snd (ensure_insert ?f 0 m3)"
  note ms = m0_def m1_def m2_def m3_def m4_def new_with_config_def initialize_servers_def put_def sample_server_def
    ensure_spawn_def ensure_insert_def
  have T: "mcp_reachable 600 (m', ts[n := t])"
    if "mcp_reachable 600 (m, ts)" "n < length ts" "ensure_step m (ts ! n) (t, m')" for m m' ts n t
    by (rule mcp_reachable.step [OF that(1) mcp_step.task [OF that(2,3)]])
  have L: "ensure_step m1 (Looking ?f) (Spawning ?f, m1)"
    using ensure_step.look [of m1 ?f "\<lambda>p. False"] by (simp add: ensure_look_def ms)
  have S1: "ensure_step m1 (Spawning ?f) (Shaking ?f 0, m2)"
    using ensure_step.spawn [of m1 ?f "\<lambda>c. True"] by (simp add: ms)
  have S2: "ensure_step m2 (Spawning ?f) (Shaking ?f 1, m3)"
    using ensure_step.spawn [of m2 ?f "\<lambda>c. True"] by (simp add: ms)
  have H: "ensure_step m3 (Shaking ?f p) (Inserting ?f p, m3)" for p
    using ensure_step.shake [of m3 ?f p Shaken] by (simp add: ensure_shake_def)
  have I1: "ensure_step m3 (Inserting ?f 0) (Ended (Inr ()), m4)"
    using ensure_step.insert [of m3 ?f 0] by (simp add: ms)
  have I2: "ensure_step m4 (Inserting ?f 1) (Ended (Inr ()), two_starts)"
    using ensure_step.insert [of m4 ?f 1] unfolding two_starts_def
    by (simp add: ensure_insert_def Let_def m0_def m1_def m2_def m3_def m4_def split: option.splits)
  have "mcp_reachable 600 (m0, [])" unfolding m0_def by (rule mcp_reachable.init)
  then have "mcp_reachable 600 (m1, [])"
    unfolding m1_def by (rule mcp_reachable.step) (rule mcp_step.configured)
  then have "mcp_reachable 600 (m1, [Looking ?f])"
    by (rule mcp_reachable.step) (use mcp_step.ensured [of m1 "[]"] in simp)
  then have "mcp_reachable 600 (m1, [Looking ?f, Looking ?f])"
    by (rule mcp_reachable.step) (use mcp_step.ensured [of m1 "[Looking ?f]"] in simp)
  from T [OF this, of 0] L have "mcp_reachable 600 (m1, [Spawning ?f, Looking ?f])" by fastforce
  from T [OF this, of 1] L have "mcp_reachable 600 (m1, [Spawning ?f, Spawning ?f])" by fastforce
  from T [OF this, of 0] S1 have "mcp_reachable 600 (m2, [Shaking ?f 0, Spawning ?f])" by fastforce
  from T [OF this, of 1] S2 have "mcp_reachable 600 (m3, [Shaking ?f 0, Shaking ?f 1])" by fastforce
  from T [OF this, of 0] H have "mcp_reachable 600 (m3, [Inserting ?f 0, Shaking ?f 1])" by fastforce
  from T [OF this, of 1] H have "mcp_reachable 600 (m3, [Inserting ?f 0, Inserting ?f 1])" by fastforce
  from T [OF this, of 0] I1 have "mcp_reachable 600 (m4, [Ended (Inr ()), Inserting ?f 1])" by fastforce
  from T [OF this, of 1] I2 show ?thesis by fastforce
qed

theorem mcp_no_stray_process_witness:
  "mg_processes two_starts = [Alive, Reaped] \<and> Alive \<notin> set (mg_processes (shutdown None two_starts))"
  using mcp_no_stray_process [OF two_starts_reachable] by (simp add: two_starts_eq)

end
