(* ===== verification/Sandbox_Runner.thy ===== *)
theory Sandbox_Runner
  imports Mcp_Manager
begin

text \<open>
  Programs run in a sandbox: the profile for macOS (\<^verbatim>\<open>src/src/security/apple_sandbox.rs\<close>), the command lines for
  each platform (\<^verbatim>\<open>src/src/agent/tools/runner.rs\<close>) and the tools of the configuration that are programs
  (\<^verbatim>\<open>src/src/agent/tools/external.rs\<close>).

  An \<open>invocation\<close> is what \<open>Command\<close> collects before it is run: a directory of \<open>None\<close> is that of the daemon, and
  the variables are set over those of the daemon. What runs is the host's; the texts of a process are those after
  \<open>from_utf8_lossy\<close>, and its status is \<open>None\<close> when a signal ended it. A profile is read as S-expressions
  by \<open>read_sexps\<close>, and a command line of bubblewrap by \<open>bwrap_split\<close>, to say what they permit.
\<close>

subsection \<open>The profile for macOS\<close>

definition trim_end_char :: "char \<Rightarrow> string \<Rightarrow> string" where
  "trim_end_char c s = rev (dropWhile (\<lambda>x. x = c) (rev s))"

fun trim_end_rev2 :: "char \<Rightarrow> string \<Rightarrow> string" where
  "trim_end_rev2 c (a # b # r) = (if a = c \<and> b = c then trim_end_rev2 c r else a # b # r)"
| "trim_end_rev2 c r = r"

text \<open>\<open>trim_end_matches("**")\<close>: two stars at a time.\<close>

definition trim_end_stars :: "string \<Rightarrow> string" where
  "trim_end_stars s = rev (trim_end_rev2 (CHR ''*'') (rev s))"

abbreviation qt :: string where "qt \<equiv> [CHR 0x22]"

definition allow_rule :: "string \<Rightarrow> string \<Rightarrow> string \<Rightarrow> string" where
  "allow_rule rule_type directive p = ''(allow '' @ rule_type @ '' ('' @ directive @ '' '' @ qt @ p @ qt @ ''))''"

definition path_rule :: "(string \<Rightarrow> string) \<Rightarrow> string \<Rightarrow> string \<Rightarrow> string" where
  "path_rule tild rule_type p =
     (let (directive, clean_path) =
        if suffix ''**'' p then (''subpath'', trim_end_char (CHR ''/'') (trim_end_stars p))
        else if suffix ''*'' p then (''subpath'', trim_end_char (CHR ''/'') (trim_end_char (CHR ''*'') p))
        else (''literal'', p)
      in allow_rule rule_type directive (tild clean_path))"

definition base_rules :: "string list" where
  "base_rules = [''(version 1)'', ''(deny default)'', ''(debug deny)'', ''(allow process-exec*)'', ''(allow sysctl-read)'',
     ''(allow signal)'', allow_rule ''file-read*'' ''subpath'' ''/usr/lib'',
     allow_rule ''file-read*'' ''subpath'' ''/System/Library'',
     allow_rule ''file-read*'' ''subpath'' ''/private/var/db/timezone'']"

definition network_rules :: "sandbox_policy \<Rightarrow> string list" where
  "network_rules pol = (if allow_network pol then [''(allow network*)'', ''(allow system-socket)''] else [])"

definition profile_rules :: "(string \<Rightarrow> string) \<Rightarrow> sandbox_policy \<Rightarrow> string \<Rightarrow> string \<Rightarrow> string list" where
  "profile_rules tild pol executable_path script_path =
     base_rules @ network_rules pol
     @ [allow_rule ''file-read*'' ''literal'' executable_path, allow_rule ''file-read*'' ''literal'' script_path]
     @ map (path_rule tild ''file-read*'') (allow_read pol)
     @ map (path_rule tild ''file-write*'') (allow_write pol)"

definition compile_profile :: "(string \<Rightarrow> string) \<Rightarrow> sandbox_policy \<Rightarrow> string \<Rightarrow> string \<Rightarrow> string" where
  "compile_profile tild pol executable_path script_path =
     concat (map (\<lambda>l. l @ nl) (profile_rules tild pol executable_path script_path))"

subsection \<open>Running a command\<close>

record invocation =
  iv_program :: string
  iv_argv :: "string list"
  iv_current_dir :: "path option"
  iv_vars :: "(string \<times> string) list"

record process_output =
  po_status :: "int option"
  po_stdout :: string
  po_stderr :: string

record 'w runner_host =
  rh_tilde :: "string \<Rightarrow> string"
  rh_exists :: "path \<Rightarrow> 'w \<Rightarrow> bool"
  rh_output :: "invocation \<Rightarrow> 'w \<Rightarrow> (anyhow_error, process_output) res \<times> 'w"
  rh_temp_file :: "'w \<Rightarrow> (anyhow_error, path) res \<times> 'w"
  rh_write :: "path \<Rightarrow> string \<Rightarrow> 'w \<Rightarrow> (anyhow_error, unit) res \<times> 'w"
  rh_remove :: "path \<Rightarrow> 'w \<Rightarrow> 'w"

datatype platform = MacOs | Linux | OtherPlatform

definition run_context :: "string \<Rightarrow> (anyhow_error, 'a) res \<times> 'w \<Rightarrow> (anyhow_error, 'a) res \<times> 'w" where
  "run_context msg = map_prod (map_sum (\<lambda>_. Msg msg) id) id"

definition direct_call :: "string \<Rightarrow> string list \<Rightarrow> path \<Rightarrow> (string \<times> string) list option \<Rightarrow> invocation" where
  "direct_call command args cwd env =
     \<lparr>iv_program = command, iv_argv = args, iv_current_dir = Some cwd, iv_vars = unwrap_or env []\<rparr>"

definition run_direct ::
  "'w runner_host \<Rightarrow> string \<Rightarrow> string list \<Rightarrow> path \<Rightarrow> (string \<times> string) list option \<Rightarrow> 'w
   \<Rightarrow> (anyhow_error, process_output) res \<times> 'w" where
  "run_direct h command args cwd env w =
     run_context ''Failed to run command'' (rh_output h (direct_call command args cwd env) w)"

definition macos_call :: "path \<Rightarrow> string \<Rightarrow> string list \<Rightarrow> path \<Rightarrow> (string \<times> string) list option \<Rightarrow> invocation" where
  "macos_call profile_path command args cwd env =
     \<lparr>iv_program = ''sandbox-exec'', iv_argv = [''-f'', display profile_path, command] @ args,
      iv_current_dir = Some cwd, iv_vars = unwrap_or env []\<rparr>"

text \<open>The file of the profile is deleted when it goes out of scope, on the paths of errors too.\<close>

definition run_with_profile ::
  "'w runner_host \<Rightarrow> string \<Rightarrow> string \<Rightarrow> string list \<Rightarrow> path \<Rightarrow> (string \<times> string) list option \<Rightarrow> 'w
   \<Rightarrow> (anyhow_error, process_output) res \<times> 'w" where
  "run_with_profile h profile_content command args cwd env w =
     (case rh_temp_file h w of
        (Inl e, w1) \<Rightarrow> (Inl e, w1)
      | (Inr f, w1) \<Rightarrow>
          (case rh_write h f profile_content w1 of
             (Inl e, w2) \<Rightarrow> (Inl e, rh_remove h f w2)
           | (Inr _, w2) \<Rightarrow>
               apsnd (rh_remove h f) (run_context ''Failed to run sandboxed command on macOS''
                 (rh_output h (macos_call f command args cwd env) w2))))"

definition run_macos ::
  "'w runner_host \<Rightarrow> string \<Rightarrow> string list \<Rightarrow> path \<Rightarrow> (string \<times> string) list option \<Rightarrow> sandbox_policy \<Rightarrow> 'w
   \<Rightarrow> (anyhow_error, process_output) res \<times> 'w" where
  "run_macos h command args cwd env pol w =
     (let script_path = (if args = [] then ''unknown'' else hd args) in
      run_with_profile h (compile_profile (rh_tilde h) pol command script_path) command args cwd env w)"

definition has_bwrap :: "'w runner_host \<Rightarrow> 'w \<Rightarrow> bool \<times> 'w" where
  "has_bwrap h w =
     apfst is_ok (rh_output h \<lparr>iv_program = ''bwrap'', iv_argv = [''--version''], iv_current_dir = None, iv_vars = []\<rparr> w)"

definition bwrap_base :: "'w runner_host \<Rightarrow> 'w \<Rightarrow> string list" where
  "bwrap_base h w =
     [''--unshare-all'', ''--die-with-parent'', ''--ro-bind'', ''/usr'', ''/usr'', ''--ro-bind'', ''/bin'', ''/bin'',
      ''--ro-bind'', ''/lib'', ''/lib'']
     @ (if rh_exists h (components ''/lib64'') w then [''--ro-bind'', ''/lib64'', ''/lib64''] else [])
     @ [''--ro-bind'', ''/etc/alternatives'', ''/etc/alternatives'', ''--ro-bind'', ''/etc/ssl'', ''/etc/ssl'',
        ''--ro-bind'', ''/etc/resolv.conf'', ''/etc/resolv.conf'', ''--tmpfs'', ''/tmp'', ''--dev'', ''/dev'',
        ''--proc'', ''/proc'']"

definition bind_words :: "'w runner_host \<Rightarrow> 'w \<Rightarrow> string \<Rightarrow> string list \<Rightarrow> string list" where
  "bind_words h w flag ps =
     concat (map (\<lambda>p. let expanded = rh_tilde h p in
       if rh_exists h (components expanded) w then [flag, expanded, expanded] else []) ps)"

definition bwrap_options :: "'w runner_host \<Rightarrow> path \<Rightarrow> sandbox_policy \<Rightarrow> 'w \<Rightarrow> string list" where
  "bwrap_options h cwd pol w =
     bwrap_base h w @ bind_words h w ''--ro-bind'' (allow_read pol) @ bind_words h w ''--bind'' (allow_write pol)
     @ (if rh_exists h cwd w then [''--bind'', display cwd, display cwd] else [])
     @ (if allow_network pol then [''--share-net''] else [])"

definition setenv_words :: "(string \<times> string) list option \<Rightarrow> string list" where
  "setenv_words env = concat (map (\<lambda>(k, v). [''--setenv'', k, v]) (unwrap_or env []))"

definition bwrap_call ::
  "'w runner_host \<Rightarrow> string \<Rightarrow> string list \<Rightarrow> path \<Rightarrow> (string \<times> string) list option \<Rightarrow> sandbox_policy \<Rightarrow> 'w
   \<Rightarrow> invocation" where
  "bwrap_call h command args cwd env pol w =
     \<lparr>iv_program = ''bwrap'', iv_argv = bwrap_options h cwd pol w @ command # args @ setenv_words env,
      iv_current_dir = None, iv_vars = []\<rparr>"

definition unshare_call ::
  "string \<Rightarrow> string list \<Rightarrow> path \<Rightarrow> (string \<times> string) list option \<Rightarrow> sandbox_policy \<Rightarrow> invocation" where
  "unshare_call command args cwd env pol =
     \<lparr>iv_program = ''unshare'', iv_argv = [''-r'', ''-m''] @ (if allow_network pol then [] else [''-n'']) @ command # args,
      iv_current_dir = Some cwd, iv_vars = unwrap_or env []\<rparr>"

definition run_linux ::
  "'w runner_host \<Rightarrow> string \<Rightarrow> string list \<Rightarrow> path \<Rightarrow> (string \<times> string) list option \<Rightarrow> sandbox_policy \<Rightarrow> 'w
   \<Rightarrow> (anyhow_error, process_output) res \<times> 'w" where
  "run_linux h command args cwd env pol w =
     (case has_bwrap h w of
        (True, w1) \<Rightarrow> run_context ''Failed to run bwrap command'' (rh_output h (bwrap_call h command args cwd env pol w1) w1)
      | (False, w1) \<Rightarrow> run_context ''Failed to run unshare command'' (rh_output h (unshare_call command args cwd env pol) w1))"

definition run_sandboxed_command ::
  "platform \<Rightarrow> 'w runner_host \<Rightarrow> string \<Rightarrow> string list \<Rightarrow> path \<Rightarrow> (string \<times> string) list option \<Rightarrow> sandbox_policy
   \<Rightarrow> 'w \<Rightarrow> (anyhow_error, process_output) res \<times> 'w" where
  "run_sandboxed_command pf h command args cwd env pol w =
     (if pf = OtherPlatform \<or> \<not> enable_os_sandbox pol then run_direct h command args cwd env w
      else if pf = MacOs then run_macos h command args cwd env pol w
      else run_linux h command args cwd env pol w)"

subsection \<open>Tools that are programs\<close>

record external_tool =
  et_name :: string
  et_description :: string
  et_command :: string
  et_args :: "string list"
  et_working_dir :: "path option"
  et_sandbox :: bool
  et_policy :: "sandbox_policy option"
  et_path_args :: "string list"
  et_workspace :: "path option"
  et_strategy :: "workdir_strategy option"

text \<open>How the registry makes a tool of an entry of the configuration.\<close>

definition external_tool_of :: "config \<Rightarrow> path \<Rightarrow> path \<Rightarrow> string \<Rightarrow> external_tool_config \<Rightarrow> external_tool" where
  "external_tool_of c workspace project_dir name conf =
     \<lparr>et_name = name, et_description = xt_description conf, et_command = xt_command conf, et_args = xt_args conf,
      et_working_dir = Some project_dir, et_sandbox = xt_sandbox conf, et_policy = Some (cf_sandbox c),
      et_path_args = xt_path_args conf, et_workspace = Some workspace,
      et_strategy = Some (wd_strategy (cf_workdir c))\<rparr>"

definition args_property :: json where
  "args_property = JObj [''type'' \<mapsto> JStr ''array'', ''items'' \<mapsto> JObj [''type'' \<mapsto> JStr ''string''],
     ''description'' \<mapsto> JStr ''Additional arguments to append to the command'']"

definition path_property :: "string \<Rightarrow> json" where
  "path_property arg_name = JObj [''type'' \<mapsto> JStr ''string'', ''description'' \<mapsto> JStr (''Path argument: '' @ arg_name)]"

definition external_schema :: "external_tool \<Rightarrow> tool_schema" where
  "external_schema t =
     \<lparr>ts_name = et_name t, ts_description = et_description t,
      ts_parameters = JObj [''type'' \<mapsto> JStr ''object'',
        ''properties'' \<mapsto> JObj (fold (\<lambda>a m. m(a \<mapsto> path_property a)) (et_path_args t) [''args'' \<mapsto> args_property])]\<rparr>"

definition plain_args :: "json \<Rightarrow> string list" where
  "plain_args v = (case Option.bind (jget v ''args'') as_array of
     Some xs \<Rightarrow> List.map_filter as_str xs | None \<Rightarrow> [])"

definition external_path :: "(string \<Rightarrow> string) \<Rightarrow> external_tool \<Rightarrow> string \<Rightarrow> path" where
  "external_path tild t s =
     (case (et_workspace t, et_strategy t, et_working_dir t) of
        (Some ws, Some strat, Some pd) \<Rightarrow> resolve_path tild s ws pd strat
      | _ \<Rightarrow> components s)"

definition external_args :: "(string \<Rightarrow> string) \<Rightarrow> external_tool \<Rightarrow> json \<Rightarrow> string list" where
  "external_args tild t v =
     plain_args v @ map (\<lambda>s. display (external_path tild t s))
       (List.map_filter (\<lambda>a. Option.bind (jget v a) as_str) (et_path_args t))"

definition external_output :: "(int option \<Rightarrow> string) \<Rightarrow> process_output \<Rightarrow> string" where
  "external_output show_status out =
     (if po_status out = Some 0 then po_stdout out
      else ''Command failed ('' @ show_status (po_status out) @ ''):'' @ nl @ ''STDOUT: '' @ po_stdout out @ nl
        @ ''STDERR: '' @ po_stderr out)"

definition run_sandboxed ::
  "platform \<Rightarrow> 'w runner_host \<Rightarrow> (int option \<Rightarrow> string) \<Rightarrow> external_tool \<Rightarrow> string list \<Rightarrow> 'w
   \<Rightarrow> (anyhow_error, string) res \<times> 'w" where
  "run_sandboxed pf h show_status t extra_args w =
     (case et_policy t of
        None \<Rightarrow> (Inl (Msg ''Sandbox policy required for sandboxed execution''), w)
      | Some pol \<Rightarrow>
          apfst (map_sum id (external_output show_status))
            (run_sandboxed_command pf h (et_command t) (et_args t @ extra_args) (unwrap_or (et_working_dir t) [CurDir])
               None pol w))"

definition run_normal ::
  "'w runner_host \<Rightarrow> (int option \<Rightarrow> string) \<Rightarrow> external_tool \<Rightarrow> string list \<Rightarrow> 'w
   \<Rightarrow> (anyhow_error, string) res \<times> 'w" where
  "run_normal h show_status t extra_args w =
     apfst (map_sum id (external_output show_status))
       (run_context ''Failed to execute external command''
          (rh_output h \<lparr>iv_program = et_command t, iv_argv = et_args t @ extra_args, iv_current_dir = et_working_dir t,
             iv_vars = []\<rparr> w))"

definition external_execute ::
  "platform \<Rightarrow> 'w runner_host \<Rightarrow> (int option \<Rightarrow> string) \<Rightarrow> (string \<Rightarrow> (anyhow_error, json) res) \<Rightarrow> external_tool \<Rightarrow> string
   \<Rightarrow> 'w \<Rightarrow> (anyhow_error, string) res \<times> 'w" where
  "external_execute pf h show_status parse t arguments w =
     (case parse arguments of
        Inl e \<Rightarrow> (Inl e, w)
      | Inr v \<Rightarrow>
          let extra_args = external_args (rh_tilde h) t v in
          if et_sandbox t then run_sandboxed pf h show_status t extra_args w
          else run_normal h show_status t extra_args w)"

subsection \<open>What a profile grants\<close>

text \<open>A profile is a text of S-expressions, as of Scheme: lists in parentheses, words, texts in quotes with
  backslashes before the characters taken as they are, and comments from a semicolon to the end of the line.\<close>

datatype sexp = Sym string | Str string | Lst "sexp list"

datatype read_mode = Outside | InWord string | InStr string | Escaped string | InComment

text \<open>The expressions of the list being read, the last one first, and those of the lists around it.\<close>

type_synonym reader = "read_mode \<times> sexp list \<times> sexp list list"

definition delimiter :: "char \<Rightarrow> bool" where
  "delimiter c \<longleftrightarrow> c \<in> {CHR '' '', newline, CHR 0x09, CHR 0x0D, CHR ''('', CHR '')'', CHR 0x22, CHR '';''}"

fun read_outside :: "char \<Rightarrow> sexp list \<Rightarrow> sexp list list \<Rightarrow> reader option" where
  "read_outside c cur st =
     (if c = CHR ''('' then Some (Outside, [], cur # st)
      else if c = CHR '')'' then (case st of [] \<Rightarrow> None | outer # st' \<Rightarrow> Some (Outside, Lst (rev cur) # outer, st'))
      else if c = CHR 0x22 then Some (InStr [], cur, st)
      else if c = CHR '';'' then Some (InComment, cur, st)
      else if delimiter c then Some (Outside, cur, st)
      else Some (InWord [c], cur, st))"

fun read_char :: "char \<Rightarrow> reader \<Rightarrow> reader option" where
  "read_char c (Outside, cur, st) = read_outside c cur st"
| "read_char c (InWord u, cur, st) =
     (if delimiter c then read_outside c (Sym u # cur) st else Some (InWord (u @ [c]), cur, st))"
| "read_char c (InStr u, cur, st) =
     (if c = CHR 0x22 then Some (Outside, Str u # cur, st)
      else if c = CHR 0x5C then Some (Escaped u, cur, st)
      else Some (InStr (u @ [c]), cur, st))"
| "read_char c (Escaped u, cur, st) = Some (InStr (u @ [c]), cur, st)"
| "read_char c (InComment, cur, st) = Some (if c = newline then Outside else InComment, cur, st)"

fun read_chars :: "string \<Rightarrow> reader \<Rightarrow> reader option" where
  "read_chars [] r = Some r"
| "read_chars (c # cs) r = Option.bind (read_char c r) (read_chars cs)"

definition read_sexps :: "string \<Rightarrow> sexp list option" where
  "read_sexps s =
     (case read_chars (s @ nl) (Outside, [], []) of
        Some (Outside, cur, []) \<Rightarrow> Some (rev cur)
      | Some (InComment, cur, []) \<Rightarrow> Some (rev cur)
      | _ \<Rightarrow> None)"

text \<open>Everything is denied but what a rule allows: the operation of the rule, those it stands for with a star,
  or all of them, at the places of its filters, or everywhere when it has none.\<close>

definition op_covers :: "string \<Rightarrow> string \<Rightarrow> bool" where
  "op_covers pat op \<longleftrightarrow> pat = op \<or> pat = ''default'' \<or> suffix ''*'' pat \<and> prefix (butlast pat) op"

definition at_or_below :: "string \<Rightarrow> string \<Rightarrow> bool" where
  "at_or_below d target \<longleftrightarrow> target = d \<or> prefix (d @ ''/'') target"

fun in_place :: "string \<Rightarrow> sexp \<Rightarrow> bool" where
  "in_place target (Lst [Sym k, Str p]) \<longleftrightarrow>
     k = ''literal'' \<and> target = p \<or> k = ''subpath'' \<and> at_or_below p target"
| "in_place target _ \<longleftrightarrow> False"

fun grants :: "string \<Rightarrow> string \<Rightarrow> sexp \<Rightarrow> bool" where
  "grants op target (Lst (Sym a # Sym pat # fs)) \<longleftrightarrow>
     a = ''allow'' \<and> op_covers pat op \<and> (fs = [] \<or> list_ex (in_place target) fs)"
| "grants op target _ \<longleftrightarrow> False"

definition granted :: "sexp list \<Rightarrow> string \<Rightarrow> string \<Rightarrow> bool" where
  "granted rules op target \<longleftrightarrow> list_ex (grants op target) rules"

definition denials :: "sexp list \<Rightarrow> sexp list" where
  "denials rules = filter (\<lambda>r. case r of Lst (Sym a # _) \<Rightarrow> a = ''deny'' | _ \<Rightarrow> False) rules"

text \<open>The entries of a policy: a path by itself, or a directory with all below it.\<close>

definition tree_entry :: "string \<Rightarrow> string \<Rightarrow> bool" where
  "tree_entry p d \<longleftrightarrow>
     (p = d @ ''/*'' \<or> p = d @ ''/**'') \<and> d \<noteq> [] \<and> last d \<noteq> CHR ''/'' \<and> last d \<noteq> CHR ''*''"

definition entry_covers :: "(string \<Rightarrow> string) \<Rightarrow> string \<Rightarrow> string \<Rightarrow> bool" where
  "entry_covers tild target p \<longleftrightarrow>
     \<not> suffix ''*'' p \<and> target = tild p \<or> (\<exists>d. tree_entry p d \<and> at_or_below (tild d) target)"

definition plain_text :: "string \<Rightarrow> bool" where
  "plain_text s \<longleftrightarrow> list_all (\<lambda>c. c \<noteq> CHR 0x22 \<and> c \<noteq> CHR 0x5C) s"

definition plain_entry :: "(string \<Rightarrow> string) \<Rightarrow> string \<Rightarrow> bool" where
  "plain_entry tild p \<longleftrightarrow>
     \<not> suffix ''*'' p \<and> plain_text (tild p) \<or> (\<exists>d. tree_entry p d \<and> plain_text (tild d))"

text \<open>Reading what the profile is made of.\<close>

lemma read_chars_append: "read_chars (s @ t) r = Option.bind (read_chars s r) (read_chars t)"
  by (induction s arbitrary: r) (auto split: Option.bind_splits)

lemma read_plain_text:
  "plain_text p \<Longrightarrow> read_chars (p @ t) (InStr u, cur, st) = read_chars t (InStr (u @ p), cur, st)"
  by (induction p arbitrary: u) (auto simp: plain_text_def)

definition allow_sexp :: "string \<Rightarrow> string \<Rightarrow> string \<Rightarrow> sexp" where
  "allow_sexp rule_type directive p = Lst [Sym ''allow'', Sym rule_type, Lst [Sym directive, Str p]]"

definition reads_as :: "string \<Rightarrow> sexp list \<Rightarrow> bool" where
  "reads_as l xs \<longleftrightarrow> (\<forall>cur. read_chars l (Outside, cur, []) = Some (Outside, rev xs @ cur, []))"

lemma reads_as_append: "reads_as l xs \<Longrightarrow> reads_as m ys \<Longrightarrow> reads_as (l @ m) (xs @ ys)"
  by (simp add: reads_as_def read_chars_append)

lemma reads_as_lines:
  "list_all2 (\<lambda>l x. reads_as (l @ nl) [x]) ls xs \<Longrightarrow> reads_as (concat (map (\<lambda>l. l @ nl) ls)) xs"
proof (induction rule: list_all2_induct)
  case Nil
  show ?case by (simp add: reads_as_def)
next
  case (Cons l ls x xs)
  then show ?case using reads_as_append [of "l @ nl" "[x]"] by simp
qed

lemma reads_as_profile: "reads_as s xs \<Longrightarrow> read_sexps s = Some xs"
  by (simp add: reads_as_def read_sexps_def read_chars_append newline_def delimiter_def)

lemma delimiter_simps:
  "delimiter (CHR '' '')" "delimiter newline" "delimiter (CHR ''('')" "delimiter (CHR '')'')" "delimiter (CHR 0x22)"
  by (simp_all add: delimiter_def)

lemma reads_as_allow:
  assumes "plain_text p" and "rule_type = ''file-read*'' \<or> rule_type = ''file-write*''"
    and "directive = ''literal'' \<or> directive = ''subpath''"
  shows "reads_as (allow_rule rule_type directive p @ nl) [allow_sexp rule_type directive p]"
  using assms(2,3)
  by (auto simp: reads_as_def allow_rule_def allow_sexp_def read_plain_text [OF assms(1)] delimiter_def newline_def)

definition base_sexps :: "sexp list" where
  "base_sexps = [Lst [Sym ''version'', Sym ''1''], Lst [Sym ''deny'', Sym ''default''], Lst [Sym ''debug'', Sym ''deny''],
     Lst [Sym ''allow'', Sym ''process-exec*''], Lst [Sym ''allow'', Sym ''sysctl-read''],
     Lst [Sym ''allow'', Sym ''signal''], allow_sexp ''file-read*'' ''subpath'' ''/usr/lib'',
     allow_sexp ''file-read*'' ''subpath'' ''/System/Library'',
     allow_sexp ''file-read*'' ''subpath'' ''/private/var/db/timezone'']"

definition network_sexps :: "sandbox_policy \<Rightarrow> sexp list" where
  "network_sexps pol =
     (if allow_network pol then [Lst [Sym ''allow'', Sym ''network*''], Lst [Sym ''allow'', Sym ''system-socket'']] else [])"

definition tree_dir :: "string \<Rightarrow> string" where
  "tree_dir p = take (length p - (if suffix ''/**'' p then 3 else 2)) p"

definition entry_sexp :: "(string \<Rightarrow> string) \<Rightarrow> string \<Rightarrow> string \<Rightarrow> sexp" where
  "entry_sexp tild rule_type p =
     (if suffix ''*'' p then allow_sexp rule_type ''subpath'' (tild (tree_dir p))
      else allow_sexp rule_type ''literal'' (tild p))"

lemma tree_entry_dir: "tree_entry p d \<Longrightarrow> tree_dir p = d \<and> suffix ''*'' p"
  by (auto simp: tree_entry_def tree_dir_def suffix_def append_eq_append_conv2 Cons_eq_append_conv append_eq_Cons_conv)

lemma tree_entry_rule:
  assumes "tree_entry p d"
  shows "path_rule tild rule_type p = allow_rule rule_type ''subpath'' (tild d)"
proof -
  obtain e c where d: "d = e @ [c]" "c \<noteq> CHR ''/''" "c \<noteq> CHR ''*''"
    using assms by (cases d rule: rev_cases) (auto simp: tree_entry_def)
  consider "p = d @ ''/*''" | "p = d @ ''/**''" using assms by (auto simp: tree_entry_def)
  then show ?thesis
  proof cases
    case 1
    with d have "\<not> suffix ''**'' p" "suffix ''*'' p"
      by (auto simp: suffix_def append_eq_append_conv2 Cons_eq_append_conv append_eq_Cons_conv)
    with 1 d show ?thesis by (simp add: path_rule_def trim_end_char_def)
  next
    case 2
    then have "suffix ''**'' p" by (simp add: suffix_def)
    with 2 d show ?thesis by (simp add: path_rule_def trim_end_char_def trim_end_stars_def)
  qed
qed

lemma reads_as_entry:
  assumes "plain_entry tild p" and "rule_type = ''file-read*'' \<or> rule_type = ''file-write*''"
  shows "reads_as (path_rule tild rule_type p @ nl) [entry_sexp tild rule_type p]"
  using assms(1) unfolding plain_entry_def
proof (elim disjE conjE exE)
  assume "\<not> suffix ''*'' p" "plain_text (tild p)"
  moreover from this have "\<not> suffix ''**'' p" by (auto simp: suffix_def)
  ultimately show ?thesis
    using reads_as_allow [OF _ assms(2)] by (simp add: path_rule_def entry_sexp_def)
next
  fix d
  assume "tree_entry p d" "plain_text (tild d)"
  then show ?thesis
    using reads_as_allow [OF _ assms(2)] by (simp add: tree_entry_rule tree_entry_dir entry_sexp_def)
qed

lemma grants_allow:
  "grants op target (allow_sexp rule_type directive p) \<longleftrightarrow> op_covers rule_type op
     \<and> (directive = ''literal'' \<and> target = p \<or> directive = ''subpath'' \<and> at_or_below p target)"
  by (simp add: allow_sexp_def)

lemma grants_entry:
  assumes "plain_entry tild p"
  shows "grants op target (entry_sexp tild rule_type p) \<longleftrightarrow> op_covers rule_type op \<and> entry_covers tild target p"
  using assms tree_entry_dir [of p]
  by (auto simp: plain_entry_def entry_sexp_def grants_allow entry_covers_def)

text \<open>The rules of a profile whose script is given by other rules than its own one.\<close>

definition profile_sexps :: "(string \<Rightarrow> string) \<Rightarrow> sandbox_policy \<Rightarrow> string \<Rightarrow> sexp list \<Rightarrow> sexp list" where
  "profile_sexps tild pol exe script_rules =
     base_sexps @ network_sexps pol @ [allow_sexp ''file-read*'' ''literal'' exe] @ script_rules
     @ map (entry_sexp tild ''file-read*'') (allow_read pol) @ map (entry_sexp tild ''file-write*'') (allow_write pol)"

lemma reads_as_base: "reads_as (concat (map (\<lambda>l. l @ nl) base_rules)) base_sexps"
  by (rule reads_as_lines)
     (simp add: base_rules_def base_sexps_def reads_as_allow plain_text_def,
      simp add: reads_as_def delimiter_def newline_def)

lemma reads_as_network: "reads_as (concat (map (\<lambda>l. l @ nl) (network_rules pol))) (network_sexps pol)"
  by (simp add: network_rules_def network_sexps_def reads_as_def delimiter_def newline_def)

lemma reads_as_entries:
  assumes "list_all (plain_entry tild) ps" and "rule_type = ''file-read*'' \<or> rule_type = ''file-write*''"
  shows "reads_as (concat (map (\<lambda>l. l @ nl) (map (path_rule tild rule_type) ps))) (map (entry_sexp tild rule_type) ps)"
  using assms by (intro reads_as_lines) (simp add: list_all2_conv_all_nth list_all_length reads_as_entry)

lemma reads_as_compiled:
  assumes "plain_text exe" and "list_all (plain_entry tild) (allow_read pol @ allow_write pol)"
    and "reads_as (allow_rule ''file-read*'' ''literal'' script @ nl) script_rules"
  shows "read_sexps (compile_profile tild pol exe script) = Some (profile_sexps tild pol exe script_rules)"
proof -
  have "reads_as (concat (map (\<lambda>l. l @ nl) base_rules) @ concat (map (\<lambda>l. l @ nl) (network_rules pol))
      @ (allow_rule ''file-read*'' ''literal'' exe @ nl) @ (allow_rule ''file-read*'' ''literal'' script @ nl)
      @ concat (map (\<lambda>l. l @ nl) (map (path_rule tild ''file-read*'') (allow_read pol)))
      @ concat (map (\<lambda>l. l @ nl) (map (path_rule tild ''file-write*'') (allow_write pol))))
    (profile_sexps tild pol exe script_rules)"
    unfolding profile_sexps_def using assms
    by (intro reads_as_append reads_as_base reads_as_network reads_as_allow reads_as_entries) auto
  then show ?thesis
    by (intro reads_as_profile) (simp add: compile_profile_def profile_rules_def)
qed

lemma granted_profile:
  assumes "list_all (plain_entry tild) (allow_read pol @ allow_write pol)"
  shows "prefix ''file-write'' op \<Longrightarrow> granted (profile_sexps tild pol exe script_rules) op target \<longleftrightarrow>
      list_ex (grants op target) script_rules \<or> list_ex (entry_covers tild target) (allow_write pol)"
    and "prefix ''network'' op \<Longrightarrow> granted (profile_sexps tild pol exe script_rules) op target \<longleftrightarrow>
      list_ex (grants op target) script_rules \<or> allow_network pol"
    and "prefix ''file-read'' op \<Longrightarrow> granted (profile_sexps tild pol exe script_rules) op target \<longleftrightarrow>
      list_ex (grants op target) script_rules \<or> target = exe
      \<or> list_ex (\<lambda>d. at_or_below d target) [''/usr/lib'', ''/System/Library'', ''/private/var/db/timezone'']
      \<or> list_ex (entry_covers tild target) (allow_read pol)"
proof -
  have e: "list_ex (grants op target) (map (entry_sexp tild ty) ps) \<longleftrightarrow>
      op_covers ty op \<and> list_ex (entry_covers tild target) ps"
    if "set ps \<subseteq> set (allow_read pol @ allow_write pol)" for ty ps
    using that assms by (auto simp: list_ex_iff list_all_iff grants_entry subset_iff)
  note * = granted_def profile_sexps_def base_sexps_def network_sexps_def grants_allow e
  show "prefix ''file-write'' op \<Longrightarrow> granted (profile_sexps tild pol exe script_rules) op target \<longleftrightarrow>
      list_ex (grants op target) script_rules \<or> list_ex (entry_covers tild target) (allow_write pol)"
    by (auto simp: * op_covers_def suffix_def prefix_def)
  show "prefix ''network'' op \<Longrightarrow> granted (profile_sexps tild pol exe script_rules) op target \<longleftrightarrow>
      list_ex (grants op target) script_rules \<or> allow_network pol"
    by (auto simp: * op_covers_def suffix_def prefix_def)
  show "prefix ''file-read'' op \<Longrightarrow> granted (profile_sexps tild pol exe script_rules) op target \<longleftrightarrow>
      list_ex (grants op target) script_rules \<or> target = exe
      \<or> list_ex (\<lambda>d. at_or_below d target) [''/usr/lib'', ''/System/Library'', ''/private/var/db/timezone'']
      \<or> list_ex (entry_covers tild target) (allow_read pol)"
    by (auto simp: * op_covers_def suffix_def prefix_def)
qed

text \<open>An argument that ends the rule of the script, adds one and opens the rule again.\<close>

definition smuggle :: "string \<Rightarrow> string" where
  "smuggle s = s @ qt @ ''))'' @ nl @ ''(allow file-write*)'' @ nl @ ''(allow file-read* (literal '' @ qt @ s"

definition smuggled_sexps :: "string \<Rightarrow> sexp list" where
  "smuggled_sexps s = [allow_sexp ''file-read*'' ''literal'' s, Lst [Sym ''allow'', Sym ''file-write*''],
     allow_sexp ''file-read*'' ''literal'' s]"

lemma reads_as_smuggled:
  assumes "plain_text s"
  shows "reads_as (allow_rule ''file-read*'' ''literal'' (smuggle s) @ nl) (smuggled_sexps s)"
  by (simp add: reads_as_def allow_rule_def smuggle_def smuggled_sexps_def allow_sexp_def
      read_plain_text [OF assms] delimiter_def newline_def)

subsection \<open>What bubblewrap makes of the command line\<close>

text \<open>Options with their numbers of words first, then the command and its words.\<close>

function bwrap_split :: "(string \<Rightarrow> nat option) \<Rightarrow> string list \<Rightarrow> (string \<times> string list) list \<times> string list" where
  "bwrap_split arity [] = ([], [])"
| "bwrap_split arity (x # xs) =
     (case arity x of
        None \<Rightarrow> ([], x # xs)
      | Some n \<Rightarrow> apfst (Cons (x, take n xs)) (bwrap_split arity (drop n xs)))"
  by pat_completeness auto
termination by (relation "measure (length \<circ> snd)") auto

definition bwrap_arity :: "(string \<Rightarrow> nat option) \<Rightarrow> bool" where
  "bwrap_arity arity \<longleftrightarrow>
     arity ''--unshare-all'' = Some 0 \<and> arity ''--die-with-parent'' = Some 0 \<and> arity ''--ro-bind'' = Some 2
     \<and> arity ''--bind'' = Some 2 \<and> arity ''--tmpfs'' = Some 1 \<and> arity ''--dev'' = Some 1 \<and> arity ''--proc'' = Some 1
     \<and> arity ''--share-net'' = Some 0 \<and> arity ''--setenv'' = Some 2 \<and> arity ''--chdir'' = Some 1"

definition option_words :: "(string \<times> string list) list \<Rightarrow> string list" where
  "option_words opts = concat (map (\<lambda>(x, ws). x # ws) opts)"

lemma option_words_simps [simp]:
  "option_words [] = []" "option_words ((x, ws) # opts) = x # ws @ option_words opts"
  "option_words (xs @ ys) = option_words xs @ option_words ys"
  by (simp_all add: option_words_def)

lemma bwrap_split_words:
  "\<forall>(x, ws) \<in> set opts. arity x = Some (length ws) \<Longrightarrow> arity c = None \<Longrightarrow>
   bwrap_split arity (option_words opts @ c # us) = (opts, c # us)"
  by (induction opts) (auto simp: apfst_def)

definition existing :: "'w runner_host \<Rightarrow> 'w \<Rightarrow> string list \<Rightarrow> string list" where
  "existing h w ps = filter (\<lambda>p. rh_exists h (components p) w) (map (rh_tilde h) ps)"

definition bwrap_opts :: "'w runner_host \<Rightarrow> path \<Rightarrow> sandbox_policy \<Rightarrow> 'w \<Rightarrow> (string \<times> string list) list" where
  "bwrap_opts h cwd pol w =
     [(''--unshare-all'', []), (''--die-with-parent'', []), (''--ro-bind'', [''/usr'', ''/usr'']),
      (''--ro-bind'', [''/bin'', ''/bin'']), (''--ro-bind'', [''/lib'', ''/lib''])]
     @ (if rh_exists h (components ''/lib64'') w then [(''--ro-bind'', [''/lib64'', ''/lib64''])] else [])
     @ [(''--ro-bind'', [''/etc/alternatives'', ''/etc/alternatives'']), (''--ro-bind'', [''/etc/ssl'', ''/etc/ssl'']),
        (''--ro-bind'', [''/etc/resolv.conf'', ''/etc/resolv.conf'']), (''--tmpfs'', [''/tmp'']), (''--dev'', [''/dev'']),
        (''--proc'', [''/proc''])]
     @ map (\<lambda>p. (''--ro-bind'', [p, p])) (existing h w (allow_read pol))
     @ map (\<lambda>p. (''--bind'', [p, p])) (existing h w (allow_write pol))
     @ (if rh_exists h cwd w then [(''--bind'', [display cwd, display cwd])] else [])
     @ (if allow_network pol then [(''--share-net'', [])] else [])"

lemma bind_words_eq: "bind_words h w flag ps = option_words (map (\<lambda>p. (flag, [p, p])) (existing h w ps))"
  by (induction ps) (simp_all add: bind_words_def existing_def Let_def)

lemma bwrap_options_eq: "bwrap_options h cwd pol w = option_words (bwrap_opts h cwd pol w)"
  by (simp add: bwrap_options_def bwrap_opts_def bwrap_base_def bind_words_eq)

lemma bwrap_opts_arity: "bwrap_arity arity \<Longrightarrow> \<forall>(x, ws) \<in> set (bwrap_opts h cwd pol w). arity x = Some (length ws)"
  by (auto simp: bwrap_opts_def bwrap_arity_def)

lemma bwrap_opts_flags: "fst ` set (bwrap_opts h cwd pol w) \<subseteq>
    {''--unshare-all'', ''--die-with-parent'', ''--ro-bind'', ''--bind'', ''--tmpfs'', ''--dev'', ''--proc'', ''--share-net''}"
  by (auto simp: bwrap_opts_def)

lemma bwrap_opts_binds: "(''--bind'', ws) \<in> set (bwrap_opts h cwd pol w) \<longleftrightarrow>
    (\<exists>p. ws = [p, p] \<and> (p \<in> set (existing h w (allow_write pol)) \<or> rh_exists h cwd w \<and> p = display cwd))"
  by (auto simp: bwrap_opts_def)

lemma bwrap_opts_net: "(''--share-net'', []) \<in> set (bwrap_opts h cwd pol w) \<longleftrightarrow> allow_network pol"
  by (auto simp: bwrap_opts_def)

lemma bwrap_call_split:
  "bwrap_arity arity \<Longrightarrow> arity command = None \<Longrightarrow>
   bwrap_split arity (iv_argv (bwrap_call h command args cwd env pol w))
   = (bwrap_opts h cwd pol w, command # args @ setenv_words env)"
  by (simp add: bwrap_call_def bwrap_options_eq bwrap_split_words bwrap_opts_arity)

lemma denials_profile:
  assumes "denials script_rules = []"
  shows "denials (profile_sexps tild pol exe script_rules) = [Lst [Sym ''deny'', Sym ''default'']]"
proof -
  have "denials (map (entry_sexp tild ty) ps) = []" for ty ps
    by (induction ps) (simp_all add: denials_def entry_sexp_def allow_sexp_def)
  moreover have "denials (xs @ ys) = denials xs @ denials ys" for xs ys by (simp add: denials_def)
  moreover have "denials base_sexps = [Lst [Sym ''deny'', Sym ''default'']]" "denials (network_sexps pol) = []"
    "denials (allow_sexp ''file-read*'' ''literal'' exe # xs) = denials xs" for xs
    by (simp_all add: denials_def base_sexps_def network_sexps_def allow_sexp_def)
  ultimately show ?thesis using assms by (simp add: profile_sexps_def)
qed


definition sample_sandbox :: sandbox_policy where
  "sample_sandbox = \<lparr>allow_network = False, allow_read = [''/tmp/in''], allow_write = [''/tmp/out/**''], allow_env = False,
     enable_os_sandbox = True\<rparr>"

definition sample_external :: external_tool where
  "sample_external = \<lparr>et_name = ''run'', et_description = ''Run a script'', et_command = ''/usr/bin/python3'', et_args = [],
     et_working_dir = Some [RootDir, Normal ''p''], et_sandbox = True, et_policy = Some sample_sandbox, et_path_args = [],
     et_workspace = Some [RootDir, Normal ''w''], et_strategy = Some Overlay\<rparr>"

text \<open>A host that keeps the texts written and runs everything with success.\<close>

definition sample_runner :: "string list runner_host" where
  "sample_runner = \<lparr>rh_tilde = (\<lambda>s. s), rh_exists = (\<lambda>p w. True),
     rh_output = (\<lambda>i w. (Inr \<lparr>po_status = Some 0, po_stdout = ''ok'', po_stderr = []\<rparr>, w)),
     rh_temp_file = (\<lambda>w. (Inr [RootDir, Normal ''t''], w)), rh_write = (\<lambda>p s w. (Inr (), w @ [s])),
     rh_remove = (\<lambda>p w. w)\<rparr>"

text \<open>A tool with an argument of its own, and one whose first argument is the model's.\<close>

definition sample_arguments :: "string \<Rightarrow> (anyhow_error, json) res" where
  "sample_arguments s = Inr (JObj [''args'' \<mapsto> JArr [JStr s]])"


text \<open>C25: What the sandbox of Linux allows, read by the documented form of bubblewrap's command line: the writable
  places are the entries of \<open>allow_write\<close> that exist, and the directory of the command whether or not the
  policy names it; the network is shared when the policy says so. The variables come after the command, so they are
  arguments of the command and not part of its environment; and nothing changes to the directory. Without
  bubblewrap the lists of paths do not matter.\<close>

theorem linux_sandbox_spec:
  assumes "bwrap_arity arity" "arity command = None"
  shows "\<exists>opts. bwrap_split arity (iv_argv (bwrap_call h command args cwd env pol w))
           = (opts, command # args @ setenv_words env)
     \<and> hd opts = (''--unshare-all'', [])
     \<and> (\<forall>ws. (''--bind'', ws) \<in> set opts \<longleftrightarrow>
          (\<exists>p. ws = [p, p] \<and> (p \<in> set (existing h w (allow_write pol)) \<or> rh_exists h cwd w \<and> p = display cwd)))
     \<and> ((''--share-net'', []) \<in> set opts \<longleftrightarrow> allow_network pol)
     \<and> ''--setenv'' \<notin> fst ` set opts \<and> ''--chdir'' \<notin> fst ` set opts
     \<and> unshare_call command args cwd env (pol\<lparr>allow_read := r, allow_write := wr\<rparr>) = unshare_call command args cwd env pol"
proof (rule exI [of _ "bwrap_opts h cwd pol w"], intro conjI allI)
  show "bwrap_split arity (iv_argv (bwrap_call h command args cwd env pol w))
      = (bwrap_opts h cwd pol w, command # args @ setenv_words env)"
    using assms by (rule bwrap_call_split)
  show "hd (bwrap_opts h cwd pol w) = (''--unshare-all'', [])" by (simp add: bwrap_opts_def)
  show "''--setenv'' \<notin> fst ` set (bwrap_opts h cwd pol w)" "''--chdir'' \<notin> fst ` set (bwrap_opts h cwd pol w)"
    using bwrap_opts_flags [of h cwd pol w] by auto
qed (simp_all only: bwrap_opts_binds bwrap_opts_net, simp add: unshare_call_def)

definition sample_arity :: "string \<Rightarrow> nat option" where
  "sample_arity = [''--unshare-all'' \<mapsto> 0, ''--die-with-parent'' \<mapsto> 0, ''--ro-bind'' \<mapsto> 2, ''--bind'' \<mapsto> 2, ''--tmpfs'' \<mapsto> 1,
     ''--dev'' \<mapsto> 1, ''--proc'' \<mapsto> 1, ''--share-net'' \<mapsto> 0, ''--setenv'' \<mapsto> 2, ''--chdir'' \<mapsto> 1]"

theorem linux_sandbox_spec_witness:
  "snd (bwrap_split sample_arity (iv_argv (bwrap_call sample_runner ''ls'' [''-l''] [RootDir, Normal ''p''] (Some [(''LANG'', ''C'')])
     sample_sandbox []))) = [''ls'', ''-l'', ''--setenv'', ''LANG'', ''C'']"
proof -
  have "bwrap_arity sample_arity" "sample_arity ''ls'' = None"
    by (simp_all add: bwrap_arity_def sample_arity_def)
  then obtain opts where "bwrap_split sample_arity (iv_argv (bwrap_call sample_runner ''ls'' [''-l''] [RootDir, Normal ''p'']
      (Some [(''LANG'', ''C'')]) sample_sandbox [])) = (opts, ''ls'' # [''-l''] @ setenv_words (Some [(''LANG'', ''C'')]))"
    using linux_sandbox_spec by metis
  then show ?thesis by (simp add: setenv_words_def)
qed

end
