(* ===== verification/Script_Host.thy ===== *)
theory Script_Host
  imports Sandbox_Runner Ingress_Handler
begin

text \<open>
  What a script of the owner's extensions may do (\<^verbatim>\<open>src/src/scripting/deno.rs\<close>): the capabilities it declares,
  the check of paths, the operations the runtime offers it, and what is made of the results of its functions.

  The JavaScript engine is not modelled. A script is any sequence of operations, each chosen as the script likes;
  what lies outside the process is the record \<open>script_host\<close> on a world. The state of the runtime is the record
  \<open>sandbox_state\<close> of the source; of the bus, the scheduler and the MCP manager it only says whether they are there.
\<close>

subsection \<open>State\<close>

record tool_definition =
  td_name :: string
  td_description :: string
  td_parameters :: json

record capabilities =
  cap_read :: "path list"
  cap_write :: "path list"
  cap_net :: bool
  cap_env :: bool
  cap_exec :: bool

definition no_capabilities :: capabilities where
  "no_capabilities = \<lparr>cap_read = [], cap_write = [], cap_net = False, cap_env = False, cap_exec = False\<rparr>"

record sandbox_state =
  ss_policy :: sandbox_policy
  ss_workspace :: path
  ss_project_dir :: path
  ss_strategy :: workdir_strategy
  ss_registered_tools :: "tool_definition list"
  ss_safety_policy :: safety_policy
  ss_ingress_bus :: bool
  ss_scheduler :: bool
  ss_mcp_manager :: bool
  ss_capabilities :: capabilities
  ss_parent_model :: "string option"
  ss_parent_tools :: "string list option"
  ss_parent_prompt :: "string option"
  ss_parent_agent_id :: "string option"
  ss_config :: "config option"

datatype script_error = PermissionDenied string | OtherError string | OsError string

fun script_error_text :: "script_error \<Rightarrow> string" where
  "script_error_text (PermissionDenied s) = s"
| "script_error_text (OtherError s) = s"
| "script_error_text (OsError s) = s"

record 'w script_host =
  sh_tilde :: "string \<Rightarrow> string"
  sh_canonicalize :: "'w \<Rightarrow> path \<Rightarrow> path option"
  sh_is_match :: "string \<Rightarrow> string \<Rightarrow> bool"
  sh_to_uppercase :: "string \<Rightarrow> string"
  sh_read :: "path \<Rightarrow> 'w \<Rightarrow> (string, string) res \<times> 'w"
  sh_write :: "path \<Rightarrow> string \<Rightarrow> 'w \<Rightarrow> (string, unit) res \<times> 'w"
  sh_create_dir_all :: "path \<Rightarrow> 'w \<Rightarrow> (string, unit) res \<times> 'w"
  sh_is_dir :: "path \<Rightarrow> 'w \<Rightarrow> bool"
  sh_remove_dir_all :: "path \<Rightarrow> 'w \<Rightarrow> (string, unit) res \<times> 'w"
  sh_remove_file :: "path \<Rightarrow> 'w \<Rightarrow> (string, unit) res \<times> 'w"
  sh_read_dir :: "path \<Rightarrow> 'w \<Rightarrow> (string, (string, string option) res list) res \<times> 'w"
  sh_create_new :: "path \<Rightarrow> 'w \<Rightarrow> (string, unit) res \<times> 'w"
  sh_write_all :: "path \<Rightarrow> string \<Rightarrow> 'w \<Rightarrow> (string, unit) res \<times> 'w"
  sh_sleep :: "u64 \<Rightarrow> 'w \<Rightarrow> 'w"
  sh_uuid :: "'w \<Rightarrow> string \<times> 'w"
  sh_now :: "'w \<Rightarrow> u64"
  sh_vars :: "'w \<Rightarrow> (string \<times> string) list"
  sh_temp_dir :: string
  sh_home_dir :: "string option"
  sh_fetch :: "string \<Rightarrow> 'w \<Rightarrow> (string, string) res \<times> 'w"
  sh_log :: "string \<Rightarrow> 'w \<Rightarrow> 'w"
  sh_platform :: platform
  sh_runner :: "'w runner_host"
  sh_show_error :: "anyhow_error \<Rightarrow> string"
  sh_push :: "ingress_message \<Rightarrow> 'w \<Rightarrow> (string, unit) res \<times> 'w"
  sh_register_job :: "string \<Rightarrow> string \<Rightarrow> string \<Rightarrow> 'w \<Rightarrow> (string, unit) res \<times> 'w"
  sh_mcp_initialize :: "mcp_server_config list \<Rightarrow> 'w \<Rightarrow> 'w"
  sh_mcp_ensure :: "string \<Rightarrow> 'w \<Rightarrow> (string, unit) res \<times> 'w"
  sh_mcp_list_tools :: "string \<Rightarrow> 'w \<Rightarrow> (string, json list) res \<times> 'w"
  sh_mcp_call :: "string \<Rightarrow> string \<Rightarrow> json \<Rightarrow> 'w \<Rightarrow> (string, json) res \<times> 'w"
  sh_mcp_shutdown :: "string option \<Rightarrow> 'w \<Rightarrow> 'w"
  sh_config_json :: "config \<Rightarrow> json option"

subsection \<open>Paths and capabilities\<close>

definition script_path :: "(string \<Rightarrow> string) \<Rightarrow> sandbox_state \<Rightarrow> string \<Rightarrow> path" where
  "script_path tild s p =
     (let resolved_path = resolve_path tild p (ss_workspace s) (ss_project_dir s) (ss_strategy s) in
      if is_absolute resolved_path then resolved_path else path_join (ss_workspace s) resolved_path)"

definition check_script_path ::
  "(string \<Rightarrow> string) \<Rightarrow> string \<Rightarrow> path list \<Rightarrow> sandbox_state \<Rightarrow> (script_error, path) res" where
  "check_script_path tild p allowed_paths s =
     (let resolved_path = script_path tild s p in
      if list_ex (\<lambda>allowed. prefix allowed resolved_path) allowed_paths then Inr resolved_path
      else Inl (PermissionDenied (''Access to '' @ p @ '' denied by capabilities'')))"

definition resolve_path_relative :: "(string \<Rightarrow> string) \<Rightarrow> string \<Rightarrow> path \<Rightarrow> path" where
  "resolve_path_relative tild p project_dir =
     (if starts_with p ''/'' then components p
      else if starts_with p ''~'' then components (tild p)
      else path_join project_dir (components p))"

definition declare_part :: "(string \<Rightarrow> string) \<Rightarrow> path \<Rightarrow> string \<Rightarrow> capabilities \<Rightarrow> capabilities" where
  "declare_part tild project_dir piece caps =
     (let part = trim piece in
      case split_once (CHR ''='') part of
        Some (k, v) \<Rightarrow>
          let key = trim k; p = resolve_path_relative tild (trim v) project_dir in
          if key = ''read'' then caps\<lparr>cap_read := cap_read caps @ [p]\<rparr>
          else if key = ''write'' then caps\<lparr>cap_write := cap_write caps @ [p]\<rparr>
          else caps
      | None \<Rightarrow>
          if part = ''net'' then caps\<lparr>cap_net := True\<rparr>
          else if part = ''env'' then caps\<lparr>cap_env := True\<rparr>
          else if part = ''exec'' then caps\<lparr>cap_exec := True\<rparr>
          else caps)"

definition parse_capabilities :: "(string \<Rightarrow> string) \<Rightarrow> string \<Rightarrow> path \<Rightarrow> capabilities" where
  "parse_capabilities tild code project_dir =
     fold (\<lambda>line caps. case strip_prefix (trim line) ''// @capability '' of
         None \<Rightarrow> caps
       | Some decl \<Rightarrow> fold (declare_part tild project_dir) (split_on (CHR '','') decl) caps)
       (lines code) no_capabilities"

definition policy_roots :: "(string \<Rightarrow> string) \<Rightarrow> string list \<Rightarrow> path list" where
  "policy_roots tild ps = map (components \<circ> tild) ps"

definition policy_capabilities :: "(string \<Rightarrow> string) \<Rightarrow> sandbox_policy \<Rightarrow> capabilities" where
  "policy_capabilities tild pol =
     \<lparr>cap_read = policy_roots tild (allow_read pol), cap_write = policy_roots tild (allow_write pol),
      cap_net = allow_network pol, cap_env = allow_env pol, cap_exec = True\<rparr>"

definition deno_new ::
  "(string \<Rightarrow> string) \<Rightarrow> sandbox_policy \<Rightarrow> path \<Rightarrow> path \<Rightarrow> workdir_strategy \<Rightarrow> bool \<Rightarrow> bool \<Rightarrow> bool \<Rightarrow> config option
   \<Rightarrow> sandbox_state" where
  "deno_new tild pol workspace project_dir strat ingress_bus scheduler mcp_manager config =
     \<lparr>ss_policy = pol, ss_workspace = workspace, ss_project_dir = project_dir, ss_strategy = strat,
      ss_registered_tools = [], ss_safety_policy = safety_policy_new project_dir workspace,
      ss_ingress_bus = ingress_bus, ss_scheduler = scheduler, ss_mcp_manager = mcp_manager,
      ss_capabilities = policy_capabilities tild pol, ss_parent_model = None, ss_parent_tools = None,
      ss_parent_prompt = None, ss_parent_agent_id = None, ss_config = config\<rparr>"

definition outside :: "path list \<Rightarrow> path list \<Rightarrow> path option" where
  "outside roots ps = find (\<lambda>p. \<not> list_ex (\<lambda>r. prefix r p) roots) ps"

text \<open>The part of \<open>execute_script\<close> before the module is run.\<close>

definition adopt_capabilities :: "(string \<Rightarrow> string) \<Rightarrow> string \<Rightarrow> sandbox_state \<Rightarrow> (anyhow_error, sandbox_state) res" where
  "adopt_capabilities tild code s =
     (let declared = parse_capabilities tild code (ss_project_dir s); pol = ss_policy s in
      if \<not> contains code ''// @capability'' then Inr s
      else case outside (policy_roots tild (allow_read pol)) (cap_read declared) of
        Some p \<Rightarrow> Inl (Msg (''Script declared capability to read '' @ [CHR 0x27] @ display p @ [CHR 0x27]
                    @ '' which is not allowed by sandbox policy''))
      | None \<Rightarrow>
          (case outside (policy_roots tild (allow_write pol)) (cap_write declared) of
             Some p \<Rightarrow> Inl (Msg (''Script declared capability to write '' @ [CHR 0x27] @ display p @ [CHR 0x27]
                         @ '' which is not allowed by sandbox policy''))
           | None \<Rightarrow>
               if cap_net declared \<and> \<not> allow_network pol
               then Inl (Msg (''Script declared capability '' @ [CHR 0x27] @ ''net'' @ [CHR 0x27]
                      @ '' which is not allowed by sandbox policy''))
               else if cap_env declared \<and> \<not> allow_env pol
               then Inl (Msg (''Script declared capability '' @ [CHR 0x27] @ ''env'' @ [CHR 0x27]
                      @ '' which is not allowed by sandbox policy''))
               else Inr (s\<lparr>ss_capabilities := declared\<rparr>)))"

subsection \<open>Operations on files\<close>

definition os_result :: "(string, 'a) res \<times> 'w \<Rightarrow> (script_error, 'a) res \<times> 'w" where
  "os_result = apfst (map_sum OsError id)"

definition other_result :: "(string, 'a) res \<times> 'w \<Rightarrow> (script_error, 'a) res \<times> 'w" where
  "other_result = apfst (map_sum OtherError id)"

definition op_read_file :: "'w script_host \<Rightarrow> sandbox_state \<Rightarrow> string \<Rightarrow> 'w \<Rightarrow> (script_error, string) res \<times> 'w" where
  "op_read_file h s p w =
     (case check_script_path (sh_tilde h) p (cap_read (ss_capabilities s)) s of
        Inl e \<Rightarrow> (Inl e, w)
      | Inr abs_path \<Rightarrow> os_result (sh_read h abs_path w))"

definition op_write_file ::
  "'w script_host \<Rightarrow> sandbox_state \<Rightarrow> string \<Rightarrow> string \<Rightarrow> 'w \<Rightarrow> (script_error, unit) res \<times> 'w" where
  "op_write_file h s p body w =
     (case check_script_path (sh_tilde h) p (cap_write (ss_capabilities s)) s of
        Inl e \<Rightarrow> (Inl e, w)
      | Inr abs_path \<Rightarrow> os_result (sh_write h abs_path body w))"

definition op_fs_mkdir :: "'w script_host \<Rightarrow> sandbox_state \<Rightarrow> string \<Rightarrow> 'w \<Rightarrow> (script_error, unit) res \<times> 'w" where
  "op_fs_mkdir h s p w =
     (case check_script_path (sh_tilde h) p (cap_write (ss_capabilities s)) s of
        Inl e \<Rightarrow> (Inl e, w)
      | Inr abs_path \<Rightarrow> os_result (sh_create_dir_all h abs_path w))"

definition op_fs_remove :: "'w script_host \<Rightarrow> sandbox_state \<Rightarrow> string \<Rightarrow> 'w \<Rightarrow> (script_error, unit) res \<times> 'w" where
  "op_fs_remove h s p w =
     (case check_script_path (sh_tilde h) p (cap_write (ss_capabilities s)) s of
        Inl e \<Rightarrow> (Inl e, w)
      | Inr abs_path \<Rightarrow>
          os_result (if sh_is_dir h abs_path w then sh_remove_dir_all h abs_path w else sh_remove_file h abs_path w))"

fun entry_names :: "(string, string option) res list \<Rightarrow> (string, string list) res" where
  "entry_names [] = Inr []"
| "entry_names (Inl e # es) = Inl e"
| "entry_names (Inr n # es) =
     map_sum id (\<lambda>ns. case n of Some name \<Rightarrow> name # ns | None \<Rightarrow> ns) (entry_names es)"

definition op_fs_read_dir ::
  "'w script_host \<Rightarrow> sandbox_state \<Rightarrow> string \<Rightarrow> 'w \<Rightarrow> (script_error, string list) res \<times> 'w" where
  "op_fs_read_dir h s p w =
     (case check_script_path (sh_tilde h) p (cap_read (ss_capabilities s)) s of
        Inl e \<Rightarrow> (Inl e, w)
      | Inr abs_path \<Rightarrow> os_result (apfst (\<lambda>r. bind_res r entry_names) (sh_read_dir h abs_path w)))"

definition op_write_file_exclusive ::
  "'w script_host \<Rightarrow> sandbox_state \<Rightarrow> string \<Rightarrow> string \<Rightarrow> 'w \<Rightarrow> (script_error, unit) res \<times> 'w" where
  "op_write_file_exclusive h s p body w =
     (case check_script_path (sh_tilde h) p (cap_write (ss_capabilities s)) s of
        Inl e \<Rightarrow> (Inl e, w)
      | Inr abs_path \<Rightarrow>
          (case sh_create_new h abs_path w of
             (Inl e, w1) \<Rightarrow> (Inl (OsError e), w1)
           | (Inr _, w1) \<Rightarrow> os_result (sh_write_all h abs_path body w1)))"

subsection \<open>Environment, network, tools\<close>

definition op_env_get :: "'w script_host \<Rightarrow> sandbox_state \<Rightarrow> string \<Rightarrow> 'w \<Rightarrow> string option" where
  "op_env_get h s key w = (if cap_env (ss_capabilities s) then map_of (sh_vars h w) key else None)"

definition op_fetch :: "'w script_host \<Rightarrow> sandbox_state \<Rightarrow> string \<Rightarrow> 'w \<Rightarrow> (script_error, string) res \<times> 'w" where
  "op_fetch h s url w =
     (if cap_net (ss_capabilities s) then other_result (sh_fetch h url w)
      else (Inl (PermissionDenied ''Network access not allowed''), w))"

definition op_register_tool :: "tool_definition \<Rightarrow> sandbox_state \<Rightarrow> sandbox_state" where
  "op_register_tool d s = s\<lparr>ss_registered_tools := ss_registered_tools s @ [d]\<rparr>"

subsection \<open>Running commands\<close>

record exec_opts =
  xo_cwd :: "string option"
  xo_env :: "(string \<times> string) list option"

record exec_result =
  xr_code :: int
  xr_stdout :: string
  xr_stderr :: string

definition exec_verdict :: "'w script_host \<Rightarrow> sandbox_state \<Rightarrow> string list \<Rightarrow> exec_opts \<Rightarrow> 'w \<Rightarrow> (script_error, unit) res" where
  "exec_verdict h s cmd opts w =
     (if \<not> cap_exec (ss_capabilities s) then Inl (PermissionDenied ''Execution not allowed by capabilities'')
      else case check_command (sh_canonicalize h w) (sh_is_match h) (ss_safety_policy s) cmd
                  (map_option components (xo_cwd opts)) of
        Inl e \<Rightarrow> Inl (OtherError (sh_show_error h e))
      | Inr Allowed \<Rightarrow> Inr ()
      | Inr (SoftBlock msg) \<Rightarrow> Inr ()
      | Inr (RequireApproval msg) \<Rightarrow> Inl (OtherError (''Command requires approval: '' @ msg))
      | Inr (HardBlock msg) \<Rightarrow> Inl (OtherError (''Command blocked by safety policy: '' @ msg)))"

definition target_cwd :: "sandbox_state \<Rightarrow> exec_opts \<Rightarrow> path" where
  "target_cwd s opts =
     (case xo_cwd opts of Some p \<Rightarrow> absolute (ss_project_dir s) (components p) | None \<Rightarrow> ss_project_dir s)"

definition blocked_key :: "(string \<Rightarrow> string) \<Rightarrow> string \<Rightarrow> bool" where
  "blocked_key to_uppercase key \<longleftrightarrow>
     (let key_upper = to_uppercase key in
      key_upper = ''PATH'' \<or> key_upper = ''HOME'' \<or> starts_with key_upper ''LD_'' \<or> key_upper = ''SHELL''
      \<or> key_upper = ''PYTHONPATH'')"

definition merged_env ::
  "(string \<Rightarrow> string) \<Rightarrow> (string \<times> string) list \<Rightarrow> (string \<times> string) list option
   \<Rightarrow> (script_error, (string \<times> string) list) res" where
  "merged_env to_uppercase vars overrides =
     (case overrides of
        None \<Rightarrow> Inr vars
      | Some kvs \<Rightarrow>
          (case find (blocked_key to_uppercase) (map fst kvs) of
             Some key \<Rightarrow> Inl (OtherError (''Setting environment variable '' @ key @ '' is not allowed''))
           | None \<Rightarrow> Inr (fold (\<lambda>(k, v). put k v) kvs vars)))"

definition exec_output :: "process_output \<Rightarrow> exec_result" where
  "exec_output out = \<lparr>xr_code = unwrap_or (po_status out) (-1), xr_stdout = po_stdout out, xr_stderr = po_stderr out\<rparr>"

definition op_zier_exec ::
  "'w script_host \<Rightarrow> sandbox_state \<Rightarrow> string list \<Rightarrow> exec_opts \<Rightarrow> 'w \<Rightarrow> (script_error, exec_result) res \<times> 'w" where
  "op_zier_exec h s cmd opts w =
     (case bind_res (exec_verdict h s cmd opts w) (\<lambda>_. merged_env (sh_to_uppercase h) (sh_vars h w) (xo_env opts)) of
        Inl e \<Rightarrow> (Inl e, w)
      | Inr env \<Rightarrow>
          apfst (map_sum (OtherError \<circ> sh_show_error h) exec_output)
            (run_sandboxed_command (sh_platform h) (sh_runner h) (hd cmd) (tl cmd) (target_cwd s opts) (Some env)
               (ss_policy s) w))"

subsection \<open>Messages, jobs and servers\<close>

definition op_zier_ingress_push ::
  "'w script_host \<Rightarrow> sandbox_state \<Rightarrow> string \<Rightarrow> string \<Rightarrow> 'w \<Rightarrow> (script_error, unit) res \<times> 'w" where
  "op_zier_ingress_push h s payload source w =
     (if ss_ingress_bus s
      then let (uuid, w1) = sh_uuid h w in
           other_result (sh_push h (ingress_new uuid (sh_now h w1) source payload TrustedEvent) w1)
      else (Inl (OtherError ''Ingress bus not available''), w))"

definition op_zier_scheduler_register ::
  "'w script_host \<Rightarrow> sandbox_state \<Rightarrow> string \<Rightarrow> string \<Rightarrow> string \<Rightarrow> 'w \<Rightarrow> (script_error, unit) res \<times> 'w" where
  "op_zier_scheduler_register h s name cron script w =
     (case check_script_path (sh_tilde h) script (cap_read (ss_capabilities s)) s of
        Inl e \<Rightarrow> (Inl (PermissionDenied (''Script path blocked: '' @ script_error_text e)), w)
      | Inr _ \<Rightarrow>
          if ss_scheduler s then other_result (sh_register_job h name cron script w)
          else (Inl (OtherError ''Scheduler not available''), w))"

definition no_manager :: script_error where
  "no_manager = OtherError ''MCP Manager not available''"

definition op_zier_mcp_initialize ::
  "'w script_host \<Rightarrow> sandbox_state \<Rightarrow> mcp_server_config list \<Rightarrow> 'w \<Rightarrow> (script_error, unit) res \<times> 'w" where
  "op_zier_mcp_initialize h s configs w =
     (if ss_mcp_manager s then (Inr (), sh_mcp_initialize h configs w) else (Inl no_manager, w))"

definition op_zier_mcp_ensure_server ::
  "'w script_host \<Rightarrow> sandbox_state \<Rightarrow> string \<Rightarrow> 'w \<Rightarrow> (script_error, unit) res \<times> 'w" where
  "op_zier_mcp_ensure_server h s server_name w =
     (if ss_mcp_manager s then other_result (sh_mcp_ensure h server_name w) else (Inl no_manager, w))"

definition op_zier_mcp_list_tools ::
  "'w script_host \<Rightarrow> sandbox_state \<Rightarrow> string \<Rightarrow> 'w \<Rightarrow> (script_error, json list) res \<times> 'w" where
  "op_zier_mcp_list_tools h s server_name w =
     (if ss_mcp_manager s then other_result (sh_mcp_list_tools h server_name w) else (Inl no_manager, w))"

definition op_zier_mcp_call ::
  "'w script_host \<Rightarrow> sandbox_state \<Rightarrow> string \<Rightarrow> string \<Rightarrow> json \<Rightarrow> 'w \<Rightarrow> (script_error, json) res \<times> 'w" where
  "op_zier_mcp_call h s server_name tool_name args w =
     (if ss_mcp_manager s
      then other_result (sh_mcp_call h server_name ''tools/call'' (tool_params tool_name args) w)
      else (Inl no_manager, w))"

definition op_zier_mcp_shutdown ::
  "'w script_host \<Rightarrow> sandbox_state \<Rightarrow> string option \<Rightarrow> 'w \<Rightarrow> (script_error, unit) res \<times> 'w" where
  "op_zier_mcp_shutdown h s server_name w =
     (if ss_mcp_manager s then (Inr (), sh_mcp_shutdown h server_name w) else (Inl no_manager, w))"

subsection \<open>Context and configuration\<close>

definition opt_json :: "('a \<Rightarrow> json) \<Rightarrow> 'a option \<Rightarrow> json" where
  "opt_json f x = (case x of None \<Rightarrow> JNull | Some y \<Rightarrow> f y)"

definition op_zier_get_parent_context :: "sandbox_state \<Rightarrow> json option" where
  "op_zier_get_parent_context s =
     (if ss_parent_model s = None \<and> ss_parent_tools s = None \<and> ss_parent_prompt s = None \<and> ss_parent_agent_id s = None
      then None
      else Some (JObj [''model'' \<mapsto> opt_json JStr (ss_parent_model s),
        ''tools'' \<mapsto> opt_json (JArr \<circ> map JStr) (ss_parent_tools s),
        ''systemPromptAppend'' \<mapsto> opt_json JStr (ss_parent_prompt s),
        ''agentId'' \<mapsto> opt_json JStr (ss_parent_agent_id s), ''projectDir'' \<mapsto> JStr (display (ss_project_dir s))]))"

fun config_walk :: "json \<Rightarrow> string list \<Rightarrow> json option" where
  "config_walk v [] = Some v"
| "config_walk (JObj m) (part # parts) = Option.bind (m part) (\<lambda>v. config_walk v parts)"
| "config_walk (JArr vs) (part # parts) =
     (case parse_uint (2 ^ 64 - 1) part of
        None \<Rightarrow> None
      | Some idx \<Rightarrow> if idx < length vs then config_walk (vs ! idx) parts else None)"
| "config_walk v (part # parts) = None"

definition op_pi_config_get :: "'w script_host \<Rightarrow> sandbox_state \<Rightarrow> string \<Rightarrow> json option" where
  "op_pi_config_get h s key =
     Option.bind (ss_config s) (\<lambda>config. Option.bind (sh_config_json h config) (\<lambda>config_value.
       config_walk config_value (split_on (CHR ''.'') key)))"

definition set_parent_context ::
  "string option \<Rightarrow> string list option \<Rightarrow> string option \<Rightarrow> string option \<Rightarrow> sandbox_state \<Rightarrow> sandbox_state" where
  "set_parent_context model_name tool_names system_prompt_append agent_id s =
     s\<lparr>ss_parent_model := model_name, ss_parent_tools := tool_names, ss_parent_prompt := system_prompt_append,
       ss_parent_agent_id := agent_id\<rparr>"

subsection \<open>A script: any sequence of operations\<close>

datatype script_op =
    ReadFile string
  | WriteFile string string
  | FsMkdir string
  | FsRemove string
  | FsReadDir string
  | WriteFileExclusive string string
  | Sleep u64
  | RandomUuid
  | EnvGet string
  | TempDir
  | HomeDir
  | Fetch string
  | Log string
  | RegisterTool tool_definition
  | Exec "string list" exec_opts
  | IngressPush string string
  | SchedulerRegister string string string
  | McpInitialize "mcp_server_config list"
  | McpEnsureServer string
  | McpListTools string
  | McpCall string string json
  | McpShutdown "string option"
  | GetParentContext
  | ConfigGet string

datatype op_value =
    VUnit
  | VText string
  | VTextOpt "string option"
  | VNames "string list"
  | VExec exec_result
  | VJson json
  | VJsonOpt "json option"
  | VJsons "json list"

type_synonym 'w op_outcome = "(script_error, op_value) res \<times> 'w"

definition value_of :: "('a \<Rightarrow> op_value) \<Rightarrow> (script_error, 'a) res \<times> 'w \<Rightarrow> 'w op_outcome" where
  "value_of f = apfst (map_sum id f)"

fun run_op :: "'w script_host \<Rightarrow> script_op \<Rightarrow> sandbox_state \<times> 'w \<Rightarrow> (script_error, op_value) res \<times> (sandbox_state \<times> 'w)" where
  "run_op h (ReadFile p) (s, w) = apsnd (Pair s) (value_of VText (op_read_file h s p w))"
| "run_op h (WriteFile p body) (s, w) = apsnd (Pair s) (value_of (\<lambda>_. VUnit) (op_write_file h s p body w))"
| "run_op h (FsMkdir p) (s, w) = apsnd (Pair s) (value_of (\<lambda>_. VUnit) (op_fs_mkdir h s p w))"
| "run_op h (FsRemove p) (s, w) = apsnd (Pair s) (value_of (\<lambda>_. VUnit) (op_fs_remove h s p w))"
| "run_op h (FsReadDir p) (s, w) = apsnd (Pair s) (value_of VNames (op_fs_read_dir h s p w))"
| "run_op h (WriteFileExclusive p body) (s, w) = apsnd (Pair s) (value_of (\<lambda>_. VUnit) (op_write_file_exclusive h s p body w))"
| "run_op h (Sleep ms) (s, w) = (Inr VUnit, s, sh_sleep h ms w)"
| "run_op h RandomUuid (s, w) = apfst (Inr \<circ> VText) (apsnd (Pair s) (sh_uuid h w))"
| "run_op h (EnvGet key) (s, w) = (Inr (VTextOpt (op_env_get h s key w)), s, w)"
| "run_op h TempDir (s, w) = (Inr (VText (sh_temp_dir h)), s, w)"
| "run_op h HomeDir (s, w) = (Inr (VTextOpt (sh_home_dir h)), s, w)"
| "run_op h (Fetch url) (s, w) = apsnd (Pair s) (value_of VText (op_fetch h s url w))"
| "run_op h (Log msg) (s, w) = (Inr VUnit, s, sh_log h (''[JS] '' @ msg) w)"
| "run_op h (RegisterTool d) (s, w) = (Inr VUnit, op_register_tool d s, w)"
| "run_op h (Exec cmd opts) (s, w) = apsnd (Pair s) (value_of VExec (op_zier_exec h s cmd opts w))"
| "run_op h (IngressPush payload source) (s, w) =
     apsnd (Pair s) (value_of (\<lambda>_. VUnit) (op_zier_ingress_push h s payload source w))"
| "run_op h (SchedulerRegister name cron script) (s, w) =
     apsnd (Pair s) (value_of (\<lambda>_. VUnit) (op_zier_scheduler_register h s name cron script w))"
| "run_op h (McpInitialize configs) (s, w) =
     apsnd (Pair s) (value_of (\<lambda>_. VUnit) (op_zier_mcp_initialize h s configs w))"
| "run_op h (McpEnsureServer server) (s, w) =
     apsnd (Pair s) (value_of (\<lambda>_. VUnit) (op_zier_mcp_ensure_server h s server w))"
| "run_op h (McpListTools server) (s, w) = apsnd (Pair s) (value_of VJsons (op_zier_mcp_list_tools h s server w))"
| "run_op h (McpCall server tool args) (s, w) = apsnd (Pair s) (value_of VJson (op_zier_mcp_call h s server tool args w))"
| "run_op h (McpShutdown server) (s, w) = apsnd (Pair s) (value_of (\<lambda>_. VUnit) (op_zier_mcp_shutdown h s server w))"
| "run_op h GetParentContext (s, w) = (Inr (VJsonOpt (op_zier_get_parent_context s)), s, w)"
| "run_op h (ConfigGet key) (s, w) = (Inr (VJsonOpt (op_pi_config_get h s key)), s, w)"

definition run_ops :: "'w script_host \<Rightarrow> script_op list \<Rightarrow> sandbox_state \<times> 'w \<Rightarrow> sandbox_state \<times> 'w" where
  "run_ops h ops st = fold (\<lambda>oper st. snd (run_op h oper st)) ops st"

subsection \<open>Functions of a script called from outside\<close>

definition tool_call_code :: "string \<Rightarrow> string \<Rightarrow> string" where
  "tool_call_code name args = ''globalThis.pi.internal.executeTool('' @ [CHR 0x27] @ name @ [CHR 0x27] @ '', '' @ args @ '')''"

definition js_escape :: "string \<Rightarrow> string" where
  "js_escape s = concat (map (\<lambda>c. if c = CHR 0x5C then [CHR 0x5C, CHR 0x5C] else if c = CHR 0x27 then [CHR 0x5C, CHR 0x27] else [c]) s)"

definition generator_code :: "string \<Rightarrow> string \<Rightarrow> string" where
  "generator_code func_name args_json =
     ''(function() { const args = JSON.parse('' @ [CHR 0x27] @ js_escape args_json @ [CHR 0x27]
     @ ''); const result = globalThis['' @ qt @ func_name @ qt
     @ ''](args); return result instanceof Promise ? result : Promise.resolve(result); })()''"

definition status_code_js :: string where
  "status_code_js = ''globalThis.zier.hooks.on_status ? globalThis.zier.hooks.on_status() : []''"

datatype 'v promise = Pending | Fulfilled 'v | Rejected string

text \<open>
  The engine: running code gives a promise or an exception; the state of a promise is looked up, and while it is
  pending the event loop runs until it has nothing to do. The loop is the source's and may not end.
\<close>

record ('v, 'j) js_engine =
  js_execute :: "string \<Rightarrow> 'j \<Rightarrow> (anyhow_error, nat) res \<times> 'j"
  js_promise :: "nat \<Rightarrow> 'j \<Rightarrow> (anyhow_error, 'v promise) res"
  js_event_loop :: "'j \<Rightarrow> (anyhow_error, unit) res \<times> 'j"
  js_to_json :: "'v \<Rightarrow> (anyhow_error, json) res"
  js_print :: "json \<Rightarrow> string"

partial_function (option) await_promise ::
  "('v, 'j) js_engine \<Rightarrow> nat \<Rightarrow> 'j \<Rightarrow> ((anyhow_error, 'v) res \<times> 'j) option" where
  "await_promise e p j =
     (case js_promise e p j of
        Inl err \<Rightarrow> Some (Inl err, j)
      | Inr (Fulfilled v) \<Rightarrow> Some (Inr v, j)
      | Inr (Rejected msg) \<Rightarrow> Some (Inl (Msg (''Promise rejected: '' @ msg)), j)
      | Inr Pending \<Rightarrow>
          (case js_event_loop e j of
             (Inl err, j1) \<Rightarrow> Some (Inl err, j1)
           | (Inr _, j1) \<Rightarrow> await_promise e p j1))"

definition call_js :: "('v, 'j) js_engine \<Rightarrow> string \<Rightarrow> 'j \<Rightarrow> ((anyhow_error, json) res \<times> 'j) option" where
  "call_js e code j =
     (case js_execute e code j of
        (Inl err, j1) \<Rightarrow> Some (Inl err, j1)
      | (Inr p, j1) \<Rightarrow> map_option (apfst (\<lambda>r. bind_res r (js_to_json e))) (await_promise e p j1))"

fun json_result :: "(json \<Rightarrow> string) \<Rightarrow> json \<Rightarrow> string" where
  "json_result pr (JStr s) = s"
| "json_result pr v = pr v"

definition deno_execute_tool ::
  "('v, 'j) js_engine \<Rightarrow> string \<Rightarrow> string \<Rightarrow> 'j \<Rightarrow> ((anyhow_error, string) res \<times> 'j) option" where
  "deno_execute_tool e name args j =
     map_option (apfst (map_sum id (json_result (js_print e)))) (call_js e (tool_call_code name args) j)"

definition deno_evaluate_generator ::
  "('v, 'j) js_engine \<Rightarrow> string \<Rightarrow> json \<Rightarrow> 'j \<Rightarrow> ((anyhow_error, string) res \<times> 'j) option" where
  "deno_evaluate_generator e func_name args j =
     map_option (apfst (map_sum id (json_result (js_print e)))) (call_js e (generator_code func_name (js_print e args)) j)"

fun status_lines :: "json \<Rightarrow> string list" where
  "status_lines (JArr vs) = List.map_filter as_str vs"
| "status_lines (JStr s) = [s]"
| "status_lines v = []"

definition deno_get_status :: "('v, 'j) js_engine \<Rightarrow> 'j \<Rightarrow> ((anyhow_error, string list) res \<times> 'j) option" where
  "deno_get_status e j = map_option (apfst (map_sum id status_lines)) (call_js e status_code_js j)"

subsection \<open>What a script can touch\<close>

datatype access =
    Reads path
  | Writes path
  | Fetches
  | Executes "string list" path
  | Sends ingress_message
  | Schedules string
  | Serves

text \<open>
  Where a path leads is \<open>walk []\<close> of it, links apart. A path is plain when it has no step up and no second root; for
  plain paths alone the place is fixed by the components in front.
\<close>

definition plain :: "path \<Rightarrow> bool" where
  "plain p \<longleftrightarrow> ParentDir \<notin> set p \<and> RootDir \<notin> set (tl p)"

definition below :: "path list \<Rightarrow> path \<Rightarrow> bool" where
  "below roots p \<longleftrightarrow> list_ex (\<lambda>r. plain r \<and> prefix (walk [] r) (walk [] p)) roots"

lemma walk_append: "walk loc (p @ q) = walk (walk loc p) q"
  by (induction loc p rule: walk.induct) simp_all

lemma walk_down: "ParentDir \<notin> set q \<Longrightarrow> RootDir \<notin> set q \<Longrightarrow> prefix loc (walk loc q)"
proof (induction q arbitrary: loc)
  case (Cons c q)
  then show ?case by (cases c) (auto intro: prefix_order.order_trans [of loc "loc @ [c]"])
qed simp

lemma prefix_place:
  assumes "prefix r p" "plain p"
  shows "plain r \<and> prefix (walk [] r) (walk [] p)"
proof -
  obtain q where q: "p = r @ q" using assms(1) by (auto simp: prefix_def)
  show ?thesis
  proof (cases r)
    case Nil
    then show ?thesis by (simp add: plain_def)
  next
    case (Cons c cs)
    then have "ParentDir \<notin> set q" "RootDir \<notin> set q" "plain r" using assms(2) q by (auto simp: plain_def)
    then show ?thesis using walk_down [of q "walk [] r"] by (simp add: q walk_append)
  qed
qed

text \<open>
  What the capabilities and the services of a runtime permit: a plain path must lead below a root of the
  capabilities, a path with a step up is not restricted; servers ask for no capability.
\<close>

fun may :: "(string \<Rightarrow> string) \<Rightarrow> sandbox_state \<Rightarrow> access \<Rightarrow> bool" where
  "may tild s (Reads p) = (plain p \<longrightarrow> below (cap_read (ss_capabilities s)) p)"
| "may tild s (Writes p) = (plain p \<longrightarrow> below (cap_write (ss_capabilities s)) p)"
| "may tild s Fetches = cap_net (ss_capabilities s)"
| "may tild s (Executes cmd dir) =
     (cap_exec (ss_capabilities s) \<and> cmd \<noteq> []
      \<and> (allow_shell_chaining (ss_safety_policy s) \<or> list_all (\<lambda>c. \<not> contains (join '' '' cmd) c) dangerous_chars))"
| "may tild s (Sends m) = (ss_ingress_bus s \<and> im_trust m = TrustedEvent)"
| "may tild s (Schedules script) =
     (ss_scheduler s \<and> (plain (script_path tild s script) \<longrightarrow> below (cap_read (ss_capabilities s)) (script_path tild s script)))"
| "may tild s Serves = ss_mcp_manager s"

text \<open>A property of the world that every permitted access keeps, and so do the clock, names and the log.\<close>

definition keeps :: "'w script_host \<Rightarrow> sandbox_state \<Rightarrow> ('w \<Rightarrow> bool) \<Rightarrow> bool" where
  "keeps h s I \<longleftrightarrow> (\<forall>w. I w \<longrightarrow>
     (\<forall>p. may (sh_tilde h) s (Reads p) \<longrightarrow> I (snd (sh_read h p w)) \<and> I (snd (sh_read_dir h p w)))
     \<and> (\<forall>p. may (sh_tilde h) s (Writes p) \<longrightarrow>
          (\<forall>body. I (snd (sh_write h p body w)) \<and> I (snd (sh_write_all h p body w)))
          \<and> I (snd (sh_create_dir_all h p w)) \<and> I (snd (sh_remove_dir_all h p w)) \<and> I (snd (sh_remove_file h p w))
          \<and> I (snd (sh_create_new h p w)))
     \<and> (may (sh_tilde h) s Fetches \<longrightarrow> (\<forall>url. I (snd (sh_fetch h url w))))
     \<and> (\<forall>cmd dir env. may (sh_tilde h) s (Executes cmd dir) \<longrightarrow>
          I (snd (run_sandboxed_command (sh_platform h) (sh_runner h) (hd cmd) (tl cmd) dir env (ss_policy s) w)))
     \<and> (\<forall>m. may (sh_tilde h) s (Sends m) \<longrightarrow> I (snd (sh_push h m w)))
     \<and> (\<forall>name cron script. may (sh_tilde h) s (Schedules script) \<longrightarrow> I (snd (sh_register_job h name cron script w)))
     \<and> (may (sh_tilde h) s Serves \<longrightarrow>
          (\<forall>configs. I (sh_mcp_initialize h configs w)) \<and> (\<forall>server. I (snd (sh_mcp_ensure h server w)))
          \<and> (\<forall>server. I (snd (sh_mcp_list_tools h server w)))
          \<and> (\<forall>server name args. I (snd (sh_mcp_call h server name args w)))
          \<and> (\<forall>server. I (sh_mcp_shutdown h server w)))
     \<and> (\<forall>ms. I (sh_sleep h ms w)) \<and> I (snd (sh_uuid h w)) \<and> (\<forall>msg. I (sh_log h msg w)))"

lemma keepsD:
  assumes "keeps h s I" "I w"
  shows "may (sh_tilde h) s (Reads p) \<Longrightarrow> I (snd (sh_read h p w))"
    and "may (sh_tilde h) s (Reads p) \<Longrightarrow> I (snd (sh_read_dir h p w))"
    and "may (sh_tilde h) s (Writes p) \<Longrightarrow> I (snd (sh_write h p body w))"
    and "may (sh_tilde h) s (Writes p) \<Longrightarrow> I (snd (sh_write_all h p body w))"
    and "may (sh_tilde h) s (Writes p) \<Longrightarrow> I (snd (sh_create_dir_all h p w))"
    and "may (sh_tilde h) s (Writes p) \<Longrightarrow> I (snd (sh_remove_dir_all h p w))"
    and "may (sh_tilde h) s (Writes p) \<Longrightarrow> I (snd (sh_remove_file h p w))"
    and "may (sh_tilde h) s (Writes p) \<Longrightarrow> I (snd (sh_create_new h p w))"
    and "may (sh_tilde h) s Fetches \<Longrightarrow> I (snd (sh_fetch h url w))"
    and "may (sh_tilde h) s (Executes cmd dir) \<Longrightarrow>
      I (snd (run_sandboxed_command (sh_platform h) (sh_runner h) (hd cmd) (tl cmd) dir env (ss_policy s) w))"
    and "may (sh_tilde h) s (Sends m) \<Longrightarrow> I (snd (sh_push h m w))"
    and "may (sh_tilde h) s (Schedules script) \<Longrightarrow> I (snd (sh_register_job h name cron script w))"
    and "may (sh_tilde h) s Serves \<Longrightarrow> I (sh_mcp_initialize h configs w)"
    and "may (sh_tilde h) s Serves \<Longrightarrow> I (snd (sh_mcp_ensure h server w))"
    and "may (sh_tilde h) s Serves \<Longrightarrow> I (snd (sh_mcp_list_tools h server w))"
    and "may (sh_tilde h) s Serves \<Longrightarrow> I (snd (sh_mcp_call h server name args w))"
    and "may (sh_tilde h) s Serves \<Longrightarrow> I (sh_mcp_shutdown h srv w)"
    and "I (sh_sleep h ms w)" and "I (snd (sh_uuid h w))" and "I (sh_log h msg w)"
  using assms by (simp_all add: keeps_def del: may.simps)

lemma check_script_path_may:
  "check_script_path tild p (cap_read (ss_capabilities s)) s = Inr q \<Longrightarrow> may tild s (Reads q) \<and> q = script_path tild s p"
  "check_script_path tild p (cap_write (ss_capabilities s)) s = Inr q \<Longrightarrow> may tild s (Writes q) \<and> q = script_path tild s p"
  by (auto simp: check_script_path_def Let_def below_def list_ex_iff split: if_splits dest: prefix_place)

lemma snd_results [simp]:
  "snd (os_result r) = snd r" "snd (other_result r) = snd r" "snd (value_of f v) = snd v"
  by (simp_all add: os_result_def other_result_def value_of_def)

lemma exec_verdict_may:
  "exec_verdict h s cmd opts w = Inr () \<Longrightarrow> may (sh_tilde h) s (Executes cmd dir)"
  using check_command_passed [of "sh_canonicalize h w" "sh_is_match h" "ss_safety_policy s" cmd "map_option components (xo_cwd opts)"]
  by (auto simp: exec_verdict_def split: if_splits sum.splits command_safety.splits)

lemma file_ops_keep:
  assumes "keeps h s I" "I w"
  shows "I (snd (op_read_file h s p w))" "I (snd (op_write_file h s p body w))" "I (snd (op_fs_mkdir h s p w))"
    "I (snd (op_fs_remove h s p w))" "I (snd (op_fs_read_dir h s p w))"
  using assms by (auto simp: op_read_file_def op_write_file_def op_fs_mkdir_def op_fs_remove_def op_fs_read_dir_def
    keepsD simp del: may.simps split: sum.split dest!: check_script_path_may)

lemma op_write_file_exclusive_keeps:
  assumes "keeps h s I" "I w"
  shows "I (snd (op_write_file_exclusive h s p body w))"
proof (cases "check_script_path (sh_tilde h) p (cap_write (ss_capabilities s)) s")
  case (Inr q)
  then have m: "may (sh_tilde h) s (Writes q)" by (blast dest: check_script_path_may)
  have "I (snd (sh_create_new h q w))" by (rule keepsD(8) [OF assms m])
  then show ?thesis
    using Inr keepsD(4) [OF assms(1) _ m]
    by (cases "sh_create_new h q w") (auto simp: op_write_file_exclusive_def simp del: may.simps split: sum.split)
qed (simp add: op_write_file_exclusive_def assms)

lemma service_ops_keep:
  assumes "keeps h s I" "I w"
  shows "I (snd (op_fetch h s url w))" "I (snd (op_zier_ingress_push h s payload source w))"
    "I (snd (op_zier_scheduler_register h s name cron script w))"
    "I (snd (op_zier_mcp_initialize h s configs w))" "I (snd (op_zier_mcp_ensure_server h s server w))"
    "I (snd (op_zier_mcp_list_tools h s server w))" "I (snd (op_zier_mcp_call h s server tool args w))"
    "I (snd (op_zier_mcp_shutdown h s srv w))"
proof -
  show "I (snd (op_zier_ingress_push h s payload source w))"
    using assms keepsD(11) [OF assms(1) keepsD(19) [OF assms]]
    by (auto simp: op_zier_ingress_push_def Let_def ingress_new_def split: prod.split)
  show "I (snd (op_zier_scheduler_register h s name cron script w))"
    using assms by (auto simp: op_zier_scheduler_register_def keepsD(12) split: sum.split dest!: check_script_path_may)
  show "I (snd (op_fetch h s url w))" using assms by (simp add: op_fetch_def keepsD(9))
qed (use assms in \<open>simp_all add: op_zier_mcp_initialize_def op_zier_mcp_ensure_server_def op_zier_mcp_list_tools_def
  op_zier_mcp_call_def op_zier_mcp_shutdown_def keepsD\<close>)

lemma op_zier_exec_keeps:
  assumes "keeps h s I" "I w"
  shows "I (snd (op_zier_exec h s cmd opts w))"
proof (cases "bind_res (exec_verdict h s cmd opts w) (\<lambda>_. merged_env (sh_to_uppercase h) (sh_vars h w) (xo_env opts))")
  case (Inr env)
  then have "exec_verdict h s cmd opts w = Inr ()" by (cases "exec_verdict h s cmd opts w") auto
  from keepsD(10) [OF assms exec_verdict_may [OF this]] Inr show ?thesis
    by (simp add: op_zier_exec_def del: may.simps)
qed (simp add: op_zier_exec_def assms)

lemma run_op_keeps:
  assumes "keeps h s I" "I w"
  shows "I (snd (snd (run_op h oper (s, w))))
    \<and> (\<exists>ts. fst (snd (run_op h oper (s, w))) = s\<lparr>ss_registered_tools := ts\<rparr>)"
proof -
  have s: "\<exists>ts. s = s\<lparr>ss_registered_tools := ts\<rparr>" by (rule exI [of _ "ss_registered_tools s"]) simp
  show ?thesis
    by (cases oper) (use s assms in \<open>simp_all add: file_ops_keep op_write_file_exclusive_keeps service_ops_keep op_zier_exec_keeps
      keepsD(18-20) op_register_tool_def del: may.simps\<close>, blast)
qed

lemma may_registered: "may tild (s\<lparr>ss_registered_tools := ts\<rparr>) a \<longleftrightarrow> may tild s a"
  by (cases a) (simp_all add: script_path_def Let_def)

lemma keeps_registered: "keeps h (s\<lparr>ss_registered_tools := ts\<rparr>) I \<longleftrightarrow> keeps h s I"
  unfolding keeps_def may_registered by simp

lemma run_ops_keep:
  "keeps h s I \<Longrightarrow> I w \<Longrightarrow> run_ops h ops (s, w) = (s', w') \<Longrightarrow> I w' \<and> (\<exists>ts. s' = s\<lparr>ss_registered_tools := ts\<rparr>)"
proof (induction ops arbitrary: s w)
  case Nil
  then show ?case by (auto simp: run_ops_def intro: exI [of _ "ss_registered_tools s"])
next
  case (Cons oper ops)
  obtain r s1 w1 where o: "run_op h oper (s, w) = (r, s1, w1)" by (cases "run_op h oper (s, w)") auto
  with run_op_keeps [OF Cons.prems(1,2), of oper] obtain ts where s1: "s1 = s\<lparr>ss_registered_tools := ts\<rparr>" and w1: "I w1"
    by auto
  have "run_ops h ops (s1, w1) = (s', w')" using Cons.prems(3) o by (simp add: run_ops_def)
  with Cons.IH [of s1 w1] Cons.prems(1) w1 s1 keeps_registered obtain ts' where "I w'" "s' = s1\<lparr>ss_registered_tools := ts'\<rparr>"
    by blast
  then show ?case using s1 by auto
qed

subsection \<open>Capabilities and the policy\<close>

definition beneath :: "path list \<Rightarrow> path \<Rightarrow> bool" where
  "beneath roots p \<longleftrightarrow> list_ex (\<lambda>r. prefix r p) roots"

lemma outside_None: "outside roots ps = None \<longleftrightarrow> list_all (beneath roots) ps"
  by (auto simp: outside_def beneath_def find_None_iff list_all_iff)

lemma beneath_trans:
  assumes "list_all (beneath roots) ps" "beneath ps p"
  shows "beneath roots p"
proof -
  from assms(2) obtain q where "q \<in> set ps" "prefix q p" by (auto simp: beneath_def list_ex_iff)
  moreover from assms(1) this(1) obtain r where "r \<in> set roots" "prefix r q"
    by (auto simp: beneath_def list_ex_iff list_all_iff)
  ultimately show ?thesis by (auto simp: beneath_def list_ex_iff intro: prefix_order.order_trans)
qed

definition within_policy :: "(string \<Rightarrow> string) \<Rightarrow> sandbox_state \<Rightarrow> bool" where
  "within_policy tild s \<longleftrightarrow>
     list_all (beneath (policy_roots tild (allow_read (ss_policy s)))) (cap_read (ss_capabilities s))
     \<and> list_all (beneath (policy_roots tild (allow_write (ss_policy s)))) (cap_write (ss_capabilities s))
     \<and> (cap_net (ss_capabilities s) \<longrightarrow> allow_network (ss_policy s))
     \<and> (cap_env (ss_capabilities s) \<longrightarrow> allow_env (ss_policy s))"

lemma deno_new_within: "within_policy tild (deno_new tild pol ws pd strat bus sched mcp config)"
  by (auto simp: within_policy_def deno_new_def policy_capabilities_def list_all_iff beneath_def list_ex_iff)

lemma adopt_within:
  "adopt_capabilities tild code s = Inr s' \<Longrightarrow> within_policy tild s \<Longrightarrow>
   within_policy tild s'
   \<and> s' = s\<lparr>ss_capabilities := (if contains code ''// @capability'' then parse_capabilities tild code (ss_project_dir s)
                              else ss_capabilities s)\<rparr>"
  by (auto simp: adopt_capabilities_def Let_def within_policy_def outside_None split: if_splits option.splits)

text \<open>A host whose world is the list of the files written.\<close>

definition sample_host :: "path list script_host" where
  "sample_host =
     \<lparr>sh_tilde = (\<lambda>s. s), sh_canonicalize = (\<lambda>w p. None), sh_is_match = (\<lambda>r s. False), sh_to_uppercase = (\<lambda>s. s),
      sh_read = (\<lambda>p w. (Inr [], w)), sh_write = (\<lambda>p body w. (Inr (), w @ [p])), sh_create_dir_all = (\<lambda>p w. (Inr (), w)),
      sh_is_dir = (\<lambda>p w. False), sh_remove_dir_all = (\<lambda>p w. (Inr (), w)), sh_remove_file = (\<lambda>p w. (Inr (), w)),
      sh_read_dir = (\<lambda>p w. (Inr [], w)), sh_create_new = (\<lambda>p w. (Inr (), w)), sh_write_all = (\<lambda>p body w. (Inr (), w)),
      sh_sleep = (\<lambda>ms w. w), sh_uuid = (\<lambda>w. (''u'', w)), sh_now = (\<lambda>w. 0), sh_vars = (\<lambda>w. [(''LANG'', ''C'')]),
      sh_temp_dir = ''/tmp'', sh_home_dir = None, sh_fetch = (\<lambda>url w. (Inl ''offline'', w)), sh_log = (\<lambda>msg w. w),
      sh_platform = Linux,
      sh_runner = \<lparr>rh_tilde = (\<lambda>s. s), rh_exists = (\<lambda>p w. True), rh_output = (\<lambda>i w. (Inl (Msg ''none''), w)),
        rh_temp_file = (\<lambda>w. (Inl (Msg ''none''), w)), rh_write = (\<lambda>p s w. (Inr (), w)), rh_remove = (\<lambda>p w. w)\<rparr>,
      sh_show_error = (\<lambda>e. []), sh_push = (\<lambda>m w. (Inr (), w)), sh_register_job = (\<lambda>n c p w. (Inr (), w)),
      sh_mcp_initialize = (\<lambda>cs w. w), sh_mcp_ensure = (\<lambda>n w. (Inr (), w)), sh_mcp_list_tools = (\<lambda>n w. (Inr [], w)),
      sh_mcp_call = (\<lambda>n t a w. (Inr JNull, w)), sh_mcp_shutdown = (\<lambda>n w. w), sh_config_json = (\<lambda>c. None)\<rparr>"

definition sample_code :: string where
  "sample_code = ''// @capability write=/p/out'' @ nl @ ''run();''"

definition sample_runtime :: sandbox_state where
  "sample_runtime = (deno_new id \<lparr>allow_network = False, allow_read = [], allow_write = [''/p''], allow_env = False,
      enable_os_sandbox = True\<rparr> (components ''/w'') (components ''/p'') Overlay True True True None)
     \<lparr>ss_capabilities := \<lparr>cap_read = [], cap_write = [components ''/p/out''], cap_net = False, cap_env = False,
        cap_exec = False\<rparr>\<rparr>"

lemma sample_adopted:
  "adopt_capabilities (sh_tilde sample_host) sample_code (deno_new (sh_tilde sample_host) \<lparr>allow_network = False, allow_read = [],
      allow_write = [''/p''], allow_env = False, enable_os_sandbox = True\<rparr> (components ''/w'') (components ''/p'') Overlay
      True True True None) = Inr sample_runtime"
proof -
  have c: "contains sample_code ''// @capability''"
    unfolding contains_def sample_code_def by (simp add: sublist_Cons_right)
  have p: "parse_capabilities id sample_code (components ''/p'') = \<lparr>cap_read = [], cap_write = [components ''/p/out''],
      cap_net = False, cap_env = False, cap_exec = False\<rparr>"
    by code_simp
  have t: "sh_tilde sample_host = id" by (simp add: sample_host_def id_def)
  show ?thesis
    unfolding adopt_capabilities_def t sample_runtime_def
    using c p by (simp add: deno_new_def outside_def policy_roots_def components_def component_of_def id_def)
qed

subsection \<open>Ways around the capabilities\<close>

text \<open>The check reads the components of a path and not where they lead: with enough steps up, every place of the file
  system lies below every root.\<close>

definition climb :: "path \<Rightarrow> string list \<Rightarrow> path" where
  "climb base target = base @ replicate (length base) ParentDir @ map Normal target"

lemma walk_names: "walk loc (map Normal ns) = loc @ map Normal ns"
  by (induction ns arbitrary: loc) auto

lemma climb_path:
  assumes "canonical base" "list_all normal_name target"
  shows "wf_path (climb base target)" "is_absolute (climb base target)" "prefix base (climb base target)"
    "walk [] (climb base target) = RootDir # map Normal target"
proof -
  obtain cs where cs: "base = RootDir # cs" "list_all normal cs" using assms(1) by (auto simp: canonical_def)
  show "wf_path (climb base target)"
    using assms(2) cs by (auto simp: climb_def wf_path_def list_all_iff)
  show "is_absolute (climb base target)" using cs by (simp add: climb_def is_absolute_def)
  show "prefix base (climb base target)" by (simp add: climb_def)
  have "walk [] (climb base target) = walk (RootDir # cs) (replicate (length cs + 1) ParentDir @ map Normal target)"
    using walk_canonical [OF assms(1)] cs by (simp add: climb_def)
  also have "\<dots> = RootDir # map Normal target" by (subst walk_up) (simp add: walk_names)
  finally show "walk [] (climb base target) = RootDir # map Normal target" .
qed

lemma script_path_climbs:
  assumes "canonical base" "list_all normal_name target" "base \<in> set roots"
    and "tild (display (climb base target)) = display (climb base target)"
  shows "check_script_path tild (display (climb base target)) roots s = Inr (climb base target)
    \<and> walk [] (climb base target) = RootDir # map Normal target"
proof -
  let ?p = "climb base target"
  note c = climb_path [OF assms(1,2)]
  have "script_path tild s (display ?p) = ?p"
    using assms(4) c by (simp add: script_path_def resolve_path_def components_display)
  then show ?thesis using c assms(3) by (auto simp: check_script_path_def list_ex_iff Let_def)
qed

lemma below_policy:
  assumes "list_all (beneath roots) caps" "below caps p"
  shows "below roots p"
proof -
  obtain q where q: "q \<in> set caps" "plain q" "prefix (walk [] q) (walk [] p)"
    using assms(2) by (auto simp: below_def list_ex_iff)
  then obtain r where r: "r \<in> set roots" "prefix r q" using assms(1) by (auto simp: beneath_def list_ex_iff list_all_iff)
  from prefix_place [OF r(2) q(2)] have "plain r" "prefix (walk [] r) (walk [] p)"
    using q(3) by (auto intro: prefix_order.order_trans)
  with r(1) show ?thesis by (auto simp: below_def list_ex_iff)
qed

text \<open>C21: What holds a script back, and what does not. After loading, whatever operations it calls in whatever order, every
  property of the world survives that the permitted accesses keep: files whose path has no step up only where it
  leads below a root of the capabilities, and these roots lie below those of the policy; the network, which the
  policy must give too; commands without chaining; trusted events; jobs. Nothing but the list of tools changes in the
  state of the runtime, and what the code declares replaces what the policy gives. Not held back are paths with a step
  up, by which a script with any place to write writes to every file, and the servers of the MCP manager, which need
  no capability.\<close>

theorem script_confined:
  assumes "adopt_capabilities (sh_tilde h) code (deno_new (sh_tilde h) pol ws pd strat bus sched mcp config) = Inr s"
    and "keeps h s I" "I w" "run_ops h ops (s, w) = (s', w')"
  shows "I w' \<and> (\<exists>ts. s' = s\<lparr>ss_registered_tools := ts\<rparr>)
    \<and> (\<forall>p. (plain p \<and> may (sh_tilde h) s (Reads p) \<longrightarrow> below (policy_roots (sh_tilde h) (allow_read pol)) p)
        \<and> (plain p \<and> may (sh_tilde h) s (Writes p) \<longrightarrow> below (policy_roots (sh_tilde h) (allow_write pol)) p))
    \<and> (may (sh_tilde h) s Fetches \<longrightarrow> allow_network pol)
    \<and> ((\<exists>key v. op_env_get h s key w = Some v) \<longrightarrow> allow_env pol)
    \<and> (contains code ''// @capability'' \<longrightarrow> ss_capabilities s = parse_capabilities (sh_tilde h) code pd)
    \<and> (canonical base \<and> base \<in> set (cap_write (ss_capabilities s)) \<and> list_all normal_name target
        \<and> sh_tilde h (display (climb base target)) = display (climb base target) \<longrightarrow>
        walk [] (climb base target) = RootDir # map Normal target
        \<and> snd (snd (run_op h (WriteFile (display (climb base target)) body) (s, w))) = snd (sh_write h (climb base target) body w))
    \<and> (mcp \<longrightarrow> snd (snd (run_op h (McpEnsureServer server) (s, w))) = snd (sh_mcp_ensure h server w))"
proof -
  let ?s0 = "deno_new (sh_tilde h) pol ws pd strat bus sched mcp config"
  have a: "within_policy (sh_tilde h) s"
    and s: "s = ?s0\<lparr>ss_capabilities := (if contains code ''// @capability''
      then parse_capabilities (sh_tilde h) code (ss_project_dir ?s0) else ss_capabilities ?s0)\<rparr>"
    using adopt_within [OF assms(1) deno_new_within] by blast+
  have p: "ss_policy s = pol" "ss_project_dir ?s0 = pd"
    by (subst s) (simp_all add: deno_new_def)
  have m: "ss_mcp_manager s = mcp" by (subst s) (simp add: deno_new_def)
  have c: "contains code ''// @capability'' \<longrightarrow> ss_capabilities s = parse_capabilities (sh_tilde h) code pd"
    by (subst s) (simp add: p(2))
  have "plain q \<and> may (sh_tilde h) s (Reads q) \<longrightarrow> below (policy_roots (sh_tilde h) (allow_read pol)) q"
    "plain q \<and> may (sh_tilde h) s (Writes q) \<longrightarrow> below (policy_roots (sh_tilde h) (allow_write pol)) q" for q
    using a p(1) by (auto simp: within_policy_def intro: below_policy)
  moreover have "(\<exists>key v. op_env_get h s key w = Some v) \<longrightarrow> allow_env pol" "may (sh_tilde h) s Fetches \<longrightarrow> allow_network pol"
    using a p(1) by (auto simp: within_policy_def op_env_get_def split: if_splits)
  moreover have "canonical base \<and> base \<in> set (cap_write (ss_capabilities s)) \<and> list_all normal_name target
      \<and> sh_tilde h (display (climb base target)) = display (climb base target) \<longrightarrow>
      walk [] (climb base target) = RootDir # map Normal target
      \<and> snd (snd (run_op h (WriteFile (display (climb base target)) body) (s, w))) = snd (sh_write h (climb base target) body w)"
    using script_path_climbs [of base target "cap_write (ss_capabilities s)" "sh_tilde h" s]
    by (simp add: op_write_file_def)
  moreover have "mcp \<longrightarrow> snd (snd (run_op h (McpEnsureServer server) (s, w))) = snd (sh_mcp_ensure h server w)"
    by (simp add: op_zier_mcp_ensure_server_def m)
  ultimately show ?thesis using run_ops_keep [OF assms(2-4)] c by blast
qed

definition sample_roots :: "path list \<Rightarrow> bool" where
  "sample_roots w \<longleftrightarrow> list_all (\<lambda>p. plain p \<longrightarrow> below [components ''/p/out''] p) w"

lemma sample_keeps: "keeps sample_host sample_runtime sample_roots"
proof -
  have r: "snd (run_sandboxed_command (sh_platform sample_host) (sh_runner sample_host) c args d env (ss_policy sample_runtime) w) = w"
    for c args d env w
    by (simp add: run_sandboxed_command_def run_linux_def has_bwrap_def run_context_def sample_host_def sample_runtime_def
      deno_new_def split: prod.split)
  have e: "\<not> cap_exec (ss_capabilities sample_runtime)" by (simp add: sample_runtime_def)
  show ?thesis
    unfolding keeps_def r
    by (simp add: sample_host_def sample_roots_def sample_runtime_def)
qed

theorem script_confined_witness:
  "snd (run_ops sample_host [WriteFile ''/p/out/x'' ''1'', WriteFile ''/etc/x'' ''2''] (sample_runtime, []))
     = [components ''/p/out/x'']
   \<and> sample_roots (snd (run_ops sample_host [WriteFile ''/p/out/x'' ''1'', WriteFile ''/etc/x'' ''2''] (sample_runtime, [])))"
proof -
  let ?ops = "[WriteFile ''/p/out/x'' ''1'', WriteFile ''/etc/x'' ''2'']"
  obtain s' w' where o: "run_ops sample_host ?ops (sample_runtime, []) = (s', w')" by fastforce
  have "sample_roots []" by (simp add: sample_roots_def)
  from script_confined [OF sample_adopted sample_keeps this o] have "sample_roots w'" by blast
  moreover have "snd (run_ops sample_host ?ops (sample_runtime, [])) = [components ''/p/out/x'']"
    by (simp add: run_ops_def op_write_file_def check_script_path_def script_path_def resolve_path_def components_def
      component_of_def is_absolute_def sample_host_def sample_runtime_def deno_new_def os_result_def value_of_def)
  ultimately show ?thesis using o by simp
qed

text \<open>A command gets all variables of the program, whatever the capability \<open>env\<close> says; of the variables that may not be
  set, those of the program are passed on.\<close>

lemma exec_environment:
  "merged_env up vars overrides = Inr env \<Longrightarrow> key \<notin> fst ` set (unwrap_or overrides []) \<Longrightarrow>
   map_of env key = map_of vars key"
proof -
  have f: "map_of (fold (\<lambda>(k, v). put k v) kvs m) key = map_of m key" if "key \<notin> fst ` set kvs"
    for kvs m using that by (induction kvs arbitrary: m) auto
  assume "merged_env up vars overrides = Inr env" "key \<notin> fst ` set (unwrap_or overrides [])"
  then show ?thesis by (auto simp: merged_env_def f split: option.splits)
qed

text \<open>C22: A script that may write can have everything the policy gives, commands included, although it declared less. It
  writes a script that declares nothing and sends a message that asks to run it: the message counts as a trusted event,
  the handler loads the file it names, and a script without declarations runs with all capabilities of the
  policy and may execute commands. No check of the path stands in the way, as it does for jobs.\<close>

theorem script_escalates:
  assumes "check_script_path (sh_tilde h) p (cap_write (ss_capabilities s)) s = Inr q" and "ss_ingress_bus s"
    and "sh_write h q body w = (Inr (), w1)" and "\<not> contains body ''// @capability''"
    and "\<not> prefix ''EXECUTE_SCRIPT: '' p"
  shows "let m = ingress_new (fst (sh_uuid h w1)) (sh_now h (snd (sh_uuid h w1))) source (''EXECUTE_SCRIPT: '' @ p) TrustedEvent;
      fresh = deno_new (sh_tilde h) pol ws pd strat bus sched mcp config in
    run_ops h [WriteFile p body, IngressPush (''EXECUTE_SCRIPT: '' @ p) source] (s, w)
      = (s, snd (sh_push h m (snd (sh_uuid h w1))))
    \<and> trusted_event v m a st = Some (with_world (iv_load_script v p) st)
    \<and> adopt_capabilities (sh_tilde h) body fresh = Inr fresh
    \<and> ss_capabilities fresh = policy_capabilities (sh_tilde h) pol \<and> cap_exec (ss_capabilities fresh)"
proof -
  have t: "trim_start_matches (''EXECUTE_SCRIPT: '' @ p) ''EXECUTE_SCRIPT: '' = p"
    using assms(5) by (subst trim_start_matches.simps, simp) (subst trim_start_matches.simps, simp)
  have "starts_with (''EXECUTE_SCRIPT: '' @ p) ''EXECUTE_SCRIPT: ''" by (simp add: starts_with_def)
  with t show ?thesis
    using assms(1-4)
    by (simp add: Let_def run_ops_def op_write_file_def op_zier_ingress_push_def case_prod_beta trusted_event_def
      ingress_new_def adopt_capabilities_def deno_new_def policy_capabilities_def os_result_def)
qed

theorem script_escalates_witness:
  "snd (run_ops sample_host [WriteFile ''/p/out/x.js'' ''run();'', IngressPush (''EXECUTE_SCRIPT: '' @ ''/p/out/x.js'') ''script'']
      (sample_runtime, [])) = [components ''/p/out/x.js'']
   \<and> \<not> cap_exec (ss_capabilities sample_runtime)
   \<and> cap_exec (ss_capabilities (deno_new id (ss_policy sample_runtime) [] [] Overlay True True True None))"
proof -
  have c: "check_script_path (sh_tilde sample_host) ''/p/out/x.js'' (cap_write (ss_capabilities sample_runtime)) sample_runtime
      = Inr (components ''/p/out/x.js'')"
    by (simp add: check_script_path_def script_path_def resolve_path_def components_def component_of_def is_absolute_def
      sample_host_def sample_runtime_def deno_new_def)
  have b: "ss_ingress_bus sample_runtime" by (simp add: sample_runtime_def deno_new_def)
  have w: "sh_write sample_host (components ''/p/out/x.js'') ''run();'' [] = (Inr (), [components ''/p/out/x.js''])"
    by (simp add: sample_host_def)
  have d: "\<not> contains ''run();'' ''// @capability''" by (simp add: contains_def sublist_Cons_right)
  have p: "\<not> prefix ''EXECUTE_SCRIPT: '' ''/p/out/x.js''" by simp
  have t: "sh_tilde sample_host = id" by (simp add: sample_host_def id_def)
  have n: "\<not> cap_exec (ss_capabilities sample_runtime)" by (simp add: sample_runtime_def)
  have u: "snd (sh_push sample_host m x) = x" "snd (sh_uuid sample_host x) = x" for m x by (simp_all add: sample_host_def)
  have e: "run_ops sample_host [WriteFile ''/p/out/x.js'' ''run();'', IngressPush (''EXECUTE_SCRIPT: '' @ ''/p/out/x.js'') ''script'']
      (sample_runtime, []) = (sample_runtime, [components ''/p/out/x.js''])"
    "cap_exec (ss_capabilities (deno_new id (ss_policy sample_runtime) [] [] Overlay True True True None))"
    using script_escalates [OF c b w d p, of "''script''" "ss_policy sample_runtime" "[]" "[]" Overlay True True True None
        undefined undefined undefined]
    unfolding t Let_def u by blast+
  with n show ?thesis by simp
qed

subsection \<open>Calls from outside\<close>

text \<open>The arguments of a tool are put into the code as they are, so what follows a closing bracket is code.\<close>

lemma tool_call_code_injects:
  "tool_call_code name (''{}); '' @ js @ ''//'') = tool_call_code name ''{}'' @ ''; '' @ js @ ''//)''"
  by (simp add: tool_call_code_def)

text \<open>A promise nobody settles keeps the thread of its extension busy for ever.\<close>

lemma await_promise_induct [consumes 1, case_names step]:
  assumes "await_promise e p j = Some y"
    and "\<And>aw e p j y. (\<And>e p j y. aw e p j = Some y \<Longrightarrow> P e p j y) \<Longrightarrow>
      (case js_promise e p j of
        Inl err \<Rightarrow> Some (Inl err, j)
      | Inr (Fulfilled v) \<Rightarrow> Some (Inr v, j)
      | Inr (Rejected msg) \<Rightarrow> Some (Inl (Msg (''Promise rejected: '' @ msg)), j)
      | Inr Pending \<Rightarrow>
          (case js_event_loop e j of
             (Inl err, j1) \<Rightarrow> Some (Inl err, j1)
           | (Inr _, j1) \<Rightarrow> aw e p j1)) = Some y \<Longrightarrow> P e p j y"
  shows "P e p j y"
  using assms(2,1) by (rule await_promise.raw_induct)

lemma await_promise_stuck:
  assumes "js_promise e p j = Inr Pending" and "js_event_loop e j = (Inr (), j)"
  shows "await_promise e p j = None"
proof -
  have "e' = e \<and> p' = p \<and> j' = j \<Longrightarrow> False" if "await_promise e' p' j' = Some y" for e' p' j' y
    using that
  proof (induction rule: await_promise_induct)
    case (step aw e' p' j' y)
    from step(2,3) assms have "aw e p j = Some y" by simp
    from step(1) [OF this] show ?case by simp
  qed
  then show ?thesis by (cases "await_promise e p j") auto
qed

end
