(* ===== verification/Script_Service.thy ===== *)
theory Script_Service
  imports Script_Host Disk_Monitor
begin

text \<open>
  The extensions the program keeps running (\<^verbatim>\<open>src/src/scripting/service.rs\<close>), how a directory of them is loaded
  (\<^verbatim>\<open>src/src/scripting/loader.rs\<close>), the tools they offer (\<^verbatim>\<open>src/src/agent/tools/script.rs\<close>) and the tool that looks at
  and controls the daemon (\<^verbatim>\<open>src/src/agent/tools/system.rs\<close>).

  Every extension has a thread with a runtime and a channel of commands. The thread takes one command after the
  other, and the service sends one and waits for the answer, so an extension is the state \<open>'r\<close> of its runtime, or
  \<open>None\<close> once its thread has ended. What a runtime does with a command is \<open>isolate_host\<close>; \<open>None\<close> there is a thread that
  ends instead of answering. Calls that never return and calls of the service that overlap are not modelled.
\<close>

subsection \<open>State\<close>

type_synonym parent_context = "string option \<times> string list option \<times> string option"

record 'r isolate_host =
  ih_new :: "string \<Rightarrow> 'r option"
  ih_execute_script :: "string \<Rightarrow> 'r \<Rightarrow> ((anyhow_error, unit) res \<times> 'r) option"
  ih_execute_tool :: "string \<Rightarrow> string \<Rightarrow> 'r \<Rightarrow> ((anyhow_error, string) res \<times> 'r) option"
  ih_tools :: "'r \<Rightarrow> tool_definition list"
  ih_get_status :: "'r \<Rightarrow> ((anyhow_error, string list) res \<times> 'r) option"
  ih_evaluate_generator :: "string \<Rightarrow> json \<Rightarrow> 'r \<Rightarrow> ((anyhow_error, string) res \<times> 'r) option"
  ih_set_parent_context :: "parent_context \<Rightarrow> string option \<Rightarrow> 'r \<Rightarrow> 'r"
  ih_show_error :: "anyhow_error \<Rightarrow> string"

record 'r extension_service =
  sc_extensions :: "(string \<times> 'r option) list"
  sc_tool_map :: "(string \<times> string) list"
  sc_agent_id :: string
  sc_parent :: parent_context

definition service_new :: "string \<Rightarrow> 'r extension_service" where
  "service_new agent_id = \<lparr>sc_extensions = [], sc_tool_map = [], sc_agent_id = agent_id, sc_parent = (None, None, None)\<rparr>"

subsection \<open>Loading\<close>

text \<open>The thread: a runtime is made and the script run; a script that fails leaves a runtime behind.\<close>

definition spawn_extension :: "'r isolate_host \<Rightarrow> string \<Rightarrow> 'r option" where
  "spawn_extension h p =
     Option.bind (ih_new h p) (\<lambda>r. map_option snd (ih_execute_script h p r))"

definition channel_closed :: anyhow_error where
  "channel_closed = Msg ''channel closed''"

definition service_load_script :: "'r isolate_host \<Rightarrow> string \<Rightarrow> 'r extension_service \<Rightarrow> (anyhow_error, unit) res \<times> 'r extension_service" where
  "service_load_script h p sv =
     (let handle = map_option (ih_set_parent_context h (sc_parent sv) (Some (sc_agent_id sv))) (spawn_extension h p);
          sv1 = sv\<lparr>sc_extensions := put p handle (sc_extensions sv)\<rparr>
      in case handle of
           None \<Rightarrow> (Inl channel_closed, sv1)
         | Some r \<Rightarrow> (Inr (), sv1\<lparr>sc_tool_map := fold (\<lambda>d. put (td_name d) p) (ih_tools h r) (sc_tool_map sv1)\<rparr>))"

definition reload_extension :: "'r isolate_host \<Rightarrow> string \<Rightarrow> 'r extension_service \<Rightarrow> (anyhow_error, unit) res \<times> 'r extension_service" where
  "reload_extension = service_load_script"

definition remove_extension :: "string \<Rightarrow> 'r extension_service \<Rightarrow> 'r extension_service" where
  "remove_extension p sv =
     sv\<lparr>sc_extensions := without p (sc_extensions sv),
        sc_tool_map := filter (\<lambda>(n, q). q \<noteq> p) (sc_tool_map sv)\<rparr>"

definition put_runtime :: "string \<Rightarrow> 'r option \<Rightarrow> 'r extension_service \<Rightarrow> 'r extension_service" where
  "put_runtime p r sv = sv\<lparr>sc_extensions := put p r (sc_extensions sv)\<rparr>"

subsection \<open>Commands\<close>

definition service_execute_tool ::
  "'r isolate_host \<Rightarrow> string \<Rightarrow> string \<Rightarrow> 'r extension_service \<Rightarrow> (anyhow_error, string) res \<times> 'r extension_service" where
  "service_execute_tool h name args sv =
     (case Option.bind (map_of (sc_tool_map sv) name)
             (\<lambda>p. map_option (Pair p) (map_of (sc_extensions sv) p)) of
        None \<Rightarrow> (Inl (Msg (''Tool not found or extension not loaded: '' @ name)), sv)
      | Some (p, None) \<Rightarrow> (Inl (Msg (''Extension crashed and was removed: '' @ p)), remove_extension p sv)
      | Some (p, Some r) \<Rightarrow>
          (case ih_execute_tool h name args r of
             None \<Rightarrow> (Inl (Msg (''Extension crashed during execution: '' @ p)), remove_extension p sv)
           | Some (result, r1) \<Rightarrow> (result, put_runtime p (Some r1) sv)))"

definition service_get_tools :: "'r isolate_host \<Rightarrow> 'r extension_service \<Rightarrow> tool_definition list" where
  "service_get_tools h sv =
     concat (map (\<lambda>(p, handle). case handle of None \<Rightarrow> [] | Some r \<Rightarrow> ih_tools h r) (sc_extensions sv))"

definition status_of :: "'r isolate_host \<Rightarrow> 'r option \<Rightarrow> string list \<times> 'r option" where
  "status_of h handle =
     (case handle of
        None \<Rightarrow> ([], None)
      | Some r \<Rightarrow>
          (case ih_get_status h r of
             None \<Rightarrow> ([], None)
           | Some (Inl e, r1) \<Rightarrow> ([], Some r1)
           | Some (Inr ls, r1) \<Rightarrow> (ls, Some r1)))"

definition get_status_lines :: "'r isolate_host \<Rightarrow> 'r extension_service \<Rightarrow> string list \<times> 'r extension_service" where
  "get_status_lines h sv =
     (concat (map (fst \<circ> status_of h \<circ> snd) (sc_extensions sv)),
      sv\<lparr>sc_extensions := map (apsnd (snd \<circ> status_of h)) (sc_extensions sv)\<rparr>)"

definition list_extensions :: "'r extension_service \<Rightarrow> string list" where
  "list_extensions sv = map fst (sc_extensions sv)"

definition service_set_parent_context ::
  "'r isolate_host \<Rightarrow> parent_context \<Rightarrow> string option \<Rightarrow> 'r extension_service \<Rightarrow> 'r extension_service" where
  "service_set_parent_context h ctx agent_id sv =
     sv\<lparr>sc_parent := ctx,
        sc_extensions := map (apsnd (map_option (ih_set_parent_context h ctx agent_id))) (sc_extensions sv)\<rparr>"

definition service_evaluate_generator ::
  "'r isolate_host \<Rightarrow> string \<Rightarrow> json \<Rightarrow> 'r extension_service \<Rightarrow> (anyhow_error, string) res \<times> 'r extension_service" where
  "service_evaluate_generator h p args sv =
     (case (if map_of (sc_extensions sv) p = None then service_load_script h p sv else (Inr (), sv)) of
        (Inl e, sv1) \<Rightarrow> (Inl e, sv1)
      | (Inr _, sv1) \<Rightarrow>
          (case map_of (sc_extensions sv1) p of
             None \<Rightarrow> (Inl (Msg (''Extension not found after loading: '' @ p)), sv1)
           | Some None \<Rightarrow> (Inl channel_closed, sv1)
           | Some (Some r) \<Rightarrow>
               (case ih_evaluate_generator h ''generateSystemPrompt'' args r of
                  None \<Rightarrow> (Inl (Msg ''Generator evaluation channel closed''), put_runtime p None sv1)
                | Some (Inr prompt, r1) \<Rightarrow> (Inr prompt, put_runtime p (Some r1) sv1)
                | Some (Inl e, r1) \<Rightarrow>
                    (Inl (Msg (''Generator evaluation error: '' @ ih_show_error h e)), put_runtime p (Some r1) sv1))))"

text \<open>The files of a directory: one that cannot be listed or loaded is passed over.\<close>

definition load_from_dir ::
  "'r isolate_host \<Rightarrow> bool \<Rightarrow> (anyhow_error, (string, string) res list) res \<Rightarrow> 'r extension_service
   \<Rightarrow> (anyhow_error, unit) res \<times> 'r extension_service" where
  "load_from_dir h dir_exists globbed sv =
     (if \<not> dir_exists then (Inr (), sv)
      else case globbed of
        Inl e \<Rightarrow> (Inl e, sv)
      | Inr entries \<Rightarrow>
          (Inr (), fold (\<lambda>entry sv. case entry of Inr p \<Rightarrow> snd (service_load_script h p sv) | Inl _ \<Rightarrow> sv) entries sv))"

subsection \<open>Tools of extensions\<close>

definition script_tool_schema :: "tool_definition \<Rightarrow> tool_schema" where
  "script_tool_schema d = \<lparr>ts_name = td_name d, ts_description = td_description d, ts_parameters = td_parameters d\<rparr>"

definition script_tool_execute ::
  "'r isolate_host \<Rightarrow> tool_definition \<Rightarrow> string \<Rightarrow> 'r extension_service \<Rightarrow> (anyhow_error, string) res \<times> 'r extension_service" where
  "script_tool_execute h d arguments sv = service_execute_tool h (td_name d) arguments sv"

subsection \<open>Looking at the daemon\<close>

text \<open>Starting a server when no other task is at work: the sections one after the other.\<close>

fun ensure_run :: "nat \<Rightarrow> (ensure_task \<Rightarrow> mcp_manager \<Rightarrow> ensure_task \<times> mcp_manager) \<Rightarrow> ensure_task \<Rightarrow> mcp_manager
   \<Rightarrow> (anyhow_error, unit) res \<times> mcp_manager" where
  "ensure_run k f (Ended r) m = (r, m)"
| "ensure_run 0 f t m = (Inl (Msg []), m)"
| "ensure_run (Suc k) f t m = (case f t m of (t1, m1) \<Rightarrow> ensure_run k f t1 m1)"

fun ensure_section ::
  "(nat \<Rightarrow> bool) \<Rightarrow> (mcp_server_config \<Rightarrow> bool) \<Rightarrow> handshake \<Rightarrow> ensure_task \<Rightarrow> mcp_manager \<Rightarrow> ensure_task \<times> mcp_manager" where
  "ensure_section unreadable starts hs (Looking name) m = ensure_look unreadable name m"
| "ensure_section unreadable starts hs (Stale name) m = ensure_remove_stale unreadable name m"
| "ensure_section unreadable starts hs (Spawning name) m = ensure_spawn starts name m"
| "ensure_section unreadable starts hs (Shaking name pid) m = ensure_shake hs name pid m"
| "ensure_section unreadable starts hs (Inserting name pid) m = ensure_insert name pid m"
| "ensure_section unreadable starts hs (Ended r) m = (Ended r, m)"

definition ensure_server ::
  "(nat \<Rightarrow> bool) \<Rightarrow> (mcp_server_config \<Rightarrow> bool) \<Rightarrow> handshake \<Rightarrow> string \<Rightarrow> mcp_manager \<Rightarrow> (anyhow_error, unit) res \<times> mcp_manager" where
  "ensure_server unreadable starts hs name m = ensure_run 5 (ensure_section unreadable starts hs) (Looking name) m"

record ('r, 'w) daemon =
  da_config :: config
  da_mcp :: mcp_manager
  da_service :: "'r extension_service"
  da_monitor :: disk_monitor
  da_world :: 'w

record ('r, 'w) daemon_host =
  dm_parse :: "string \<Rightarrow> (anyhow_error, json) res"
  dm_pretty :: "json \<Rightarrow> string"
  dm_version :: string
  dm_ensure :: "string \<Rightarrow> mcp_manager \<Rightarrow> (anyhow_error, unit) res \<times> mcp_manager"
  dm_isolates :: "'r isolate_host"
  dm_disk :: "'w disk_host"

definition system_status :: "('r, 'w) daemon_host \<Rightarrow> ('r, 'w) daemon \<Rightarrow> json" where
  "system_status h d =
     JObj [''version'' \<mapsto> JStr (dm_version h), ''degraded_mode'' \<mapsto> JBool (mon_degraded (da_monitor d)),
       ''server_enabled'' \<mapsto> JBool (sv_enabled (cf_server (da_config d))),
       ''heartbeat_enabled'' \<mapsto> JBool (hb_enabled (cf_heartbeat (da_config d)))]"

definition mcp_names :: "config \<Rightarrow> string list" where
  "mcp_names c = (case xn_mcp (cf_extensions c) of None \<Rightarrow> [] | Some m \<Rightarrow> map fst (mp_servers m))"

definition required :: "json \<Rightarrow> string \<Rightarrow> (anyhow_error, string) res" where
  "required args k = (case as_str (jindex args k) of Some s \<Rightarrow> Inr s | None \<Rightarrow> Inl (Msg (''Missing '' @ k)))"

definition restart_mcp :: "('r, 'w) daemon_host \<Rightarrow> string \<Rightarrow> ('r, 'w) daemon \<Rightarrow> (anyhow_error, string) res \<times> ('r, 'w) daemon" where
  "restart_mcp h server d =
     (case dm_ensure h server (shutdown (Some server) (da_mcp d)) of
        (r, m) \<Rightarrow> (map_sum id (\<lambda>_. ''Restarted MCP server: '' @ server) r, d\<lparr>da_mcp := m\<rparr>))"

definition system_introspect ::
  "('r, 'w) daemon_host \<Rightarrow> string \<Rightarrow> ('r, 'w) daemon \<Rightarrow> (anyhow_error, string) res \<times> ('r, 'w) daemon" where
  "system_introspect h arguments d =
     (case bind_res (dm_parse h arguments) (\<lambda>args. map_sum id (Pair args) (required args ''command'')) of
        Inl e \<Rightarrow> (Inl e, d)
      | Inr (args, command) \<Rightarrow>
          if command = ''status'' then (Inr (dm_pretty h (system_status h d)), d)
          else if command = ''mcp'' then (Inr (dm_pretty h (JArr (map JStr (mcp_names (da_config d))))), d)
          else if command = ''extensions''
          then (Inr (dm_pretty h (JArr (map JStr (list_extensions (da_service d))))), d)
          else if command = ''restart_mcp''
          then (case required args ''server'' of Inl e \<Rightarrow> (Inl e, d) | Inr server \<Rightarrow> restart_mcp h server d)
          else if command = ''reload_extension''
          then (case required args ''extension'' of
                  Inl e \<Rightarrow> (Inl e, d)
                | Inr ext \<Rightarrow>
                    (case reload_extension (dm_isolates h) ext (da_service d) of
                       (r, sv) \<Rightarrow> (map_sum id (\<lambda>_. ''Reloaded extension: '' @ ext) r, d\<lparr>da_service := sv\<rparr>)))
          else if command = ''cleanup_disk''
          then (case disk_cleanup (dm_disk h) (mon_config (da_monitor d)) (da_world d) of
                  (report_text, w) \<Rightarrow> (Inr report_text, d\<lparr>da_world := w\<rparr>))
          else (Inl (Msg (''Unknown command: '' @ command)), d))"

lemma ensure_run_step:
  "(\<forall>r. t \<noteq> Ended r) \<Longrightarrow> ensure_run (Suc k) f t m = (case f t m of (t1, m1) \<Rightarrow> ensure_run k f t1 m1)"
  by (cases t) simp_all

lemma run_inserting:
  "ensure_run (Suc k) (ensure_section u st hs) (Inserting name pid) m = (Inr (), snd (ensure_insert name pid m))"
  by (simp add: ensure_insert_def)

lemma run_shaking:
  "ensure_run (Suc (Suc k)) (ensure_section u st hs) (Shaking name pid) m =
     (case handshake_error hs of
        None \<Rightarrow> (Inr (), snd (ensure_insert name pid m))
      | Some e \<Rightarrow> (Inl (Msg e), kill_wait pid m))"
  using run_inserting [of k u st hs name pid m] by (simp add: ensure_run_step ensure_shake_def split: option.split)

definition started :: "(mcp_server_config \<Rightarrow> bool) \<Rightarrow> handshake \<Rightarrow> string \<Rightarrow> mcp_manager \<Rightarrow> (anyhow_error, unit) res \<times> mcp_manager" where
  "started st hs name m =
     (case map_of (mg_configs m) name of
        None \<Rightarrow> (Inl (Msg (''Server config not found: '' @ name)), m)
      | Some config \<Rightarrow>
          if \<not> st config then (Inl (Msg ''Failed to spawn MCP server process''), m)
          else let pid = length (mg_processes m); m1 = m\<lparr>mg_processes := mg_processes m @ [Alive]\<rparr> in
               case handshake_error hs of
                 None \<Rightarrow> (Inr (), snd (ensure_insert name pid m1))
               | Some e \<Rightarrow> (Inl (Msg e), kill_wait pid m1))"

lemma run_spawning: "ensure_run (Suc (Suc (Suc k))) (ensure_section u st hs) (Spawning name) m = started st hs name m"
  using run_shaking [of k u st hs name]
  by (simp add: ensure_run_step ensure_spawn_def started_def Let_def split: option.split)

lemma run_stale:
  "ensure_run (Suc (Suc (Suc (Suc k)))) (ensure_section u st hs) (Stale name) m =
   started st hs name (snd (ensure_remove_stale u name m))"
  by (simp add: ensure_run_step [of "Stale name"] ensure_remove_stale_def run_spawning del: ensure_run.simps)

lemma run_ended: "ensure_run k f (Ended r) m = (r, m)"
  by (cases k) simp_all

text \<open>Five sections are enough for a start that nothing disturbs; what comes out has no fuel in it.\<close>

lemma ensure_server_eq:
  "ensure_server u st hs name m =
     (case map_of (mg_servers m) name of
        None \<Rightarrow> started st hs name m
      | Some srv \<Rightarrow>
          if known_dead u m srv then started st hs name (m\<lparr>mg_servers := without name (mg_servers m)\<rparr>)
          else (Inr (), used_now name m))"
proof -
  have five: "(5 :: nat) = Suc (Suc (Suc (Suc (Suc 0))))" by simp
  show ?thesis
    unfolding ensure_server_def five
    by (simp add: ensure_run_step [of "Looking name"] ensure_look_def run_spawning run_stale run_ended ensure_remove_stale_def
      del: ensure_run.simps split: option.split) simp
qed

subsection \<open>The table of tools\<close>

definition service_inv :: "'r extension_service \<Rightarrow> bool" where
  "service_inv sv \<longleftrightarrow> distinct (map fst (sc_extensions sv)) \<and> distinct (map fst (sc_tool_map sv))
     \<and> snd ` set (sc_tool_map sv) \<subseteq> fst ` set (sc_extensions sv)"

lemma fst_set_put: "fst ` set (put k v m) = insert k (fst ` set m)"
  by (simp add: dom_map_of_conv_image_fst [symmetric])

lemma map_of_put_all: "map_of (fold (\<lambda>d. put (td_name d) p) ds m) n = (if n \<in> td_name ` set ds then Some p else map_of m n)"
  by (induction ds arbitrary: m) auto

lemma distinct_put_all: "distinct (map fst m) \<Longrightarrow> distinct (map fst (fold (\<lambda>d. put (td_name d) p) ds m))"
  by (induction ds arbitrary: m) (simp_all add: distinct_put)

lemma snd_put_all: "snd ` set (fold (\<lambda>d. put (td_name d) p) ds m) \<subseteq> insert p (snd ` set m)"
proof (induction ds arbitrary: m)
  case (Cons d ds)
  have "snd ` set (put (td_name d) p m) \<subseteq> insert p (snd ` set m)"
    using image_mono [OF set_put [of "td_name d" p m], of snd] by simp
  with Cons [of "put (td_name d) p m"] show ?case by simp blast
qed (simp add: subset_insertI)

lemma service_inv_put: "service_inv sv \<Longrightarrow> service_inv (put_runtime p r sv)"
  by (simp add: service_inv_def put_runtime_def distinct_put fst_set_put subset_insertI2)

lemma service_inv_load:
  assumes "service_inv sv"
  shows "service_inv (snd (service_load_script h p sv))"
proof -
  have "snd ` set (fold (\<lambda>d. put (td_name d) p) ds (sc_tool_map sv)) \<subseteq> insert p (fst ` set (sc_extensions sv))" for ds
    using snd_put_all [of p ds "sc_tool_map sv"] assms by (auto simp: service_inv_def)
  then show ?thesis
    using assms by (auto simp: service_load_script_def Let_def service_inv_def distinct_put distinct_put_all fst_set_put split: option.split)
qed

lemma service_inv_remove: "service_inv sv \<Longrightarrow> service_inv (remove_extension p sv)"
  unfolding service_inv_def remove_extension_def without_def
  by (simp add: distinct_map_filter) force

lemma service_inv_map:
  "service_inv sv \<Longrightarrow> service_inv (sv\<lparr>sc_extensions := map (apsnd f) (sc_extensions sv)\<rparr>)"
  by (simp add: service_inv_def image_image comp_def)

lemma service_inv_execute: "service_inv sv \<Longrightarrow> service_inv (snd (service_execute_tool h name args sv))"
  by (auto simp: service_execute_tool_def service_inv_remove service_inv_put split: option.split)

lemma service_inv_generator:
  assumes "service_inv sv"
  shows "service_inv (snd (service_evaluate_generator h p args sv))"
proof -
  let ?l = "if map_of (sc_extensions sv) p = None then service_load_script h p sv else (Inr (), sv)"
  have "service_inv (snd ?l)" using assms service_inv_load by auto
  then show ?thesis
    by (cases ?l) (auto simp: service_evaluate_generator_def service_inv_put split: option.split sum.split if_splits)
qed

lemma service_inv_dir:
  assumes "service_inv sv"
  shows "service_inv (snd (load_from_dir h dir_exists globbed sv))"
proof -
  have "service_inv (fold (\<lambda>entry sv. case entry of Inr p \<Rightarrow> snd (service_load_script h p sv) | Inl _ \<Rightarrow> sv) es sv)"
    for es :: "(string, string) res list"
    using assms by (induction es arbitrary: sv) (auto simp: service_inv_load split: sum.split)
  then show ?thesis using assms by (simp add: load_from_dir_def split: sum.split)
qed

inductive service_reachable :: "'r isolate_host \<Rightarrow> 'r extension_service \<Rightarrow> bool" for h where
  new: "service_reachable h (service_new agent_id)"
| load: "service_reachable h sv \<Longrightarrow> service_reachable h (snd (service_load_script h p sv))"
| dir: "service_reachable h sv \<Longrightarrow> service_reachable h (snd (load_from_dir h dir_exists globbed sv))"
| execute: "service_reachable h sv \<Longrightarrow> service_reachable h (snd (service_execute_tool h name args sv))"
| status: "service_reachable h sv \<Longrightarrow> service_reachable h (snd (get_status_lines h sv))"
| parent: "service_reachable h sv \<Longrightarrow> service_reachable h (service_set_parent_context h ctx agent_id sv)"
| generator: "service_reachable h sv \<Longrightarrow> service_reachable h (snd (service_evaluate_generator h p v sv))"
| dies: "service_reachable h sv \<Longrightarrow> p \<in> fst ` set (sc_extensions sv) \<Longrightarrow> service_reachable h (put_runtime p None sv)"

lemma service_reachable_inv: "service_reachable h sv \<Longrightarrow> service_inv sv"
proof (induction rule: service_reachable.induct)
  case (new agent_id)
  then show ?case by (simp add: service_inv_def service_new_def)
next
  case (parent sv ctx agent_id)
  have "service_inv (sv\<lparr>sc_parent := ctx\<rparr>)" using parent.IH by (simp add: service_inv_def)
  from service_inv_map [OF this] show ?case by (simp add: service_set_parent_context_def)
qed (simp_all add: service_inv_load service_inv_dir service_inv_execute service_inv_generator service_inv_put
  get_status_lines_def service_inv_map)

lemma map_of_without: "map_of (without p kvs) q = (if q = p then None else map_of kvs q)"
  by (induction kvs) (auto simp: without_def)

lemma map_of_filter_path:
  "distinct (map fst m) \<Longrightarrow> map_of (filter (\<lambda>(n, q). q \<noteq> p) m) n = (if map_of m n = Some p then None else map_of m n)"
  by (simp add: map_of_filter_value split: option.split)

lemma load_script_ok:
  assumes "service_load_script h p sv = (Inr (), sv')"
  obtains r where "sc_extensions sv' = put p (Some r) (sc_extensions sv)"
    and "sc_tool_map sv' = fold (\<lambda>d. put (td_name d) p) (ih_tools h r) (sc_tool_map sv)"
  using assms by (auto simp: service_load_script_def Let_def split: option.splits)

text \<open>C23: The calls of tools reach the extension that offers them. Whatever was loaded, reloaded, called, died or was
  removed before: when a script has been loaded, every tool it registered is run by its runtime, also one that another
  extension had, and the tools of all other names go where they went. A thread that ends in a call takes its
  extension and all its tools with it, and nothing else. A name in the table always leads to an extension that
  is loaded.\<close>

theorem script_service_routes:
  assumes "service_reachable h sv" and "service_load_script h p sv = (Inr (), sv')"
  shows "\<exists>r. map_of (sc_extensions sv') p = Some (Some r)
    \<and> (\<forall>q. q \<noteq> p \<longrightarrow> map_of (sc_extensions sv') q = map_of (sc_extensions sv) q)
    \<and> (\<forall>n. map_of (sc_tool_map sv') n
          = (if n \<in> td_name ` set (ih_tools h r) then Some p else map_of (sc_tool_map sv) n))
    \<and> (\<forall>n q. map_of (sc_tool_map sv') n = Some q \<longrightarrow> q \<in> fst ` set (sc_extensions sv'))
    \<and> (\<forall>n args. n \<in> td_name ` set (ih_tools h r) \<longrightarrow>
         (case ih_execute_tool h n args r of
            Some (result, r1) \<Rightarrow> service_execute_tool h n args sv' = (result, put_runtime p (Some r1) sv')
          | None \<Rightarrow>
              (\<exists>sv1. service_execute_tool h n args sv' = (Inl (Msg (''Extension crashed during execution: '' @ p)), sv1)
                \<and> (\<forall>q. map_of (sc_extensions sv1) q = (if q = p then None else map_of (sc_extensions sv') q))
                \<and> (\<forall>m. map_of (sc_tool_map sv1) m
                      = (if map_of (sc_tool_map sv') m = Some p then None else map_of (sc_tool_map sv') m)))))"
proof -
  obtain r where e: "sc_extensions sv' = put p (Some r) (sc_extensions sv)"
    and t: "sc_tool_map sv' = fold (\<lambda>d. put (td_name d) p) (ih_tools h r) (sc_tool_map sv)"
    using load_script_ok [OF assms(2)] .
  have "service_inv (snd (service_load_script h p sv))"
    by (rule service_inv_load [OF service_reachable_inv [OF assms(1)]])
  then have i: "service_inv sv'" using assms(2) by simp
  have run: "case ih_execute_tool h n args r of
            Some (result, r1) \<Rightarrow> service_execute_tool h n args sv' = (result, put_runtime p (Some r1) sv')
          | None \<Rightarrow>
              (\<exists>sv1. service_execute_tool h n args sv' = (Inl (Msg (''Extension crashed during execution: '' @ p)), sv1)
                \<and> (\<forall>q. map_of (sc_extensions sv1) q = (if q = p then None else map_of (sc_extensions sv') q))
                \<and> (\<forall>m. map_of (sc_tool_map sv1) m
                      = (if map_of (sc_tool_map sv') m = Some p then None else map_of (sc_tool_map sv') m)))"
    if "n \<in> td_name ` set (ih_tools h r)" for n args
  proof -
    have "Option.bind (map_of (sc_tool_map sv') n) (\<lambda>q. map_option (Pair q) (map_of (sc_extensions sv') q)) = Some (p, Some r)"
      using that by (simp add: e t map_of_put_all)
    then show ?thesis
      using i by (auto simp: service_execute_tool_def remove_extension_def map_of_without map_of_filter_path service_inv_def
        split: option.split)
  qed
  have "q \<in> fst ` set (sc_extensions sv')" if "map_of (sc_tool_map sv') n = Some q" for n q
    using i map_of_SomeD [OF that] by (force simp: service_inv_def)
  with run show ?thesis
    by (intro exI [of _ r]) (simp add: e t map_of_put_all)
qed

text \<open>A runtime that knows the number of its script and offers one tool.\<close>

definition sample_isolates :: "nat isolate_host" where
  "sample_isolates =
     \<lparr>ih_new = (\<lambda>p. Some (length p)), ih_execute_script = (\<lambda>p r. Some (Inr (), r)),
      ih_execute_tool = (\<lambda>n args r. if args = ''crash'' then None else Some (Inr (show_nat r), r + 1)),
      ih_tools = (\<lambda>r. [\<lparr>td_name = ''greet'', td_description = [], td_parameters = JNull\<rparr>]),
      ih_get_status = (\<lambda>r. Some (Inr [], r)), ih_evaluate_generator = (\<lambda>f v r. Some (Inr [], r)),
      ih_set_parent_context = (\<lambda>c a r. r), ih_show_error = (\<lambda>e. [])\<rparr>"

definition sample_service :: "nat extension_service" where
  "sample_service = snd (service_load_script sample_isolates ''a'' (service_new ''main''))"

theorem script_service_routes_witness:
  "let sv = snd (service_load_script sample_isolates ''bb.js'' sample_service) in
   fst (service_execute_tool sample_isolates ''greet'' [] sv) = Inr ''5''
   \<and> map_of (sc_tool_map (snd (service_execute_tool sample_isolates ''greet'' ''crash'' sv))) ''greet'' = None"
proof -
  let ?h = sample_isolates
  have r: "service_reachable ?h sample_service"
    unfolding sample_service_def by (intro service_reachable.intros)
  obtain sv where l: "service_load_script ?h ''bb.js'' sample_service = (Inr (), sv)"
    and e: "sc_extensions sv = put ''bb.js'' (Some 5) (sc_extensions sample_service)"
    by (simp add: service_load_script_def spawn_extension_def sample_isolates_def eval_nat_numeral)
  obtain r where m: "map_of (sc_extensions sv) ''bb.js'' = Some (Some r)"
    and t: "\<forall>n. map_of (sc_tool_map sv) n = (if n \<in> td_name ` set (ih_tools ?h r) then Some ''bb.js''
        else map_of (sc_tool_map sample_service) n)"
    and x: "\<forall>n args. n \<in> td_name ` set (ih_tools ?h r) \<longrightarrow>
       (case ih_execute_tool ?h n args r of
          Some (result, r1) \<Rightarrow> service_execute_tool ?h n args sv = (result, put_runtime ''bb.js'' (Some r1) sv)
        | None \<Rightarrow>
            (\<exists>sv1. service_execute_tool ?h n args sv = (Inl (Msg (''Extension crashed during execution: '' @ ''bb.js'')), sv1)
              \<and> (\<forall>q. map_of (sc_extensions sv1) q = (if q = ''bb.js'' then None else map_of (sc_extensions sv) q))
              \<and> (\<forall>m. map_of (sc_tool_map sv1) m
                    = (if map_of (sc_tool_map sv) m = Some ''bb.js'' then None else map_of (sc_tool_map sv) m))))"
    using script_service_routes [OF r l] by blast
  have "r = 5" using m e by simp
  moreover have g: "''greet'' \<in> td_name ` set (ih_tools ?h r)" by (simp add: sample_isolates_def)
  moreover have "ih_execute_tool ?h ''greet'' [] 5 = Some (Inr ''5'', 6)" "ih_execute_tool ?h ''greet'' ''crash'' r = None"
    by (simp_all add: sample_isolates_def show_nat.simps digit_char_def char_of_def bit_0)
  ultimately show ?thesis
    using x [rule_format, OF g, of "[]"] x [rule_format, OF g, of "''crash''"] t l by (auto simp: Let_def)
qed

end
