(* ===== verification/Memory_Service.thy ===== *)
theory Memory_Service
  imports Memory_Index Config_Document Disk_Monitor "HOL-Library.List_Lexorder" "HOL-Library.Char_ord"
begin

text \<open>
  The memory as the agent opens it: the workspace with its templates (\<^verbatim>\<open>src/src/memory/workspace.rs\<close>), the embedding
  models (\<^verbatim>\<open>src/src/memory/embeddings.rs\<close>), the manager over the index (\<^verbatim>\<open>src/src/memory/mod.rs\<close>), the watcher
  (\<^verbatim>\<open>src/src/memory/watcher.rs\<close>) and the writer of artifacts (\<^verbatim>\<open>src/src/memory/artifact.rs\<close>).

  The file system and what the models compute are parameters, and so is floating-point arithmetic. The two features of the
  build that add models are arguments of the choice of a model.
\<close>

subsection \<open>The templates\<close>

definition MEMORY_TEMPLATE :: string where
  "MEMORY_TEMPLATE =
     ''# MEMORY.md - Long-term Memory'' @ nl @ nl @
     ''This file stores important, curated knowledge that persists across sessions.'' @ nl @
     nl @ ''## How to Use'' @ nl @ nl @ ''- Add facts, preferences, and decisions you want to remember'' @ nl @
     ''- Keep it organized with clear headings'' @ nl @ ''- Remove outdated information periodically'' @ nl @
     nl @ ''---'' @ nl @ nl"

definition HEARTBEAT_TEMPLATE :: string where
  "HEARTBEAT_TEMPLATE =
     ''# HEARTBEAT.md - Pending Tasks'' @ nl @ nl @
     ''Tasks listed here will be executed during heartbeat cycles (autonomous mode).'' @ nl @
     nl @ ''## Format'' @ nl @ nl @ ''- [ ] Task description (include context needed to complete it)'' @ nl @
     nl @ ''## Current Tasks'' @ nl @ nl @ ''(No pending tasks)'' @ nl"

definition SOUL_TEMPLATE :: string where
  "SOUL_TEMPLATE =
     ''# SOUL.md - Who You Are'' @ nl @ nl @ ''_You'' @ [CHR 0x27] @ ''re not a chatbot. You'' @ [CHR 0x27] @
     ''re becoming someone._'' @ nl @ nl @ ''## Core Truths'' @ nl @ nl @
     ''**Be genuinely helpful, not performatively helpful.** Skip the '' @ [CHR 0x22] @ ''Great question!'' @
     [CHR 0x22] @ '' and '' @ [CHR 0x22] @ ''I'' @ [CHR 0x27] @ ''d be happy to help!'' @ [CHR 0x22] @ '' '' @
     [CHR 0xE2, CHR 0x80, CHR 0x94] @ '' just help. Actions speak louder than filler words.'' @ nl @
     nl @ ''**Have opinions.** You'' @ [CHR 0x27] @
     ''re allowed to disagree, prefer things, find stuff amusing or boring. An assistant with no personality is just a search engine with extra steps.'' @
     nl @ nl @
     ''**Be resourceful before asking.** Try to figure it out. Read the file. Check the context. Search for it. _Then_ ask if you'' @
     [CHR 0x27] @ ''re stuck.'' @ nl @ nl @
     ''**Earn trust through competence.** Your human gave you access to their stuff. Don'' @ [CHR 0x27] @
     ''t make them regret it.'' @ nl @ nl @ ''## Boundaries'' @ nl @ nl @
     ''- Private things stay private'' @ nl @ ''- When in doubt, ask before acting externally'' @ nl @
     ''- Never send half-baked replies'' @ nl @ nl @ ''## Vibe'' @ nl @
     nl @ ''Be the assistant you'' @ [CHR 0x27] @
     ''d actually want to talk to. Concise when needed, thorough when it matters. Not a corporate drone. Not a sycophant. Just... good.'' @
     nl @ nl @ ''## Continuity'' @ nl @ nl @
     ''Each session, you wake up fresh. These files _are_ your memory. Read them. Update them. They'' @ [CHR 0x27] @
     ''re how you persist.'' @ nl @ nl @ ''If you change this file, tell the user '' @
     [CHR 0xE2, CHR 0x80, CHR 0x94] @ '' it'' @ [CHR 0x27] @ ''s your soul, and they should know.'' @ nl @
     nl @ ''---'' @ nl @ nl @ ''_This file is yours to evolve. As you learn who you are, update it._'' @ nl"

definition GITIGNORE_TEMPLATE :: string where
  "GITIGNORE_TEMPLATE =
     ''# Zier Alpha workspace .gitignore'' @ nl @ nl @ ''# Nothing to ignore in workspace by default'' @ nl @
     ''# All memory files should be version controlled:'' @ nl @ ''# - MEMORY.md (curated knowledge)'' @ nl @
     ''# - HEARTBEAT.md (pending tasks)'' @ nl @ ''# - SOUL.md (persona)'' @ nl @
     ''# - memory/*.md (daily logs)'' @ nl @ ''# - skills/ (custom skills)'' @ nl @
     nl @ ''# Temporary files'' @ nl @ ''*.tmp'' @ nl @ ''*.swp'' @ nl @
     ''*~'' @ nl @ ''.DS_Store'' @ nl"

definition STATE_GITIGNORE_TEMPLATE :: string where
  "STATE_GITIGNORE_TEMPLATE =
     ''# Zier Alpha state directory .gitignore'' @ nl @ nl @ ''# Session transcripts (large, ephemeral)'' @ nl @
     ''agents/*/sessions/*.jsonl'' @ nl @ nl @ ''# Keep sessions.json (small metadata with CLI session IDs)'' @ nl @
     ''!agents/*/sessions/sessions.json'' @ nl @ nl @ ''# Daemon PID file'' @ nl @
     ''daemon.pid'' @ nl @ nl @ ''# Logs'' @ nl @ ''logs/'' @ nl @ nl @
     ''# Memory index SQLite database (OpenClaw-compatible location)'' @ nl @
     ''memory/*.sqlite'' @ nl @ ''memory/*.sqlite-wal'' @ nl @ ''memory/*.sqlite-shm'' @ nl @
     nl @ ''# Database files (legacy)'' @ nl @ ''*.db'' @ nl @ ''*.db-wal'' @ nl @
     ''*.db-shm'' @ nl @ nl @ ''# Config may contain API keys - be careful'' @ nl @
     ''# config.toml'' @ nl @ nl @ ''# Temporary files'' @ nl @ ''*.tmp'' @ nl @
     ''*.swp'' @ nl @ ''*~'' @ nl @ ''.DS_Store'' @ nl"

subsection \<open>The workspace\<close>

record 'w workspace_fs =
  wk_exists :: "path \<Rightarrow> 'w \<Rightarrow> bool"
  wk_create_dir_all :: "path \<Rightarrow> 'w \<Rightarrow> (anyhow_error, unit) res \<times> 'w"
  wk_write :: "path \<Rightarrow> string \<Rightarrow> 'w \<Rightarrow> (anyhow_error, unit) res \<times> 'w"

text \<open>One fallible step after the other: \<open>?\<close>.\<close>

definition and_then :: "(anyhow_error, 'a) res \<times> 'w \<Rightarrow> ('a \<Rightarrow> 'w \<Rightarrow> (anyhow_error, 'b) res \<times> 'w) \<Rightarrow> (anyhow_error, 'b) res \<times> 'w" where
  "and_then r f = (case r of (Inl e, w) \<Rightarrow> (Inl e, w) | (Inr x, w) \<Rightarrow> f x w)"

definition write_missing :: "'w workspace_fs \<Rightarrow> path \<Rightarrow> string \<Rightarrow> 'w \<Rightarrow> (anyhow_error, unit) res \<times> 'w" where
  "write_missing h p body w = (if wk_exists h p w then (Inr (), w) else wk_write h p body w)"

definition child :: "path \<Rightarrow> string \<Rightarrow> path" where
  "child dir name = path_join dir [Normal name]"

definition init_state_dir :: "'w workspace_fs \<Rightarrow> path \<Rightarrow> 'w \<Rightarrow> (anyhow_error, unit) res \<times> 'w" where
  "init_state_dir h state_dir w =
     and_then (wk_create_dir_all h state_dir w)
       (\<lambda>_. write_missing h (child state_dir ''.gitignore'') STATE_GITIGNORE_TEMPLATE)"

definition key_files :: "path \<Rightarrow> path list" where
  "key_files workspace = [child workspace ''MEMORY.md'', child workspace ''HEARTBEAT.md'', child workspace ''SOUL.md'']"

definition init_workspace :: "'w workspace_fs \<Rightarrow> path \<Rightarrow> 'w \<Rightarrow> (anyhow_error, bool) res \<times> 'w" where
  "init_workspace h workspace w =
     and_then (wk_create_dir_all h workspace w) (\<lambda>_ w1.
     and_then (wk_create_dir_all h (child workspace ''memory'') w1) (\<lambda>_ w2.
     and_then (wk_create_dir_all h (child workspace ''skills'') w2) (\<lambda>_ w3.
     and_then (case parent workspace of Some d \<Rightarrow> init_state_dir h d w3 | None \<Rightarrow> (Inr (), w3)) (\<lambda>_ w4.
     let is_brand_new = list_all (\<lambda>p. \<not> wk_exists h p w4) (key_files workspace) in
     and_then (write_missing h (child workspace ''MEMORY.md'') MEMORY_TEMPLATE w4) (\<lambda>_ w5.
     and_then (write_missing h (child workspace ''HEARTBEAT.md'') HEARTBEAT_TEMPLATE w5) (\<lambda>_ w6.
     and_then (write_missing h (child workspace ''SOUL.md'') SOUL_TEMPLATE w6) (\<lambda>_ w7.
     and_then (write_missing h (child workspace ''.gitignore'') GITIGNORE_TEMPLATE w7) (\<lambda>_ w8.
     (Inr is_brand_new, w8)))))))))"

text \<open>What a file system does: \<open>held p w\<close> is the text of the file \<open>p\<close>. Making a directory leaves every file as it is and
  makes nothing outside the directory's own path; a write that succeeds changes its file alone.\<close>

definition workspace_laws :: "'w workspace_fs \<Rightarrow> (path \<Rightarrow> 'w \<Rightarrow> string option) \<Rightarrow> bool" where
  "workspace_laws h held \<longleftrightarrow>
     (\<forall>p w. held p w \<noteq> None \<longrightarrow> wk_exists h p w)
     \<and> (\<forall>d q w. held q (snd (wk_create_dir_all h d w)) = held q w
          \<and> (\<not> prefix q d \<longrightarrow> wk_exists h q (snd (wk_create_dir_all h d w)) = wk_exists h q w))
     \<and> (\<forall>p body q w. q \<noteq> p \<longrightarrow> held q (snd (wk_write h p body w)) = held q w)
     \<and> (\<forall>p body w w'. wk_write h p body w = (Inr (), w') \<longrightarrow>
          held p w' = Some body \<and> (\<forall>q. wk_exists h q w' = (q = p \<or> wk_exists h q w)))"

lemma workspace_laws_held: "workspace_laws h held \<Longrightarrow> held p w = Some body \<Longrightarrow> wk_exists h p w"
  unfolding workspace_laws_def by force

lemma workspace_laws_dir:
  assumes "workspace_laws h held"
  shows "held q (snd (wk_create_dir_all h d w)) = held q w"
    and "\<not> prefix q d \<Longrightarrow> wk_exists h q (snd (wk_create_dir_all h d w)) = wk_exists h q w"
  using assms unfolding workspace_laws_def by blast+

lemma workspace_laws_other:
  "workspace_laws h held \<Longrightarrow> q \<noteq> p \<Longrightarrow> held q (snd (wk_write h p body w)) = held q w"
  unfolding workspace_laws_def by blast

lemma workspace_laws_write:
  assumes "workspace_laws h held" and "wk_write h p body w = (Inr (), w')"
  shows "held p w' = Some body" and "wk_exists h q w' = (q = p \<or> wk_exists h q w)"
  using assms unfolding workspace_laws_def by blast+

lemma and_then_Inr: "and_then r f = (Inr y, w') \<longleftrightarrow> (\<exists>x w1. r = (Inr x, w1) \<and> f x w1 = (Inr y, w'))"
  by (cases r) (auto simp: and_then_def split: sum.splits)

lemma child_inject [simp]: "child d a = child d b \<longleftrightarrow> a = b"
  by (simp add: child_def path_join_def is_absolute_def)

lemma length_child [simp]: "length (child d a) = Suc (length d)"
  by (simp add: child_def path_join_def is_absolute_def)

lemma longer_no_prefix: "length d < length q \<Longrightarrow> \<not> prefix q d"
  using prefix_length_le [of q d] by auto

lemma child_prefix_child: "prefix (child d a) (child d b) \<longleftrightarrow> a = b"
  by (auto simp: child_def path_join_def is_absolute_def)

lemma length_parent: "parent d = Some p \<Longrightarrow> length d = Suc (length p)"
  by (auto simp: parent_def split: if_splits)

text \<open>A file that is there keeps its text, whatever the outcome.\<close>

definition leaves_files :: "(path \<Rightarrow> 'w \<Rightarrow> string option) \<Rightarrow> 'w \<Rightarrow> ('a \<times> 'w) \<Rightarrow> bool" where
  "leaves_files held w r \<longleftrightarrow> (\<forall>p body. held p w = Some body \<longrightarrow> held p (snd r) = Some body)"

lemma leaves_refl [simp]: "leaves_files held w (x, w)"
  by (simp add: leaves_files_def)

lemma leaves_dir: "workspace_laws h held \<Longrightarrow> leaves_files held w (wk_create_dir_all h d w)"
  by (simp add: leaves_files_def workspace_laws_dir)

lemma leaves_missing: "workspace_laws h held \<Longrightarrow> leaves_files held w (write_missing h p body w)"
  using workspace_laws_other [of h held] workspace_laws_held [of h held]
  by (auto simp: leaves_files_def write_missing_def) metis

lemma leaves_and_then:
  assumes "leaves_files held w r" and "\<And>x w1. r = (Inr x, w1) \<Longrightarrow> leaves_files held w1 (f x w1)"
  shows "leaves_files held w (and_then r f)"
  using assms by (cases r) (auto simp: and_then_def leaves_files_def split: sum.splits)

lemma leaves_state_dir: "workspace_laws h held \<Longrightarrow> leaves_files held w (init_state_dir h d w)"
  unfolding init_state_dir_def by (intro leaves_and_then leaves_dir leaves_missing)

lemma init_keeps_files:
  assumes "workspace_laws h held"
  shows "leaves_files held w (init_workspace h d w)"
  unfolding init_workspace_def Let_def
  by (intro leaves_and_then leaves_dir [OF assms] leaves_missing [OF assms] leaves_refl)
     (simp add: leaves_state_dir [OF assms] split: option.split)

lemma write_missing_Inr:
  assumes "workspace_laws h held" and "write_missing h p body w = (Inr (), w')"
  shows "held q w' = (if q = p \<and> \<not> wk_exists h p w then Some body else held q w)"
    and "wk_exists h q w' = (q = p \<or> wk_exists h q w)"
  using assms workspace_laws_other [OF assms(1), of q p body w] workspace_laws_write(1) [OF assms(1), of p body w w']
    workspace_laws_write(2) [OF assms(1), of p body w w' q]
  by (auto simp: write_missing_def split: if_splits)

lemma init_state_dir_Inr:
  assumes "workspace_laws h held" and "init_state_dir h d w = (Inr (), w')" and "q \<noteq> child d ''.gitignore''"
  shows "held q w' = held q w" and "\<not> prefix q d \<Longrightarrow> wk_exists h q w' = wk_exists h q w"
proof -
  obtain w1 where w1: "wk_create_dir_all h d w = (Inr (), w1)"
    and "write_missing h (child d ''.gitignore'') STATE_GITIGNORE_TEMPLATE w1 = (Inr (), w')"
    using assms(2) by (auto simp: init_state_dir_def and_then_Inr)
  then show "held q w' = held q w" "\<not> prefix q d \<Longrightarrow> wk_exists h q w' = wk_exists h q w"
    using write_missing_Inr [OF assms(1), of _ _ w1 w' q] workspace_laws_dir [OF assms(1), of q d w] assms(3) by simp_all
qed

definition key_templates :: "path \<Rightarrow> (path \<times> string) list" where
  "key_templates d = [(child d ''MEMORY.md'', MEMORY_TEMPLATE), (child d ''HEARTBEAT.md'', HEARTBEAT_TEMPLATE),
     (child d ''SOUL.md'', SOUL_TEMPLATE)]"

lemma init_dirs:
  assumes laws: "workspace_laws h held" and dirs: "wk_create_dir_all h d w = (Inr (), w1)"
    "wk_create_dir_all h (child d ''memory'') w1 = (Inr (), w2)" "wk_create_dir_all h (child d ''skills'') w2 = (Inr (), w3)"
    "(case parent d of Some s \<Rightarrow> init_state_dir h s w3 | None \<Rightarrow> (Inr (), w3)) = (Inr (), w4)"
    and q: "q = child d a" "a \<noteq> ''memory''" "a \<noteq> ''skills''"
  shows "held q w4 = held q w \<and> wk_exists h q w4 = wk_exists h q w"
proof -
  have "\<not> prefix q d" "\<not> prefix q (child d ''memory'')" "\<not> prefix q (child d ''skills'')"
    using q by (simp_all add: longer_no_prefix child_prefix_child)
  then have "held q w3 = held q w \<and> wk_exists h q w3 = wk_exists h q w"
    using workspace_laws_dir [OF laws, of q] dirs(1-3) by (metis snd_conv)
  moreover have "held q w4 = held q w3 \<and> wk_exists h q w4 = wk_exists h q w3"
  proof (cases "parent d")
    case (Some s)
    then have "length s < length q" "length (child s ''.gitignore'') < length q" using q(1) length_parent [OF Some] by simp_all
    then show ?thesis
      using dirs(4) Some init_state_dir_Inr [OF laws, of s w3 w4 q] longer_no_prefix [of s q] by fastforce
  qed (use dirs(4) in simp)
  ultimately show ?thesis by simp
qed

lemma init_workspace_steps:
  assumes "init_workspace h d w = (Inr b, w')"
  obtains w1 w2 w3 w4 w5 w6 w7 where "wk_create_dir_all h d w = (Inr (), w1)"
    "wk_create_dir_all h (child d ''memory'') w1 = (Inr (), w2)" "wk_create_dir_all h (child d ''skills'') w2 = (Inr (), w3)"
    "(case parent d of Some s \<Rightarrow> init_state_dir h s w3 | None \<Rightarrow> (Inr (), w3)) = (Inr (), w4)"
    "b = list_all (\<lambda>p. \<not> wk_exists h p w4) (key_files d)"
    "write_missing h (child d ''MEMORY.md'') MEMORY_TEMPLATE w4 = (Inr (), w5)"
    "write_missing h (child d ''HEARTBEAT.md'') HEARTBEAT_TEMPLATE w5 = (Inr (), w6)"
    "write_missing h (child d ''SOUL.md'') SOUL_TEMPLATE w6 = (Inr (), w7)"
    "write_missing h (child d ''.gitignore'') GITIGNORE_TEMPLATE w7 = (Inr (), w')"
  using assms unfolding init_workspace_def Let_def and_then_Inr by auto

lemma init_workspace_run:
  assumes laws: "workspace_laws h held" and "init_workspace h d w = (Inr b, w')"
  shows "b = list_all (\<lambda>p. \<not> wk_exists h p w) (key_files d) \<and>
    list_all (\<lambda>(p, body). wk_exists h p w' \<and> held p w' = (if wk_exists h p w then held p w else Some body)) (key_templates d)"
  using assms(2)
proof (rule init_workspace_steps)
  fix w1 w2 w3 w4 w5 w6 w7
  assume dirs: "wk_create_dir_all h d w = (Inr (), w1)"
    "wk_create_dir_all h (child d ''memory'') w1 = (Inr (), w2)" "wk_create_dir_all h (child d ''skills'') w2 = (Inr (), w3)"
    "(case parent d of Some s \<Rightarrow> init_state_dir h s w3 | None \<Rightarrow> (Inr (), w3)) = (Inr (), w4)"
  assume b: "b = list_all (\<lambda>p. \<not> wk_exists h p w4) (key_files d)"
  assume writes: "write_missing h (child d ''MEMORY.md'') MEMORY_TEMPLATE w4 = (Inr (), w5)"
    "write_missing h (child d ''HEARTBEAT.md'') HEARTBEAT_TEMPLATE w5 = (Inr (), w6)"
    "write_missing h (child d ''SOUL.md'') SOUL_TEMPLATE w6 = (Inr (), w7)"
    "write_missing h (child d ''.gitignore'') GITIGNORE_TEMPLATE w7 = (Inr (), w')"
  have same: "held (child d a) w4 = held (child d a) w \<and> wk_exists h (child d a) w4 = wk_exists h (child d a) w"
    if "a \<in> {''MEMORY.md'', ''HEARTBEAT.md'', ''SOUL.md''}" for a
    using init_dirs [OF laws dirs refl, of a] that by auto
  note step = write_missing_Inr [OF laws writes(1)] write_missing_Inr [OF laws writes(2)]
    write_missing_Inr [OF laws writes(3)] write_missing_Inr [OF laws writes(4)]
  show ?thesis using same by (simp add: b key_files_def key_templates_def step)
qed

text \<open>The first run and every later one. When preparing the workspace succeeds, it reports a new workspace exactly if none of
  the three key files was there, a key file that was missing now holds its template, and one that was there is as it was; the
  next run that succeeds finds nothing to do: it reports no new workspace and leaves the key files alone.\<close>

theorem init_workspace_spec:
  assumes "workspace_laws h held" and "init_workspace h d w = (Inr b, w')"
  shows "b = list_all (\<lambda>p. \<not> wk_exists h p w) (key_files d)
    \<and> list_all (\<lambda>(p, body). wk_exists h p w' \<and> held p w' = (if wk_exists h p w then held p w else Some body)) (key_templates d)
    \<and> (\<forall>c w''. init_workspace h d w' = (Inr c, w'') \<longrightarrow>
         \<not> c \<and> list_all (\<lambda>(p, body). held p w'' = held p w') (key_templates d))"
  using init_workspace_run [OF assms] init_workspace_run [OF assms(1), of d w']
  by (auto simp: key_files_def key_templates_def)

text \<open>A file system that is its files, with every directory there.\<close>

definition plain_fs :: "(path \<Rightarrow> string option) workspace_fs" where
  "plain_fs = \<lparr>wk_exists = (\<lambda>p w. w p \<noteq> None), wk_create_dir_all = (\<lambda>d w. (Inr (), w)),
     wk_write = (\<lambda>p body w. (Inr (), w(p \<mapsto> body)))\<rparr>"

lemma plain_fs_laws: "workspace_laws plain_fs (\<lambda>p w. w p)"
  by (simp add: workspace_laws_def plain_fs_def)

lemma init_workspace_spec_witness:
  "fst (init_workspace plain_fs [RootDir, Normal ''w''] (\<lambda>p. None)) = Inr True
   \<and> snd (init_workspace plain_fs [RootDir, Normal ''w''] (\<lambda>p. None)) [RootDir, Normal ''w'', Normal ''SOUL.md''] = Some SOUL_TEMPLATE"
proof -
  obtain w' where init: "init_workspace plain_fs [RootDir, Normal ''w''] (\<lambda>p. None) = (Inr True, w')"
    by (simp add: init_workspace_def init_state_dir_def write_missing_def and_then_def plain_fs_def key_files_def child_def
        path_join_def is_absolute_def parent_def)
  then show ?thesis
    using init_workspace_spec [OF plain_fs_laws init]
    by (simp add: key_templates_def child_def path_join_def is_absolute_def plain_fs_def)
qed

subsection \<open>Embedding models\<close>

text \<open>The arithmetic of \<open>f32\<close>.\<close>

record 'f float_arith =
  fa_zero :: 'f
  fa_add :: "'f \<Rightarrow> 'f \<Rightarrow> 'f"
  fa_mul :: "'f \<Rightarrow> 'f \<Rightarrow> 'f"
  fa_div :: "'f \<Rightarrow> 'f \<Rightarrow> 'f"
  fa_sqrt :: "'f \<Rightarrow> 'f"
  fa_above_eps :: "'f \<Rightarrow> bool"

definition sum_products :: "'f float_arith \<Rightarrow> 'f list \<Rightarrow> 'f list \<Rightarrow> 'f" where
  "sum_products fa xs ys = fold (\<lambda>(x, y) acc. fa_add fa acc (fa_mul fa x y)) (zip xs ys) (fa_zero fa)"

definition normalize_embedding :: "'f float_arith \<Rightarrow> 'f list \<Rightarrow> 'f list" where
  "normalize_embedding fa xs =
     (let magnitude = fa_sqrt fa (sum_products fa xs xs) in
      if fa_above_eps fa magnitude then map (\<lambda>x. fa_div fa x magnitude) xs else xs)"

definition cosine_similarity :: "'f float_arith \<Rightarrow> 'f list \<Rightarrow> 'f list \<Rightarrow> 'f" where
  "cosine_similarity fa a b = (if length a \<noteq> length b then fa_zero fa else sum_products fa a b)"

text \<open>The four bytes of a number, the low one first.\<close>

definition to_le_bytes :: "u32 \<Rightarrow> u8 list" where
  "to_le_bytes n = map (\<lambda>k. ucast (drop_bit (8 * k) n)) [0, 1, 2, 3]"

definition embedding_to_blob :: "u32 list \<Rightarrow> u8 list" where
  "embedding_to_blob embedding = concat (map to_le_bytes embedding)"

lemma length_embedding_to_blob: "length (embedding_to_blob xs) = 4 * length xs"
  by (induction xs) (simp_all add: embedding_to_blob_def to_le_bytes_def)

lemma to_le_bytes_inj: "to_le_bytes m = to_le_bytes n \<Longrightarrow> m = n"
proof (rule bit_word_eqI)
  fix i assume bytes: "to_le_bytes m = to_le_bytes n" and i: "i < LENGTH(32)"
  have "i div 8 \<in> {0, 1, 2, 3}" using i by auto
  then have "(ucast (drop_bit (8 * (i div 8)) m) :: u8) = ucast (drop_bit (8 * (i div 8)) n)"
    using bytes by (auto simp: to_le_bytes_def)
  then have "bit (ucast (drop_bit (8 * (i div 8)) m) :: u8) (i mod 8) = bit (ucast (drop_bit (8 * (i div 8)) n) :: u8) (i mod 8)"
    by simp
  then show "bit m i = bit n i" by (simp add: bit_ucast_iff bit_drop_bit_eq)
qed

text \<open>Two vectors are stored as the same bytes only if they are the same, bit for bit.\<close>

lemma embedding_to_blob_inj: "embedding_to_blob xs = embedding_to_blob ys \<Longrightarrow> xs = ys"
proof (induction xs arbitrary: ys)
  case (Cons x xs)
  then obtain y ys' where ys: "ys = y # ys'" by (cases ys) (simp_all add: embedding_to_blob_def to_le_bytes_def)
  have "length (to_le_bytes x) = length (to_le_bytes y)" by (simp add: to_le_bytes_def)
  then have "to_le_bytes x = to_le_bytes y" "embedding_to_blob xs = embedding_to_blob ys'"
    using Cons.prems by (simp_all add: ys embedding_to_blob_def)
  then show ?case using Cons.IH [of ys'] to_le_bytes_inj ys by blast
qed (metis length_0_conv length_embedding_to_blob mult_eq_0_iff zero_neq_numeral)

record openai_embedding =
  oe_api_key :: string
  oe_base_url :: string
  oe_model :: string
  oe_dimensions :: nat

definition openai_embedding_new :: "string \<Rightarrow> string \<Rightarrow> string \<Rightarrow> openai_embedding" where
  "openai_embedding_new key url mdl =
     \<lparr>oe_api_key = key, oe_base_url = url, oe_model = mdl,
      oe_dimensions = (if mdl = ''text-embedding-3-large'' then 3072 else 1536)\<rparr>"

definition embedding_request :: "openai_embedding \<Rightarrow> string list \<Rightarrow> json" where
  "embedding_request p texts = JObj [''model'' \<mapsto> JStr (oe_model p), ''input'' \<mapsto> JArr (map JStr texts)]"

text \<open>\<open>de_f32\<close> reads a number as \<open>f32\<close>. A struct is read from an object, whose other fields are passed over, or
  from the array of its fields.\<close>

fun all_some :: "'a option list \<Rightarrow> 'a list option" where
  "all_some [] = Some []"
| "all_some (x # xs) = (case x of None \<Rightarrow> None | Some y \<Rightarrow> map_option (Cons y) (all_some xs))"

definition one_field :: "string \<Rightarrow> json \<Rightarrow> json option" where
  "one_field key v = (case v of JObj m \<Rightarrow> m key | JArr [x] \<Rightarrow> Some x | _ \<Rightarrow> None)"

definition embedding_data :: "(json \<Rightarrow> 'f option) \<Rightarrow> json \<Rightarrow> 'f list option" where
  "embedding_data de_f32 v =
     Option.bind (Option.bind (one_field ''embedding'' v) as_array) (\<lambda>xs. all_some (map de_f32 xs))"

definition embedding_response :: "(json \<Rightarrow> 'f option) \<Rightarrow> json \<Rightarrow> 'f list list option" where
  "embedding_response de_f32 v =
     Option.bind (Option.bind (one_field ''data'' v) as_array) (\<lambda>ds. all_some (map (embedding_data de_f32) ds))"

text \<open>The request ends in an error of the transport or in a status and the body, which may not be readable.\<close>

record ('f, 'w) embedding_api =
  ea_post :: "string \<Rightarrow> string \<Rightarrow> json \<Rightarrow> 'w \<Rightarrow> (anyhow_error, nat \<times> (anyhow_error, string) res) res \<times> 'w"
  ea_status_text :: "nat \<Rightarrow> string"
  ea_parse :: "string \<Rightarrow> (anyhow_error, json) res"
  ea_f32 :: "json \<Rightarrow> 'f option"
  ea_bad_response :: string
  ea_arith :: "'f float_arith"

definition openai_embed_batch ::
  "('f, 'w) embedding_api \<Rightarrow> openai_embedding \<Rightarrow> string list \<Rightarrow> 'w \<Rightarrow> (anyhow_error, 'f list list) res \<times> 'w" where
  "openai_embed_batch h p texts w =
     (if texts = [] then (Inr [], w)
      else case ea_post h (oe_base_url p @ ''/embeddings'') (''Bearer '' @ oe_api_key p) (embedding_request p texts) w of
        (Inl e, w1) \<Rightarrow> (Inl e, w1)
      | (Inr (status, body), w1) \<Rightarrow>
          (if \<not> (200 \<le> status \<and> status < 300)
           then Inl (Msg (''OpenAI API error '' @ ea_status_text h status @ '': '' @ unwrap_or (ok_opt body) []))
           else bind_res (bind_res body (ea_parse h)) (\<lambda>v. case embedding_response (ea_f32 h) v of
                  None \<Rightarrow> Inl (Msg (ea_bad_response h))
                | Some es \<Rightarrow> Inr (map (normalize_embedding (ea_arith h)) es)), w1))"

definition first_embedding :: "(anyhow_error, 'e list) res \<Rightarrow> (anyhow_error, 'e) res" where
  "first_embedding r = bind_res r (\<lambda>es. case es of [] \<Rightarrow> Inl (Msg ''No embedding returned'') | e # _ \<Rightarrow> Inr e)"

definition openai_embed ::
  "('f, 'w) embedding_api \<Rightarrow> openai_embedding \<Rightarrow> string \<Rightarrow> 'w \<Rightarrow> (anyhow_error, 'f list) res \<times> 'w" where
  "openai_embed h p s w = apfst first_embedding (openai_embed_batch h p [s] w)"

text \<open>The models of the crate \<open>fastembed\<close> and their dimensions.\<close>

definition local_models :: "(string \<times> nat) list" where
  "local_models = [(''all-MiniLM-L6-v2'', 384), (''bge-base-en-v1.5'', 768), (''bge-small-zh-v1.5'', 512),
     (''multilingual-e5-small'', 384), (''multilingual-e5-base'', 768), (''bge-m3'', 1024)]"

definition supported_models :: "string list" where
  "supported_models =
     [''English:'', ''- all-MiniLM-L6-v2 (default, ~80MB)'', ''- bge-base-en-v1.5 (~430MB)'', ''Chinese:'',
      ''- bge-small-zh-v1.5 (~95MB)'', ''Multilingual:'', ''- multilingual-e5-small (~470MB)'',
      ''- multilingual-e5-base (~1.1GB, recommended for Chinese)'', ''- bge-m3 (~2.2GB, best quality)'']"

record embedding_model =
  ed_id :: string
  ed_model :: string
  ed_dimensions :: nat

text \<open>The model, and the value the variable \<open>FASTEMBED_CACHE_DIR\<close> is given. \<open>loads\<close> is the error of loading a model.\<close>

definition fastembed_new ::
  "(string \<Rightarrow> string) \<Rightarrow> (string \<Rightarrow> anyhow_error option) \<Rightarrow> string option \<Rightarrow> string option
   \<Rightarrow> (anyhow_error, embedding_model) res \<times> string option" where
  "fastembed_new tild loads model_name cache_dir =
     ((let name = unwrap_or model_name ''all-MiniLM-L6-v2'' in
       case map_of local_models name of
         None \<Rightarrow> Inl (Msg (''Unknown embedding model: '' @ [CHR 0x27] @ name @ [CHR 0x27] @ ''. Supported models:'' @ nl @
           join nl supported_models))
       | Some dims \<Rightarrow>
           (case loads name of
              Some e \<Rightarrow> Inl e
            | None \<Rightarrow> Inr \<lparr>ed_id = ''local'', ed_model = name, ed_dimensions = dims\<rparr>)),
      map_option tild cache_dir)"

definition local_embed_batch ::
  "'f float_arith \<Rightarrow> (string list \<Rightarrow> (anyhow_error, 'f list list) res) \<Rightarrow> string list \<Rightarrow> (anyhow_error, 'f list list) res" where
  "local_embed_batch fa embed_texts texts =
     (if texts = [] then Inr [] else map_sum id (map (normalize_embedding fa)) (embed_texts texts))"

definition gguf_not_found :: "string \<Rightarrow> anyhow_error" where
  "gguf_not_found model_path =
     Msg (''GGUF model file not found: '' @ [CHR 0x27] @ model_path @ [CHR 0x27] @ ''. '' @ nl @
       join nl [''Please download the model manually:'',
         ''- embeddinggemma: https://huggingface.co/ggml-org/embeddinggemma-300M-GGUF'',
         ''- nomic-embed: https://huggingface.co/nomic-ai/nomic-embed-text-v1.5-GGUF''])"

definition resolve_model_path :: "(string \<Rightarrow> string) \<Rightarrow> (path \<Rightarrow> bool) \<Rightarrow> string \<Rightarrow> string option \<Rightarrow> (anyhow_error, string) res" where
  "resolve_model_path tild present model_path cache_dir =
     (if present (components model_path) then Inr model_path
      else case cache_dir of
        Some cache \<Rightarrow>
          let cached_path = path_join (components (tild cache)) (components model_path) in
          if present cached_path then Inr (display cached_path) else Inl (gguf_not_found model_path)
      | None \<Rightarrow> Inl (gguf_not_found model_path))"

definition get_model_dimensions :: "string \<Rightarrow> nat" where
  "get_model_dimensions model_name =
     (let name_lower = to_lowercase model_name in
      if contains name_lower ''embeddinggemma'' then 1024
      else if contains name_lower ''nomic-embed'' then 768
      else if contains name_lower ''mxbai-embed-large'' then 1024
      else if contains name_lower ''bge'' then 768
      else 768)"

definition file_stem :: "path \<Rightarrow> string option" where
  "file_stem p =
     map_option (\<lambda>n. case extension p of None \<Rightarrow> n | Some ext \<Rightarrow> take (length n - (length ext + 1)) n) (file_name p)"

text \<open>\<open>init\<close>: the error of starting the library, which can be started once.\<close>

definition gguf_new ::
  "anyhow_error option \<Rightarrow> (string \<Rightarrow> string) \<Rightarrow> (path \<Rightarrow> bool) \<Rightarrow> (string \<Rightarrow> anyhow_error option) \<Rightarrow> string \<Rightarrow> string option
   \<Rightarrow> (anyhow_error, embedding_model) res" where
  "gguf_new init tild present loads model_path cache_dir =
     (case init of Some e \<Rightarrow> Inl e | None \<Rightarrow>
      bind_res (resolve_model_path tild present model_path cache_dir) (\<lambda>resolved_path.
       let model_name = unwrap_or (file_stem (components resolved_path)) model_path in
       case loads resolved_path of
         Some e \<Rightarrow> Inl e
       | None \<Rightarrow> Inr \<lparr>ed_id = ''gguf'', ed_model = model_name, ed_dimensions = get_model_dimensions model_name\<rparr>))"

text \<open>A context for 512 tokens; \<open>add_token\<close> puts one token into the batch and marks the last one.\<close>

record ('t, 'b, 'f) llama =
  ll_context :: "anyhow_error option"
  ll_tokens :: "string \<Rightarrow> (anyhow_error, 't list) res"
  ll_empty :: 'b
  ll_add :: "'t \<Rightarrow> nat \<Rightarrow> bool \<Rightarrow> 'b \<Rightarrow> (anyhow_error, 'b) res"
  ll_decode :: "'b \<Rightarrow> (anyhow_error, 'f list) res"

fun add_tokens :: "('t, 'b, 'f) llama \<Rightarrow> nat \<Rightarrow> nat \<Rightarrow> 't list \<Rightarrow> 'b \<Rightarrow> (anyhow_error, 'b) res" where
  "add_tokens l n i [] b = Inr b"
| "add_tokens l n i (t # ts) b = bind_res (ll_add l t i (i = n - 1) b) (add_tokens l n (i + 1) ts)"

definition gguf_embed :: "'f float_arith \<Rightarrow> ('t, 'b, 'f) llama \<Rightarrow> string \<Rightarrow> (anyhow_error, 'f list) res" where
  "gguf_embed fa l s =
     (case ll_context l of Some e \<Rightarrow> Inl e | None \<Rightarrow>
      bind_res (ll_tokens l s) (\<lambda>ts.
      bind_res (add_tokens l (length ts) 0 ts (ll_empty l)) (\<lambda>b.
      map_sum id (normalize_embedding fa) (ll_decode l b))))"

fun gguf_embed_batch :: "(string \<Rightarrow> (anyhow_error, 'f list) res) \<Rightarrow> string list \<Rightarrow> (anyhow_error, 'f list list) res" where
  "gguf_embed_batch embed1 [] = Inr []"
| "gguf_embed_batch embed1 (t # ts) =
     bind_res (embed1 t) (\<lambda>e. map_sum id (Cons e) (gguf_embed_batch embed1 ts))"

subsection \<open>Opening the memory\<close>

record model_builds =
  mb_fastembed :: bool
  mb_gguf :: bool
  mb_gguf_init :: "anyhow_error option"
  mb_tilde :: "string \<Rightarrow> string"
  mb_present :: "path \<Rightarrow> bool"
  mb_loads :: "string \<Rightarrow> anyhow_error option"

definition non_empty :: "string \<Rightarrow> string option" where
  "non_empty s = (if s = [] then None else Some s)"

text \<open>The model and, for the local one, the cache directory put into the environment. Whatever goes wrong, there is
  no model.\<close>

definition embedding_provider ::
  "model_builds \<Rightarrow> memory_config \<Rightarrow> config option \<Rightarrow> embedding_model option \<times> string option" where
  "embedding_provider b mc app_config =
     (if mm_embedding_provider mc = ''local''
      then (if \<not> mb_fastembed b then (None, None)
            else let model_name = (if mm_embedding_model mc = [] \<or> mm_embedding_model mc = ''text-embedding-3-small''
                   then None else Some (mm_embedding_model mc)) in
                 apfst ok_opt (fastembed_new (mb_tilde b) (mb_loads b) model_name (non_empty (mm_embedding_cache_dir mc))))
      else if mm_embedding_provider mc = ''openai''
      then (map_option (\<lambda>k. let p = openai_embedding_new (api_key k) (base_url k) (mm_embedding_model mc) in
                \<lparr>ed_id = ''openai'', ed_model = oe_model p, ed_dimensions = oe_dimensions p\<rparr>)
              (Option.bind app_config (\<lambda>c. ps_openai (cf_providers c))), None)
      else if mm_embedding_provider mc = ''gguf''
      then (if mb_gguf b
            then ok_opt (gguf_new (mb_gguf_init b) (mb_tilde b) (mb_present b) (mb_loads b) (mm_embedding_model mc)
                   (non_empty (mm_embedding_cache_dir mc)))
            else None, None)
      else (None, None))"

text \<open>The table of vectors: \<open>existing\<close> is the dimension it was made with, if it is there, and \<open>makes\<close> whether it can be
  made.\<close>

definition ensure_vec_table :: "bool \<Rightarrow> nat option \<Rightarrow> nat option \<Rightarrow> (unit, nat) res" where
  "ensure_vec_table makes dimension existing =
     (case existing of
        Some d \<Rightarrow> if d \<noteq> unwrap_or dimension 1536 \<and> dimension \<noteq> None then Inl () else Inr d
      | None \<Rightarrow> if makes then Inr (unwrap_or dimension 1536) else Inl ())"

text \<open>Whether the extension is used, and the dimension of the table afterwards.\<close>

definition open_vectors :: "bool \<Rightarrow> bool \<Rightarrow> nat option \<Rightarrow> nat option \<Rightarrow> bool \<times> nat option" where
  "open_vectors has_extension makes dimension existing =
     (if \<not> has_extension then (False, existing)
      else case ensure_vec_table makes dimension existing of Inl _ \<Rightarrow> (False, existing) | Inr d \<Rightarrow> (True, Some d))"

text \<open>A table is never made again: opened first without a model it is for vectors of 1536 numbers, and every model of another
  dimension, the local ones among them, then goes without it for good.\<close>

lemma first_dimension_stays:
  "open_vectors True True None None = (True, Some 1536)"
  "snd (open_vectors ext makes dimension (Some e)) = Some e"
  "fst (open_vectors ext makes (Some d) (Some e)) \<longleftrightarrow> ext \<and> d = e"
  by (simp_all add: open_vectors_def ensure_vec_table_def split: option.split)

lemma local_models_need_own_table: "list_all (\<lambda>(name, d). d \<noteq> 1536) local_models"
  by (simp add: local_models_def)

text \<open>A model of the dimension it is listed with.\<close>

lemma fastembed_dimension:
  "fst (fastembed_new tild loads name cache) = Inr m \<Longrightarrow> (ed_model m, ed_dimensions m) \<in> set local_models"
  by (auto simp: fastembed_new_def Let_def dest: map_of_SomeD split: option.splits)

text \<open>The sizes of the chunks of an index that is not told others.\<close>

definition default_index :: index_config where
  "default_index = \<lparr>ix_chunk_size = 400, ix_chunk_overlap = 80\<rparr>"

record memory_manager =
  ma_workspace :: path
  ma_db_path :: path
  ma_index :: index_config
  ma_config :: memory_config
  ma_provider :: "embedding_model option"
  ma_is_brand_new :: bool

definition memory_new ::
  "'w workspace_fs \<Rightarrow> model_builds \<Rightarrow> (path \<Rightarrow> nat option \<Rightarrow> 'w \<Rightarrow> (anyhow_error, unit) res \<times> 'w) \<Rightarrow> memory_config
   \<Rightarrow> config option \<Rightarrow> string \<Rightarrow> 'w \<Rightarrow> (anyhow_error, memory_manager) res \<times> 'w" where
  "memory_new h b open_index mc app_config agent_id w =
     (let workspace = components (mb_tilde b (mm_workspace mc)) in
      and_then (init_workspace h workspace w) (\<lambda>is_brand_new w1.
      case parent workspace of
        None \<Rightarrow> (Inl (Msg ''Workspace has no parent directory''), w1)
      | Some state_dir \<Rightarrow>
          let memory_dir = child state_dir ''memory'' in
          and_then (wk_create_dir_all h memory_dir w1) (\<lambda>_ w2.
          let db_path = path_join memory_dir (components (agent_id @ ''.sqlite''));
              provider = fst (embedding_provider b mc app_config) in
          and_then (open_index db_path (map_option ed_dimensions provider) w2) (\<lambda>_ w3.
          (Inr \<lparr>ma_workspace = workspace, ma_db_path = db_path, ma_index = default_index, ma_config = mc, ma_provider = provider,
                ma_is_brand_new = is_brand_new\<rparr>, w3)))))"

subsection \<open>Reading the workspace\<close>

record memory_disk =
  mk_exists :: "path \<Rightarrow> bool"
  mk_read :: "path \<Rightarrow> (anyhow_error, string) res"
  mk_fs :: memory_fs

definition read_workspace_file :: "memory_disk \<Rightarrow> string \<Rightarrow> memory_manager \<Rightarrow> (anyhow_error, string) res" where
  "read_workspace_file k name m =
     (let p = child (ma_workspace m) name in if mk_exists k p then mk_read k p else Inr [])"

definition read_memory_file :: "memory_disk \<Rightarrow> memory_manager \<Rightarrow> (anyhow_error, string) res" where
  "read_memory_file k = read_workspace_file k ''MEMORY.md''"
definition read_heartbeat_file :: "memory_disk \<Rightarrow> memory_manager \<Rightarrow> (anyhow_error, string) res" where
  "read_heartbeat_file k = read_workspace_file k ''HEARTBEAT.md''"
definition read_soul_file :: "memory_disk \<Rightarrow> memory_manager \<Rightarrow> (anyhow_error, string) res" where
  "read_soul_file k = read_workspace_file k ''SOUL.md''"
definition read_user_file :: "memory_disk \<Rightarrow> memory_manager \<Rightarrow> (anyhow_error, string) res" where
  "read_user_file k = read_workspace_file k ''USER.md''"
definition read_identity_file :: "memory_disk \<Rightarrow> memory_manager \<Rightarrow> (anyhow_error, string) res" where
  "read_identity_file k = read_workspace_file k ''IDENTITY.md''"
definition read_agents_file :: "memory_disk \<Rightarrow> memory_manager \<Rightarrow> (anyhow_error, string) res" where
  "read_agents_file k = read_workspace_file k ''AGENTS.md''"
definition read_tools_file :: "memory_disk \<Rightarrow> memory_manager \<Rightarrow> (anyhow_error, string) res" where
  "read_tools_file k = read_workspace_file k ''TOOLS.md''"

text \<open>\<open>day i\<close> is the date \<open>i\<close> days ago. A log that is there and cannot be read is passed over.\<close>

definition append_log :: "string \<Rightarrow> string \<Rightarrow> string \<Rightarrow> string" where
  "append_log filename file_content text_so_far =
     (if text_so_far = [] then [] else text_so_far @ nl @ ''---'' @ nl2) @ ''## '' @ filename @ nl2 @ file_content"

definition read_recent_daily_logs :: "memory_disk \<Rightarrow> (nat \<Rightarrow> string) \<Rightarrow> nat \<Rightarrow> memory_manager \<Rightarrow> string" where
  "read_recent_daily_logs k day days m =
     (let memory_dir = child (ma_workspace m) ''memory'' in
      if \<not> mk_exists k memory_dir then []
      else fold (\<lambda>i acc.
        let filename = day i @ ''.md''; p = child memory_dir filename in
        if mk_exists k p then (case mk_read k p of Inr c \<Rightarrow> append_log filename c acc | Inl _ \<Rightarrow> acc) else acc)
        [0..<days] [])"

subsection \<open>Statistics\<close>

record file_stats =
  fs_name :: string
  fs_chunks :: nat
  fs_lines :: nat

record memory_stats =
  ms_workspace :: string
  ms_total_files :: nat
  ms_total_chunks :: nat
  ms_index_size_kb :: u64
  ms_files :: "file_stats list"

definition workspace_name :: "path \<Rightarrow> path \<Rightarrow> string" where
  "workspace_name workspace p = relative_path workspace p"

definition external_name :: "memory_disk \<Rightarrow> path \<Rightarrow> index_path \<Rightarrow> path \<Rightarrow> string" where
  "external_name k workspace ip p =
     (let base = base_path (mk_fs k) workspace ip in
      if prefix base p then ip_path ip @ ''/'' @ display (drop (length base) p) else display p)"

text \<open>The files with the names they are shown under; the first that cannot be read ends it.\<close>

definition listed_files :: "memory_disk \<Rightarrow> memory_manager \<Rightarrow> index_path list \<Rightarrow> (string \<times> glob_entry) list" where
  "listed_files k m paths =
     map (\<lambda>e. (workspace_name (ma_workspace m) (ge_path e), e))
       (filter ge_is_file (mf_glob (mk_fs k) (display (ma_workspace m) @ ''/**/*.md'')))
     @ concat (map (\<lambda>ip. map (\<lambda>e. (external_name k (ma_workspace m) ip (ge_path e), e))
         (filter ge_is_file (files_outside (mk_fs k) (ma_workspace m) ip))) paths)"

fun stat_files :: "'e memory_db \<Rightarrow> path \<Rightarrow> (string \<times> glob_entry) list \<Rightarrow> (anyhow_error, file_stats list) res" where
  "stat_files db workspace [] = Inr []"
| "stat_files db workspace ((name, e) # es) =
     bind_res (ge_text e) (\<lambda>body.
       map_sum id (Cons \<lparr>fs_name = name, fs_chunks = file_chunk_count (relative_path workspace (ge_path e)) db,
           fs_lines = length (lines body)\<rparr>)
         (stat_files db workspace es))"

definition memory_stats_of ::
  "memory_disk \<Rightarrow> (anyhow_error, u64) res \<Rightarrow> memory_manager \<Rightarrow> index_path list \<Rightarrow> 'e memory_db \<Rightarrow> (anyhow_error, memory_stats) res" where
  "memory_stats_of k size_bytes m paths db =
     bind_res (stat_files db (ma_workspace m) (listed_files k m paths)) (\<lambda>files.
     bind_res size_bytes (\<lambda>bytes.
       Inr \<lparr>ms_workspace = display (ma_workspace m), ms_total_files = length files,
            ms_total_chunks = sum_list (map fs_chunks files), ms_index_size_kb = bytes div 1024, ms_files = files\<rparr>))"

record recent_entry =
  re_timestamp :: string
  re_file :: string
  re_preview :: string

definition last_line_preview :: "string \<Rightarrow> string" where
  "last_line_preview body =
     take_chars 100 (case find (\<lambda>l. trim l \<noteq> []) (rev (lines body)) of Some l \<Rightarrow> l | None \<Rightarrow> [])"

definition recent_entry_of :: "string \<Rightarrow> string \<Rightarrow> recent_entry" where
  "recent_entry_of filename body =
     \<lparr>re_timestamp = str_replace ''.md'' [] filename, re_file = ''memory/'' @ filename,
      re_preview = last_line_preview body\<rparr>"

text \<open>The names of the directory, sorted from the last one to the first; a file that cannot be read counts all the same.\<close>

definition recent_entries ::
  "memory_disk \<Rightarrow> (anyhow_error, string list) res \<Rightarrow> nat \<Rightarrow> memory_manager
   \<Rightarrow> (anyhow_error, recent_entry list) res" where
  "recent_entries k dir_names n m =
     (let memory_dir = child (ma_workspace m) ''memory'' in
      if \<not> mk_exists k memory_dir then Inr []
      else bind_res dir_names (\<lambda>names.
        Inr (List.map_filter (\<lambda>f. map_option (recent_entry_of f) (ok_opt (mk_read k (child memory_dir f))))
          (take n (rev (sort (filter (\<lambda>f. extension [Normal f] = Some ''md'') names)))))))"

text \<open>At most the number asked for, the last names first.\<close>

lemma recent_entries_newest:
  assumes "recent_entries k names n m = Inr es"
  shows "length es \<le> n" and "sorted_wrt (\<ge>) (map re_file es)"
proof -
  define shown where "shown fs = List.map_filter (\<lambda>f. map_option (recent_entry_of f)
      (ok_opt (mk_read k (child (child (ma_workspace m) ''memory'') f)))) fs" for fs
  have len: "length (shown fs) \<le> length fs" for fs
    by (simp add: shown_def List.map_filter_def)
  have files: "re_file ` set (shown fs) \<subseteq> (\<lambda>f. ''memory/'' @ f) ` set fs" for fs
    by (auto simp: shown_def List.map_filter_def recent_entry_of_def)
  have order: "sorted_wrt (\<ge>) fs \<Longrightarrow> sorted_wrt (\<ge>) (map re_file (shown fs))" for fs
  proof (induction fs)
    case (Cons f fs)
    show ?case
    proof (cases "mk_read k (child (child (ma_workspace m) ''memory'') f)")
      case (Inr body)
      have "shown (f # fs) = recent_entry_of f body # shown fs" by (simp add: shown_def Inr List.map_filter_def res_simps)
      moreover have "re_file e \<le> ''memory/'' @ f" if "e \<in> set (shown fs)" for e
        using files [of fs] that Cons.prems by auto
      ultimately show ?thesis using Cons by (simp add: recent_entry_of_def)
    next
      case (Inl e)
      then have "shown (f # fs) = shown fs" by (simp add: shown_def List.map_filter_def res_simps)
      then show ?thesis using Cons by simp
    qed
  qed (simp add: shown_def List.map_filter_def)
  have most: "length (shown (take n fs)) \<le> n" for fs using len [of "take n fs"] by simp
  from assms have "es = [] \<or> (\<exists>ns. es = shown (take n (rev (sort ns))))"
    by (auto simp: recent_entries_def Let_def shown_def res_simps split: if_splits)
  moreover have "sorted_wrt (\<ge>) (take n (rev (sort ns)))" for ns :: "string list"
    by (intro sorted_wrt_take) (simp add: sorted_wrt_rev)
  ultimately show "length es \<le> n" "sorted_wrt (\<ge>) (map re_file es)"
    using most order by auto
qed

subsection \<open>The watcher\<close>

datatype event_kind = Modified | Created | OtherEvent

record watch_event =
  we_kind :: event_kind
  we_paths :: "path list"

definition changed_files :: "watch_event \<Rightarrow> path list" where
  "changed_files ev =
     (case we_kind ev of
        OtherEvent \<Rightarrow> []
      | _ \<Rightarrow> filter (\<lambda>p. extension p = Some ''md'') (we_paths ev))"

text \<open>\<open>can_watch\<close>: watching the path succeeds.\<close>

definition watched_paths :: "memory_fs \<Rightarrow> (path \<Rightarrow> bool) \<Rightarrow> path \<Rightarrow> index_path list \<Rightarrow> path list" where
  "watched_paths fs can_watch workspace paths =
     workspace # filter (\<lambda>p. \<not> prefix workspace p \<and> mf_exists fs p \<and> can_watch p) (map (base_path fs workspace) paths)"

text \<open>What the task does with a changed file: \<open>found p\<close> is what is there. It indexes with the sizes of the configuration,
  and an error is logged.\<close>

definition watch_file ::
  "(string \<Rightarrow> string) \<Rightarrow> memory_config \<Rightarrow> int \<Rightarrow> (path \<Rightarrow> found_file) \<Rightarrow> path \<Rightarrow> 'e memory_db \<Rightarrow> 'e memory_db" where
  "watch_file hash mc now found p db =
     (let f = found p; cfg = \<lparr>ix_chunk_size = mm_chunk_size mc, ix_chunk_overlap = mm_chunk_overlap mc\<rparr> in
      case ff_text f of
        Inl _ \<Rightarrow> db
      | Inr body \<Rightarrow> snd (index_file hash cfg (ff_uuids f) now (ff_path f) body (ff_mtime f) (ff_size f) False db))"

text \<open>The events in their order, each with the files as they are when it is handled; without an index the task ends.\<close>

definition watch_events ::
  "(string \<Rightarrow> string) \<Rightarrow> memory_config \<Rightarrow> int \<Rightarrow> bool \<Rightarrow> (watch_event \<times> (path \<Rightarrow> found_file)) list \<Rightarrow> 'e memory_db \<Rightarrow> 'e memory_db" where
  "watch_events hash mc now opened evs db =
     (if \<not> opened then db
      else fold (\<lambda>(ev, found). fold (watch_file hash mc now found) (changed_files ev)) evs db)"

text \<open>What the watcher does not see: files that are removed or renamed away stay in the index until the next full run.\<close>

lemma watch_other: "list_all (\<lambda>(ev, found). we_kind ev = OtherEvent) evs \<Longrightarrow> watch_events hash mc now opened evs db = db"
  by (induction evs) (auto simp: watch_events_def changed_files_def split: if_splits)

definition watch_config :: "memory_config \<Rightarrow> index_config" where
  "watch_config mc = \<lparr>ix_chunk_size = mm_chunk_size mc, ix_chunk_overlap = mm_chunk_overlap mc\<rparr>"

text \<open>An index that is consistent for the sizes of the watcher stays so over any events, as long as identifiers are new.\<close>

fun fresh_events :: "string set \<Rightarrow> (path \<times> (path \<Rightarrow> found_file)) list \<Rightarrow> bool" where
  "fresh_events used [] = True"
| "fresh_events used ((p, found) # es) =
     (inj (ff_uuids (found p)) \<and> range (ff_uuids (found p)) \<inter> used = {}
      \<and> fresh_events (used \<union> range (ff_uuids (found p))) es)"

definition changes_of :: "(watch_event \<times> (path \<Rightarrow> found_file)) list \<Rightarrow> (path \<times> (path \<Rightarrow> found_file)) list" where
  "changes_of evs = concat (map (\<lambda>(ev, found). map (\<lambda>p. (p, found)) (changed_files ev)) evs)"

lemma watch_events_changes:
  "watch_events hash mc now True evs db = fold (\<lambda>(p, found). watch_file hash mc now found p) (changes_of evs) db"
  by (induction evs arbitrary: db) (auto simp: watch_events_def changes_of_def fold_map comp_def)

lemma watch_file_ok:
  assumes "index_ok hash (watch_config mc) db" and "inj hash" and "inj (ff_uuids (found p))"
    and "range (ff_uuids (found p)) \<inter> chunk_ids db = {}"
  shows "index_ok hash (watch_config mc) (watch_file hash mc now found p db)"
    and "chunk_ids (watch_file hash mc now found p db) \<subseteq> chunk_ids db \<union> range (ff_uuids (found p))"
    and "is_ok (ff_text (found p)) \<Longrightarrow> indexed_as (watch_config mc) (watch_file hash mc now found p db) (found p)"
proof -
  have "index_ok hash (watch_config mc) (watch_file hash mc now found p db)
    \<and> chunk_ids (watch_file hash mc now found p db) \<subseteq> chunk_ids db \<union> range (ff_uuids (found p))
    \<and> (is_ok (ff_text (found p)) \<longrightarrow> indexed_as (watch_config mc) (watch_file hash mc now found p db) (found p))"
  proof (cases "ff_text (found p)")
    case (Inl e)
    then show ?thesis using assms(1) by (simp add: watch_file_def res_simps)
  next
    case (Inr body)
    obtain c db' where "index_file hash (watch_config mc) (ff_uuids (found p)) now (ff_path (found p)) body (ff_mtime (found p))
        (ff_size (found p)) False db = (Inr c, db')"
      and db': "index_ok hash (watch_config mc) db'" "chunk_ids db' \<subseteq> chunk_ids db \<union> range (ff_uuids (found p))"
        "infos (chunks_for (ff_path (found p)) db')
         = chunk_text body (ix_chunk_size (watch_config mc)) (ix_chunk_overlap (watch_config mc))"
      using index_file_ok [OF assms, of now "ff_path (found p)" body "ff_mtime (found p)" "ff_size (found p)" False] by blast
    then have "watch_file hash mc now found p db = db'" by (simp add: watch_file_def Inr flip: watch_config_def)
    then show ?thesis using db' by (simp add: indexed_as_def Inr)
  qed
  then show "index_ok hash (watch_config mc) (watch_file hash mc now found p db)"
    "chunk_ids (watch_file hash mc now found p db) \<subseteq> chunk_ids db \<union> range (ff_uuids (found p))"
    "is_ok (ff_text (found p)) \<Longrightarrow> indexed_as (watch_config mc) (watch_file hash mc now found p db) (found p)" by blast+
qed

lemma fresh_events_mono: "fresh_events used es \<Longrightarrow> used' \<subseteq> used \<Longrightarrow> fresh_events used' es"
proof (induction es arbitrary: used used')
  case (Cons e es)
  obtain p found where e: "e = (p, found)" by (cases e)
  have "used' \<union> range (ff_uuids (found p)) \<subseteq> used \<union> range (ff_uuids (found p))" using Cons.prems(2) by blast
  then show ?case using Cons by (auto simp: e)
qed simp

lemma watch_events_ok:
  assumes "index_ok hash (watch_config mc) db" and "inj hash" and "fresh_events (chunk_ids db) (changes_of evs)"
  shows "index_ok hash (watch_config mc) (watch_events hash mc now opened evs db)"
proof -
  have "index_ok hash (watch_config mc) (fold (\<lambda>(p, found). watch_file hash mc now found p) es db)"
    if "index_ok hash (watch_config mc) db" "fresh_events (chunk_ids db) es" for es db
    using that
  proof (induction es arbitrary: db)
    case (Cons e es)
    obtain p found where e: "e = (p, found)" by (cases e)
    have fresh: "inj (ff_uuids (found p))" "range (ff_uuids (found p)) \<inter> chunk_ids db = {}"
      "fresh_events (chunk_ids db \<union> range (ff_uuids (found p))) es" using Cons.prems(2) by (simp_all add: e)
    note ok = watch_file_ok [where found = found and p = p, OF Cons.prems(1) assms(2) fresh(1, 2)]
    show ?case using Cons.IH [OF ok(1) fresh_events_mono [OF fresh(3) ok(2)]] by (simp add: e)
  qed simp
  from this [OF assms(1, 3)] show ?thesis
  proof (cases opened)
    case False
    then show ?thesis using assms(1) by (simp add: watch_events_def)
  qed (simp add: watch_events_changes)
qed

subsection \<open>Artifacts\<close>

record utc_time =
  ut_year :: nat
  ut_month :: nat
  ut_day :: nat
  ut_hour :: nat
  ut_minute :: nat
  ut_second :: nat

record artifact_metadata =
  am_id :: string
  am_type :: string
  am_source_job :: string
  am_trust_level :: string
  am_model :: string
  am_created_at :: utc_time

definition padded :: "nat \<Rightarrow> nat \<Rightarrow> string" where
  "padded k n = (let s = show_nat n in replicate (k - length s) (CHR ''0'') @ s)"

definition artifact_stamp :: "utc_time \<Rightarrow> string" where
  "artifact_stamp c =
     padded 4 (ut_year c) @ ''-'' @ padded 2 (ut_month c) @ ''-'' @ padded 2 (ut_day c) @ ''--''
     @ padded 2 (ut_hour c) @ ''-'' @ padded 2 (ut_minute c) @ ''-'' @ padded 2 (ut_second c)"

text \<open>\<open>uuid\<close> is the identifier in its simple form: 32 hexadecimal digits.\<close>

definition artifact_name :: "utc_time \<Rightarrow> string \<Rightarrow> string \<Rightarrow> string" where
  "artifact_name c uuid source_job =
     artifact_stamp c @ ''__'' @ map (\<lambda>x. if x = CHR ''/'' then CHR ''_'' else x) source_job @ ''__''
     @ take_chars 8 uuid @ ''.md''"

text \<open>\<open>yaml\<close> is the crate \<open>serde_yaml\<close>.\<close>

definition write_artifact ::
  "'w workspace_fs \<Rightarrow> (artifact_metadata \<Rightarrow> (anyhow_error, string) res) \<Rightarrow> string \<Rightarrow> utc_time \<Rightarrow> path \<Rightarrow> string \<Rightarrow> string \<Rightarrow> string
   \<Rightarrow> string \<Rightarrow> 'w \<Rightarrow> (anyhow_error, path) res \<times> 'w" where
  "write_artifact h yaml uuid now storage body source_job trust mdl w =
     and_then (if wk_exists h storage w then (Inr (), w) else wk_create_dir_all h storage w) (\<lambda>_ w1.
       case yaml \<lparr>am_id = uuid, am_type = ''artifact'', am_source_job = source_job, am_trust_level = trust,
                  am_model = mdl, am_created_at = now\<rparr> of
         Inl e \<Rightarrow> (Inl e, w1)
       | Inr y \<Rightarrow>
           let p = path_join storage (components (artifact_name now uuid source_job)) in
           and_then (wk_write h p (''---'' @ nl @ y @ ''---'' @ nl2 @ body) w1) (\<lambda>_ w2. (Inr p, w2)))"

lemma digit_no_slash: "is_ascii_digit c \<Longrightarrow> c \<noteq> CHR ''/''"
  by (auto simp: is_ascii_digit_def)

lemma padded_no_slash: "CHR ''/'' \<notin> set (padded k n)"
  using show_nat_digits [of n] digit_no_slash by (auto simp: padded_def Let_def list_all_iff)

lemma padded_not_Nil [simp]: "padded k n \<noteq> []"
  by (simp add: padded_def Let_def)

lemma artifact_stamp_no_slash: "CHR ''/'' \<notin> set (artifact_stamp c)"
  using padded_no_slash by (simp add: artifact_stamp_def)

text \<open>The job cannot choose the place: an artifact is written directly in the directory of the artifacts, whatever the name of
  the job holds.\<close>

lemma artifact_name_normal:
  assumes "CHR ''/'' \<notin> set uuid"
  shows "normal_name (artifact_name c uuid job)" and "components (artifact_name c uuid job) = [Normal (artifact_name c uuid job)]"
proof -
  let ?n = "artifact_name c uuid job"
  have "set (take_chars 8 uuid) \<subseteq> set uuid" using take_chars_prefix [of 8 uuid] by (rule set_mono_prefix)
  then have slash: "CHR ''/'' \<notin> set ?n" using assms artifact_stamp_no_slash [of c] by (auto simp: artifact_name_def)
  have "length (artifact_name c uuid job) \<ge> 3" by (simp add: artifact_name_def)
  then have long: "?n \<noteq> []" "?n \<noteq> ''.''" "?n \<noteq> ''..''" by auto
  show "normal_name ?n" using slash long by (simp add: normal_name_def)
  have "\<not> prefix ''/'' ?n" using slash by (auto simp: prefix_def)
  then show "components ?n = [Normal ?n]" using slash long by (simp add: components_def Let_def split_on_no_sep component_of_def)
qed

lemma write_artifact_place:
  assumes "CHR ''/'' \<notin> set uuid" and "storage \<noteq> []" and "write_artifact h yaml uuid now storage body job trust mdl w = (Inr p, w')"
  shows "p = storage @ [Normal (artifact_name now uuid job)]"
  using assms(3) unfolding write_artifact_def and_then_Inr artifact_name_normal(2) [OF assms(1)] Let_def
  by (cases "yaml \<lparr>am_id = uuid, am_type = ''artifact'', am_source_job = job, am_trust_level = trust,
      am_model = mdl, am_created_at = now\<rparr>") (use assms(2) in \<open>auto simp: and_then_Inr path_join_def is_absolute_def\<close>)

end
