(* ===== verification/Http_Views.thy ===== *)
theory Http_Views
  imports Http_Server Heartbeat Memory_Service Config_Loading
begin

text \<open>
  The outside of the HTTP server (\<^verbatim>\<open>src/src/server/http.rs\<close>, and the list of models of \<^verbatim>\<open>src/src/server/openai.rs\<close>): its
  routes, its start, and the handlers that show the memory, the configuration, the heartbeat and the saved sessions. The handlers
  that change sessions are in \<open>Http_Server\<close>.

  How a path is cut and which method a route takes is the documented behaviour of \<open>axum\<close>; the assets of the user interface,
  binding an address, and the text of an error are parameters.
\<close>

subsection \<open>The routes\<close>

datatype http_verb = GET | HEAD | POST | DELETE | OtherVerb

datatype segment = Static string | Param | CatchAll

type_synonym route = "segment list \<times> (http_verb \<times> string) list"

definition session_route :: "segment list" where
  "session_route = [Static ''api'', Static ''sessions'', Param]"

definition routes :: "route list" where
  "routes =
     [([], [(GET, ''serve_ui_index'')]),
      ([Static ''ui'', CatchAll], [(GET, ''serve_ui_file'')]),
      ([Static ''health''], [(GET, ''health_check'')]),
      ([Static ''api'', Static ''sessions''], [(POST, ''create_session''), (GET, ''list_sessions'')]),
      (session_route, [(DELETE, ''delete_session''), (GET, ''get_session_status'')]),
      (session_route @ [Static ''messages''], [(GET, ''get_session_messages'')]),
      (session_route @ [Static ''compact''], [(POST, ''compact_session'')]),
      (session_route @ [Static ''clear''], [(POST, ''clear_session'')]),
      (session_route @ [Static ''model''], [(POST, ''set_session_model'')]),
      ([Static ''api'', Static ''chat''], [(POST, ''chat'')]),
      ([Static ''api'', Static ''chat'', Static ''approve''], [(POST, ''approve_tool'')]),
      ([Static ''api'', Static ''chat'', Static ''stream''], [(POST, ''chat_stream'')]),
      ([Static ''api'', Static ''memory'', Static ''search''], [(GET, ''memory_search'')]),
      ([Static ''api'', Static ''memory'', Static ''stats''], [(GET, ''memory_stats'')]),
      ([Static ''api'', Static ''memory'', Static ''reindex''], [(POST, ''memory_reindex'')]),
      ([Static ''api'', Static ''status''], [(GET, ''status'')]),
      ([Static ''api'', Static ''config''], [(GET, ''get_config'')]),
      ([Static ''api'', Static ''heartbeat'', Static ''status''], [(GET, ''heartbeat_status'')]),
      ([Static ''api'', Static ''saved-sessions''], [(GET, ''list_saved_sessions'')]),
      ([Static ''api'', Static ''saved-sessions'', Param], [(GET, ''get_saved_session'')]),
      ([Static ''api'', Static ''logs'', Static ''daemon''], [(GET, ''get_daemon_logs'')]),
      ([Static ''webhooks'', Static ''telegram''], [(POST, ''webhook_handler'')]),
      ([Static ''v1'', Static ''chat'', Static ''completions''], [(POST, ''chat_completions'')]),
      ([Static ''v1'', Static ''models''], [(GET, ''list_models'')])]"

definition proxy_routes :: "route list" where
  "proxy_routes =
     [([Static ''v1'', Static ''chat'', Static ''completions''], [(POST, ''chat_completions'')]),
      ([Static ''v1'', Static ''models''], [(GET, ''list_models'')])]"

text \<open>A parameter takes one part that is not empty, a catch-all the rest of the path.\<close>

fun takes :: "segment list \<Rightarrow> string list \<Rightarrow> bool" where
  "takes [] ps = (ps = [])"
| "takes [CatchAll] ps = (ps \<noteq> [] \<and> ps \<noteq> [[]])"
| "takes (Static s # ss) (p # ps) = (p = s \<and> takes ss ps)"
| "takes (Param # ss) (p # ps) = (p \<noteq> [] \<and> takes ss ps)"
| "takes ss ps = False"

definition path_parts :: "string \<Rightarrow> string list" where
  "path_parts s = (if s = ''/'' then [] else tl (split_on (CHR ''/'') s))"

text \<open>A request to a path no route takes is answered with 404, one with a method its route does not have with 405. A route for
  \<open>GET\<close> serves \<open>HEAD\<close> too.\<close>

definition dispatch_verb :: "(http_verb \<times> string) list \<Rightarrow> http_verb \<Rightarrow> string reply" where
  "dispatch_verb hs v =
     (case map_of hs (if v = HEAD then GET else v) of Some name \<Rightarrow> Reply 200 name | None \<Rightarrow> AppError 405 [])"

definition dispatch_request :: "route list \<Rightarrow> http_verb \<Rightarrow> string \<Rightarrow> string reply" where
  "dispatch_request rs v s =
     (case find (\<lambda>(pat, hs). takes pat (path_parts s)) rs of
        Some (pat, hs) \<Rightarrow> dispatch_verb hs v | None \<Rightarrow> AppError 404 [])"

text \<open>No path is taken by two routes, so the order of the routes and the priorities of the router do not matter.\<close>

fun apart :: "segment list \<Rightarrow> segment list \<Rightarrow> bool" where
  "apart [] ss = (ss \<noteq> [])"
| "apart ss [] = True"
| "apart (Static a # ss) (Static b # ts) = (a \<noteq> b \<or> apart ss ts)"
| "apart (Param # ss) (Param # ts) = apart ss ts"
| "apart (Static a # ss) (Param # ts) = (a = [] \<or> apart ss ts)"
| "apart (Param # ss) (Static b # ts) = (b = [] \<or> apart ss ts)"
| "apart ss ts = False"

lemma takes_CatchAll: "takes (CatchAll # ss) ps \<Longrightarrow> ss = [] \<and> ps \<noteq> []"
  by (cases ss; cases ps) auto

lemma takes_Nil [simp]: "takes ss [] \<longleftrightarrow> ss = []"
proof (cases ss)
  case (Cons x xs)
  then show ?thesis by (cases x; cases xs) auto
qed simp

lemma apart_takes: "apart ss ts \<Longrightarrow> takes ss ps \<Longrightarrow> \<not> takes ts ps"
proof (induction ss ts arbitrary: ps rule: apart.induct)
  case (2 s ss)
  then show ?case by (cases ps; cases s) (auto dest: takes_CatchAll)
next
  case (3 a ss b ts)
  then show ?case by (cases ps) auto
next
  case (4 ss ts)
  then show ?case by (cases ps) auto
next
  case (5 a ss ts)
  then show ?case by (cases ps) auto
next
  case (6 ss b ts)
  then show ?case by (cases ps) auto
qed auto

lemma routes_apart: "sorted_wrt (\<lambda>a b. apart (fst a) (fst b)) routes"
  by (simp add: routes_def session_route_def)

lemma find_apart:
  assumes "sorted_wrt (\<lambda>a b. apart (fst a) (fst b)) rs" and "(pat, hs) \<in> set rs" and "takes pat ps"
  shows "find (\<lambda>(q, hs). takes q ps) rs = Some (pat, hs)"
  using assms
proof (induction rs)
  case (Cons r rs)
  show ?case
  proof (cases "r = (pat, hs)")
    case False
    then have "apart (fst r) pat" "(pat, hs) \<in> set rs" using Cons.prems by auto
    then have "\<not> takes (fst r) ps" using apart_takes Cons.prems(3) by blast
    then show ?thesis using Cons False by (cases r) auto
  qed (use Cons.prems in simp)
qed simp

theorem routes_unambiguous:
  assumes "(pat, hs) \<in> set routes" and "takes pat (path_parts s)"
  shows "dispatch_request routes v s = dispatch_verb hs v"
  using find_apart [OF routes_apart assms] by (simp add: dispatch_request_def)

text \<open>Whatever the proxy serves, the server serves alike.\<close>

lemma proxy_served: "(pat, hs) \<in> set proxy_routes \<Longrightarrow> (pat, hs) \<in> set routes"
  by (auto simp: proxy_routes_def routes_def)

subsection \<open>The start\<close>

record ('a, 'w) server_net =
  sn_memory :: "'w \<Rightarrow> (anyhow_error, unit) res \<times> 'w"
  sn_lock :: "'w \<Rightarrow> (anyhow_error, unit) res \<times> 'w"
  sn_parse_addr :: "string \<Rightarrow> (anyhow_error, 'a) res"
  sn_bind :: "'a \<Rightarrow> 'w \<Rightarrow> (anyhow_error, unit) res \<times> 'w"

definition server_addr :: "string \<Rightarrow> u16 \<Rightarrow> string" where
  "server_addr bind_to port = bind_to @ '':'' @ show_nat (unat port)"

definition app_state_new :: "'w \<Rightarrow> transcripts \<Rightarrow> 'w app_state" where
  "app_state_new w files = \<lparr>as_sessions = [], as_agents = [], as_files = files, as_world = w\<rparr>"

text \<open>What \<open>Server::run\<close> does before it serves: the state with the sessions loaded from disk (an error there is logged), the
  address bound, and the address of the proxy, which is bound by a task of its own; the result tells whether that is started.\<close>

definition server_start ::
  "('a, 'w) server_net \<Rightarrow> 'w http_env \<Rightarrow> config \<Rightarrow> nat \<Rightarrow> transcripts \<Rightarrow> 'w
   \<Rightarrow> (anyhow_error, 'a option) res \<times> 'w app_state" where
  "server_start net env c now files w =
     (case sn_memory net w of
        (Inl e, w1) \<Rightarrow> (Inl e, app_state_new w1 files)
      | (Inr _, w1) \<Rightarrow>
     (case sn_lock net w1 of
        (Inl e, w2) \<Rightarrow> (Inl e, app_state_new w2 files)
      | (Inr _, w2) \<Rightarrow>
          let st = snd (load_persisted_sessions env now (app_state_new w2 files));
              sv = cf_server c; px = sv_openai_proxy sv in
          case sn_parse_addr net (server_addr (sv_bind sv) (sv_port sv)) of
            Inl e \<Rightarrow> (Inl e, st)
          | Inr a \<Rightarrow>
              (case sn_bind net a (as_world st) of
                 (Inl e, w3) \<Rightarrow> (Inl e, st\<lparr>as_world := w3\<rparr>)
               | (Inr _, w3) \<Rightarrow>
                   ((if px_enabled px
                     then map_sum id Some (sn_parse_addr net (server_addr (px_bind px) (px_port px)))
                     else Inr None), st\<lparr>as_world := w3\<rparr>))))"

definition proxy_start :: "('a, 'w) server_net \<Rightarrow> 'a \<Rightarrow> 'w \<Rightarrow> bool \<times> 'w" where
  "proxy_start net a w = apfst is_ok (sn_bind net a w)"

text \<open>An address of the proxy that cannot be read stops the server, which has bound its own address by then; one that cannot be
  bound does not.\<close>

lemma proxy_address_stops_server:
  assumes "sn_memory net w = (Inr (), w1)" and "sn_lock net w1 = (Inr (), w2)"
    and "sn_parse_addr net (server_addr (sv_bind (cf_server c)) (sv_port (cf_server c))) = Inr a"
    and "\<And>w. fst (sn_bind net a w) = Inr ()" and "px_enabled (sv_openai_proxy (cf_server c))"
  shows "fst (server_start net env c now files w) = map_sum id Some (sn_parse_addr net
    (server_addr (px_bind (sv_openai_proxy (cf_server c))) (px_port (sv_openai_proxy (cf_server c)))))"
proof -
  let ?st = "snd (load_persisted_sessions env now (app_state_new w2 files))"
  obtain w3 where "sn_bind net a (as_world ?st) = (Inr (), w3)" using assms(4) [of "as_world ?st"] by (metis prod.collapse)
  then show ?thesis using assms(1-3, 5) by (simp add: server_start_def Let_def)
qed

subsection \<open>Handlers that only show\<close>

definition http_health_check :: string where
  "http_health_check = ''OK''"

text \<open>\<open>assets\<close> are the embedded files, \<open>mime\<close> the crate \<open>mime_guess\<close>; a reply is the type of the content with the content.\<close>

definition serve_ui_asset :: "(string \<Rightarrow> string option) \<Rightarrow> (string \<Rightarrow> string) \<Rightarrow> string \<Rightarrow> (string \<times> string) reply" where
  "serve_ui_asset assets mime s =
     (case assets s of Some body \<Rightarrow> Reply 200 (mime s, body) | None \<Rightarrow> AppError 404 ''Not found'')"

definition serve_ui_index :: "(string \<Rightarrow> string option) \<Rightarrow> (string \<Rightarrow> string) \<Rightarrow> (string \<times> string) reply" where
  "serve_ui_index assets mime = serve_ui_asset assets mime ''index.html''"

record status_response =
  st_version :: string
  st_model :: string
  st_memory_chunks :: nat
  st_active_sessions :: nat

definition http_status :: "string \<Rightarrow> config \<Rightarrow> (anyhow_error, nat) res \<Rightarrow> 'w app_state \<Rightarrow> status_response" where
  "http_status version c chunks st =
     \<lparr>st_version = version, st_model = ac_default_model (cf_agent c), st_memory_chunks = unwrap_or (ok_opt chunks) 0,
      st_active_sessions = length (as_sessions st)\<rparr>"

definition internal :: "(anyhow_error \<Rightarrow> string) \<Rightarrow> (anyhow_error, 'b) res \<Rightarrow> 'b reply" where
  "internal show_err r = (case r of Inr b \<Rightarrow> Reply 200 b | Inl e \<Rightarrow> AppError 500 (show_err e))"

record 'f search_response =
  sp_results :: "'f memory_chunk list"
  sp_query :: string

definition http_memory_search ::
  "(anyhow_error \<Rightarrow> string) \<Rightarrow> (string \<Rightarrow> nat \<Rightarrow> 'w \<Rightarrow> (anyhow_error, 'f memory_chunk list) res \<times> 'w) \<Rightarrow> string \<Rightarrow> usize option \<Rightarrow> 'w
   \<Rightarrow> 'f search_response reply \<times> 'w" where
  "http_memory_search show_err search q limit w =
     apfst (\<lambda>r. internal show_err (map_sum id (\<lambda>rs. \<lparr>sp_results = rs, sp_query = q\<rparr>) r))
       (search q (unat (unwrap_or limit 10)) w)"

record stats_response =
  sa_workspace :: string
  sa_total_files :: nat
  sa_total_chunks :: nat
  sa_index_size_kb :: u64

definition http_memory_stats :: "(anyhow_error \<Rightarrow> string) \<Rightarrow> (anyhow_error, memory_stats) res \<Rightarrow> stats_response reply" where
  "http_memory_stats show_err r =
     internal show_err (map_sum id (\<lambda>s. \<lparr>sa_workspace = ms_workspace s, sa_total_files = ms_total_files s,
       sa_total_chunks = ms_total_chunks s, sa_index_size_kb = ms_index_size_kb s\<rparr>) r)"

record reindex_response =
  rr_files_processed :: nat
  rr_files_updated :: nat
  rr_chunks_indexed :: nat
  rr_duration_ms :: nat

text \<open>The body may leave \<open>force\<close> out. \<open>took\<close> is the time in milliseconds.\<close>

definition http_memory_reindex ::
  "(anyhow_error \<Rightarrow> string) \<Rightarrow> (bool \<Rightarrow> 'd \<Rightarrow> (anyhow_error, nat \<times> nat \<times> nat) res \<times> 'd) \<Rightarrow> nat \<Rightarrow> bool option \<Rightarrow> 'd
   \<Rightarrow> reindex_response reply \<times> 'd" where
  "http_memory_reindex show_err run took force db =
     apfst (\<lambda>r. internal show_err (map_sum id (\<lambda>(p, u, n).
         \<lparr>rr_files_processed = p, rr_files_updated = u, rr_chunks_indexed = n, rr_duration_ms = took\<rparr>) r))
       (run (unwrap_or force False) db)"

record config_response =
  cs_default_model :: string
  cs_context_window :: usize
  cs_reserve_tokens :: usize
  cs_port :: u16
  cs_bind :: string
  cs_workspace :: string
  cs_embedding_model :: string
  cs_chunk_size :: usize
  cs_chunk_overlap :: usize
  cs_heartbeat_enabled :: bool
  cs_heartbeat_interval :: string

definition http_config :: "config \<Rightarrow> config_response" where
  "http_config c =
     \<lparr>cs_default_model = ac_default_model (cf_agent c), cs_context_window = ac_context_window (cf_agent c),
      cs_reserve_tokens = ac_reserve_tokens (cf_agent c), cs_port = sv_port (cf_server c), cs_bind = sv_bind (cf_server c),
      cs_workspace = mm_workspace (cf_memory c), cs_embedding_model = mm_embedding_model (cf_memory c),
      cs_chunk_size = mm_chunk_size (cf_memory c), cs_chunk_overlap = mm_chunk_overlap (cf_memory c),
      cs_heartbeat_enabled = hb_enabled (cf_heartbeat c), cs_heartbeat_interval = hb_interval (cf_heartbeat c)\<rparr>"

text \<open>The configuration that is shown does not depend on anything secret: keys, tokens, models, tools.\<close>

lemma http_config_shows_no_secret:
  "http_config (c\<lparr>cf_providers := p, cf_models := m, cf_tools := t, cf_sandbox := sb, cf_server := (cf_server c)
     \<lparr>sv_owner_telegram_id := o1, sv_telegram_secret_token := o2, sv_telegram_bot_token := o3\<rparr>\<rparr>) = http_config c"
  by (simp add: http_config_def)

record heartbeat_event_info =
  hi_ts :: u64
  hi_status :: string
  hi_duration_ms :: u64
  hi_preview :: "string option"
  hi_reason :: "string option"
  hi_age_seconds :: u64

record heartbeat_status_response =
  hr_enabled :: bool
  hr_interval :: string
  hr_last_event :: "heartbeat_event_info option"

definition http_heartbeat_status_name :: "heartbeat_status \<Rightarrow> string" where
  "http_heartbeat_status_name s =
     (case s of Sent \<Rightarrow> ''sent'' | HeartbeatOk \<Rightarrow> ''ok'' | Skipped \<Rightarrow> ''skipped'' | Failed \<Rightarrow> ''failed'')"

text \<open>The event that was emitted last, and its age by the clock, none if the clock is behind it.\<close>

definition emit_heartbeat_event :: "heartbeat_event \<Rightarrow> heartbeat_event option \<Rightarrow> heartbeat_event option" where
  "emit_heartbeat_event e _ = Some e"

definition saturating_minus :: "u64 \<Rightarrow> u64 \<Rightarrow> u64" where
  "saturating_minus a b = (if b \<le> a then a - b else 0)"

definition event_info :: "u64 \<Rightarrow> heartbeat_event \<Rightarrow> heartbeat_event_info" where
  "event_info now_ms e =
     \<lparr>hi_ts = he_ts e, hi_status = http_heartbeat_status_name (he_status e), hi_duration_ms = he_duration_ms e,
      hi_preview = he_preview e, hi_reason = he_reason e, hi_age_seconds = saturating_minus now_ms (he_ts e) div 1000\<rparr>"

definition http_heartbeat_status :: "config \<Rightarrow> u64 \<Rightarrow> heartbeat_event option \<Rightarrow> heartbeat_status_response" where
  "http_heartbeat_status c now_ms last_event =
     \<lparr>hr_enabled = hb_enabled (cf_heartbeat c), hr_interval = hb_interval (cf_heartbeat c),
      hr_last_event = map_option (event_info now_ms) last_event\<rparr>"

lemma saturating_minus_nat: "unat (saturating_minus a b) = unat a - unat b"
  by (auto simp: saturating_minus_def unat_sub word_le_nat_alt)

lemma event_age: "unat (hi_age_seconds (event_info now_ms e)) = (unat now_ms - unat (he_ts e)) div 1000"
  by (simp add: event_info_def unat_div saturating_minus_nat)

record saved_session_info =
  sn_id :: string
  sn_message_count :: nat
  sn_created_at :: string

definition http_saved_sessions :: "(int \<Rightarrow> string) \<Rightarrow> serde \<Rightarrow> int \<Rightarrow> transcripts \<Rightarrow> saved_session_info list" where
  "http_saved_sessions show_time sd now fs =
     map (\<lambda>s. \<lparr>sn_id = si_id s, sn_message_count = si_message_count s, sn_created_at = show_time (si_created_at s)\<rparr>)
       (list_sessions_for_agent sd now HTTP_AGENT_ID fs)"

text \<open>Every saved session that is shown is a transcript of the server's own agent.\<close>

lemma saved_sessions_own:
  "s \<in> set (http_saved_sessions show_time sd now fs) \<Longrightarrow> (HTTP_AGENT_ID, sn_id s) \<in> fst ` set fs"
  by (force simp: http_saved_sessions_def list_sessions_for_agent_def transcript_info_def List.map_filter_def
      split: if_splits list.splits option.splits)

record openai_model =
  om_id :: string
  om_object :: string
  om_created :: nat
  om_owned_by :: string

definition list_models :: "config \<Rightarrow> string \<times> openai_model list" where
  "list_models c = (''list'', [\<lparr>om_id = ac_default_model (cf_agent c), om_object = ''model'', om_created = 1677610602,
     om_owned_by = ''zier-alpha''\<rparr>])"

end
