(* ===== verification/Daemon.thy ===== *)
theory Daemon
  imports Memory_Service Config_Loading
begin

text \<open>
  The daemon as a process: starting, stopping and restarting it by its PID file, its log files and the order in which it starts its
  services (\<^verbatim>\<open>src/src/cli/daemon.rs\<close>), the supervisor (\<^verbatim>\<open>src/src/main.rs\<close>), the policy extensions run under
  (\<^verbatim>\<open>src/src/cli/common.rs\<close>) and the prompts they use (\<^verbatim>\<open>src/src/prompts/registry.rs\<close>). The platform is Unix.

  \<open>daemon_host\<close> is the PID file, signals, the clock and the services on a world \<open>'w\<close>; what is printed is left out.
\<close>

subsection \<open>The PID file\<close>

text \<open>\<open>dm_pid_file\<close> is \<open>None\<close> if the file is not there, else what reading it gives; \<open>dm_alive\<close> is \<open>kill -0\<close>, \<open>dm_term\<close> starting
  \<open>kill -TERM\<close>, and \<open>dm_pause\<close> a tenth of a second.\<close>

record 'w daemon_host =
  dm_pid_file :: "'w \<Rightarrow> (anyhow_error, string) res option"
  dm_remove_pid :: "'w \<Rightarrow> (anyhow_error, unit) res \<times> 'w"
  dm_write_pid :: "'w \<Rightarrow> (anyhow_error, unit) res \<times> 'w"
  dm_alive :: "string \<Rightarrow> 'w \<Rightarrow> bool"
  dm_term :: "string \<Rightarrow> 'w \<Rightarrow> (anyhow_error, unit) res \<times> 'w"
  dm_pause :: "'w \<Rightarrow> 'w"
  dm_config :: "'w \<Rightarrow> (anyhow_error, config) res"
  dm_serve :: "config \<Rightarrow> string \<Rightarrow> 'w \<Rightarrow> (anyhow_error, unit) res \<times> 'w"

definition is_process_running :: "'w daemon_host \<Rightarrow> string \<Rightarrow> 'w \<Rightarrow> bool" where
  "is_process_running h pid w = dm_alive h (trim pid) w"

datatype stop_outcome = NotRunning | StalePid | Stopped | Signalled string

fun wait_stopped :: "'w daemon_host \<Rightarrow> string \<Rightarrow> nat \<Rightarrow> 'w \<Rightarrow> 'w" where
  "wait_stopped h pid 0 w = w"
| "wait_stopped h pid (Suc n) w = (if \<not> is_process_running h pid w then w else wait_stopped h pid n (dm_pause h w))"

text \<open>The error of a file is ignored: \<open>.ok()\<close>.\<close>

definition ignored :: "(anyhow_error, unit) res \<times> 'w \<Rightarrow> 'w" where
  "ignored r = snd r"

definition not_stopped :: "string \<Rightarrow> anyhow_error" where
  "not_stopped pid = Msg (''Failed to stop daemon (PID: '' @ pid @ '')'')"

definition stop_sync :: "'w daemon_host \<Rightarrow> 'w \<Rightarrow> (anyhow_error, stop_outcome) res \<times> 'w" where
  "stop_sync h w =
     (case dm_pid_file h w of
        None \<Rightarrow> (Inr NotRunning, w)
      | Some (Inl e) \<Rightarrow> (Inl e, w)
      | Some (Inr s) \<Rightarrow>
          let pid = trim s in
          if \<not> is_process_running h pid w then and_then (dm_remove_pid h w) (\<lambda>_ w1. (Inr StalePid, w1))
          else and_then (dm_term h pid w) (\<lambda>_ w1.
            let w2 = wait_stopped h pid 50 w1 in
            if is_process_running h pid w2 then (Inl (not_stopped pid), w2)
            else (Inr Stopped, ignored (dm_remove_pid h w2))))"

definition stop_daemon :: "'w daemon_host \<Rightarrow> 'w \<Rightarrow> (anyhow_error, stop_outcome) res \<times> 'w" where
  "stop_daemon h w =
     (case dm_pid_file h w of
        None \<Rightarrow> (Inr NotRunning, w)
      | Some (Inl e) \<Rightarrow> (Inl e, w)
      | Some (Inr s) \<Rightarrow>
          let pid = trim s in
          if \<not> is_process_running h pid w then and_then (dm_remove_pid h w) (\<lambda>_ w1. (Inr StalePid, w1))
          else and_then (dm_term h pid w) (\<lambda>_ w1.
            and_then (dm_remove_pid h w1) (\<lambda>_ w2. (Inr (Signalled pid), w2))))"

text \<open>What every start begins with: an entry of a process that runs is an error, any other is removed.\<close>

definition check_not_running :: "'w daemon_host \<Rightarrow> 'w \<Rightarrow> (anyhow_error, unit) res \<times> 'w" where
  "check_not_running h w =
     (case dm_pid_file h w of
        None \<Rightarrow> (Inr (), w)
      | Some (Inl e) \<Rightarrow> (Inl e, w)
      | Some (Inr pid) \<Rightarrow>
          if is_process_running h pid w then (Inl (Msg (''Daemon already running (PID: '' @ trim pid @ '')'')), w)
          else dm_remove_pid h w)"

definition start_daemon :: "'w daemon_host \<Rightarrow> bool \<Rightarrow> string \<Rightarrow> 'w \<Rightarrow> (anyhow_error, unit) res \<times> 'w" where
  "start_daemon h foreground agent_id w =
     (case dm_config h w of
        Inl e \<Rightarrow> (Inl e, w)
      | Inr c \<Rightarrow>
          and_then (check_not_running h w) (\<lambda>_ w1.
          if \<not> foreground then (Inl (Msg ''Background mode should be handled before Tokio starts''), w1)
          else and_then (dm_write_pid h w1) (\<lambda>_ w2.
          and_then (dm_serve h c agent_id w2) (\<lambda>_ w3. (Inr (), ignored (dm_remove_pid h w3))))))"

definition restart_daemon :: "'w daemon_host \<Rightarrow> bool \<Rightarrow> string \<Rightarrow> 'w \<Rightarrow> (anyhow_error, unit) res \<times> 'w" where
  "restart_daemon h foreground agent_id w =
     and_then
       (case dm_pid_file h w of
          None \<Rightarrow> (Inr (), w)
        | Some (Inl e) \<Rightarrow> (Inl e, w)
        | Some (Inr s) \<Rightarrow>
            let pid = trim s in
            and_then
              (if is_process_running h pid w
               then and_then (dm_term h pid w) (\<lambda>_ w1.
                 let w2 = wait_stopped h pid 50 w1 in
                 if is_process_running h pid w2 then (Inl (not_stopped pid), w2) else (Inr (), w2))
               else (Inr (), w))
              (\<lambda>_ w3. (Inr (), ignored (dm_remove_pid h w3))))
       (\<lambda>_ w4. if \<not> foreground then (Inr (), w4) else start_daemon h True agent_id w4)"

text \<open>In the background the library that forks writes the PID file: \<open>fork\<close> is the outcome of forking, seen by the child.\<close>

definition daemonize_and_run ::
  "'w daemon_host \<Rightarrow> ('w \<Rightarrow> (anyhow_error, unit) res \<times> 'w) \<Rightarrow> ('w \<Rightarrow> (anyhow_error, unit) res \<times> 'w) \<Rightarrow> string \<Rightarrow> 'w
   \<Rightarrow> (anyhow_error, unit) res \<times> 'w" where
  "daemonize_and_run h open_log fork agent_id w =
     (case dm_config h w of
        Inl e \<Rightarrow> (Inl e, w)
      | Inr c \<Rightarrow>
          and_then (check_not_running h w) (\<lambda>_ w1.
          and_then (open_log w1) (\<lambda>_ w2.
          and_then (fork w2) (\<lambda>_ w3.
          and_then (dm_serve h c agent_id w3) (\<lambda>_ w4. (Inr (), ignored (dm_remove_pid h w4)))))))"

definition daemon_shown_running :: "'w daemon_host \<Rightarrow> 'w \<Rightarrow> (anyhow_error, bool) res" where
  "daemon_shown_running h w =
     (case dm_pid_file h w of None \<Rightarrow> Inr False | Some r \<Rightarrow> map_sum id (\<lambda>pid. is_process_running h pid w) r)"

subsection \<open>What stopping and starting guarantee\<close>

lemma wait_stopped_pauses: "\<exists>k. wait_stopped h pid n w = (dm_pause h ^^ k) w \<and> k \<le> n"
proof (induction n arbitrary: w)
  case (Suc n)
  obtain k where "wait_stopped h pid n (dm_pause h w) = (dm_pause h ^^ k) (dm_pause h w)" "k \<le> n" using Suc by blast
  then show ?case
    by (cases "is_process_running h pid w")
       (simp add: funpow_swap1 exI [of _ "Suc k"], metis wait_stopped.simps(2) funpow_0 le0)
qed simp

text \<open>When a stop reports success the process has ended, within five seconds; when it fails after the signal the process runs and
  the PID file is as it was.\<close>

theorem stop_sync_spec:
  "case stop_sync h w of
     (Inr NotRunning, w') \<Rightarrow> w' = w \<and> dm_pid_file h w = None
   | (Inr StalePid, w') \<Rightarrow> (\<exists>s. dm_pid_file h w = Some (Inr s) \<and> \<not> is_process_running h (trim s) w \<and> dm_remove_pid h w = (Inr (), w'))
   | (Inr Stopped, w') \<Rightarrow> (\<exists>s w1 k. dm_pid_file h w = Some (Inr s) \<and> is_process_running h (trim s) w \<and> dm_term h (trim s) w = (Inr (), w1)
        \<and> k \<le> 50 \<and> \<not> is_process_running h (trim s) ((dm_pause h ^^ k) w1) \<and> w' = snd (dm_remove_pid h ((dm_pause h ^^ k) w1)))
   | (Inr (Signalled pid), w') \<Rightarrow> False
   | (Inl e, w') \<Rightarrow> True"
proof (cases "dm_pid_file h w")
  case (Some r)
  show ?thesis
  proof (cases r)
    case (Inr s)
    show ?thesis
    proof (cases "is_process_running h (trim s) w")
      case True
      obtain r1 w1 where signal: "dm_term h (trim s) w = (r1, w1)" by (cases "dm_term h (trim s) w")
      obtain k where k: "wait_stopped h (trim s) 50 w1 = (dm_pause h ^^ k) w1" "k \<le> 50" using wait_stopped_pauses [of h "trim s" 50 w1] by blast
      show ?thesis
      proof (cases "(\<exists>e. r1 = Inl e) \<or> is_process_running h (trim s) ((dm_pause h ^^ k) w1)")
        case True
        then show ?thesis
          using Some Inr \<open>is_process_running h (trim s) w\<close> signal k(1)
          by (cases r1) (simp_all add: stop_sync_def Let_def and_then_def)
      next
        case False
        then have "stop_sync h w = (Inr Stopped, snd (dm_remove_pid h ((dm_pause h ^^ k) w1)))" and "r1 = Inr ()"
          using Some Inr True signal k(1) by (cases r1; simp add: stop_sync_def Let_def and_then_def ignored_def)+
        moreover have "\<not> is_process_running h (trim s) ((dm_pause h ^^ k) w1)" using False by simp
        ultimately show ?thesis using Some Inr True signal k(2) by simp blast
      qed
    next
      case False
      then show ?thesis
        using Some Inr by (cases "dm_remove_pid h w"; cases "fst (dm_remove_pid h w)")
          (auto simp: stop_sync_def Let_def and_then_def)
    qed
  qed (use Some in \<open>simp add: stop_sync_def\<close>)
qed (simp add: stop_sync_def)

lemma start_refused:
  assumes "dm_config h w = Inr c" and "dm_pid_file h w = Some (Inr pid)" and "is_process_running h pid w"
  shows "start_daemon h foreground agent_id w = (Inl (Msg (''Daemon already running (PID: '' @ trim pid @ '')'')), w)"
  using assms by (simp add: start_daemon_def check_not_running_def and_then_def)

text \<open>The other stop only signals, and takes the PID file away while the process may still run: whoever starts the daemon then gets
  a second one. Here the process takes three pauses to end.\<close>

record slow_world =
  sw_pid_file :: "string option"
  sw_left :: nat
  sw_served :: nat

definition slow_host :: "slow_world daemon_host" where
  "slow_host = \<lparr>dm_pid_file = (\<lambda>w. map_option Inr (sw_pid_file w)), dm_remove_pid = (\<lambda>w. (Inr (), w\<lparr>sw_pid_file := None\<rparr>)),
     dm_write_pid = (\<lambda>w. (Inr (), w\<lparr>sw_pid_file := Some ''8''\<rparr>)), dm_alive = (\<lambda>pid w. pid = ''7'' \<and> 0 < sw_left w),
     dm_term = (\<lambda>pid w. (Inr (), w)), dm_pause = (\<lambda>w. w\<lparr>sw_left := sw_left w - 1\<rparr>), dm_config = (\<lambda>w. Inr default_config),
     dm_serve = (\<lambda>c a w. (Inr (), w\<lparr>sw_served := sw_left w\<rparr>))\<rparr>"

lemma trim_digit: "trim ''7'' = ''7''" "trim ''8'' = ''8''"
  by code_simp+

lemma stop_then_start_overlaps:
  defines "w \<equiv> \<lparr>sw_pid_file = Some ''7'', sw_left = 3, sw_served = 0\<rparr>"
  shows "fst (stop_daemon slow_host w) = Inr (Signalled ''7'')"
    and "sw_served (snd (start_daemon slow_host True ''main'' (snd (stop_daemon slow_host w)))) = 3"
    and "fst (stop_sync slow_host w) = Inr Stopped" and "sw_left (snd (stop_sync slow_host w)) = 0"
  by (simp_all add: w_def stop_daemon_def start_daemon_def check_not_running_def stop_sync_def and_then_def slow_host_def
      is_process_running_def ignored_def trim_digit numeral_eq_Suc Let_def)

text \<open>Two starts that both look before either writes both go on.\<close>

lemma start_check_keeps: "dm_pid_file h w = None \<Longrightarrow> check_not_running h w = (Inr (), w)"
  by (simp add: check_not_running_def)

subsection \<open>The log files\<close>

definition date_text :: "nat \<times> nat \<times> nat \<Rightarrow> string" where
  "date_text d = (case d of (y, m, k) \<Rightarrow> padded 4 y @ ''-'' @ padded 2 m @ ''-'' @ padded 2 k)"

definition log_name :: "nat \<times> nat \<times> nat \<Rightarrow> string" where
  "log_name d = ''zier-alpha-'' @ date_text d @ ''.log''"

definition log_date :: "string \<Rightarrow> string option" where
  "log_date name = Option.bind (strip_prefix name ''zier-alpha-'') (\<lambda>s. strip_suffix s ''.log'')"

text \<open>The files that are removed: the comparison is that of texts. \<open>cutoff\<close> is the day \<open>keep_days\<close> before today.\<close>

definition prune_old_logs :: "nat \<times> nat \<times> nat \<Rightarrow> string list \<Rightarrow> string list" where
  "prune_old_logs cutoff names =
     filter (\<lambda>n. case log_date n of Some d \<Rightarrow> d < date_text cutoff | None \<Rightarrow> False) names"

definition get_log_file ::
  "path \<Rightarrow> (anyhow_error, unit) res \<Rightarrow> nat \<times> nat \<times> nat \<Rightarrow> (nat \<Rightarrow> nat \<times> nat \<times> nat) \<Rightarrow> string list \<Rightarrow> u32
   \<Rightarrow> (anyhow_error, path) res \<times> string list" where
  "get_log_file logs_dir made today days_before names retention_days =
     (case made of
        Inl e \<Rightarrow> (Inl e, [])
      | Inr _ \<Rightarrow> (Inr (path_join logs_dir [Normal (log_name today)]),
          if 0 < retention_days then prune_old_logs (days_before (unat retention_days)) names else []))"

lemma append_less_append:
  "length xs = length ys \<Longrightarrow> xs @ us < ys @ vs \<longleftrightarrow> xs < ys \<or> xs = ys \<and> us < (vs :: string)"
proof (induction xs arbitrary: ys)
  case (Cons x xs)
  then show ?case by (cases ys) auto
qed simp

lemma digit_char_less: "a < 10 \<Longrightarrow> b < 10 \<Longrightarrow> digit_char a < digit_char b \<longleftrightarrow> a < b"
  by (simp add: digit_char_def less_char_def)

lemma digit_char_eq: "a < 10 \<Longrightarrow> b < 10 \<Longrightarrow> digit_char a = digit_char b \<longleftrightarrow> a = b"
  using digit_char_less [of a b] digit_char_less [of b a] by (metis less_irrefl nat_neq_iff)

lemma digit_char_zero: "digit_char 0 = CHR ''0''"
  by code_simp

lemma show_nat_digit: "n < 10 \<Longrightarrow> show_nat n = [digit_char n]"
  by (simp add: show_nat.simps)

lemma padded_Suc:
  assumes "0 < k"
  shows "padded (Suc k) n = padded k (n div 10) @ [digit_char (n mod 10)]"
proof (cases "n < 10")
  case True
  obtain j where "k = Suc j" using assms by (cases k) auto
  then show ?thesis
    using True by (simp add: padded_def show_nat_digit digit_char_zero flip: replicate_append_same)
next
  case False
  then have "show_nat n = show_nat (n div 10) @ [digit_char (n mod 10)]" by (subst show_nat.simps) simp
  then show ?thesis by (simp add: padded_def Let_def)
qed

lemma padded_one: "n < 10 \<Longrightarrow> padded 1 n = [digit_char n]"
  by (simp add: padded_def show_nat_digit)

lemma padded_length: "0 < k \<Longrightarrow> n < 10 ^ k \<Longrightarrow> length (padded k n) = k"
proof (induction k arbitrary: n rule: nat_induct_non_zero)
  case (Suc k)
  then have "n div 10 < 10 ^ k" by (simp add: less_mult_imp_div_less)
  then show ?case using Suc by (simp add: padded_Suc)
qed (use padded_one in simp)

lemma padded_order:
  "0 < k \<Longrightarrow> m < 10 ^ k \<Longrightarrow> n < 10 ^ k \<Longrightarrow>
   (padded k m < padded k n \<longleftrightarrow> m < n) \<and> (padded k m = padded k n \<longleftrightarrow> m = n)"
proof (induction k arbitrary: m n rule: nat_induct_non_zero)
  case 1
  then show ?case using padded_one [of m] padded_one [of n] by (simp add: digit_char_less digit_char_eq)
next
  case (Suc k)
  have le: "m div 10 < 10 ^ k" "n div 10 < 10 ^ k" using Suc.prems by (simp_all add: less_mult_imp_div_less)
  have order: "m < n \<longleftrightarrow> m div 10 < n div 10 \<or> m div 10 = n div 10 \<and> m mod 10 < n mod 10"
    using div_mult_mod_eq [of m 10] div_mult_mod_eq [of n 10] mod_less_divisor [of 10 m] mod_less_divisor [of 10 n] by linarith
  have same: "m = n \<longleftrightarrow> m div 10 = n div 10 \<and> m mod 10 = n mod 10" by (metis div_mult_mod_eq)
  have "length (padded k (m div 10)) = length (padded k (n div 10))" using padded_length [OF Suc.hyps(1)] le by simp
  then have parts: "padded (Suc k) m < padded (Suc k) n \<longleftrightarrow> m div 10 < n div 10 \<or> m div 10 = n div 10 \<and> m mod 10 < n mod 10"
    "padded (Suc k) m = padded (Suc k) n \<longleftrightarrow> m div 10 = n div 10 \<and> m mod 10 = n mod 10"
    using Suc.IH [OF le] by (simp_all add: padded_Suc [OF Suc.hyps(1)] append_less_append digit_char_less digit_char_eq)
  show ?case unfolding parts using order same by (intro conjI) (rule sym, assumption)+
qed

lemmas padded_facts = padded_length padded_order [THEN conjunct1] padded_order [THEN conjunct2]

definition day_ok :: "nat \<times> nat \<times> nat \<Rightarrow> bool" where
  "day_ok d \<longleftrightarrow> (case d of (y, m, k) \<Rightarrow> y < 10000 \<and> m < 100 \<and> k < 100)"

definition earlier :: "nat \<times> nat \<times> nat \<Rightarrow> nat \<times> nat \<times> nat \<Rightarrow> bool" where
  "earlier a b \<longleftrightarrow> (case (a, b) of ((y, m, k), (y', m', k')) \<Rightarrow> y < y' \<or> y = y' \<and> (m < m' \<or> m = m' \<and> k < k'))"

lemma date_text_less:
  assumes "day_ok a" and "day_ok b"
  shows "date_text a < date_text b \<longleftrightarrow> earlier a b"
proof -
  obtain y m k y' m' k' where ab: "a = (y, m, k)" "b = (y', m', k')" by (cases a; cases b)
  then have le: "y < 10 ^ 4" "y' < 10 ^ 4" "m < 10 ^ 2" "m' < 10 ^ 2" "k < 10 ^ 2" "k' < 10 ^ 2"
    using assms by (simp_all add: day_ok_def)
  then have "length (padded 4 y) = length (padded 4 y')" "length (padded 2 m) = length (padded 2 m')"
    by (simp_all add: padded_length)
  then show ?thesis
    using padded_order [of 4 y y'] padded_order [of 2 m m'] padded_order [of 2 k k'] le
    by (simp add: ab date_text_def earlier_def append_less_append)
qed

lemma log_date_name: "log_date (log_name d) = Some (date_text d)"
  by (simp add: log_date_def log_name_def strip_prefix_def strip_suffix_def suffix_def)

text \<open>The logs of the days before the day of the limit are removed, and no file that is not a log.\<close>

theorem prune_old_logs_spec:
  assumes "day_ok d" and "day_ok cutoff"
  shows "log_name d \<in> set (prune_old_logs cutoff names) \<longleftrightarrow> log_name d \<in> set names \<and> earlier d cutoff"
    and "n \<in> set (prune_old_logs cutoff names) \<Longrightarrow> starts_with n ''zier-alpha-'' \<and> suffix ''.log'' n"
proof -
  show "log_name d \<in> set (prune_old_logs cutoff names) \<longleftrightarrow> log_name d \<in> set names \<and> earlier d cutoff"
    using date_text_less [OF assms] by (auto simp: prune_old_logs_def log_date_name)
  assume "n \<in> set (prune_old_logs cutoff names)"
  then have "prefix ''zier-alpha-'' n" "suffix ''.log'' (drop (length ''zier-alpha-'') n)"
    by (auto simp: prune_old_logs_def log_date_def strip_prefix_def strip_suffix_def split: option.splits if_splits bind_splits)
  then show "starts_with n ''zier-alpha-'' \<and> suffix ''.log'' n"
    using suffix_drop [of "length ''zier-alpha-''" n] suffix_order.trans by (auto simp: starts_with_def)
qed

subsection \<open>The supervisor\<close>

text \<open>After a crash: the count of crashes and the seconds to wait. The time since the last start is measured from before the
  last wait, in milliseconds.\<close>

definition supervise_step :: "nat \<times> nat \<Rightarrow> nat \<Rightarrow> nat \<times> nat" where
  "supervise_step st took =
     (case st of (crash_count, waited) \<Rightarrow>
        let n = (if 60000 < waited * 1000 + took then 0 else crash_count + 1) in (n, min (n * 2) 60))"

text \<open>The waits of the supervisor over the runs of the child, each with its time and whether it ended well.\<close>

fun run_supervised :: "nat \<times> nat \<Rightarrow> (nat \<times> bool) list \<Rightarrow> nat list" where
  "run_supervised st [] = []"
| "run_supervised st ((took, success) # runs) =
     (if success then [] else let st' = supervise_step st took in snd st' # run_supervised st' runs)"

definition supervised_ok :: "nat \<times> nat \<Rightarrow> bool" where
  "supervised_ok st \<longleftrightarrow> fst st \<le> 30 \<and> snd st = min (fst st * 2) 60"

text \<open>The count stays small, so that doubling it never overflows, and no wait is longer than a minute. But the longest wait is never
  repeated: it counts as running for a while itself, and after it a child that crashes at once is started again without any
  wait.\<close>

theorem supervisor_backoff:
  assumes "supervised_ok st" and "0 < took"
  shows "supervised_ok (supervise_step st took) \<and> (snd st = 60 \<longrightarrow> supervise_step st took = (0, 0))"
  using assms by (cases st) (auto simp: supervised_ok_def supervise_step_def Let_def min_def)

lemma supervised_ok_start: "supervised_ok (0, 0)"
  by (simp add: supervised_ok_def)

lemma supervisor_waits: "supervised_ok st \<Longrightarrow> \<forall>r \<in> set runs. 0 < fst r \<Longrightarrow> d \<in> set (run_supervised st runs) \<Longrightarrow> d \<le> 60"
proof (induction st runs rule: run_supervised.induct)
  case (2 st took success runs)
  have "supervised_ok (supervise_step st took)" using supervisor_backoff [OF 2(2)] 2(3) by simp
  moreover from this have "snd (supervise_step st took) \<le> 60" by (simp add: supervised_ok_def)
  ultimately show ?case using 2 by (auto simp: Let_def split: if_splits)
qed simp

lemma supervisor_sawtooth:
  "run_supervised (29, 58) [(1, False), (1, False), (1, False)] = [60, 0, 2]"
  by (simp add: supervise_step_def Let_def)

subsection \<open>The policy of extensions\<close>

text \<open>The configured sandbox is no argument: extensions may always read and write the directory for temporary files, the
  workspace and the project, and read the environment.\<close>

definition make_extension_policy :: "path \<Rightarrow> path option \<Rightarrow> (path \<Rightarrow> bool) \<Rightarrow> path \<Rightarrow> path \<Rightarrow> sandbox_policy" where
  "make_extension_policy temp_dir home present project_dir workspace =
     (let dirs = [display temp_dir, display workspace, display project_dir];
          ext = (case map_option (\<lambda>h. path_join h [Normal ''.zier-alpha'', Normal ''extensions'']) home of
                   Some d \<Rightarrow> if present d then [display d] else [] | None \<Rightarrow> [])
      in default_sandbox\<lparr>allow_env := True, allow_read := dirs @ ext, allow_write := dirs\<rparr>)"

lemma extension_policy_spec:
  "let p = make_extension_policy temp_dir home present project_dir workspace in
   allow_env p \<and> \<not> allow_network p \<and> \<not> enable_os_sandbox p \<and> set (allow_write p) \<subseteq> set (allow_read p)
   \<and> display workspace \<in> set (allow_write p) \<and> display project_dir \<in> set (allow_write p)"
  by (auto simp: make_extension_policy_def default_sandbox_def Let_def)

subsection \<open>Prompts\<close>

text \<open>The extension is cut from the last name.\<close>

definition prompt_id :: "path \<Rightarrow> string" where
  "prompt_id rel = str_replace [CHR 0x5C] ''/''
     (display (case file_stem rel of Some stem \<Rightarrow> butlast rel @ [Normal stem] | None \<Rightarrow> rel))"

text \<open>The entries of the glob, some of which cannot be read; a file that cannot be read ends it with what was loaded.\<close>

fun load_prompts ::
  "(path \<Rightarrow> (anyhow_error, string) res) \<Rightarrow> path \<Rightarrow> (anyhow_error, path) res list \<Rightarrow> (string \<times> string) list
   \<Rightarrow> (anyhow_error, unit) res \<times> (string \<times> string) list" where
  "load_prompts rd dir [] m = (Inr (), m)"
| "load_prompts rd dir (Inl e # es) m = load_prompts rd dir es m"
| "load_prompts rd dir (Inr p # es) m =
     (if prefix dir p
      then case rd p of
          Inl e \<Rightarrow> (Inl e, m)
        | Inr body \<Rightarrow> load_prompts rd dir es (put (prompt_id (drop (length dir) p)) body m)
      else load_prompts rd dir es m)"

definition load_prompts_from_dir ::
  "(path \<Rightarrow> bool) \<Rightarrow> (path \<Rightarrow> (anyhow_error, string) res) \<Rightarrow> (path \<Rightarrow> (anyhow_error, (anyhow_error, path) res list) res) \<Rightarrow> path
   \<Rightarrow> (string \<times> string) list \<Rightarrow> (anyhow_error, unit) res \<times> (string \<times> string) list" where
  "load_prompts_from_dir present rd globbed dir m =
     (if \<not> present dir then (Inr (), m)
      else case globbed dir of Inl e \<Rightarrow> (Inl e, m) | Inr es \<Rightarrow> load_prompts rd dir es m)"

lemma load_prompts_sound:
  "map_of (snd (load_prompts rd dir es m)) k = Some body \<Longrightarrow>
   map_of m k = Some body \<or> (\<exists>p. Inr p \<in> set es \<and> prefix dir p \<and> rd p = Inr body \<and> k = prompt_id (drop (length dir) p))"
proof (induction rd dir es m rule: load_prompts.induct)
  case (3 rd dir p es m)
  then show ?case
    by (cases "rd p"; cases "k = prompt_id (drop (length dir) p)") (auto simp: split: if_splits)
qed auto

subsection \<open>The services\<close>

datatype daemon_task = IngressLoop | TelegramPolling | HeartbeatTask

record 'w service_host =
  so_scheduler :: "'w \<Rightarrow> (anyhow_error, unit) res \<times> 'w"
  so_has_jobs :: "'w \<Rightarrow> bool"
  so_load_jobs :: "'w \<Rightarrow> (anyhow_error, unit) res \<times> 'w"
  so_scripts :: "'w \<Rightarrow> (anyhow_error, unit) res \<times> 'w"
  so_has_extensions :: "'w \<Rightarrow> bool"
  so_load_extensions :: "'w \<Rightarrow> (anyhow_error, unit) res \<times> 'w"
  so_tools :: "'w \<Rightarrow> (anyhow_error, string list) res \<times> 'w"
  so_start_scheduler :: "'w \<Rightarrow> (anyhow_error, unit) res \<times> 'w"
  so_has_prompts :: "'w \<Rightarrow> bool"
  so_load_prompts :: "'w \<Rightarrow> (anyhow_error, unit) res \<times> 'w"
  so_polling :: "config \<Rightarrow> bool"
  so_server :: "config \<Rightarrow> 'w \<Rightarrow> (anyhow_error, unit) res \<times> 'w"
  so_ctrl_c :: "'w \<Rightarrow> (anyhow_error, unit) res \<times> 'w"

definition only_if :: "bool \<Rightarrow> ('w \<Rightarrow> (anyhow_error, unit) res \<times> 'w) \<Rightarrow> 'w \<Rightarrow> (anyhow_error, unit) res \<times> 'w" where
  "only_if b f w = (if b then f w else (Inr (), w))"

text \<open>What is loaded before any task is started, and the tasks that are started then.\<close>

definition daemon_setup :: "'w service_host \<Rightarrow> config \<Rightarrow> 'w \<Rightarrow> (anyhow_error, daemon_task list) res \<times> 'w" where
  "daemon_setup h c w =
     and_then (so_scheduler h w) (\<lambda>_ w1.
     and_then (only_if (so_has_jobs h w1) (so_load_jobs h) w1) (\<lambda>_ w2.
     and_then (so_scripts h w2) (\<lambda>_ w3.
     and_then (only_if (so_has_extensions h w3) (so_load_extensions h) w3) (\<lambda>_ w4.
     and_then (so_tools h w4) (\<lambda>_ w5.
     and_then (so_start_scheduler h w5) (\<lambda>_ w6.
     and_then (only_if (so_has_prompts h w6) (so_load_prompts h) w6) (\<lambda>_ w7.
     (Inr ([IngressLoop]
           @ (if sv_enabled (cf_server c) \<and> sv_telegram_mode (cf_server c) = Polling \<and> so_polling h c
              then [TelegramPolling] else [])
           @ (if hb_enabled (cf_heartbeat c) then [HeartbeatTask] else [])), w7))))))))"

text \<open>Then the server runs, or the daemon waits for the interrupt of a terminal.\<close>

definition run_daemon_services :: "'w service_host \<Rightarrow> config \<Rightarrow> 'w \<Rightarrow> (anyhow_error, unit) res \<times> 'w" where
  "run_daemon_services h c w =
     and_then (daemon_setup h c w) (\<lambda>_ w1. if sv_enabled (cf_server c) then so_server h c w1 else so_ctrl_c h w1)"

text \<open>Messages are taken only when everything they may need is loaded.\<close>

lemma daemon_setup_tasks:
  "fst (daemon_setup h c w) = Inr tasks \<Longrightarrow> hd tasks = IngressLoop \<and> distinct tasks
    \<and> (HeartbeatTask \<in> set tasks \<longleftrightarrow> hb_enabled (cf_heartbeat c))
    \<and> (TelegramPolling \<in> set tasks \<longrightarrow> sv_enabled (cf_server c))"
  by (auto simp: daemon_setup_def and_then_def split: prod.splits sum.splits)

end
