(* ===== verification/Default_Tools.thy ===== *)
theory Default_Tools
  imports File_Tools Config_Loading Memory_Service
begin

text \<open>
  The tools every agent starts with (\<^verbatim>\<open>src/src/agent/tools.rs\<close>): the list made from the configuration, what each tells the
  model about itself, and the two searches of the memory, the one through its files and the one through its index.
  What the tools do with files is in \<open>File_Tools\<close>.

  \<open>lc\<close> is \<open>str::to_lowercase\<close>; the directory of the daily logs, the search of the index and the printing of a score are parameters.
\<close>

record 'w default_tool =
  dt_name :: string
  dt_schema :: tool_schema
  dt_execute :: "string \<Rightarrow> 'w \<Rightarrow> 'w tool_outcome"

subsection \<open>What the model is told\<close>

definition property :: "string \<Rightarrow> string \<Rightarrow> json" where
  "property ty description = JObj [''type'' \<mapsto> JStr ty, ''description'' \<mapsto> JStr description]"

definition object_schema :: "(string \<rightharpoonup> json) \<Rightarrow> string list \<Rightarrow> json" where
  "object_schema properties required =
     JObj [''type'' \<mapsto> JStr ''object'', ''properties'' \<mapsto> JObj properties, ''required'' \<mapsto> JArr (map JStr required)]"

definition bash_schema :: "u64 \<Rightarrow> tool_schema" where
  "bash_schema default_timeout_ms =
     \<lparr>ts_name = ''bash'', ts_description = ''Execute a bash command and return the output'',
      ts_parameters = object_schema
        [''command'' \<mapsto> property ''string'' ''The bash command to execute'',
         ''timeout_ms'' \<mapsto> property ''integer''
           (''Optional timeout in milliseconds (default: '' @ show_nat (unat default_timeout_ms) @ '')'')]
        [''command'']\<rparr>"

definition read_file_schema :: tool_schema where
  "read_file_schema =
     \<lparr>ts_name = ''read_file'', ts_description = ''Read the contents of a file'',
      ts_parameters = object_schema
        [''path'' \<mapsto> property ''string'' ''The path to the file to read (relative to workspace or absolute)'',
         ''offset'' \<mapsto> property ''integer'' ''Line number to start reading from (0-indexed)'',
         ''limit'' \<mapsto> property ''integer'' ''Maximum number of lines to read'']
        [''path'']\<rparr>"

definition write_file_schema :: tool_schema where
  "write_file_schema =
     \<lparr>ts_name = ''write_file'', ts_description = ''Write content to a file (creates or overwrites)'',
      ts_parameters = object_schema
        [''path'' \<mapsto> property ''string'' ''The path to the file to write (relative to workspace or absolute)'',
         ''content'' \<mapsto> property ''string'' ''The content to write to the file'']
        [''path'', ''content'']\<rparr>"

definition edit_file_schema :: tool_schema where
  "edit_file_schema =
     \<lparr>ts_name = ''edit_file'', ts_description = ''Edit a file by replacing old_string with new_string'',
      ts_parameters = object_schema
        [''path'' \<mapsto> property ''string'' ''The path to the file to edit (relative to workspace or absolute)'',
         ''old_string'' \<mapsto> property ''string'' ''The text to replace'',
         ''new_string'' \<mapsto> property ''string'' ''The replacement text'',
         ''replace_all'' \<mapsto> property ''boolean'' ''Replace all occurrences (default: false)'']
        [''path'', ''old_string'', ''new_string'']\<rparr>"

definition memory_search_schema :: "bool \<Rightarrow> tool_schema" where
  "memory_search_schema has_embeddings =
     \<lparr>ts_name = ''memory_search'',
      ts_description = (if has_embeddings
        then ''Search the memory index using hybrid semantic + keyword search for relevant information''
        else ''Search the memory index for relevant information''),
      ts_parameters = object_schema
        [''query'' \<mapsto> property ''string'' ''The search query'',
         ''limit'' \<mapsto> property ''integer'' ''Maximum number of results (default: 5)'']
        [''query'']\<rparr>"

definition memory_get_schema :: tool_schema where
  "memory_get_schema =
     \<lparr>ts_name = ''memory_get'',
      ts_description = ''Safe snippet read from MEMORY.md or memory/*.md with optional line range; use after memory_search to pull only the needed lines and keep context small.'',
      ts_parameters = object_schema
        [''path'' \<mapsto> property ''string'' (''Path to the file (e.g., '' @ [CHR 0x27] @ ''MEMORY.md'' @ [CHR 0x27] @ '' or ''
             @ [CHR 0x27] @ ''memory/2024-01-15.md'' @ [CHR 0x27] @ '')''),
         ''from'' \<mapsto> property ''integer'' ''Starting line number (1-indexed, default: 1)'',
         ''lines'' \<mapsto> property ''integer'' ''Number of lines to read (default: 50)'']
        [''path'']\<rparr>"

definition web_fetch_schema :: tool_schema where
  "web_fetch_schema =
     \<lparr>ts_name = ''web_fetch'', ts_description = ''Fetch content from a URL'',
      ts_parameters = object_schema [''url'' \<mapsto> property ''string'' ''The URL to fetch''] [''url'']\<rparr>"

subsection \<open>Searching the files of the memory\<close>

text \<open>The lines that hold the query, each under a label and its number, until there are enough.\<close>

fun grep_lines :: "(string \<Rightarrow> bool) \<Rightarrow> string \<Rightarrow> nat \<Rightarrow> nat \<Rightarrow> string list \<Rightarrow> string list \<Rightarrow> string list" where
  "grep_lines hit place limit i [] results = results"
| "grep_lines hit place limit i (l # ls) results =
     (if hit l
      then let results' = results @ [place @ '':'' @ show_nat (i + 1) @ '': '' @ l] in
           if limit \<le> length results' then results' else grep_lines hit place limit (i + 1) ls results'
      else grep_lines hit place limit (i + 1) ls results)"

fun grep_logs ::
  "(string \<Rightarrow> bool) \<Rightarrow> (path \<Rightarrow> (anyhow_error, string) res) \<Rightarrow> nat \<Rightarrow> path list \<Rightarrow> string list \<Rightarrow> string list" where
  "grep_logs hit rd limit [] results = results"
| "grep_logs hit rd limit (p # ps) results =
     (if limit \<le> length results then results
      else grep_logs hit rd limit ps
        (if extension p = Some ''md''
         then case rd p of
             Inr body \<Rightarrow> grep_lines hit (''memory/'' @ unwrap_or (file_name p) []) limit 0 (lines body) results
           | Inl _ \<Rightarrow> results
         else results))"

definition line_hit :: "(string \<Rightarrow> string) \<Rightarrow> string \<Rightarrow> string \<Rightarrow> bool" where
  "line_hit lc query l \<longleftrightarrow> contains (lc l) (lc query)"

text \<open>\<open>entries\<close>: what reading a directory gives, without the entries that fail.\<close>

definition grep_memory ::
  "'w tool_host \<Rightarrow> (string \<Rightarrow> string) \<Rightarrow> (path \<Rightarrow> 'w \<Rightarrow> path list option) \<Rightarrow> path \<Rightarrow> string \<Rightarrow> nat \<Rightarrow> 'w \<Rightarrow> string list" where
  "grep_memory h lc entries workspace query limit w =
     (let hit = line_hit lc query;
          memory_file = path_join workspace [Normal ''MEMORY.md''];
          memory_dir = path_join workspace [Normal ''memory''];
          results = (if exists_path h memory_file w
            then case read_to_string h memory_file w of
                Inr body \<Rightarrow> grep_lines hit ''MEMORY.md'' limit 0 (lines body) []
              | Inl _ \<Rightarrow> []
            else [])
      in if exists_path h memory_dir w
         then case entries memory_dir w of
             Some ps \<Rightarrow> grep_logs hit (\<lambda>p. read_to_string h p w) limit ps results
           | None \<Rightarrow> results
         else results)"

definition query_args :: "'w tool_host \<Rightarrow> string \<Rightarrow> (anyhow_error, string \<times> nat) res" where
  "query_args h arguments =
     bind_res (parse_args h arguments) (\<lambda>args.
     map_sum id (\<lambda>query. (query, unat (unwrap_or (as_u64 (jindex args ''limit'')) 5))) (str_arg args ''query''))"

definition memory_search_tool ::
  "'w tool_host \<Rightarrow> (string \<Rightarrow> string) \<Rightarrow> (path \<Rightarrow> 'w \<Rightarrow> path list option) \<Rightarrow> path \<Rightarrow> string \<Rightarrow> 'w \<Rightarrow> 'w tool_outcome" where
  "memory_search_tool h lc entries workspace arguments w =
     (case query_args h arguments of
        Inl e \<Rightarrow> Some (Inl e, w)
      | Inr (query, limit) \<Rightarrow>
          let results = grep_memory h lc entries workspace query limit w in
          Some (Inr (if results = [] then ''No results found'' else join nl results), w))"

subsection \<open>Searching the index\<close>

record ('f, 'w) memory_finder =
  fi_has_embeddings :: bool
  fi_search :: "string \<Rightarrow> nat \<Rightarrow> 'w \<Rightarrow> (anyhow_error, 'f memory_chunk list) res \<times> 'w"
  fi_score :: "'f \<Rightarrow> string"

definition found_chunk :: "('f \<Rightarrow> string) \<Rightarrow> nat \<Rightarrow> 'f memory_chunk \<Rightarrow> string" where
  "found_chunk score i c =
     show_nat (i + 1) @ ''. '' @ mc_file c @ '' (lines '' @ show_i32 (mc_start c) @ ''-'' @ show_i32 (mc_end c) @ '', score: ''
     @ score (mc_score c) @ '')'' @ nl @ ''   '' @ str_replace nl '' '' (take_chars 200 (mc_content c))
     @ (if 200 < length (mc_content c) then ''...'' else [])"

definition memory_search_indexed :: "'w tool_host \<Rightarrow> ('f, 'w) memory_finder \<Rightarrow> string \<Rightarrow> 'w \<Rightarrow> 'w tool_outcome" where
  "memory_search_indexed h fi arguments w =
     (case query_args h arguments of
        Inl e \<Rightarrow> Some (Inl e, w)
      | Inr (query, limit) \<Rightarrow>
          (case fi_search fi query limit w of
             (Inl e, w1) \<Rightarrow> Some (Inl e, w1)
           | (Inr results, w1) \<Rightarrow>
               Some (Inr (if results = [] then ''No results found''
                          else join nl2 (map (\<lambda>(i, c). found_chunk (fi_score fi) i c) (enumerate 0 results))), w1)))"

subsection \<open>The list\<close>

definition create_default_tools ::
  "'w tool_host \<Rightarrow> config_env \<Rightarrow> (string \<Rightarrow> string) \<Rightarrow> (path \<Rightarrow> 'w \<Rightarrow> path list option) \<Rightarrow> config \<Rightarrow> ('f, 'w) memory_finder option
   \<Rightarrow> path \<Rightarrow> 'w default_tool list" where
  "create_default_tools h env lc entries c memory project_dir =
     (let workspace = config_workspace_path env c;
          ft = \<lparr>ft_workspace = workspace, ft_project_dir = project_dir, ft_strategy = wd_strategy (cf_workdir c),
                ft_policy = cf_sandbox c\<rparr>;
          bash_timeout = tl_bash_timeout_ms (cf_tools c)
      in [\<lparr>dt_name = ''bash'', dt_schema = bash_schema bash_timeout,
           dt_execute = (\<lambda>arguments w. Some (bash h ft bash_timeout arguments w))\<rparr>,
          \<lparr>dt_name = ''read_file'', dt_schema = read_file_schema, dt_execute = read_file h ft\<rparr>,
          \<lparr>dt_name = ''write_file'', dt_schema = write_file_schema, dt_execute = write_file h ft\<rparr>,
          \<lparr>dt_name = ''edit_file'', dt_schema = edit_file_schema, dt_execute = edit_file h ft\<rparr>,
          (case memory of
             Some fi \<Rightarrow> \<lparr>dt_name = ''memory_search'', dt_schema = memory_search_schema (fi_has_embeddings fi),
                        dt_execute = memory_search_indexed h fi\<rparr>
           | None \<Rightarrow> \<lparr>dt_name = ''memory_search'', dt_schema = memory_search_schema False,
                     dt_execute = memory_search_tool h lc entries workspace\<rparr>),
          \<lparr>dt_name = ''memory_get'', dt_schema = memory_get_schema, dt_execute = memory_get h workspace\<rparr>,
          \<lparr>dt_name = ''web_fetch'', dt_schema = web_fetch_schema,
           dt_execute = web_fetch h (unat (tl_web_fetch_max_bytes (cf_tools c)))\<rparr>])"

subsection \<open>What a search of the files finds\<close>

text \<open>All lines of a text that hold the query, and those of the logs in the order of the directory.\<close>

definition line_entries :: "(string \<Rightarrow> bool) \<Rightarrow> string \<Rightarrow> nat \<Rightarrow> string list \<Rightarrow> string list" where
  "line_entries hit place i ls =
     map (\<lambda>(n, l). place @ '':'' @ show_nat (n + 1) @ '': '' @ l) (filter (\<lambda>(n, l). hit l) (enumerate i ls))"

definition log_entries :: "(string \<Rightarrow> bool) \<Rightarrow> (path \<Rightarrow> (anyhow_error, string) res) \<Rightarrow> path list \<Rightarrow> string list" where
  "log_entries hit rd ps = concat (map (\<lambda>p. case rd p of
       Inr body \<Rightarrow> line_entries hit (''memory/'' @ unwrap_or (file_name p) []) 0 (lines body) | Inl _ \<Rightarrow> [])
     (filter (\<lambda>p. extension p = Some ''md'') ps))"

lemma line_entries_simps [simp]:
  "line_entries hit place i [] = []"
  "line_entries hit place i (l # ls) =
     (if hit l then (place @ '':'' @ show_nat (i + 1) @ '': '' @ l) # line_entries hit place (i + 1) ls
      else line_entries hit place (i + 1) ls)"
  by (simp_all add: line_entries_def)

lemma grep_lines_take:
  "grep_lines hit place limit i ls results =
     results @ take (max 1 (limit - length results)) (line_entries hit place i ls)"
proof (induction hit place limit i ls results rule: grep_lines.induct)
  case (2 hit place limit i l ls results)
  show ?case
  proof (cases "hit l \<and> \<not> limit \<le> Suc (length results)")
    case True
    then have "max 1 (limit - length results) = Suc (max 1 (limit - Suc (length results)))" by (auto simp: max_def)
    then show ?thesis using 2 True by (simp add: Let_def)
  next
    case False
    then have "hit l \<Longrightarrow> max 1 (limit - length results) = Suc 0" by auto
    then show ?thesis using 2 False by (cases "hit l") (simp_all add: Let_def)
  qed
qed simp

lemma grep_logs_take:
  "grep_logs hit rd limit ps results = results @ take (limit - length results) (log_entries hit rd ps)"
proof (induction ps arbitrary: results)
  case (Cons p ps)
  show ?case
  proof (cases "limit \<le> length results")
    case False
    define new where "new = (if extension p = Some ''md'' then case rd p of
        Inr body \<Rightarrow> line_entries hit (''memory/'' @ unwrap_or (file_name p) []) 0 (lines body) | Inl _ \<Rightarrow> [] else [])"
    have "(if extension p = Some ''md''
         then case rd p of
             Inr body \<Rightarrow> grep_lines hit (''memory/'' @ unwrap_or (file_name p) []) limit 0 (lines body) results
           | Inl _ \<Rightarrow> results
         else results) = results @ take (limit - length results) new"
      using False by (simp add: new_def grep_lines_take max_def split: sum.split)
    moreover have "log_entries hit rd (p # ps) = new @ log_entries hit rd ps"
      by (simp add: log_entries_def new_def split: sum.split)
    ultimately show ?thesis
      using False Cons.IH [of "results @ take (limit - length results) new"] by (simp add: min_def)
  qed simp
qed (simp add: log_entries_def)

definition memory_entries :: "'w tool_host \<Rightarrow> (string \<Rightarrow> bool) \<Rightarrow> path \<Rightarrow> 'w \<Rightarrow> string list" where
  "memory_entries h hit workspace w =
     (let p = path_join workspace [Normal ''MEMORY.md''] in
      if \<not> exists_path h p w then []
      else case read_to_string h p w of Inr body \<Rightarrow> line_entries hit ''MEMORY.md'' 0 (lines body) | Inl _ \<Rightarrow> [])"

definition daily_entries :: "'w tool_host \<Rightarrow> (string \<Rightarrow> bool) \<Rightarrow> (path \<Rightarrow> 'w \<Rightarrow> path list option) \<Rightarrow> path \<Rightarrow> 'w \<Rightarrow> string list" where
  "daily_entries h hit entries workspace w =
     (let d = path_join workspace [Normal ''memory''] in
      if \<not> exists_path h d w then []
      else case entries d w of Some ps \<Rightarrow> log_entries hit (\<lambda>p. read_to_string h p w) ps | None \<Rightarrow> [])"

text \<open>The search with its early exits is the plain one: the first lines that hold the query, in \<^verbatim>\<open>MEMORY.md\<close> and then in the
  logs, as many as were asked for. Asked for none, it still gives one of \<^verbatim>\<open>MEMORY.md\<close>, because it counts after it has added.\<close>

theorem grep_memory_spec:
  "grep_memory h lc entries workspace query limit w =
     (let hit = line_hit lc query; first = memory_entries h hit workspace w in
      if limit = 0 then take 1 first else take limit (first @ daily_entries h hit entries workspace w))"
proof -
  let ?hit = "line_hit lc query"
  let ?first = "memory_entries h ?hit workspace w"
  let ?p = "path_join workspace [Normal ''MEMORY.md'']"
  define results where "results = (if exists_path h ?p w
    then case read_to_string h ?p w of Inr body \<Rightarrow> grep_lines ?hit ''MEMORY.md'' limit 0 (lines body) [] | Inl _ \<Rightarrow> [] else [])"
  have results: "results = take (max 1 limit) ?first"
    by (simp add: results_def memory_entries_def Let_def grep_lines_take split: sum.split)
  have "grep_memory h lc entries workspace query limit w
      = results @ take (limit - length results) (daily_entries h ?hit entries workspace w)"
    unfolding grep_memory_def Let_def results_def [symmetric]
    by (simp add: daily_entries_def Let_def grep_logs_take split: option.split)
  then show ?thesis using results by (simp add: Let_def max_def min_def not_less_eq_eq)
qed

subsection \<open>What the model is told is what the tools take\<close>

definition schema_required :: "tool_schema \<Rightarrow> string list" where
  "schema_required ts = (case jget (ts_parameters ts) ''required'' of Some (JArr xs) \<Rightarrow> List.map_filter as_str xs | _ \<Rightarrow> [])"

definition schema_properties :: "tool_schema \<Rightarrow> string \<Rightarrow> json option" where
  "schema_properties ts = (case jget (ts_parameters ts) ''properties'' of Some (JObj m) \<Rightarrow> m | _ \<Rightarrow> Map.empty)"

lemma schema_required_object [simp]:
  "schema_required \<lparr>ts_name = n, ts_description = d, ts_parameters = object_schema ps rs\<rparr> = rs"
  by (induction rs) (simp_all add: schema_required_def object_schema_def List.map_filter_def)

lemma schema_properties_object [simp]:
  "schema_properties \<lparr>ts_name = n, ts_description = d, ts_parameters = object_schema ps rs\<rparr> = ps"
  by (simp add: schema_properties_def object_schema_def)

lemmas default_schemas = bash_schema_def read_file_schema_def write_file_schema_def edit_file_schema_def memory_search_schema_def
  memory_get_schema_def web_fetch_schema_def

text \<open>The tools have the names they tell the model, no name twice, and what they require is among what they describe.\<close>

lemma default_tools_names:
  "map dt_name (create_default_tools h env lc entries c memory dir)
   = [''bash'', ''read_file'', ''write_file'', ''edit_file'', ''memory_search'', ''memory_get'', ''web_fetch'']"
  by (simp add: create_default_tools_def Let_def split: option.split)

lemma default_tools_schemas:
  "list_all (\<lambda>t. ts_name (dt_schema t) = dt_name t
     \<and> list_all (\<lambda>k. schema_properties (dt_schema t) k \<noteq> None) (schema_required (dt_schema t)))
   (create_default_tools h env lc entries c memory dir)"
  by (simp add: create_default_tools_def Let_def default_schemas split: option.split)

text \<open>Every argument a tool requires is a text, and a call without one of them is refused before anything happens.\<close>

definition refuses_without :: "(string \<Rightarrow> (anyhow_error, json) res) \<Rightarrow> 'w default_tool \<Rightarrow> bool" where
  "refuses_without parse t \<longleftrightarrow> (\<forall>arguments args k w.
     parse arguments = Inr args \<longrightarrow> k \<in> set (schema_required (dt_schema t)) \<longrightarrow> as_str (jindex args k) = None \<longrightarrow>
     (\<exists>e. dt_execute t arguments w = Some (Inl e, w)))"

theorem default_tools_refuse:
  "list_all (refuses_without (parse_args h)) (create_default_tools h env lc entries c memory dir)"
proof -
  have missing: "as_str (jindex args k) = None \<Longrightarrow> str_arg args k = Inl (Msg (''Missing '' @ k))" for args k
    by (simp add: str_arg_def)
  have edits: "k \<in> set (schema_required edit_file_schema) \<Longrightarrow> as_str (jindex args k) = None \<Longrightarrow> parse_args h arguments = Inr args
      \<Longrightarrow> \<exists>e. edit_file h ft arguments w = Some (Inl e, w)" for k args arguments ft w
    by (cases "str_arg args ''path''"; cases "str_arg args ''old_string''")
       (auto simp: default_schemas edit_file_def missing)
  have writes: "k \<in> set (schema_required write_file_schema) \<Longrightarrow> as_str (jindex args k) = None \<Longrightarrow> parse_args h arguments = Inr args
      \<Longrightarrow> \<exists>e. write_file h ft arguments w = Some (Inl e, w)" for k args arguments ft w
    by (cases "str_arg args ''path''") (auto simp: default_schemas write_file_def missing)
  show ?thesis
    using edits writes
    by (auto simp: create_default_tools_def Let_def refuses_without_def default_schemas bash_def read_file_def memory_get_def
        web_fetch_def memory_search_tool_def memory_search_indexed_def query_args_def missing split: option.split)
qed

end
