(* ===== verification/Agent_Assembly.thy ===== *)
theory Agent_Assembly
  imports Agent_Core Default_Tools Sandbox_Runner System_Prompt Skills
begin

text \<open>
  How an agent is put together (\<^verbatim>\<open>src/src/agent/mod.rs\<close>) and how one question is answered from the command line
  (\<^verbatim>\<open>src/src/cli/ask.rs\<close>): the tools from the built-in ones, the MCP servers and the configured programs; the system prompt with
  the optional script that generates it; and the order in which \<^verbatim>\<open>ask\<close> restricts the tools, takes the lock, asks and writes its answer.

  Files, environment variables, the start of MCP servers and of scripts, and the JSON printer are parameters.
\<close>

subsection \<open>The tools of an agent\<close>

definition mcp_tool_of :: "json \<Rightarrow> tool_schema option" where
  "mcp_tool_of def =
     (case (Option.bind (jget def ''name'') as_str, Option.bind (jget def ''description'') as_str, jget def ''inputSchema'') of
        (Some n, Some d, Some sch) \<Rightarrow> Some \<lparr>ts_name = n, ts_description = d, ts_parameters = sch\<rparr>
      | _ \<Rightarrow> None)"

text \<open>The servers in the order of the map; one that does not start or does not list its tools is passed over.\<close>

record 'w mcp_side =
  ms_ensure :: "string \<Rightarrow> 'w \<Rightarrow> (anyhow_error, unit) res \<times> 'w"
  ms_list_tools :: "string \<Rightarrow> 'w \<Rightarrow> (anyhow_error, json list) res \<times> 'w"

fun mcp_tools :: "'w mcp_side \<Rightarrow> string list \<Rightarrow> 'w \<Rightarrow> (string \<times> tool_schema) list \<times> 'w" where
  "mcp_tools m [] w = ([], w)"
| "mcp_tools m (name # names) w =
     (case ms_ensure m name w of
        (Inl e, w1) \<Rightarrow> mcp_tools m names w1
      | (Inr _, w1) \<Rightarrow>
          (case ms_list_tools m name w1 of
             (Inl e, w2) \<Rightarrow> mcp_tools m names w2
           | (Inr defs, w2) \<Rightarrow>
               apfst (append (map (Pair name) (List.map_filter mcp_tool_of defs))) (mcp_tools m names w2)))"

datatype tool_source = BuiltIn | FromMcp string | FromProgram external_tool

text \<open>\<open>externals\<close> are the configured programs in the order of the map.\<close>

definition agent_tools ::
  "'w default_tool list \<Rightarrow> 'w mcp_side \<Rightarrow> string list \<Rightarrow> config \<Rightarrow> path \<Rightarrow> path \<Rightarrow> (string \<times> external_tool_config) list \<Rightarrow> 'w
   \<Rightarrow> (tool_source \<times> tool_schema) list \<times> 'w" where
  "agent_tools defaults m servers c workspace project_dir externals w =
     (let (mcp, w1) = mcp_tools m servers w in
      (map (\<lambda>t. (BuiltIn, dt_schema t)) defaults
       @ map (\<lambda>(srv, ts). (FromMcp srv, ts)) mcp
       @ map (\<lambda>(name, conf). let t = external_tool_of c workspace project_dir name conf in (FromProgram t, external_schema t)) externals, w1))"

definition mcp_timeouts :: "mcp_config option \<Rightarrow> u64 \<times> u64" where
  "mcp_timeouts mc = (case mc of Some x \<Rightarrow> (mp_idle_timeout_secs x, mp_health_check_interval_secs x) | None \<Rightarrow> (600, 0))"

text \<open>The tool a call with a name goes to: the first one.\<close>

definition tool_named :: "string \<Rightarrow> (tool_source \<times> tool_schema) list \<Rightarrow> (tool_source \<times> tool_schema) option" where
  "tool_named n ts = find (\<lambda>(src, t). ts_name t = n) ts"

text \<open>Neither a server nor a program takes the place of a built-in tool, whatever name it gives its own.\<close>

theorem builtin_tools_stay:
  assumes "t \<in> set (create_default_tools h env lc entries c memory project_dir)"
  shows "tool_named (dt_name t)
      (fst (agent_tools (create_default_tools h env lc entries c memory project_dir) m servers c ws project_dir externals w))
    = Some (BuiltIn, dt_schema t)"
proof -
  let ?ds = "create_default_tools h env lc entries c memory project_dir"
  have names: "distinct (map dt_name ?ds)" using default_tools_names [of h env lc entries c memory project_dir] by simp
  have schemas: "\<And>d. d \<in> set ?ds \<Longrightarrow> ts_name (dt_schema d) = dt_name d"
    using default_tools_schemas [of h env lc entries c memory project_dir] by (simp add: list_all_iff)
  have "find (\<lambda>(src, s). ts_name s = dt_name t) (map (\<lambda>d. (BuiltIn, dt_schema d)) ds) = Some (BuiltIn, dt_schema t)"
    if "t \<in> set ds" "set ds \<subseteq> set ?ds" "distinct (map dt_name ds)" for ds
    using that
  proof (induction ds)
    case (Cons d ds)
    then show ?case using schemas [of d] by (cases "d = t") auto
  qed simp
  from this [OF assms order_refl names] show ?thesis
    by (simp add: tool_named_def agent_tools_def find_append split: prod.split)
qed

lemma mcp_tool_without_description: "jget def ''description'' = None \<Longrightarrow> mcp_tool_of def = None"
  by (simp add: mcp_tool_of_def split: option.split)

subsection \<open>The system prompt\<close>

record prompt_inputs =
  pi_workspace :: path
  pi_project_dir :: path
  pi_hostname :: "string option"
  pi_now :: string
  pi_zone :: string

definition fallback_prompt ::
  "prompt_env \<Rightarrow> prompt_inputs \<Rightarrow> config \<Rightarrow> string \<Rightarrow> string list \<Rightarrow> string \<Rightarrow> string list \<Rightarrow> string" where
  "fallback_prompt env pin c mdl tool_names skills_prompt status =
     build_system_prompt env (with_status_lines status (with_skills_prompt skills_prompt
       ((with_project (Some (display (pi_project_dir pin))) (wd_strategy (cf_workdir c)) (wd_custom_prompt (cf_workdir c))
         (params_new (Some (display (pi_workspace pin))) mdl (pi_hostname pin) (pi_now pin) (pi_zone pin)))
        \<lparr>sp_tool_names := tool_names\<rparr>)))"

definition opt_json :: "string option \<Rightarrow> json" where
  "opt_json s = (case s of Some x \<Rightarrow> JStr x | None \<Rightarrow> JNull)"

text \<open>What the script that generates the prompt is told.\<close>

definition generator_context :: "prompt_inputs \<Rightarrow> string \<Rightarrow> string list \<Rightarrow> string \<Rightarrow> string list \<Rightarrow> json" where
  "generator_context pin mdl tool_names skills_prompt status =
     JObj ([''workspace_dir'' \<mapsto> JStr (display (pi_workspace pin)), ''project_dir'' \<mapsto> JStr (display (pi_project_dir pin)),
            ''model'' \<mapsto> JStr mdl, ''tool_names'' \<mapsto> JArr (map JStr tool_names), ''hostname'' \<mapsto> opt_json (pi_hostname pin),
            ''current_time'' \<mapsto> JStr (pi_now pin), ''timezone'' \<mapsto> opt_json (if pi_zone pin = [] then None else Some (pi_zone pin)),
            ''skills_prompt'' \<mapsto> JStr skills_prompt]
       ++ (if status = [] then Map.empty else [''status_lines'' \<mapsto> JArr (map JStr status)]))"

definition agent_system_prompt ::
  "(path \<Rightarrow> json \<Rightarrow> 'w \<Rightarrow> (anyhow_error, string) res \<times> 'w) option \<Rightarrow> config \<Rightarrow> json \<Rightarrow> string \<Rightarrow> 'w \<Rightarrow> string \<times> 'w" where
  "agent_system_prompt service c told fallback w =
     (case (service, ac_system_prompt_script (cf_agent c)) of
        (Some generate, Some script) \<Rightarrow>
          (case generate (components script) told w of (Inr prompt, w1) \<Rightarrow> (prompt, w1) | (Inl _, w1) \<Rightarrow> (fallback, w1))
      | _ \<Rightarrow> (fallback, w))"

text \<open>The skills that cannot be loaded count as none.\<close>

definition agent_skills_prompt :: "(anyhow_error, skill list) res \<Rightarrow> string" where
  "agent_skills_prompt loaded = build_skills_prompt (unwrap_or (ok_opt loaded) [])"

definition agent_start_session ::
  "prompt_env \<Rightarrow> prompt_inputs \<Rightarrow> config \<Rightarrow> (path \<Rightarrow> json \<Rightarrow> 'w \<Rightarrow> (anyhow_error, string) res \<times> 'w) option \<Rightarrow> (anyhow_error, skill list) res
   \<Rightarrow> memory_files \<Rightarrow> session \<Rightarrow> 'w agent \<Rightarrow> 'w engine_state \<Rightarrow> (anyhow_error, unit) res \<times> 'w engine_state" where
  "agent_start_session env pin c service loaded mf fresh a st =
     (let skills_prompt = agent_skills_prompt loaded;
          tool_names = map t_name (e_tools (ag_engine a));
          mdl = e_model (ag_engine a);
          fallback = fallback_prompt env pin c mdl tool_names skills_prompt (ag_status_lines a);
          (prompt, w) = agent_system_prompt service c
            (generator_context pin mdl tool_names skills_prompt (ag_status_lines a)) fallback (es_world st)
      in agent_new_session mf prompt fresh a (st\<lparr>es_world := w\<rparr>))"

text \<open>Without a service or a script, and when the script fails, the prompt is the built one.\<close>

lemma prompt_falls_back:
  assumes "\<And>g s. service = Some g \<Longrightarrow> ac_system_prompt_script (cf_agent c) = Some s \<Longrightarrow> \<exists>e. fst (g (components s) told w) = Inl e"
  shows "fst (agent_system_prompt service c told fallback w) = fallback"
proof (cases "service = None \<or> ac_system_prompt_script (cf_agent c) = None")
  case True
  then show ?thesis by (auto simp: agent_system_prompt_def split: option.split)
next
  case False
  then obtain g s where gs: "service = Some g" "ac_system_prompt_script (cf_agent c) = Some s" by auto
  then obtain e where "fst (g (components s) told w) = Inl e" using assms by blast
  then show ?thesis using gs by (cases "g (components s) told w") (simp add: agent_system_prompt_def)
qed

subsection \<open>Other operations of the agent\<close>

definition provider_name :: "'w agent \<Rightarrow> string" where
  "provider_name a =
     (case resolve_config (e_cfg (ag_engine a)) (e_model (ag_engine a)) of
        Inr cfg \<Rightarrow> unwrap_or (mc_provider cfg) ''unknown'' | Inl _ \<Rightarrow> ''unknown'')"

definition plain_message :: "role \<Rightarrow> string \<Rightarrow> message" where
  "plain_message r txt = \<lparr>role = r, content = txt, tool_calls = None, tool_call_id = None, images = []\<rparr>"

definition add_user_message :: "string \<Rightarrow> 'w agent \<Rightarrow> 'w engine_state \<Rightarrow> 'w engine_state" where
  "add_user_message txt a st = add_msg (ag_engine a) (plain_message User txt) st"

definition add_assistant_message :: "string \<Rightarrow> 'w agent \<Rightarrow> 'w engine_state \<Rightarrow> 'w engine_state" where
  "add_assistant_message txt a st = add_msg (ag_engine a) (plain_message Assistant txt) st"

definition reindex_memory ::
  "(bool \<Rightarrow> 'd \<Rightarrow> (anyhow_error, nat \<times> nat \<times> nat) res \<times> 'd) \<Rightarrow> (nat \<Rightarrow> 'd \<Rightarrow> (anyhow_error, nat \<times> nat) res \<times> 'd) \<Rightarrow> 'd
   \<Rightarrow> (anyhow_error, nat \<times> nat \<times> nat) res \<times> 'd" where
  "reindex_memory index embed_all db =
     (case index True db of
        (Inl e, db1) \<Rightarrow> (Inl e, db1)
      | (Inr (processed, _, chunks), db1) \<Rightarrow>
          (case embed_all 50 db1 of (Inl e, db2) \<Rightarrow> (Inl e, db2) | (Inr (_, embedded), db2) \<Rightarrow> (Inr (processed, chunks, embedded), db2)))"

subsection \<open>One question from the command line\<close>

record ask_args =
  aa_question :: string
  aa_model :: "string option"
  aa_format :: string
  aa_workdir :: "string option"
  aa_json_output :: "string option"
  aa_hydrate_from :: "string option"
  aa_child :: bool

text \<open>\<open>ak_hive\<close> starts the service of scripts with the extension at a path and gives its tools; \<open>ak_strings\<close> reads a JSON list of
  strings, \<open>ak_clock\<close> is in milliseconds.\<close>

record 'w ask_host =
  ak_config :: "'w \<Rightarrow> (anyhow_error, config) res"
  ak_project_dir :: "string option \<Rightarrow> 'w \<Rightarrow> (anyhow_error, path) res"
  ak_memory :: "config \<Rightarrow> string \<Rightarrow> 'w \<Rightarrow> (anyhow_error, unit) res \<times> 'w"
  ak_agent :: "string \<Rightarrow> path \<Rightarrow> string \<Rightarrow> 'w \<Rightarrow> (anyhow_error, 'w agent) res \<times> 'w"
  ak_hive_enabled :: "config \<Rightarrow> bool"
  ak_config_path :: "path option"
  ak_exe :: "path option"
  ak_cwd :: "path option"
  ak_present :: "path \<Rightarrow> 'w \<Rightarrow> bool"
  ak_hive :: "path \<Rightarrow> 'w \<Rightarrow> (anyhow_error, 'w tool list) res \<times> 'w"
  ak_var :: "string \<Rightarrow> string option"
  ak_strings :: "string \<Rightarrow> (string, string list) res"
  ak_new_session :: "'w agent \<Rightarrow> 'w \<Rightarrow> (anyhow_error, session) res \<times> 'w"
  ak_hydrate :: "path \<Rightarrow> session \<Rightarrow> 'w \<Rightarrow> (anyhow_error, session) res \<times> 'w"
  ak_remove :: "path \<Rightarrow> 'w \<Rightarrow> 'w"
  ak_lock_new :: "'w \<Rightarrow> (anyhow_error, unit) res \<times> 'w"
  ak_lock :: "'w \<Rightarrow> (anyhow_error, unit) res \<times> 'w"
  ak_clock :: "'w \<Rightarrow> nat"
  ak_pretty :: "json \<Rightarrow> (anyhow_error, string) res"
  ak_write :: "path \<Rightarrow> string \<Rightarrow> 'w \<Rightarrow> (anyhow_error, unit) res \<times> 'w"
  ak_rename :: "path \<Rightarrow> path \<Rightarrow> 'w \<Rightarrow> (anyhow_error, unit) res \<times> 'w"

definition hive_file :: path where
  "hive_file = [Normal ''extensions'', Normal ''hive'', Normal ''main.js'']"

text \<open>Where the extension is looked for: beside the configuration, beside the directory of the program, and, if that one has a
  directory, where the program was started.\<close>

definition hive_path :: "'w ask_host \<Rightarrow> 'w \<Rightarrow> path option" where
  "hive_path h w =
     (let here = (\<lambda>p. if ak_present h p w then Some p else None);
          beside = Option.bind (Option.bind (ak_config_path h) parent) (\<lambda>d. here (path_join d hive_file))
      in case beside of
        Some p \<Rightarrow> Some p
      | None \<Rightarrow> Option.bind (Option.bind (ak_exe h) parent) (\<lambda>d.
          or_else (here (path_join d (ParentDir # hive_file))) (here (path_join (unwrap_or (ak_cwd h) []) hive_file))))"

definition with_hive :: "'w ask_host \<Rightarrow> config \<Rightarrow> 'w agent \<Rightarrow> 'w \<Rightarrow> 'w agent \<times> 'w" where
  "with_hive h c a w =
     (if \<not> ak_hive_enabled h c then (a, w)
      else case hive_path h w of
        None \<Rightarrow> (a, w)
      | Some p \<Rightarrow>
          (case ak_hive h p w of
             (Inl _, w1) \<Rightarrow> (a, w1)
           | (Inr ts, w1) \<Rightarrow> (set_tools (e_tools (ag_engine a) @ ts) a, w1)))"

definition child_tools :: "'w ask_host \<Rightarrow> 'w agent \<Rightarrow> (anyhow_error, 'w agent) res" where
  "child_tools h a =
     (case ak_var h ''ZIER_CHILD_TOOLS'' of
        None \<Rightarrow> Inr a
      | Some j \<Rightarrow>
          (case ak_strings h j of
             Inl e \<Rightarrow> Inl (Msg (''Invalid ZIER_CHILD_TOOLS JSON: '' @ e))
           | Inr allowed \<Rightarrow> Inr (set_tools (filter (\<lambda>t. t_name t \<in> set allowed) (e_tools (ag_engine a))) a)))"

definition ask_agent :: "'w ask_host \<Rightarrow> ask_args \<Rightarrow> config \<Rightarrow> path \<Rightarrow> string \<Rightarrow> 'w \<Rightarrow> (anyhow_error, 'w agent) res \<times> 'w" where
  "ask_agent h args c project_dir agent_id w =
     and_then (ak_memory h c agent_id w) (\<lambda>_ w1.
     and_then (ak_agent h (unwrap_or (aa_model args) (ac_default_model (cf_agent c))) project_dir agent_id w1) (\<lambda>a w2.
     apfst (child_tools h) (with_hive h c a w2)))"

text \<open>The file a session is read from is removed afterwards.\<close>

definition ask_session :: "'w ask_host \<Rightarrow> ask_args \<Rightarrow> 'w agent \<Rightarrow> 'w \<Rightarrow> (anyhow_error, session) res \<times> 'w" where
  "ask_session h args a w =
     and_then (ak_new_session h a w) (\<lambda>s w1.
       case aa_hydrate_from args of
         None \<Rightarrow> (Inr s, w1)
       | Some f \<Rightarrow> and_then (ak_hydrate h (components f) s w1) (\<lambda>s1 w2. (Inr s1, ak_remove h (components f) w2)))"

text \<open>Everything before the question: the agent, its session and the lock, unless a parent is said to hold it.\<close>

definition ask_prepare :: "'w ask_host \<Rightarrow> ask_args \<Rightarrow> string \<Rightarrow> 'w \<Rightarrow> (anyhow_error, 'w agent \<times> session) res \<times> 'w" where
  "ask_prepare h args agent_id w =
     (case ak_config h w of Inl e \<Rightarrow> (Inl e, w) | Inr c \<Rightarrow>
      case ak_project_dir h (aa_workdir args) w of Inl e \<Rightarrow> (Inl e, w) | Inr project_dir \<Rightarrow>
      and_then (ask_agent h args c project_dir agent_id w) (\<lambda>a w1.
      and_then (ask_session h args a w1) (\<lambda>s w2.
      and_then (ak_lock_new h w2) (\<lambda>_ w3.
      and_then (if aa_child args then (Inr (), w3) else ak_lock h w3) (\<lambda>_ w4. (Inr (a, s), w4))))))"

definition ask_usage :: "usage \<Rightarrow> json" where
  "ask_usage u = JObj [''input_tokens'' \<mapsto> JInt (uint (input_tokens u)), ''output_tokens'' \<mapsto> JInt (uint (output_tokens u))]"

definition ask_result :: "'w ask_host \<Rightarrow> ask_args \<Rightarrow> 'w agent \<Rightarrow> session \<Rightarrow> string \<Rightarrow> nat \<Rightarrow> json" where
  "ask_result h args a s response took =
     JObj ([''version'' \<mapsto> JStr ''1.0'', ''session_id'' \<mapsto> JStr (s_id s), ''status'' \<mapsto> JStr ''success'', ''content'' \<mapsto> JStr response,
            ''artifacts'' \<mapsto> JArr [], ''usage'' \<mapsto> ask_usage (ag_usage a)]
       ++ (if aa_child args
           then [''metadata'' \<mapsto> JObj [''agent'' \<mapsto> JStr (unwrap_or (ak_var h ''ZIER_HIVE_AGENT_NAME'') ''clone''),
                   ''model'' \<mapsto> JStr (e_model (ag_engine a)), ''provider'' \<mapsto> JStr (provider_name a),
                   ''latency_ms'' \<mapsto> JInt (int took), ''usage'' \<mapsto> ask_usage (ag_usage a)]]
           else Map.empty))"

text \<open>The extension of the last name is replaced.\<close>

definition temp_path :: "path \<Rightarrow> path" where
  "temp_path p = (case file_stem p of Some stem \<Rightarrow> butlast p @ [Normal (stem @ ''.tmp'')] | None \<Rightarrow> p)"

definition ask_report ::
  "'w ask_host \<Rightarrow> ask_args \<Rightarrow> 'w agent \<Rightarrow> session \<Rightarrow> string \<Rightarrow> nat \<Rightarrow> 'w \<Rightarrow> (anyhow_error, unit) res \<times> 'w" where
  "ask_report h args a s response took w =
     (case aa_json_output args of
        None \<Rightarrow> (Inr (), w)
      | Some f \<Rightarrow>
          let p = components f in
          (case ak_pretty h (ask_result h args a s response took) of
             Inl e \<Rightarrow> (Inl e, w)
           | Inr body \<Rightarrow> and_then (ak_write h (temp_path p) body w) (\<lambda>_ w1. ak_rename h (temp_path p) p w1)))"

definition ask_printed :: "'w ask_host \<Rightarrow> ask_args \<Rightarrow> 'w agent \<Rightarrow> string \<Rightarrow> (anyhow_error, string) res" where
  "ask_printed h args a response =
     (if aa_format args = ''json''
      then ak_pretty h (JObj [''question'' \<mapsto> JStr (aa_question args), ''response'' \<mapsto> JStr response,
             ''model'' \<mapsto> JStr (e_model (ag_engine a))])
      else Inr response)"

text \<open>\<open>None\<close>: the turn does not return.\<close>

definition ask_run :: "'w ask_host \<Rightarrow> ask_args \<Rightarrow> string \<Rightarrow> 'w \<Rightarrow> ((anyhow_error, string) res \<times> 'w) option" where
  "ask_run h args agent_id w =
     (case ask_prepare h args agent_id w of
        (Inl e, w1) \<Rightarrow> Some (Inl e, w1)
      | (Inr (a, s), w1) \<Rightarrow>
          (case agent_chat (aa_question args) a \<lparr>es_session = s, es_approved = approvals_new, es_world = w1\<rparr> of
             None \<Rightarrow> None
           | Some (Inl e, a1, st) \<Rightarrow> Some (Inl e, es_world st)
           | Some (Inr response, a1, st) \<Rightarrow>
               Some (and_then (ask_report h args a1 (es_session st) response (ak_clock h (es_world st) - ak_clock h w1) (es_world st))
                      (\<lambda>_ w2. (ask_printed h args a1 response, w2)))))"

lemma child_tools_allowed:
  assumes "child_tools h a = Inr a'" and "ak_var h ''ZIER_CHILD_TOOLS'' = Some j"
  shows "\<exists>allowed. ak_strings h j = Inr allowed
    \<and> e_tools (ag_engine a') = filter (\<lambda>t. t_name t \<in> set allowed) (e_tools (ag_engine a))"
  using assms by (auto simp: child_tools_def set_tools_def split: sum.splits)

lemma apfst_eq: "apfst f r = (y, w') \<longleftrightarrow> f (fst r) = y \<and> snd r = w'"
  by (cases r) auto

lemma ask_prepare_steps:
  assumes "ask_prepare h args agent_id w = (Inr (a, s), w')"
  obtains a1 w1 where "child_tools h a1 = Inr a" and "(if aa_child args then (Inr (), w1) else ak_lock h w1) = (Inr (), w')"
  using assms unfolding ask_prepare_def ask_agent_def
  by (auto simp: and_then_Inr apfst_eq split: sum.splits)

text \<open>A child is asked with the tools its parent allows and no other, those of the extension included; a list that cannot be read
  stops it. \<open>ask_run\<close> chats with exactly this agent.\<close>

theorem child_restricted:
  assumes "ask_prepare h args agent_id w = (Inr (a, s), w')" and "ak_var h ''ZIER_CHILD_TOOLS'' = Some j"
  shows "\<exists>allowed. ak_strings h j = Inr allowed \<and> t_name ` set (e_tools (ag_engine a)) \<subseteq> set allowed"
proof (rule ask_prepare_steps [OF assms(1)])
  fix a1 w1
  assume "child_tools h a1 = Inr a"
  from child_tools_allowed [OF this assms(2)] show ?thesis by auto
qed

text \<open>Whoever is not a child asks under the lock, taken last; a child does not take it, whether its parent holds it or not.\<close>

lemma ask_under_lock:
  assumes "ask_prepare h args agent_id w = (Inr (a, s), w')" and "\<not> aa_child args"
  shows "\<exists>w1. ak_lock h w1 = (Inr (), w')"
  using ask_prepare_steps [OF assms(1)] assms(2) by metis

text \<open>A turn that fails writes no result, so that the parent that waits for the file learns nothing from it.\<close>

lemma failed_ask_reports_nothing:
  assumes "ask_prepare h args agent_id w = (Inr (a, s), w1)"
    and "agent_chat (aa_question args) a \<lparr>es_session = s, es_approved = approvals_new, es_world = w1\<rparr> = Some (Inl e, a1, st)"
  shows "ask_run h args agent_id w = Some (Inl e, es_world st)"
  using assms by (simp add: ask_run_def)

end
