(* ===== verification/Spec2Isabelle.thy ===== *)
theory Spec2Isabelle
  imports Session_Jsonl Session_Tokens Chat_Streaming Ingress_Handler File_Tools Anthropic_Provider Claude_Cli
    Local_Providers Heartbeat Memory_Index
    Chat_Terminal Telegram
    Openai_Proxy Server_Locks Config_Loading Mcp_Manager Script_Service Memory_Service Http_Views Daemon
    Agent_Assembly
begin

text \<open>
  \<^bold>\<open>A verification library for zier-alpha\<close>

  zier-alpha is a personal assistant written in Rust. Messages reach it from Telegram, from scheduled
  jobs, from scripts and from a terminal. An agent answers each of them: it keeps a session (a
  conversation), asks a language model, runs the tools the model calls, asks its owner for approval
  before some of them, and shortens the conversation when it nears the size of the model's context.
  All paths below are under \<^verbatim>\<open>src/src\<close>.

  \<^bold>\<open>The parts and their theories\<close>, in the order of the imports.

  \<^item> \<open>Rust_Prelude\<close>: what the sources use of Rust and its standard library: byte strings and UTF-8
    code points, \<open>split\<close>, \<open>trim\<close>, \<open>join\<close>, results as sums with the error type \<open>err\<close>, unsigned words,
    hash maps as association lists, and the collections of facts the proofs share.
  \<^item> \<open>Llm_Types\<close>: the messages, tool calls, responses and stream items of \<^verbatim>\<open>agent/providers.rs\<close> and
    the errors of \<^verbatim>\<open>agent/llm_error.rs\<close>.
  \<^item> \<open>Session_Model\<close>, \<open>Session_Tokens\<close>, \<open>Session_Jsonl\<close>: \<^verbatim>\<open>agent/session.rs\<close>. The record \<open>session\<close>
    has the fields of the struct; token counts are 64-bit and compaction counts 32-bit words and wrap.
    \<open>save_text\<close> and \<open>load_text\<close> are the text \<^verbatim>\<open>save_to_path\<close> writes and \<^verbatim>\<open>load_from_path\<close> reads.
  \<^item> \<open>Model_Config\<close>: \<^verbatim>\<open>config/models.rs\<close>, inheritance between model configurations.
  \<^item> \<open>Smart_Client\<close>: \<^verbatim>\<open>agent/client.rs\<close> and the choice of a provider in \<^verbatim>\<open>agent/providers.rs\<close>.
  \<^item> \<open>Http_Stream\<close>, \<open>Openai_Provider\<close>, \<open>Anthropic_Provider\<close>, \<open>Local_Providers\<close>, \<open>Claude_Cli\<close>: the providers of
    \<^verbatim>\<open>agent/providers.rs\<close>, from requests as JSON values to answers, errors and streams; the first holds what the
    HTTP streams share, the last runs a program and parses its lines.
  \<^item> \<open>Session_Store\<close>: \<^verbatim>\<open>agent/session_store.rs\<close>; \<open>Turn_Locks\<close>: \<^verbatim>\<open>concurrency\<close>, the gate and the lock that keep
    turns apart, with the order in which the callers take them.
  \<^item> \<open>System_Prompt\<close>: \<^verbatim>\<open>agent/system_prompt.rs\<close>; \<open>Heartbeat\<close>: \<^verbatim>\<open>heartbeat/runner.rs\<close> and the durations and
    times of \<^verbatim>\<open>config/schema.rs\<close>.
  \<^item> \<open>Memory_Index\<close>: \<^verbatim>\<open>memory/index.rs\<close>, \<^verbatim>\<open>memory/search.rs\<close> and the upkeep in \<^verbatim>\<open>memory/mod.rs\<close>: the tables as
    lists and maps of rows, every statement on them a function; which of the statements whose result the code ignores
    the database refuses is part of its state.
  \<^item> \<open>Skills\<close>: \<^verbatim>\<open>agent/skills.rs\<close>; \<open>Disk_Monitor\<close>: \<^verbatim>\<open>agent/disk_monitor.rs\<close>; \<open>Chat_Terminal\<close>: \<^verbatim>\<open>agent/attachments.rs\<close>
    and what \<^verbatim>\<open>cli/chat.rs\<close> makes of a line of input.
  \<^item> \<open>Telegram\<close>: \<^verbatim>\<open>ingress/telegram_client.rs\<close>, \<^verbatim>\<open>server/telegram.rs\<close> and \<^verbatim>\<open>server/telegram_polling.rs\<close>.
  \<^item> \<open>Http_Server\<close>, \<open>Http_Sessions\<close>: the state and the handlers of \<^verbatim>\<open>server/http.rs\<close> and what is proved of them; an agent
    is shared, so it lives in a list and a session has its address. \<open>Openai_Proxy\<close>: \<^verbatim>\<open>server/openai.rs\<close>, of which the
    table of sessions it shares with the other handlers is in \<open>Http_Server\<close>;
    \<open>Server_Locks\<close>: the order in which the handlers of both take their mutexes.
  \<^item> \<open>Config_Schema\<close>, \<open>Config_Document\<close>, \<open>Config_Loading\<close>: \<^verbatim>\<open>config/mod.rs\<close>, \<^verbatim>\<open>config/sandbox.rs\<close> and \<^verbatim>\<open>cli/config.rs\<close>: the
    document as a tree with the defaults of all fields, reading and writing it, and loading, checking and changing it.
  \<^item> \<open>Mcp_Connection\<close>, \<open>Mcp_Manager\<close>: \<^verbatim>\<open>agent/mcp_manager.rs\<close> and \<^verbatim>\<open>agent/tools/mcp.rs\<close>: the calls of one connection and
    the table of servers, both as transition systems.
  \<^item> \<open>Memory_Service\<close>: the rest of \<^verbatim>\<open>memory\<close>: the workspace and its templates (\<^verbatim>\<open>workspace.rs\<close>), the embedding models
    (\<^verbatim>\<open>embeddings.rs\<close>), opening, reading and statistics (\<^verbatim>\<open>mod.rs\<close>), the watcher and the artifacts.
  \<^item> \<open>Default_Tools\<close>: the list of built-in tools of \<^verbatim>\<open>agent/tools.rs\<close>, what they tell the model, and the two searches of the
    memory; \<open>Agent_Assembly\<close>: how \<^verbatim>\<open>agent/mod.rs\<close> makes an agent of them, of MCP servers and of programs, its system prompt, and
    the command \<^verbatim>\<open>cli/ask.rs\<close>.
  \<^item> \<open>Http_Views\<close>: the routes and the start of \<^verbatim>\<open>server/http.rs\<close> and its handlers that only show something.
  \<^item> \<open>Daemon\<close>: \<^verbatim>\<open>cli/daemon.rs\<close>, the supervisor of \<^verbatim>\<open>main.rs\<close>, \<^verbatim>\<open>cli/common.rs\<close> and \<^verbatim>\<open>prompts/registry.rs\<close>.
  \<^item> \<open>Sandbox_Runner\<close>: the profile and the command lines under which external tools run on the platforms
    (\<^verbatim>\<open>security/apple_sandbox.rs\<close>, \<^verbatim>\<open>agent/tools/runner.rs\<close>, \<^verbatim>\<open>agent/tools/external.rs\<close>).
  \<^item> \<open>Script_Host\<close>: the operations of \<^verbatim>\<open>scripting/deno.rs\<close> as one function of the state of the sandbox, its capabilities, and
    the calls into the engine; \<open>Script_Service\<close>: \<^verbatim>\<open>scripting/service.rs\<close> and \<^verbatim>\<open>scripting/loader.rs\<close> with the tools made of
    scripts (\<^verbatim>\<open>agent/tools/script.rs\<close>, \<^verbatim>\<open>agent/tools/system.rs\<close>).
  \<^item> \<open>Sanitizer\<close>: \<^verbatim>\<open>agent/sanitize.rs\<close>, delimiters and filters for text from outside.
  \<^item> \<open>Tool_Executor\<close>: \<^verbatim>\<open>agent/tool_executor.rs\<close>, the register of approvals and the approval gate.
  \<^item> \<open>Path_Policy\<close>: \<^verbatim>\<open>agent/tools/path.rs\<close> and \<^verbatim>\<open>scripting/safety.rs\<close>, what files and commands are
    permitted, over the components of paths; \<open>File_Tools\<close>: the built-in tools of \<^verbatim>\<open>agent/tools.rs\<close>.
  \<^item> \<open>Session_Manager\<close>: \<^verbatim>\<open>agent/session_manager.rs\<close> and \<^verbatim>\<open>agent/compaction.rs\<close>.
  \<^item> \<open>Chat_Engine\<close>: the definitions of \<^verbatim>\<open>agent/chat_engine.rs\<close>; \<open>Chat_Protocol\<close>, \<open>Chat_Turns\<close> and
    \<open>Chat_Streaming\<close> hold what is proved of the tool loop, of whole turns and of streams.
  \<^item> \<open>Memory_Context\<close>, \<open>Agent_Core\<close>: \<^verbatim>\<open>agent/memory_context.rs\<close>, the facade \<^verbatim>\<open>agent/mod.rs\<close>, the
    registry \<^verbatim>\<open>agent/tools/registry.rs\<close> and the session map \<^verbatim>\<open>state/session_manager.rs\<close>.
  \<^item> \<open>Ingress_Debounce\<close>: \<^verbatim>\<open>ingress/types.rs\<close>, \<^verbatim>\<open>ingress/debounce.rs\<close> and the worker of
    \<^verbatim>\<open>ingress/controller.rs\<close>.
  \<^item> \<open>Approval_Coordinator\<close>: \<^verbatim>\<open>ingress/approval.rs\<close> as a transition system.
  \<^item> \<open>Ingress_Handler\<close>: \<^verbatim>\<open>ingress/handler.rs\<close> and the messages of \<^verbatim>\<open>scheduler\<close>.

  \<^bold>\<open>How the code is modelled.\<close> A struct is a record, an enum a datatype, a method a function from the
  old state to the result and the new state. An error is a value \<open>Inl e\<close>. Text is the list of its
  UTF-8 bytes, because the sources mix byte and character counts. Whatever acts outside the process (providers, tools,
  files, the clock) acts on a world of an arbitrary type that is passed through, so that the order of
  the effects is part of every statement. Crates are parameters: the tokenizer, the regular
  expressions, glob patterns, the JSON printer and parser, dates. Where a theorem relies on one, it
  names the law: \<open>replaces_ci\<close> for the case-insensitive literal replacement of the regex crate,
  \<open>json_lines_ok\<close> and \<open>message_saveable\<close> for what JSON and dates read back, \<open>canonicalizes\<close> for the
  documented result of \<open>Path::canonicalize\<close>, \<open>faithful\<close> for the file of sessions being read back as written,
  \<open>one_vector_each\<close> for an embedding model that answers with one vector for each text, \<open>lists_children\<close> and \<open>sizes_stay\<close> for
  directory listings, \<open>lowers_ascii\<close> for \<open>to_lowercase\<close> on ASCII, \<open>serves\<close> for the updates the Telegram server
  answers with, \<open>writes_values\<close> for the JSON values the crate \<open>toml\<close> writes being read back,
  \<open>workspace_laws\<close> for writing files and making directories, \<open>bwrap_arity\<close> for the number of arguments the documented options of
  bubblewrap take, \<open>keeps\<close> for what the accesses a script is permitted leave alone, \<open>read_sexps\<close> and \<open>granted\<close> for the
  S-expressions of a profile of macOS and what its rules allow. Where the code may panic, the value is \<open>None\<close>; in
  \<open>Heartbeat\<close>, where a turn may also fail to return, it is of a type with the cases \<open>Returns\<close>, \<open>Panics\<close> and \<open>Diverges\<close>.

  \<^bold>\<open>What is shown.\<close>

  \<^item> Sessions: what is saved is read back, up to a system message that becomes the system context; compaction tries the
    models in order and truncates only when all have failed; the token count is that of the content in every state
    reachable without truncation; the effect of compaction and truncation on the messages.
  \<^item> Models: inheritance ends on every configuration; a chat goes through the candidates in
    order and stops where the settings of a model deny the fallback.
  \<^item> Tools: over every history an approval admits one run; no template marker survives
    in a wrapped output; files are touched only at the path that passed the check, what the check
    guarantees of a permitted path, and what reading and editing make of a text.
  \<^item> Turns: every message with tool calls is followed by the results of its calls, in order; an
    interrupted round is taken up where it stopped; a turn returns when the provider asks for tools
    only finitely often; a stream ends after at most ten rounds and starts no guarded tool.
  \<^item> Ingress: debouncing loses, repeats and reorders nothing; a request for approval gets the decision
    given for its call only; an untrusted event runs without tools and without effects.
  \<^item> Providers: the pieces in which a stream arrives do not matter unless they cut a code point; what the OpenAI
    stream hands on of its texts and of the fragments of calls; what is written into a request is read back from an answer of the same form.
  \<^item> Sharing: every update of the file of sessions takes effect at once under all interleavings; of the turns that
    take the lock one at a time runs, and no turn waits for ever; a history of the heartbeat does not send an alert twice a day.
  \<^item> Memory: the chunks cover a text without a gap; what a run of the indexer makes of each file, unreadable and
    unchanged ones too; in every state of the index a search finds what is there as far as the ignored statements succeeded; the merge of two rankings; the embedding loop ends.
  \<^item> Telegram: every update is handled once; a command of the owner comes from the owner, through the debouncer
    too; buttons decide the call they belong to; a document stays in its directory.
  \<^item> Servers: a request changes its own session only, sessions stay within their limit but for those of the OpenAI-compatible
    handler, and which orders of the mutexes can stop each other; a stream says what the single answer says, if that does not panic.
  \<^item> Configuration: what is saved is read back, what a key is set to is what is loaded; what the defaults are.
  \<^item> MCP: a call gets the answer to its own id or an error, when calls end, and no server process is lost.
  \<^item> Terminal: a command of a skill reaches the agent with its arguments; attaching respects the limit; cleaning up
    removes nothing but old transcripts and logs, and no more logs than the limit asks for.
  \<^item> Sandboxes and scripts: what a profile and a command line permit, and how an argument adds rules to the profile; a script that
    uses no steps up touches only what its capabilities permit, and how it gets more; a call of a tool goes to the script that registered it.
  \<^item> Opening the memory: existing files are kept and missing ones made from the templates, once; an artifact stays in its
    directory; the index stays consistent under the watcher, which does not see removals.
  \<^item> Tools of an agent: built-in tools keep their names, refuse calls without what they require, and a search of the files is the
    plain one; a child is asked with the tools its parent allows only.
  \<^item> Processes: a stop that reports success has waited for the end; which logs are removed, by the order of their dates; the waits
    of the supervisor; no two routes of the server take the same path.
  \<^item> Where the code does not do what it means to, the theorem states what it does: truncation leaves
    the token count stale, a prompt set before \<open>new_session\<close> is lost, a continuation does not record
    the reply, a path with steps up behind a missing name leaves the project, a chat and a
    status request can block each other for ever, a saved HTTP session is not found again, \<^verbatim>\<open>config set\<close> can make the
    configuration unloadable, and others.

  \<^bold>\<open>Interfaces.\<close> The locale \<open>approval_register\<close> of \<open>Tool_Executor\<close> states what a one-shot register
  promises and is interpreted on the set of call identifiers; \<open>compaction_strategy\<close> of
  \<open>Session_Manager\<close> is interpreted on the native and on the script strategy; \<open>token_keeping\<close> of \<open>Session_Tokens\<close> on
  the operations that add to a session; \<open>index_keeping\<close> of \<open>Memory_Index\<close>, what the operations of the index owe
  the searches, on indexing, removal, embedding and caching; \<open>ordered_locks\<close> of
  \<open>Server_Locks\<close>, handlers that take their mutexes along a rank, on the handlers that do.

  \<^bold>\<open>Loops.\<close> The non-streaming tool loop has no bound in the source and is a partial function in the
  option type: \<open>None\<close> is a turn that does not return, and \<open>chat_returns\<close> says when it does. The streaming
  loop counts down from the ten rounds of the source. Waiting for a promise of a script has no bound either and is partial
  (\<open>await_promise\<close>). A script that asks for a server runs the transition system of the MCP manager for five steps, which are
  enough for a start that nothing disturbs (\<open>ensure_server_eq\<close>). All other loops are total functions.

  \<^bold>\<open>Not modelled.\<close> The router and the assets of the HTTP server, audio transcription, the JavaScript engine
  with its modules and the bootstrap code of scripts, SQLite itself and what embedding models compute, arithmetic on \<open>f32\<close>, the
  desktop, and what the terminal prints: they are input and output, and parameters where a modelled
  part calls them. Concurrency is modelled where the sources share state between tasks and a property depends on
  it (the approval coordinator, the debounce worker, the file of sessions, the gate and the lock of turns, the polling
  service, the mutexes of the server, the calls and starts of MCP servers); elsewhere a message is handled with its
  session to itself, and the handlers of \<open>Http_Server\<close> run one after the other. A task that is dropped halfway is not
  modelled. Logging is left out.

  \<^bold>\<open>Plan.\<close> What would come next: the loop of \<^verbatim>\<open>cli/chat.rs\<close> around its commands and the worker of the desktop.
\<close>

end
